(* ===== verification/Deai_Prelude.thy ===== *)
theory Deai_Prelude
  imports Main "HOL-Library.Word" "HOL-Library.Sublist"
begin

text \<open>
  Shared vocabulary of the deai development: the machine integer types of the C code, the
  error codes it returns, the ways a run can go wrong, the state and exception monad the
  stateful components are written in, and generic facts on lists, association lists, sums
  and words.  Nothing here is specific to one component.
\<close>

named_theorems outcome_simps \<open>evaluation rules of the execution monad\<close>
named_theorems heap_simps \<open>rewriting of object-heap accesses\<close>
named_theorems wf_intros \<open>introduction rules for the heap invariants\<close>

type_synonym u64 = "64 word"
type_synonym u32 = "32 word"
type_synonym u16 = "16 word"
type_synonym u8 = "8 word"

text \<open>Addresses of heap objects and of other C storage.\<close>

type_synonym addr = nat

text \<open>A C function pointer is named by the symbol it points to.\<close>

type_synonym fn_ptr = string

section \<open>Error codes\<close>

text \<open>The negated errno values the library returns.\<close>

definition ENOENT :: int where "ENOENT = 2"
definition E2BIG :: int where "E2BIG = 7"
definition ENOMEM :: int where "ENOMEM = 12"
definition EEXIST :: int where "EEXIST = 17"
definition EINVAL :: int where "EINVAL = 22"
definition ERANGE :: int where "ERANGE = 34"

lemmas errno_defs = ENOENT_def E2BIG_def ENOMEM_def EEXIST_def EINVAL_def ERANGE_def

section \<open>The execution monad\<close>

text \<open>
  A run of C code ends normally (\<open>Ret\<close>), by a C++ exception that carries an error object
  (\<open>Throw\<close>, raised by \<^verbatim>\<open>di_throw\<close>), or it goes wrong (\<open>Crash\<close>): a failed
  \<^verbatim>\<open>assert\<close>, \<^verbatim>\<open>DI_CHECK\<close> or \<^verbatim>\<open>DI_PANIC\<close>, an access to freed or out-of-bounds memory, a
  null dereference.  \<open>Out_of_fuel\<close> is no behaviour of the program: it marks a run cut short
  by the bound a recursive definition carries, and every theorem about such a definition
  says which bound is enough.
\<close>

datatype fault = Assert_failed | Use_after_free | Null_deref | Out_of_bounds | Panic | Out_of_fuel

datatype ('s, 'a) outcome = Ret 'a 's | Throw addr 's | Crash fault

definition mret :: "'a \<Rightarrow> 's \<Rightarrow> ('s, 'a) outcome" where
  "mret x s = Ret x s"

definition mbind :: "('s \<Rightarrow> ('s, 'a) outcome) \<Rightarrow> ('a \<Rightarrow> 's \<Rightarrow> ('s, 'b) outcome) \<Rightarrow> 's \<Rightarrow> ('s, 'b) outcome" where
  "mbind m k s = (case m s of Ret x s' \<Rightarrow> k x s' | Throw e s' \<Rightarrow> Throw e s' | Crash f \<Rightarrow> Crash f)"

definition mseq :: "('s \<Rightarrow> ('s, unit) outcome) \<Rightarrow> ('s \<Rightarrow> ('s, 'b) outcome) \<Rightarrow> 's \<Rightarrow> ('s, 'b) outcome" where
  "mseq m k = mbind m (\<lambda>_. k)"

definition mcrash :: "fault \<Rightarrow> 's \<Rightarrow> ('s, 'a) outcome" where
  "mcrash f s = Crash f"

definition mthrow :: "addr \<Rightarrow> 's \<Rightarrow> ('s, 'a) outcome" where
  "mthrow e s = Throw e s"

definition mget :: "('s \<Rightarrow> 'a) \<Rightarrow> 's \<Rightarrow> ('s, 'a) outcome" where
  "mget f s = Ret (f s) s"

definition mmodify :: "('s \<Rightarrow> 's) \<Rightarrow> 's \<Rightarrow> ('s, unit) outcome" where
  "mmodify f s = Ret () (f s)"

text \<open>\<^verbatim>\<open>assert\<close> and \<^verbatim>\<open>DI_CHECK\<close>.\<close>

definition mcheck :: "fault \<Rightarrow> bool \<Rightarrow> 's \<Rightarrow> ('s, unit) outcome" where
  "mcheck f b s = (if b then Ret () s else Crash f)"

text \<open>A loop over a list that is fixed when the loop starts.\<close>

fun mforeach :: "('x \<Rightarrow> 's \<Rightarrow> ('s, unit) outcome) \<Rightarrow> 'x list \<Rightarrow> 's \<Rightarrow> ('s, unit) outcome" where
  "mforeach f [] = mret ()"
| "mforeach f (x # xs) = mseq (f x) (mforeach f xs)"

fun mmap :: "('x \<Rightarrow> 's \<Rightarrow> ('s, 'y) outcome) \<Rightarrow> 'x list \<Rightarrow> 's \<Rightarrow> ('s, 'y list) outcome" where
  "mmap f [] = mret []"
| "mmap f (x # xs) = mbind (f x) (\<lambda>y. mbind (mmap f xs) (\<lambda>ys. mret (y # ys)))"

text \<open>
  \<^verbatim>\<open>di_call_object_catch\<close> style handling: an exception becomes an error object.
\<close>

definition mcatch :: "('s \<Rightarrow> ('s, 'a) outcome) \<Rightarrow> (addr \<Rightarrow> 's \<Rightarrow> ('s, 'a) outcome) \<Rightarrow> 's \<Rightarrow> ('s, 'a) outcome" where
  "mcatch m h s = (case m s of Ret x s' \<Rightarrow> Ret x s' | Throw e s' \<Rightarrow> h e s' | Crash f \<Rightarrow> Crash f)"

text \<open>
  Variables with a cleanup attribute: \<open>c\<close> runs when the scope of \<open>m\<close> ends, also when it
  ends by an exception (the C code is compiled with \<^verbatim>\<open>-fexceptions\<close>).
\<close>

definition mscoped :: "('s \<Rightarrow> ('s, 'a) outcome) \<Rightarrow> ('s \<Rightarrow> ('s, unit) outcome) \<Rightarrow> 's \<Rightarrow> ('s, 'a) outcome" where
  "mscoped m c s = (case m s of
       Ret x s' \<Rightarrow> mbind c (\<lambda>_. mret x) s'
     | Throw e s' \<Rightarrow> mbind c (\<lambda>_. mthrow e) s'
     | Crash f \<Rightarrow> Crash f)"

lemma mret_apply [outcome_simps]: "mret x s = Ret x s"
  by (simp add: mret_def)

lemma mbind_Ret [outcome_simps]: "m s = Ret x s' \<Longrightarrow> mbind m k s = k x s'"
  by (simp add: mbind_def)

lemma mbind_mret [outcome_simps]: "mbind (mret x) k = k x"
  by (simp add: mbind_def mret_def fun_eq_iff)

lemma mseq_Ret [outcome_simps]: "m s = Ret () s' \<Longrightarrow> mseq m k s = k s'"
  by (simp add: mseq_def mbind_def)

lemma mcheck_apply [outcome_simps]: "mcheck f b s = (if b then Ret () s else Crash f)"
  by (simp add: mcheck_def)

lemma mget_apply [outcome_simps]: "mget f s = Ret (f s) s"
  by (simp add: mget_def)

lemma mmodify_apply [outcome_simps]: "mmodify f s = Ret () (f s)"
  by (simp add: mmodify_def)

lemma mcrash_apply [outcome_simps]: "mcrash f s = Crash f"
  by (simp add: mcrash_def)

lemma mthrow_apply [outcome_simps]: "mthrow e s = Throw e s"
  by (simp add: mthrow_def)

lemma mbind_assoc: "mbind (mbind m k) h = mbind m (\<lambda>x. mbind (k x) h)"
  by (rule ext) (simp add: mbind_def split: outcome.splits)

lemma mbind_eq_Ret:
  "mbind m k s = Ret y s' \<longleftrightarrow> (\<exists>x t. m s = Ret x t \<and> k x t = Ret y s')"
  by (auto simp: mbind_def split: outcome.splits)

lemma mseq_eq_Ret:
  "mseq m k s = Ret y s' \<longleftrightarrow> (\<exists>t. m s = Ret () t \<and> k t = Ret y s')"
  by (auto simp: mseq_def mbind_eq_Ret)

lemma mforeach_append: "mforeach f (xs @ ys) = mseq (mforeach f xs) (mforeach f ys)"
  by (induction xs)
    (simp_all add: mseq_def mbind_assoc fun_eq_iff mbind_def mret_def split: outcome.splits)

lemma mforeach_cong [fundef_cong]:
  assumes "xs = ys" and "\<And>x. x \<in> set ys \<Longrightarrow> f x = g x"
  shows "mforeach f xs = mforeach g ys"
proof -
  have "\<forall>x \<in> set ys. f x = g x \<Longrightarrow> mforeach f ys = mforeach g ys"
    by (induction ys) auto
  with assms show ?thesis by auto
qed

lemma mmap_cong [fundef_cong]:
  assumes "xs = ys" and "\<And>x. x \<in> set ys \<Longrightarrow> f x = g x"
  shows "mmap f xs = mmap g ys"
proof -
  have "\<forall>x \<in> set ys. f x = g x \<Longrightarrow> mmap f ys = mmap g ys"
    by (induction ys) auto
  with assms show ?thesis by auto
qed

text \<open>
  The loop rule: an invariant indexed by the elements still to come holds at the end.
\<close>

lemma mforeach_rule:
  assumes step: "\<And>x rest s. I (x # rest) s \<Longrightarrow> \<exists>s'. f x s = Ret () s' \<and> I rest s'"
  shows "I xs s \<Longrightarrow> \<exists>s'. mforeach f xs s = Ret () s' \<and> I [] s'"
proof (induction xs arbitrary: s)
  case Nil
  then show ?case by (simp add: mret_apply)
next
  case (Cons x xs)
  from step [OF Cons.prems] obtain t where "f x s = Ret () t" and "I xs t"
    by blast
  with Cons.IH [of t] show ?case by (auto simp: mseq_Ret)
qed

section \<open>Association lists with distinct keys\<close>

text \<open>
  \<^verbatim>\<open>uthash\<close> tables are association lists in insertion order: adding appends, deleting keeps
  the order of the rest, and iteration follows the list.
\<close>

fun hash_find :: "'k \<Rightarrow> ('k \<times> 'v) list \<Rightarrow> 'v option" where
  "hash_find k [] = None"
| "hash_find k ((k', v) # t) = (if k' = k then Some v else hash_find k t)"

fun hash_del :: "'k \<Rightarrow> ('k \<times> 'v) list \<Rightarrow> ('k \<times> 'v) list" where
  "hash_del k [] = []"
| "hash_del k ((k', v) # t) = (if k' = k then t else (k', v) # hash_del k t)"

definition hash_add :: "'k \<Rightarrow> 'v \<Rightarrow> ('k \<times> 'v) list \<Rightarrow> ('k \<times> 'v) list" where
  "hash_add k v t = t @ [(k, v)]"

fun hash_set :: "'k \<Rightarrow> 'v \<Rightarrow> ('k \<times> 'v) list \<Rightarrow> ('k \<times> 'v) list" where
  "hash_set k v [] = []"
| "hash_set k v ((k', v') # t) = (if k' = k then (k, v) # t else (k', v') # hash_set k v t)"

text \<open>The key after \<open>k\<close> in iteration order: \<^verbatim>\<open>hh.next\<close>.\<close>

fun hash_next :: "'k \<Rightarrow> ('k \<times> 'v) list \<Rightarrow> 'k option" where
  "hash_next k [] = None"
| "hash_next k ((k', v) # t) =
     (if k' = k then (case t of [] \<Rightarrow> None | (k2, _) # _ \<Rightarrow> Some k2) else hash_next k t)"

abbreviation hash_keys :: "('k \<times> 'v) list \<Rightarrow> 'k list" where
  "hash_keys t \<equiv> map fst t"

lemma hash_find_map_of: "hash_find k t = map_of t k"
  by (induction t) auto

lemma hash_find_None: "hash_find k t = None \<longleftrightarrow> k \<notin> set (hash_keys t)"
  by (simp add: hash_find_map_of map_of_eq_None_iff)

lemma hash_find_Some_mem: "hash_find k t = Some v \<Longrightarrow> (k, v) \<in> set t"
  by (induction t) (auto split: if_splits)

lemma hash_find_append:
  "hash_find k (xs @ ys) = (case hash_find k xs of None \<Rightarrow> hash_find k ys | Some v \<Rightarrow> Some v)"
  by (induction xs) auto

lemma hash_find_del: "distinct (hash_keys t) \<Longrightarrow> hash_find k' (hash_del k t) = (if k' = k then None else hash_find k' t)"
proof (induction t)
  case Nil
  then show ?case by simp
next
  case (Cons p t)
  then show ?case by (cases p) (force simp: hash_find_None split: if_splits)
qed

lemma hash_find_add:
  "hash_find k t = None \<Longrightarrow> hash_find k' (hash_add k v t) = (if k' = k then Some v else hash_find k' t)"
  by (auto simp: hash_add_def hash_find_append split: option.splits)

lemma hash_find_set:
  "hash_find k' (hash_set k v t) = (if k' = k \<and> k \<in> set (hash_keys t) then Some v else hash_find k' t)"
proof (induction t)
  case Nil
  then show ?case by simp
next
  case (Cons p t)
  then show ?case by (cases p) force
qed

lemma hash_keys_del: "distinct (hash_keys t) \<Longrightarrow> set (hash_keys (hash_del k t)) = set (hash_keys t) - {k}"
proof (induction t)
  case Nil
  then show ?case by simp
next
  case (Cons p t)
  then show ?case by (cases p) (auto split: if_splits)
qed

lemma hash_keys_del_subset: "set (hash_keys (hash_del k t)) \<subseteq> set (hash_keys t)"
proof (induction t)
  case Nil
  then show ?case by simp
next
  case (Cons p t)
  then show ?case by (cases p) (force split: if_splits)
qed

lemma distinct_hash_del: "distinct (hash_keys t) \<Longrightarrow> distinct (hash_keys (hash_del k t))"
proof (induction t)
  case Nil
  then show ?case by simp
next
  case (Cons p t)
  obtain k' v where p: "p = (k', v)" by (cases p)
  from Cons.prems p have "k' \<notin> set (hash_keys (hash_del k t))"
    using hash_keys_del_subset [of k t] by auto
  with Cons p show ?case by simp
qed

lemma distinct_hash_add:
  "distinct (hash_keys t) \<Longrightarrow> hash_find k t = None \<Longrightarrow> distinct (hash_keys (hash_add k v t))"
  by (auto simp: hash_add_def hash_find_None)

lemma hash_keys_set: "hash_keys (hash_set k v t) = hash_keys t"
  by (induction t) auto

lemma length_hash_del: "hash_find k t = Some v \<Longrightarrow> length t = Suc (length (hash_del k t))"
  by (induction t) (auto split: if_splits)

lemma length_hash_del_le: "length (hash_del k t) \<le> length t"
  by (induction t) auto

lemma set_hash_del: "set (hash_del k t) \<subseteq> set t"
proof (induction t)
  case Nil
  then show ?case by simp
next
  case (Cons p t)
  then show ?case by (cases p) auto
qed

lemma hash_del_notin: "k \<notin> set (hash_keys t) \<Longrightarrow> hash_del k t = t"
  by (induction t) auto

lemma hash_find_split:
  assumes "hash_find k t = Some v"
  obtains xs ys where "t = xs @ (k, v) # ys" and "k \<notin> set (hash_keys xs)"
    and "hash_del k t = xs @ ys"
proof -
  from assms have "\<exists>xs ys. t = xs @ (k, v) # ys \<and> k \<notin> set (hash_keys xs) \<and> hash_del k t = xs @ ys"
  proof (induction t)
    case Nil
    then show ?case by simp
  next
    case (Cons p t)
    obtain k' v' where p: "p = (k', v')" by (cases p)
    show ?case
    proof (cases "k' = k")
      case True
      with Cons.prems p show ?thesis by (intro exI [of _ "[]"] exI [of _ t]) simp
    next
      case False
      with Cons p obtain xs ys where "t = xs @ (k, v) # ys" "k \<notin> set (hash_keys xs)" "hash_del k t = xs @ ys"
        by auto
      with False p show ?thesis by (intro exI [of _ "(k', v') # xs"] exI [of _ ys]) auto
    qed
  qed
  then show ?thesis using that by blast
qed

section \<open>Words\<close>

lemma unat_dec: "(x :: u64) \<noteq> 0 \<Longrightarrow> unat (x - 1) = unat x - 1"
  by (rule unat_minus_one)

lemma unat_inc: "unat (x :: u64) < 2 ^ 64 - 1 \<Longrightarrow> unat (x + 1) = unat x + 1"
  by (simp add: unat_word_ariths)

lemma word_dec_le: "(x :: u64) \<noteq> 0 \<Longrightarrow> x - 1 \<le> x"
  by (simp add: word_le_nat_alt unat_dec)

lemma unat_eq_0_iff: "unat (x :: 'a::len word) = 0 \<longleftrightarrow> x = 0"
  by (simp add: unat_eq_zero)

section \<open>Lists and counting\<close>

lemma in_set_tlD: "x \<in> set (tl xs) \<Longrightarrow> x \<in> set xs"
  by (cases xs) auto

lemma sum_remove_point:
  fixes f g :: "'a \<Rightarrow> nat"
  assumes "finite A" and "x \<in> A" and "\<And>y. y \<in> A - {x} \<Longrightarrow> f y = g y"
  shows "sum f A + g x = sum g A + f x"
proof -
  have "sum f A = f x + sum f (A - {x})" and "sum g A = g x + sum g (A - {x})"
    using assms by (simp_all add: sum.remove)
  moreover have "sum f (A - {x}) = sum g (A - {x})"
    using assms(3) by (rule sum.cong [OF refl])
  ultimately show ?thesis by simp
qed

end
