(* ===== verification/Deai_Strings.thy ===== *)
theory Deai_Strings
  imports Deai_Prelude
begin

text \<open>
  The \<^verbatim>\<open>di_string\<close> functions of \<^verbatim>\<open>include/deai/object.h\<close>.  A \<^verbatim>\<open>di_string\<close> is a fat pointer: a
  data pointer, possibly null, and a length.  It is modelled by \<open>None\<close> for
  \<^verbatim>\<open>DI_STRING_INIT\<close> (null data, length 0) and by \<open>Some bs\<close> for the bytes it covers.  A C
  string (\<^verbatim>\<open>const char *\<close>) is the list of its bytes before the terminating NUL, and \<open>None\<close>
  where the pointer may be null.
\<close>

type_synonym di_string = "char list option"

type_synonym c_string = "char list"

abbreviation NUL :: char where "NUL \<equiv> CHR 0x00"

definition DI_STRING_INIT :: di_string where
  "DI_STRING_INIT = None"

text \<open>The bytes and the length a fat pointer covers.\<close>

definition str_bytes :: "di_string \<Rightarrow> char list" where
  "str_bytes s = (case s of None \<Rightarrow> [] | Some bs \<Rightarrow> bs)"

definition str_length :: "di_string \<Rightarrow> nat" where
  "str_length s = length (str_bytes s)"

text \<open>What a C function sees of a NUL-terminated buffer: the bytes before the first NUL.\<close>

definition c_str :: "char list \<Rightarrow> c_string" where
  "c_str bs = takeWhile (\<lambda>c. c \<noteq> NUL) bs"

section \<open>Construction\<close>

definition di_string_dup :: "c_string option \<Rightarrow> di_string" where
  "di_string_dup str = (case str of None \<Rightarrow> None | Some s \<Rightarrow> Some s)"

definition di_string_ndup :: "char list \<Rightarrow> nat \<Rightarrow> di_string" where
  "di_string_ndup str len = Some (take len str)"

text \<open>Cloning the null string allocates an empty buffer: the result has a data pointer.\<close>

definition di_clone_string :: "di_string \<Rightarrow> di_string" where
  "di_clone_string other = di_string_ndup (str_bytes other) (str_length other)"

definition di_string_borrow :: "c_string \<Rightarrow> di_string" where
  "di_string_borrow str = Some str"

section \<open>Conversion to C strings\<close>

text \<open>
  \<open>None\<close> is the return value false; otherwise the bytes written to the output buffer, the
  terminating NUL included.
\<close>

definition di_string_to_chars :: "di_string \<Rightarrow> nat \<Rightarrow> char list option" where
  "di_string_to_chars str capacity =
     (if capacity < str_length str + 1 then None else Some (str_bytes str @ [NUL]))"

text \<open>The allocated buffer, \<open>None\<close> for a null pointer: every empty string gives null.\<close>

definition di_string_to_chars_alloc :: "di_string \<Rightarrow> char list option" where
  "di_string_to_chars_alloc str =
     (if str_length str = 0 then None else di_string_to_chars str (str_length str + 1))"

section \<open>Searching and comparing\<close>

text \<open>\<^verbatim>\<open>memchr\<close>: the offset of the first occurrence.\<close>

fun memchr :: "char list \<Rightarrow> char \<Rightarrow> nat option" where
  "memchr [] c = None"
| "memchr (b # bs) c = (if b = c then Some 0 else map_option Suc (memchr bs c))"

definition di_string_split_once :: "di_string \<Rightarrow> char \<Rightarrow> (di_string \<times> di_string) option" where
  "di_string_split_once str sep =
     (case memchr (str_bytes str) sep of
        None \<Rightarrow> None
      | Some pos \<Rightarrow>
          let head_length = pos;
              rest_length = str_length str - head_length - 1
          in Some (Some (take head_length (str_bytes str)),
                   Some (take rest_length (drop (pos + 1) (str_bytes str)))))"

text \<open>\<^verbatim>\<open>tolower\<close> in the C locale.\<close>

definition c_tolower :: "char \<Rightarrow> char" where
  "c_tolower c = (let n = of_char c :: nat in if 65 \<le> n \<and> n \<le> 90 then char_of (n + 32) else c)"

definition di_string_tolower :: "di_string \<Rightarrow> di_string" where
  "di_string_tolower str = Some (map c_tolower (str_bytes str))"

text \<open>
  \<^verbatim>\<open>strncmp(a, b, n) == 0\<close> on a byte buffer and a C string: bytes are compared until they
  differ, until both are NUL, or until \<open>n\<close> bytes have been compared.
\<close>

fun strncmp_eq :: "char list \<Rightarrow> char list \<Rightarrow> nat \<Rightarrow> bool" where
  "strncmp_eq as bs 0 = True"
| "strncmp_eq (a # as) (b # bs) (Suc n) = (if a \<noteq> b then False else if a = NUL then True else strncmp_eq as bs n)"
| "strncmp_eq [] [] (Suc n) = True"
| "strncmp_eq (a # as) [] (Suc n) = (a = NUL)"
| "strncmp_eq [] (b # bs) (Suc n) = (b = NUL)"

definition di_string_starts_with :: "di_string \<Rightarrow> c_string \<Rightarrow> bool" where
  "di_string_starts_with str pat =
     (let len = length pat in str_length str \<ge> len \<and> strncmp_eq (str_bytes str) pat len)"

definition memcmp_eq :: "char list \<Rightarrow> char list \<Rightarrow> nat \<Rightarrow> bool" where
  "memcmp_eq as bs n = (take n as = take n bs)"

definition di_string_starts_with_string :: "di_string \<Rightarrow> di_string \<Rightarrow> bool" where
  "di_string_starts_with_string str pat =
     (if str_length str < str_length pat then False
      else memcmp_eq (str_bytes str) (str_bytes pat) (str_length pat))"

definition di_string_eq :: "di_string \<Rightarrow> di_string \<Rightarrow> bool" where
  "di_string_eq a b =
     (if str_length a \<noteq> str_length b then False
      else memcmp_eq (str_bytes a) (str_bytes b) (str_length a))"

section \<open>Concatenation\<close>

text \<open>\<^verbatim>\<open>memcpy\<close> into an allocated buffer at an offset; \<open>None\<close> when it would leave the buffer.\<close>

definition buf_write :: "char list \<Rightarrow> nat \<Rightarrow> char list \<Rightarrow> char list option" where
  "buf_write buf pos bs =
     (if pos + length bs \<le> length buf then Some (take pos buf @ bs @ drop (pos + length bs) buf) else None)"

text \<open>A freshly allocated buffer: its contents are arbitrary, here all \<open>c\<close>.\<close>

definition di_string_concat :: "char \<Rightarrow> di_string \<Rightarrow> di_string \<Rightarrow> di_string option" where
  "di_string_concat c a b =
     (case buf_write (replicate (str_length a + str_length b) c) 0 (str_bytes a) of
        None \<Rightarrow> None
      | Some buf \<Rightarrow> map_option Some (buf_write buf (str_length a) (str_bytes b)))"

text \<open>
  The copying loop of \<^verbatim>\<open>di_string_join\<close>: \<open>i\<close> counts up to the number of strings \<open>n\<close>, \<open>pos\<close>
  is the write position.
\<close>

fun di_string_join_loop ::
  "char list \<Rightarrow> nat \<Rightarrow> nat \<Rightarrow> nat \<Rightarrow> di_string list \<Rightarrow> di_string \<Rightarrow> char list option" where
  "di_string_join_loop ret pos i n [] sep = Some ret"
| "di_string_join_loop ret pos i n (str # strs) sep =
     (case buf_write ret pos (str_bytes str) of
        None \<Rightarrow> None
      | Some ret1 \<Rightarrow>
          (let pos1 = pos + str_length str in
           if i \<noteq> n - 1 \<and> str_length sep > 0 then
             (case buf_write ret1 pos1 (str_bytes sep) of
                None \<Rightarrow> None
              | Some ret2 \<Rightarrow> di_string_join_loop ret2 (pos1 + str_length sep) (i + 1) n strs sep)
           else di_string_join_loop ret1 pos1 (i + 1) n strs sep))"

definition di_string_join :: "char \<Rightarrow> di_string list \<Rightarrow> di_string \<Rightarrow> di_string option" where
  "di_string_join c strs sep =
     (if length strs = 0 then Some DI_STRING_INIT
      else
        let total_len = sum_list (map str_length strs) + str_length sep * (length strs - 1)
        in map_option Some (di_string_join_loop (replicate total_len c) 0 0 (length strs) strs sep))"

section \<open>Substrings\<close>

text \<open>
  The two functions return views.  \<^verbatim>\<open>size_t\<close> addition wraps at \<open>2 ^ 64\<close>, so the clamp of
  \<^verbatim>\<open>di_substring\<close> can be skipped by a huge length; the view then runs past the end of the
  string, which is the error value.
\<close>

definition di_suffix :: "di_string \<Rightarrow> nat \<Rightarrow> di_string" where
  "di_suffix str start =
     (if start \<ge> str_length str then DI_STRING_INIT else Some (drop start (str_bytes str)))"

definition di_substring :: "di_string \<Rightarrow> nat \<Rightarrow> nat \<Rightarrow> fault + di_string" where
  "di_substring str start len =
     (if start \<ge> str_length str \<or> len = 0 then Inr DI_STRING_INIT
      else
        let len' = (if (start + len) mod 2 ^ 64 > str_length str then str_length str - start else len)
        in if start + len' \<le> str_length str
           then Inr (Some (take len' (drop start (str_bytes str))))
           else Inl Out_of_bounds)"

section \<open>Lemmas\<close>

lemma str_bytes_simps [simp]: "str_bytes None = []" "str_bytes (Some bs) = bs"
  by (simp_all add: str_bytes_def)

lemma str_length_simps [simp]: "str_length None = 0" "str_length (Some bs) = length bs"
  by (simp_all add: str_length_def)

lemma str_bytes_INIT [simp]: "str_bytes DI_STRING_INIT = []" "str_length DI_STRING_INIT = 0"
  by (simp_all add: DI_STRING_INIT_def)

lemma length_str_bytes [simp]: "length (str_bytes s) = str_length s"
  by (simp add: str_length_def)

lemma str_length_eq_0: "str_length s = 0 \<longleftrightarrow> str_bytes s = []"
  by (cases s) auto

lemma str_bytes_clone [simp]: "str_bytes (di_clone_string s) = str_bytes s"
  by (simp add: di_clone_string_def di_string_ndup_def flip: length_str_bytes)

lemma memchr_Some:
  "memchr bs c = Some i \<longleftrightarrow> i < length bs \<and> bs ! i = c \<and> c \<notin> set (take i bs)"
proof (induction bs arbitrary: i)
  case Nil
  then show ?case by simp
next
  case (Cons b bs)
  then show ?case by (cases i) auto
qed

lemma memchr_None: "memchr bs c = None \<longleftrightarrow> c \<notin> set bs"
  by (induction bs) auto

lemma strncmp_eq_prefix:
  "NUL \<notin> set pat \<Longrightarrow> length pat \<le> length as \<Longrightarrow> strncmp_eq as pat (length pat) \<longleftrightarrow> prefix pat as"
proof (induction pat arbitrary: as)
  case Nil
  then show ?case by simp
next
  case (Cons p pat)
  then show ?case by (cases as) auto
qed

lemma buf_write_ok:
  "pos + length bs \<le> length buf \<Longrightarrow> buf_write buf pos bs = Some (take pos buf @ bs @ drop (pos + length bs) buf)"
  by (simp add: buf_write_def)

text \<open>The reference definition of joining.\<close>

fun intercalate :: "char list \<Rightarrow> char list list \<Rightarrow> char list" where
  "intercalate sep [] = []"
| "intercalate sep [s] = s"
| "intercalate sep (s # t # ss) = s @ sep @ intercalate sep (t # ss)"

lemma length_intercalate:
  "strs \<noteq> [] \<Longrightarrow>
   length (intercalate sep strs) = sum_list (map length strs) + length sep * (length strs - 1)"
  by (induction sep strs rule: intercalate.induct) auto

lemma intercalate_nil_sep: "intercalate [] (s # ss) = s @ intercalate [] ss"
  by (cases ss) auto

lemma join_loop_intercalate:
  assumes "i + length strs = n" and "pos + length (intercalate (str_bytes sep) (map str_bytes strs)) = length ret"
  shows "di_string_join_loop ret pos i n strs sep =
         Some (take pos ret @ intercalate (str_bytes sep) (map str_bytes strs))"
  using assms
proof (induction strs arbitrary: ret pos i)
  case Nil
  then show ?case by simp
next
  case (Cons s strs)
  show ?case
  proof (cases strs)
    case Nil
    with Cons.prems have "pos + str_length s = length ret" and "\<not> i \<noteq> n - 1"
      by auto
    with Nil show ?thesis by (simp add: buf_write_ok)
  next
    case (Cons t ts)
    let ?rest = "intercalate (str_bytes sep) (map str_bytes strs)"
    let ?r1 = "take pos ret @ str_bytes s @ drop (pos + str_length s) ret"
    let ?r2 = "take pos ret @ str_bytes s @ str_bytes sep @ drop (pos + str_length s + str_length sep) ret"
    from Cons Cons.prems(2) have len: "pos + str_length s + str_length sep + length ?rest = length ret"
      by simp
    then have w1: "buf_write ret pos (str_bytes s) = Some ?r1"
      by (simp add: buf_write_ok)
    from len have w2: "buf_write ?r1 (pos + str_length s) (str_bytes sep) = Some ?r2"
      by (simp add: buf_write_ok add.commute add.left_commute)
    from Cons Cons.prems(1) have ne: "i \<noteq> n - 1" by simp
    have ih: "di_string_join_loop ?r2 (pos + str_length s + str_length sep) (i + 1) n strs sep =
        Some (take (pos + str_length s + str_length sep) ?r2 @ ?rest)"
      using len Cons.prems(1) by (intro Cons.IH) auto
    have tk: "take (pos + str_length s + str_length sep) ?r2 = take pos ret @ str_bytes s @ str_bytes sep"
      using len by simp
    have empty_sep: "str_length sep = 0 \<Longrightarrow> ?r1 = ?r2"
      by (cases sep) simp_all
    have "di_string_join_loop ret pos i n (s # strs) sep =
        di_string_join_loop ?r2 (pos + str_length s + str_length sep) (i + 1) n strs sep"
      using w1 w2 ne empty_sep by (cases "str_length sep = 0") (simp_all only: di_string_join_loop.simps option.case Let_def, simp_all)
    with ih tk Cons show ?thesis by simp
  qed
qed

end
