(* ===== verification/Deai_Values.thy ===== *)
theory Deai_Values
  imports Deai_Strings
begin

text \<open>
  The value types of \<^verbatim>\<open>include/deai/object.h\<close>: the type tags \<^verbatim>\<open>di_type\<close>, and the tagged values
  (\<^verbatim>\<open>union di_value\<close> together with the tag that says which member is in use, i.e. what a
  \<^verbatim>\<open>struct di_variant\<close> holds).  References to objects are addresses.  A C double is its 64-bit
  pattern: the code modelled here only stores, copies and compares doubles.
\<close>

datatype di_type =
    DI_TYPE_NIL | DI_TYPE_ANY | DI_TYPE_EMPTY_OBJECT | DI_TYPE_BOOL | DI_TYPE_NINT | DI_TYPE_NUINT
  | DI_TYPE_INT | DI_TYPE_UINT | DI_TYPE_FLOAT | DI_TYPE_POINTER | DI_TYPE_OBJECT
  | DI_TYPE_WEAK_OBJECT | DI_TYPE_STRING | DI_TYPE_STRING_LITERAL | DI_TYPE_ARRAY | DI_TYPE_TUPLE
  | DI_TYPE_VARIANT | DI_LAST_TYPE

text \<open>The enumeration constants.\<close>

fun di_type_num :: "di_type \<Rightarrow> nat" where
  "di_type_num DI_TYPE_NIL = 0"
| "di_type_num DI_TYPE_ANY = 1"
| "di_type_num DI_TYPE_EMPTY_OBJECT = 2"
| "di_type_num DI_TYPE_BOOL = 3"
| "di_type_num DI_TYPE_NINT = 4"
| "di_type_num DI_TYPE_NUINT = 5"
| "di_type_num DI_TYPE_INT = 6"
| "di_type_num DI_TYPE_UINT = 7"
| "di_type_num DI_TYPE_FLOAT = 8"
| "di_type_num DI_TYPE_POINTER = 9"
| "di_type_num DI_TYPE_OBJECT = 10"
| "di_type_num DI_TYPE_WEAK_OBJECT = 11"
| "di_type_num DI_TYPE_STRING = 12"
| "di_type_num DI_TYPE_STRING_LITERAL = 13"
| "di_type_num DI_TYPE_ARRAY = 14"
| "di_type_num DI_TYPE_TUPLE = 15"
| "di_type_num DI_TYPE_VARIANT = 16"
| "di_type_num DI_LAST_TYPE = 17"

datatype di_variant =
    V_nil
  | V_empty_object addr
  | V_bool bool
  | V_nint u32
  | V_nuint u32
  | V_int u64
  | V_uint u64
  | V_float u64
  | V_pointer addr
  | V_object addr
  | V_weak_object addr
  | V_string di_string
  | V_string_literal c_string
  | V_array di_type "di_variant list"
  | V_tuple "di_variant list"
  | V_variant di_variant
  | V_last

type_synonym di_tuple = "di_variant list"

text \<open>The type tag of a value.\<close>

fun typeof :: "di_variant \<Rightarrow> di_type" where
  "typeof V_nil = DI_TYPE_NIL"
| "typeof (V_empty_object _) = DI_TYPE_EMPTY_OBJECT"
| "typeof (V_bool _) = DI_TYPE_BOOL"
| "typeof (V_nint _) = DI_TYPE_NINT"
| "typeof (V_nuint _) = DI_TYPE_NUINT"
| "typeof (V_int _) = DI_TYPE_INT"
| "typeof (V_uint _) = DI_TYPE_UINT"
| "typeof (V_float _) = DI_TYPE_FLOAT"
| "typeof (V_pointer _) = DI_TYPE_POINTER"
| "typeof (V_object _) = DI_TYPE_OBJECT"
| "typeof (V_weak_object _) = DI_TYPE_WEAK_OBJECT"
| "typeof (V_string _) = DI_TYPE_STRING"
| "typeof (V_string_literal _) = DI_TYPE_STRING_LITERAL"
| "typeof (V_array _ _) = DI_TYPE_ARRAY"
| "typeof (V_tuple _) = DI_TYPE_TUPLE"
| "typeof (V_variant _) = DI_TYPE_VARIANT"
| "typeof V_last = DI_LAST_TYPE"

text \<open>
  \<^verbatim>\<open>di_sizeof_type\<close> on a 64-bit platform; \<open>None\<close> is \<^verbatim>\<open>abort\<close>.
\<close>

fun di_sizeof_type :: "di_type \<Rightarrow> nat option" where
  "di_sizeof_type DI_TYPE_NIL = Some 0"
| "di_sizeof_type DI_TYPE_ANY = None"
| "di_sizeof_type DI_LAST_TYPE = None"
| "di_sizeof_type DI_TYPE_FLOAT = Some 8"
| "di_sizeof_type DI_TYPE_ARRAY = Some 24"
| "di_sizeof_type DI_TYPE_TUPLE = Some 16"
| "di_sizeof_type DI_TYPE_VARIANT = Some 16"
| "di_sizeof_type DI_TYPE_UINT = Some 8"
| "di_sizeof_type DI_TYPE_INT = Some 8"
| "di_sizeof_type DI_TYPE_NUINT = Some 4"
| "di_sizeof_type DI_TYPE_NINT = Some 4"
| "di_sizeof_type DI_TYPE_STRING = Some 16"
| "di_sizeof_type DI_TYPE_STRING_LITERAL = Some 8"
| "di_sizeof_type DI_TYPE_OBJECT = Some 8"
| "di_sizeof_type DI_TYPE_EMPTY_OBJECT = Some 8"
| "di_sizeof_type DI_TYPE_POINTER = Some 8"
| "di_sizeof_type DI_TYPE_WEAK_OBJECT = Some 8"
| "di_sizeof_type DI_TYPE_BOOL = Some 1"

text \<open>\<^verbatim>\<open>di_type_names\<close> of \<^verbatim>\<open>object.c\<close> and \<^verbatim>\<open>di_type_to_string\<close> of \<^verbatim>\<open>helper.h\<close>.\<close>

fun di_type_names :: "di_type \<Rightarrow> c_string" where
  "di_type_names DI_TYPE_NIL = ''nil''"
| "di_type_names DI_TYPE_ANY = ''any''"
| "di_type_names DI_TYPE_EMPTY_OBJECT = ''empty_object''"
| "di_type_names DI_TYPE_BOOL = ''bool''"
| "di_type_names DI_TYPE_NINT = ''nint''"
| "di_type_names DI_TYPE_NUINT = ''nuint''"
| "di_type_names DI_TYPE_INT = ''int''"
| "di_type_names DI_TYPE_UINT = ''uint''"
| "di_type_names DI_TYPE_FLOAT = ''float''"
| "di_type_names DI_TYPE_POINTER = ''pointer''"
| "di_type_names DI_TYPE_OBJECT = ''object''"
| "di_type_names DI_TYPE_WEAK_OBJECT = ''weak_object''"
| "di_type_names DI_TYPE_STRING = ''string''"
| "di_type_names DI_TYPE_STRING_LITERAL = ''string_literal''"
| "di_type_names DI_TYPE_ARRAY = ''array''"
| "di_type_names DI_TYPE_TUPLE = ''tuple''"
| "di_type_names DI_TYPE_VARIANT = ''variant''"
| "di_type_names DI_LAST_TYPE = ''invalid''"

fun di_type_to_string :: "di_type \<Rightarrow> c_string" where
  "di_type_to_string DI_TYPE_NIL = ''NIL''"
| "di_type_to_string DI_TYPE_ANY = ''ANY''"
| "di_type_to_string DI_TYPE_BOOL = ''BOOL''"
| "di_type_to_string DI_TYPE_INT = ''INT''"
| "di_type_to_string DI_TYPE_UINT = ''UINT''"
| "di_type_to_string DI_TYPE_NINT = ''NINT''"
| "di_type_to_string DI_TYPE_NUINT = ''NUINT''"
| "di_type_to_string DI_TYPE_FLOAT = ''FLOAT''"
| "di_type_to_string DI_TYPE_STRING = ''STRING''"
| "di_type_to_string DI_TYPE_STRING_LITERAL = ''STRING_LITERAL''"
| "di_type_to_string DI_TYPE_TUPLE = ''TUPLE''"
| "di_type_to_string DI_TYPE_ARRAY = ''ARRAY''"
| "di_type_to_string DI_TYPE_VARIANT = ''VARIANT''"
| "di_type_to_string DI_TYPE_OBJECT = ''OBJECT''"
| "di_type_to_string DI_TYPE_WEAK_OBJECT = ''WEAK_OBJECT''"
| "di_type_to_string DI_TYPE_POINTER = ''POINTER''"
| "di_type_to_string DI_TYPE_EMPTY_OBJECT = ''EMPTY_OBJECT''"
| "di_type_to_string DI_LAST_TYPE = ''LAST_TYPE''"

section \<open>References held by a value\<close>

text \<open>
  The strong references (\<^verbatim>\<open>DI_TYPE_OBJECT\<close> and \<^verbatim>\<open>DI_TYPE_EMPTY_OBJECT\<close>) and the weak references
  a value owns, with multiplicity: what \<^verbatim>\<open>di_copy_value\<close> acquires and \<^verbatim>\<open>di_free_value\<close> drops.
\<close>

fun refs_of :: "di_variant \<Rightarrow> addr list" where
  "refs_of (V_object a) = [a]"
| "refs_of (V_empty_object a) = [a]"
| "refs_of (V_array t vs) = concat (map refs_of vs)"
| "refs_of (V_tuple vs) = concat (map refs_of vs)"
| "refs_of (V_variant v) = refs_of v"
| "refs_of _ = []"

fun weak_refs_of :: "di_variant \<Rightarrow> addr list" where
  "weak_refs_of (V_weak_object a) = [a]"
| "weak_refs_of (V_array t vs) = concat (map weak_refs_of vs)"
| "weak_refs_of (V_tuple vs) = concat (map weak_refs_of vs)"
| "weak_refs_of (V_variant v) = weak_refs_of v"
| "weak_refs_of _ = []"

text \<open>
  A well-typed value: array elements have the element type of the array, which is not the nil
  type (a nil value has no size), and no part has one of the two types that have no values
  (\<^verbatim>\<open>DI_TYPE_ANY\<close> is only the element type of an empty array, \<^verbatim>\<open>DI_LAST_TYPE\<close> only what a
  getter may return).
\<close>

fun wt_value :: "di_variant \<Rightarrow> bool" where
  "wt_value (V_array t vs) \<longleftrightarrow> (\<forall>v \<in> set vs. typeof v = t \<and> t \<noteq> DI_TYPE_NIL \<and> wt_value v)"
| "wt_value (V_tuple vs) \<longleftrightarrow> (\<forall>v \<in> set vs. wt_value v)"
| "wt_value (V_variant v) \<longleftrightarrow> wt_value v"
| "wt_value V_last \<longleftrightarrow> False"
| "wt_value _ \<longleftrightarrow> True"

lemma sizeof_wt: "wt_value v \<Longrightarrow> di_sizeof_type (typeof v) \<noteq> None"
  by (cases v) auto

lemma sizeof_nonzero: "wt_value v \<Longrightarrow> v \<noteq> V_nil \<Longrightarrow> \<exists>sz. di_sizeof_type (typeof v) = Some sz \<and> 0 < sz"
  by (cases v) auto

lemma typeof_nil: "typeof v = DI_TYPE_NIL \<longleftrightarrow> v = V_nil"
  by (cases v) auto

lemma di_type_num_inj: "di_type_num t = di_type_num t' \<Longrightarrow> t = t'"
  by (cases t; cases t'; simp)

lemma di_type_names_inj: "di_type_names t = di_type_names t' \<Longrightarrow> t = t'"
  by (cases t; cases t'; simp)

text \<open>Type tags are ordered by their enumeration constants, as the C comparisons order them.\<close>

instantiation di_type :: linorder
begin

definition less_eq_di_type :: "di_type \<Rightarrow> di_type \<Rightarrow> bool" where
  "less_eq_di_type a b \<longleftrightarrow> di_type_num a \<le> di_type_num b"

definition less_di_type :: "di_type \<Rightarrow> di_type \<Rightarrow> bool" where
  "less_di_type a b \<longleftrightarrow> di_type_num a < di_type_num b"

instance
  by standard (auto simp: less_eq_di_type_def less_di_type_def intro: di_type_num_inj)

end

lemma last_type_max: "(t :: di_type) \<le> DI_LAST_TYPE"
  by (cases t) (simp_all add: less_eq_di_type_def)

end
