(* ===== verification/Deai_String_Buf.thy ===== *)
theory Deai_String_Buf
  imports Deai_Strings
begin

text \<open>
  The append-only string buffer of \<^verbatim>\<open>string_buf.c\<close>: a list of nodes, each with an allocated C string
  and a length.  Dumping allocates by the lengths of the C strings but copies by the stored
  lengths; a copy that leaves the source or the destination is the error value.
\<close>

type_synonym string_buf = "(c_string \<times> nat) list"

definition string_buf_new :: string_buf where
  "string_buf_new = []"

definition string_buf_push :: "string_buf \<Rightarrow> c_string \<Rightarrow> string_buf" where
  "string_buf_push buf str = buf @ [(str, length str)]"

text \<open>\<^verbatim>\<open>strndup\<close> stops at the first NUL, the stored length does not.\<close>

definition string_buf_lpush :: "string_buf \<Rightarrow> char list \<Rightarrow> nat \<Rightarrow> string_buf" where
  "string_buf_lpush buf str len = buf @ [(c_str (take len str), len)]"

definition string_buf_is_empty :: "string_buf \<Rightarrow> bool" where
  "string_buf_is_empty buf \<longleftrightarrow> buf = []"

definition string_buf_clear :: "string_buf \<Rightarrow> string_buf" where
  "string_buf_clear buf = []"

text \<open>The copying loop: \<open>ret\<close> is the allocated memory, \<open>pos\<close> the write position.\<close>

fun dump_loop :: "char list \<Rightarrow> nat \<Rightarrow> string_buf \<Rightarrow> (char list \<times> nat) option" where
  "dump_loop ret pos [] = Some (ret, pos)"
| "dump_loop ret pos ((str, len) # nodes) =
     (if len > length str + 1 then None
      else case buf_write ret pos (take len (str @ [NUL])) of
          None \<Rightarrow> None
        | Some ret' \<Rightarrow> dump_loop ret' (pos + len) nodes)"

text \<open>The dumped C string and the emptied buffer; \<open>None\<close> is memory corruption.\<close>

definition string_buf_dump :: "char \<Rightarrow> string_buf \<Rightarrow> (c_string \<times> string_buf) option" where
  "string_buf_dump c buf =
     (let len = sum_list (map (length \<circ> fst) buf) in
      case dump_loop (replicate (len + 1) c) 0 buf of
        None \<Rightarrow> None
      | Some (ret, pos) \<Rightarrow>
          (case buf_write ret pos [NUL] of
             None \<Rightarrow> None
           | Some ret' \<Rightarrow> Some (c_str ret', [])))"

section \<open>What the buffer holds\<close>

definition buf_content :: "string_buf \<Rightarrow> c_string" where
  "buf_content buf = concat (map fst buf)"

text \<open>The invariant: every stored length is the length of the C string, which has no NUL.\<close>

definition buf_ok :: "string_buf \<Rightarrow> bool" where
  "buf_ok buf \<longleftrightarrow> (\<forall>(str, len) \<in> set buf. len = length str \<and> NUL \<notin> set str)"

lemma c_str_no_NUL: "NUL \<notin> set bs \<Longrightarrow> c_str bs = bs"
  by (auto simp: c_str_def intro: takeWhile_eq_all_conv [THEN iffD2])

lemma NUL_notin_c_str: "NUL \<notin> set (c_str bs)"
  by (auto simp: c_str_def dest: set_takeWhileD)

lemma c_str_append_NUL: "NUL \<notin> set bs \<Longrightarrow> c_str (bs @ NUL # rest) = bs"
  unfolding c_str_def by (subst takeWhile_append2) auto

lemma buf_ok_new: "buf_ok string_buf_new" "buf_content string_buf_new = []"
  by (simp_all add: buf_ok_def buf_content_def string_buf_new_def)

lemma buf_ok_push:
  assumes "buf_ok buf" and "NUL \<notin> set str"
  shows "buf_ok (string_buf_push buf str)" and "buf_content (string_buf_push buf str) = buf_content buf @ str"
  using assms by (auto simp: buf_ok_def string_buf_push_def buf_content_def)

lemma buf_ok_lpush:
  assumes "buf_ok buf" and "NUL \<notin> set (take len str)" and "len \<le> length str"
  shows "buf_ok (string_buf_lpush buf str len)"
    and "buf_content (string_buf_lpush buf str len) = buf_content buf @ take len str"
  using assms by (auto simp: buf_ok_def string_buf_lpush_def buf_content_def c_str_no_NUL)

lemma buf_write_at:
  "pos = length done \<Longrightarrow> length free = length bs + length free' \<Longrightarrow>
   buf_write (done @ free) pos bs = Some (done @ bs @ drop (length bs) free)"
  by (simp add: buf_write_def)

lemma dump_loop_ok:
  "buf_ok buf \<Longrightarrow> length free = length (buf_content buf) + k \<Longrightarrow>
   dump_loop (done @ free) (length done) buf =
     Some (done @ buf_content buf @ drop (length (buf_content buf)) free, length done + length (buf_content buf))"
proof (induction buf arbitrary: "done" free)
  case Nil
  then show ?case by (simp add: buf_content_def)
next
  case (Cons node buf)
  obtain str len where node: "node = (str, len)" by (cases node)
  with Cons.prems have len: "len = length str" and ok: "buf_ok buf" by (auto simp: buf_ok_def)
  have c: "buf_content (node # buf) = str @ buf_content buf" using node by (simp add: buf_content_def)
  have "buf_write (done @ free) (length done) str = Some ((done @ str) @ drop (length str) free)"
    using buf_write_at [of "length done" "done" free str "drop (length str) free"] Cons.prems(2) c by simp
  moreover have "dump_loop ((done @ str) @ drop (length str) free) (length (done @ str)) buf =
      Some ((done @ str) @ buf_content buf @ drop (length (buf_content buf)) (drop (length str) free),
        length (done @ str) + length (buf_content buf))"
    using Cons.prems(2) c by (intro Cons.IH [OF ok]) simp
  ultimately show ?case using node len c by (simp add: add.commute)
qed

text \<open>Dumping returns everything pushed, in order, and empties the buffer.\<close>

lemma string_buf_dump_ok:
  assumes "buf_ok buf"
  shows "string_buf_dump c buf = Some (buf_content buf, string_buf_new)"
proof -
  have len: "sum_list (map (length \<circ> fst) buf) = length (buf_content buf)"
    by (simp add: buf_content_def length_concat comp_def)
  have loop: "dump_loop (replicate (length (buf_content buf) + 1) c) 0 buf =
      Some (buf_content buf @ [c], length (buf_content buf))"
    using dump_loop_ok [OF assms, of "replicate (length (buf_content buf) + 1) c" 1 "[]"]
    unfolding drop_replicate by simp
  have "buf_write (buf_content buf @ [c]) (length (buf_content buf)) [NUL] = Some (buf_content buf @ [NUL])"
    by (simp add: buf_write_def)
  moreover have "NUL \<notin> set (buf_content buf)" using assms by (auto simp: buf_ok_def buf_content_def)
  ultimately show ?thesis
    unfolding string_buf_dump_def len Let_def loop by (simp add: c_str_append_NUL string_buf_new_def)
qed

text \<open>
  A NUL among the pushed bytes makes the next dump copy more than it allocated.
\<close>

lemma string_buf_dump_NUL:
  assumes "buf_ok buf" and "NUL \<in> set (take len str)" and "len \<le> length str"
  shows "string_buf_dump c (string_buf_lpush buf str len) = None"
proof -
  let ?s = "c_str (take len str)"
  have short: "length ?s < len"
  proof -
    have "?s \<noteq> take len str" using assms(2) NUL_notin_c_str by metis
    moreover have "length ?s \<le> length (take len str)" unfolding c_str_def by (rule length_takeWhile_le)
    ultimately show ?thesis using assms(3) takeWhile_eq_take [of "\<lambda>c. c \<noteq> NUL" "take len str"]
      unfolding c_str_def by (metis length_take le_neq_implies_less min.absorb2 take_all)
  qed
  let ?n = "length (buf_content buf) + length ?s"
  have len: "sum_list (map (length \<circ> fst) (string_buf_lpush buf str len)) = ?n"
    by (simp add: buf_content_def length_concat comp_def string_buf_lpush_def)
  have split: "dump_loop ret pos (buf @ [(s, l)]) =
      (case dump_loop ret pos buf of None \<Rightarrow> None | Some (r, p) \<Rightarrow> dump_loop r p [(s, l)])" for ret pos s l
    by (induction buf arbitrary: ret pos) (auto split: option.splits if_splits)
  have first: "dump_loop (replicate (?n + 1) c) 0 buf =
      Some (buf_content buf @ replicate (length ?s + 1) c, length (buf_content buf))"
    using dump_loop_ok [OF assms(1), of "replicate (?n + 1) c" "length ?s + 1" "[]"]
    unfolding drop_replicate by simp
  have "dump_loop (replicate (?n + 1) c) 0 (string_buf_lpush buf str len) = None \<or>
      (\<exists>r. dump_loop (replicate (?n + 1) c) 0 (string_buf_lpush buf str len) = Some (r, length (buf_content buf) + len) \<and>
         length r = ?n + 1)"
    unfolding string_buf_lpush_def split first by (auto simp: buf_write_def)
  then show ?thesis
    unfolding string_buf_dump_def len Let_def using short by (auto simp: buf_write_def)
qed

section \<open>The buffer as an interface\<close>

text \<open>
  What a user of the buffer relies on: pushing appends to the content, dumping returns it and
  leaves an empty buffer.
\<close>

locale text_accumulator =
  fixes ok :: "'b \<Rightarrow> bool" and content :: "'b \<Rightarrow> c_string" and new :: 'b
    and push :: "'b \<Rightarrow> c_string \<Rightarrow> 'b" and dump :: "'b \<Rightarrow> (c_string \<times> 'b) option"
  assumes new_ok: "ok new" and new_content: "content new = []"
    and push_ok: "ok b \<Longrightarrow> NUL \<notin> set s \<Longrightarrow> ok (push b s)"
    and push_content: "ok b \<Longrightarrow> NUL \<notin> set s \<Longrightarrow> content (push b s) = content b @ s"
    and dump_content: "ok b \<Longrightarrow> dump b = Some (content b, new)"
begin

lemma push_all_ok: "ok b \<Longrightarrow> (\<And>s. s \<in> set ss \<Longrightarrow> NUL \<notin> set s) \<Longrightarrow> ok (foldl push b ss)"
  by (induction ss arbitrary: b) (simp_all add: push_ok)

lemma push_all_content:
  "ok b \<Longrightarrow> (\<And>s. s \<in> set ss \<Longrightarrow> NUL \<notin> set s) \<Longrightarrow> content (foldl push b ss) = content b @ concat ss"
  by (induction ss arbitrary: b) (simp_all add: push_ok push_content)

lemma dump_all:
  assumes "\<And>s. s \<in> set ss \<Longrightarrow> NUL \<notin> set s"
  shows "dump (foldl push new ss) = Some (concat ss, new)"
  using dump_content [OF push_all_ok [OF new_ok assms]] push_all_content [OF new_ok assms]
  by (simp add: new_content)

end

interpretation sbuf: text_accumulator buf_ok buf_content string_buf_new string_buf_push "string_buf_dump c" for c
  by unfold_locales (simp_all add: buf_ok_new buf_ok_push string_buf_dump_ok)

end
