(* ===== verification/Deai_World.thy ===== *)
theory Deai_World
  imports Deai_Values Deai_String_Buf
begin

text \<open>
  The state of the object system: the heap of objects (\<^verbatim>\<open>di_object_internal\<close> of
  \<^verbatim>\<open>di_internal.h\<close> with the fields of the struct that embeds it), the list of objects that
  lost a reference since the last collection, the roots object, and the calls made to the
  outside (libev, logging).  A freed object is absent from the heap, so every access to it is
  the fault \<open>Use_after_free\<close>.
\<close>

text \<open>
  The fields a struct that embeds \<^verbatim>\<open>di_object\<close> adds to it, one constructor per struct:
  \<^verbatim>\<open>struct di_signal\<close> (nhandlers), \<^verbatim>\<open>struct di_closure\<close> (fn, nargs, rtype, atypes),
  \<^verbatim>\<open>struct di_raw_closure\<close> (raw_fn), \<^verbatim>\<open>struct di_field_getter\<close> (type, offset),
  \<^verbatim>\<open>struct di_roots\<close> (anonymous_roots, in the order of the hash table),
  \<^verbatim>\<open>struct di_ioev\<close> (fd, events, running), \<^verbatim>\<open>struct di_timer\<close> (at, spent),
  \<^verbatim>\<open>struct di_periodic\<close> (offset, interval), \<^verbatim>\<open>di_event_module\<close>, \<^verbatim>\<open>struct di_log\<close> (log_level),
  \<^verbatim>\<open>struct child\<close> (pid, fds, output buffers allocated or not), \<^verbatim>\<open>struct log_file\<close> (f), \<^verbatim>\<open>struct deai\<close>
  (argv), \<^verbatim>\<open>di_file_watch\<close> (fd, nsignals, the watch entries in the order they were added), \<^verbatim>\<open>di_dbus_connection\<close> (conn,
  nsignals), \<^verbatim>\<open>di_dbus_method\<close> (method, interface), \<^verbatim>\<open>struct di_dbus_shutdown_handler\<close> (conn), \<^verbatim>\<open>di_xorg_connection\<close> (c,
  dflt_scrn, nsignals, xkb_ctx, the atom entries in the order they were added), \<^verbatim>\<open>struct xorg_key\<close> (nsignals, keysyms, next_binding_key),
  \<^verbatim>\<open>struct keybinding\<close> (keysym, keycodes without the terminator, modifiers, intercept), \<^verbatim>\<open>struct xscreen\<close> (width, height),
  \<^verbatim>\<open>struct di_xorg_xinput\<close> (nsignals, opcode, mask, listener_count), \<^verbatim>\<open>struct di_xorg_xinput_device\<close> (deviceid, xi),
  \<^verbatim>\<open>struct di_xorg_randr\<close> (nsignals, opcode, evbase, cts), \<^verbatim>\<open>struct di_xorg_output\<close> (id), \<^verbatim>\<open>struct di_xorg_output_info\<close> (mm_width,
  mm_height, connection, subpixel_order, name, num_preferred), \<^verbatim>\<open>struct di_xorg_view\<close> (id), \<^verbatim>\<open>struct di_xorg_mode\<close> (id, width, height,
  fps, interlaced, double_scan) and \<^verbatim>\<open>struct di_xorg_view_config\<close> (x, y, width, height, rotation, reflection).  A
  \<^verbatim>\<open>FILE *\<close>, a \<^verbatim>\<open>DBusConnection *\<close>, a \<^verbatim>\<open>DBusWatch *\<close> and an \<^verbatim>\<open>xcb_connection_t *\<close> are numbers.
\<close>

datatype payload =
    P_object
  | P_signal int
  | P_closure fn_ptr nat di_type "di_type list"
  | P_raw_closure fn_ptr
  | P_field_getter di_type nat
  | P_roots "addr list"
  | P_ioev int u32 bool
  | P_timer u64 bool
  | P_periodic u64 u64
  | P_event_module
  | P_log int
  | P_child int int int "string_buf option" "string_buf option"
  | P_log_file nat
  | P_core "c_string list"
  | P_file_watch int int "(int \<times> char list) list"
  | P_dbus_connection "nat option" int
  | P_dbus_method di_string di_string
  | P_dbus_shutdown nat
  | P_xorg_connection "nat option" int int "nat option" "(u32 \<times> char list) list"
  | P_xorg_key int nat u64
  | P_keybinding u32 "u8 list option" u16 bool
  | P_xscreen u64 u64
  | P_xorg_xinput int u8 "u8 list" "u32 list"
  | P_xinput_device int addr
  | P_xorg_randr int u8 u32 u32
  | P_xorg_output u32
  | P_output_info u32 u32 u32 u32 c_string u32
  | P_xorg_view u32
  | P_xorg_mode u32 u32 u32 u64 bool bool
  | P_view_config u64 u64 u64 u64 u64 u64

record di_object_internal =
  members :: "(string \<times> di_variant) list"
  dtor :: "fn_ptr option"
  call :: "fn_ptr option"
  ref_count :: u64
  weak_ref_count :: u64
  ref_count_scan :: u64
  mark :: u8
  destroyed :: bool
  payload :: payload

text \<open>Calls that leave the object system, in the order they are made.\<close>

datatype effect =
    Ev_io_start addr | Ev_io_stop addr | Ev_io_modify addr u32
  | Ev_timer_set addr u64 | Ev_timer_start addr | Ev_timer_stop addr
  | Ev_periodic_set addr u64 u64 | Ev_periodic_again addr | Ev_periodic_start addr
  | Ev_idle_start addr | Ev_idle_stop addr
  | Ev_child_start addr | Ev_child_stop addr
  | Ev_break
  | Ev_signal_start int | Ev_run
  | Sys_kill int int | Sys_close int | Sys_dup2 int int | Sys_setsid | Sys_setpgid int int
  | Sys_execvp "c_string option" "c_string option list" | Sys_exit int | Sys_chdir c_string
  | File_write nat "char list" | File_flush nat | File_close nat
  | Load_plugin c_string | Load_plugin_dir c_string
  | Stderr c_string | Log_error c_string
  | Inotify_rm_watch int int
  | Dbus_add_match c_string | Dbus_remove_match c_string | Dbus_set_watch bool | Dbus_set_filter bool
  | Dbus_watch_handle nat nat | Dbus_send c_string "c_string option" "c_string option" "c_string option" "c_string option"
  | Dbus_close nat | Dbus_unref nat | Dbus_set_unique_name nat "c_string option"
  | X_disconnect nat | Xkb_context_unref nat | X_flush nat
  | X_grab_key nat u32 u16 u8 | X_ungrab_key nat u8 u32 u16 | X_allow_events nat bool
  | X_set_resource nat u32 "char list"
  | X_change_keyboard_mapping nat u32 u32 u32 "u32 list" | X_set_modifier_mapping nat u32 "u8 list"
  | Xi_select_events nat u32 "u8 list" | Xi_change_property nat int u32 u32 u32 "u32 list"
  | Randr_select_input nat u32 u16 | Randr_set_crtc nat u32 u32 u32 int int u32 u16 "u32 list"
  | Randr_set_backlight nat u32 u32 u32 | Randr_set_screen_size nat u32 int int int int

text \<open>
  Beside the heap the state has the globals of the program (\<^verbatim>\<open>roots\<close>, \<^verbatim>\<open>log_module\<close>,
  \<^verbatim>\<open>saved_log_level\<close>, the exit code and the quit flag of \<^verbatim>\<open>main\<close>), the process environment, and what
  is left to read from each file descriptor: the results of the coming \<^verbatim>\<open>read\<close> calls, where an
  empty result is the end of the file and no result means that the call would block.
\<close>

record world =
  objs :: "addr \<Rightarrow> di_object_internal option"
  next_addr :: addr
  unreferred_objects :: "addr list"
  isolated_roots :: "addr list"
  roots :: "addr option"
  log_module :: "addr option"
  saved_log_level :: int
  exit_code :: int
  quit :: bool
  environ :: "(c_string \<times> c_string) list"
  fd_reads :: "int \<Rightarrow> char list list"
  effects :: "effect list"

type_synonym 'a M = "world \<Rightarrow> (world, 'a) outcome"

text \<open>
  What a function pointer stored in an object does when it is called.  \<open>e_call E f o args\<close> is
  the call \<^verbatim>\<open>o->call(o, &rt, &ret, args)\<close> of the \<^verbatim>\<open>di_call_fn\<close> named \<open>f\<close>: its return code and the
  value it returned; \<open>e_dtor E f o\<close> is the destructor call; \<open>e_native E f args\<close> is the call of the
  native function \<open>f\<close> through \<^verbatim>\<open>ffi_call\<close> with its result.  \<open>e_ffi_prep E rt ats\<close> says whether
  libffi accepts a signature, and \<open>e_field E ob off t\<close> is the value of type \<open>t\<close> at offset \<open>off\<close> of the
  struct that embeds the object.  \<open>e_strerror\<close> is \<^verbatim>\<open>strerror\<close> and \<open>e_now\<close> is the time the event loop reports, \<open>e_fadd\<close> and \<open>e_fsub\<close>
  are the binary64 addition and subtraction on bit patterns.  \<open>e_junk\<close> is what a return value holds
  that was never set (a call leaves \<open>V_last\<close> for it).  \<open>e_fuel\<close> bounds the nesting of the recursive operations.
\<close>

record env =
  e_call :: "fn_ptr \<Rightarrow> addr \<Rightarrow> di_tuple \<Rightarrow> (int \<times> di_variant) M"
  e_dtor :: "fn_ptr \<Rightarrow> addr \<Rightarrow> unit M"
  e_native :: "fn_ptr \<Rightarrow> di_tuple \<Rightarrow> di_variant M"
  e_ffi_prep :: "di_type \<Rightarrow> di_type list \<Rightarrow> bool"
  e_field :: "di_object_internal \<Rightarrow> nat \<Rightarrow> di_type \<Rightarrow> di_variant"
  e_strerror :: "int \<Rightarrow> c_string"
  e_now :: u64
  e_fadd :: "u64 \<Rightarrow> u64 \<Rightarrow> u64"
  e_fsub :: "u64 \<Rightarrow> u64 \<Rightarrow> u64"
  e_junk :: di_variant
  e_fuel :: nat

section \<open>Heap access\<close>

definition get_obj :: "addr \<Rightarrow> di_object_internal M" where
  "get_obj a w = (case objs w a of None \<Rightarrow> Crash Use_after_free | Some ob \<Rightarrow> Ret ob w)"

definition put_obj :: "addr \<Rightarrow> di_object_internal \<Rightarrow> unit M" where
  "put_obj a ob w = Ret () (w\<lparr>objs := (objs w)(a := Some ob)\<rparr>)"

definition upd_obj :: "addr \<Rightarrow> (di_object_internal \<Rightarrow> di_object_internal) \<Rightarrow> unit M" where
  "upd_obj a f = mbind (get_obj a) (\<lambda>ob. put_obj a (f ob))"

definition free_obj :: "addr \<Rightarrow> unit M" where
  "free_obj a w = Ret () (w\<lparr>objs := (objs w)(a := None)\<rparr>)"

definition emit_effect :: "effect \<Rightarrow> unit M" where
  "emit_effect e w = Ret () (w\<lparr>effects := effects w @ [e]\<rparr>)"

lemma get_obj_Ret [heap_simps]: "objs w a = Some ob \<Longrightarrow> get_obj a w = Ret ob w"
  by (simp add: get_obj_def)

lemma get_obj_None [heap_simps]: "objs w a = None \<Longrightarrow> get_obj a w = Crash Use_after_free"
  by (simp add: get_obj_def)

lemma put_obj_apply [heap_simps]: "put_obj a ob w = Ret () (w\<lparr>objs := (objs w)(a := Some ob)\<rparr>)"
  by (simp add: put_obj_def)

lemma free_obj_apply [heap_simps]: "free_obj a w = Ret () (w\<lparr>objs := (objs w)(a := None)\<rparr>)"
  by (simp add: free_obj_def)

lemma upd_obj_Ret [heap_simps]:
  "objs w a = Some ob \<Longrightarrow> upd_obj a f w = Ret () (w\<lparr>objs := (objs w)(a := Some (f ob))\<rparr>)"
  by (simp add: upd_obj_def mbind_def get_obj_def put_obj_def)

lemma upd_obj_None [heap_simps]: "objs w a = None \<Longrightarrow> upd_obj a f w = Crash Use_after_free"
  by (simp add: upd_obj_def mbind_def get_obj_def)

lemma emit_effect_apply [heap_simps]: "emit_effect e w = Ret () (w\<lparr>effects := effects w @ [e]\<rparr>)"
  by (simp add: emit_effect_def)

text \<open>The list operations on the \<^verbatim>\<open>unreferred_siblings\<close> link of an object.\<close>

definition sib_list_empty :: "addr \<Rightarrow> world \<Rightarrow> bool" where
  "sib_list_empty a w \<longleftrightarrow> a \<notin> set (unreferred_objects w) \<and> a \<notin> set (isolated_roots w)"

definition sib_list_del_init :: "addr \<Rightarrow> unit M" where
  "sib_list_del_init a = mmodify (\<lambda>w. w\<lparr>unreferred_objects := removeAll a (unreferred_objects w),
     isolated_roots := removeAll a (isolated_roots w)\<rparr>)"

definition empty_world :: world where
  "empty_world = \<lparr>objs = Map.empty, next_addr = 1, unreferred_objects = [], isolated_roots = [],
     roots = None, log_module = None, saved_log_level = 1, exit_code = 0, quit = False, environ = [],
     fd_reads = (\<lambda>_. []), effects = []\<rparr>"

end
