(* ===== verification/Deai_Object.thy ===== *)
theory Deai_Object
  imports Deai_World
begin

text \<open>
  Reference counting, destruction and raw members of objects: the part of \<^verbatim>\<open>object.c\<close> that does
  not go through getters, setters and deleters.  Assertions are modelled as enabled.  The
  recursion \<^verbatim>\<open>di_unref_object\<close> \<open>\<rightarrow>\<close> \<^verbatim>\<open>di_destroy_object\<close> \<open>\<rightarrow>\<close> \<^verbatim>\<open>di_finalize_object_inner\<close> \<open>\<rightarrow>\<close>
  \<^verbatim>\<open>di_free_value\<close> \<open>\<rightarrow>\<close> \<^verbatim>\<open>di_unref_object\<close> is tied by a bound on its depth: the functions below
  \<^verbatim>\<open>di_unref_object\<close> take the reference-dropping function as an argument.
\<close>

section \<open>Creation\<close>

definition sizeof_di_object :: nat where "sizeof_di_object = 128"
definition alignof_di_object :: nat where "alignof_di_object = 8"

text \<open>The state \<^verbatim>\<open>di_init_object\<close> leaves in zeroed memory.\<close>

definition di_init_object :: "payload \<Rightarrow> di_object_internal" where
  "di_init_object p = \<lparr>members = [], dtor = None, call = None, ref_count = 1, weak_ref_count = 1,
     ref_count_scan = 0, mark = 0, destroyed = False, payload = p\<rparr>"

text \<open>\<open>None\<close> is the null pointer returned for a size or an alignment that is too small.\<close>

definition di_new_object :: "nat \<Rightarrow> nat \<Rightarrow> payload \<Rightarrow> addr option M" where
  "di_new_object sz alignment p w =
     (if sz < sizeof_di_object then Ret None w
      else if alignment < alignof_di_object then Ret None w
      else Ret (Some (next_addr w))
             (w\<lparr>objs := (objs w)(next_addr w := Some (di_init_object p)), next_addr := Suc (next_addr w)\<rparr>))"

text \<open>\<^verbatim>\<open>di_new_object_with_type(T)\<close>: the size and alignment of a struct that embeds an object.\<close>

definition di_new_object_with_type :: "payload \<Rightarrow> addr M" where
  "di_new_object_with_type p =
     mbind (di_new_object sizeof_di_object alignof_di_object p)
       (\<lambda>r. case r of None \<Rightarrow> mcrash Null_deref | Some a \<Rightarrow> mret a)"

section \<open>References\<close>

definition di_ref_object :: "addr \<Rightarrow> addr M" where
  "di_ref_object a = mseq (upd_obj a (\<lambda>ob. ob\<lparr>ref_count := ref_count ob + 1\<rparr>)) (mret a)"

definition di_weakly_ref_object :: "addr \<Rightarrow> addr M" where
  "di_weakly_ref_object a = mseq (upd_obj a (\<lambda>ob. ob\<lparr>weak_ref_count := weak_ref_count ob + 1\<rparr>)) (mret a)"

definition di_upgrade_weak_ref :: "addr \<Rightarrow> addr option M" where
  "di_upgrade_weak_ref a =
     mbind (get_obj a) (\<lambda>ob.
     mseq (mcheck Assert_failed (mark ob = 0 \<or> mark ob = 2 \<or> mark ob = 3))
     (if ref_count ob > 0 \<and> \<not> destroyed ob \<and> mark ob \<noteq> 2 \<and> mark ob \<noteq> 3
      then mbind (di_ref_object a) (\<lambda>r. mret (Some r))
      else mret None))"

definition di_decrement_weak_ref_count :: "addr \<Rightarrow> unit M" where
  "di_decrement_weak_ref_count a =
     mseq (upd_obj a (\<lambda>ob. ob\<lparr>weak_ref_count := weak_ref_count ob - 1\<rparr>))
     (mbind (get_obj a) (\<lambda>ob.
      if weak_ref_count ob = 0
      then mseq (mcheck Assert_failed (ref_count ob = 0)) (free_obj a)
      else mret ()))"

definition di_drop_weak_ref :: "addr \<Rightarrow> unit M" where
  "di_drop_weak_ref a = di_decrement_weak_ref_count a"

section \<open>Copying and freeing values\<close>

text \<open>\<^verbatim>\<open>di_copy_value\<close>: the value the destination holds afterwards.\<close>

fun di_copy_value :: "di_variant \<Rightarrow> di_variant M" where
  "di_copy_value (V_array t vs) =
     (if vs = [] then mret (V_array t vs)
      else case di_sizeof_type t of
             None \<Rightarrow> mcrash Panic
           | Some sz \<Rightarrow> mseq (mcheck Assert_failed (sz \<noteq> 0))
               (mbind (mmap di_copy_value vs) (\<lambda>vs'. mret (V_array t vs'))))"
| "di_copy_value (V_tuple vs) =
     mbind (mmap (\<lambda>v. case di_sizeof_type (typeof v) of None \<Rightarrow> mcrash Panic | Some _ \<Rightarrow> di_copy_value v) vs)
       (\<lambda>vs'. mret (V_tuple vs'))"
| "di_copy_value (V_variant v) =
     (case di_sizeof_type (typeof v) of
        None \<Rightarrow> mcrash Panic
      | Some _ \<Rightarrow> mbind (di_copy_value v) (\<lambda>v'. mret (V_variant v')))"
| "di_copy_value (V_string s) = mret (V_string (di_clone_string s))"
| "di_copy_value (V_empty_object a) = mbind (di_ref_object a) (\<lambda>a'. mret (V_empty_object a'))"
| "di_copy_value (V_object a) = mbind (di_ref_object a) (\<lambda>a'. mret (V_object a'))"
| "di_copy_value (V_weak_object a) = mbind (di_weakly_ref_object a) (\<lambda>a'. mret (V_weak_object a'))"
| "di_copy_value V_last = mcrash Panic"
| "di_copy_value v = mret v"

text \<open>
  \<^verbatim>\<open>di_free_value\<close> with \<^verbatim>\<open>di_free_array\<close> and \<^verbatim>\<open>di_free_tuple\<close>; \<open>u\<close> drops a strong reference.
\<close>

fun free_value_with :: "(addr \<Rightarrow> unit M) \<Rightarrow> di_variant \<Rightarrow> unit M" where
  "free_value_with u (V_array t vs) =
     (if vs = [] then mret ()
      else case di_sizeof_type t of None \<Rightarrow> mcrash Panic | Some _ \<Rightarrow> mforeach (free_value_with u) vs)"
| "free_value_with u (V_tuple vs) = mforeach (free_value_with u) vs"
| "free_value_with u (V_object a) = u a"
| "free_value_with u (V_empty_object a) = u a"
| "free_value_with u (V_weak_object a) = di_drop_weak_ref a"
| "free_value_with u (V_variant v) = free_value_with u v"
| "free_value_with u V_last = mcrash Panic"
| "free_value_with u v = mret ()"

section \<open>Destruction\<close>

text \<open>
  The member loop of \<^verbatim>\<open>di_finalize_object_inner\<close>.  The cursor is the key of the next member;
  it is read before the current member is removed and freed, so a member that disappears
  meanwhile makes the next step use a dangling pointer.
\<close>

fun finalize_loop :: "(addr \<Rightarrow> unit M) \<Rightarrow> addr \<Rightarrow> nat \<Rightarrow> string option \<Rightarrow> unit M" where
  "finalize_loop u a n None = mret ()"
| "finalize_loop u a 0 (Some k) = mcrash Out_of_fuel"
| "finalize_loop u a (Suc n) (Some k) =
     mbind (get_obj a) (\<lambda>ob.
     case hash_find k (members ob) of
       None \<Rightarrow> mcrash Use_after_free
     | Some v \<Rightarrow>
         (let next_m = hash_next k (members ob) in
          mseq (upd_obj a (\<lambda>ob. ob\<lparr>members := hash_del k (members ob)\<rparr>))
          (mseq (free_value_with u v)
          (finalize_loop u a n next_m))))"

definition finalize_object_inner_with :: "env \<Rightarrow> (addr \<Rightarrow> unit M) \<Rightarrow> addr \<Rightarrow> unit M" where
  "finalize_object_inner_with E u a =
     mbind (get_obj a) (\<lambda>ob.
     mseq (case dtor ob of
             None \<Rightarrow> mret ()
           | Some f \<Rightarrow> mseq (upd_obj a (\<lambda>ob. ob\<lparr>dtor := None\<rparr>)) (e_dtor E f a))
     (mbind (get_obj a) (\<lambda>ob.
      finalize_loop u a (e_fuel E) (case members ob of [] \<Rightarrow> None | (k, _) # _ \<Rightarrow> Some k))))"

definition destroy_object_with :: "env \<Rightarrow> (addr \<Rightarrow> unit M) \<Rightarrow> addr \<Rightarrow> unit M" where
  "destroy_object_with E u a =
     mbind (get_obj a) (\<lambda>ob.
     mseq (mcheck Assert_failed (ref_count ob = 0))
     (mseq (if destroyed ob then emit_effect (Log_error ''warning: destroy object multiple times'') else mret ())
     (mseq (upd_obj a (\<lambda>ob. ob\<lparr>destroyed := True\<rparr>))
     (mseq (finalize_object_inner_with E u a)
     (di_decrement_weak_ref_count a)))))"

text \<open>The nesting depth of destructions is bounded by the first argument.\<close>

fun unref_object_fuel :: "nat \<Rightarrow> env \<Rightarrow> addr \<Rightarrow> unit M" where
  "unref_object_fuel 0 E a = mcrash Out_of_fuel"
| "unref_object_fuel (Suc n) E a =
     mbind (get_obj a) (\<lambda>ob.
     mseq (mcheck Assert_failed (ref_count ob > 0))
     (mseq (mcheck Assert_failed (\<not> destroyed ob))
     (mseq (upd_obj a (\<lambda>ob. ob\<lparr>ref_count := ref_count ob - 1\<rparr>))
     (mbind (get_obj a) (\<lambda>ob.
      mseq (mcheck Assert_failed (mark ob = 0 \<or> mark ob = 2 \<or> mark ob = 3))
      (mbind (mget (sib_list_empty a)) (\<lambda>alone.
       if ref_count ob = 0
       then mseq (sib_list_del_init a) (destroy_object_with E (unref_object_fuel n E) a)
       else if alone \<and> mark ob = 0
       then mmodify (\<lambda>w. w\<lparr>unreferred_objects := a # unreferred_objects w\<rparr>)
       else mret ())))))))"

definition di_unref_object :: "env \<Rightarrow> addr \<Rightarrow> unit M" where
  "di_unref_object E a = unref_object_fuel (e_fuel E) E a"

definition di_free_value :: "env \<Rightarrow> di_variant \<Rightarrow> unit M" where
  "di_free_value E v = free_value_with (di_unref_object E) v"

definition di_finalize_object :: "env \<Rightarrow> addr \<Rightarrow> unit M" where
  "di_finalize_object E a = finalize_object_inner_with E (di_unref_object E) a"

section \<open>Raw members\<close>

text \<open>\<^verbatim>\<open>di_lookup\<close>: the value of a member, without a reference of its own.\<close>

definition di_lookup :: "addr \<Rightarrow> di_string \<Rightarrow> di_variant option M" where
  "di_lookup a name =
     (case name of
        None \<Rightarrow> mret None
      | Some k \<Rightarrow> mbind (get_obj a) (\<lambda>ob. mret (hash_find k (members ob))))"

definition di_remove_member_raw_impl :: "addr \<Rightarrow> string \<Rightarrow> unit M" where
  "di_remove_member_raw_impl a k = upd_obj a (\<lambda>ob. ob\<lparr>members := hash_del k (members ob)\<rparr>)"

definition di_remove_member_raw :: "addr \<Rightarrow> di_string \<Rightarrow> (int \<times> di_variant option) M" where
  "di_remove_member_raw a name =
     mbind (di_lookup a name) (\<lambda>m.
     case m of
       None \<Rightarrow> mret (- ENOENT, None)
     | Some v \<Rightarrow> mseq (di_remove_member_raw_impl a (str_bytes name)) (mret (0, Some v)))"

definition di_delete_member_raw :: "env \<Rightarrow> addr \<Rightarrow> di_string \<Rightarrow> int M" where
  "di_delete_member_raw E a name =
     mbind (di_lookup a name) (\<lambda>m.
     case m of
       None \<Rightarrow> mret (- ENOENT)
     | Some v \<Rightarrow> mseq (di_remove_member_raw_impl a (str_bytes name))
                  (mseq (di_free_value E v) (mret 0)))"

text \<open>
  \<^verbatim>\<open>check_new_member\<close>, \<^verbatim>\<open>di_insert_member\<close> and \<^verbatim>\<open>di_add_member\<close>: the object takes the value over,
  or the value is freed.
\<close>

definition di_insert_member :: "addr \<Rightarrow> di_string \<Rightarrow> di_variant \<Rightarrow> int M" where
  "di_insert_member a name v =
     (case name of
        None \<Rightarrow> mret (- EINVAL)
      | Some k \<Rightarrow>
          mbind (get_obj a) (\<lambda>ob.
          if hash_find k (members ob) \<noteq> None then mret (- EEXIST)
          else mseq (upd_obj a (\<lambda>ob. ob\<lparr>members := hash_add k v (members ob)\<rparr>)) (mret 0)))"

definition di_add_member :: "env \<Rightarrow> addr \<Rightarrow> di_string \<Rightarrow> di_variant \<Rightarrow> int M" where
  "di_add_member E a name v =
     (if name = None then mret (- EINVAL)
      else mbind (di_insert_member a (di_clone_string name) v) (\<lambda>r.
           if r \<noteq> 0 then mseq (di_free_value E v) (mret r) else mret 0))"

definition di_add_member_clone :: "env \<Rightarrow> addr \<Rightarrow> di_string \<Rightarrow> di_variant \<Rightarrow> int M" where
  "di_add_member_clone E a name v =
     (case di_sizeof_type (typeof v) of
        None \<Rightarrow> mcrash Panic
      | Some sz \<Rightarrow> if sz = 0 then mret (- EINVAL)
                  else mbind (di_copy_value v) (\<lambda>v'. di_add_member E a name v'))"

definition di_add_member_move :: "env \<Rightarrow> addr \<Rightarrow> di_string \<Rightarrow> di_variant \<Rightarrow> int M" where
  "di_add_member_move E a name v =
     (case di_sizeof_type (typeof v) of
        None \<Rightarrow> mcrash Panic
      | Some sz \<Rightarrow> if sz = 0 then mret (- EINVAL) else di_add_member E a name v)"

definition di_rawsetx :: "env \<Rightarrow> addr \<Rightarrow> di_string \<Rightarrow> di_variant \<Rightarrow> int M" where
  "di_rawsetx E a prop v =
     mbind (di_delete_member_raw E a prop) (\<lambda>ret.
     if ret \<noteq> 0 \<and> ret \<noteq> - ENOENT then mret ret else di_add_member_clone E a prop v)"

definition di_refrawgetx :: "addr \<Rightarrow> di_string \<Rightarrow> (int \<times> di_variant) M" where
  "di_refrawgetx a prop =
     mbind (di_lookup a prop) (\<lambda>m.
     case m of
       None \<Rightarrow> mret (- ENOENT, V_nil)
     | Some v \<Rightarrow> (case di_sizeof_type (typeof v) of
           None \<Rightarrow> mcrash Panic
         | Some sz \<Rightarrow> mseq (mcheck Assert_failed (sz \<noteq> 0)) (mret (0, v))))"

definition di_rawgetx :: "addr \<Rightarrow> di_string \<Rightarrow> (int \<times> di_variant) M" where
  "di_rawgetx a prop =
     mbind (di_refrawgetx a prop) (\<lambda>(rc, v).
     if rc \<noteq> 0 then mret (rc, V_nil) else mbind (di_copy_value v) (\<lambda>v'. mret (0, v')))"

text \<open>\<^verbatim>\<open>di_rawget_borrowed2\<close> for a variable of type \<open>t\<close>: no conversion, no new reference.\<close>

definition di_rawget_borrowed :: "addr \<Rightarrow> di_string \<Rightarrow> di_type \<Rightarrow> (int \<times> di_variant) M" where
  "di_rawget_borrowed a prop t =
     mbind (di_refrawgetx a prop) (\<lambda>(rc, v).
     if rc \<noteq> 0 then mret (rc, V_nil)
     else if typeof v \<noteq> t then mret (- ERANGE, V_nil)
     else mret (0, v))"

definition di_set_type :: "env \<Rightarrow> addr \<Rightarrow> c_string \<Rightarrow> int M" where
  "di_set_type E a type = di_rawsetx E a (Some ''__type'') (V_string_literal type)"

definition di_get_all_member_names_raw :: "addr \<Rightarrow> di_variant M" where
  "di_get_all_member_names_raw a =
     mbind (get_obj a) (\<lambda>ob.
     mret (V_array DI_TYPE_STRING (map (\<lambda>k. V_string (di_clone_string (Some k))) (hash_keys (members ob)))))"

definition di_set_object_dtor :: "addr \<Rightarrow> fn_ptr option \<Rightarrow> unit M" where
  "di_set_object_dtor a f = upd_obj a (\<lambda>ob. ob\<lparr>dtor := f\<rparr>)"

definition di_set_object_call :: "addr \<Rightarrow> fn_ptr option \<Rightarrow> unit M" where
  "di_set_object_call a f = upd_obj a (\<lambda>ob. ob\<lparr>call := f\<rparr>)"

definition di_is_object_callable :: "addr \<Rightarrow> bool M" where
  "di_is_object_callable a = mbind (get_obj a) (\<lambda>ob. mret (call ob \<noteq> None))"

definition di_is_empty_object :: "addr \<Rightarrow> bool M" where
  "di_is_empty_object a = mbind (get_obj a) (\<lambda>ob. mret (members ob = []))"

text \<open>
  \<^verbatim>\<open>di_foreach_member_raw\<close>: the callback sees every member in order until it answers true.
\<close>

fun foreach_members :: "(string \<Rightarrow> di_variant \<Rightarrow> bool M) \<Rightarrow> (string \<times> di_variant) list \<Rightarrow> bool M" where
  "foreach_members cb [] = mret False"
| "foreach_members cb ((k, v) # ms) =
     mbind (cb k v) (\<lambda>stop. if stop then mret True else foreach_members cb ms)"

definition di_foreach_member_raw :: "addr \<Rightarrow> (string \<Rightarrow> di_variant \<Rightarrow> bool M) \<Rightarrow> bool M" where
  "di_foreach_member_raw a cb = mbind (get_obj a) (\<lambda>ob. foreach_members cb (members ob))"

text \<open>
  \<^verbatim>\<open>di_object_next_member\<close> for an object without a \<^verbatim>\<open>__next\<close> member: the first member after
  \<open>name\<close> (from the start for a null name) whose name does not begin with two underscores.
\<close>

fun skip_internal :: "(string \<times> di_variant) list \<Rightarrow> (string \<times> di_variant) option" where
  "skip_internal [] = None"
| "skip_internal ((k, v) # ms) =
     (if di_string_starts_with (Some k) ''__'' then skip_internal ms else Some (k, v))"

fun members_after :: "string \<Rightarrow> (string \<times> di_variant) list \<Rightarrow> (string \<times> di_variant) list" where
  "members_after k [] = []"
| "members_after k ((k', v) # ms) = (if k' = k then ms else members_after k ms)"

definition next_member_raw :: "addr \<Rightarrow> di_string \<Rightarrow> di_variant M" where
  "next_member_raw a name =
     mbind (get_obj a) (\<lambda>ob.
     let rest = (case name of None \<Rightarrow> members ob | Some k \<Rightarrow> members_after k (members ob))
     in case skip_internal rest of
          None \<Rightarrow> mret (V_tuple [])
        | Some (k, v) \<Rightarrow>
            (case di_sizeof_type (typeof v) of
               None \<Rightarrow> mcrash Panic
             | Some _ \<Rightarrow> mbind (di_copy_value v) (\<lambda>v'.
                 mret (V_tuple [V_string (di_clone_string (Some k)), v']))))"

definition di_object_next_member :: "env \<Rightarrow> addr \<Rightarrow> di_string \<Rightarrow> di_variant M" where
  "di_object_next_member E a name =
     mbind (di_rawget_borrowed a (Some ''__next'') DI_TYPE_OBJECT) (\<lambda>(rc, v).
     case (rc = 0, v) of
       (True, V_object next) \<Rightarrow>
         mbind (get_obj next) (\<lambda>nob.
         case call nob of
           None \<Rightarrow> mcrash Null_deref
         | Some f \<Rightarrow>
             mbind (e_call E f next [V_object a, V_string name]) (\<lambda>(rc2, ret).
             if rc2 \<noteq> 0 then mret (V_tuple [])
             else case ret of
                 V_tuple [V_string s, x] \<Rightarrow> mret ret
               | _ \<Rightarrow> mseq (di_free_value E ret) (mret (V_tuple []))))
     | _ \<Rightarrow> next_member_raw a name)"

end
