(* ===== verification/Deai_Gc.thy ===== *)
theory Deai_Gc
  imports Deai_Object
begin

text \<open>
  The cycle collector of \<^verbatim>\<open>object.c\<close>.  Objects that lost a reference without dying are the
  candidate roots.  The first stage counts the references among the objects reachable from
  them, the second one keeps every object that has a reference from elsewhere and everything
  reachable from such an object, the third one finalizes the rest.
\<close>

section \<open>Scanning\<close>

text \<open>
  \<^verbatim>\<open>di_scan_type\<close> on the parts of a value; \<open>visit\<close> is applied to every object.  Only
  \<^verbatim>\<open>DI_TYPE_OBJECT\<close> counts.
\<close>

fun scan_value_with :: "(addr \<Rightarrow> unit M) \<Rightarrow> di_variant \<Rightarrow> unit M" where
  "scan_value_with visit (V_object a) = visit a"
| "scan_value_with visit (V_array t vs) =
     (if vs = [] then mret ()
      else case di_sizeof_type t of None \<Rightarrow> mcrash Panic | Some _ \<Rightarrow> mforeach (scan_value_with visit) vs)"
| "scan_value_with visit (V_tuple vs) = mforeach (scan_value_with visit) vs"
| "scan_value_with visit (V_variant v) = scan_value_with visit v"
| "scan_value_with visit _ = mret ()"

text \<open>The member loop: the key of the next member is read before the current one is scanned.\<close>

fun scan_members_with :: "(addr \<Rightarrow> unit M) \<Rightarrow> addr \<Rightarrow> nat \<Rightarrow> string option \<Rightarrow> unit M" where
  "scan_members_with visit a n None = mret ()"
| "scan_members_with visit a 0 (Some k) = mcrash Out_of_fuel"
| "scan_members_with visit a (Suc n) (Some k) =
     mbind (get_obj a) (\<lambda>ob.
     case hash_find k (members ob) of
       None \<Rightarrow> mcrash Use_after_free
     | Some v \<Rightarrow>
         (let next_m = hash_next k (members ob) in
          mseq (scan_value_with visit v) (scan_members_with visit a n next_m)))"

text \<open>
  \<^verbatim>\<open>di_scan_type\<close> on an object: \<open>pre\<close> decides whether to go on and with which state, \<open>post\<close> runs
  after the members.  The nesting depth is bounded by the first argument.
\<close>

fun di_scan_type ::
  "nat \<Rightarrow> env \<Rightarrow> (addr \<Rightarrow> int \<Rightarrow> int M) \<Rightarrow> (addr \<Rightarrow> unit M) option \<Rightarrow> int \<Rightarrow> addr \<Rightarrow> unit M" where
  "di_scan_type 0 E pre post st a = mcrash Out_of_fuel"
| "di_scan_type (Suc n) E pre post st a =
     mbind (pre a st) (\<lambda>next_state.
     if next_state < 0 then mret ()
     else
       mbind (get_obj a) (\<lambda>ob.
       mseq (scan_members_with (di_scan_type n E pre post next_state) a (e_fuel E)
               (case members ob of [] \<Rightarrow> None | (k, _) # _ \<Rightarrow> Some k))
       (case post of None \<Rightarrow> mret () | Some p \<Rightarrow> p a)))"

section \<open>The three stages\<close>

definition di_collect_garbage_mark :: "addr \<Rightarrow> int \<Rightarrow> int M" where
  "di_collect_garbage_mark a st =
     mbind (get_obj a) (\<lambda>_.
     mseq (sib_list_del_init a)
     (mseq (upd_obj a (\<lambda>ob. ob\<lparr>ref_count_scan := ref_count_scan ob + 1\<rparr>))
     (mbind (get_obj a) (\<lambda>ob.
      if mark ob = 1 then mret (-1)
      else mseq (upd_obj a (\<lambda>ob. ob\<lparr>mark := 1\<rparr>)) (mret 0)))))"

definition di_collect_garbage_scan :: "addr \<Rightarrow> int \<Rightarrow> int M" where
  "di_collect_garbage_scan a revive =
     mbind (get_obj a) (\<lambda>ob.
     if ref_count_scan ob > ref_count ob then mcrash Assert_failed
     else if revive \<noteq> 0 \<or> ref_count_scan ob \<noteq> ref_count ob
     then (if mark ob = 0 then mret (-1)
           else mseq (upd_obj a (\<lambda>ob. ob\<lparr>ref_count_scan := 0, mark := 0\<rparr>)) (mret 1))
     else if mark ob = 2 \<or> mark ob = 0 then mret (-1)
     else mseq (upd_obj a (\<lambda>ob. ob\<lparr>mark := 2\<rparr>)) (mret 0))"

definition di_collect_garbage_collect_pre :: "addr \<Rightarrow> int \<Rightarrow> int M" where
  "di_collect_garbage_collect_pre a st =
     mbind (get_obj a) (\<lambda>ob.
     if mark ob = 0 \<or> mark ob = 3 then mret (-1)
     else mbind (di_ref_object a) (\<lambda>_.
          mseq (upd_obj a (\<lambda>ob. ob\<lparr>mark := 3\<rparr>)) (mret 0)))"

definition di_collect_garbage_collect_post :: "env \<Rightarrow> addr \<Rightarrow> unit M" where
  "di_collect_garbage_collect_post E a =
     mbind (get_obj a) (\<lambda>ob.
     mseq (mcheck Assert_failed (mark ob = 3))
     (mseq (di_finalize_object E a)
     (di_unref_object E a)))"

text \<open>
  The first loop of \<^verbatim>\<open>di_collect_garbage\<close>: every candidate root is marked from, and moved to the
  list of isolated roots; marking removes whatever it reaches from both lists.
\<close>

fun gc_mark_roots :: "nat \<Rightarrow> env \<Rightarrow> unit M" where
  "gc_mark_roots n E w =
     (case unreferred_objects w of
        [] \<Rightarrow> Ret () w
      | i # _ \<Rightarrow>
          (case n of
             0 \<Rightarrow> Crash Out_of_fuel
           | Suc n' \<Rightarrow>
               (mbind (get_obj i) (\<lambda>ob.
                mseq (mcheck Assert_failed (mark ob = 0))
                (mseq (di_scan_type (e_fuel E) E di_collect_garbage_mark None 0 i)
                (mseq (upd_obj i (\<lambda>ob. ob\<lparr>ref_count_scan := ref_count_scan ob - 1\<rparr>))
                (mseq (mmodify (\<lambda>w. w\<lparr>isolated_roots := i # isolated_roots w\<rparr>))
                (gc_mark_roots n' E)))))) w))"

declare gc_mark_roots.simps [simp del]

text \<open>The second loop, which does not change the list it iterates over.\<close>

definition gc_scan_roots :: "env \<Rightarrow> unit M" where
  "gc_scan_roots E =
     mbind (mget isolated_roots) (\<lambda>rs.
     mforeach (di_scan_type (e_fuel E) E di_collect_garbage_scan None 0) rs)"

text \<open>The third loop drops the revived roots from the list.\<close>

definition gc_drop_revived :: "unit M" where
  "gc_drop_revived =
     mbind (mget isolated_roots) (\<lambda>rs.
     mforeach (\<lambda>i.
       mbind (get_obj i) (\<lambda>ob.
       mseq (mcheck Assert_failed (mark ob = 0 \<or> mark ob = 2))
       (if mark ob \<noteq> 2 then sib_list_del_init i else mret ()))) rs)"

text \<open>The fourth loop finalizes what is left.\<close>

fun gc_finalize_roots :: "nat \<Rightarrow> env \<Rightarrow> unit M" where
  "gc_finalize_roots n E w =
     (case isolated_roots w of
        [] \<Rightarrow> Ret () w
      | i # _ \<Rightarrow>
          (case n of
             0 \<Rightarrow> Crash Out_of_fuel
           | Suc n' \<Rightarrow>
               mseq (di_scan_type (e_fuel E) E di_collect_garbage_collect_pre
                       (Some (di_collect_garbage_collect_post E)) 0 i)
                 (gc_finalize_roots n' E) w))"

declare gc_finalize_roots.simps [simp del]

text \<open>The two marking stages, and the whole collector.\<close>

definition gc_find_garbage :: "env \<Rightarrow> unit M" where
  "gc_find_garbage E = mseq (gc_mark_roots (e_fuel E) E) (gc_scan_roots E)"

fun di_collect_garbage_fuel :: "nat \<Rightarrow> env \<Rightarrow> unit M" where
  "di_collect_garbage_fuel n E w =
     (if unreferred_objects w = [] then Ret () w
      else case n of
          0 \<Rightarrow> Crash Out_of_fuel
        | Suc n' \<Rightarrow>
            mseq (gc_find_garbage E)
            (mseq gc_drop_revived
            (mseq (gc_finalize_roots (e_fuel E) E)
            (di_collect_garbage_fuel n' E))) w)"

declare di_collect_garbage_fuel.simps [simp del]

definition di_collect_garbage :: "env \<Rightarrow> unit M" where
  "di_collect_garbage E = di_collect_garbage_fuel (e_fuel E) E"

end
