(* ===== verification/Deai_Refcount.thy ===== *)
theory Deai_Refcount
  imports Deai_Object
begin

text \<open>
  The reference count invariant of the object heap, and that dropping a reference keeps it.
  Every reference to an object is either stored in a member of an object of the heap, or held
  by the running code; the second kind is counted by the functions \<open>ext\<close> (strong) and
  \<open>wext\<close> (weak).  The set \<open>B\<close> holds the objects whose destruction is in progress: their strong
  count is zero but the implicit weak reference is still there.
\<close>

section \<open>Counting references\<close>

fun payload_refs :: "payload \<Rightarrow> addr list" where
  "payload_refs (P_roots rs) = rs"
| "payload_refs _ = []"

definition obj_refs :: "di_object_internal \<Rightarrow> addr list" where
  "obj_refs ob = concat (map (refs_of \<circ> snd) (members ob)) @ payload_refs (payload ob)"

definition obj_weak_refs :: "di_object_internal \<Rightarrow> addr list" where
  "obj_weak_refs ob = concat (map (weak_refs_of \<circ> snd) (members ob))"

type_synonym heap = "addr \<Rightarrow> di_object_internal option"

definition count_in :: "(di_object_internal \<Rightarrow> addr list) \<Rightarrow> heap \<Rightarrow> addr \<Rightarrow> nat" where
  "count_in rs h a = (\<Sum>b \<in> dom h. count_list (rs (the (h b))) a)"

abbreviation strong_in :: "heap \<Rightarrow> addr \<Rightarrow> nat" where
  "strong_in \<equiv> count_in obj_refs"

abbreviation weak_in :: "heap \<Rightarrow> addr \<Rightarrow> nat" where
  "weak_in \<equiv> count_in obj_weak_refs"

lemma count_in_upd:
  assumes "finite (dom h)" and "h b = Some ob"
  shows "count_in rs (h(b := Some ob')) a + count_list (rs ob) a = count_in rs h a + count_list (rs ob') a"
proof -
  have "dom (h(b := Some ob')) = dom h" using assms(2) by auto
  moreover have "sum (\<lambda>c. count_list (rs (the ((h(b := Some ob')) c))) a) (dom h) + count_list (rs (the (h b))) a =
      sum (\<lambda>c. count_list (rs (the (h c))) a) (dom h) + count_list (rs (the ((h(b := Some ob')) b))) a"
    by (rule sum_remove_point) (use assms in auto)
  ultimately show ?thesis using assms(2) by (simp add: count_in_def)
qed

lemma count_in_upd_same:
  assumes "finite (dom h)" and "h b = Some ob" and "rs ob' = rs ob"
  shows "count_in rs (h(b := Some ob')) a = count_in rs h a"
  using count_in_upd [OF assms(1,2), of rs ob' a] assms(3) by simp

lemma count_in_del:
  assumes "finite (dom h)" and "h b = Some ob" and "rs ob = []"
  shows "count_in rs (h(b := None)) a = count_in rs h a"
proof -
  have "count_in rs h a = count_list (rs (the (h b))) a + (\<Sum>c \<in> dom h - {b}. count_list (rs (the (h c))) a)"
    unfolding count_in_def by (rule sum.remove) (use assms in auto)
  moreover have "count_in rs (h(b := None)) a = (\<Sum>c \<in> dom h - {b}. count_list (rs (the (h c))) a)"
    unfolding count_in_def by (rule sum.cong) auto
  ultimately show ?thesis using assms by simp
qed

lemma count_in_new:
  assumes "finite (dom h)" and "h b = None" and "rs ob = []"
  shows "count_in rs (h(b := Some ob)) a = count_in rs h a"
proof -
  have "count_in rs (h(b := Some ob)) a =
      (\<Sum>c \<in> insert b (dom h). count_list (rs (the ((h(b := Some ob)) c))) a)"
    by (simp add: count_in_def)
  also have "\<dots> = count_list (rs ob) a + (\<Sum>c \<in> dom h. count_list (rs (the ((h(b := Some ob)) c))) a)"
    using assms by (subst sum.insert) auto
  also have "(\<Sum>c \<in> dom h. count_list (rs (the ((h(b := Some ob)) c))) a) = count_in rs h a"
    unfolding count_in_def using assms(2) by (intro sum.cong) auto
  finally show ?thesis using assms(3) by (simp del: fun_upd_apply)
qed

lemma count_concat_del:
  assumes "hash_find k ms = Some v"
  shows "count_list (concat (map (f \<circ> snd) ms)) a =
         count_list (f v) a + count_list (concat (map (f \<circ> snd) (hash_del k ms))) a"
proof -
  from assms obtain xs ys where "ms = xs @ (k, v) # ys" and "hash_del k ms = xs @ ys"
    by (rule hash_find_split)
  then show ?thesis by simp
qed

section \<open>The invariant\<close>

definition obj_ok ::
  "addr set \<Rightarrow> (addr \<Rightarrow> nat) \<Rightarrow> (addr \<Rightarrow> nat) \<Rightarrow> heap \<Rightarrow> addr \<Rightarrow> di_object_internal \<Rightarrow> bool" where
  "obj_ok B ext wext h a ob \<longleftrightarrow>
     unat (ref_count ob) = strong_in h a + ext a \<and>
     unat (weak_ref_count ob) = weak_in h a + wext a + (if ref_count ob \<noteq> 0 \<or> a \<in> B then 1 else 0) \<and>
     weak_ref_count ob \<noteq> 0 \<and>
     (destroyed ob \<longleftrightarrow> ref_count ob = 0) \<and>
     (mark ob = 0 \<or> mark ob = 2 \<or> mark ob = 3) \<and>
     distinct (hash_keys (members ob)) \<and>
     (\<forall>p \<in> set (members ob). wt_value (snd p)) \<and>
     (ref_count ob = 0 \<and> a \<notin> B \<longrightarrow> members ob = []) \<and>
     (a \<in> B \<longrightarrow> ref_count ob = 0)"

definition lists_ok :: "world \<Rightarrow> bool" where
  "lists_ok w \<longleftrightarrow> distinct (unreferred_objects w @ isolated_roots w) \<and>
     (\<forall>a \<in> set (unreferred_objects w @ isolated_roots w). \<exists>ob. objs w a = Some ob \<and> ref_count ob \<noteq> 0)"

definition heap_ok :: "addr set \<Rightarrow> (addr \<Rightarrow> nat) \<Rightarrow> (addr \<Rightarrow> nat) \<Rightarrow> world \<Rightarrow> bool" where
  "heap_ok B ext wext w \<longleftrightarrow>
     finite (dom (objs w)) \<and> B \<subseteq> dom (objs w) \<and>
     (\<forall>a ob. objs w a = Some ob \<longrightarrow> obj_ok B ext wext (objs w) a ob) \<and>
     (\<forall>a. objs w a = None \<longrightarrow>
        strong_in (objs w) a + ext a = 0 \<and> weak_in (objs w) a + wext a = 0) \<and>
     lists_ok w"

lemma lists_ok_upd:
  assumes ok: "lists_ok w" and ob: "objs w a = Some ob" and rc: "ref_count ob' = ref_count ob"
  shows "lists_ok (w\<lparr>objs := (objs w)(a := Some ob')\<rparr>)"
proof -
  have "\<exists>ob. ((objs w)(a := Some ob')) x = Some ob \<and> ref_count ob \<noteq> 0"
    if "x \<in> set (unreferred_objects w @ isolated_roots w)" for x
  proof -
    from ok that obtain ox where "objs w x = Some ox" "ref_count ox \<noteq> 0"
      unfolding lists_ok_def by blast
    with ob rc show ?thesis by (cases "x = a") auto
  qed
  with ok show ?thesis unfolding lists_ok_def by (simp del: set_append fun_upd_apply)
qed

lemma lists_ok_del:
  assumes ok: "lists_ok w" and ob: "objs w a = Some ob" and rc: "ref_count ob = 0"
  shows "lists_ok (w\<lparr>objs := (objs w)(a := None)\<rparr>)"
proof -
  have "\<exists>ob. ((objs w)(a := None)) x = Some ob \<and> ref_count ob \<noteq> 0"
    if "x \<in> set (unreferred_objects w @ isolated_roots w)" for x
  proof -
    from ok that obtain ox where "objs w x = Some ox" "ref_count ox \<noteq> 0"
      unfolding lists_ok_def by blast
    with ob rc show ?thesis by (cases "x = a") auto
  qed
  with ok show ?thesis unfolding lists_ok_def by (simp del: set_append fun_upd_apply)
qed

text \<open>
  The references in the struct part of an object are dropped by its destructor only; the one
  such object, the roots registry, is kept alive by a reference of the main program.
\<close>

definition pinned :: "(addr \<Rightarrow> nat) \<Rightarrow> world \<Rightarrow> bool" where
  "pinned ext w \<longleftrightarrow> (\<forall>a ob. objs w a = Some ob \<longrightarrow> payload_refs (payload ob) \<noteq> [] \<longrightarrow> 0 < ext a)"

text \<open>
  What dropping references may do to the heap: objects only disappear, counts and member
  tables only shrink, and the members of an object are left alone unless its strong count
  reaches zero or it is in the set \<open>X\<close> of objects being finalized.
\<close>

definition obj_shrinks :: "bool \<Rightarrow> di_object_internal \<Rightarrow> di_object_internal \<Rightarrow> bool" where
  "obj_shrinks fin ob ob' \<longleftrightarrow>
     set (members ob') \<subseteq> set (members ob) \<and> length (members ob') \<le> length (members ob) \<and>
     payload ob' = payload ob \<and> ref_count ob' \<le> ref_count ob \<and> weak_ref_count ob' \<le> weak_ref_count ob \<and>
     (\<not> fin \<longrightarrow> ref_count ob' \<noteq> 0 \<or> ref_count ob = 0 \<longrightarrow> members ob' = members ob)"

definition shrinks_on :: "addr set \<Rightarrow> world \<Rightarrow> world \<Rightarrow> bool" where
  "shrinks_on X w w' \<longleftrightarrow>
     (\<forall>a ob'. objs w' a = Some ob' \<longrightarrow> (\<exists>ob. objs w a = Some ob \<and> obj_shrinks (a \<in> X) ob ob'))"

abbreviation shrinks :: "world \<Rightarrow> world \<Rightarrow> bool" where
  "shrinks \<equiv> shrinks_on {}"

definition live :: "world \<Rightarrow> addr set" where
  "live w = {a. \<exists>ob. objs w a = Some ob \<and> ref_count ob \<noteq> 0}"

definition members_bound :: "nat \<Rightarrow> world \<Rightarrow> bool" where
  "members_bound n w \<longleftrightarrow> (\<forall>a ob. objs w a = Some ob \<longrightarrow> length (members ob) \<le> n)"

text \<open>A destructor that leaves the heap of objects alone, such as \<^verbatim>\<open>free_closure\<close>.\<close>

definition dtors_neutral :: "env \<Rightarrow> bool" where
  "dtors_neutral E \<longleftrightarrow>
     (\<forall>f a w. \<exists>w'. e_dtor E f a w = Ret () w' \<and> objs w' = objs w \<and>
        unreferred_objects w' = unreferred_objects w \<and> isolated_roots w' = isolated_roots w)"

lemma obj_shrinks_refl: "obj_shrinks b ob ob"
  by (simp add: obj_shrinks_def)

lemma obj_shrinks_zero: "obj_shrinks b ob ob' \<Longrightarrow> ref_count ob = 0 \<Longrightarrow> ref_count ob' = 0"
  by (simp add: obj_shrinks_def)

lemma obj_shrinks_trans: "obj_shrinks b ob1 ob2 \<Longrightarrow> obj_shrinks b ob2 ob3 \<Longrightarrow> obj_shrinks b ob1 ob3"
proof -
  assume s: "obj_shrinks b ob1 ob2" "obj_shrinks b ob2 ob3"
  from s(1) have "ref_count ob1 = 0 \<Longrightarrow> ref_count ob2 = 0" by (rule obj_shrinks_zero)
  moreover from s(2) have "ref_count ob2 = 0 \<Longrightarrow> ref_count ob3 = 0" by (rule obj_shrinks_zero)
  ultimately show ?thesis using s unfolding obj_shrinks_def by auto
qed

lemma shrinks_refl: "shrinks_on X w w"
  by (simp add: shrinks_on_def obj_shrinks_refl)

lemma shrinks_mono: "shrinks_on X w w' \<Longrightarrow> X \<subseteq> Y \<Longrightarrow> shrinks_on Y w w'"
  unfolding shrinks_on_def obj_shrinks_def by blast

lemma shrinks_trans: "shrinks_on X w1 w2 \<Longrightarrow> shrinks_on X w2 w3 \<Longrightarrow> shrinks_on X w1 w3"
  unfolding shrinks_on_def by (meson obj_shrinks_trans)

text \<open>The update of one object.\<close>

lemma shrinks_upd:
  assumes "objs w a = Some ob" and "objs w' = (objs w)(a := Some ob')" and "obj_shrinks (a \<in> X) ob ob'"
  shows "shrinks_on X w w'"
  using assms by (auto simp: shrinks_on_def obj_shrinks_refl)

lemma shrinks_dead:
  assumes "shrinks_on {a} w w'" and "objs w a = Some ob" and "ref_count ob \<noteq> 0"
    and "\<And>ob'. objs w' a = Some ob' \<Longrightarrow> ref_count ob' = 0"
  shows "shrinks w w'"
  unfolding shrinks_on_def
proof (intro allI impI)
  fix c ob' assume c: "objs w' c = Some ob'"
  with assms(1) obtain oc where "objs w c = Some oc" "obj_shrinks (c \<in> {a}) oc ob'"
    unfolding shrinks_on_def by blast
  with assms(2-4) c show "\<exists>oc. objs w c = Some oc \<and> obj_shrinks (c \<in> {}) oc ob'"
    by (intro exI [of _ oc]) (auto simp: obj_shrinks_def)
qed

lemma shrinks_live: "shrinks_on X w w' \<Longrightarrow> live w' \<subseteq> live w"
  unfolding shrinks_on_def live_def using obj_shrinks_zero by fastforce

lemma shrinks_members_bound: "shrinks_on X w w' \<Longrightarrow> members_bound n w \<Longrightarrow> members_bound n w'"
  unfolding shrinks_on_def members_bound_def obj_shrinks_def by (metis order_trans)

lemma shrinks_pinned: "shrinks_on X w w' \<Longrightarrow> pinned ext w \<Longrightarrow> pinned ext w'"
  unfolding shrinks_on_def pinned_def obj_shrinks_def by metis

text \<open>An object that is alive afterwards has kept its members.\<close>

lemma shrinks_keeps:
  assumes "shrinks w w'" and "objs w' a = Some ob'" and "ref_count ob' \<noteq> 0"
  shows "\<exists>ob. objs w a = Some ob \<and> members ob' = members ob \<and> payload ob' = payload ob"
  using assms unfolding shrinks_on_def obj_shrinks_def by blast

lemma pinned_mono: "pinned ext w \<Longrightarrow> (\<And>a. ext a \<le> ext' a) \<Longrightarrow> pinned ext' w"
  unfolding pinned_def by (meson order_less_le_trans)

lemma finite_live: "heap_ok B ext wext w \<Longrightarrow> finite (live w)"
  by (rule finite_subset [of _ "dom (objs w)"]) (auto simp: heap_ok_def live_def)

lemma heap_okD:
  assumes "heap_ok B ext wext w"
  shows "finite (dom (objs w))" and "B \<subseteq> dom (objs w)" and "lists_ok w"
    and "objs w a = Some ob \<Longrightarrow> obj_ok B ext wext (objs w) a ob"
    and "objs w a = None \<Longrightarrow> strong_in (objs w) a + ext a = 0 \<and> weak_in (objs w) a + wext a = 0"
  using assms by (auto simp: heap_ok_def)

text \<open>Whoever holds a reference finds the object.\<close>

lemma heap_ok_ext_obj:
  assumes "heap_ok B ext wext w" and "0 < ext a"
  obtains ob where "objs w a = Some ob" and "ref_count ob \<noteq> 0" and "\<not> destroyed ob"
proof -
  obtain ob where ob: "objs w a = Some ob"
    using heap_okD(5) [OF assms(1), of a] assms(2) by (cases "objs w a") auto
  with heap_okD(4) [OF assms(1) ob] assms(2) have "ref_count ob \<noteq> 0" and "\<not> destroyed ob"
    by (auto simp: obj_ok_def)
  with ob that show ?thesis by blast
qed

lemma heap_ok_wext_obj:
  assumes "heap_ok B ext wext w" and "0 < wext a"
  obtains ob where "objs w a = Some ob"
  using heap_okD(5) [OF assms(1), of a] assms(2) by (cases "objs w a") auto

section \<open>Dropping weak references\<close>

text \<open>
  \<^verbatim>\<open>di_decrement_weak_ref_count\<close>, for the two kinds of weak reference: one held by the running
  code, and the implicit one of an object whose destruction ends.
\<close>

lemma weak_dec:
  assumes ok: "heap_ok B1 ext wext1 w" and ob: "objs w a = Some ob" and pin: "pinned ext w"
    and rest: "\<And>b. b \<noteq> a \<Longrightarrow> (b \<in> B1 \<longleftrightarrow> b \<in> B) \<and> wext1 b = wext b"
    and own: "wext1 a + (if ref_count ob \<noteq> 0 \<or> a \<in> B1 then 1 else 0) =
              Suc (wext a + (if ref_count ob \<noteq> 0 \<or> a \<in> B then 1 else 0))"
    and mem: "a \<notin> B \<Longrightarrow> ref_count ob = 0 \<Longrightarrow> members ob = []" and sub: "a \<in> B \<Longrightarrow> a \<in> B1"
  shows "\<exists>w'. di_decrement_weak_ref_count a w = Ret () w' \<and> heap_ok B ext wext w' \<and> shrinks w w'"
proof -
  let ?ob = "ob\<lparr>weak_ref_count := weak_ref_count ob - 1\<rparr>"
  let ?h = "(objs w)(a := Some ?ob)"
  note fin = heap_okD(1) [OF ok] and oka = heap_okD(4) [OF ok ob, unfolded obj_ok_def]
  have cnt: "unat (weak_ref_count ob - 1) = weak_in (objs w) a + wext a + (if ref_count ob \<noteq> 0 \<or> a \<in> B then 1 else 0)"
    using oka own by (simp add: unat_dec split: if_splits)
  have same: "count_in rs ?h c = count_in rs (objs w) c" if "rs ?ob = rs ob" for rs c
    using fin ob that by (rule count_in_upd_same)
  have so: "strong_in ?h c = strong_in (objs w) c" "weak_in ?h c = weak_in (objs w) c" for c
    by (rule same, simp add: obj_refs_def obj_weak_refs_def)+
  show ?thesis
  proof (cases "weak_ref_count ob - 1 = 0")
    case False
    let ?w = "w\<lparr>objs := ?h\<rparr>"
    have "di_decrement_weak_ref_count a w = Ret () ?w"
      using ob False by (simp add: di_decrement_weak_ref_count_def outcome_simps heap_simps)
    moreover have "heap_ok B ext wext ?w"
      unfolding heap_ok_def
    proof (intro conjI allI impI)
      show "finite (dom (objs ?w))" using fin ob by (simp add: insert_absorb domI)
      show "B \<subseteq> dom (objs ?w)" using heap_okD(2) [OF ok] rest by auto
      show "lists_ok ?w" by (rule lists_ok_upd [OF heap_okD(3) [OF ok] ob]) simp
      show "obj_ok B ext wext (objs ?w) c oc" if "objs ?w c = Some oc" for c oc
      proof (cases "c = a")
        case True
        with that have oc: "oc = ?ob" by simp
        show ?thesis
          using oka cnt False mem sub unfolding True oc
          by (cases "ref_count ob = 0"; cases "a \<in> B") (simp_all add: obj_ok_def so)
      next
        case False
        with that have "objs w c = Some oc" by simp
        from heap_okD(4) [OF ok this] rest [OF False] show ?thesis by (simp add: obj_ok_def so)
      qed
      fix c assume "objs ?w c = None"
      then have "objs w c = None" "c \<noteq> a" by (auto split: if_splits)
      with heap_okD(5) [OF ok, of c] rest [of c]
      show "strong_in (objs ?w) c + ext c = 0" "weak_in (objs ?w) c + wext c = 0"
        by (auto simp: so)
    qed
    moreover have "shrinks w ?w"
      using ob oka by (intro shrinks_upd [of w a ob]) (auto simp: obj_shrinks_def word_dec_le)
    ultimately show ?thesis by blast
  next
    case True
    let ?w = "w\<lparr>objs := (objs w)(a := None)\<rparr>"
    from True cnt have z: "weak_in (objs w) a = 0" "wext a = 0" "ref_count ob = 0" "a \<notin> B"
      by (auto split: if_splits)
    with oka have ze: "strong_in (objs w) a = 0" "ext a = 0" by auto
    have "payload_refs (payload ob) = []" using pin ob ze(2) unfolding pinned_def by (metis less_irrefl)
    with z mem have er: "obj_refs ob = []" "obj_weak_refs ob = []"
      by (auto simp: obj_refs_def obj_weak_refs_def)
    have sd: "strong_in ((objs w)(a := None)) c = strong_in (objs w) c"
      "weak_in ((objs w)(a := None)) c = weak_in (objs w) c" for c
      using count_in_del [OF fin ob] er by blast+
    have "di_decrement_weak_ref_count a w = Ret () ?w"
      using ob True z by (simp add: di_decrement_weak_ref_count_def outcome_simps heap_simps)
    moreover have "heap_ok B ext wext ?w"
      unfolding heap_ok_def
    proof (intro conjI allI impI)
      show "finite (dom (objs ?w))" using fin by simp
      show "B \<subseteq> dom (objs ?w)"
      proof
        fix x assume "x \<in> B"
        with z(4) have "x \<noteq> a" by blast
        with \<open>x \<in> B\<close> rest [of x] heap_okD(2) [OF ok] show "x \<in> dom (objs ?w)" by auto
      qed
      show "lists_ok ?w" by (rule lists_ok_del [OF heap_okD(3) [OF ok] ob z(3)])
      show "obj_ok B ext wext (objs ?w) c oc" if "objs ?w c = Some oc" for c oc
      proof -
        from that have ne: "c \<noteq> a" and "objs w c = Some oc" by (auto split: if_splits)
        from heap_okD(4) [OF ok this(2)] rest [OF ne] show ?thesis by (simp add: obj_ok_def sd)
      qed
      fix c assume c: "objs ?w c = None"
      show "strong_in (objs ?w) c + ext c = 0" "weak_in (objs ?w) c + wext c = 0"
        using c heap_okD(5) [OF ok, of c] rest [of c] ze z by (cases "c = a"; simp add: sd)+
    qed
    moreover have "shrinks w ?w" by (auto simp: shrinks_on_def obj_shrinks_refl split: if_splits)
    ultimately show ?thesis by blast
  qed
qed

lemma drop_weak_ok:
  assumes ok: "heap_ok B ext (wext(a := Suc (wext a))) w" and pin: "pinned ext w"
  shows "\<exists>w'. di_drop_weak_ref a w = Ret () w' \<and> heap_ok B ext wext w' \<and> shrinks w w'"
proof -
  obtain ob where ob: "objs w a = Some ob" using heap_ok_wext_obj [OF ok, of a] by auto
  show ?thesis
    unfolding di_drop_weak_ref_def
    by (rule weak_dec [OF ok ob pin]) (use heap_okD(4) [OF ok ob] in \<open>auto simp: obj_ok_def\<close>)
qed

section \<open>Freeing values\<close>

text \<open>A function that drops one strong reference, on heaps with at most \<open>n\<close> live objects.\<close>

definition drops_ref :: "nat \<Rightarrow> nat \<Rightarrow> (addr \<Rightarrow> unit M) \<Rightarrow> bool" where
  "drops_ref n m u \<longleftrightarrow> (\<forall>B ext wext w a.
     heap_ok B (ext(a := Suc (ext a))) wext w \<longrightarrow> pinned ext w \<longrightarrow> card (live w) \<le> n \<longrightarrow> members_bound m w \<longrightarrow>
     (\<exists>w'. u a w = Ret () w' \<and> heap_ok B ext wext w' \<and> shrinks w w'))"

definition frees_value :: "nat \<Rightarrow> nat \<Rightarrow> (addr \<Rightarrow> unit M) \<Rightarrow> di_variant \<Rightarrow> bool" where
  "frees_value n m u v \<longleftrightarrow> (\<forall>B ext wext w.
     heap_ok B (\<lambda>a. ext a + count_list (refs_of v) a) (\<lambda>a. wext a + count_list (weak_refs_of v) a) w \<longrightarrow>
     pinned ext w \<longrightarrow> card (live w) \<le> n \<longrightarrow> members_bound m w \<longrightarrow>
     (\<exists>w'. free_value_with u v w = Ret () w' \<and> heap_ok B ext wext w' \<and> shrinks w w'))"

lemma card_live_shrinks:
  "shrinks_on X w w' \<Longrightarrow> heap_ok B ext wext w \<Longrightarrow> card (live w) \<le> n \<Longrightarrow> card (live w') \<le> n"
  by (meson card_mono finite_live order_trans shrinks_live)

lemma frees_values:
  assumes "\<And>v. v \<in> set vs \<Longrightarrow> frees_value n m u v"
    and "heap_ok B (\<lambda>a. ext a + count_list (concat (map refs_of vs)) a)
           (\<lambda>a. wext a + count_list (concat (map weak_refs_of vs)) a) w"
    and "pinned ext w" and "card (live w) \<le> n" and "members_bound m w"
  shows "\<exists>w'. mforeach (free_value_with u) vs w = Ret () w' \<and> heap_ok B ext wext w' \<and> shrinks w w'"
  using assms
proof (induction vs arbitrary: w)
  case Nil
  then show ?case by (simp add: outcome_simps shrinks_refl)
next
  case (Cons v vs)
  let ?e = "\<lambda>a. ext a + count_list (concat (map refs_of vs)) a"
  let ?we = "\<lambda>a. wext a + count_list (concat (map weak_refs_of vs)) a"
  have ok: "heap_ok B (\<lambda>a. ?e a + count_list (refs_of v) a) (\<lambda>a. ?we a + count_list (weak_refs_of v) a) w"
    using Cons.prems(2) by (simp add: add.commute add.left_commute)
  have "pinned ?e w" using Cons.prems(3) by (rule pinned_mono) simp
  with ok Cons.prems(1) [of v] Cons.prems(4,5) obtain w1 where
    w1: "free_value_with u v w = Ret () w1" "heap_ok B ?e ?we w1" "shrinks w w1"
    unfolding frees_value_def by (meson list.set_intros(1))
  have "\<exists>w'. mforeach (free_value_with u) vs w1 = Ret () w' \<and> heap_ok B ext wext w' \<and> shrinks w1 w'"
    using Cons.prems w1 ok
    by (intro Cons.IH) (auto intro: shrinks_pinned card_live_shrinks shrinks_members_bound)
  with w1 show ?case by (auto simp: outcome_simps intro: shrinks_trans)
qed

lemma bump_eq: "(\<lambda>b. f b + count_list [a] b) = f(a := Suc (f a))"
  by (auto simp: fun_eq_iff)

lemma frees_value_wt:
  assumes u: "drops_ref n m u"
  shows "wt_value v \<Longrightarrow> frees_value n m u v"
proof (induction v)
  case (V_array t vs)
  then have t: "vs \<noteq> [] \<Longrightarrow> di_sizeof_type t \<noteq> None"
    by (cases vs) (auto dest: sizeof_wt)
  from V_array have "\<And>v. v \<in> set vs \<Longrightarrow> frees_value n m u v" by auto
  from frees_values [OF this] t show ?case
    unfolding frees_value_def by (auto simp: outcome_simps intro: shrinks_refl)
next
  case (V_tuple vs)
  then have "\<And>v. v \<in> set vs \<Longrightarrow> frees_value n m u v" by auto
  from frees_values [OF this] show ?case unfolding frees_value_def by simp
next
  case (V_variant v)
  then show ?case by (simp add: frees_value_def)
next
  case (V_weak_object a)
  show ?case
    unfolding frees_value_def weak_refs_of.simps refs_of.simps bump_eq free_value_with.simps
    using drop_weak_ok [of _ _ _ a] by simp
next
  case (V_object a)
  show ?case
    unfolding frees_value_def weak_refs_of.simps refs_of.simps bump_eq free_value_with.simps
    using u [unfolded drops_ref_def] by simp
next
  case (V_empty_object a)
  show ?case
    unfolding frees_value_def weak_refs_of.simps refs_of.simps bump_eq free_value_with.simps
    using u [unfolded drops_ref_def] by simp
qed (simp_all add: frees_value_def outcome_simps shrinks_refl)

section \<open>Finalizing the members\<close>

text \<open>Removing a member hands the references of its value to the running code.\<close>

lemma heap_ok_remove_member:
  assumes ok: "heap_ok B ext wext w" and ob: "objs w a = Some ob" and v: "hash_find k (members ob) = Some v"
  shows "heap_ok B (\<lambda>b. ext b + count_list (refs_of v) b) (\<lambda>b. wext b + count_list (weak_refs_of v) b)
           (w\<lparr>objs := (objs w)(a := Some (ob\<lparr>members := hash_del k (members ob)\<rparr>))\<rparr>)" (is "heap_ok B ?e ?we ?w")
proof -
  let ?ob = "ob\<lparr>members := hash_del k (members ob)\<rparr>"
  note fin = heap_okD(1) [OF ok]
  have s: "strong_in (objs ?w) c + count_list (refs_of v) c = strong_in (objs w) c" for c
    using count_in_upd [OF fin ob, of obj_refs ?ob c] count_concat_del [OF v, of refs_of c]
    by (simp add: obj_refs_def)
  have ws: "weak_in (objs ?w) c + count_list (weak_refs_of v) c = weak_in (objs w) c" for c
    using count_in_upd [OF fin ob, of obj_weak_refs ?ob c] count_concat_del [OF v, of weak_refs_of c]
    by (simp add: obj_weak_refs_def)
  note del_sub = set_hash_del [of k "members ob"]
  show ?thesis
    unfolding heap_ok_def
  proof (intro conjI allI impI)
    show "finite (dom (objs ?w))" using fin by simp
    show "B \<subseteq> dom (objs ?w)" using heap_okD(2) [OF ok] by auto
    show "lists_ok ?w" by (rule lists_ok_upd [OF heap_okD(3) [OF ok] ob]) simp
    show "obj_ok B ?e ?we (objs ?w) c oc" if c: "objs ?w c = Some oc" for c oc
    proof -
      have s': "strong_in (objs ?w) c + (ext c + count_list (refs_of v) c) = strong_in (objs w) c + ext c"
        and ws': "weak_in (objs ?w) c + (wext c + count_list (weak_refs_of v) c) = weak_in (objs w) c + wext c"
        using s [of c] ws [of c] by simp_all
      show ?thesis
      proof (cases "c = a")
        case True
        with c have "oc = ?ob" by simp
        with True heap_okD(4) [OF ok ob] del_sub show ?thesis
          unfolding obj_ok_def s' ws' by (auto intro: distinct_hash_del)
      next
        case False
        with c have "objs w c = Some oc" by simp
        from heap_okD(4) [OF ok this] show ?thesis unfolding obj_ok_def s' ws' by simp
      qed
    qed
    fix c assume "objs ?w c = None"
    then have "objs w c = None" by (auto split: if_splits)
    with heap_okD(5) [OF ok] have "strong_in (objs w) c + ext c = 0" "weak_in (objs w) c + wext c = 0"
      by auto
    with s [of c] ws [of c] show "strong_in (objs ?w) c + ?e c = 0" "weak_in (objs ?w) c + ?we c = 0"
      by (simp_all only: add_is_0)
  qed
qed

lemma shrinks_remove_member:
  assumes "objs w a = Some ob"
  shows "shrinks_on {a} w (w\<lparr>objs := (objs w)(a := Some (ob\<lparr>members := hash_del k (members ob)\<rparr>))\<rparr>)"
  using assms set_hash_del [of k "members ob"] length_hash_del_le [of k "members ob"]
  by (intro shrinks_upd) (auto simp: obj_shrinks_def)

lemma finalize_loop_ok:
  assumes u: "drops_ref n m u" and hold: "a \<in> B \<or> 0 < ext a"
  shows "heap_ok B ext wext w \<Longrightarrow> objs w a = Some ob \<Longrightarrow> pinned ext w \<Longrightarrow> card (live w) \<le> n \<Longrightarrow>
    members_bound m w \<Longrightarrow> length (members ob) \<le> f \<Longrightarrow>
    \<exists>w' ob'. finalize_loop u a f (case members ob of [] \<Rightarrow> None | (k, _) # _ \<Rightarrow> Some k) w = Ret () w' \<and>
      heap_ok B ext wext w' \<and> shrinks_on {a} w w' \<and> objs w' a = Some ob' \<and> members ob' = []"
proof (induction f arbitrary: w ob)
  case 0
  then show ?case by (auto simp: outcome_simps shrinks_refl)
next
  case (Suc f)
  show ?case
  proof (cases "members ob")
    case Nil
    with Suc.prems show ?thesis by (auto simp: outcome_simps shrinks_refl)
  next
    case (Cons p ms)
    obtain k v where p: "p = (k, v)" by (cases p)
    let ?ob = "ob\<lparr>members := ms\<rparr>"
    let ?w = "w\<lparr>objs := (objs w)(a := Some ?ob)\<rparr>"
    have find: "hash_find k (members ob) = Some v" and del: "hash_del k (members ob) = ms"
      and nxt: "hash_next k (members ob) = (case ms of [] \<Rightarrow> None | (k, _) # _ \<Rightarrow> Some k)"
      using Cons p by (simp_all split: list.splits)
    note oka = heap_okD(4) [OF Suc.prems(1,2), unfolded obj_ok_def]
    have wt: "wt_value v" using oka Cons p by auto
    note ok1 = heap_ok_remove_member [OF Suc.prems(1,2) find, unfolded del]
    have sh1: "shrinks_on {a} w ?w" using shrinks_remove_member [OF Suc.prems(2), of k] by (simp add: del)
    have "\<exists>w2. free_value_with u v ?w = Ret () w2 \<and> heap_ok B ext wext w2 \<and> shrinks ?w w2"
      using frees_value_wt [OF u wt] ok1 shrinks_pinned [OF sh1 Suc.prems(3)]
        card_live_shrinks [OF sh1 Suc.prems(1,4)] shrinks_members_bound [OF sh1 Suc.prems(5)]
      unfolding frees_value_def by blast
    then obtain w2 where w2: "free_value_with u v ?w = Ret () w2" "heap_ok B ext wext w2" "shrinks ?w w2"
      by blast
    obtain ob2 where ob2: "objs w2 a = Some ob2" "ref_count ob2 \<noteq> 0 \<or> ref_count ob = 0"
      using hold heap_okD(2) [OF w2(2)] heap_ok_ext_obj [OF w2(2), of a] oka by (metis domD subsetD)
    with w2(3) have "obj_shrinks False ?ob ob2" by (fastforce simp: shrinks_on_def)
    with ob2(2) have mem2: "members ob2 = ms" by (simp add: obj_shrinks_def)
    from sh1 w2(3) have sh2: "shrinks_on {a} w w2" by (meson empty_subsetI shrinks_mono shrinks_trans)
    have "\<exists>w' ob'. finalize_loop u a f (case members ob2 of [] \<Rightarrow> None | (k, _) # _ \<Rightarrow> Some k) w2 = Ret () w' \<and>
      heap_ok B ext wext w' \<and> shrinks_on {a} w2 w' \<and> objs w' a = Some ob' \<and> members ob' = []"
      using Suc.IH [OF w2(2) ob2(1)] shrinks_pinned [OF sh2 Suc.prems(3)] card_live_shrinks [OF sh2 Suc.prems(1,4)]
        shrinks_members_bound [OF sh2 Suc.prems(5)] Suc.prems(6) Cons mem2 by simp
    then obtain w' ob' where w': "finalize_loop u a f (case ms of [] \<Rightarrow> None | (k, _) # _ \<Rightarrow> Some k) w2 = Ret () w'"
      "heap_ok B ext wext w'" "shrinks_on {a} w2 w'" "objs w' a = Some ob'" "members ob' = []"
      using mem2 by auto
    have "finalize_loop u a (Suc f) (case members ob of [] \<Rightarrow> None | (k, _) # _ \<Rightarrow> Some k) w = Ret () w'"
      using Suc.prems(2) Cons p find del nxt w2(1) w'(1) by (simp add: outcome_simps heap_simps)
    with w' sh2 show ?thesis by (meson shrinks_trans)
  qed
qed

section \<open>Dropping strong references\<close>

lemma heap_ok_cong:
  assumes "heap_ok B ext wext w" and "objs w' = objs w" and "unreferred_objects w' = unreferred_objects w"
    and "isolated_roots w' = isolated_roots w"
  shows "heap_ok B ext wext w'"
  using assms by (simp add: heap_ok_def lists_ok_def)

text \<open>The count after a decrement; at zero the object is marked as destroyed.\<close>

lemma heap_ok_dec:
  assumes ok: "heap_ok B (ext(a := Suc (ext a))) wext w" and ob: "objs w a = Some ob"
    and h: "objs w' = (objs w)(a := Some (ob\<lparr>ref_count := ref_count ob - 1, destroyed := (ref_count ob = 1), dtor := d\<rparr>))"
    and lists: "lists_ok w'"
  shows "heap_ok (if ref_count ob = 1 then insert a B else B) ext wext w'" (is "heap_ok ?B _ _ _")
proof -
  let ?ob = "ob\<lparr>ref_count := ref_count ob - 1, destroyed := (ref_count ob = 1), dtor := d\<rparr>"
  note fin = heap_okD(1) [OF ok] and oka = heap_okD(4) [OF ok ob, unfolded obj_ok_def]
  have s: "strong_in (objs w') c = strong_in (objs w) c" "weak_in (objs w') c = weak_in (objs w) c" for c
    unfolding h by (rule count_in_upd_same [OF fin ob], simp add: obj_refs_def obj_weak_refs_def)+
  have nz: "ref_count ob \<noteq> 0" using oka by auto
  then have dec: "unat (ref_count ob - 1) = strong_in (objs w) a + ext a" using oka by (simp add: unat_dec)
  have one: "ref_count ob - 1 = 0 \<longleftrightarrow> ref_count ob = 1" by auto
  show ?thesis
    unfolding heap_ok_def
  proof (intro conjI allI impI)
    show "finite (dom (objs w'))" using fin h by simp
    show "?B \<subseteq> dom (objs w')" using heap_okD(2) [OF ok] h by auto
    show "obj_ok ?B ext wext (objs w') c oc" if c: "objs w' c = Some oc" for c oc
    proof (cases "c = a")
      case True
      with c h have "oc = ?ob" by simp
      with True oka dec nz show ?thesis by (auto simp: obj_ok_def s)
    next
      case False
      with c h have "objs w c = Some oc" by simp
      from heap_okD(4) [OF ok this] False show ?thesis by (simp add: obj_ok_def s)
    qed
    show "lists_ok w'" by (rule lists)
    fix c assume "objs w' c = None"
    then have "objs w c = None" "c \<noteq> a" using h by (auto split: if_splits)
    with heap_okD(5) [OF ok, of c] show "strong_in (objs w') c + ext c = 0" "weak_in (objs w') c + wext c = 0"
      by (simp_all add: s)
  qed
qed

lemma shrinks_dec:
  assumes "objs w a = Some ob" and "ref_count ob \<noteq> 0" and "r = ref_count ob - 1"
    and "objs w' = (objs w)(a := Some (ob\<lparr>ref_count := r, destroyed := b, dtor := d\<rparr>))"
  shows "shrinks w w'"
  using assms by (intro shrinks_upd [of w a ob]) (auto simp: obj_shrinks_def word_dec_le)

text \<open>Destruction of an object whose last strong reference has just gone.\<close>

lemma destroy_ok:
  assumes u: "drops_ref n (e_fuel E) u" and E: "dtors_neutral E"
    and ok: "heap_ok B (ext(a := Suc (ext a))) wext w" and ob: "objs w a = Some ob" and one: "ref_count ob = 1"
    and pin: "pinned ext w" and card: "card (live w) \<le> Suc n" and mb: "members_bound (e_fuel E) w"
    and w1: "w1 = w\<lparr>objs := (objs w)(a := Some (ob\<lparr>ref_count := 0\<rparr>)),
       unreferred_objects := removeAll a (unreferred_objects w), isolated_roots := removeAll a (isolated_roots w)\<rparr>"
  shows "\<exists>w'. destroy_object_with E u a w1 = Ret () w' \<and> heap_ok B ext wext w' \<and> shrinks w w'"
proof -
  note oka = heap_okD(4) [OF ok ob, unfolded obj_ok_def]
  have notB: "a \<notin> B" and nd: "\<not> destroyed ob" using oka one by auto
  let ?ob = "ob\<lparr>ref_count := 0, destroyed := True, dtor := None\<rparr>"
  let ?w = "w1\<lparr>objs := (objs w)(a := Some ?ob)\<rparr>"
  have lists: "lists_ok ?w"
    using heap_okD(3) [OF ok] w1 by (auto simp: lists_ok_def distinct_removeAll split: if_splits)
  have ok1: "heap_ok (insert a B) ext wext ?w"
    using heap_ok_dec [OF ok ob _ lists, of None] one by simp
  have sh1: "shrinks w ?w"
    using ob one by (intro shrinks_dec [where ob = ob and r = 0 and b = True and d = None]) auto
  have "live ?w = live w - {a}" using w1 by (auto simp: live_def split: if_splits)
  moreover have "a \<in> live w" using ob one by (auto simp: live_def)
  ultimately have card1: "card (live ?w) \<le> n" using card finite_live [OF ok] by simp
  obtain w2 where w2: "(case dtor ob of None \<Rightarrow> mret ()
      | Some f \<Rightarrow> mseq (upd_obj a (\<lambda>ob. ob\<lparr>dtor := None\<rparr>)) (e_dtor E f a))
        (w1\<lparr>objs := (objs w)(a := Some (?ob\<lparr>dtor := dtor ob\<rparr>))\<rparr>) = Ret () w2"
    "objs w2 = objs ?w" "unreferred_objects w2 = unreferred_objects ?w" "isolated_roots w2 = isolated_roots ?w"
  proof (cases "dtor ob")
    case None
    then have "?ob\<lparr>dtor := dtor ob\<rparr> = ?ob" by simp
    with None that show ?thesis by (simp add: outcome_simps)
  next
    case (Some f)
    from E obtain w2 where "e_dtor E f a ?w = Ret () w2" "objs w2 = objs ?w"
      "unreferred_objects w2 = unreferred_objects ?w" "isolated_roots w2 = isolated_roots ?w"
      unfolding dtors_neutral_def by blast
    with Some that show ?thesis by (simp add: outcome_simps heap_simps)
  qed
  have ok2: "heap_ok (insert a B) ext wext w2" using ok1 w2(2-4) by (rule heap_ok_cong)
  have sh2: "shrinks w w2" using sh1 w2(2) by (simp add: shrinks_on_def)
  have ob2: "objs w2 a = Some ?ob" using w2(2) by simp
  have card2: "card (live w2) \<le> n" using card1 w2(2) by (simp add: live_def)
  obtain w3 ob3 where w3: "finalize_loop u a (e_fuel E) (case members ob of [] \<Rightarrow> None | (k, _) # _ \<Rightarrow> Some k) w2 = Ret () w3"
    "heap_ok (insert a B) ext wext w3" "shrinks_on {a} w2 w3" "objs w3 a = Some ob3" "members ob3 = []"
    using finalize_loop_ok [OF u _ ok2 ob2 shrinks_pinned [OF sh2 pin] card2 shrinks_members_bound [OF sh2 mb], of "e_fuel E"]
      mb ob by (auto simp: members_bound_def)
  have "\<exists>b. obj_shrinks b ?ob ob3" using w3(3,4) ob2 by (fastforce simp: shrinks_on_def)
  then have rc3: "ref_count ob3 = 0" using obj_shrinks_zero by fastforce
  have pin3: "pinned ext w3" by (rule shrinks_pinned [OF w3(3) shrinks_pinned [OF sh2 pin]])
  obtain w' where w': "di_decrement_weak_ref_count a w3 = Ret () w'" "heap_ok B ext wext w'" "shrinks w3 w'"
    using weak_dec [OF w3(2,4) pin3, of B wext] notB rc3 w3(5) by auto
  have "destroy_object_with E u a w1 = Ret () w'"
    using w1 nd w2(1) ob2 w3(1) w'(1)
    by (simp add: destroy_object_with_def finalize_object_inner_with_def outcome_simps heap_simps)
  moreover have "shrinks w w'"
  proof -
    have "shrinks_on {a} w w'"
      by (meson shrinks_trans shrinks_mono empty_subsetI sh2 w3(3) w'(3))
    moreover have "ref_count ob' = 0" if "objs w' a = Some ob'" for ob'
      using w'(3) that w3(4) rc3 obj_shrinks_zero by (fastforce simp: shrinks_on_def)
    ultimately show ?thesis using shrinks_dead [OF _ ob] one by simp
  qed
  ultimately show ?thesis using w'(2) by blast
qed

lemma unref_step_ok:
  assumes u: "drops_ref n (e_fuel E) (unref_object_fuel n E)" and E: "dtors_neutral E"
  shows "drops_ref (Suc n) (e_fuel E) (unref_object_fuel (Suc n) E)"
  unfolding drops_ref_def
proof (intro allI impI)
  fix B ext wext w a
  assume ok: "heap_ok B (ext(a := Suc (ext a))) wext w" and pin: "pinned ext w"
    and card: "card (live w) \<le> Suc n" and mb: "members_bound (e_fuel E) w"
  obtain ob where ob: "objs w a = Some ob" "ref_count ob \<noteq> 0" "\<not> destroyed ob"
    using heap_ok_ext_obj [OF ok, of a] by auto
  have mk: "mark ob = 0 \<or> mark ob = 2 \<or> mark ob = 3" using heap_okD(4) [OF ok ob(1)] by (simp add: obj_ok_def)
  have pos: "0 < ref_count ob" using ob(2) by (simp add: word_gt_0)
  note ev = mk ob pos unref_object_fuel.simps outcome_simps heap_simps sib_list_del_init_def
  show "\<exists>w'. unref_object_fuel (Suc n) E a w = Ret () w' \<and> heap_ok B ext wext w' \<and> shrinks w w'"
  proof (cases "ref_count ob = 1")
    case True
    from destroy_ok [OF u E ok ob(1) True pin card mb refl] show ?thesis
      using True mk ob by (auto simp: outcome_simps heap_simps sib_list_del_init_def)
  next
    case False
    then have nz: "ref_count ob - 1 \<noteq> 0" by auto
    let ?ob = "ob\<lparr>ref_count := ref_count ob - 1\<rparr>"
    let ?w = "w\<lparr>objs := (objs w)(a := Some ?ob)\<rparr>"
    define w' where "w' = (if sib_list_empty a ?w \<and> mark ob = 0
      then ?w\<lparr>unreferred_objects := a # unreferred_objects ?w\<rparr> else ?w)"
    have run: "unref_object_fuel (Suc n) E a w = Ret () w'"
      using nz mk ob pos by (auto simp: w'_def outcome_simps heap_simps)
    have h: "objs w' = (objs w)(a := Some (ob\<lparr>ref_count := ref_count ob - 1, destroyed := (ref_count ob = 1), dtor := dtor ob\<rparr>))"
    proof -
      have "ob\<lparr>ref_count := ref_count ob - 1, destroyed := False\<rparr> = ?ob" using ob(3) by (cases ob) simp
      with False show ?thesis by (simp add: w'_def)
    qed
    have l1: "lists_ok ?w"
    proof -
      have "\<exists>oc. objs ?w x = Some oc \<and> ref_count oc \<noteq> 0"
        if "x \<in> set (unreferred_objects w @ isolated_roots w)" for x
        using heap_okD(3) [OF ok] that nz by (cases "x = a") (auto simp: lists_ok_def)
      with heap_okD(3) [OF ok] show ?thesis by (auto simp: lists_ok_def)
    qed
    then have "lists_ok w'" using nz by (auto simp: w'_def lists_ok_def sib_list_empty_def)
    from heap_ok_dec [OF ok ob(1) h this] False have "heap_ok B ext wext w'" by simp
    with run shrinks_dec [OF ob(1,2) refl h] show ?thesis by blast
  qed
qed

theorem unref_fuel_ok:
  assumes "dtors_neutral E"
  shows "drops_ref n (e_fuel E) (unref_object_fuel n E)"
proof (induction n)
  case 0
  have False if ok: "heap_ok B (ext(a := Suc (ext a))) wext w" and c: "card (live w) \<le> 0" for B ext wext w and a :: addr
  proof -
    obtain ob where "objs w a = Some ob" "ref_count ob \<noteq> 0" using heap_ok_ext_obj [OF ok, of a] by auto
    then have "a \<in> live w" by (auto simp: live_def)
    with c finite_live [OF ok] show False by auto
  qed
  then show ?case unfolding drops_ref_def by blast
next
  case (Suc n)
  then show ?case using assms by (rule unref_step_ok)
qed

end
