(* ===== verification/Deai_Members.thy ===== *)
theory Deai_Members
  imports Deai_Refcount
begin

text \<open>
  Acquiring references, copying values and updating raw members keep the reference count
  invariant, and a member that was set is read back.
\<close>

section \<open>Acquiring references\<close>

text \<open>
  The invariant after an update of one object that keeps its members: only its own counts have
  to be checked.
\<close>

lemma heap_ok_upd:
  assumes ok: "heap_ok B ext wext w" and ob: "objs w a = Some ob"
    and h: "objs w' = (objs w)(a := Some ob')"
    and keep: "members ob' = members ob" "payload ob' = payload ob"
    and lists: "lists_ok w'"
    and ext: "\<And>b. b \<noteq> a \<Longrightarrow> ext' b = ext b \<and> wext' b = wext b"
    and oka: "obj_ok B ext' wext' (objs w) a ob'"
  shows "heap_ok B ext' wext' w'"
proof -
  note fin = heap_okD(1) [OF ok]
  have s: "strong_in (objs w') c = strong_in (objs w) c" "weak_in (objs w') c = weak_in (objs w) c" for c
    unfolding h by (rule count_in_upd_same [OF fin ob], simp add: obj_refs_def obj_weak_refs_def keep)+
  show ?thesis
    unfolding heap_ok_def
  proof (intro conjI allI impI)
    show "finite (dom (objs w'))" using fin h by simp
    show "B \<subseteq> dom (objs w')" using heap_okD(2) [OF ok] h by auto
    show "lists_ok w'" by (rule lists)
    show "obj_ok B ext' wext' (objs w') c oc" if c: "objs w' c = Some oc" for c oc
    proof (cases "c = a")
      case True
      with c h have "oc = ob'" by simp
      with oka show ?thesis unfolding True obj_ok_def s by simp
    next
      case False
      with c h have "objs w c = Some oc" by simp
      from heap_okD(4) [OF ok this] ext [OF False] show ?thesis by (simp add: obj_ok_def s)
    qed
    fix c assume "objs w' c = None"
    then have "objs w c = None" "c \<noteq> a" using h by (auto split: if_splits)
    with heap_okD(5) [OF ok, of c] ext [of c]
    show "strong_in (objs w') c + ext' c = 0" "weak_in (objs w') c + wext' c = 0" by (simp_all add: s)
  qed
qed

text \<open>
  Exchanging references between the running code and an object: when what the object gains is
  what the code gives away, the heap stays consistent.
\<close>

lemma heap_ok_exchange:
  assumes ok: "heap_ok B ext wext w" and ob: "objs w a = Some ob"
    and h: "objs w' = (objs w)(a := Some ob')"
    and refs: "\<And>c. count_list (obj_refs ob') c + ext' c = count_list (obj_refs ob) c + ext c"
    and wrefs: "\<And>c. count_list (obj_weak_refs ob') c + wext' c = count_list (obj_weak_refs ob) c + wext c"
    and keep: "ref_count ob' = ref_count ob" "weak_ref_count ob' = weak_ref_count ob" "mark ob' = mark ob" "destroyed ob' = destroyed ob"
    and mem: "distinct (hash_keys (members ob'))" "\<forall>p \<in> set (members ob'). wt_value (snd p)"
    and dead: "ref_count ob = 0 \<Longrightarrow> a \<notin> B \<Longrightarrow> members ob' = []"
    and lists: "unreferred_objects w' = unreferred_objects w" "isolated_roots w' = isolated_roots w"
  shows "heap_ok B ext' wext' w'"
proof -
  note fin = heap_okD(1) [OF ok]
  have s: "strong_in (objs w') c + ext' c = strong_in (objs w) c + ext c" for c
    using count_in_upd [OF fin ob, of obj_refs ob' c] refs [of c] unfolding h by simp
  have ws: "weak_in (objs w') c + wext' c = weak_in (objs w) c + wext c" for c
    using count_in_upd [OF fin ob, of obj_weak_refs ob' c] wrefs [of c] unfolding h by simp
  show ?thesis
    unfolding heap_ok_def
  proof (intro conjI allI impI)
    show "finite (dom (objs w'))" using fin h by simp
    show "B \<subseteq> dom (objs w')" using heap_okD(2) [OF ok] h by auto
    show "lists_ok w'" using lists_ok_upd [OF heap_okD(3) [OF ok] ob keep(1)] lists h by (simp add: lists_ok_def)
    show "obj_ok B ext' wext' (objs w') c oc" if c: "objs w' c = Some oc" for c oc
    proof (cases "c = a")
      case True
      with c h have "oc = ob'" by simp
      with heap_okD(4) [OF ok ob] mem dead show ?thesis
        unfolding True obj_ok_def by (simp add: s ws keep)
    next
      case False
      with c h have "objs w c = Some oc" by simp
      from heap_okD(4) [OF ok this] show ?thesis by (simp add: obj_ok_def s ws)
    qed
    fix c assume "objs w' c = None"
    then have "objs w c = None" using h by (auto split: if_splits)
    with heap_okD(5) [OF ok, of c]
    show "strong_in (objs w') c + ext' c = 0" "weak_in (objs w') c + wext' c = 0" by (simp_all add: s ws)
  qed
qed

text \<open>What acquiring references may do to the heap: only counts change.\<close>

definition same_shape :: "world \<Rightarrow> world \<Rightarrow> bool" where
  "same_shape w w' \<longleftrightarrow> unreferred_objects w' = unreferred_objects w \<and> isolated_roots w' = isolated_roots w \<and>
     dom (objs w') = dom (objs w) \<and> live w' = live w \<and>
     (\<forall>a ob ob'. objs w a = Some ob \<longrightarrow> objs w' a = Some ob' \<longrightarrow>
        members ob' = members ob \<and> payload ob' = payload ob \<and> mark ob' = mark ob)"

lemma same_shape_refl: "same_shape w w"
  by (simp add: same_shape_def)

lemma same_shapeD:
  assumes "same_shape w w'" and "objs w a = Some ob" and "objs w' a = Some ob'"
  shows "members ob' = members ob" and "payload ob' = payload ob" and "mark ob' = mark ob"
  using assms unfolding same_shape_def by blast+

lemma same_shape_trans: "same_shape w1 w2 \<Longrightarrow> same_shape w2 w3 \<Longrightarrow> same_shape w1 w3"
  unfolding same_shape_def by (metis domD domI)

lemma same_shape_count:
  assumes "same_shape w w'" and "\<And>ob ob'. members ob' = members ob \<Longrightarrow> payload ob' = payload ob \<Longrightarrow> rs ob' = rs ob"
  shows "count_in rs (objs w') a = count_in rs (objs w) a"
proof -
  have "rs (the (objs w' b)) = rs (the (objs w b))" if "b \<in> dom (objs w)" for b
  proof (rule assms(2))
    from that obtain ob where ob: "objs w b = Some ob" by auto
    from that assms(1) have "b \<in> dom (objs w')" by (simp add: same_shape_def)
    then obtain ob' where ob': "objs w' b = Some ob'" by auto
    from same_shapeD [OF assms(1) ob ob'] ob ob'
    show "members (the (objs w' b)) = members (the (objs w b))" "payload (the (objs w' b)) = payload (the (objs w b))"
      by simp_all
  qed
  with assms(1) show ?thesis unfolding count_in_def same_shape_def by (auto intro: sum.cong)
qed

lemma same_shape_strong: "same_shape w w' \<Longrightarrow> strong_in (objs w') a = strong_in (objs w) a"
  by (erule same_shape_count) (simp add: obj_refs_def)

lemma same_shape_weak: "same_shape w w' \<Longrightarrow> weak_in (objs w') a = weak_in (objs w) a"
  by (erule same_shape_count) (simp add: obj_weak_refs_def)

lemma same_shape_pinned: "same_shape w w' \<Longrightarrow> pinned ext w \<Longrightarrow> pinned ext w'"
  unfolding same_shape_def pinned_def by (metis domD domI)

lemma same_shape_members_bound: "same_shape w w' \<Longrightarrow> members_bound n w \<Longrightarrow> members_bound n w'"
  unfolding same_shape_def members_bound_def by (metis domD domI)

lemma ref_object_ok:
  assumes ok: "heap_ok B ext wext w" and a: "a \<in> live w"
    and room: "strong_in (objs w) a + ext a + 1 < 2 ^ 64"
  shows "\<exists>w'. di_ref_object a w = Ret a w' \<and> heap_ok B (ext(a := Suc (ext a))) wext w' \<and> same_shape w w'"
proof -
  from a obtain ob where ob: "objs w a = Some ob" "ref_count ob \<noteq> 0" by (auto simp: live_def)
  let ?ob = "ob\<lparr>ref_count := ref_count ob + 1\<rparr>"
  let ?w = "w\<lparr>objs := (objs w)(a := Some ?ob)\<rparr>"
  note oka = heap_okD(4) [OF ok ob(1), unfolded obj_ok_def]
  have inc: "unat (ref_count ob + 1) = unat (ref_count ob) + 1" using oka room by (intro unat_inc) simp
  then have nz: "ref_count ob + 1 \<noteq> 0" by (metis Suc_eq_plus1 nat.distinct(1) unat_0)
  have lists: "lists_ok ?w"
  proof -
    have "\<exists>oc. objs ?w x = Some oc \<and> ref_count oc \<noteq> 0"
      if "x \<in> set (unreferred_objects w @ isolated_roots w)" for x
      using heap_okD(3) [OF ok] that nz by (cases "x = a") (auto simp: lists_ok_def)
    with heap_okD(3) [OF ok] show ?thesis by (auto simp: lists_ok_def)
  qed
  have "heap_ok B (ext(a := Suc (ext a))) wext ?w"
    by (rule heap_ok_upd [OF ok ob(1) _ _ _ lists, where ob' = ?ob])
      (use oka inc nz ob(2) in \<open>auto simp: obj_ok_def\<close>)
  moreover have "di_ref_object a w = Ret a ?w"
    using ob by (simp add: di_ref_object_def outcome_simps heap_simps)
  moreover have "same_shape w ?w"
    using ob nz by (auto simp: same_shape_def live_def split: if_splits)
  ultimately show ?thesis by blast
qed

lemma weakly_ref_object_ok:
  assumes ok: "heap_ok B ext wext w" and a: "objs w a = Some ob"
    and room: "weak_in (objs w) a + wext a + 2 < 2 ^ 64"
  shows "\<exists>w'. di_weakly_ref_object a w = Ret a w' \<and> heap_ok B ext (wext(a := Suc (wext a))) w' \<and> same_shape w w'"
proof -
  let ?ob = "ob\<lparr>weak_ref_count := weak_ref_count ob + 1\<rparr>"
  let ?w = "w\<lparr>objs := (objs w)(a := Some ?ob)\<rparr>"
  note oka = heap_okD(4) [OF ok a, unfolded obj_ok_def]
  have inc: "unat (weak_ref_count ob + 1) = unat (weak_ref_count ob) + 1"
    using oka room by (intro unat_inc) (auto split: if_splits)
  then have nz: "weak_ref_count ob + 1 \<noteq> 0" by (metis Suc_eq_plus1 nat.distinct(1) unat_0)
  have lists: "lists_ok ?w" by (rule lists_ok_upd [OF heap_okD(3) [OF ok] a]) simp
  have "heap_ok B ext (wext(a := Suc (wext a))) ?w"
    by (rule heap_ok_upd [OF ok a _ _ _ lists, where ob' = ?ob])
      (use oka inc nz in \<open>auto simp: obj_ok_def\<close>)
  moreover have "di_weakly_ref_object a w = Ret a ?w"
    using a by (simp add: di_weakly_ref_object_def outcome_simps heap_simps)
  moreover have "same_shape w ?w"
    using a by (auto simp: same_shape_def live_def split: if_splits)
  ultimately show ?thesis by blast
qed

section \<open>Copying values\<close>

text \<open>
  The copy of a value: the same value, where a null string has become an empty one.
\<close>

fun copied :: "di_variant \<Rightarrow> di_variant" where
  "copied (V_string s) = V_string (Some (str_bytes s))"
| "copied (V_array t vs) = V_array t (map copied vs)"
| "copied (V_tuple vs) = V_tuple (map copied vs)"
| "copied (V_variant v) = V_variant (copied v)"
| "copied v = v"

lemma refs_copied [simp]: "refs_of (copied v) = refs_of v"
  by (induction v rule: copied.induct) (auto intro!: arg_cong [where f = concat])

lemma weak_refs_copied [simp]: "weak_refs_of (copied v) = weak_refs_of v"
  by (induction v rule: copied.induct) (auto intro!: arg_cong [where f = concat])

lemma typeof_copied [simp]: "typeof (copied v) = typeof v"
  by (cases v) simp_all

lemma wt_copied [simp]: "wt_value (copied v) = wt_value v"
  by (induction v rule: copied.induct) auto

lemma copied_copied: "copied (copied v) = copied v"
  by (induction v rule: copied.induct) (auto simp: str_bytes_def)

text \<open>
  Every object a value refers to is alive, and one more reference for each of them does not
  overflow a count.
\<close>

definition copy_room :: "(addr \<Rightarrow> nat) \<Rightarrow> (addr \<Rightarrow> nat) \<Rightarrow> addr list \<Rightarrow> addr list \<Rightarrow> world \<Rightarrow> bool" where
  "copy_room ext wext rs ws w \<longleftrightarrow>
     (\<forall>a \<in> set rs. a \<in> live w \<and> strong_in (objs w) a + ext a + count_list rs a < 2 ^ 64) \<and>
     (\<forall>a \<in> set ws. a \<in> dom (objs w) \<and> weak_in (objs w) a + wext a + count_list ws a + 1 < 2 ^ 64)"

definition copies :: "(di_variant \<Rightarrow> 'b M) \<Rightarrow> di_variant \<Rightarrow> 'b \<Rightarrow> bool" where
  "copies f v r \<longleftrightarrow> (\<forall>B ext wext w.
     heap_ok B ext wext w \<longrightarrow> copy_room ext wext (refs_of v) (weak_refs_of v) w \<longrightarrow>
     (\<exists>w'. f v w = Ret r w' \<and>
        heap_ok B (\<lambda>a. ext a + count_list (refs_of v) a) (\<lambda>a. wext a + count_list (weak_refs_of v) a) w' \<and>
        same_shape w w'))"

lemma count_list_le_append: "count_list xs a \<le> count_list (xs @ ys) a"
  by simp

lemma copy_room_step:
  assumes room: "copy_room ext wext (xs @ ys) (xw @ yw) w" and sh: "same_shape w w'"
  shows "copy_room ext wext xs xw w"
    and "copy_room (\<lambda>a. ext a + count_list xs a) (\<lambda>a. wext a + count_list xw a) ys yw w'"
proof -
  have s: "a \<in> live w \<and> strong_in (objs w) a + ext a + (count_list xs a + count_list ys a) < 2 ^ 64"
    if "a \<in> set xs \<or> a \<in> set ys" for a
    using room that unfolding copy_room_def by simp
  have k: "a \<in> dom (objs w) \<and> weak_in (objs w) a + wext a + (count_list xw a + count_list yw a) + 1 < 2 ^ 64"
    if "a \<in> set xw \<or> a \<in> set yw" for a
    using room that unfolding copy_room_def by simp
  show "copy_room ext wext xs xw w"
    unfolding copy_room_def
  proof (intro conjI ballI)
    fix a assume "a \<in> set xs"
    with s [of a] show "a \<in> live w" "strong_in (objs w) a + ext a + count_list xs a < 2 ^ 64" by simp_all
  next
    fix a assume "a \<in> set xw"
    with k [of a] show "a \<in> dom (objs w)" "weak_in (objs w) a + wext a + count_list xw a + 1 < 2 ^ 64" by auto
  qed
  have "live w' = live w" "dom (objs w') = dom (objs w)" using sh by (simp_all add: same_shape_def)
  then show "copy_room (\<lambda>a. ext a + count_list xs a) (\<lambda>a. wext a + count_list xw a) ys yw w'"
    unfolding copy_room_def same_shape_strong [OF sh] same_shape_weak [OF sh]
    using s k by (simp add: add.assoc)
qed

lemma copies_list:
  assumes "\<And>v. v \<in> set vs \<Longrightarrow> copies f v (copied v)"
    and "heap_ok B ext wext w"
    and "copy_room ext wext (concat (map refs_of vs)) (concat (map weak_refs_of vs)) w"
  shows "\<exists>w'. mmap f vs w = Ret (map copied vs) w' \<and>
        heap_ok B (\<lambda>a. ext a + count_list (concat (map refs_of vs)) a)
          (\<lambda>a. wext a + count_list (concat (map weak_refs_of vs)) a) w' \<and> same_shape w w'"
  using assms
proof (induction vs arbitrary: w ext wext)
  case Nil
  then show ?case by (simp add: outcome_simps same_shape_refl)
next
  case (Cons v vs)
  let ?e = "\<lambda>a. ext a + count_list (refs_of v) a" and ?we = "\<lambda>a. wext a + count_list (weak_refs_of v) a"
  have room: "copy_room ext wext (refs_of v @ concat (map refs_of vs)) (weak_refs_of v @ concat (map weak_refs_of vs)) w"
    using Cons.prems(3) by simp
  from Cons.prems(1) [of v] Cons.prems(2) copy_room_step(1) [OF room same_shape_refl]
  obtain w1 where w1: "f v w = Ret (copied v) w1" "heap_ok B ?e ?we w1" "same_shape w w1"
    unfolding copies_def by (meson list.set_intros(1))
  from Cons.IH [OF _ w1(2) copy_room_step(2) [OF room w1(3)]] Cons.prems(1)
  obtain w2 where w2: "mmap f vs w1 = Ret (map copied vs) w2" "same_shape w1 w2"
    "heap_ok B (\<lambda>a. ?e a + count_list (concat (map refs_of vs)) a)
       (\<lambda>a. ?we a + count_list (concat (map weak_refs_of vs)) a) w2"
    by auto
  with w1 show ?case by (auto simp: outcome_simps add.assoc intro: same_shape_trans)
qed

theorem copy_value_ok: "wt_value v \<Longrightarrow> copies di_copy_value v (copied v)"
proof (induction v)
  case (V_array t vs)
  have sz: "vs \<noteq> [] \<Longrightarrow> \<exists>sz. di_sizeof_type t = Some sz \<and> 0 < sz"
    using V_array.prems sizeof_nonzero [of "vs ! 0"] typeof_nil by (cases vs) auto
  from V_array have "\<And>v. v \<in> set vs \<Longrightarrow> copies di_copy_value v (copied v)" by auto
  from copies_list [OF this] sz show ?case
    unfolding copies_def by (fastforce simp: outcome_simps same_shape_refl)
next
  case (V_tuple vs)
  let ?f = "\<lambda>v. case di_sizeof_type (typeof v) of None \<Rightarrow> mcrash Panic | Some _ \<Rightarrow> di_copy_value v"
  have "copies ?f v (copied v)" if "v \<in> set vs" for v
    using V_tuple that sizeof_wt [of v] by (auto simp: copies_def)
  from copies_list [OF this] show ?case
    unfolding copies_def by (fastforce simp: outcome_simps)
next
  case (V_variant v)
  then show ?case using sizeof_wt [of v] by (fastforce simp: copies_def outcome_simps)
next
  case (V_object a)
  show ?case
    unfolding copies_def weak_refs_of.simps refs_of.simps bump_eq
    using ref_object_ok [of _ _ _ _ a] by (fastforce simp: copy_room_def outcome_simps)
next
  case (V_empty_object a)
  show ?case
    unfolding copies_def weak_refs_of.simps refs_of.simps bump_eq
    using ref_object_ok [of _ _ _ _ a] by (fastforce simp: copy_room_def outcome_simps)
next
  case (V_weak_object a)
  show ?case
    unfolding copies_def weak_refs_of.simps refs_of.simps bump_eq
    using weakly_ref_object_ok [of _ _ _ _ a] by (fastforce simp: copy_room_def outcome_simps)
qed (simp_all add: copies_def outcome_simps same_shape_refl di_clone_string_def di_string_ndup_def)

section \<open>Freeing values\<close>

text \<open>
  Enough fuel for a heap: as many levels as there are live objects, as many steps as the
  longest member table.
\<close>

definition enough_fuel :: "env \<Rightarrow> world \<Rightarrow> bool" where
  "enough_fuel E w \<longleftrightarrow> card (live w) \<le> e_fuel E \<and> members_bound (e_fuel E) w"

lemma enough_fuel_shrinks:
  "shrinks w w' \<Longrightarrow> heap_ok B ext wext w \<Longrightarrow> enough_fuel E w \<Longrightarrow> enough_fuel E w'"
  unfolding enough_fuel_def by (meson card_live_shrinks shrinks_members_bound)

lemma enough_fuel_shape: "same_shape w w' \<Longrightarrow> enough_fuel E w \<Longrightarrow> enough_fuel E w'"
  unfolding enough_fuel_def by (metis same_shape_def same_shape_members_bound)

lemma unref_object_ok:
  assumes "dtors_neutral E" and "heap_ok B (ext(a := Suc (ext a))) wext w" and "pinned ext w" and "enough_fuel E w"
  shows "\<exists>w'. di_unref_object E a w = Ret () w' \<and> heap_ok B ext wext w' \<and> shrinks w w'"
  using unref_fuel_ok [OF assms(1), of "e_fuel E"] assms(2-)
  unfolding drops_ref_def di_unref_object_def enough_fuel_def by blast

lemma free_value_ok:
  assumes "dtors_neutral E" and "wt_value v"
    and "heap_ok B (\<lambda>a. ext a + count_list (refs_of v) a) (\<lambda>a. wext a + count_list (weak_refs_of v) a) w"
    and "pinned ext w" and "enough_fuel E w"
  shows "\<exists>w'. di_free_value E v w = Ret () w' \<and> heap_ok B ext wext w' \<and> shrinks w w'"
  using frees_value_wt [OF unref_fuel_ok [OF assms(1)] assms(2), of "e_fuel E"] assms(3-)
  unfolding frees_value_def di_free_value_def di_unref_object_def [abs_def] enough_fuel_def by blast

text \<open>The last reference: nothing refers to the object afterwards, so it is gone.\<close>

lemma count_in_zero: "finite (dom h) \<Longrightarrow> count_in rs h a = 0 \<longleftrightarrow> (\<forall>b ob. h b = Some ob \<longrightarrow> a \<notin> set (rs ob))"
  by (auto simp: count_in_def count_list_0_iff dom_def)

lemma shrinks_unreferenced:
  assumes "shrinks w w'" and "finite (dom (objs w))" and "finite (dom (objs w'))"
    and rs: "\<And>ob ob'. set (members ob') \<subseteq> set (members ob) \<Longrightarrow> payload ob' = payload ob \<Longrightarrow> set (rs ob') \<subseteq> set (rs ob)"
    and "count_in rs (objs w) a = 0"
  shows "count_in rs (objs w') a = 0"
  unfolding count_in_zero [OF assms(3)]
proof (intro allI impI)
  fix b ob' assume "objs w' b = Some ob'"
  with assms(1) obtain ob where ob: "objs w b = Some ob" "obj_shrinks False ob ob'"
    by (auto simp: shrinks_on_def)
  then have "set (rs ob') \<subseteq> set (rs ob)" by (intro rs) (simp_all add: obj_shrinks_def)
  with ob(1) assms(2,5) show "a \<notin> set (rs ob')" by (auto simp: count_in_zero)
qed

lemma refs_subset: "set ms' \<subseteq> set ms \<Longrightarrow> set (concat (map (f \<circ> snd) ms')) \<subseteq> set (concat (map (f \<circ> snd) ms))"
  by auto

lemma last_reference:
  assumes ok: "heap_ok {} (ext(a := Suc (ext a))) wext w" and ob: "objs w a = Some ob" "ref_count ob = 1"
    and ok': "heap_ok {} ext wext w'" and sh: "shrinks w w'"
  shows "case objs w' a of None \<Rightarrow> weak_in (objs w') a + wext a = 0
         | Some ob' \<Rightarrow> ref_count ob' = 0 \<and> destroyed ob' \<and> members ob' = [] \<and>
             unat (weak_ref_count ob') = weak_in (objs w') a + wext a \<and> 0 < weak_in (objs w') a + wext a"
proof -
  note oka = heap_okD(4) [OF ok ob(1), unfolded obj_ok_def]
  have z: "strong_in (objs w) a = 0" "ext a = 0" using oka ob(2) by simp_all
  have "strong_in (objs w') a = 0"
    by (rule shrinks_unreferenced [OF sh heap_okD(1) [OF ok] heap_okD(1) [OF ok'] _ z(1)])
      (auto simp: obj_refs_def dest: refs_subset)
  show ?thesis
  proof (cases "objs w' a")
    case None
    with heap_okD(5) [OF ok' None] show ?thesis by simp
  next
    case (Some ob')
    note oka' = heap_okD(4) [OF ok' Some, unfolded obj_ok_def]
    have "ref_count ob' = 0" using oka' z(2) \<open>strong_in (objs w') a = 0\<close> by (simp add: unat_eq_zero)
    moreover have "weak_ref_count ob' \<noteq> 0" using oka' by blast
    then have "unat (weak_ref_count ob') \<noteq> 0" by (simp add: unat_eq_0_iff)
    ultimately show ?thesis using Some oka' by auto
  qed
qed

text \<open>A copy that is freed again leaves every count as it was.\<close>

lemma copy_free_ok:
  assumes "dtors_neutral E" and "wt_value v" and "heap_ok B ext wext w"
    and "copy_room ext wext (refs_of v) (weak_refs_of v) w" and "pinned ext w" and "enough_fuel E w"
  shows "\<exists>w'. mbind (di_copy_value v) (di_free_value E) w = Ret () w' \<and> heap_ok B ext wext w'"
proof -
  obtain w1 where w1: "di_copy_value v w = Ret (copied v) w1" "same_shape w w1"
    "heap_ok B (\<lambda>a. ext a + count_list (refs_of v) a) (\<lambda>a. wext a + count_list (weak_refs_of v) a) w1"
    using copy_value_ok [OF assms(2)] assms(3,4) unfolding copies_def by blast
  have "\<exists>w'. di_free_value E (copied v) w1 = Ret () w' \<and> heap_ok B ext wext w' \<and> shrinks w1 w'"
    by (rule free_value_ok)
      (use assms w1 same_shape_pinned [OF w1(2)] enough_fuel_shape [OF w1(2)] in simp_all)
  with w1(1) show ?thesis by (auto simp: outcome_simps)
qed

section \<open>Raw members\<close>

text \<open>Inserting a member takes the references of its value over from the running code.\<close>

lemma heap_ok_insert_member:
  assumes ok: "heap_ok B (\<lambda>b. ext b + count_list (refs_of v) b) (\<lambda>b. wext b + count_list (weak_refs_of v) b) w"
    and ob: "objs w a = Some ob" "ref_count ob \<noteq> 0"
    and new: "hash_find k (members ob) = None" and wt: "wt_value v"
  shows "heap_ok B ext wext (w\<lparr>objs := (objs w)(a := Some (ob\<lparr>members := hash_add k v (members ob)\<rparr>))\<rparr>)"
  by (rule heap_ok_exchange [OF ok ob(1), where ob' = "ob\<lparr>members := hash_add k v (members ob)\<rparr>"])
    (use heap_okD(4) [OF ok ob(1)] ob(2) distinct_hash_add [OF _ new] wt in
      \<open>auto simp: obj_refs_def obj_weak_refs_def hash_add_def obj_ok_def\<close>)

lemma delete_member_raw_ok:
  assumes E: "dtors_neutral E" and ok: "heap_ok {} ext wext w" and a: "0 < ext a" and pin: "pinned ext w"
    and fuel: "enough_fuel E w" and ob: "objs w a = Some ob" and v: "hash_find k (members ob) = Some v"
  shows "\<exists>w' ob'. di_delete_member_raw E a (Some k) w = Ret 0 w' \<and> heap_ok {} ext wext w' \<and>
     objs w' a = Some ob' \<and> members ob' = hash_del k (members ob) \<and> shrinks_on {a} w w'"
proof -
  let ?w = "w\<lparr>objs := (objs w)(a := Some (ob\<lparr>members := hash_del k (members ob)\<rparr>))\<rparr>"
  have wt: "wt_value v"
    using heap_okD(4) [OF ok ob] hash_find_Some_mem [OF v] by (auto simp: obj_ok_def)
  note sh1 = shrinks_remove_member [OF ob, of k]
  have "\<exists>w'. di_free_value E v ?w = Ret () w' \<and> heap_ok {} ext wext w' \<and> shrinks ?w w'"
  proof (rule free_value_ok [OF E wt heap_ok_remove_member [OF ok ob v]])
    show "pinned ext ?w" by (rule shrinks_pinned [OF sh1 pin])
    show "enough_fuel E ?w"
      using fuel card_live_shrinks [OF sh1 ok] shrinks_members_bound [OF sh1] by (simp add: enough_fuel_def)
  qed
  then obtain w' where w': "di_free_value E v ?w = Ret () w'" "heap_ok {} ext wext w'" "shrinks ?w w'" by blast
  obtain ob' where ob': "objs w' a = Some ob'" "ref_count ob' \<noteq> 0" using heap_ok_ext_obj [OF w'(2) a] by blast
  with shrinks_keeps [OF w'(3) ob'] have "members ob' = hash_del k (members ob)" by auto
  moreover have "di_delete_member_raw E a (Some k) w = Ret 0 w'"
    using ob v w'(1)
    by (simp add: di_delete_member_raw_def di_lookup_def di_remove_member_raw_impl_def str_bytes_def outcome_simps heap_simps)
  ultimately show ?thesis using w' ob'(1) sh1 by (meson empty_subsetI shrinks_mono shrinks_trans)
qed

text \<open>The heap after a member has been added to the object at \<open>a\<close>.\<close>

definition with_member :: "addr \<Rightarrow> string \<Rightarrow> di_variant \<Rightarrow> di_object_internal \<Rightarrow> world \<Rightarrow> world" where
  "with_member a k v ob w = w\<lparr>objs := (objs w)(a := Some (ob\<lparr>members := hash_add k v (members ob)\<rparr>))\<rparr>"

text \<open>
  Adding a copy: the counts of the objects the value refers to go up, nothing else changes but
  the member table.
\<close>

lemma add_member_clone_shape:
  assumes ok: "heap_ok {} ext wext w" and ob: "objs w a = Some ob" "ref_count ob \<noteq> 0"
    and new: "hash_find k (members ob) = None" and wt: "wt_value v" "v \<noteq> V_nil"
    and room: "copy_room ext wext (refs_of v) (weak_refs_of v) w"
  shows "\<exists>w1 ob1. di_add_member_clone E a (Some k) v w = Ret 0 (with_member a k (copied v) ob1 w1) \<and>
     same_shape w w1 \<and> objs w1 a = Some ob1 \<and> ref_count ob1 \<noteq> 0 \<and> members ob1 = members ob \<and> payload ob1 = payload ob \<and>
     heap_ok {} ext wext (with_member a k (copied v) ob1 w1)"
proof -
  obtain w1 where w1: "di_copy_value v w = Ret (copied v) w1" "same_shape w w1"
    "heap_ok {} (\<lambda>a. ext a + count_list (refs_of v) a) (\<lambda>a. wext a + count_list (weak_refs_of v) a) w1"
    using copy_value_ok [OF wt(1)] ok room unfolding copies_def by blast
  have "a \<in> live w1" using w1(2) ob by (auto simp: same_shape_def live_def)
  then obtain ob1 where ob1: "objs w1 a = Some ob1" "ref_count ob1 \<noteq> 0" by (auto simp: live_def)
  have mem1: "members ob1 = members ob" "payload ob1 = payload ob" using same_shapeD [OF w1(2) ob(1) ob1(1)] by simp_all
  have "heap_ok {} ext wext (with_member a k (copied v) ob1 w1)"
    unfolding with_member_def by (rule heap_ok_insert_member) (use w1(3) ob1 mem1 new wt in simp_all)
  moreover obtain sz where "di_sizeof_type (typeof v) = Some sz" "0 < sz" using sizeof_nonzero [OF wt] by blast
  then have "di_add_member_clone E a (Some k) v w = Ret 0 (with_member a k (copied v) ob1 w1)"
    using w1(1) ob1 mem1 new
    by (simp add: di_add_member_clone_def di_add_member_def di_insert_member_def di_clone_string_def with_member_def
        di_string_ndup_def str_bytes_def str_length_def outcome_simps heap_simps errno_defs)
  ultimately show ?thesis using w1(2) ob1 mem1 by blast
qed

lemma add_member_clone_ok:
  assumes "heap_ok {} ext wext w" and "objs w a = Some ob" "ref_count ob \<noteq> 0"
    and "hash_find k (members ob) = None" and "wt_value v" "v \<noteq> V_nil"
    and "copy_room ext wext (refs_of v) (weak_refs_of v) w"
  shows "\<exists>w' ob'. di_add_member_clone E a (Some k) v w = Ret 0 w' \<and> heap_ok {} ext wext w' \<and>
     objs w' a = Some ob' \<and> members ob' = hash_add k (copied v) (members ob)"
  using add_member_clone_shape [OF assms, of E] by (auto simp: with_member_def)

lemma with_member_counts:
  assumes "same_shape w w1" and "finite (dom (objs w1))" and "objs w1 a = Some ob1"
  shows "strong_in (objs (with_member a k v ob1 w1)) b = strong_in (objs w) b + count_list (refs_of v) b"
    and "weak_in (objs (with_member a k v ob1 w1)) b = weak_in (objs w) b + count_list (weak_refs_of v) b"
  using count_in_upd [OF assms(2,3), of obj_refs "ob1\<lparr>members := hash_add k v (members ob1)\<rparr>" b]
    count_in_upd [OF assms(2,3), of obj_weak_refs "ob1\<lparr>members := hash_add k v (members ob1)\<rparr>" b]
    same_shape_strong [OF assms(1), of b] same_shape_weak [OF assms(1), of b]
  by (simp_all add: with_member_def obj_refs_def obj_weak_refs_def hash_add_def)

lemma with_member_live:
  "objs w1 a = Some ob1 \<Longrightarrow> live (with_member a k v ob1 w1) = live w1 \<and> dom (objs (with_member a k v ob1 w1)) = dom (objs w1)"
  by (auto simp: with_member_def live_def split: if_splits)

text \<open>
  \<^verbatim>\<open>di_rawsetx\<close> for a caller that holds the object and the references of the value.
\<close>

definition count_room :: "nat \<Rightarrow> world \<Rightarrow> bool" where
  "count_room n w \<longleftrightarrow> (\<forall>b ob. objs w b = Some ob \<longrightarrow>
     unat (ref_count ob) + n < 2 ^ 64 \<and> unat (weak_ref_count ob) + n < 2 ^ 64)"

lemma count_room_shrinks: "shrinks_on X w w' \<Longrightarrow> count_room n w \<Longrightarrow> count_room n w'"
proof -
  assume sh: "shrinks_on X w w'" and room: "count_room n w"
  show ?thesis
    unfolding count_room_def
  proof (intro allI impI)
    fix b ob' assume "objs w' b = Some ob'"
    with sh obtain ob where "objs w b = Some ob" "obj_shrinks (b \<in> X) ob ob'"
      unfolding shrinks_on_def by blast
    with room show "unat (ref_count ob') + n < 2 ^ 64 \<and> unat (weak_ref_count ob') + n < 2 ^ 64"
      unfolding count_room_def obj_shrinks_def word_le_nat_alt by fastforce
  qed
qed

lemma count_list_le: "count_list xs a \<le> length xs"
  by (induction xs) auto

lemma held_copy_room:
  assumes ok: "heap_ok {} ext wext w" and room: "count_room n w"
    and held: "\<And>b. b \<in> set rs \<Longrightarrow> 0 < ext b" "\<And>b. b \<in> set ws \<Longrightarrow> 0 < wext b"
    and n: "length rs < n" "length ws + 1 < n"
  shows "copy_room ext wext rs ws w"
  unfolding copy_room_def
proof (intro conjI ballI)
  fix a assume "a \<in> set rs"
  from heap_ok_ext_obj [OF ok held(1) [OF this]] obtain ob where ob: "objs w a = Some ob" "ref_count ob \<noteq> 0" by blast
  then show "a \<in> live w" by (auto simp: live_def)
  from heap_okD(4) [OF ok ob(1)] have "unat (ref_count ob) = strong_in (objs w) a + ext a" by (simp add: obj_ok_def)
  moreover have "unat (ref_count ob) + n < 2 ^ 64" using room ob(1) by (simp add: count_room_def)
  ultimately show "strong_in (objs w) a + ext a + count_list rs a < 2 ^ 64"
    using count_list_le [of rs a] n by linarith
next
  fix a assume "a \<in> set ws"
  from heap_ok_wext_obj [OF ok held(2) [OF this]] obtain ob where ob: "objs w a = Some ob" by blast
  then show "a \<in> dom (objs w)" by auto
  from heap_okD(4) [OF ok ob(1)] have "weak_in (objs w) a + wext a \<le> unat (weak_ref_count ob)" by (simp add: obj_ok_def)
  moreover have "unat (weak_ref_count ob) + n < 2 ^ 64" using room ob(1) by (simp add: count_room_def)
  ultimately show "weak_in (objs w) a + wext a + count_list ws a + 1 < 2 ^ 64"
    using count_list_le [of ws a] n by linarith
qed

lemma rawsetx_ok:
  assumes E: "dtors_neutral E" and ok: "heap_ok {} ext wext w" and a: "0 < ext a" and pin: "pinned ext w"
    and fuel: "enough_fuel E w" and wt: "wt_value v" "v \<noteq> V_nil"
    and held: "\<And>b. b \<in> set (refs_of v) \<Longrightarrow> 0 < ext b" "\<And>b. b \<in> set (weak_refs_of v) \<Longrightarrow> 0 < wext b"
    and room: "count_room (length (refs_of v) + length (weak_refs_of v) + 2) w"
    and ob: "objs w a = Some ob"
  shows "\<exists>w' ob'. di_rawsetx E a (Some k) v w = Ret 0 w' \<and> heap_ok {} ext wext w' \<and>
     objs w' a = Some ob' \<and> members ob' = hash_add k (copied v) (hash_del k (members ob))"
proof -
  have dist: "distinct (hash_keys (members ob))" using heap_okD(4) [OF ok ob] by (simp add: obj_ok_def)
  obtain w1 ob1 rc where w1: "di_delete_member_raw E a (Some k) w = Ret rc w1" "rc = 0 \<or> rc = - ENOENT"
    "heap_ok {} ext wext w1" "objs w1 a = Some ob1" "members ob1 = hash_del k (members ob)" "shrinks_on {a} w w1"
  proof (cases "hash_find k (members ob)")
    case None
    then have "di_delete_member_raw E a (Some k) w = Ret (- ENOENT) w"
      using ob by (simp add: di_delete_member_raw_def di_lookup_def outcome_simps heap_simps)
    with None ok ob that show ?thesis by (auto simp: hash_find_None hash_del_notin shrinks_refl)
  next
    case (Some old)
    from delete_member_raw_ok [OF E ok a pin fuel ob Some] that show ?thesis by blast
  qed
  have "hash_find k (members ob1) = None" using dist w1(5) by (simp add: hash_find_del)
  moreover have "ref_count ob1 \<noteq> 0" using heap_ok_ext_obj [OF w1(3) a] w1(4) by auto
  moreover have "copy_room ext wext (refs_of v) (weak_refs_of v) w1"
    using held_copy_room [OF w1(3) count_room_shrinks [OF w1(6) room] held] by simp
  ultimately obtain w' ob' where "di_add_member_clone E a (Some k) v w1 = Ret 0 w'" "heap_ok {} ext wext w'"
    "objs w' a = Some ob'" "members ob' = hash_add k (copied v) (members ob1)"
    using add_member_clone_ok [OF w1(3,4) _ _ wt] by blast
  with w1 show ?thesis
    unfolding di_rawsetx_def by (intro exI [of _ w'] exI [of _ ob']) (auto simp: outcome_simps)
qed

end
