(* ===== verification/Deai_Gc_Proof.thy ===== *)
theory Deai_Gc_Proof
  imports Deai_Gc Deai_Members
begin

text \<open>
  The first two stages of the collector find exactly the objects that are reachable from the
  candidate roots and not reachable from an object that has a reference from elsewhere.
\<close>

section \<open>The reference graph\<close>

text \<open>The references the collector follows.\<close>

fun gc_refs_of :: "di_variant \<Rightarrow> addr list" where
  "gc_refs_of (V_object a) = [a]"
| "gc_refs_of (V_array t vs) = concat (map gc_refs_of vs)"
| "gc_refs_of (V_tuple vs) = concat (map gc_refs_of vs)"
| "gc_refs_of (V_variant v) = gc_refs_of v"
| "gc_refs_of _ = []"

definition obj_gc_refs :: "di_object_internal \<Rightarrow> addr list" where
  "obj_gc_refs ob = concat (map (gc_refs_of \<circ> snd) (members ob))"

text \<open>
  The heap without the two fields the collector works with; its stages one and two keep it.
\<close>

definition core :: "di_object_internal \<Rightarrow> di_object_internal" where
  "core ob = ob\<lparr>mark := 0, ref_count_scan := 0\<rparr>"

definition coreh :: "world \<Rightarrow> heap" where
  "coreh w = (\<lambda>a. map_option core (objs w a))"

definition succs :: "heap \<Rightarrow> addr \<Rightarrow> addr list" where
  "succs h a = (case h a of None \<Rightarrow> [] | Some ob \<Rightarrow> obj_gc_refs ob)"

definition reach :: "heap \<Rightarrow> (addr \<times> addr) set" where
  "reach h = {(x, y). y \<in> set (succs h x)}\<^sup>*"

definition mk :: "world \<Rightarrow> addr \<Rightarrow> u8" where
  "mk w a = (case objs w a of None \<Rightarrow> 0 | Some ob \<Rightarrow> mark ob)"

definition sc :: "world \<Rightarrow> addr \<Rightarrow> u64" where
  "sc w a = (case objs w a of None \<Rightarrow> 0 | Some ob \<Rightarrow> ref_count_scan ob)"

lemma core_simps [simp]:
  "members (core ob) = members ob" "payload (core ob) = payload ob" "ref_count (core ob) = ref_count ob"
  "core (ob\<lparr>mark := m\<rparr>) = core ob" "core (ob\<lparr>ref_count_scan := s\<rparr>) = core ob" "obj_gc_refs (core ob) = obj_gc_refs ob"
  by (simp_all add: core_def obj_gc_refs_def)

lemma coreh_Some: "objs w a = Some ob \<Longrightarrow> coreh w a = Some (core ob)"
  by (simp add: coreh_def)

lemma dom_coreh [simp]: "dom (coreh w) = dom (objs w)"
  by (auto simp: coreh_def)

lemma coreh_upd:
  "objs w a = Some ob \<Longrightarrow> core ob' = core ob \<Longrightarrow> coreh (w\<lparr>objs := (objs w)(a := Some ob')\<rparr>) = coreh w"
  by (auto simp: coreh_def)

lemma coreh_lists [simp]:
  "coreh (w\<lparr>unreferred_objects := u\<rparr>) = coreh w" "coreh (w\<lparr>isolated_roots := i\<rparr>) = coreh w"
  by (simp_all add: coreh_def)

lemma coreh_dom: "coreh w = h \<Longrightarrow> a \<in> dom h \<Longrightarrow> \<exists>ob. objs w a = Some ob"
  by (auto simp: coreh_def)

lemma reach_refl: "(x, x) \<in> reach h"
  by (simp add: reach_def)

lemma reach_trans: "(x, y) \<in> reach h \<Longrightarrow> (y, z) \<in> reach h \<Longrightarrow> (x, z) \<in> reach h"
  unfolding reach_def by (rule rtrancl_trans)

lemma reach_step: "y \<in> set (succs h x) \<Longrightarrow> (y, z) \<in> reach h \<Longrightarrow> (x, z) \<in> reach h"
  unfolding reach_def by (rule converse_rtrancl_into_rtrancl) auto

lemma reach_closed:
  assumes "(x, y) \<in> reach h" and "x \<in> A" and "\<And>z. z \<in> A \<Longrightarrow> set (succs h z) \<subseteq> A"
  shows "y \<in> A"
  using assms(1,2) unfolding reach_def by (induction rule: rtrancl_induct) (use assms(3) in blast)+

section \<open>Scanning the members\<close>

lemma mforeach_concat: "mforeach f (concat xss) = mforeach (mforeach f) xss"
  by (induction xss) (simp_all add: mforeach_append)

lemma mforeach_map: "mforeach f (map g xs) = mforeach (\<lambda>x. f (g x)) xs"
  by (induction xs) simp_all

lemma scan_value_foreach: "wt_value v \<Longrightarrow> scan_value_with visit v = mforeach visit (gc_refs_of v)"
proof (induction v)
  case (V_array t vs)
  have "mforeach (scan_value_with visit) vs = mforeach (\<lambda>v. mforeach visit (gc_refs_of v)) vs"
    using V_array by (intro mforeach_cong) auto
  moreover have "vs \<noteq> [] \<Longrightarrow> di_sizeof_type t \<noteq> None"
    using V_array.prems by (cases vs) (auto dest: sizeof_wt)
  ultimately show ?case by (auto simp: mforeach_concat mforeach_map)
next
  case (V_tuple vs)
  have "mforeach (scan_value_with visit) vs = mforeach (\<lambda>v. mforeach visit (gc_refs_of v)) vs"
    using V_tuple by (intro mforeach_cong) auto
  then show ?case by (simp add: mforeach_concat mforeach_map)
qed (simp_all add: fun_eq_iff mseq_def mbind_def mret_def split: outcome.splits)

lemma mforeach_rule_append:
  assumes step: "\<And>x rest s. I (x # rest) s \<Longrightarrow> \<exists>s'. f x s = Ret () s' \<and> I rest s'"
  shows "I (xs @ ys) s \<Longrightarrow> \<exists>s'. mforeach f xs s = Ret () s' \<and> I ys s'"
  using mforeach_rule [of "\<lambda>zs. I (zs @ ys)" f] step by simp

text \<open>
  The member loop visits the references of the members in order, as long as the visits keep
  the member table.
\<close>

lemma scan_members_rule:
  assumes step: "\<And>x rest s. J (x # rest) s \<Longrightarrow> \<exists>s'. visit x s = Ret () s' \<and> J rest s'"
    and keep: "\<And>xs s. J xs s \<Longrightarrow> \<exists>ob. objs s a = Some ob \<and> members ob = ms"
    and wt: "\<And>p. p \<in> set ms \<Longrightarrow> wt_value (snd p)" and dist: "distinct (hash_keys ms)"
  shows "ms = front @ rear \<Longrightarrow> length rear \<le> n \<Longrightarrow> J (concat (map (gc_refs_of \<circ> snd) rear)) s \<Longrightarrow>
    \<exists>s'. scan_members_with visit a n (case rear of [] \<Rightarrow> None | (k, _) # _ \<Rightarrow> Some k) s = Ret () s' \<and> J [] s'"
proof (induction rear arbitrary: front n s)
  case Nil
  then show ?case by (simp add: outcome_simps)
next
  case (Cons p rear)
  obtain k v where p: "p = (k, v)" by (cases p)
  obtain m where n: "n = Suc m" using Cons.prems(2) by (cases n) auto
  from keep [OF Cons.prems(3)] obtain ob where ob: "objs s a = Some ob" "members ob = ms" by blast
  have nk: "k \<notin> set (hash_keys front)" using dist Cons.prems(1) p by auto
  have "hash_find k front = None" using nk by (simp add: hash_find_None)
  then have find: "hash_find k ms = Some v" using Cons.prems(1) p by (simp add: hash_find_append)
  have nxt: "hash_next k ms = (case rear of [] \<Rightarrow> None | (k, _) # _ \<Rightarrow> Some k)"
    using nk unfolding Cons.prems(1) p by (induction front) (auto split: list.splits)
  have "wt_value v" using wt [of p] Cons.prems(1) p by simp
  moreover have "J (gc_refs_of v @ concat (map (gc_refs_of \<circ> snd) rear)) s" using Cons.prems(3) p by (simp add: o_def)
  from mforeach_rule_append [where I = J and f = visit, OF step this]
  obtain s1 where s1: "mforeach visit (gc_refs_of v) s = Ret () s1" "J (concat (map (gc_refs_of \<circ> snd) rear)) s1"
    by blast
  moreover from Cons.IH [of "front @ [p]" m s1] Cons.prems s1(2) n
  obtain s2 where "scan_members_with visit a m (case rear of [] \<Rightarrow> None | (k, _) # _ \<Rightarrow> Some k) s1 = Ret () s2" "J [] s2"
    by (auto simp: o_def)
  ultimately show ?case
    using n p ob find nxt by (simp add: outcome_simps heap_simps scan_value_foreach)
qed

section \<open>Stage one\<close>

definition marked :: "world \<Rightarrow> addr set" where
  "marked w = {a. mk w a = 1}"

text \<open>
  What visiting the references \<open>xs\<close> does: everything reachable through unmarked objects is
  marked, every reference from a newly marked object is counted once, and the objects met on
  the way leave both lists.
\<close>

definition removes :: "addr set \<Rightarrow> world \<Rightarrow> world \<Rightarrow> bool" where
  "removes R w w' \<longleftrightarrow> unreferred_objects w' = filter (\<lambda>x. x \<notin> R) (unreferred_objects w) \<and>
     isolated_roots w' = filter (\<lambda>x. x \<notin> R) (isolated_roots w)"

definition mark_step :: "addr list \<Rightarrow> world \<Rightarrow> world \<Rightarrow> bool" where
  "mark_step xs w w' \<longleftrightarrow>
     coreh w' = coreh w \<and> marked w \<subseteq> marked w' \<and> set xs \<subseteq> marked w' \<and>
     (\<forall>x \<in> marked w' - marked w. (\<exists>y \<in> set xs. (y, x) \<in> reach (coreh w)) \<and> set (succs (coreh w) x) \<subseteq> marked w') \<and>
     (\<forall>x. x \<notin> marked w' \<longrightarrow> mk w' x = mk w x) \<and>
     (\<forall>p \<in> dom (objs w). sc w' p = sc w p +
        of_nat (count_list xs p + (\<Sum>x \<in> marked w' - marked w. count_list (succs (coreh w) x) p))) \<and>
     (\<exists>R. (\<forall>x \<in> R. \<exists>y \<in> set xs. (y, x) \<in> reach (coreh w)) \<and> (marked w' - marked w) \<union> set xs \<subseteq> R \<and> removes R w w')"

lemma mark_step_refl: "mark_step [] w w"
  by (auto simp: mark_step_def removes_def intro: exI [of _ "{}"])

lemma finite_marked: "finite (dom (objs w)) \<Longrightarrow> finite (marked w)"
  by (rule finite_subset [of _ "dom (objs w)"]) (auto simp: marked_def mk_def split: option.splits)

lemma removes_trans: "removes R w1 w2 \<Longrightarrow> removes S w2 w3 \<Longrightarrow> removes (R \<union> S) w1 w3"
  by (simp add: removes_def conj_commute)

lemma mark_step_trans:
  assumes s1: "mark_step xs w1 w2" and s2: "mark_step ys w2 w3" and fin: "finite (dom (objs w1))"
  shows "mark_step (xs @ ys) w1 w3"
proof -
  have h: "coreh w2 = coreh w1" "coreh w3 = coreh w1" using s1 s2 by (simp_all add: mark_step_def)
  have dom: "dom (objs w2) = dom (objs w1)" "dom (objs w3) = dom (objs w1)"
    using h dom_coreh by metis+
  have m: "marked w1 \<subseteq> marked w2" "marked w2 \<subseteq> marked w3" using s1 s2 by (auto simp: mark_step_def)
  have split: "marked w3 - marked w1 = (marked w2 - marked w1) \<union> (marked w3 - marked w2)" using m by blast
  have fin3: "finite (marked w3)" using fin dom finite_marked by metis
  have sum: "(\<Sum>x \<in> marked w3 - marked w1. f x) =
      (\<Sum>x \<in> marked w2 - marked w1. f x) + (\<Sum>x \<in> marked w3 - marked w2. f x)" for f :: "addr \<Rightarrow> nat"
    unfolding split by (rule sum.union_disjoint) (use fin3 m in \<open>auto intro: finite_subset\<close>)
  obtain R S where R: "\<forall>x \<in> R. \<exists>y \<in> set xs. (y, x) \<in> reach (coreh w1)" "(marked w2 - marked w1) \<union> set xs \<subseteq> R" "removes R w1 w2"
    and S: "\<forall>x \<in> S. \<exists>y \<in> set ys. (y, x) \<in> reach (coreh w1)" "(marked w3 - marked w2) \<union> set ys \<subseteq> S" "removes S w2 w3"
    using s1 s2 h unfolding mark_step_def by auto
  have "\<exists>R. (\<forall>x \<in> R. \<exists>y \<in> set (xs @ ys). (y, x) \<in> reach (coreh w1)) \<and>
      (marked w3 - marked w1) \<union> set (xs @ ys) \<subseteq> R \<and> removes R w1 w3"
    by (rule exI [of _ "R \<union> S"]) (use R S split removes_trans [OF R(3) S(3)] in auto)
  moreover have "sc w3 p = sc w1 p + of_nat (count_list (xs @ ys) p + (\<Sum>x \<in> marked w3 - marked w1. count_list (succs (coreh w1) x) p))"
    if "p \<in> dom (objs w1)" for p
    using s1 s2 that h dom unfolding mark_step_def sum by simp
  moreover have "\<forall>x \<in> marked w3 - marked w1. (\<exists>y \<in> set (xs @ ys). (y, x) \<in> reach (coreh w1)) \<and> set (succs (coreh w1) x) \<subseteq> marked w3"
    using s1 s2 h m unfolding mark_step_def split by (auto, blast+)
  moreover have "\<forall>x. x \<notin> marked w3 \<longrightarrow> mk w3 x = mk w1 x" using s1 s2 m unfolding mark_step_def by auto
  ultimately show ?thesis using h m s1 s2 unfolding mark_step_def by auto
qed

text \<open>
  The heaps the collector runs on: finite, closed under references, with well-typed members
  in tables that are not too long.
\<close>

definition gc_heap :: "nat \<Rightarrow> heap \<Rightarrow> bool" where
  "gc_heap f h \<longleftrightarrow> finite (dom h) \<and>
     (\<forall>a ob. h a = Some ob \<longrightarrow> set (obj_gc_refs ob) \<subseteq> dom h \<and> length (members ob) \<le> f \<and>
        distinct (hash_keys (members ob)) \<and> (\<forall>p \<in> set (members ob). wt_value (snd p)))"

lemma gc_heapD:
  assumes "gc_heap f h" and "h a = Some (core ob)"
  shows "length (members ob) \<le> f" and "distinct (hash_keys (members ob))"
    and "p \<in> set (members ob) \<Longrightarrow> wt_value (snd p)"
  using assms unfolding gc_heap_def by (metis core_simps(1))+

lemma gc_heap_succs: "gc_heap f h \<Longrightarrow> set (succs h x) \<subseteq> dom h"
  unfolding gc_heap_def succs_def by (cases "h x") simp_all

lemma mk_upd: "mk (w\<lparr>objs := (objs w)(a := Some ob)\<rparr>) x = (if x = a then mark ob else mk w x)"
  by (simp add: mk_def)

lemma sc_upd: "sc (w\<lparr>objs := (objs w)(a := Some ob)\<rparr>) x = (if x = a then ref_count_scan ob else sc w x)"
  by (simp add: sc_def)

lemma mk_sc_lists [simp]:
  "mk (w\<lparr>unreferred_objects := u\<rparr>) x = mk w x" "mk (w\<lparr>isolated_roots := i\<rparr>) x = mk w x"
  "sc (w\<lparr>unreferred_objects := u\<rparr>) x = sc w x" "sc (w\<lparr>isolated_roots := i\<rparr>) x = sc w x"
  by (simp_all add: mk_def sc_def)

lemma filter_removeAll: "removeAll x xs = filter (\<lambda>y. y \<notin> {x}) xs"
  by (induction xs) auto

text \<open>The effect of \<^verbatim>\<open>di_collect_garbage_mark\<close> on an object, marked or not.\<close>

lemma mark_pre:
  assumes ob: "objs w a = Some ob"
  shows "\<exists>w1. di_collect_garbage_mark a st w = Ret (if mark ob = 1 then -1 else 0) w1 \<and>
    coreh w1 = coreh w \<and> removes {a} w w1 \<and> (\<forall>x. mk w1 x = (if x = a then 1 else mk w x)) \<and>
    (\<forall>x. sc w1 x = (if x = a then sc w x + 1 else sc w x))"
proof -
  let ?w = "w\<lparr>unreferred_objects := removeAll a (unreferred_objects w), isolated_roots := removeAll a (isolated_roots w)\<rparr>"
  let ?w1 = "?w\<lparr>objs := (objs w)(a := Some (ob\<lparr>ref_count_scan := ref_count_scan ob + 1, mark := 1\<rparr>))\<rparr>"
  have m1: "mark ob = 1 \<Longrightarrow> ob\<lparr>ref_count_scan := r, mark := 1\<rparr> = ob\<lparr>ref_count_scan := r\<rparr>" for r
    by (cases ob) simp
  have "di_collect_garbage_mark a st w = Ret (if mark ob = 1 then -1 else 0) ?w1"
  proof (cases "mark ob = 1")
    case True
    show ?thesis
      unfolding m1 [OF True] using ob True
      by (simp add: di_collect_garbage_mark_def sib_list_del_init_def outcome_simps heap_simps)
  next
    case False
    then show ?thesis
      using ob by (simp add: di_collect_garbage_mark_def sib_list_del_init_def outcome_simps heap_simps)
  qed
  moreover have "coreh ?w1 = coreh w" using ob by (auto simp: coreh_def)
  moreover have "removes {a} w ?w1" by (simp add: removes_def filter_removeAll)
  moreover have "mk ?w1 x = (if x = a then 1 else mk w x)" "sc ?w1 x = (if x = a then sc w x + 1 else sc w x)" for x
    using ob by (simp_all add: mk_def sc_def)
  ultimately show ?thesis by blast
qed

text \<open>Entering an unmarked object and visiting its references amounts to visiting it.\<close>

lemma mark_step_node:
  assumes new: "a \<notin> marked w" and dom: "a \<in> dom (objs w)" and fin: "finite (dom (objs w))"
    and h: "coreh w1 = coreh w" and rm: "removes {a} w w1"
    and mk1: "\<And>x. mk w1 x = (if x = a then 1 else mk w x)"
    and sc1: "\<And>x. sc w1 x = (if x = a then sc w x + 1 else sc w x)"
    and st: "mark_step (succs (coreh w) a) w1 w2"
  shows "mark_step [a] w w2"
proof -
  let ?h = "coreh w"
  have m1: "marked w1 = insert a (marked w)" using mk1 by (auto simp: marked_def)
  have h2: "coreh w2 = ?h" using st h by (simp add: mark_step_def)
  have doms: "dom (objs w1) = dom (objs w)" "dom (objs w2) = dom (objs w)" using h h2 dom_coreh by metis+
  have m2: "insert a (marked w) \<subseteq> marked w2" "set (succs ?h a) \<subseteq> marked w2"
    using st m1 by (auto simp: mark_step_def)
  have split: "marked w2 - marked w = insert a (marked w2 - marked w1)" using new m1 m2 by auto
  have fin2: "finite (marked w2 - marked w1)" using finite_marked [of w2] fin doms by simp
  have notin: "a \<notin> marked w2 - marked w1" using m1 by simp
  have via: "(a, x) \<in> reach ?h" if "y \<in> set (succs ?h a)" "(y, x) \<in> reach ?h" for x y
    using that by (rule reach_step)
  obtain R where R: "\<forall>x \<in> R. \<exists>y \<in> set (succs ?h a). (y, x) \<in> reach ?h"
    "(marked w2 - marked w1) \<union> set (succs ?h a) \<subseteq> R" "removes R w1 w2"
    using st h unfolding mark_step_def by auto
  have "\<exists>R. (\<forall>x \<in> R. \<exists>y \<in> set [a]. (y, x) \<in> reach ?h) \<and> (marked w2 - marked w) \<union> set [a] \<subseteq> R \<and> removes R w w2"
    by (rule exI [of _ "{a} \<union> R"])
      (use R split removes_trans [OF rm R(3)] via reach_refl in auto)
  moreover have "sc w2 p = sc w p + of_nat (count_list [a] p + (\<Sum>x \<in> marked w2 - marked w. count_list (succs ?h x) p))"
    if "p \<in> dom (objs w)" for p
  proof -
    have "sc w2 p = sc w1 p + of_nat (count_list (succs ?h a) p + (\<Sum>x \<in> marked w2 - marked w1. count_list (succs ?h x) p))"
      using st that doms h by (simp add: mark_step_def)
    then show ?thesis unfolding split sum.insert [OF fin2 notin] using sc1 [of p] by simp
  qed
  moreover have "(a, x) \<in> reach ?h \<and> set (succs ?h x) \<subseteq> marked w2" if "x \<in> marked w2 - marked w" for x
  proof (cases "x = a")
    case True
    with m2 reach_refl show ?thesis by auto
  next
    case False
    with that split have "x \<in> marked w2 - marked w1" by blast
    with st h have "(\<exists>y \<in> set (succs ?h a). (y, x) \<in> reach ?h) \<and> set (succs ?h x) \<subseteq> marked w2"
      unfolding mark_step_def by metis
    with via show ?thesis by blast
  qed
  moreover have "mk w2 x = mk w x" if "x \<notin> marked w2" for x
    using st that mk1 [of x] m2 by (auto simp: mark_step_def)
  ultimately show ?thesis using h2 m2 unfolding mark_step_def by auto
qed

lemma mark_step_again:
  assumes "a \<in> marked w" and "coreh w1 = coreh w" and "removes {a} w w1"
    and "\<And>x. mk w1 x = (if x = a then 1 else mk w x)" and "\<And>x. sc w1 x = (if x = a then sc w x + 1 else sc w x)"
  shows "mark_step [a] w w1"
proof -
  have "marked w1 = marked w" using assms(1,4) by (auto simp: marked_def)
  moreover have "mk w1 x = mk w x" for x using assms(1,4) by (auto simp: marked_def)
  ultimately show ?thesis
    using assms reach_refl unfolding mark_step_def by (auto intro!: exI [of _ "{a}"])
qed

text \<open>One visit, by induction on the depth.\<close>

lemma mark_visit:
  assumes heap: "gc_heap (e_fuel E) h"
  shows "coreh w = h \<Longrightarrow> a \<in> dom h \<Longrightarrow> card (dom h - marked w) < n \<Longrightarrow>
    \<exists>w'. di_scan_type n E di_collect_garbage_mark None st a w = Ret () w' \<and> mark_step [a] w w'"
proof (induction n arbitrary: w a st)
  case 0
  then show ?case by simp
next
  case (Suc n)
  have fin: "finite (dom h)" using heap by (simp add: gc_heap_def)
  have doms: "dom (objs w) = dom h" using Suc.prems(1) dom_coreh by metis
  from coreh_dom [OF Suc.prems(1,2)] obtain ob where ob: "objs w a = Some ob" by blast
  have hob: "h a = Some (core ob)" using Suc.prems(1) ob coreh_Some by metis
  obtain w1 where w1: "di_collect_garbage_mark a st w = Ret (if mark ob = 1 then -1 else 0) w1"
    "coreh w1 = coreh w" "removes {a} w w1" "\<And>x. mk w1 x = (if x = a then 1 else mk w x)"
    "\<And>x. sc w1 x = (if x = a then sc w x + 1 else sc w x)"
    using mark_pre [OF ob, of st] by blast
  show ?case
  proof (cases "mark ob = 1")
    case True
    then have "a \<in> marked w" using ob by (simp add: marked_def mk_def)
    from mark_step_again [OF this w1(2-5)] True w1(1) show ?thesis by (auto simp: outcome_simps)
  next
    case False
    then have new: "a \<notin> marked w" using ob by (simp add: marked_def mk_def)
    obtain ob1 where ob1: "objs w1 a = Some ob1" using coreh_dom [of w1 h a] w1(2) Suc.prems by auto
    then have mem1: "members ob1 = members ob"
      using coreh_Some [OF ob1] coreh_Some [OF ob] w1(2) by (metis core_simps(1) option.inject)
    let ?J = "\<lambda>xs s. \<exists>ys. succs h a = ys @ xs \<and> mark_step ys w1 s"
    have m1: "marked w1 = insert a (marked w)" using w1(4) by (auto simp: marked_def)
    have "card (dom h - marked w1) < card (dom h - marked w)"
      using fin new Suc.prems(2) m1 by (intro psubset_card_mono) auto
    then have card1: "card (dom h - marked w1) < n" using Suc.prems(3) by simp
    have "\<exists>s'. scan_members_with (di_scan_type n E di_collect_garbage_mark None 0) a (e_fuel E)
        (case members ob of [] \<Rightarrow> None | (k, _) # _ \<Rightarrow> Some k) w1 = Ret () s' \<and> ?J [] s'"
    proof (rule scan_members_rule [where J = ?J and ms = "members ob" and front = "[]"])
      fix x rest s assume "?J (x # rest) s"
      then obtain ys where ys: "succs h a = ys @ x # rest" "mark_step ys w1 s" by blast
      have hs: "coreh s = h" using ys(2) w1(2) Suc.prems(1) by (simp add: mark_step_def)
      have x: "x \<in> dom h" using gc_heap_succs [OF heap, of a] ys(1) by auto
      have "card (dom h - marked s) \<le> card (dom h - marked w1)"
        using ys(2) fin by (intro card_mono) (auto simp: mark_step_def)
      with Suc.IH [OF hs x] card1 obtain s' where
        s': "di_scan_type n E di_collect_garbage_mark None 0 x s = Ret () s'" "mark_step [x] s s'"
        by (meson le_less_trans)
      have "finite (dom (objs w1))" using fin w1(2) Suc.prems(1) dom_coreh by metis
      from mark_step_trans [OF ys(2) s'(2) this] have "mark_step (ys @ [x]) w1 s'" .
      with ys(1) s'(1) show "\<exists>s'. di_scan_type n E di_collect_garbage_mark None 0 x s = Ret () s' \<and> ?J rest s'"
        by (metis append.assoc append_Cons append_Nil)
    next
      fix xs s assume "?J xs s"
      then have hs: "coreh s = h" using w1(2) Suc.prems(1) by (auto simp: mark_step_def)
      then obtain os where os: "objs s a = Some os" using coreh_dom Suc.prems(2) by blast
      then have "core os = core ob" using coreh_Some [OF os] hs hob by simp
      then have "members os = members ob" by (metis core_simps(1))
      with os show "\<exists>ob'. objs s a = Some ob' \<and> members ob' = members ob" by blast
    next
      show "?J (concat (map (gc_refs_of \<circ> snd) (members ob))) w1"
        using hob mark_step_refl by (auto simp: succs_def obj_gc_refs_def)
    qed (use gc_heapD [OF heap hob] in simp_all)
    then obtain w2 where w2: "scan_members_with (di_scan_type n E di_collect_garbage_mark None 0) a (e_fuel E)
        (case members ob of [] \<Rightarrow> None | (k, _) # _ \<Rightarrow> Some k) w1 = Ret () w2" "mark_step (succs h a) w1 w2"
      by auto
    have "mark_step [a] w w2"
      by (rule mark_step_node [OF new _ _ w1(2-5)]) (use Suc.prems doms fin w2(2) in simp_all)
    moreover have "di_scan_type (Suc n) E di_collect_garbage_mark None st a w = Ret () w2"
      using False w1(1) ob1 mem1 w2(1) by (simp add: outcome_simps heap_simps)
    ultimately show ?thesis by blast
  qed
qed

text \<open>
  The loop over the candidate roots.  The marks of dead objects, which wait for their weak references to go, do not matter.  No root
  is reachable from a root that was moved to the isolated ones before it.
\<close>

definition rc :: "heap \<Rightarrow> addr \<Rightarrow> u64" where
  "rc h a = (case h a of None \<Rightarrow> 0 | Some ob \<Rightarrow> ref_count ob)"

definition gc_edges :: "heap \<Rightarrow> addr set \<Rightarrow> addr \<Rightarrow> nat" where
  "gc_edges h A p = (\<Sum>x \<in> A. count_list (succs h x) p)"

definition mark_inv :: "heap \<Rightarrow> addr set \<Rightarrow> world \<Rightarrow> bool" where
  "mark_inv h U w \<longleftrightarrow> coreh w = h \<and> (\<forall>x \<in> set (unreferred_objects w). rc h x \<noteq> 0) \<and>
     (\<forall>x \<in> marked w. set (succs h x) \<subseteq> marked w) \<and>
     set (unreferred_objects w) \<inter> marked w = {} \<and> set (isolated_roots w) \<subseteq> marked w \<and>
     (\<forall>x \<in> marked w. \<exists>r \<in> set (isolated_roots w). (r, x) \<in> reach h) \<and>
     (\<forall>x. x \<notin> marked w \<longrightarrow> mk w x = 0 \<or> rc h x = 0 \<and> mk w x \<in> {2, 3}) \<and>
     sorted_wrt (\<lambda>x y. (y, x) \<notin> reach h) (isolated_roots w) \<and>
     (\<forall>p. rc h p \<noteq> 0 \<longrightarrow> sc w p = of_nat (gc_edges h (marked w) p)) \<and>
     U \<subseteq> set (unreferred_objects w) \<union> marked w \<and>
     (\<forall>x \<in> set (unreferred_objects w) \<union> marked w. \<exists>r \<in> U. (r, x) \<in> reach h)"

lemma length_filter_notin: "x \<in> set xs \<Longrightarrow> x \<in> R \<Longrightarrow> length (filter (\<lambda>y. y \<notin> R) xs) < length xs"
  by (rule length_filter_less) auto

lemma mark_inv_step:
  assumes inv: "mark_inv h U w" and i: "i \<in> set (unreferred_objects w)" and fin: "finite (dom h)"
    and st: "mark_step [i] w w1" and h2: "coreh w2 = h"
    and sc2: "\<And>p. sc w2 p = (if p = i then sc w1 p - 1 else sc w1 p)" and mk2: "\<And>p. mk w2 p = mk w1 p"
    and l2: "unreferred_objects w2 = unreferred_objects w1" "isolated_roots w2 = i # isolated_roots w1"
  shows "mark_inv h U w2 \<and> length (unreferred_objects w2) < length (unreferred_objects w)"
proof -
  have h: "coreh w = h" and cl: "\<And>x. x \<in> marked w \<Longrightarrow> set (succs h x) \<subseteq> marked w"
    and dis: "set (unreferred_objects w) \<inter> marked w = {}"
    and cov: "\<And>x. x \<in> marked w \<Longrightarrow> \<exists>r \<in> set (isolated_roots w). (r, x) \<in> reach h"
    and from_U: "\<And>x. x \<in> set (unreferred_objects w) \<union> marked w \<Longrightarrow> \<exists>r \<in> U. (r, x) \<in> reach h"
    using inv unfolding mark_inv_def by blast+
  have m2: "marked w2 = marked w1" using mk2 by (simp add: marked_def)
  have mono: "marked w \<subseteq> marked w1" "i \<in> marked w1" using st by (auto simp: mark_step_def)
  have new: "(i, x) \<in> reach h \<and> set (succs h x) \<subseteq> marked w1" if "x \<in> marked w1" "x \<notin> marked w" for x
    using st that h by (auto simp: mark_step_def)
  obtain R where R: "\<forall>x \<in> R. (i, x) \<in> reach h" "marked w1 - marked w \<subseteq> R" "i \<in> R" "removes R w w1"
    using st h unfolding mark_step_def by auto
  have cl1: "set (succs h x) \<subseteq> marked w1" if "x \<in> marked w1" for x
    using that new cl mono by blast
  have l: "unreferred_objects w2 = filter (\<lambda>x. x \<notin> R) (unreferred_objects w)"
    "isolated_roots w2 = i # filter (\<lambda>x. x \<notin> R) (isolated_roots w)"
    using R(4) l2 by (simp_all add: removes_def)
  have R1: "x \<in> marked w1" if "x \<in> R" for x
    using reach_closed [of i x h "marked w1"] R(1) that mono cl1 by blast
  have "\<exists>r \<in> set (isolated_roots w2). (r, x) \<in> reach h" if x: "x \<in> marked w1" for x
  proof (cases "x \<in> marked w")
    case True
    from cov [OF this] obtain r where r: "r \<in> set (isolated_roots w)" "(r, x) \<in> reach h" by blast
    with R(1) l(2) reach_trans show ?thesis by (cases "r \<in> R") auto
  next
    case False
    with new x l(2) show ?thesis by auto
  qed
  moreover have "sc w2 p = of_nat (gc_edges h (marked w1) p)" if p: "rc h p \<noteq> 0" for p
  proof -
    have fin1: "finite (marked w1)"
      using finite_marked [of w1] fin st h dom_coreh [of w1] by (simp add: mark_step_def)
    have "p \<in> dom (objs w)" using p h by (auto simp: rc_def coreh_def split: option.splits)
    then have "sc w1 p = sc w p + of_nat (count_list [i] p + gc_edges h (marked w1 - marked w) p)"
      using st h by (simp add: mark_step_def gc_edges_def)
    moreover have "gc_edges h (marked w1) p = gc_edges h (marked w1 - marked w) p + gc_edges h (marked w) p"
      unfolding gc_edges_def using fin1 mono(1) by (simp add: sum.subset_diff)
    moreover have "sc w p = of_nat (gc_edges h (marked w) p)" using inv p by (simp add: mark_inv_def)
    ultimately show ?thesis using sc2 [of p] by (auto simp: algebra_simps)
  qed
  moreover have "mk w2 x = 0 \<or> rc h x = 0 \<and> mk w2 x \<in> {2, 3}" if "x \<notin> marked w1" for x
    using st that mk2 [of x] mono inv unfolding mark_step_def mark_inv_def by (metis subsetD)
  moreover have "sorted_wrt (\<lambda>x y. (y, x) \<notin> reach h) (isolated_roots w2)"
  proof -
    have "(r, i) \<notin> reach h" if "r \<in> set (isolated_roots w)" for r
    proof
      assume "(r, i) \<in> reach h"
      moreover have "r \<in> marked w" using inv that by (auto simp: mark_inv_def)
      ultimately have "i \<in> marked w" using cl by (rule reach_closed)
      with i dis show False by blast
    qed
    then show ?thesis using inv l(2) by (auto simp: mark_inv_def sorted_wrt_filter)
  qed
  moreover have "U \<subseteq> set (unreferred_objects w2) \<union> marked w1"
    using inv l(1) R1 mono unfolding mark_inv_def by auto
  moreover have "\<exists>r \<in> U. (r, x) \<in> reach h" if x: "x \<in> set (unreferred_objects w2) \<union> marked w1" for x
  proof (cases "x \<in> set (unreferred_objects w) \<union> marked w")
    case True
    then show ?thesis by (rule from_U)
  next
    case False
    with x l(1) new have "(i, x) \<in> reach h" by auto
    with from_U [of i] i reach_trans show ?thesis by blast
  qed
  moreover have "set (unreferred_objects w2) \<inter> marked w1 = {}" using l(1) dis R(2) by auto
  moreover have "set (isolated_roots w2) \<subseteq> marked w1" using l(2) mono inv by (auto simp: mark_inv_def)
  moreover have "length (unreferred_objects w2) < length (unreferred_objects w)"
    unfolding l(1) using i R(3) by (rule length_filter_notin)
  ultimately show ?thesis
    using h2 cl1 l(1) inv unfolding mark_inv_def m2 by auto
qed

lemma mark_roots:
  assumes heap: "gc_heap (e_fuel E) h" and fuel: "card (dom h) < e_fuel E"
  shows "mark_inv h U w \<Longrightarrow> length (unreferred_objects w) \<le> n \<Longrightarrow>
    \<exists>w'. gc_mark_roots n E w = Ret () w' \<and> mark_inv h U w' \<and> unreferred_objects w' = []"
proof (induction n arbitrary: w)
  case 0
  then show ?case by (auto simp: gc_mark_roots.simps [of 0])
next
  case (Suc n)
  show ?case
  proof (cases "unreferred_objects w")
    case Nil
    with Suc.prems show ?thesis by (auto simp: gc_mark_roots.simps [of "Suc n"])
  next
    case (Cons i us)
    have fin: "finite (dom h)" using heap by (simp add: gc_heap_def)
    have h: "coreh w = h" and im: "i \<notin> marked w" and imk: "mk w i = 0" and irc: "rc h i \<noteq> 0"
      using Suc.prems(1) Cons by (auto simp: mark_inv_def)
    have id: "i \<in> dom h" using irc by (auto simp: rc_def split: option.splits)
    from coreh_dom [OF h id] obtain ob where ob: "objs w i = Some ob" by blast
    have "card (dom h - marked w) < e_fuel E"
      using fuel card_mono [OF fin, of "dom h - marked w"] by (simp add: less_le_trans)
    with mark_visit [OF heap h id, of "e_fuel E" 0]
    obtain w1 where w1: "di_scan_type (e_fuel E) E di_collect_garbage_mark None 0 i w = Ret () w1" "mark_step [i] w w1"
      by blast
    have h1: "coreh w1 = h" using w1(2) h by (simp add: mark_step_def)
    from coreh_dom [OF h1 id] obtain ob1 where ob1: "objs w1 i = Some ob1" by blast
    let ?w2 = "w1\<lparr>objs := (objs w1)(i := Some (ob1\<lparr>ref_count_scan := ref_count_scan ob1 - 1\<rparr>)),
       isolated_roots := i # isolated_roots w1\<rparr>"
    have h2: "coreh ?w2 = h" using h1 coreh_upd [OF ob1] by simp
    have "mark_inv h U ?w2 \<and> length (unreferred_objects ?w2) < length (unreferred_objects w)"
      by (rule mark_inv_step [OF Suc.prems(1) _ fin w1(2) h2])
        (use Cons ob1 in \<open>simp_all add: mk_def sc_def\<close>)
    with Suc.IH [of ?w2] Suc.prems(2) obtain w' where
      w': "gc_mark_roots n E ?w2 = Ret () w'" "mark_inv h U w'" "unreferred_objects w' = []" by auto
    have "mark ob = 0" using imk ob by (simp add: mk_def)
    then have "gc_mark_roots (Suc n) E w = gc_mark_roots n E ?w2"
      using ob w1(1) ob1 Cons by (simp add: gc_mark_roots.simps [of "Suc n"] outcome_simps heap_simps)
    with w' show ?thesis by auto
  qed
qed

end
