(* ===== verification/Deai_Gc_Scan.thy ===== *)
theory Deai_Gc_Scan
  imports Deai_Gc_Proof
begin

text \<open>
  The second stage of the collector, and the two stages together.
\<close>

section \<open>Stage two\<close>

text \<open>
  \<open>M\<close> is the set the first stage marked and \<open>C\<close> the references it counted.  An object of \<open>M\<close> is
  untouched (mark 1), found to have no reference from elsewhere (mark 2), or revived (mark 0).
\<close>

definition scan_inv :: "heap \<Rightarrow> addr set \<Rightarrow> (addr \<Rightarrow> u64) \<Rightarrow> world \<Rightarrow> bool" where
  "scan_inv h M C w \<longleftrightarrow> coreh w = h \<and>
     (\<forall>x \<in> M. mk w x = 0 \<and> sc w x = 0 \<or> mk w x = 1 \<and> sc w x = C x \<or> mk w x = 2 \<and> sc w x = C x \<and> C x = rc h x) \<and>
     (\<forall>x. x \<notin> M \<longrightarrow> mk w x = 0 \<and> sc w x = 0 \<or> rc h x = 0 \<and> mk w x \<in> {0, 2, 3})"

definition lvl :: "world \<Rightarrow> addr \<Rightarrow> nat" where
  "lvl w x = (if mk w x = 1 then 2 else if mk w x = 2 then 1 else 0)"

lemma lvl_cases: "lvl w x = 0 \<or> lvl w x = 1 \<or> lvl w x = 2"
  by (simp add: lvl_def)

definition revived :: "addr set \<Rightarrow> world \<Rightarrow> addr set" where
  "revived M w = {x \<in> M. mk w x = 0}"

definition seen :: "addr set \<Rightarrow> world \<Rightarrow> addr set" where
  "seen M w = {x \<in> M. mk w x \<noteq> 1}"

definition scan_step ::
  "heap \<Rightarrow> addr set \<Rightarrow> (addr \<Rightarrow> u64) \<Rightarrow> bool \<Rightarrow> addr list \<Rightarrow> world \<Rightarrow> world \<Rightarrow> bool" where
  "scan_step h M C rv xs w w' \<longleftrightarrow> scan_inv h M C w' \<and>
     unreferred_objects w' = unreferred_objects w \<and> isolated_roots w' = isolated_roots w \<and>
     (\<forall>x. lvl w' x \<le> lvl w x) \<and> (rv \<longrightarrow> set xs \<subseteq> revived M w') \<and> set xs \<subseteq> seen M w' \<and>
     (\<forall>x \<in> revived M w' - revived M w. set (succs h x) \<subseteq> revived M w' \<and>
        (\<exists>e. (e \<in> M \<and> C e \<noteq> rc h e \<or> rv \<and> e \<in> set xs) \<and> (e, x) \<in> reach h)) \<and>
     (\<forall>x \<in> seen M w' - seen M w. set (succs h x) \<subseteq> seen M w')"

lemma lvl_revived: "scan_inv h M C w \<Longrightarrow> x \<in> M \<Longrightarrow> x \<in> revived M w \<longleftrightarrow> lvl w x = 0"
  by (auto simp: scan_inv_def lvl_def revived_def)

lemma lvl_seen: "scan_inv h M C w \<Longrightarrow> x \<in> M \<Longrightarrow> x \<in> seen M w \<longleftrightarrow> lvl w x \<noteq> 2"
  by (auto simp: scan_inv_def lvl_def seen_def)

lemma scan_mono:
  assumes inv: "scan_inv h M C w" "scan_inv h M C w'" and le: "\<And>x. lvl w' x \<le> lvl w x"
  shows "revived M w \<subseteq> revived M w'" and "seen M w \<subseteq> seen M w'"
proof -
  show "revived M w \<subseteq> revived M w'"
  proof
    fix x assume x: "x \<in> revived M w"
    then have xM: "x \<in> M" by (simp add: revived_def)
    with x lvl_revived [OF inv(1) xM] lvl_revived [OF inv(2) xM] le [of x] show "x \<in> revived M w'" by simp
  qed
  show "seen M w \<subseteq> seen M w'"
  proof
    fix x assume x: "x \<in> seen M w"
    then have xM: "x \<in> M" by (simp add: seen_def)
    have "lvl w x \<le> 2" by (simp add: lvl_def)
    with x lvl_seen [OF inv(1) xM] lvl_seen [OF inv(2) xM] le [of x] show "x \<in> seen M w'" by simp
  qed
qed

lemma scan_step_refl: "scan_inv h M C w \<Longrightarrow> scan_step h M C rv [] w w"
  by (simp add: scan_step_def)

lemma scan_step_trans:
  assumes inv: "scan_inv h M C w1" and s1: "scan_step h M C rv xs w1 w2" and s2: "scan_step h M C rv ys w2 w3"
  shows "scan_step h M C rv (xs @ ys) w1 w3"
proof -
  have inv2: "scan_inv h M C w2" and inv3: "scan_inv h M C w3" using s1 s2 by (simp_all add: scan_step_def)
  have le1: "lvl w2 x \<le> lvl w1 x" and le2: "lvl w3 x \<le> lvl w2 x" for x using s1 s2 by (simp_all add: scan_step_def)
  note m1 = scan_mono [OF inv inv2 le1] and m2 = scan_mono [OF inv2 inv3 le2]
  have r1: "set (succs h x) \<subseteq> revived M w2 \<and> (\<exists>e. (e \<in> M \<and> C e \<noteq> rc h e \<or> rv \<and> e \<in> set xs) \<and> (e, x) \<in> reach h)"
    if "x \<in> revived M w2 - revived M w1" for x using s1 that unfolding scan_step_def by blast
  have r2: "set (succs h x) \<subseteq> revived M w3 \<and> (\<exists>e. (e \<in> M \<and> C e \<noteq> rc h e \<or> rv \<and> e \<in> set ys) \<and> (e, x) \<in> reach h)"
    if "x \<in> revived M w3 - revived M w2" for x using s2 that unfolding scan_step_def by blast
  have "set (succs h x) \<subseteq> revived M w3 \<and> (\<exists>e. (e \<in> M \<and> C e \<noteq> rc h e \<or> rv \<and> e \<in> set (xs @ ys)) \<and> (e, x) \<in> reach h)"
    if x: "x \<in> revived M w3 - revived M w1" for x
  proof (cases "x \<in> revived M w2")
    case True
    with x r1 [of x] m2(1) show ?thesis by auto
  next
    case False
    with x r2 [of x] show ?thesis by auto
  qed
  moreover have "set (succs h x) \<subseteq> seen M w3" if "x \<in> seen M w3 - seen M w1" for x
    using s1 s2 that m2(2) unfolding scan_step_def by blast
  moreover have "lvl w3 x \<le> lvl w1 x" for x using le1 [of x] le2 [of x] by simp
  moreover have "rv \<longrightarrow> set (xs @ ys) \<subseteq> revived M w3" "set (xs @ ys) \<subseteq> seen M w3"
    using s1 s2 m2 unfolding scan_step_def by auto
  ultimately show ?thesis using s1 s2 inv3 unfolding scan_step_def by simp
qed

text \<open>
  The effect of \<^verbatim>\<open>di_collect_garbage_scan\<close>: nothing for an object whose fate is settled, revival, or
  mark 2.
\<close>

lemma scan_pre_skip:
  assumes inv: "scan_inv h M C w" and a: "a \<in> M" and ob: "objs w a = Some ob" and nz: "rc h a \<noteq> 0"
    and le: "C a \<le> rc h a" and skip: "lvl w a = 0 \<or> lvl w a = 1 \<and> rv = 0"
  shows "di_collect_garbage_scan a rv w = Ret (-1) w"
proof -
  have "rc h a = ref_count ob" using inv ob coreh_Some [OF ob] by (auto simp: scan_inv_def rc_def)
  moreover have "mark ob = mk w a" "ref_count_scan ob = sc w a" using ob by (simp_all add: mk_def sc_def)
  ultimately show ?thesis
    using inv a nz le skip ob unfolding scan_inv_def
    by (auto simp: di_collect_garbage_scan_def lvl_def outcome_simps heap_simps split: if_splits)
qed

lemma scan_pre_enter:
  assumes inv: "scan_inv h M C w" and a: "a \<in> M" and ob: "objs w a = Some ob"
    and le: "C a \<le> rc h a" and go: "lvl w a = 2 \<or> lvl w a = 1 \<and> rv \<noteq> 0"
    and re: "re \<longleftrightarrow> rv \<noteq> 0 \<or> C a \<noteq> rc h a"
  shows "\<exists>w1. di_collect_garbage_scan a rv w = Ret (if re then 1 else 0) w1 \<and> scan_inv h M C w1 \<and>
    (\<forall>x. mk w1 x = (if x = a then (if re then 0 else 2) else mk w x)) \<and>
    unreferred_objects w1 = unreferred_objects w \<and> isolated_roots w1 = isolated_roots w"
proof -
  have rcob: "rc h a = ref_count ob" using inv ob coreh_Some [OF ob] by (auto simp: scan_inv_def rc_def)
  have mko: "mark ob = mk w a" "ref_count_scan ob = sc w a" using ob by (simp_all add: mk_def sc_def)
  have scC: "sc w a = C a" and mk12: "mk w a = 1 \<or> mk w a = 2 \<and> rv \<noteq> 0"
    using inv a go by (auto simp: scan_inv_def lvl_def split: if_splits)
  let ?ob = "if re then ob\<lparr>ref_count_scan := 0, mark := 0\<rparr> else ob\<lparr>mark := 2\<rparr>"
  let ?w = "w\<lparr>objs := (objs w)(a := Some ?ob)\<rparr>"
  have "di_collect_garbage_scan a rv w = Ret (if re then 1 else 0) ?w"
    using ob rcob mko scC mk12 re le
    by (auto simp: di_collect_garbage_scan_def outcome_simps heap_simps)
  moreover have mk1: "mk ?w x = (if x = a then (if re then 0 else 2) else mk w x)" for x by (simp add: mk_upd)
  moreover have sc1: "sc ?w x = (if x = a then (if re then 0 else C a) else sc w x)" for x
    using mko scC by (simp add: sc_upd)
  moreover have "coreh ?w = h" using inv coreh_upd [OF ob, of ?ob] by (auto simp: scan_inv_def)
  then have "scan_inv h M C ?w" using inv re mk1 sc1 a unfolding scan_inv_def by auto
  ultimately show ?thesis by (intro exI [of _ ?w]) simp
qed

lemma scan_step_node:
  assumes inv: "scan_inv h M C w" and a: "a \<in> M" and go: "lvl w a = 2 \<or> lvl w a = 1 \<and> rv"
    and re: "re \<longleftrightarrow> rv \<or> C a \<noteq> rc h a" and inv1: "scan_inv h M C w1"
    and mk1: "\<And>x. mk w1 x = (if x = a then (if re then 0 else 2) else mk w x)"
    and l1: "unreferred_objects w1 = unreferred_objects w" "isolated_roots w1 = isolated_roots w"
    and st: "scan_step h M C re (succs h a) w1 w2"
  shows "scan_step h M C rv [a] w w2"
proof -
  have inv2: "scan_inv h M C w2" and le2: "\<And>x. lvl w2 x \<le> lvl w1 x" using st by (simp_all add: scan_step_def)
  have le1: "lvl w1 x \<le> lvl w x" for x using go re mk1 by (auto simp: lvl_def)
  note m = scan_mono [OF inv1 inv2 le2]
  have ra: "re \<Longrightarrow> a \<in> revived M w2" using m(1) mk1 [of a] a by (auto simp: revived_def)
  have "a \<in> seen M w1" using mk1 [of a] a by (simp add: seen_def)
  with m(2) have sa: "a \<in> seen M w2" by blast
  have rs: "revived M w2 \<subseteq> seen M w2" by (auto simp: revived_def seen_def)
  have r: "set (succs h x) \<subseteq> revived M w2 \<and> (\<exists>e. (e \<in> M \<and> C e \<noteq> rc h e \<or> rv \<and> e \<in> set [a]) \<and> (e, x) \<in> reach h)"
    if x: "x \<in> revived M w2 - revived M w" for x
  proof (cases "x \<in> revived M w1")
    case True
    then have "x = a \<and> re" using x mk1 [of x] by (auto simp: revived_def split: if_splits)
    with st re a reach_refl show ?thesis unfolding scan_step_def by auto
  next
    case False
    with x st obtain e where e: "e \<in> M \<and> C e \<noteq> rc h e \<or> re \<and> e \<in> set (succs h a)" "(e, x) \<in> reach h"
      and sub: "set (succs h x) \<subseteq> revived M w2" unfolding scan_step_def by blast
    from e re a reach_step [of e h a x] sub show ?thesis by auto
  qed
  have s: "set (succs h x) \<subseteq> seen M w2" if x: "x \<in> seen M w2 - seen M w" for x
  proof (cases "x \<in> seen M w1")
    case True
    then have "x = a" using x mk1 [of x] by (auto simp: seen_def split: if_splits)
    with st show ?thesis by (simp add: scan_step_def)
  next
    case False
    with x st show ?thesis by (auto simp: scan_step_def)
  qed
  have "lvl w2 x \<le> lvl w x" for x using le1 [of x] le2 [of x] by simp
  moreover have "rv \<longrightarrow> set [a] \<subseteq> revived M w2" using ra re by auto
  ultimately show ?thesis using inv2 sa r s st l1 unfolding scan_step_def by auto
qed

lemma sum_lvl_less:
  assumes "finite M" and "a \<in> M" and "\<And>x. lvl w1 x \<le> lvl w x" and "lvl w1 a < lvl w a"
  shows "sum (lvl w1) M < sum (lvl w) M"
  using assms by (intro sum_strict_mono_ex1) auto

lemma scan_visit:
  assumes heap: "gc_heap (e_fuel E) h" and fin: "finite M" and Mdom: "M \<subseteq> dom h"
    and cl: "\<And>x. x \<in> M \<Longrightarrow> set (succs h x) \<subseteq> M"
    and cnt: "\<And>x. x \<in> M \<Longrightarrow> rc h x \<noteq> 0 \<and> C x \<le> rc h x"
  shows "scan_inv h M C w \<Longrightarrow> a \<in> M \<Longrightarrow> sum (lvl w) M < n \<Longrightarrow>
    \<exists>w'. di_scan_type n E di_collect_garbage_scan None st a w = Ret () w' \<and> scan_step h M C (st \<noteq> 0) [a] w w'"
proof (induction n arbitrary: w a st)
  case 0
  then show ?case by simp
next
  case (Suc n)
  have hw: "coreh w = h" using Suc.prems(1) by (simp add: scan_inv_def)
  from coreh_dom [OF hw] Mdom Suc.prems(2) obtain ob where ob: "objs w a = Some ob" by blast
  have hob: "h a = Some (core ob)" using hw ob coreh_Some by metis
  note ca = cnt [OF Suc.prems(2)]
  consider (skip) "lvl w a = 0 \<or> lvl w a = 1 \<and> st = 0" | (enter) "lvl w a = 2 \<or> lvl w a = 1 \<and> st \<noteq> 0"
    using lvl_cases [of w a] by blast
  then show ?case
  proof cases
    case skip
    have "scan_step h M C (st \<noteq> 0) [a] w w"
      using skip Suc.prems(1,2) lvl_revived [OF Suc.prems(1,2)] lvl_seen [OF Suc.prems(1,2)]
      by (auto simp: scan_step_def)
    moreover have "di_scan_type (Suc n) E di_collect_garbage_scan None st a w = Ret () w"
      using scan_pre_skip [OF Suc.prems(1,2) ob _ _ skip] ca by (simp add: outcome_simps)
    ultimately show ?thesis by blast
  next
    case enter
    define re where "re \<longleftrightarrow> st \<noteq> 0 \<or> C a \<noteq> rc h a"
    obtain w1 where w1: "di_collect_garbage_scan a st w = Ret (if re then 1 else 0) w1" "scan_inv h M C w1"
      "\<And>x. mk w1 x = (if x = a then (if re then 0 else 2) else mk w x)"
      "unreferred_objects w1 = unreferred_objects w" "isolated_roots w1 = isolated_roots w"
      using scan_pre_enter [OF Suc.prems(1,2) ob _ enter re_def] ca by blast
    have h1: "coreh w1 = h" using w1(2) by (simp add: scan_inv_def)
    from coreh_dom [OF h1] Mdom Suc.prems(2) obtain ob1 where ob1: "objs w1 a = Some ob1" by blast
    have mem1: "members ob1 = members ob"
      using coreh_Some [OF ob1] hob h1 by (metis core_simps(1) option.inject)
    have le1: "lvl w1 x \<le> lvl w x" "lvl w1 a < lvl w a" for x
      using enter w1(3) by (auto simp: lvl_def re_def split: if_splits)
    have card1: "sum (lvl w1) M < n"
      using sum_lvl_less [OF fin Suc.prems(2) le1] Suc.prems(3) by simp
    let ?ns = "if re then 1 else 0 :: int"
    let ?J = "\<lambda>xs s. \<exists>ys. succs h a = ys @ xs \<and> scan_step h M C re ys w1 s"
    have "\<exists>s'. scan_members_with (di_scan_type n E di_collect_garbage_scan None ?ns) a (e_fuel E)
        (case members ob of [] \<Rightarrow> None | (k, _) # _ \<Rightarrow> Some k) w1 = Ret () s' \<and> ?J [] s'"
    proof (rule scan_members_rule [where J = ?J and ms = "members ob" and front = "[]"])
      fix x rest s assume "?J (x # rest) s"
      then obtain ys where ys: "succs h a = ys @ x # rest" "scan_step h M C re ys w1 s" by blast
      have x: "x \<in> M" using cl [OF Suc.prems(2)] ys(1) by auto
      have invs: "scan_inv h M C s" using ys(2) by (simp add: scan_step_def)
      have "sum (lvl s) M \<le> sum (lvl w1) M" using ys(2) by (intro sum_mono) (simp add: scan_step_def)
      with card1 have "sum (lvl s) M < n" by simp
      from Suc.IH [OF invs x this, of ?ns] obtain s' where
        s': "di_scan_type n E di_collect_garbage_scan None ?ns x s = Ret () s'" "scan_step h M C re [x] s s'"
        by (auto split: if_splits)
      from scan_step_trans [OF w1(2) ys(2) s'(2)] have "scan_step h M C re (ys @ [x]) w1 s'" .
      with ys(1) s'(1) show "\<exists>s'. di_scan_type n E di_collect_garbage_scan None ?ns x s = Ret () s' \<and> ?J rest s'"
        by (metis append.assoc append_Cons append_Nil)
    next
      fix xs s assume "?J xs s"
      then have hs: "coreh s = h" by (auto simp: scan_step_def scan_inv_def)
      then obtain os where os: "objs s a = Some os" using coreh_dom Mdom Suc.prems(2) by blast
      then have "core os = core ob" using coreh_Some [OF os] hs hob by simp
      then have "members os = members ob" by (metis core_simps(1))
      with os show "\<exists>ob'. objs s a = Some ob' \<and> members ob' = members ob" by blast
    next
      show "?J (concat (map (gc_refs_of \<circ> snd) (members ob))) w1"
        using hob scan_step_refl [OF w1(2)] by (auto simp: succs_def obj_gc_refs_def)
    qed (use gc_heapD [OF heap hob] in simp_all)
    then obtain w2 where w2: "scan_members_with (di_scan_type n E di_collect_garbage_scan None ?ns) a (e_fuel E)
        (case members ob of [] \<Rightarrow> None | (k, _) # _ \<Rightarrow> Some k) w1 = Ret () w2" "scan_step h M C re (succs h a) w1 w2"
      by auto
    have "scan_step h M C (st \<noteq> 0) [a] w w2"
      using scan_step_node [OF Suc.prems(1,2) enter re_def w1(2-5) w2(2)] .
    moreover have "di_scan_type (Suc n) E di_collect_garbage_scan None st a w = Ret () w2"
      using w1(1) ob1 mem1 w2(1) by (auto simp: outcome_simps heap_simps)
    ultimately show ?thesis by blast
  qed
qed

section \<open>The two stages together\<close>

text \<open>
  The objects reachable from the candidate roots; those of them with a reference the
  collector did not come across; and the garbage.
\<close>

definition explored :: "world \<Rightarrow> addr set" where
  "explored w = {x. \<exists>r \<in> set (unreferred_objects w). (r, x) \<in> reach (coreh w)}"

definition held :: "world \<Rightarrow> addr \<Rightarrow> bool" where
  "held w e \<longleftrightarrow> gc_edges (coreh w) (explored w) e < unat (rc (coreh w) e)"

definition garbage :: "world \<Rightarrow> addr set" where
  "garbage w = {x \<in> explored w. \<forall>e \<in> explored w. held w e \<longrightarrow> (e, x) \<notin> reach (coreh w)}"

lemma reach_succ: "(r, x) \<in> reach h \<Longrightarrow> y \<in> set (succs h x) \<Longrightarrow> (r, y) \<in> reach h"
  by (meson reach_refl reach_step reach_trans)

lemma succs_obj: "y \<in> set (succs (coreh w) x) \<Longrightarrow> \<exists>ob. objs w x = Some ob"
  by (cases "objs w x") (simp_all add: succs_def coreh_def)

lemma explored_closed: "x \<in> explored w \<Longrightarrow> set (succs (coreh w) x) \<subseteq> explored w"
  unfolding explored_def using reach_succ by blast

lemma explored_root: "set (unreferred_objects w) \<subseteq> explored w"
  unfolding explored_def using reach_refl by auto

text \<open>The references the collector follows are among those that are counted.\<close>

lemma gc_refs_le: "count_list (gc_refs_of v) a \<le> count_list (refs_of v) a"
proof (induction v)
  case (V_array t vs)
  then show ?case by (induction vs) (auto intro: add_mono)
next
  case (V_tuple vs)
  then show ?case by (induction vs) (auto intro: add_mono)
qed simp_all

lemma obj_gc_refs_le: "count_list (obj_gc_refs ob) a \<le> count_list (obj_refs ob) a"
proof -
  have "count_list (concat (map (gc_refs_of \<circ> snd) ms)) a \<le> count_list (concat (map (refs_of \<circ> snd) ms)) a" for ms :: "(string \<times> di_variant) list"
    by (induction ms) (simp_all add: gc_refs_le add_mono)
  then show ?thesis unfolding obj_gc_refs_def obj_refs_def by (simp add: trans_le_add1)
qed

lemma succs_le: "objs w b = Some ob \<Longrightarrow> count_list (succs (coreh w) b) a \<le> count_list (obj_refs ob) a"
  using obj_gc_refs_le [of ob a] by (simp add: succs_def coreh_Some)

lemma gc_edges_le:
  assumes "finite (dom (objs w))" and "A \<subseteq> dom (objs w)"
  shows "gc_edges (coreh w) A a \<le> strong_in (objs w) a"
proof -
  have "gc_edges (coreh w) A a \<le> (\<Sum>b \<in> A. count_list (obj_refs (the (objs w b))) a)"
    unfolding gc_edges_def using assms(2) succs_le by (intro sum_mono) force
  also have "\<dots> \<le> strong_in (objs w) a"
    unfolding count_in_def using assms by (intro sum_mono2) auto
  finally show ?thesis .
qed

lemma succs_dom:
  assumes "heap_ok B ext wext w"
  shows "set (succs (coreh w) x) \<subseteq> dom (objs w)"
proof
  fix y assume y: "y \<in> set (succs (coreh w) x)"
  then obtain ob where ob: "objs w x = Some ob" using succs_obj by blast
  have "0 < count_list (succs (coreh w) x) y" using y count_list_0_iff by (metis gr0I)
  then have "0 < count_list (obj_refs ob) y" using succs_le [OF ob, of y] by simp
  then have "y \<in> set (obj_refs ob)" using count_list_0_iff [of "obj_refs ob" y] by auto
  then have "strong_in (objs w) y \<noteq> 0" using count_in_zero [OF heap_okD(1) [OF assms], of obj_refs y] ob by blast
  with heap_okD(5) [OF assms, of y] show "y \<in> dom (objs w)" by auto
qed

lemma gc_heap_of_heap_ok:
  assumes ok: "heap_ok B ext wext w" and mb: "members_bound f w"
  shows "gc_heap f (coreh w)"
  unfolding gc_heap_def
proof (intro conjI allI impI)
  show "finite (dom (coreh w))" using heap_okD(1) [OF ok] by simp
next
  fix a ob assume "coreh w a = Some ob"
  then obtain o1 where o1: "objs w a = Some o1" "ob = core o1" by (auto simp: coreh_def)
  from succs_dom [OF ok, of a] o1 show "set (obj_gc_refs ob) \<subseteq> dom (coreh w)" by (simp add: succs_def coreh_Some)
  from mb o1 show "length (members ob) \<le> f" by (simp add: members_bound_def)
  from heap_okD(4) [OF ok o1(1)] o1(2)
  show "distinct (hash_keys (members ob))" "\<forall>p \<in> set (members ob). wt_value (snd p)" by (simp_all add: obj_ok_def)
qed

lemma explored_counts:
  assumes ok: "heap_ok B ext wext w" and x: "x \<in> explored w"
  shows "x \<in> dom (objs w)" and "rc (coreh w) x \<noteq> 0"
proof -
  have *: "x \<in> dom (objs w) \<and> rc (coreh w) x \<noteq> 0"
  proof (cases "x \<in> set (unreferred_objects w)")
    case True
    with heap_okD(3) [OF ok] obtain ob where "objs w x = Some ob" "ref_count ob \<noteq> 0"
      unfolding lists_ok_def by auto
    then show ?thesis by (auto simp: rc_def coreh_Some)
  next
    case False
    with x obtain r where "(r, x) \<in> reach (coreh w)" "r \<noteq> x" by (auto simp: explored_def)
    then obtain y where y: "x \<in> set (succs (coreh w) y)"
      unfolding reach_def by (auto elim: rtranclE)
    with succs_dom [OF ok, of y] obtain ox where ox: "objs w x = Some ox" by auto
    from y obtain oy where oy: "objs w y = Some oy" using succs_obj by blast
    have "0 < count_list (obj_refs oy) x"
      using y succs_le [OF oy, of x] count_list_0_iff [of "succs (coreh w) y" x] by linarith
    then have "strong_in (objs w) x \<noteq> 0"
      using count_in_zero [OF heap_okD(1) [OF ok], of obj_refs x] oy count_list_0_iff [of "obj_refs oy" x] by auto
    then have "ref_count ox \<noteq> 0" using heap_okD(4) [OF ok ox] by (auto simp: obj_ok_def)
    with ox show ?thesis by (auto simp: rc_def coreh_Some)
  qed
  then show "x \<in> dom (objs w)" "rc (coreh w) x \<noteq> 0" by blast+
qed

lemma succs_live:
  assumes ok: "heap_ok B ext wext w" and "y \<in> set (succs (coreh w) x)"
  shows "rc (coreh w) y \<noteq> 0"
proof -
  from assms(2) obtain ox where ox: "objs w x = Some ox" using succs_obj by blast
  have "0 < count_list (obj_refs ox) y"
    using assms(2) succs_le [OF ox, of y] count_list_0_iff [of "succs (coreh w) x" y] by linarith
  then have nz: "strong_in (objs w) y \<noteq> 0"
    using count_in_zero [OF heap_okD(1) [OF ok], of obj_refs y] ox count_list_0_iff [of "obj_refs ox" y] by auto
  from succs_dom [OF ok, of x] assms(2) obtain oy where oy: "objs w y = Some oy" by auto
  with nz heap_okD(4) [OF ok oy] show ?thesis by (auto simp: rc_def coreh_Some obj_ok_def)
qed

lemma reach_live: "heap_ok B ext wext w \<Longrightarrow> (r, x) \<in> reach (coreh w) \<Longrightarrow> rc (coreh w) r \<noteq> 0 \<Longrightarrow> rc (coreh w) x \<noteq> 0"
  unfolding reach_def by (erule rtranclE) (auto dest: succs_live)

lemma rc_live: "rc (coreh w) a \<noteq> 0 \<longleftrightarrow> a \<in> live w"
  by (auto simp: rc_def live_def coreh_def split: option.splits)

lemma unat_rc:
  assumes ok: "heap_ok B ext wext w" and x: "x \<in> dom (objs w)"
  shows "unat (rc (coreh w) x) = strong_in (objs w) x + ext x"
proof -
  from x obtain ob where ob: "objs w x = Some ob" by auto
  with heap_okD(4) [OF ok ob] show ?thesis by (simp add: rc_def coreh_Some obj_ok_def)
qed

lemma gc_count:
  assumes ok: "heap_ok B ext wext w" and A: "A \<subseteq> dom (objs w)" and x: "x \<in> dom (objs w)"
  shows "unat (of_nat (gc_edges (coreh w) A x) :: u64) = gc_edges (coreh w) A x"
    and "of_nat (gc_edges (coreh w) A x) \<le> rc (coreh w) x"
    and "of_nat (gc_edges (coreh w) A x) \<noteq> rc (coreh w) x \<longleftrightarrow> gc_edges (coreh w) A x < unat (rc (coreh w) x)"
proof -
  have le: "gc_edges (coreh w) A x \<le> unat (rc (coreh w) x)"
    using gc_edges_le [OF heap_okD(1) [OF ok] A, of x] unat_rc [OF ok x] by simp
  also have "\<dots> < 2 ^ 64" using unsigned_less [of "rc (coreh w) x"] by simp
  finally show u: "unat (of_nat (gc_edges (coreh w) A x) :: u64) = gc_edges (coreh w) A x"
    by (simp add: unat_of_nat)
  show "of_nat (gc_edges (coreh w) A x) \<le> rc (coreh w) x" unfolding word_le_nat_alt u by (rule le)
  show "of_nat (gc_edges (coreh w) A x) \<noteq> rc (coreh w) x \<longleftrightarrow> gc_edges (coreh w) A x < unat (rc (coreh w) x)"
    using le u word_unat_eq_iff by (metis le_neq_implies_less less_irrefl)
qed

text \<open>The second loop, over the isolated roots.\<close>

lemma scan_roots:
  assumes heap: "gc_heap (e_fuel E) h" and fin: "finite M" and Mdom: "M \<subseteq> dom h"
    and cl: "\<And>x. x \<in> M \<Longrightarrow> set (succs h x) \<subseteq> M"
    and cnt: "\<And>x. x \<in> M \<Longrightarrow> rc h x \<noteq> 0 \<and> C x \<le> rc h x"
    and fuel: "2 * card (dom h) < e_fuel E" and inv: "scan_inv h M C w" and sub: "set xs \<subseteq> M"
  shows "\<exists>w'. mforeach (di_scan_type (e_fuel E) E di_collect_garbage_scan None 0) xs w = Ret () w' \<and>
    scan_step h M C False xs w w'"
proof -
  let ?J = "\<lambda>zs s. \<exists>ys. xs = ys @ zs \<and> scan_step h M C False ys w s"
  have bound: "sum (lvl s) M < e_fuel E" for s
  proof -
    have "sum (lvl s) M \<le> sum (\<lambda>_. 2) M" by (intro sum_mono) (simp add: lvl_def)
    also have "\<dots> \<le> 2 * card (dom h)"
      using heap Mdom by (simp add: gc_heap_def card_mono)
    finally show ?thesis using fuel by simp
  qed
  have "\<exists>w'. mforeach (di_scan_type (e_fuel E) E di_collect_garbage_scan None 0) xs w = Ret () w' \<and> ?J [] w'"
  proof (rule mforeach_rule [where I = ?J])
    fix x rest s assume "?J (x # rest) s"
    then obtain ys where ys: "xs = ys @ x # rest" "scan_step h M C False ys w s" by blast
    then have "scan_inv h M C s" "x \<in> M" using sub by (auto simp: scan_step_def)
    from scan_visit [OF heap fin Mdom cl cnt this bound, of 0] obtain s' where
      s': "di_scan_type (e_fuel E) E di_collect_garbage_scan None 0 x s = Ret () s'" "scan_step h M C False [x] s s'"
      by auto
    from scan_step_trans [OF inv ys(2) s'(2)] ys(1) s'(1)
    show "\<exists>s'. di_scan_type (e_fuel E) E di_collect_garbage_scan None 0 x s = Ret () s' \<and> ?J rest s'"
      by (metis append.assoc append_Cons append_Nil)
  qed (use scan_step_refl [OF inv] in auto)
  then show ?thesis by auto
qed

text \<open>The marks at the end.\<close>

lemma scan_result:
  assumes inv: "scan_inv h M C w" and all1: "\<And>x. x \<in> M \<Longrightarrow> mk w x = 1"
    and cl: "\<And>x. x \<in> M \<Longrightarrow> set (succs h x) \<subseteq> M"
    and st: "scan_step h M C False rs w w'" and cov: "\<And>x. x \<in> M \<Longrightarrow> \<exists>r \<in> set rs. (r, x) \<in> reach h"
    and nz: "rc h x \<noteq> 0"
  shows "mk w' x = (if x \<in> M \<and> (\<forall>e \<in> M. C e \<noteq> rc h e \<longrightarrow> (e, x) \<notin> reach h) then 2 else 0)"
proof -
  have inv': "scan_inv h M C w'" using st by (simp add: scan_step_def)
  have z: "revived M w = {}" "seen M w = {}" using all1 by (auto simp: revived_def seen_def)
  have sc: "set (succs h y) \<subseteq> seen M w'" if "y \<in> seen M w'" for y
    using st that z by (auto simp: scan_step_def)
  have rcl: "set (succs h y) \<subseteq> revived M w'" if "y \<in> revived M w'" for y
    using st that z by (auto simp: scan_step_def)
  have seen: "y \<in> seen M w'" if y: "y \<in> M" for y
  proof -
    from cov [OF y] obtain r where "r \<in> set rs" "(r, y) \<in> reach h" by blast
    then show ?thesis using reach_closed [of r y h "seen M w'"] sc st by (auto simp: scan_step_def)
  qed
  have base: "e \<in> revived M w'" if "e \<in> M" "C e \<noteq> rc h e" for e
    using seen [OF that(1)] that inv' by (auto simp: scan_inv_def seen_def revived_def)
  show ?thesis
  proof (cases "x \<in> M")
    case False
    then show ?thesis using inv' nz by (auto simp: scan_inv_def)
  next
    case True
    have "x \<in> revived M w' \<longleftrightarrow> (\<exists>e \<in> M. C e \<noteq> rc h e \<and> (e, x) \<in> reach h)"
    proof
      assume "x \<in> revived M w'"
      with st z show "\<exists>e \<in> M. C e \<noteq> rc h e \<and> (e, x) \<in> reach h" by (auto simp: scan_step_def)
    next
      assume "\<exists>e \<in> M. C e \<noteq> rc h e \<and> (e, x) \<in> reach h"
      then obtain e where e: "e \<in> M" "C e \<noteq> rc h e" "(e, x) \<in> reach h" by blast
      from reach_closed [OF e(3) base [OF e(1,2)] rcl] show "x \<in> revived M w'" .
    qed
    moreover have "mk w' x = 0 \<or> mk w' x = 2"
      using seen [OF True] inv' True by (auto simp: scan_inv_def seen_def)
    ultimately show ?thesis using True by (auto simp: revived_def)
  qed
qed

text \<open>The collector starts on a heap whose live objects have their collector fields clear.\<close>

definition gc_clean :: "world \<Rightarrow> bool" where
  "gc_clean w \<longleftrightarrow> (\<forall>a ob. objs w a = Some ob \<longrightarrow> ref_count ob \<noteq> 0 \<longrightarrow> mark ob = 0 \<and> ref_count_scan ob = 0)"

lemma gc_cleanD: "gc_clean w \<Longrightarrow> rc (coreh w) a \<noteq> 0 \<Longrightarrow> mk w a = 0 \<and> sc w a = 0"
  by (auto simp: gc_clean_def rc_def coreh_def mk_def sc_def split: option.splits)

lemma heap_ok_mk: "heap_ok B ext wext w \<Longrightarrow> mk w a \<in> {0, 2, 3}"
  using heap_okD(4) [of B ext wext w a] by (auto simp: mk_def obj_ok_def split: option.splits)

text \<open>The counts of the first stage are zero on what it did not mark.\<close>

lemma mark_inv_counts:
  assumes "mark_inv h U w" and "x \<notin> marked w" and "rc h x \<noteq> 0"
  shows "sc w x = 0"
proof -
  have "gc_edges h (marked w) x = 0"
    unfolding gc_edges_def using assms(1,2) by (intro sum.neutral) (auto simp: mark_inv_def count_list_0_iff)
  with assms show ?thesis by (simp add: mark_inv_def)
qed

lemma mark_all:
  assumes ok: "heap_ok {} ext wext w" and clean: "gc_clean w" and iso: "isolated_roots w = []"
    and mb: "members_bound (e_fuel E) w" and fuel: "2 * card (dom (objs w)) < e_fuel E"
  shows "\<exists>w'. gc_mark_roots (e_fuel E) E w = Ret () w' \<and> mark_inv (coreh w) (set (unreferred_objects w)) w' \<and>
    unreferred_objects w' = [] \<and> marked w' = explored w"
proof -
  let ?h = "coreh w" and ?U = "set (unreferred_objects w)"
  have "mk w x \<noteq> 1" for x using heap_ok_mk [OF ok, of x] by auto
  then have m0: "marked w = {}" by (simp add: marked_def)
  have roots_rc: "rc ?h x \<noteq> 0" if "x \<in> ?U" for x using explored_counts(2) [OF ok] explored_root [of w] that by auto
  have quiet: "mk w x = 0 \<or> rc ?h x = 0 \<and> mk w x \<in> {2, 3}" for x
    using heap_ok_mk [OF ok, of x] gc_cleanD [OF clean, of x] by auto
  have init: "mark_inv ?h ?U w"
    unfolding mark_inv_def m0 using gc_cleanD [OF clean] iso roots_rc quiet
    by (auto simp: gc_edges_def intro: reach_refl)
  have len: "length (unreferred_objects w) \<le> e_fuel E"
  proof -
    have "length (unreferred_objects w) = card ?U"
      using heap_okD(3) [OF ok] by (simp add: lists_ok_def distinct_card)
    also have "\<dots> \<le> card (dom (objs w))"
      using explored_counts(1) [OF ok] explored_root [of w] heap_okD(1) [OF ok] by (intro card_mono) auto
    finally show ?thesis using fuel by simp
  qed
  have fuel1: "card (dom ?h) < e_fuel E" using fuel by simp
  obtain w1 where w1: "gc_mark_roots (e_fuel E) E w = Ret () w1" "mark_inv ?h ?U w1" "unreferred_objects w1 = []"
    using mark_roots [OF gc_heap_of_heap_ok [OF ok mb] fuel1 init len] by blast
  have cl: "\<And>x. x \<in> marked w1 \<Longrightarrow> set (succs ?h x) \<subseteq> marked w1" using w1(2) by (auto simp: mark_inv_def)
  have "marked w1 = explored w"
  proof
    show "marked w1 \<subseteq> explored w" using w1(2) by (auto simp: mark_inv_def explored_def)
    show "explored w \<subseteq> marked w1"
      using w1(2,3) reach_closed [OF _ _ cl] by (auto simp: mark_inv_def explored_def)
  qed
  with w1 show ?thesis by blast
qed

theorem find_garbage_ok:
  assumes ok: "heap_ok {} ext wext w" and clean: "gc_clean w" and iso: "isolated_roots w = []"
    and mb: "members_bound (e_fuel E) w" and fuel: "2 * card (dom (objs w)) < e_fuel E"
  shows "\<exists>w'. gc_find_garbage E w = Ret () w' \<and> coreh w' = coreh w \<and> unreferred_objects w' = [] \<and>
    (\<forall>a. mk w' a \<in> {0, 2, 3}) \<and>
    (\<forall>a. rc (coreh w) a \<noteq> 0 \<longrightarrow> mk w' a = (if a \<in> garbage w then 2 else 0) \<and> (a \<notin> garbage w \<longrightarrow> sc w' a = 0)) \<and>
    set (isolated_roots w') \<subseteq> explored w \<and> sorted_wrt (\<lambda>x y. (y, x) \<notin> reach (coreh w)) (isolated_roots w') \<and>
    (\<forall>x \<in> explored w. \<exists>r \<in> set (isolated_roots w'). (r, x) \<in> reach (coreh w))"
proof -
  let ?h = "coreh w" and ?U = "set (unreferred_objects w)"
  note heap = gc_heap_of_heap_ok [OF ok mb]
  from mark_all [OF assms] obtain w1 where w1: "gc_mark_roots (e_fuel E) E w = Ret () w1" "mark_inv ?h ?U w1"
    "unreferred_objects w1 = []" and ME: "marked w1 = explored w" by blast
  let ?M = "marked w1" and ?C = "\<lambda>x. of_nat (gc_edges ?h (marked w1) x) :: u64"
  have cl: "\<And>x. x \<in> ?M \<Longrightarrow> set (succs ?h x) \<subseteq> ?M" using w1(2) by (auto simp: mark_inv_def)
  have Mdom: "?M \<subseteq> dom (objs w)" using explored_counts(1) [OF ok] ME by blast
  have fin: "finite ?M" using Mdom heap_okD(1) [OF ok] by (rule finite_subset)
  have cnt: "rc ?h x \<noteq> 0 \<and> ?C x \<le> rc ?h x" if "x \<in> ?M" for x
    using explored_counts(2) [OF ok, of x] gc_count(2) [OF ok Mdom, of x] Mdom ME that by auto
  have inv: "scan_inv ?h ?M ?C w1"
    using w1(2) cnt mark_inv_counts [OF w1(2)] unfolding scan_inv_def mark_inv_def by (auto simp: marked_def)
  have sub: "set (isolated_roots w1) \<subseteq> ?M" using w1(2) by (simp add: mark_inv_def)
  obtain w2 where w2: "mforeach (di_scan_type (e_fuel E) E di_collect_garbage_scan None 0) (isolated_roots w1) w1 = Ret () w2"
    "scan_step ?h ?M ?C False (isolated_roots w1) w1 w2"
    using scan_roots [OF heap fin _ cl cnt _ inv sub] Mdom fuel by auto
  have inv2: "scan_inv ?h ?M ?C w2" using w2(2) by (simp add: scan_step_def)
  have mk2: "mk w2 a = (if a \<in> garbage w then 2 else 0)" if nz: "rc ?h a \<noteq> 0" for a
  proof -
    have "mk w2 a = (if a \<in> ?M \<and> (\<forall>e \<in> ?M. ?C e \<noteq> rc ?h e \<longrightarrow> (e, a) \<notin> reach ?h) then 2 else 0)"
      by (rule scan_result [OF inv _ cl w2(2) _ nz]) (use w1(2) in \<open>auto simp: mark_inv_def marked_def\<close>)
    moreover have "?C e \<noteq> rc ?h e \<longleftrightarrow> held w e" if "e \<in> ?M" for e
      using gc_count(3) [OF ok Mdom, of e] Mdom that unfolding held_def ME by blast
    ultimately show ?thesis unfolding garbage_def ME by auto
  qed
  moreover have "sc w2 a = 0" if "rc ?h a \<noteq> 0" "a \<notin> garbage w" for a
    using inv2 mk2 [OF that(1)] that by (cases "a \<in> ?M") (auto simp: scan_inv_def)
  moreover have "mk w2 a \<in> {0, 2, 3}" for a
    using mk2 [of a] inv2 cnt [of a] by (cases "a \<in> ?M") (auto simp: scan_inv_def)
  moreover have "coreh w2 = ?h" "unreferred_objects w2 = []" "isolated_roots w2 = isolated_roots w1"
    using w2(2) w1(3) by (simp_all add: scan_step_def scan_inv_def)
  moreover have "gc_find_garbage E w = Ret () w2"
    using w1(1) w2(1) by (simp add: gc_find_garbage_def gc_scan_roots_def outcome_simps)
  ultimately show ?thesis using w1(2) unfolding mark_inv_def ME by auto
qed

text \<open>Nothing outside the garbage refers to it.\<close>

lemma garbage_unreferenced:
  assumes ok: "heap_ok {} ext wext w" and z: "z \<in> garbage w" and yz: "z \<in> set (succs (coreh w) y)"
  shows "y \<in> garbage w"
proof (rule ccontr)
  assume y: "y \<notin> garbage w"
  have zE: "z \<in> explored w" using z by (simp add: garbage_def)
  have zd: "z \<in> dom (objs w)" by (rule explored_counts(1) [OF ok zE])
  have Ed: "explored w \<subseteq> dom (objs w)" using explored_counts(1) [OF ok] by blast
  from yz obtain oy where oy: "objs w y = Some oy" using succs_obj by blast
  show False
  proof (cases "y \<in> explored w")
    case True
    with y obtain e where e: "e \<in> explored w" "held w e" "(e, y) \<in> reach (coreh w)" by (auto simp: garbage_def)
    have "(y, z) \<in> reach (coreh w)" using yz reach_refl by (rule reach_step)
    with e z reach_trans show False by (auto simp: garbage_def)
  next
    case False
    have fin: "finite (explored w)" using Ed heap_okD(1) [OF ok] by (rule finite_subset)
    have "gc_edges (coreh w) (insert y (explored w)) z = count_list (succs (coreh w) y) z + gc_edges (coreh w) (explored w) z"
      unfolding gc_edges_def using fin False by simp
    moreover have "gc_edges (coreh w) (insert y (explored w)) z \<le> strong_in (objs w) z"
      using gc_edges_le [OF heap_okD(1) [OF ok]] Ed oy by blast
    moreover have "0 < count_list (succs (coreh w) y) z" using yz count_list_0_iff by (metis gr0I)
    ultimately have "held w z" using unat_rc [OF ok zd] by (simp add: held_def)
    with z zE reach_refl show False by (auto simp: garbage_def)
  qed
qed

lemma garbage_reach:
  assumes ok: "heap_ok {} ext wext w" and r: "(a, x) \<in> reach (coreh w)"
  shows "x \<in> garbage w \<Longrightarrow> a \<in> garbage w"
  using r unfolding reach_def
  by (induction rule: rtrancl_induct) (use garbage_unreferenced [OF ok] in auto)

lemma garbage_not_ext:
  assumes ok: "heap_ok {} ext wext w" and a: "a \<in> garbage w"
  shows "ext a = 0"
proof -
  have aE: "a \<in> explored w" using a by (simp add: garbage_def)
  have ad: "a \<in> dom (objs w)" by (rule explored_counts(1) [OF ok aE])
  have "\<not> held w a" using a aE reach_refl by (auto simp: garbage_def)
  moreover have "gc_edges (coreh w) (explored w) a \<le> strong_in (objs w) a"
    using gc_edges_le [OF heap_okD(1) [OF ok]] explored_counts(1) [OF ok] by blast
  ultimately show ?thesis using unat_rc [OF ok ad] by (simp add: held_def)
qed

end
