(* ===== verification/Deai_Gc_Collect.thy ===== *)
theory Deai_Gc_Collect
  imports Deai_Gc_Scan
begin

text \<open>
  The third stage of the collector, and the collector as a whole: the garbage is finalized one isolated root at a time, every garbage
  object dies, nothing else changes but for the references the garbage held.
\<close>

section \<open>What dropping a reference leaves alone\<close>

text \<open>
  \<open>stays w w'\<close>: no object appears, members only disappear, dead objects stay dead, the collector's fields are kept, and an object
  leaves the isolated roots only by dying.
\<close>

definition obj_stays :: "di_object_internal \<Rightarrow> di_object_internal \<Rightarrow> bool" where
  "obj_stays ob ob' \<longleftrightarrow> mark ob' = mark ob \<and> ref_count_scan ob' = ref_count_scan ob \<and> payload ob' = payload ob \<and>
     set (members ob') \<subseteq> set (members ob) \<and> ref_count ob' \<le> ref_count ob"

definition roots_stay :: "world \<Rightarrow> world \<Rightarrow> bool" where
  "roots_stay w w' \<longleftrightarrow> subseq (isolated_roots w') (isolated_roots w) \<and>
     (\<forall>c \<in> set (isolated_roots w). c \<in> live w' \<longrightarrow> c \<in> set (isolated_roots w'))"

definition stays :: "world \<Rightarrow> world \<Rightarrow> bool" where
  "stays w w' \<longleftrightarrow> (\<forall>c ob'. objs w' c = Some ob' \<longrightarrow> (\<exists>ob. objs w c = Some ob \<and> obj_stays ob ob')) \<and> roots_stay w w'"

lemma obj_stays_refl: "obj_stays ob ob"
  by (simp add: obj_stays_def)

lemma obj_stays_trans: "obj_stays ob1 ob2 \<Longrightarrow> obj_stays ob2 ob3 \<Longrightarrow> obj_stays ob1 ob3"
  by (auto simp: obj_stays_def)

lemma stays_refl: "stays w w"
  by (auto simp: stays_def roots_stay_def obj_stays_refl)

lemma reflp_stays: "reflp stays"
  by (rule reflpI) (rule stays_refl)

lemma stays_live: "stays w w' \<Longrightarrow> live w' \<subseteq> live w"
  by (fastforce simp: stays_def obj_stays_def live_def)

lemma stays_trans: "stays w1 w2 \<Longrightarrow> stays w2 w3 \<Longrightarrow> stays w1 w3"
proof -
  assume s: "stays w1 w2" "stays w2 w3"
  then have "live w3 \<subseteq> live w2" by (simp add: stays_live)
  with s show ?thesis
    unfolding stays_def roots_stay_def by (meson obj_stays_trans subseq_order.order_trans subsetD)
qed

lemma transp_stays: "transp stays"
  by (rule transpI) (rule stays_trans)

lemma stays_upd:
  assumes "objs w a = Some ob" and "obj_stays ob ob'" and "objs w' = (objs w)(a := Some ob')" and "isolated_roots w' = isolated_roots w"
  shows "stays w w'"
  using assms by (auto simp: stays_def roots_stay_def obj_stays_refl)

lemma stays_free:
  assumes "objs w' = (objs w)(a := None)" and "isolated_roots w' = isolated_roots w"
  shows "stays w w'"
  using assms by (auto simp: stays_def roots_stay_def obj_stays_refl split: if_splits)

lemma stays_same:
  assumes "objs w' = objs w" and "isolated_roots w' = isolated_roots w"
  shows "stays w w'"
  using assms by (auto simp: stays_def roots_stay_def obj_stays_refl)

text \<open>
  A set \<open>T\<close> of live objects that only objects of \<open>T\<close> and of \<open>Q\<close> refer to, where the objects of \<open>Q\<close> do not die meanwhile, loses
  nothing when a reference to an object outside of \<open>T\<close> is dropped.
\<close>

definition closed_for :: "addr set \<Rightarrow> addr set \<Rightarrow> world \<Rightarrow> bool" where
  "closed_for T Q w \<longleftrightarrow> (\<forall>y oy. objs w y = Some oy \<longrightarrow> y \<notin> T \<union> Q \<longrightarrow> set (obj_refs oy) \<inter> T = {})"

definition spared :: "addr set \<Rightarrow> world \<Rightarrow> world \<Rightarrow> bool" where
  "spared T w w' \<longleftrightarrow> (\<forall>c \<in> T. \<forall>ob. objs w c = Some ob \<longrightarrow>
     (\<exists>ob'. objs w' c = Some ob' \<and> members ob' = members ob \<and> ref_count ob' = ref_count ob))"

definition spares :: "addr set \<Rightarrow> addr set \<Rightarrow> world \<Rightarrow> world \<Rightarrow> bool" where
  "spares T Q w w' \<longleftrightarrow> stays w w' \<and> (Q \<subseteq> live w' \<longrightarrow> T \<subseteq> live w \<longrightarrow> closed_for T Q w \<longrightarrow> spared T w w')"

lemma spared_refl: "spared T w w"
  by (simp add: spared_def)

lemma spared_trans: "spared T w1 w2 \<Longrightarrow> spared T w2 w3 \<Longrightarrow> spared T w1 w3"
  unfolding spared_def by metis

lemma spared_live: "spared T w w' \<Longrightarrow> T \<subseteq> live w \<Longrightarrow> T \<subseteq> live w'"
  unfolding spared_def live_def by (smt (verit) mem_Collect_eq subset_iff)

lemma stays_closed:
  assumes "stays w w'" and "closed_for T Q w"
  shows "closed_for T Q w'"
  unfolding closed_for_def
proof (intro allI impI)
  fix y oy assume y: "objs w' y = Some oy" "y \<notin> T \<union> Q"
  with assms(1) obtain ob where ob: "objs w y = Some ob" "obj_stays ob oy" by (auto simp: stays_def)
  then have "set (obj_refs oy) \<subseteq> set (obj_refs ob)" by (auto simp: obj_stays_def obj_refs_def)
  with ob(1) y(2) assms(2) show "set (obj_refs oy) \<inter> T = {}" by (auto simp: closed_for_def)
qed

lemma spares_refl: "spares T Q w w"
  by (simp add: spares_def stays_refl spared_refl)

lemma spares_trans:
  assumes "spares T Q w1 w2" and "spares T Q w2 w3"
  shows "spares T Q w1 w3"
proof -
  have s: "stays w1 w2" "stays w2 w3" using assms by (simp_all add: spares_def)
  then have "Q \<subseteq> live w3 \<Longrightarrow> Q \<subseteq> live w2" using stays_live by blast
  with assms s show ?thesis
    unfolding spares_def using stays_trans [OF s] stays_closed [OF s(1)] spared_live spared_trans by metis
qed

lemma spares_order: "reflp (spares T Q)" "transp (spares T Q)"
  by (rule reflpI, rule spares_refl) (rule transpI, rule spares_trans)

text \<open>Partial correctness along the recursion, for any relation that is reflexive and transitive.\<close>

lemma mforeach_rel:
  assumes refl: "reflp R" and trans: "transp R"
    and step: "\<And>x w w'. x \<in> set xs \<Longrightarrow> f x w = Ret () w' \<Longrightarrow> R w w'"
  shows "mforeach f xs w = Ret () w' \<Longrightarrow> R w w'"
  using step
proof (induction xs arbitrary: w)
  case Nil
  then show ?case using reflpD [OF refl] by (simp add: outcome_simps)
next
  case (Cons x xs)
  from Cons.prems(1) obtain w1 where "f x w = Ret () w1" "mforeach f xs w1 = Ret () w'" by (auto simp: mseq_eq_Ret)
  with Cons.IH [of w1] Cons.prems(2) transpD [OF trans] show ?case by (meson list.set_intros)
qed

lemma free_value_rel:
  assumes refl: "reflp R" and trans: "transp R"
    and weak: "\<And>x w w'. di_drop_weak_ref x w = Ret () w' \<Longrightarrow> R w w'"
  shows "(\<And>x w w'. x \<in> set (refs_of v) \<Longrightarrow> u x w = Ret () w' \<Longrightarrow> R w w') \<Longrightarrow> free_value_with u v w = Ret () w' \<Longrightarrow> R w w'"
proof (induction v arbitrary: w w')
  case (V_array t vs)
  have "R s s'" if "x \<in> set vs" "free_value_with u x s = Ret () s'" for x s s'
    by (rule V_array.IH [OF that(1) V_array.prems(1) that(2)]) (use that(1) in auto)
  then have "R w w'" if "mforeach (free_value_with u) vs w = Ret () w'"
    using mforeach_rel [of R, OF refl trans _ that] by blast
  with V_array.prems(2) reflpD [OF refl] show ?case by (auto simp: outcome_simps split: if_splits option.splits)
next
  case (V_tuple vs)
  have "R s s'" if "x \<in> set vs" "free_value_with u x s = Ret () s'" for x s s'
    by (rule V_tuple.IH [OF that(1) V_tuple.prems(1) that(2)]) (use that(1) in auto)
  then show ?case using mforeach_rel [of R, OF refl trans, of vs "free_value_with u"] V_tuple.prems(2) by auto
qed (use reflpD [OF refl] weak in \<open>auto simp: outcome_simps\<close>)

lemma weak_dec_spares: "di_decrement_weak_ref_count a w = Ret () w' \<Longrightarrow> spares T Q w w'"
proof -
  assume run: "di_decrement_weak_ref_count a w = Ret () w'"
  then obtain ob where ob: "objs w a = Some ob"
    by (cases "objs w a") (auto simp: di_decrement_weak_ref_count_def mseq_def mbind_def heap_simps)
  let ?ob = "ob\<lparr>weak_ref_count := weak_ref_count ob - 1\<rparr>"
  show ?thesis
  proof (cases "weak_ref_count ob - 1 = 0")
    case True
    with run ob have w': "w' = w\<lparr>objs := (objs w)(a := None)\<rparr>" and z: "ref_count ob = 0"
      by (auto simp: di_decrement_weak_ref_count_def outcome_simps heap_simps mseq_def mbind_def split: if_splits)
    have "stays w w'" by (rule stays_free [where a = a]) (simp_all add: w')
    moreover have "a \<notin> T" if "T \<subseteq> live w" using that z ob by (auto simp: live_def)
    ultimately show ?thesis by (auto simp: spares_def spared_def w')
  next
    case False
    with run ob have w': "w' = w\<lparr>objs := (objs w)(a := Some ?ob)\<rparr>"
      by (simp add: di_decrement_weak_ref_count_def outcome_simps heap_simps mseq_def mbind_def)
    have "stays w w'" using ob by (rule stays_upd [where ob' = ?ob]) (simp_all add: w' obj_stays_def)
    then show ?thesis using ob by (auto simp: spares_def spared_def w')
  qed
qed

definition unref_spares :: "addr set \<Rightarrow> addr set \<Rightarrow> (addr \<Rightarrow> unit M) \<Rightarrow> bool" where
  "unref_spares T Q u \<longleftrightarrow> (\<forall>x w w'. u x w = Ret () w' \<longrightarrow> stays w w' \<and> (x \<notin> T \<longrightarrow> spares T Q w w'))"

lemma free_value_spares:
  assumes u: "unref_spares T Q u" and run: "free_value_with u v w = Ret () w'"
  shows "stays w w' \<and> (set (refs_of v) \<inter> T = {} \<longrightarrow> spares T Q w w')"
proof (intro conjI impI)
  show "stays w w'"
    by (rule free_value_rel [of stays, OF reflp_stays transp_stays _ _ run])
      (use u in \<open>auto simp: unref_spares_def di_drop_weak_ref_def dest: weak_dec_spares [of _ _ _ T Q] simp: spares_def\<close>)
  show "spares T Q w w'" if "set (refs_of v) \<inter> T = {}"
    by (rule free_value_rel [of "spares T Q", OF spares_order _ _ run])
      (use u that in \<open>auto simp: unref_spares_def di_drop_weak_ref_def dest: weak_dec_spares\<close>)
qed

lemma remove_member_spares:
  assumes "objs w a = Some ob" and "w' = w\<lparr>objs := (objs w)(a := Some (ob\<lparr>members := hash_del k (members ob)\<rparr>))\<rparr>"
  shows "stays w w'" and "a \<notin> T \<Longrightarrow> spares T Q w w'"
proof -
  show "stays w w'"
    using assms(1) by (rule stays_upd) (use set_hash_del [of k "members ob"] in \<open>auto simp: assms(2) obj_stays_def\<close>)
  then show "spares T Q w w'" if "a \<notin> T" using that assms by (auto simp: spares_def spared_def)
qed

text \<open>The references an object has left are among those it had.\<close>

lemma stays_refs:
  assumes "stays w w'" and "objs w' a = Some ob'" and "objs w a = Some ob"
  shows "set (obj_refs ob') \<subseteq> set (obj_refs ob)"
  using assms by (fastforce simp: stays_def obj_stays_def obj_refs_def)

lemma finalize_loop_spares:
  assumes u: "unref_spares T Q u"
  shows "finalize_loop u a n k w = Ret () w' \<Longrightarrow>
    stays w w' \<and> (a \<notin> T \<longrightarrow> (\<forall>ob. objs w a = Some ob \<longrightarrow> set (obj_refs ob) \<inter> T = {}) \<longrightarrow> spares T Q w w')"
proof (induction n arbitrary: w k)
  case 0
  then show ?case by (cases k) (auto simp: outcome_simps stays_refl spares_refl)
next
  case (Suc n)
  show ?case
  proof (cases k)
    case None
    with Suc.prems show ?thesis by (auto simp: outcome_simps stays_refl spares_refl)
  next
    case (Some key)
    from Suc.prems Some obtain ob v where ob: "objs w a = Some ob" "hash_find key (members ob) = Some v"
      by (auto simp: mbind_eq_Ret get_obj_def outcome_simps split: option.splits)
    let ?w = "w\<lparr>objs := (objs w)(a := Some (ob\<lparr>members := hash_del key (members ob)\<rparr>))\<rparr>"
    from Suc.prems Some ob obtain w2 where w2: "free_value_with u v ?w = Ret () w2"
      "finalize_loop u a n (hash_next key (members ob)) w2 = Ret () w'"
      by (auto simp: mbind_Ret mseq_eq_Ret heap_simps Let_def)
    note rm = remove_member_spares [OF ob(1) refl, where k = key]
    note fv = free_value_spares [OF u w2(1)]
    note ih = Suc.IH [OF w2(2)]
    have st: "stays w w2" using rm(1) fv stays_trans by blast
    have "spares T Q w w'" if a: "a \<notin> T" and r: "set (obj_refs ob) \<inter> T = {}"
    proof -
      have "set (refs_of v) \<subseteq> set (obj_refs ob)" using hash_find_Some_mem [OF ob(2)] by (force simp: obj_refs_def)
      moreover have "set (obj_refs ob2) \<inter> T = {}" if "objs w2 a = Some ob2" for ob2
        using stays_refs [OF st that ob(1)] r by blast
      ultimately show ?thesis using rm(2) [OF a, of Q] fv ih a r spares_trans by blast
    qed
    then show ?thesis using ob(1) st ih stays_trans by auto
  qed
qed

lemma spares_upd:
  assumes "objs w a = Some ob" and "obj_stays ob ob'" and "objs w' = (objs w)(a := Some ob')" and "isolated_roots w' = isolated_roots w"
    and "a \<in> T \<Longrightarrow> members ob' = members ob \<and> ref_count ob' = ref_count ob"
  shows "spares T Q w w'"
  using stays_upd [OF assms(1-4)] assms by (auto simp: spares_def spared_def)

lemma spares_same: "objs w' = objs w \<Longrightarrow> isolated_roots w' = isolated_roots w \<Longrightarrow> spares T Q w w'"
  using stays_same [of w' w] by (auto simp: spares_def spared_def)

lemma finalize_inner_spares:
  assumes E: "dtors_neutral E" and u: "unref_spares T Q u" and run: "finalize_object_inner_with E u a w = Ret () w'"
    and ob: "objs w a = Some ob"
  shows "stays w w' \<and> (a \<notin> T \<longrightarrow> set (obj_refs ob) \<inter> T = {} \<longrightarrow> spares T Q w w')"
proof -
  have "\<exists>w1 ob1. objs w1 a = Some ob1 \<and> members ob1 = members ob \<and> payload ob1 = payload ob \<and> spares T Q w w1 \<and>
    finalize_loop u a (e_fuel E) (case members ob of [] \<Rightarrow> None | (k, _) # _ \<Rightarrow> Some k) w1 = Ret () w'"
  proof (cases "dtor ob")
    case None
    with run ob spares_refl show ?thesis
      by (intro exI [of _ w] exI [of _ ob]) (auto simp: finalize_object_inner_with_def outcome_simps heap_simps)
  next
    case (Some f)
    let ?ob = "ob\<lparr>dtor := None\<rparr>"
    let ?w = "w\<lparr>objs := (objs w)(a := Some ?ob)\<rparr>"
    from E obtain w1 where w1: "e_dtor E f a ?w = Ret () w1" "objs w1 = objs ?w" "isolated_roots w1 = isolated_roots ?w"
      unfolding dtors_neutral_def by blast
    have "spares T Q w w1"
      using ob by (rule spares_upd [where ob' = ?ob]) (simp_all add: w1 obj_stays_def)
    with run ob w1 Some show ?thesis
      by (intro exI [of _ w1] exI [of _ ?ob]) (auto simp: finalize_object_inner_with_def outcome_simps heap_simps)
  qed
  then obtain w1 ob1 where w1: "objs w1 a = Some ob1" "members ob1 = members ob" "payload ob1 = payload ob" "spares T Q w w1"
    "finalize_loop u a (e_fuel E) (case members ob of [] \<Rightarrow> None | (k, _) # _ \<Rightarrow> Some k) w1 = Ret () w'" by blast
  have "stays w w1" using w1(4) by (simp add: spares_def)
  moreover have "obj_refs ob1 = obj_refs ob" using w1(2,3) by (simp add: obj_refs_def)
  ultimately show ?thesis
    using finalize_loop_spares [OF u w1(5)] w1(1,4) stays_trans spares_trans by (metis option.inject)
qed

lemma destroy_spares:
  assumes E: "dtors_neutral E" and u: "unref_spares T Q u" and run: "destroy_object_with E u a w = Ret () w'"
    and ob: "objs w a = Some ob"
  shows "ref_count ob = 0 \<and> stays w w' \<and> (a \<notin> T \<longrightarrow> set (obj_refs ob) \<inter> T = {} \<longrightarrow> spares T Q w w')"
proof -
  let ?ob = "ob\<lparr>destroyed := True\<rparr>"
  let ?h = "(objs w)(a := Some ?ob)"
  have z: "ref_count ob = 0" using run ob by (auto simp: destroy_object_with_def mbind_Ret mseq_eq_Ret heap_simps outcome_simps split: if_splits)
  define w1 where "w1 = (if destroyed ob then w\<lparr>effects := effects w @ [Log_error ''warning: destroy object multiple times'']\<rparr> else w)
    \<lparr>objs := ?h\<rparr>"
  have "\<exists>w2. finalize_object_inner_with E u a w1 = Ret () w2 \<and> di_decrement_weak_ref_count a w2 = Ret () w'"
    using run ob z by (auto simp: w1_def destroy_object_with_def mbind_Ret mseq_eq_Ret heap_simps outcome_simps split: if_splits)
  then obtain w2 where w1: "objs w1 = ?h" "isolated_roots w1 = isolated_roots w"
    "finalize_object_inner_with E u a w1 = Ret () w2" "di_decrement_weak_ref_count a w2 = Ret () w'"
    by (auto simp: w1_def)
  have 1: "spares T Q w w1" using ob by (rule spares_upd [where ob' = ?ob]) (simp_all add: w1 obj_stays_def)
  have ob1: "objs w1 a = Some ?ob" by (simp add: w1)
  have "obj_refs ?ob = obj_refs ob" by (simp add: obj_refs_def)
  with finalize_inner_spares [OF E u w1(3) ob1] weak_dec_spares [OF w1(4), of T Q] 1 z show ?thesis
    by (metis spares_def spares_trans stays_trans)
qed

lemma sib_del_stays:
  assumes "w' = w\<lparr>unreferred_objects := us, isolated_roots := removeAll a (isolated_roots w)\<rparr>" and "a \<notin> live w"
  shows "stays w w'"
proof -
  have "subseq (removeAll a xs) xs" for xs :: "addr list" by (simp add: removeAll_filter_not_eq)
  then show ?thesis using assms by (auto simp: stays_def roots_stay_def obj_stays_refl live_def)
qed

lemma unref_fuel_spares:
  assumes E: "dtors_neutral E"
  shows "unref_spares T Q (unref_object_fuel n E)"
proof (induction n)
  case 0
  then show ?case by (simp add: unref_spares_def outcome_simps)
next
  case (Suc n)
  show ?case
    unfolding unref_spares_def
  proof (intro allI impI)
    fix a w w' assume run: "unref_object_fuel (Suc n) E a w = Ret () w'"
    then obtain ob where ob: "objs w a = Some ob" by (cases "objs w a") (auto simp: mbind_def heap_simps)
    with run have pos: "ref_count ob > 0" by (auto simp: mbind_Ret heap_simps mseq_eq_Ret outcome_simps split: if_splits)
    let ?ob = "ob\<lparr>ref_count := ref_count ob - 1\<rparr>"
    let ?w = "w\<lparr>objs := (objs w)(a := Some ?ob)\<rparr>"
    have st: "obj_stays ob ?ob" using pos by (simp add: obj_stays_def word_dec_le word_gt_0)
    have 1: "stays w ?w" "a \<notin> T \<Longrightarrow> spares T Q w ?w"
      using stays_upd [OF ob st] spares_upd [OF ob st, of ?w T Q] by simp_all
    show "stays w w' \<and> (a \<notin> T \<longrightarrow> spares T Q w w')"
    proof (cases "ref_count ob - 1 = 0")
      case False
      with run ob have "objs w' = objs ?w \<and> isolated_roots w' = isolated_roots ?w"
        by (auto simp: mbind_Ret heap_simps mseq_eq_Ret outcome_simps split: if_splits)
      then have "spares T Q ?w w'" "stays ?w w'" by (simp_all add: spares_same stays_same)
      with 1 show ?thesis using stays_trans spares_trans by blast
    next
      case True
      define w2 where w2_def: "w2 = ?w\<lparr>unreferred_objects := removeAll a (unreferred_objects ?w), isolated_roots := removeAll a (isolated_roots ?w)\<rparr>"
      have w2: "destroy_object_with E (unref_object_fuel n E) a w2 = Ret () w'"
        using True run ob by (auto simp: w2_def mbind_Ret heap_simps mseq_eq_Ret outcome_simps sib_list_del_init_def split: if_splits)
      have dead: "a \<notin> live ?w" using True by (simp add: live_def)
      have st2: "stays ?w w2" by (rule sib_del_stays [OF w2_def dead])
      have ob2: "objs w2 a = Some ?ob" by (simp add: w2_def)
      note d = destroy_spares [OF E Suc.IH w2 ob2]
      have stw: "stays w w'" using 1(1) st2 d stays_trans by blast
      have "spares T Q w w'" if a: "a \<notin> T"
        unfolding spares_def
      proof (intro conjI impI)
        assume q: "Q \<subseteq> live w'" "T \<subseteq> live w" "closed_for T Q w"
        have "stays ?w w'" using st2 d stays_trans by blast
        then have "a \<notin> Q" using q(1) dead stays_live by blast
        then have "set (obj_refs ob) \<inter> T = {}" using q(3) a ob unfolding closed_for_def by blast
        then have "spares T Q w2 w'" using d a by (simp add: obj_refs_def)
        moreover have "spares T Q ?w w2" using st2 by (auto simp: spares_def spared_def w2_def)
        ultimately have "spares T Q w w'" using 1(2) [OF a] spares_trans by blast
        with q show "spared T w w'" by (simp add: spares_def)
      qed (rule stw)
      with stw show ?thesis by blast
    qed
  qed
qed

section \<open>Finalizing an object that is held\<close>

lemma finalize_held:
  assumes E: "dtors_neutral E" and ok: "heap_ok {} ext wext w" and held: "0 < ext a" and ob: "objs w a = Some ob"
    and pin: "pinned ext w" and fuel: "enough_fuel E w"
  shows "\<exists>w' ob'. di_finalize_object E a w = Ret () w' \<and> heap_ok {} ext wext w' \<and> shrinks_on {a} w w' \<and>
    objs w' a = Some ob' \<and> members ob' = [] \<and> stays w w' \<and>
    (\<forall>T Q. a \<notin> T \<longrightarrow> set (obj_refs ob) \<inter> T = {} \<longrightarrow> spares T Q w w')"
proof -
  let ?ob = "ob\<lparr>dtor := None\<rparr>"
  let ?w = "w\<lparr>objs := (objs w)(a := Some ?ob)\<rparr>"
  have "\<exists>w1. (case dtor ob of None \<Rightarrow> mret () | Some f \<Rightarrow> mseq (upd_obj a (\<lambda>ob. ob\<lparr>dtor := None\<rparr>)) (e_dtor E f a)) w = Ret () w1 \<and>
    objs w1 = objs ?w \<and> unreferred_objects w1 = unreferred_objects w \<and> isolated_roots w1 = isolated_roots w"
  proof (cases "dtor ob")
    case None
    then have "?ob = ob" by simp
    then have "objs ?w = objs w" using ob by auto
    with None show ?thesis by (auto simp: outcome_simps)
  next
    case (Some f)
    from E obtain w1 where "e_dtor E f a ?w = Ret () w1" "objs w1 = objs ?w"
      "unreferred_objects w1 = unreferred_objects ?w" "isolated_roots w1 = isolated_roots ?w"
      unfolding dtors_neutral_def by blast
    with Some ob show ?thesis by (auto simp: outcome_simps heap_simps)
  qed
  then obtain w1 where w1: "(case dtor ob of None \<Rightarrow> mret () | Some f \<Rightarrow> mseq (upd_obj a (\<lambda>ob. ob\<lparr>dtor := None\<rparr>)) (e_dtor E f a)) w = Ret () w1"
    "objs w1 = (objs w)(a := Some ?ob)" "unreferred_objects w1 = unreferred_objects w" "isolated_roots w1 = isolated_roots w" by auto
  have ok1: "heap_ok {} ext wext w1"
    by (rule heap_ok_exchange [OF ok ob w1(2)])
      (use heap_okD(4) [OF ok ob] w1(3,4) in \<open>auto simp: obj_refs_def obj_weak_refs_def obj_ok_def\<close>)
  have sh1: "shrinks w w1" by (rule shrinks_upd [OF ob w1(2)]) (simp add: obj_shrinks_def)
  have ob1: "objs w1 a = Some ?ob" by (simp add: w1(2))
  note f1 = enough_fuel_shrinks [OF sh1 ok fuel, unfolded enough_fuel_def]
  from f1 ob1 have len: "length (members ob) \<le> e_fuel E" by (force simp: members_bound_def)
  from finalize_loop_ok [OF unref_fuel_ok [OF E, of "e_fuel E"] _ ok1 ob1 shrinks_pinned [OF sh1 pin], of "e_fuel E"] f1 held len
  obtain w' ob' where w': "finalize_loop (unref_object_fuel (e_fuel E) E) a (e_fuel E)
      (case members ob of [] \<Rightarrow> None | (k, _) # _ \<Rightarrow> Some k) w1 = Ret () w'"
    "heap_ok {} ext wext w'" "shrinks_on {a} w1 w'" "objs w' a = Some ob'" "members ob' = []" by auto
  have run: "finalize_object_inner_with E (unref_object_fuel (e_fuel E) E) a w = Ret () w'"
    using ob w1(1) ob1 w'(1) by (simp add: finalize_object_inner_with_def mbind_Ret mseq_Ret heap_simps)
  note sp = finalize_inner_spares [OF E unref_fuel_spares [OF E] run ob]
  have "shrinks_on {a} w w'" using sh1 w'(3) by (meson empty_subsetI shrinks_mono shrinks_trans)
  then show ?thesis
    using run w'(2,4,5) sp by (auto simp: di_finalize_object_def di_unref_object_def [abs_def])
qed

lemma held_live: "heap_ok B ext wext w \<Longrightarrow> 0 < ext a \<Longrightarrow> a \<in> live w"
  by (erule heap_ok_ext_obj) (auto simp: live_def)

section \<open>Stage three\<close>

text \<open>
  The garbage that has not been visited yet; \<open>P\<close> are the objects whose members are being visited.  Only these two kinds of object
  refer to the garbage.
\<close>

definition fresh :: "world \<Rightarrow> addr set" where
  "fresh w = {x. \<exists>ob. objs w x = Some ob \<and> ref_count ob \<noteq> 0 \<and> mark ob = 2}"

abbreviation with_stack :: "(addr \<Rightarrow> nat) \<Rightarrow> addr set \<Rightarrow> addr \<Rightarrow> nat" where
  "with_stack ext P \<equiv> \<lambda>a. ext a + (if a \<in> P then 1 else 0)"

definition garbage_obj :: "(addr \<Rightarrow> nat) \<Rightarrow> addr set \<Rightarrow> world \<Rightarrow> addr \<Rightarrow> di_object_internal \<Rightarrow> bool" where
  "garbage_obj ext P w x ob \<longleftrightarrow> ext x = 0 \<and> (mark ob = 3 \<longrightarrow> x \<in> P \<or> members ob = []) \<and>
     (mark ob = 2 \<longrightarrow> unat (ref_count ob) + 1 < 2 ^ 64) \<and>
     (\<forall>y oy. objs w y = Some oy \<longrightarrow> x \<in> set (obj_refs oy) \<longrightarrow> (y \<in> fresh w \<or> y \<in> P) \<and> x \<in> set (obj_gc_refs oy))"

definition fin_inv :: "env \<Rightarrow> (addr \<Rightarrow> nat) \<Rightarrow> (addr \<Rightarrow> nat) \<Rightarrow> addr set \<Rightarrow> world \<Rightarrow> bool" where
  "fin_inv E ext wext P w \<longleftrightarrow> heap_ok {} (with_stack ext P) wext w \<and> pinned ext w \<and> enough_fuel E w \<and>
     (\<forall>p \<in> P. mk w p = 3) \<and>
     (\<forall>x ob. objs w x = Some ob \<longrightarrow> ref_count ob \<noteq> 0 \<longrightarrow> mark ob \<noteq> 0 \<longrightarrow> garbage_obj ext P w x ob)"

text \<open>What a visit does.\<close>

definition obj_fin :: "di_object_internal \<Rightarrow> di_object_internal \<Rightarrow> bool" where
  "obj_fin ob ob' \<longleftrightarrow> payload ob' = payload ob \<and> ref_count_scan ob' = ref_count_scan ob \<and> set (members ob') \<subseteq> set (members ob) \<and>
     (mark ob' = mark ob \<or> mark ob = 2 \<and> mark ob' = 3) \<and> (ref_count ob = 0 \<longrightarrow> ref_count ob' = 0) \<and>
     (mark ob' \<noteq> 3 \<longrightarrow> ref_count ob' \<le> ref_count ob) \<and> (ref_count ob' \<noteq> 0 \<longrightarrow> mark ob = 0 \<longrightarrow> members ob' = members ob)"

definition visits :: "addr \<Rightarrow> di_object_internal \<Rightarrow> world \<Rightarrow> bool" where
  "visits c ob w' \<longleftrightarrow>
     (if c \<in> fresh w' then \<exists>ob'. objs w' c = Some ob' \<and> members ob' = members ob else set (obj_gc_refs ob) \<inter> fresh w' = {})"

definition fin_step :: "addr set \<Rightarrow> addr set \<Rightarrow> world \<Rightarrow> world \<Rightarrow> bool" where
  "fin_step X P w w' \<longleftrightarrow>
     (\<forall>c ob'. objs w' c = Some ob' \<longrightarrow> (\<exists>ob. objs w c = Some ob \<and> obj_fin ob ob')) \<and>
     (\<forall>p \<in> P. \<forall>ob. objs w p = Some ob \<longrightarrow> (\<exists>ob'. objs w' p = Some ob' \<and> members ob' = members ob)) \<and>
     (\<forall>c \<in> fresh w - X. \<forall>ob. objs w c = Some ob \<longrightarrow> visits c ob w') \<and> roots_stay w w'"

lemma fin_step_refl: "fin_step X P w w"
  by (auto simp: fin_step_def obj_fin_def visits_def roots_stay_def)

lemma fin_step_fresh: "fin_step X P w w' \<Longrightarrow> fresh w' \<subseteq> fresh w"
  unfolding fin_step_def obj_fin_def fresh_def by fastforce

lemma fin_step_live: "fin_step X P w w' \<Longrightarrow> live w' \<subseteq> live w"
  unfolding fin_step_def obj_fin_def live_def by fastforce

lemma fin_step_mono: "fin_step X P w w' \<Longrightarrow> X \<subseteq> Y \<Longrightarrow> R \<subseteq> P \<Longrightarrow> fin_step Y R w w'"
  unfolding fin_step_def by blast

lemma fin_stepD:
  assumes "fin_step X P w w'"
  shows "objs w' c = Some ob' \<Longrightarrow> \<exists>ob. objs w c = Some ob \<and> obj_fin ob ob'"
    and "c \<in> fresh w - X \<Longrightarrow> objs w c = Some ob \<Longrightarrow> visits c ob w'" and "roots_stay w w'"
  using assms unfolding fin_step_def by blast+

lemma obj_fin_trans:
  assumes "obj_fin ob1 ob2" and "obj_fin ob2 ob3"
  shows "obj_fin ob1 ob3"
proof -
  have m: "mark ob2 = mark ob1 \<or> mark ob1 = 2 \<and> mark ob2 = 3" "mark ob3 = mark ob2 \<or> mark ob2 = 2 \<and> mark ob3 = 3"
    using assms by (simp_all add: obj_fin_def)
  then have "mark ob3 = mark ob1 \<or> mark ob1 = 2 \<and> mark ob3 = 3" by auto
  moreover have "ref_count ob3 \<le> ref_count ob1" if "mark ob3 \<noteq> 3"
  proof -
    have "mark ob2 \<noteq> 3" using m(2) that by auto
    with assms that have "ref_count ob3 \<le> ref_count ob2" "ref_count ob2 \<le> ref_count ob1" by (simp_all add: obj_fin_def)
    then show ?thesis by simp
  qed
  moreover have "members ob3 = members ob1" if "ref_count ob3 \<noteq> 0" "mark ob1 = 0"
  proof -
    have "mark ob2 = 0" "ref_count ob2 \<noteq> 0" using m(1) that assms(2) by (auto simp: obj_fin_def)
    with that assms show ?thesis by (simp add: obj_fin_def)
  qed
  moreover have "payload ob3 = payload ob1" "ref_count_scan ob3 = ref_count_scan ob1" "ref_count ob1 = 0 \<Longrightarrow> ref_count ob3 = 0"
    using assms by (simp_all add: obj_fin_def)
  moreover have "set (members ob3) \<subseteq> set (members ob1)" using assms unfolding obj_fin_def by blast
  ultimately show ?thesis unfolding obj_fin_def by blast
qed

lemma fin_step_trans:
  assumes s1: "fin_step X P w1 w2" and s2: "fin_step X P w2 w3"
  shows "fin_step X P w1 w3"
proof -
  have fr: "fresh w2 \<subseteq> fresh w1" "fresh w3 \<subseteq> fresh w2" and lv: "live w3 \<subseteq> live w2"
    using fin_step_fresh [OF s1] fin_step_fresh [OF s2] fin_step_live [OF s2] by auto
  have "visits c ob w3" if c: "c \<in> fresh w1 - X" "objs w1 c = Some ob" for c ob
  proof (cases "c \<in> fresh w2")
    case True
    with s1 c have "visits c ob w2" by (auto simp: fin_step_def)
    with True obtain ob2 where ob2: "objs w2 c = Some ob2" "members ob2 = members ob" by (auto simp: visits_def)
    with s2 True c have "visits c ob2 w3" by (auto simp: fin_step_def)
    moreover have "obj_gc_refs ob2 = obj_gc_refs ob" using ob2(2) by (simp add: obj_gc_refs_def)
    ultimately show ?thesis using ob2(2) by (cases "c \<in> fresh w3") (simp_all add: visits_def)
  next
    case False
    from s1 c have "visits c ob w2" by (auto simp: fin_step_def)
    with False have "set (obj_gc_refs ob) \<inter> fresh w2 = {}" by (simp add: visits_def)
    with False fr(2) show ?thesis by (auto simp: visits_def)
  qed
  moreover have "roots_stay w1 w3"
    using s1 s2 lv unfolding fin_step_def roots_stay_def by (meson subseq_order.order_trans subsetD)
  moreover have "\<exists>ob. objs w1 c = Some ob \<and> obj_fin ob ob'" if "objs w3 c = Some ob'" for c ob'
    using s1 s2 that obj_fin_trans unfolding fin_step_def by meson
  moreover have "\<exists>ob'. objs w3 p = Some ob' \<and> members ob' = members ob" if "p \<in> P" "objs w1 p = Some ob" for p ob
    using s1 s2 that unfolding fin_step_def by metis
  ultimately show ?thesis unfolding fin_step_def by blast
qed

lemma fin_invD:
  assumes "fin_inv E ext wext P w"
  shows "heap_ok {} (with_stack ext P) wext w" and "pinned ext w" and "enough_fuel E w" and "p \<in> P \<Longrightarrow> mk w p = 3"
    and "objs w x = Some ob \<Longrightarrow> ref_count ob \<noteq> 0 \<Longrightarrow> mark ob \<noteq> 0 \<Longrightarrow> garbage_obj ext P w x ob"
  using assms by (auto simp: fin_inv_def)

lemma fin_inv_stack:
  assumes "fin_inv E ext wext P w" and "p \<in> P"
  obtains ob where "objs w p = Some ob" and "ref_count ob \<noteq> 0" and "mark ob = 3" and "ext p = 0" and "payload_refs (payload ob) = []"
proof -
  have "0 < with_stack ext P p" using assms(2) by simp
  from heap_ok_ext_obj [OF fin_invD(1) [OF assms(1)] this] obtain ob where ob: "objs w p = Some ob" "ref_count ob \<noteq> 0" by blast
  have m: "mark ob = 3" using fin_invD(4) [OF assms] ob by (simp add: mk_def)
  then have e: "ext p = 0" using fin_invD(5) [OF assms(1) ob] by (simp add: garbage_obj_def)
  moreover have "payload_refs (payload ob) = []" using fin_invD(2) [OF assms(1)] ob(1) e unfolding pinned_def by fastforce
  ultimately show ?thesis using that ob m by blast
qed

text \<open>Entering an object: it is held, and it is marked as visited.\<close>

lemma fin_enter:
  assumes inv: "fin_inv E ext wext P w" and ob: "objs w a = Some ob" "ref_count ob \<noteq> 0" "mark ob = 2"
  shows "\<exists>w1 ob1. di_collect_garbage_collect_pre a st w = Ret 0 w1 \<and> fin_inv E ext wext (insert a P) w1 \<and> fin_step {a} P w w1 \<and>
    fresh w1 = fresh w - {a} \<and> objs w1 a = Some ob1 \<and> members ob1 = members ob"
proof -
  note ok = fin_invD(1) [OF inv] and g = fin_invD(5) [OF inv ob(1,2), unfolded garbage_obj_def]
  note oka = heap_okD(4) [OF ok ob(1), unfolded obj_ok_def]
  have aP: "a \<notin> P" using fin_invD(4) [OF inv, of a] ob by (auto simp: mk_def)
  let ?ob = "ob\<lparr>ref_count := ref_count ob + 1, mark := 3\<rparr>"
  let ?w = "w\<lparr>objs := (objs w)(a := Some ?ob)\<rparr>"
  have room: "unat (ref_count ob) + 1 < 2 ^ 64" using g ob(3) by simp
  then have inc: "unat (ref_count ob + 1) = unat (ref_count ob) + 1" by (intro unat_inc) simp
  then have nz: "ref_count ob + 1 \<noteq> 0" by (metis add_is_0 one_neq_zero unat_0)
  have run: "di_collect_garbage_collect_pre a st w = Ret 0 ?w"
    using ob by (simp add: di_collect_garbage_collect_pre_def di_ref_object_def outcome_simps heap_simps)
  have fr: "fresh ?w = fresh w - {a}" by (auto simp: fresh_def split: if_splits)
  have lists: "lists_ok ?w" using heap_okD(3) [OF ok] nz by (auto simp: lists_ok_def split: if_splits)
  have ok1: "heap_ok {} (with_stack ext (insert a P)) wext ?w"
    by (rule heap_ok_upd [OF ok ob(1) _ _ _ lists, where ob' = ?ob]) (use oka inc nz aP ob in \<open>auto simp: obj_ok_def\<close>)
  have live: "live ?w = live w" using nz ob by (auto simp: live_def split: if_splits)
  have mb: "members_bound (e_fuel E) ?w"
    using fin_invD(3) [OF inv] ob(1) by (auto simp: enough_fuel_def members_bound_def)
  have pin: "pinned ext ?w" using fin_invD(2) [OF inv] ob(1) by (auto simp: pinned_def)
  have "garbage_obj ext (insert a P) ?w x ox" if x: "objs ?w x = Some ox" "ref_count ox \<noteq> 0" "mark ox \<noteq> 0" for x ox
  proof -
    from x ob have "\<exists>ox0. objs w x = Some ox0 \<and> ref_count ox0 \<noteq> 0 \<and> mark ox0 \<noteq> 0 \<and> (x = a \<or> ox0 = ox)" by (auto split: if_splits)
    then obtain ox0 where ox0: "objs w x = Some ox0" "ref_count ox0 \<noteq> 0" "mark ox0 \<noteq> 0" "x = a \<or> ox0 = ox" by blast
    from fin_invD(5) [OF inv ox0(1-3)] have gx: "garbage_obj ext P w x ox0" .
    have "(y \<in> fresh ?w \<or> y \<in> insert a P) \<and> x \<in> set (obj_gc_refs oy)" if y: "objs ?w y = Some oy" "x \<in> set (obj_refs oy)" for y oy
    proof -
      from y ob have "\<exists>oy0. objs w y = Some oy0 \<and> obj_refs oy0 = obj_refs oy \<and> obj_gc_refs oy0 = obj_gc_refs oy"
        by (auto simp: obj_refs_def obj_gc_refs_def split: if_splits)
      with gx y(2) have "(y \<in> fresh w \<or> y \<in> P) \<and> x \<in> set (obj_gc_refs oy)" by (metis garbage_obj_def)
      with fr show ?thesis by auto
    qed
    with gx ox0(4) x(1) show ?thesis by (auto simp: garbage_obj_def split: if_splits)
  qed
  then have "fin_inv E ext wext (insert a P) ?w"
    using ok1 pin mb live fin_invD(3,4) [OF inv] by (auto simp: fin_inv_def enough_fuel_def mk_def)
  moreover have "fin_step {a} P w ?w"
    using ob aP by (auto simp: fin_step_def obj_fin_def visits_def fr roots_stay_def)
  ultimately show ?thesis using run fr by auto
qed

text \<open>Leaving it: it is finalized and no longer held.\<close>

lemma fin_leave_inv:
  assumes inv: "fin_inv E ext wext (insert a P) s" and aP: "a \<notin> P" and ok': "heap_ok {} (with_stack ext P) wext s'"
    and st: "stays s s'" and sh: "shrinks_on {a} s s'" and sp: "spared (fresh s) s s'"
    and gone: "\<And>ob'. objs s' a = Some ob' \<Longrightarrow> members ob' = []"
  shows "fin_inv E ext wext P s'" and "fin_step {} P s s'" and "fresh s' = fresh s"
proof -
  have fr: "fresh s' = fresh s"
  proof
    show "fresh s' \<subseteq> fresh s" using st by (fastforce simp: fresh_def stays_def obj_stays_def)
    show "fresh s \<subseteq> fresh s'"
    proof
      fix x assume "x \<in> fresh s"
      then obtain ob where ob: "objs s x = Some ob" "ref_count ob \<noteq> 0" "mark ob = 2" "x \<in> fresh s" by (auto simp: fresh_def)
      with sp obtain ob' where ob': "objs s' x = Some ob'" "ref_count ob' = ref_count ob" unfolding spared_def by blast
      with st ob(1) have "mark ob' = mark ob" by (fastforce simp: stays_def obj_stays_def)
      with ob ob' show "x \<in> fresh s'" by (simp add: fresh_def)
    qed
  qed
  then show "fresh s' = fresh s" .
  have old: "\<exists>ob. objs s c = Some ob \<and> obj_stays ob ob' \<and> obj_shrinks (c \<in> {a}) ob ob'" if "objs s' c = Some ob'" for c ob'
    using st sh that unfolding stays_def shrinks_on_def by (metis option.inject)
  have keepP: "members ob' = members ob" if "p \<in> P" "objs s' p = Some ob'" "objs s p = Some ob" for p ob ob'
  proof -
    have "ref_count ob' \<noteq> 0" using heap_ok_ext_obj [OF ok', of p] that(1,2) by auto
    with old [OF that(2)] that aP show ?thesis by (auto simp: obj_shrinks_def)
  qed
  have aux: "garbage_obj ext P s' x ob'" if x: "objs s' x = Some ob'" "ref_count ob' \<noteq> 0" "mark ob' \<noteq> 0" for x ob'
  proof -
    from old [OF x(1)] obtain ob where ob: "objs s x = Some ob" "obj_stays ob ob'" by blast
    then have al: "ref_count ob \<noteq> 0" "mark ob \<noteq> 0" using x(2,3) by (auto simp: obj_stays_def)
    note g = fin_invD(5) [OF inv ob(1) al, unfolded garbage_obj_def]
    have "(y \<in> fresh s' \<or> y \<in> P) \<and> x \<in> set (obj_gc_refs oy')" if y: "objs s' y = Some oy'" "x \<in> set (obj_refs oy')" for y oy'
    proof -
      from old [OF y(1)] obtain oy where oy: "objs s y = Some oy" "obj_stays oy oy'" by blast
      have "x \<in> set (obj_refs oy)" using stays_refs [OF st y(1) oy(1)] y(2) by blast
      with g oy(1) have r: "y \<in> fresh s \<or> y \<in> insert a P" "x \<in> set (obj_gc_refs oy)" by blast+
      have na: "y \<noteq> a"
      proof
        assume "y = a"
        then have "members oy' = []" "payload_refs (payload oy') = []"
          using gone y(1) fin_inv_stack [OF inv, of a] oy by (auto simp: obj_stays_def)
        with y(2) show False by (simp add: obj_refs_def)
      qed
      have "members oy' = members oy"
        using r(1) na keepP [OF _ y(1) oy(1)] sp oy(1) y(1) unfolding spared_def by fastforce
      with r na fr show ?thesis by (auto simp: obj_gc_refs_def)
    qed
    moreover have "unat (ref_count ob') \<le> unat (ref_count ob)" using ob(2) by (simp add: obj_stays_def word_le_nat_alt)
    moreover have "x \<in> P \<or> members ob' = []" if "mark ob' = 3"
      using g that ob(2) gone x(1) by (cases "x = a") (auto simp: obj_stays_def)
    ultimately show ?thesis using g ob(2) by (auto simp: garbage_obj_def obj_stays_def)
  qed
  have mk3: "mk s' p = 3" if p: "p \<in> P" for p
  proof -
    from heap_ok_ext_obj [OF ok', of p] p obtain ob' where ob': "objs s' p = Some ob'" by auto
    with old [OF ob'] fin_invD(4) [OF inv, of p] p show ?thesis by (auto simp: mk_def obj_stays_def)
  qed
  have "enough_fuel E s'"
    using fin_invD(3) [OF inv] shrinks_members_bound [OF sh] card_live_shrinks [OF sh fin_invD(1) [OF inv]] by (auto simp: enough_fuel_def)
  with ok' shrinks_pinned [OF sh fin_invD(2) [OF inv]] mk3 aux show "fin_inv E ext wext P s'" unfolding fin_inv_def by blast
  have "visits c ob s'" if "c \<in> fresh s" "objs s c = Some ob" for c ob
  proof -
    from sp that obtain ob' where "objs s' c = Some ob'" "members ob' = members ob" unfolding spared_def by blast
    with that(1) fr show ?thesis by (simp add: visits_def)
  qed
  moreover have "\<exists>ob'. objs s' p = Some ob' \<and> members ob' = members ob" if "p \<in> P" "objs s p = Some ob" for p ob
  proof -
    from heap_ok_ext_obj [OF ok', of p] that(1) obtain ob' where ob': "objs s' p = Some ob'" by auto
    with keepP [OF that(1) ob' that(2)] show ?thesis by blast
  qed
  moreover have "\<exists>ob. objs s c = Some ob \<and> obj_fin ob ob'" if c: "objs s' c = Some ob'" for c ob'
  proof -
    from old [OF c] obtain ob where ob: "objs s c = Some ob" "obj_stays ob ob'" "obj_shrinks (c \<in> {a}) ob ob'" by blast
    have "members ob' = members ob" if m: "ref_count ob' \<noteq> 0" "mark ob = 0"
    proof -
      have "c \<noteq> a" using fin_invD(4) [OF inv, of a] ob(1) m(2) by (auto simp: mk_def)
      with ob(3) m(1) show ?thesis by (simp add: obj_shrinks_def)
    qed
    moreover have "ref_count ob' = 0" if "ref_count ob = 0" using ob(2) that by (simp add: obj_stays_def)
    ultimately have "obj_fin ob ob'" using ob(2) by (simp add: obj_fin_def obj_stays_def)
    with ob(1) show ?thesis by blast
  qed
  ultimately show "fin_step {} P s s'" using st unfolding fin_step_def stays_def by blast
qed

lemma fin_leave:
  assumes E: "dtors_neutral E" and inv: "fin_inv E ext wext (insert a P) s" and aP: "a \<notin> P" and ob: "objs s a = Some ob"
    and vis: "set (obj_gc_refs ob) \<inter> fresh s = {}"
  shows "\<exists>s'. di_collect_garbage_collect_post E a s = Ret () s' \<and> fin_inv E ext wext P s' \<and> fin_step {} P s s' \<and> fresh s' = fresh s"
proof -
  let ?e = "with_stack ext (insert a P)"
  note ok = fin_invD(1) [OF inv] and fuel = fin_invD(3) [OF inv]
  have pin: "pinned ?e s" "pinned (with_stack ext P) s" using fin_invD(2) [OF inv] by (auto elim!: pinned_mono)
  obtain ob0 where "objs s a = Some ob0" "mark ob0 = 3" "payload_refs (payload ob0) = []"
    using fin_inv_stack [OF inv, of a] by auto
  with ob have m3: "mark ob = 3" and pl: "payload_refs (payload ob) = []" by simp_all
  have af: "a \<notin> fresh s" using ob m3 by (simp add: fresh_def)
  have none: "set (obj_refs ob) \<inter> fresh s = {}"
  proof -
    have False if x: "x \<in> set (obj_refs ob)" "x \<in> fresh s" for x
    proof -
      from x(2) obtain ox where ox: "objs s x = Some ox" "ref_count ox \<noteq> 0" "mark ox = 2" by (auto simp: fresh_def)
      with fin_invD(5) [OF inv ox(1,2)] have "garbage_obj ext (insert a P) s x ox" by simp
      then have "x \<in> set (obj_gc_refs ob)" using ob x(1) unfolding garbage_obj_def by blast
      with vis x(2) show False by blast
    qed
    then show ?thesis by blast
  qed
  have cl: "closed_for (fresh s) (insert a P) s"
    unfolding closed_for_def
  proof (intro allI impI equals0I)
    fix y oy x assume y: "objs s y = Some oy" "y \<notin> fresh s \<union> insert a P" and x: "x \<in> set (obj_refs oy) \<inter> fresh s"
    then obtain ox where ox: "objs s x = Some ox" "ref_count ox \<noteq> 0" "mark ox = 2" by (auto simp: fresh_def)
    with fin_invD(5) [OF inv ox(1,2)] have "garbage_obj ext (insert a P) s x ox" by simp
    with x y show False unfolding garbage_obj_def by blast
  qed
  have fl: "fresh s \<subseteq> live s" by (auto simp: fresh_def live_def)
  from finalize_held [OF E ok _ ob pin(1) fuel] obtain s3 ob3 where s3: "di_finalize_object E a s = Ret () s3" "heap_ok {} ?e wext s3"
    "shrinks_on {a} s s3" "objs s3 a = Some ob3" "members ob3 = []" "stays s s3" "spares (fresh s) (insert a P) s s3"
    using af none by auto
  have q3: "insert a P \<subseteq> live s3"
    using held_live [OF s3(2)] by auto
  have sp3: "spared (fresh s) s s3" using s3(7) q3 fl cl by (simp add: spares_def)
  have e: "?e = (with_stack ext P)(a := Suc (with_stack ext P a))" using aP by (auto simp: fun_eq_iff)
  have fuel3: "enough_fuel E s3"
    using fuel shrinks_members_bound [OF s3(3)] card_live_shrinks [OF s3(3) ok] by (auto simp: enough_fuel_def)
  from unref_object_ok [OF E s3(2) [unfolded e] shrinks_pinned [OF s3(3) pin(2)] fuel3] obtain s4 where
    s4: "di_unref_object E a s3 = Ret () s4" "heap_ok {} (with_stack ext P) wext s4" "shrinks s3 s4" by blast
  from unref_fuel_spares [OF E, of "fresh s" P "e_fuel E"] s4(1) af
  have sp4: "stays s3 s4" "spares (fresh s) P s3 s4" by (auto simp: unref_spares_def di_unref_object_def)
  have "closed_for (fresh s) P s3"
    unfolding closed_for_def
  proof (intro allI impI)
    fix y oy assume y: "objs s3 y = Some oy" "y \<notin> fresh s \<union> P"
    show "set (obj_refs oy) \<inter> fresh s = {}"
    proof (cases "y = a")
      case True
      with y s3(4,5) stays_refs [OF s3(6,4) ob] none show ?thesis by auto
    next
      case False
      with stays_closed [OF s3(6) cl] y show ?thesis by (auto simp: closed_for_def)
    qed
  qed
  moreover have "P \<subseteq> live s4" using held_live [OF s4(2)] by auto
  ultimately have "spared (fresh s) s3 s4" using sp4(2) spared_live [OF sp3 fl] by (simp add: spares_def)
  then have sp: "spared (fresh s) s s4" using sp3 spared_trans by blast
  have gone: "members ob' = []" if "objs s4 a = Some ob'" for ob'
    using sp4(1) that s3(4,5) by (fastforce simp: stays_def obj_stays_def)
  have sh: "shrinks_on {a} s s4" using s3(3) s4(3) by (meson empty_subsetI shrinks_mono shrinks_trans)
  have "di_collect_garbage_collect_post E a s = Ret () s4"
    using ob m3 s3(1) s4(1) by (simp add: di_collect_garbage_collect_post_def outcome_simps heap_simps)
  then show ?thesis
    using fin_leave_inv [OF inv aP s4(2) stays_trans [OF s3(6) sp4(1)] sh sp gone] by blast
qed

lemma stack_refs_live:
  assumes "fin_inv E ext wext P w" and "objs w p = Some ob" and "x \<in> set (obj_gc_refs ob)"
  shows "x \<in> live w"
proof -
  have "x \<in> set (succs (coreh w) p)" using assms(2,3) by (simp add: succs_def coreh_Some)
  then show ?thesis using succs_live [OF fin_invD(1) [OF assms(1)]] rc_live by blast
qed

text \<open>One visit, by induction on the depth.\<close>

lemma fin_visit:
  assumes E: "dtors_neutral E"
  shows "fin_inv E ext wext P w \<Longrightarrow> a \<in> live w \<Longrightarrow> card (fresh w) < n \<Longrightarrow>
    \<exists>w'. di_scan_type n E di_collect_garbage_collect_pre (Some (di_collect_garbage_collect_post E)) st a w = Ret () w' \<and>
      fin_inv E ext wext P w' \<and> fin_step {} P w w' \<and> a \<notin> fresh w'"
proof (induction n arbitrary: P w a st)
  case 0
  then show ?case by simp
next
  case (Suc n)
  from Suc.prems(2) obtain ob where ob: "objs w a = Some ob" "ref_count ob \<noteq> 0" by (auto simp: live_def)
  note ok = fin_invD(1) [OF Suc.prems(1)]
  have fin: "finite (fresh w)" by (rule finite_subset [OF _ heap_okD(1) [OF ok]]) (auto simp: fresh_def)
  consider "mark ob = 0 \<or> mark ob = 3" | "mark ob = 2" using heap_okD(4) [OF ok ob(1)] by (auto simp: obj_ok_def)
  then show ?case
  proof cases
    case 1
    then have "di_collect_garbage_collect_pre a st w = Ret (-1) w"
      using ob by (auto simp: di_collect_garbage_collect_pre_def outcome_simps heap_simps)
    moreover have "a \<notin> fresh w" using 1 ob(1) by (auto simp: fresh_def)
    ultimately show ?thesis using Suc.prems(1) fin_step_refl by (auto simp: outcome_simps)
  next
    case 2
    let ?visit = "di_scan_type n E di_collect_garbage_collect_pre (Some (di_collect_garbage_collect_post E)) 0"
    have aP: "a \<notin> P" using fin_invD(4) [OF Suc.prems(1), of a] ob 2 by (auto simp: mk_def)
    from fin_enter [OF Suc.prems(1) ob 2, of st] obtain w1 ob1 where w1: "di_collect_garbage_collect_pre a st w = Ret 0 w1"
      "fin_inv E ext wext (insert a P) w1" "fin_step {a} P w w1" "fresh w1 = fresh w - {a}" "objs w1 a = Some ob1" "members ob1 = members ob"
      by blast
    have "a \<in> fresh w" using ob 2 by (simp add: fresh_def)
    then have card1: "card (fresh w1) < n" using Suc.prems(3) fin w1(4) card_Diff1_less [OF fin, of a] by simp
    let ?J = "\<lambda>xs s. \<exists>ys. obj_gc_refs ob = ys @ xs \<and> fin_inv E ext wext (insert a P) s \<and> fin_step {} (insert a P) w1 s \<and> set ys \<inter> fresh s = {}"
    have keep: "\<exists>ob'. objs s a = Some ob' \<and> members ob' = members ob" if "fin_step {} (insert a P) w1 s" for s
      using that w1(5,6) unfolding fin_step_def by (metis insertI1)
    have "\<exists>s'. scan_members_with ?visit a (e_fuel E) (case members ob of [] \<Rightarrow> None | (k, _) # _ \<Rightarrow> Some k) w1 = Ret () s' \<and> ?J [] s'"
    proof (rule scan_members_rule [where J = ?J and ms = "members ob" and front = "[]"])
      fix x rest s assume "?J (x # rest) s"
      then obtain ys where ys: "obj_gc_refs ob = ys @ x # rest" "fin_inv E ext wext (insert a P) s" "fin_step {} (insert a P) w1 s"
        "set ys \<inter> fresh s = {}" by blast
      from keep [OF ys(3)] obtain os where os: "objs s a = Some os" "members os = members ob" by blast
      have "x \<in> set (obj_gc_refs os)" using ys(1) os(2) by (simp add: obj_gc_refs_def)
      then have xl: "x \<in> live s" by (rule stack_refs_live [OF ys(2) os(1)])
      have "finite (fresh w1)" using fin w1(4) by simp
      then have "card (fresh s) < n" using card1 card_mono [OF _ fin_step_fresh [OF ys(3)]] by simp
      from Suc.IH [OF ys(2) xl this, of 0] obtain s' where s': "?visit x s = Ret () s'" "fin_inv E ext wext (insert a P) s'"
        "fin_step {} (insert a P) s s'" "x \<notin> fresh s'" by blast
      have "set (ys @ [x]) \<inter> fresh s' = {}" using fin_step_fresh [OF s'(3)] ys(4) s'(4) by auto
      with s'(1,2) ys(1) fin_step_trans [OF ys(3) s'(3)] show "\<exists>s'. ?visit x s = Ret () s' \<and> ?J rest s'"
        by (intro exI [of _ s'] conjI exI [of _ "ys @ [x]"]) auto
    next
      fix xs s assume "?J xs s"
      then show "\<exists>ob'. objs s a = Some ob' \<and> members ob' = members ob" using keep by blast
    next
      show "?J (concat (map (gc_refs_of \<circ> snd) (members ob))) w1" using w1(2) fin_step_refl by (auto simp: obj_gc_refs_def)
      show "length (members ob) \<le> e_fuel E"
        using fin_invD(3) [OF Suc.prems(1)] ob(1) by (auto simp: enough_fuel_def members_bound_def)
    qed (use heap_okD(4) [OF ok ob(1)] in \<open>simp_all add: obj_ok_def\<close>)
    then obtain s2 where s2: "scan_members_with ?visit a (e_fuel E) (case members ob of [] \<Rightarrow> None | (k, _) # _ \<Rightarrow> Some k) w1 = Ret () s2"
      "fin_inv E ext wext (insert a P) s2" "fin_step {} (insert a P) w1 s2" "set (obj_gc_refs ob) \<inter> fresh s2 = {}" by auto
    from keep [OF s2(3)] obtain ob2 where ob2: "objs s2 a = Some ob2" "members ob2 = members ob" by blast
    have "set (obj_gc_refs ob2) \<inter> fresh s2 = {}" using s2(4) ob2(2) by (simp add: obj_gc_refs_def)
    from fin_leave [OF E s2(2) aP ob2(1) this] obtain s4 where s4: "di_collect_garbage_collect_post E a s2 = Ret () s4"
      "fin_inv E ext wext P s4" "fin_step {} P s2 s4" "fresh s4 = fresh s2" by blast
    have "fin_step {a} P w1 s2" "fin_step {a} P s2 s4" using s2(3) s4(3) by (auto elim: fin_step_mono)
    with w1(3) have st: "fin_step {a} P w s4" using fin_step_trans by blast
    have na: "a \<notin> fresh s4" using fin_step_fresh [OF s2(3)] w1(4) s4(4) by auto
    then have "visits a ob s4" using s2(4) s4(4) by (simp add: visits_def)
    with st ob(1) have "fin_step {} P w s4" unfolding fin_step_def by auto
    moreover have "di_scan_type (Suc n) E di_collect_garbage_collect_pre (Some (di_collect_garbage_collect_post E)) st a w = Ret () s4"
      using w1(1,5,6) s2(1) s4(1) by (simp add: outcome_simps heap_simps)
    ultimately show ?thesis using s4(2) na by blast
  qed
qed

section \<open>The isolated roots\<close>

lemma fin_step_reach:
  assumes st: "fin_step X P w w'"
  shows "reach (coreh w') \<subseteq> reach (coreh w)"
proof -
  have "set (succs (coreh w') z) \<subseteq> set (succs (coreh w) z)" for z
  proof (cases "objs w' z")
    case (Some ob')
    with fin_stepD(1) [OF st Some] obtain ob where "objs w z = Some ob" "set (members ob') \<subseteq> set (members ob)" by (auto simp: obj_fin_def)
    with Some show ?thesis by (auto simp: succs_def coreh_Some obj_gc_refs_def)
  qed (simp add: succs_def coreh_def)
  then show ?thesis unfolding reach_def by (intro rtrancl_mono) auto
qed

text \<open>What has been visited leads only to what has been visited.\<close>

lemma visited_closed:
  assumes inv: "fin_inv E ext wext {} w" and st: "fin_step {} {} w w'" and z: "z \<notin> fresh w'" and d: "d \<in> set (succs (coreh w) z)"
  shows "d \<notin> fresh w'"
proof
  assume df: "d \<in> fresh w'"
  from d obtain oz where oz: "objs w z = Some oz" using succs_obj by blast
  with d have dz: "d \<in> set (obj_gc_refs oz)" by (simp add: succs_def coreh_Some)
  have "d \<in> fresh w" using df fin_step_fresh [OF st] by blast
  then obtain od where od: "objs w d = Some od" "ref_count od \<noteq> 0" "mark od = 2" by (auto simp: fresh_def)
  have "d \<in> set (obj_refs oz)"
    using succs_le [OF oz, of d] d count_list_0_iff [of "succs (coreh w) z" d] count_list_0_iff [of "obj_refs oz" d] by linarith
  with fin_invD(5) [OF inv od(1,2)] od(3) oz have "z \<in> fresh w" by (auto simp: garbage_obj_def)
  then have "visits z oz w'" using fin_stepD(2) [OF st _ oz] by simp
  with z df dz show False by (auto simp: visits_def)
qed

lemma fresh_path:
  assumes inv: "fin_inv E ext wext {} w" and st: "fin_step {} {} w w'" and r: "(r, x) \<in> reach (coreh w)" and x: "x \<in> fresh w'"
  shows "r \<in> fresh w' \<and> (r, x) \<in> reach (coreh w')"
  using r unfolding reach_def
proof (induction rule: converse_rtrancl_induct)
  case base
  then show ?case using x by simp
next
  case (step r z)
  then have z: "z \<in> set (succs (coreh w) r)" by simp
  have rf: "r \<in> fresh w'" using visited_closed [OF inv st _ z] step.IH by blast
  then have rw: "r \<in> fresh w" using fin_step_fresh [OF st] by blast
  then obtain ob where ob: "objs w r = Some ob" by (auto simp: fresh_def)
  with fin_stepD(2) [OF st _ ob] rw rf obtain ob' where ob': "objs w' r = Some ob'" "members ob' = members ob" by (auto simp: visits_def)
  have "z \<in> set (succs (coreh w') r)" using z ob ob' by (simp add: succs_def coreh_Some obj_gc_refs_def)
  with rf step.IH show ?case by (auto intro: converse_rtrancl_into_rtrancl)
qed

definition roots_inv :: "env \<Rightarrow> (addr \<Rightarrow> nat) \<Rightarrow> (addr \<Rightarrow> nat) \<Rightarrow> world \<Rightarrow> bool" where
  "roots_inv E ext wext w \<longleftrightarrow> fin_inv E ext wext {} w \<and>
     (\<forall>x \<in> fresh w. \<exists>r \<in> set (isolated_roots w). (r, x) \<in> reach (coreh w)) \<and>
     sorted_wrt (\<lambda>x y. (y, x) \<notin> reach (coreh w)) (isolated_roots w) \<and> (\<forall>r \<in> set (isolated_roots w). mk w r \<noteq> 0)"

text \<open>A marked object that is alive is referred to by an object that was not visited.\<close>

lemma marked_referred:
  assumes inv: "fin_inv E ext wext {} w" and ob: "objs w x = Some ob" "ref_count ob \<noteq> 0" "mark ob \<noteq> 0"
  obtains y where "y \<in> fresh w" and "x \<in> set (succs (coreh w) y)"
proof -
  note g = fin_invD(5) [OF inv ob, unfolded garbage_obj_def] and ok = fin_invD(1) [OF inv]
  have "strong_in (objs w) x \<noteq> 0" using heap_okD(4) [OF ok ob(1)] ob(2) g by (simp add: obj_ok_def flip: unat_eq_zero)
  then obtain y oy where y: "objs w y = Some oy" "x \<in> set (obj_refs oy)"
    using count_in_zero [OF heap_okD(1) [OF ok], of obj_refs x] by auto
  with g have "y \<in> fresh w" "x \<in> set (obj_gc_refs oy)" by auto
  with y(1) show ?thesis using that by (simp add: succs_def coreh_Some)
qed

text \<open>The first isolated root dies with its visit.\<close>

lemma first_root_dies:
  assumes inv: "roots_inv E ext wext w" and iso: "isolated_roots w = i # rs" and inv': "fin_inv E ext wext {} w'"
    and st: "fin_step {} {} w w'" and vis: "i \<notin> fresh w'"
  shows "i \<notin> live w'"
proof
  note fi = inv [unfolded roots_inv_def]
  assume "i \<in> live w'"
  then obtain ob' where ob': "objs w' i = Some ob'" "ref_count ob' \<noteq> 0" by (auto simp: live_def)
  with fin_stepD(1) [OF st ob'(1)] obtain ob where ob: "objs w i = Some ob" "obj_fin ob ob'" by blast
  have "mark ob' \<noteq> 0" using fi iso ob by (auto simp: mk_def obj_fin_def)
  from marked_referred [OF inv' ob' this] obtain y where y: "y \<in> fresh w'" "i \<in> set (succs (coreh w') y)" by blast
  have yw: "y \<in> fresh w" using y(1) fin_step_fresh [OF st] by blast
  with fi obtain r where r: "r \<in> set (isolated_roots w)" "(r, y) \<in> reach (coreh w)" by blast
  have "(y, i) \<in> reach (coreh w)" using fin_step_reach [OF st] reach_step [OF y(2) reach_refl] by blast
  with r(2) have "(r, i) \<in> reach (coreh w)" by (rule reach_trans)
  then have "r = i" using fi iso r(1) by auto
  with r(2) have "(i, y) \<in> reach (coreh w)" by simp
  then have "y \<in> - fresh w'" by (rule reach_closed) (use vis visited_closed [OF fi [THEN conjunct1] st] in auto)
  with y(1) show False by simp
qed

lemma sorted_wrt_subseq:
  assumes "subseq xs ys" and "sorted_wrt R ys" and "\<And>x y. R x y \<Longrightarrow> R' x y"
  shows "sorted_wrt R' xs"
  using assms(1,2)
proof (induction rule: list_emb.induct)
  case (list_emb_Cons2 x y xs ys)
  then have "set xs \<subseteq> set ys" by (auto dest: list_emb_set)
  with list_emb_Cons2 assms(3) show ?case by auto
qed auto

lemma roots_inv_step:
  assumes inv: "roots_inv E ext wext w" and inv': "fin_inv E ext wext {} w'" and st: "fin_step {} {} w w'"
  shows "roots_inv E ext wext w'"
proof -
  note fi = inv [unfolded roots_inv_def]
  note rs = fin_stepD(3) [OF st]
  have sub: "set (isolated_roots w') \<subseteq> set (isolated_roots w)" using rs by (auto simp: roots_stay_def dest: list_emb_set)
  have "\<exists>r \<in> set (isolated_roots w'). (r, x) \<in> reach (coreh w')" if x: "x \<in> fresh w'" for x
  proof -
    from fi x fin_step_fresh [OF st] obtain r where r: "r \<in> set (isolated_roots w)" "(r, x) \<in> reach (coreh w)" by blast
    from fresh_path [OF fi [THEN conjunct1] st r(2) x] have f: "r \<in> fresh w'" "(r, x) \<in> reach (coreh w')" by auto
    then have "r \<in> live w'" by (auto simp: fresh_def live_def)
    with r(1) rs f(2) show ?thesis by (auto simp: roots_stay_def)
  qed
  moreover have "sorted_wrt (\<lambda>x y. (y, x) \<notin> reach (coreh w')) (isolated_roots w')"
    by (rule sorted_wrt_subseq [of _ "isolated_roots w" "\<lambda>x y. (y, x) \<notin> reach (coreh w)"]) (use rs fi fin_step_reach [OF st] in \<open>auto simp: roots_stay_def\<close>)
  moreover have "mk w' r \<noteq> 0" if r: "r \<in> set (isolated_roots w')" for r
  proof -
    from heap_okD(3) [OF fin_invD(1) [OF inv']] r obtain ob' where ob': "objs w' r = Some ob'" unfolding lists_ok_def by auto
    with fin_stepD(1) [OF st ob'] obtain ob where "objs w r = Some ob" "obj_fin ob ob'" by blast
    with fi r sub ob' show ?thesis by (fastforce simp: mk_def obj_fin_def)
  qed
  ultimately show ?thesis using inv' unfolding roots_inv_def by blast
qed

lemma finalize_roots_ok:
  assumes E: "dtors_neutral E"
  shows "roots_inv E ext wext w \<Longrightarrow> card (dom (objs w)) < e_fuel E \<Longrightarrow> length (isolated_roots w) \<le> n \<Longrightarrow>
    \<exists>w'. gc_finalize_roots n E w = Ret () w' \<and> roots_inv E ext wext w' \<and> fin_step {} {} w w' \<and> isolated_roots w' = []"
proof (induction n arbitrary: w)
  case 0
  then show ?case using fin_step_refl by (auto simp: gc_finalize_roots.simps [of 0])
next
  case (Suc n)
  show ?case
  proof (cases "isolated_roots w")
    case Nil
    with Suc.prems fin_step_refl show ?thesis by (auto simp: gc_finalize_roots.simps [of "Suc n"])
  next
    case (Cons i rs)
    have fi: "fin_inv E ext wext {} w" using Suc.prems(1) by (simp add: roots_inv_def)
    have fin: "finite (dom (objs w))" using heap_okD(1) [OF fin_invD(1) [OF fi]] .
    have il: "i \<in> live w" using heap_okD(3) [OF fin_invD(1) [OF fi]] Cons by (auto simp: lists_ok_def live_def)
    have "fresh w \<subseteq> dom (objs w)" by (auto simp: fresh_def)
    then have "card (fresh w) < e_fuel E" using Suc.prems(2) card_mono [OF fin] by (meson le_less_trans)
    from fin_visit [OF E fi il this, of 0] obtain w1 where w1:
      "di_scan_type (e_fuel E) E di_collect_garbage_collect_pre (Some (di_collect_garbage_collect_post E)) 0 i w = Ret () w1"
      "fin_inv E ext wext {} w1" "fin_step {} {} w w1" "i \<notin> fresh w1" by blast
    note dead = first_root_dies [OF Suc.prems(1) Cons w1(2-4)]
    have ri: "roots_inv E ext wext w1" by (rule roots_inv_step [OF Suc.prems(1) w1(2,3)])
    have "i \<notin> set (isolated_roots w1)"
      using heap_okD(3) [OF fin_invD(1) [OF w1(2)]] dead by (auto simp: lists_ok_def live_def)
    moreover have sub: "subseq (isolated_roots w1) (i # rs)" using w1(3) Cons by (simp add: fin_step_def roots_stay_def)
    ultimately have "isolated_roots w1 \<noteq> i # rs" by auto
    with sub have "length (isolated_roots w1) < length (i # rs)"
      using list_emb_length [OF sub] subseq_same_length [OF sub] by linarith
    then have len: "length (isolated_roots w1) \<le> n" using Suc.prems(3) Cons by simp
    have "dom (objs w1) \<subseteq> dom (objs w)" using fin_stepD(1) [OF w1(3)] by blast
    then have "card (dom (objs w1)) < e_fuel E" using Suc.prems(2) card_mono [OF fin] by (meson le_less_trans)
    from Suc.IH [OF ri this len] obtain w' where w': "gc_finalize_roots n E w1 = Ret () w'" "roots_inv E ext wext w'"
      "fin_step {} {} w1 w'" "isolated_roots w' = []" by blast
    have "gc_finalize_roots (Suc n) E w = Ret () w'"
      using Cons w1(1) w'(1) by (simp add: gc_finalize_roots.simps [of "Suc n"] mseq_Ret)
    with w' fin_step_trans [OF w1(3) w'(3)] show ?thesis by blast
  qed
qed

section \<open>One round\<close>

text \<open>The third loop: the revived roots leave the list.\<close>

lemma drop_revived_ok:
  assumes "\<And>r. r \<in> set (isolated_roots w) \<Longrightarrow> r \<in> dom (objs w) \<and> (mk w r = 0 \<or> mk w r = 2)" and "unreferred_objects w = []"
  shows "gc_drop_revived w = Ret () (w\<lparr>isolated_roots := filter (\<lambda>r. mk w r = 2) (isolated_roots w)\<rparr>)"
proof -
  let ?f = "\<lambda>i. mbind (get_obj i) (\<lambda>ob. mseq (mcheck Assert_failed (mark ob = 0 \<or> mark ob = 2))
       (if mark ob \<noteq> 2 then sib_list_del_init i else mret ()))"
  have "mforeach ?f rs s = Ret () (s\<lparr>isolated_roots := filter (\<lambda>r. r \<notin> set rs \<or> mk w r = 2) (isolated_roots s)\<rparr>)"
    if "set rs \<subseteq> set (isolated_roots w)" "objs s = objs w" "unreferred_objects s = []" for rs s
    using that
  proof (induction rs arbitrary: s)
    case Nil
    then show ?case by (simp add: outcome_simps)
  next
    case (Cons r rs)
    from assms(1) [of r] Cons.prems obtain ob where ob: "objs s r = Some ob" "mark ob = mk w r" "mark ob = 0 \<or> mark ob = 2"
      by (auto simp: mk_def)
    let ?s = "s\<lparr>isolated_roots := filter (\<lambda>x. x \<noteq> r \<or> mk w r = 2) (isolated_roots s)\<rparr>"
    have "?f r s = Ret () ?s"
    proof (cases "mk w r = 2")
      case True
      then show ?thesis using ob by (simp add: outcome_simps heap_simps)
    next
      case False
      then have "removeAll r xs = filter (\<lambda>x. x \<noteq> r \<or> mk w r = 2) xs" for xs by (induction xs) auto
      with ob False Cons.prems(3) show ?thesis by (simp add: outcome_simps heap_simps sib_list_del_init_def)
    qed
    moreover have "filter (\<lambda>x. x \<notin> set rs \<or> mk w x = 2) (filter (\<lambda>x. x \<noteq> r \<or> mk w r = 2) xs) =
        filter (\<lambda>x. x \<notin> set (r # rs) \<or> mk w x = 2) xs" for xs
      unfolding filter_filter by (rule filter_cong) auto
    ultimately show ?case using Cons.IH [of ?s] Cons.prems by (simp add: mseq_Ret)
  qed
  from this [of "isolated_roots w" w] assms(2) show ?thesis
    by (simp add: gc_drop_revived_def outcome_simps cong: filter_cong)
qed

text \<open>The heap stays consistent when the collector's fields change.\<close>

lemma heap_ok_coreh:
  assumes ok: "heap_ok B ext wext w" and h: "coreh w' = coreh w" and mk: "\<And>a. mk w' a \<in> {0, 2, 3}" and lists: "lists_ok w'"
  shows "heap_ok B ext wext w'"
proof -
  have obj: "\<exists>ob. objs w a = Some ob \<and> core ob = core ob'" if "objs w' a = Some ob'" for a ob'
    using fun_cong [OF h, of a] that by (cases "objs w a") (auto simp: coreh_def)
  have none: "objs w a = None" if "objs w' a = None" for a using fun_cong [OF h, of a] that by (simp add: coreh_def)
  have dom: "dom (objs w') = dom (objs w)" using h dom_coreh by metis
  have cnt: "count_in rs (objs w') a = count_in rs (objs w) a" if rs: "\<And>ob. rs (core ob) = rs ob" for rs a
  proof -
    have "rs (the (objs w' b)) = rs (the (objs w b))" if "b \<in> dom (objs w)" for b
      using fun_cong [OF h, of b] that rs by (auto simp: coreh_def) (metis rs option.sel option.simps(9))
    then show ?thesis unfolding count_in_def dom by (intro sum.cong) auto
  qed
  have c: "strong_in (objs w') a = strong_in (objs w) a" "weak_in (objs w') a = weak_in (objs w) a" for a
    by (rule cnt; simp add: obj_refs_def obj_weak_refs_def)+
  have "obj_ok B ext wext (objs w') a ob'" if a: "objs w' a = Some ob'" for a ob'
  proof -
    from obj [OF a] obtain ob where ob: "objs w a = Some ob" "core ob = core ob'" by blast
    have f: "ref_count ob = ref_count ob'" "weak_ref_count ob = weak_ref_count ob'" "destroyed ob = destroyed ob'" "members ob = members ob'"
      using ob(2) by (auto simp: core_def dest: arg_cong [of _ _ ref_count] arg_cong [of _ _ weak_ref_count] arg_cong [of _ _ destroyed] arg_cong [of _ _ members])
    have "mark ob' = 0 \<or> mark ob' = 2 \<or> mark ob' = 3" using mk [of a] a by (simp add: mk_def)
    with heap_okD(4) [OF ok ob(1)] f show ?thesis by (auto simp: obj_ok_def c)
  qed
  with heap_okD(1,2) [OF ok] heap_okD(5) [OF ok none] lists show ?thesis unfolding heap_ok_def dom c by blast
qed

text \<open>Every reference to garbage is one the collector has counted.\<close>

lemma garbage_refs:
  assumes ok: "heap_ok {} ext wext w" and x: "x \<in> garbage w" and y: "objs w y = Some oy" "x \<in> set (obj_refs oy)"
  shows "x \<in> set (succs (coreh w) y)"
proof (rule ccontr)
  assume n: "x \<notin> set (succs (coreh w) y)"
  have xE: "x \<in> explored w" and nh: "\<not> held w x" using x reach_refl by (auto simp: garbage_def)
  have Ed: "explored w \<subseteq> dom (objs w)" using explored_counts(1) [OF ok] by blast
  note fin = heap_okD(1) [OF ok]
  have "gc_edges (coreh w) (explored w) x \<le> gc_edges (coreh w) (dom (objs w)) x"
    unfolding gc_edges_def using fin Ed by (rule sum_mono2) simp
  also have "\<dots> < strong_in (objs w) x"
    unfolding gc_edges_def count_in_def
  proof (rule sum_strict_mono_ex1 [OF fin])
    show "\<forall>b \<in> dom (objs w). count_list (succs (coreh w) b) x \<le> count_list (obj_refs (the (objs w b))) x"
      using succs_le by fastforce
    have "count_list (succs (coreh w) y) x < count_list (obj_refs (the (objs w y))) x"
      using n y count_list_0_iff [of "obj_refs oy" x] count_list_0_iff [of "succs (coreh w) y" x] by simp
    then show "\<exists>b \<in> dom (objs w). count_list (succs (coreh w) b) x < count_list (obj_refs (the (objs w b))) x" using y(1) by blast
  qed
  finally show False using nh unat_rc [OF ok, of x] Ed xE by (auto simp: held_def)
qed

text \<open>What a round, and the collector, starts from and leaves behind.\<close>

definition gc_ready :: "env \<Rightarrow> (addr \<Rightarrow> nat) \<Rightarrow> (addr \<Rightarrow> nat) \<Rightarrow> world \<Rightarrow> bool" where
  "gc_ready E ext wext w \<longleftrightarrow> heap_ok {} ext wext w \<and> gc_clean w \<and> isolated_roots w = [] \<and> pinned ext w \<and>
     members_bound (e_fuel E) w \<and> 2 * card (dom (objs w)) < e_fuel E \<and>
     (\<forall>a ob. objs w a = Some ob \<longrightarrow> unat (ref_count ob) + 1 < 2 ^ 64)"

definition obj_kept :: "di_object_internal \<Rightarrow> di_object_internal \<Rightarrow> bool" where
  "obj_kept ob ob' \<longleftrightarrow> payload ob' = payload ob \<and> (ref_count ob = 0 \<longrightarrow> ref_count ob' = 0) \<and>
     (ref_count ob' \<noteq> 0 \<longrightarrow> members ob' = members ob)"

definition kept :: "world \<Rightarrow> world \<Rightarrow> bool" where
  "kept w w' \<longleftrightarrow> (\<forall>c ob'. objs w' c = Some ob' \<longrightarrow> (\<exists>ob. objs w c = Some ob \<and> obj_kept ob ob'))"

lemma kept_refl: "kept w w"
  by (auto simp: kept_def obj_kept_def)

lemma obj_kept_trans: "obj_kept o1 o2 \<Longrightarrow> obj_kept o2 o3 \<Longrightarrow> obj_kept o1 o3"
  unfolding obj_kept_def by auto

lemma kept_trans: "kept w1 w2 \<Longrightarrow> kept w2 w3 \<Longrightarrow> kept w1 w3"
  unfolding kept_def using obj_kept_trans by meson

lemma kept_live: "kept w w' \<Longrightarrow> live w' \<subseteq> live w"
  unfolding kept_def obj_kept_def live_def by fastforce

lemma kept_dom: "kept w w' \<Longrightarrow> dom (objs w') \<subseteq> dom (objs w)"
  unfolding kept_def by blast

lemma roots_inv_start:
  assumes rd: "gc_ready E ext wext w" and h: "coreh w1 = coreh w" and un: "unreferred_objects w1 = []"
    and mk1: "\<And>a. mk w1 a \<in> {0, 2, 3}" "\<And>a. rc (coreh w) a \<noteq> 0 \<Longrightarrow> mk w1 a = (if a \<in> garbage w then 2 else 0)"
    and iso: "isolated_roots w1 = filter (\<lambda>r. r \<in> garbage w) rs" and rs: "sorted_wrt (\<lambda>x y. (y, x) \<notin> reach (coreh w)) rs"
      "\<And>x. x \<in> explored w \<Longrightarrow> \<exists>r \<in> set rs. (r, x) \<in> reach (coreh w)"
  shows "roots_inv E ext wext w1"
proof -
  note ok = rd [unfolded gc_ready_def, THEN conjunct1]
  have gl: "garbage w \<subseteq> live w" using explored_counts(2) [OF ok] rc_live by (auto simp: garbage_def)
  have back1: "\<exists>ob. objs w a = Some ob \<and> core ob = core ob1" if "objs w1 a = Some ob1" for a ob1
    using fun_cong [OF h, of a] that by (cases "objs w a") (auto simp: coreh_def)
  have back2: "ref_count ob = ref_count ob1 \<and> members ob = members ob1 \<and> payload ob = payload ob1" if "core ob = core ob1" for ob ob1
    using that by (metis core_simps(1,2,3))
  have live: "live w1 = live w" unfolding set_eq_iff rc_live [symmetric] h by simp
  have gm: "mk w1 a = 2 \<longleftrightarrow> a \<in> garbage w" if "a \<in> live w" for a using mk1(2) that by (simp add: rc_live)
  have fr: "fresh w1 = garbage w"
  proof -
    have "x \<in> fresh w1 \<longleftrightarrow> x \<in> live w1 \<and> mk w1 x = 2" for x by (auto simp: fresh_def live_def mk_def)
    then show ?thesis using gm gl live by blast
  qed
  have dist: "distinct rs" using rs(1) by (induction rs) (auto simp: reach_refl)
  have lists: "lists_ok w1" using dist gl live iso un unfolding lists_ok_def live_def by fastforce
  have ok1: "heap_ok {} ext wext w1" by (rule heap_ok_coreh [OF ok h mk1(1) lists])
  have dom: "dom (objs w1) = dom (objs w)" using h dom_coreh by metis
  have pin: "pinned ext w1" using rd back1 back2 unfolding gc_ready_def pinned_def by metis
  have mb: "members_bound (e_fuel E) w1" using rd back1 back2 unfolding gc_ready_def members_bound_def by metis
  have "card (live w1) \<le> card (dom (objs w))"
    using heap_okD(1) [OF ok] dom by (intro card_mono) (auto simp: live_def)
  then have fuel: "enough_fuel E w1" using rd mb by (simp add: gc_ready_def enough_fuel_def)
  have "garbage_obj ext {} w1 x ob" if x: "objs w1 x = Some ob" "ref_count ob \<noteq> 0" "mark ob \<noteq> 0" for x ob
  proof -
    have xl: "x \<in> live w" using x live by (auto simp: live_def)
    have mo: "mark ob = (if x \<in> garbage w then 2 else 0)" using mk1(2) [of x] x(1) xl by (simp add: rc_live mk_def)
    then have xg: "x \<in> garbage w" using x(3) by (metis)
    then have mo2: "mark ob = 2" using mo by simp
    from back1 [OF x(1)] obtain ox where ox: "objs w x = Some ox" "core ox = core ob" by blast
    have "unat (ref_count ox) + 1 < 2 ^ 64" using rd ox(1) unfolding gc_ready_def by blast
    then have "unat (ref_count ob) + 1 < 2 ^ 64" using back2 [OF ox(2)] by simp
    moreover have "y \<in> fresh w1 \<and> x \<in> set (obj_gc_refs oy)" if y: "objs w1 y = Some oy" "x \<in> set (obj_refs oy)" for y oy
    proof -
      from back1 [OF y(1)] obtain oy0 where oy0: "objs w y = Some oy0" "core oy0 = core oy" by blast
      have "obj_refs oy0 = obj_refs oy" "obj_gc_refs oy0 = obj_gc_refs oy"
        using back2 [OF oy0(2)] by (simp_all add: obj_refs_def obj_gc_refs_def)
      with garbage_refs [OF ok xg oy0(1)] y(2) have "x \<in> set (succs (coreh w) y)" "x \<in> set (obj_gc_refs oy)"
        using oy0(1) by (auto simp: succs_def coreh_Some)
      with garbage_unreferenced [OF ok xg] fr show ?thesis by blast
    qed
    ultimately show ?thesis using garbage_not_ext [OF ok xg] mo2 by (simp add: garbage_obj_def)
  qed
  then have "fin_inv E ext wext {} w1" using ok1 pin fuel by (simp add: fin_inv_def)
  moreover have "\<exists>r \<in> set (isolated_roots w1). (r, x) \<in> reach (coreh w1)" if "x \<in> garbage w" for x
  proof -
    from rs(2) [of x] that obtain r where r: "r \<in> set rs" "(r, x) \<in> reach (coreh w)" by (auto simp: garbage_def)
    with garbage_reach [OF ok r(2) that] iso h show ?thesis by auto
  qed
  moreover have "mk w1 r \<noteq> 0" if "r \<in> set (isolated_roots w1)" for r
    using that iso gm [of r] gl by auto
  ultimately show ?thesis using rs(1) iso h fr by (auto simp: roots_inv_def sorted_wrt_filter)
qed

lemma gc_round:
  assumes E: "dtors_neutral E" and rd: "gc_ready E ext wext w"
  shows "\<exists>w1 w2 w3. gc_find_garbage E w = Ret () w1 \<and> gc_drop_revived w1 = Ret () w2 \<and> gc_finalize_roots (e_fuel E) E w2 = Ret () w3 \<and>
    gc_ready E ext wext w3 \<and> kept w w3 \<and> garbage w \<inter> live w3 = {} \<and> (garbage w = {} \<longrightarrow> unreferred_objects w3 = [])"
proof -
  note r = rd [unfolded gc_ready_def] and ok = rd [unfolded gc_ready_def, THEN conjunct1]
  from find_garbage_ok [of ext wext w E] r obtain w1 where w1: "gc_find_garbage E w = Ret () w1" "coreh w1 = coreh w"
    "unreferred_objects w1 = []" "\<And>a. mk w1 a \<in> {0, 2, 3}"
    "\<And>a. rc (coreh w) a \<noteq> 0 \<Longrightarrow> mk w1 a = (if a \<in> garbage w then 2 else 0)" "\<And>a. rc (coreh w) a \<noteq> 0 \<Longrightarrow> a \<notin> garbage w \<Longrightarrow> sc w1 a = 0"
    "set (isolated_roots w1) \<subseteq> explored w" "sorted_wrt (\<lambda>x y. (y, x) \<notin> reach (coreh w)) (isolated_roots w1)"
    "\<And>x. x \<in> explored w \<Longrightarrow> \<exists>r \<in> set (isolated_roots w1). (r, x) \<in> reach (coreh w)"
    by blast
  let ?w2 = "w1\<lparr>isolated_roots := filter (\<lambda>r. mk w1 r = 2) (isolated_roots w1)\<rparr>"
  have dom1: "dom (objs w1) = dom (objs w)" using w1(2) dom_coreh by metis
  have ex: "x \<in> dom (objs w1) \<and> rc (coreh w) x \<noteq> 0" if "x \<in> explored w" for x using explored_counts [OF ok that] dom1 by simp
  have w2: "gc_drop_revived w1 = Ret () ?w2"
  proof (rule drop_revived_ok [OF _ w1(3)])
    fix x assume "x \<in> set (isolated_roots w1)"
    with w1(7) ex [of x] w1(5) [of x] show "x \<in> dom (objs w1) \<and> (mk w1 x = 0 \<or> mk w1 x = 2)" by (auto split: if_splits)
  qed
  have iso: "isolated_roots ?w2 = filter (\<lambda>r. r \<in> garbage w) (isolated_roots w1)"
  proof -
    have "mk w1 x = 2 \<longleftrightarrow> x \<in> garbage w" if "x \<in> set (isolated_roots w1)" for x
      using w1(5) [of x] ex [of x] w1(7) that by (simp add: subset_iff)
    then show ?thesis by (simp cong: filter_cong)
  qed
  have ri: "roots_inv E ext wext ?w2"
    by (rule roots_inv_start [OF rd _ _ _ _ iso w1(8,9)]) (use w1(2-5) in simp_all)
  have "distinct (isolated_roots ?w2)"
    using ri fin_invD(1) [of E ext wext "{}" ?w2] heap_okD(3) [of "{}" "with_stack ext {}" wext ?w2] by (simp add: roots_inv_def lists_ok_def)
  then have "length (isolated_roots ?w2) = card (set (isolated_roots ?w2))" by (simp only: distinct_card)
  also have "\<dots> \<le> card (dom (objs w))" using w1(7) ex dom1 by (intro card_mono heap_okD(1) [OF ok]) auto
  also have "\<dots> \<le> e_fuel E" using r by simp
  finally have len: "length (isolated_roots ?w2) \<le> e_fuel E" .
  have cd: "card (dom (objs ?w2)) < e_fuel E" using r dom1 by simp
  from finalize_roots_ok [OF E ri cd len] obtain w3 where w3: "gc_finalize_roots (e_fuel E) E ?w2 = Ret () w3"
    "roots_inv E ext wext w3" "fin_step {} {} ?w2 w3" "isolated_roots w3 = []" by blast
  have inv3: "fin_inv E ext wext {} w3" and nofresh: "fresh w3 = {}" using w3(2,4) by (auto simp: roots_inv_def)
  have m0: "mark ob' = 0" if "objs w3 c = Some ob'" "ref_count ob' \<noteq> 0" for c ob'
    using marked_referred [OF inv3 that] nofresh by auto
  have old: "\<exists>ob ob1. objs w c = Some ob \<and> objs w1 c = Some ob1 \<and> core ob = core ob1 \<and> obj_fin ob1 ob'" if c: "objs w3 c = Some ob'" for c ob'
  proof -
    from fin_stepD(1) [OF w3(3) c] obtain ob1 where "objs w1 c = Some ob1" "obj_fin ob1 ob'" by auto
    with fun_cong [OF w1(2), of c] show ?thesis by (cases "objs w c") (auto simp: coreh_def)
  qed
  have kept: "kept w w3"
    unfolding kept_def
  proof (intro allI impI)
    fix c ob' assume c: "objs w3 c = Some ob'"
    from old [OF c] obtain ob ob1 where ob: "objs w c = Some ob" "objs w1 c = Some ob1" "core ob = core ob1" "obj_fin ob1 ob'" by blast
    have e: "ref_count ob = ref_count ob1" "members ob = members ob1" "payload ob = payload ob1" using ob(3) by (metis core_simps(1,2,3))+
    have "mark ob1 = 0" if "ref_count ob' \<noteq> 0" using m0 [OF c that] ob(4) by (auto simp: obj_fin_def)
    with ob e have "obj_kept ob ob'" by (auto simp: obj_kept_def obj_fin_def)
    with ob(1) show "\<exists>ob. objs w c = Some ob \<and> obj_kept ob ob'" by blast
  qed
  have notg: "c \<notin> garbage w \<and> ref_count_scan ob' = 0 \<and> unat (ref_count ob') + 1 < 2 ^ 64" if c: "objs w3 c = Some ob'" "ref_count ob' \<noteq> 0" for c ob'
  proof -
    from old [OF c(1)] obtain ob ob1 where ob: "objs w c = Some ob" "objs w1 c = Some ob1" "core ob = core ob1" "obj_fin ob1 ob'" by blast
    have e: "ref_count ob = ref_count ob1" using ob(3) by (metis core_simps(3))
    have nz: "rc (coreh w) c \<noteq> 0" using ob(1,4) c(2) e by (auto simp: rc_def coreh_Some obj_fin_def)
    have z: "mark ob1 = 0" "ref_count ob' \<le> ref_count ob" using m0 [OF c] ob(4) e by (auto simp: obj_fin_def)
    have ng: "c \<notin> garbage w" using w1(5) [OF nz] ob(2) z(1) by (auto simp: mk_def split: if_splits)
    moreover have "ref_count_scan ob' = 0" using w1(6) [OF nz ng] ob(2,4) by (simp add: sc_def obj_fin_def)
    moreover have "unat (ref_count ob') \<le> unat (ref_count ob)" using z(2) by (simp add: word_le_nat_alt)
    then have "unat (ref_count ob') + 1 < 2 ^ 64" using r ob(1) by fastforce
    ultimately show ?thesis by blast
  qed
  have "gc_ready E ext wext w3"
  proof -
    have "heap_ok {} ext wext w3" using fin_invD(1) [OF inv3] by simp
    moreover have "gc_clean w3" using m0 notg by (auto simp: gc_clean_def)
    moreover have "2 * card (dom (objs w3)) < e_fuel E"
      using r card_mono [OF heap_okD(1) [OF ok] kept_dom [OF kept]] by simp
    moreover have "unat (ref_count ob) + 1 < 2 ^ 64" if "objs w3 a = Some ob" for a ob
      using notg [OF that] by (cases "ref_count ob = 0") auto
    ultimately show ?thesis using w3(4) fin_invD(2,3) [OF inv3] by (auto simp: gc_ready_def enough_fuel_def)
  qed
  moreover have "garbage w \<inter> live w3 = {}" using notg by (auto simp: live_def)
  moreover have "unreferred_objects w3 = []" if "garbage w = {}"
  proof -
    have "isolated_roots ?w2 = []" using iso that by simp
    then have "w3 = ?w2" using w3(1) by (simp add: gc_finalize_roots.simps)
    then show ?thesis using w1(3) by simp
  qed
  ultimately show ?thesis using w1(1) w2 w3(1) kept by blast
qed

section \<open>The collector\<close>

lemma collect_ok:
  assumes E: "dtors_neutral E"
  shows "gc_ready E ext wext w \<Longrightarrow> card (live w) < n \<Longrightarrow>
    \<exists>w'. di_collect_garbage_fuel n E w = Ret () w' \<and> gc_ready E ext wext w' \<and> unreferred_objects w' = [] \<and> kept w w' \<and> garbage w \<inter> live w' = {}"
proof (induction n arbitrary: w)
  case 0
  then show ?case by simp
next
  case (Suc n)
  show ?case
  proof (cases "unreferred_objects w = []")
    case True
    then have "garbage w = {}" by (simp add: garbage_def explored_def)
    with True Suc.prems(1) kept_refl show ?thesis by (auto simp: di_collect_garbage_fuel.simps [of "Suc n"])
  next
    case False
    from gc_round [OF E Suc.prems(1)] obtain w1 w2 w3 where w3: "gc_find_garbage E w = Ret () w1" "gc_drop_revived w1 = Ret () w2"
      "gc_finalize_roots (e_fuel E) E w2 = Ret () w3" "gc_ready E ext wext w3" "kept w w3" "garbage w \<inter> live w3 = {}"
      "garbage w = {} \<longrightarrow> unreferred_objects w3 = []" by blast
    have run: "di_collect_garbage_fuel (Suc n) E w = di_collect_garbage_fuel n E w3"
      using False w3(1-3) by (simp add: di_collect_garbage_fuel.simps [of "Suc n"] mseq_Ret)
    note ok = Suc.prems(1) [unfolded gc_ready_def, THEN conjunct1]
    show ?thesis
    proof (cases "garbage w = {}")
      case True
      then have "di_collect_garbage_fuel n E w3 = Ret () w3" using w3(7) by (simp add: di_collect_garbage_fuel.simps)
      with run w3 True show ?thesis by auto
    next
      case False
      have "garbage w \<subseteq> live w" using explored_counts(2) [OF ok] rc_live by (auto simp: garbage_def)
      with False w3(6) kept_live [OF w3(5)] have "live w3 \<subset> live w" by blast
      then have "card (live w3) < card (live w)" using finite_live [OF ok] by (rule psubset_card_mono [rotated])
      with Suc.prems(2) Suc.IH [OF w3(4)] obtain w' where w': "di_collect_garbage_fuel n E w3 = Ret () w'" "gc_ready E ext wext w'"
        "unreferred_objects w' = []" "kept w3 w'" by auto
      have "garbage w \<inter> live w' = {}" using w3(6) kept_live [OF w'(4)] by blast
      with run w' kept_trans [OF w3(5) w'(4)] show ?thesis by auto
    qed
  qed
qed

text \<open>What is reachable from an object held outside the heap is still there, with its members.\<close>

lemma kept_reachable:
  assumes k: "kept w w'" and ok': "heap_ok {} ext wext w'" and held: "0 < ext r" and r: "(r, x) \<in> reach (coreh w)"
  shows "\<exists>ob ob'. objs w x = Some ob \<and> objs w' x = Some ob' \<and> ref_count ob' \<noteq> 0 \<and> members ob' = members ob"
proof -
  have *: "\<exists>ob ob'. objs w x = Some ob \<and> objs w' x = Some ob' \<and> ref_count ob' \<noteq> 0 \<and> members ob' = members ob" if "x \<in> live w'" for x
    using that k unfolding live_def kept_def obj_kept_def by blast
  from r have "x \<in> live w'"
    unfolding reach_def
  proof (induction rule: rtrancl_induct)
    case base
    then show ?case using held_live [OF ok' held] .
  next
    case (step y z)
    from * [OF step.IH] obtain ob ob' where ob: "objs w y = Some ob" "objs w' y = Some ob'" "members ob' = members ob" by blast
    have "z \<in> set (succs (coreh w') y)" using step.hyps(2) ob by (simp add: succs_def coreh_Some obj_gc_refs_def)
    then show ?case using succs_live [OF ok'] rc_live by blast
  qed
  then show ?thesis by (rule *)
qed

lemma collect_all:
  assumes "dtors_neutral E" and "gc_ready E ext wext w"
  shows "\<exists>w'. di_collect_garbage E w = Ret () w' \<and> gc_ready E ext wext w' \<and> unreferred_objects w' = [] \<and> kept w w' \<and>
    garbage w \<inter> live w' = {}"
proof -
  have "card (live w) \<le> card (dom (objs w))"
    using assms(2) by (intro card_mono) (auto simp: live_def gc_ready_def heap_ok_def)
  then have "card (live w) < e_fuel E" using assms(2) by (simp add: gc_ready_def)
  from collect_ok [OF assms this] show ?thesis by (simp add: di_collect_garbage_def)
qed

end
