(* ===== verification/Deai_Memory.thy ===== *)
theory Deai_Memory
  imports Deai_Gc_Collect
begin

text \<open>
  What the memory management of the object system guarantees, stated on whole operations of
  \<^verbatim>\<open>object.c\<close>, with a small heap on which the statements are exercised: object 1 is held by the
  running code and refers to object 2; objects 3 and 4 refer to each other and are held by nothing
  else; object 3 is a candidate root of the collector.
\<close>

definition demo_obj :: "u64 \<Rightarrow> (string \<times> di_variant) list \<Rightarrow> di_object_internal" where
  "demo_obj n ms = (di_init_object P_object)\<lparr>ref_count := n, members := ms\<rparr>"

definition demo_heap :: heap where
  "demo_heap = [1 \<mapsto> demo_obj 1 [(''child'', V_object 2)], 2 \<mapsto> demo_obj 1 [],
     3 \<mapsto> demo_obj 1 [(''peer'', V_object 4)], 4 \<mapsto> demo_obj 1 [(''peer'', V_array DI_TYPE_OBJECT [V_object 3])]]"

definition demo_world :: world where
  "demo_world = empty_world\<lparr>objs := demo_heap, next_addr := 5, unreferred_objects := [3]\<rparr>"

definition demo_env :: env where
  "demo_env = \<lparr>e_call = (\<lambda>_ _ _. mret (0, V_nil)), e_dtor = (\<lambda>_ _. mret ()), e_native = (\<lambda>_ _. mret V_nil),
     e_ffi_prep = (\<lambda>_ _. True), e_field = (\<lambda>_ _ _. V_nil), e_strerror = (\<lambda>_. ''''),
     e_now = 0, e_fadd = (+), e_fsub = (-), e_junk = V_nil,
     e_fuel = 10\<rparr>"

definition demo_ext :: "addr \<Rightarrow> nat" where
  "demo_ext a = (if a = 1 then 1 else 0)"

lemma demo_dom: "dom demo_heap = {1, 2, 3, 4}"
  by (auto simp: demo_heap_def)

lemma demo_strong: "strong_in demo_heap a = count_list [2, 3, 4] a"
  unfolding count_in_def demo_dom
  by (simp add: demo_heap_def demo_obj_def obj_refs_def di_init_object_def)

lemma demo_weak: "weak_in demo_heap a = 0"
  unfolding count_in_def demo_dom
  by (simp add: demo_heap_def demo_obj_def obj_weak_refs_def di_init_object_def)

lemma demo_cases:
  assumes "demo_heap a = Some ob"
  obtains "a = 1" "ob = demo_obj 1 [(''child'', V_object 2)]" | "a = 2" "ob = demo_obj 1 []"
    | "a = 3" "ob = demo_obj 1 [(''peer'', V_object 4)]"
    | "a = 4" "ob = demo_obj 1 [(''peer'', V_array DI_TYPE_OBJECT [V_object 3])]"
  using assms unfolding demo_heap_def by (auto split: if_splits)

lemma demo_heap_ok: "heap_ok {} demo_ext (\<lambda>_. 0) demo_world"
  unfolding heap_ok_def
proof (intro conjI allI impI)
  fix a ob assume "objs demo_world a = Some ob"
  then have "demo_heap a = Some ob" by (simp add: demo_world_def)
  then show "obj_ok {} demo_ext (\<lambda>_. 0) (objs demo_world) a ob"
    by (cases rule: demo_cases)
      (simp_all add: obj_ok_def demo_world_def demo_strong demo_weak demo_ext_def demo_obj_def di_init_object_def)
next
  fix a assume "objs demo_world a = None"
  then have "a \<notin> {1, 2, 3, 4}" using demo_dom by (auto simp: demo_world_def)
  then show "strong_in (objs demo_world) a + demo_ext a = 0" "weak_in (objs demo_world) a + 0 = 0"
    by (simp_all add: demo_world_def demo_strong demo_weak demo_ext_def)
next
  show "lists_ok demo_world"
    by (simp add: lists_ok_def demo_world_def empty_world_def demo_heap_def demo_obj_def)
qed (simp_all add: demo_world_def demo_dom)

lemma demo_live: "live demo_world = {1, 2, 3, 4}"
  by (auto simp: live_def demo_world_def demo_heap_def demo_obj_def)

lemma demo_clean: "gc_clean demo_world"
  by (auto simp: gc_clean_def demo_world_def demo_obj_def di_init_object_def elim!: demo_cases)

lemma demo_bound: "members_bound (e_fuel demo_env) demo_world"
  by (auto simp: members_bound_def demo_world_def demo_obj_def demo_env_def elim!: demo_cases)

lemma demo_fuel: "2 * card (dom (objs demo_world)) < e_fuel demo_env" "enough_fuel demo_env demo_world"
  using demo_bound by (simp_all add: demo_world_def demo_dom demo_env_def enough_fuel_def demo_live [unfolded demo_world_def])

lemma demo_dtors: "dtors_neutral demo_env"
  by (auto simp: dtors_neutral_def demo_env_def outcome_simps)

lemma demo_pinned: "pinned ext demo_world"
  by (auto simp: pinned_def demo_world_def demo_obj_def di_init_object_def elim!: demo_cases)

lemma demo_room: "n < 100 \<Longrightarrow> count_room n demo_world"
  by (auto simp: count_room_def demo_world_def demo_obj_def di_init_object_def elim!: demo_cases)

lemma demo_isolated: "isolated_roots demo_world = []"
  by (simp add: demo_world_def empty_world_def)

section \<open>Garbage collection\<close>

text \<open>
  C3: The two marking stages of the collector return on every consistent heap whose collector
  fields are clear, change nothing but these fields, and leave mark 2 on exactly the garbage: the objects
  reachable from a candidate root that no object with a reference from elsewhere reaches.
\<close>

theorem gc_finds_garbage:
  assumes "heap_ok {} ext wext w" and "gc_clean w"
    and "isolated_roots w = []" and "members_bound (e_fuel E) w" and "2 * card (dom (objs w)) < e_fuel E"
  shows "\<exists>w'. gc_find_garbage E w = Ret () w' \<and> coreh w' = coreh w \<and> unreferred_objects w' = [] \<and>
    (\<forall>a \<in> live w. mk w' a = (if a \<in> garbage w then 2 else 0))"
  using find_garbage_ok [OF assms] unfolding rc_live by blast

theorem gc_finds_garbage_witness:
  "\<exists>w'. gc_find_garbage demo_env demo_world = Ret () w' \<and> coreh w' = coreh demo_world \<and> unreferred_objects w' = [] \<and>
    (\<forall>a \<in> live demo_world. mk w' a = (if a \<in> garbage demo_world then 2 else 0))"
  by (rule gc_finds_garbage [OF demo_heap_ok demo_clean demo_isolated demo_bound demo_fuel(1)])

text \<open>
  C1: The collector returns on every consistent heap: it runs as many rounds as it needs, leaves no candidate behind, every garbage
  object is dead, and the heap is consistent with the same references held outside.
\<close>

theorem collect_garbage_frees_garbage:
  assumes "dtors_neutral E" and "gc_ready E ext wext w"
  shows "\<exists>w'. di_collect_garbage E w = Ret () w' \<and> heap_ok {} ext wext w' \<and> gc_clean w' \<and> unreferred_objects w' = [] \<and>
    isolated_roots w' = [] \<and> garbage w \<inter> live w' = {}"
  using collect_all [OF assms] unfolding gc_ready_def by blast

lemma demo_ready: "gc_ready demo_env demo_ext (\<lambda>_. 0) demo_world"
proof -
  have "unat (ref_count ob) + 1 < 2 ^ 64" if "objs demo_world a = Some ob" for a ob
    using demo_room [of 1] that by (auto simp: count_room_def)
  then show ?thesis
    unfolding gc_ready_def using demo_heap_ok demo_clean demo_isolated demo_bound demo_fuel(1) demo_pinned by blast
qed

theorem collect_garbage_frees_garbage_witness:
  "\<exists>w'. di_collect_garbage demo_env demo_world = Ret () w' \<and> heap_ok {} demo_ext (\<lambda>_. 0) w' \<and> gc_clean w' \<and> unreferred_objects w' = [] \<and>
    isolated_roots w' = [] \<and> garbage demo_world \<inter> live w' = {}"
  by (rule collect_garbage_frees_garbage [OF demo_dtors demo_ready])


lemma demo_reach: "(1, 2) \<in> reach (coreh demo_world)"
  by (rule reach_step [OF _ reach_refl])
    (simp add: succs_def coreh_def demo_world_def demo_heap_def demo_obj_def obj_gc_refs_def)


section \<open>Reference counting\<close>

text \<open>
  C4: Dropping a reference returns without a fault and keeps every count equal to the number
  of references: the heap is consistent with one reference fewer to the object held outside.
\<close>

theorem unref_keeps_counts:
  assumes "dtors_neutral E" and "heap_ok {} (ext(a := Suc (ext a))) wext w" and "pinned ext w" and "enough_fuel E w"
  shows "\<exists>w'. di_unref_object E a w = Ret () w' \<and> heap_ok {} ext wext w' \<and> shrinks w w'"
  using assms by (rule unref_object_ok)

lemma demo_ext_suc: "demo_ext = (\<lambda>_. 0)(1 := Suc ((\<lambda>_. 0) (1 :: addr)))"
  by (rule ext) (simp add: demo_ext_def)

lemmas demo_heap_ok_suc = demo_heap_ok [unfolded demo_ext_suc]

theorem unref_keeps_counts_witness:
  "\<exists>w'. di_unref_object demo_env 1 demo_world = Ret () w' \<and> heap_ok {} (\<lambda>_. 0) (\<lambda>_. 0) w' \<and> shrinks demo_world w'"
  by (rule unref_keeps_counts [OF demo_dtors demo_heap_ok_suc demo_pinned demo_fuel(2)])

text \<open>
  C5: When the last strong reference goes, the object is gone too: it is freed, or, while weak
  references remain, it is destroyed with an empty member table and exactly their number as its weak count.
\<close>

theorem unref_last:
  assumes "dtors_neutral E" and "heap_ok {} (ext(a := Suc (ext a))) wext w" and "pinned ext w" and "enough_fuel E w"
    and "objs w a = Some ob" and "ref_count ob = 1"
  shows "\<exists>w'. di_unref_object E a w = Ret () w' \<and>
    (case objs w' a of None \<Rightarrow> weak_in (objs w') a + wext a = 0
     | Some ob' \<Rightarrow> ref_count ob' = 0 \<and> destroyed ob' \<and> members ob' = [] \<and>
         unat (weak_ref_count ob') = weak_in (objs w') a + wext a \<and> 0 < weak_in (objs w') a + wext a)"
  using unref_object_ok [OF assms(1-4)] last_reference [OF assms(2,5,6)] by blast

theorem unref_last_witness:
  "\<exists>w'. di_unref_object demo_env 1 demo_world = Ret () w' \<and>
    (case objs w' 1 of None \<Rightarrow> weak_in (objs w') 1 + 0 = 0
     | Some ob' \<Rightarrow> ref_count ob' = 0 \<and> destroyed ob' \<and> members ob' = [] \<and>
         unat (weak_ref_count ob') = weak_in (objs w') 1 + 0 \<and> 0 < weak_in (objs w') 1 + 0)"
  by (rule unref_last [OF demo_dtors demo_heap_ok_suc demo_pinned demo_fuel(2),
        of "demo_obj 1 [(''child'', V_object 2)]"])
    (simp_all add: demo_world_def demo_heap_def demo_obj_def)

text \<open>
  Copying a well-typed value and freeing the copy leaves every reference count as it was.
\<close>

theorem copy_free_balanced:
  assumes "dtors_neutral E" and "wt_value v" and "heap_ok {} ext wext w"
    and "copy_room ext wext (refs_of v) (weak_refs_of v) w" and "pinned ext w" and "enough_fuel E w"
  shows "\<exists>w'. mbind (di_copy_value v) (di_free_value E) w = Ret () w' \<and> heap_ok {} ext wext w'"
  using assms by (rule copy_free_ok)

theorem copy_free_balanced_witness:
  "\<exists>w'. mbind (di_copy_value (V_tuple [V_object 2, V_weak_object 3])) (di_free_value demo_env) demo_world = Ret () w' \<and>
    heap_ok {} demo_ext (\<lambda>_. 0) w'"
proof (rule copy_free_balanced [OF demo_dtors _ demo_heap_ok _ demo_pinned demo_fuel(2)])
  show "copy_room demo_ext (\<lambda>_. 0) (refs_of (V_tuple [V_object 2, V_weak_object 3]))
      (weak_refs_of (V_tuple [V_object 2, V_weak_object 3])) demo_world"
    using demo_live demo_dom by (auto simp: copy_room_def demo_world_def demo_strong demo_weak demo_ext_def)
qed simp

section \<open>Raw members\<close>

text \<open>
  A raw set stores a copy of the value: the old value of the member is released, the counts
  stay consistent, and a raw get returns the value.
\<close>

theorem rawset_rawget:
  assumes "dtors_neutral E" and "heap_ok {} ext wext w" and "0 < ext a" and "pinned ext w" and "enough_fuel E w"
    and wt: "wt_value v" "v \<noteq> V_nil" and "\<And>b. b \<in> set (refs_of v) \<Longrightarrow> 0 < ext b" and "\<And>b. b \<in> set (weak_refs_of v) \<Longrightarrow> 0 < wext b"
    and "count_room (length (refs_of v) + length (weak_refs_of v) + 2) w" and ob: "objs w a = Some ob"
  shows "\<exists>w'. di_rawsetx E a (Some k) v w = Ret 0 w' \<and> heap_ok {} ext wext w' \<and>
    di_refrawgetx a (Some k) w' = Ret (0, copied v) w'"
proof -
  from rawsetx_ok [OF assms] obtain w' ob' where w': "di_rawsetx E a (Some k) v w = Ret 0 w'"
    "heap_ok {} ext wext w'" "objs w' a = Some ob'" "members ob' = hash_add k (copied v) (hash_del k (members ob))"
    by blast
  have "distinct (hash_keys (members ob))" using heap_okD(4) [OF assms(2) ob] by (simp add: obj_ok_def)
  then have "hash_find k (members ob') = Some (copied v)"
    unfolding w'(4) by (subst hash_find_add) (simp_all add: hash_find_del)
  moreover obtain sz where "di_sizeof_type (typeof (copied v)) = Some sz" "0 < sz"
    using sizeof_nonzero [of v] wt by auto
  ultimately have "di_refrawgetx a (Some k) w' = Ret (0, copied v) w'"
    using w'(3) by (simp add: di_refrawgetx_def di_lookup_def outcome_simps heap_simps)
  with w' show ?thesis by blast
qed

theorem rawset_rawget_witness:
  "\<exists>w'. di_rawsetx demo_env 1 (Some ''child'') (V_nint 7) demo_world = Ret 0 w' \<and> heap_ok {} demo_ext (\<lambda>_. 0) w' \<and>
    di_refrawgetx 1 (Some ''child'') w' = Ret (0, copied (V_nint 7)) w'"
  by (rule rawset_rawget [OF demo_dtors demo_heap_ok _ demo_pinned demo_fuel(2), where ob = "demo_obj 1 [(''child'', V_object 2)]"])
    (auto simp: demo_ext_def count_room_def demo_world_def demo_obj_def di_init_object_def demo_heap_def)

end
