(* ===== verification/Deai_Conv.thy ===== *)
theory Deai_Conv
  imports Deai_Object
begin

text \<open>
  Conversion between value types: \<^verbatim>\<open>di_type_conversion\<close> and \<^verbatim>\<open>di_int_conversion\<close> of
  \<^verbatim>\<open>bindings/c++/conv.cc\<close>.  An owning conversion consumes its input: what the converter still
  holds when it is destroyed is freed.  A borrowing conversion hands out parts of its input.
  A result that points into storage the converter has freed, or a read through a length taken
  for a pointer, is a fault raised at the conversion.
\<close>

section \<open>Checked integers\<close>

text \<open>\<^verbatim>\<open>DeaiCheckedIntConverter\<close>: a 64-bit pattern and whether it is unsigned.\<close>

datatype checked_int = Chk_unsigned u64 | Chk_signed u64

fun chk_value :: "checked_int \<Rightarrow> int" where
  "chk_value (Chk_unsigned u) = uint u"
| "chk_value (Chk_signed i) = sint i"

text \<open>The conversion operators to \<^verbatim>\<open>intN_t\<close> and \<^verbatim>\<open>uintN_t\<close>.\<close>

fun chk_to_int :: "nat \<Rightarrow> checked_int \<Rightarrow> int option" where
  "chk_to_int bits (Chk_unsigned u) =
     (if uint u > 2 ^ (bits - 1) - 1 then None else Some (uint u))"
| "chk_to_int bits (Chk_signed i) =
     (if sint i > 2 ^ (bits - 1) - 1 \<or> sint i < - (2 ^ (bits - 1)) then None else Some (sint i))"

fun chk_to_uint :: "nat \<Rightarrow> checked_int \<Rightarrow> int option" where
  "chk_to_uint bits (Chk_unsigned u) =
     (let ret = uint u mod 2 ^ bits in if ret \<noteq> uint u then None else Some ret)"
| "chk_to_uint bits (Chk_signed i) =
     (if sint i < 0 then None
      else let ret = sint i mod 2 ^ bits in if ret \<noteq> sint i then None else Some ret)"

text \<open>
  The cast of an integer to a binary64 number, rounding to nearest, ties to even: the bit
  pattern.
\<close>

fun bit_length :: "nat \<Rightarrow> nat" where
  "bit_length n = (if n = 0 then 0 else Suc (bit_length (n div 2)))"

declare bit_length.simps [simp del]

definition round_half_even :: "nat \<Rightarrow> nat \<Rightarrow> nat" where
  "round_half_even n sh =
     (let q = n div 2 ^ sh; r = n mod 2 ^ sh
      in if 2 * r > 2 ^ sh \<or> (2 * r = 2 ^ sh \<and> odd q) then q + 1 else q)"

definition nat_to_double :: "nat \<Rightarrow> nat" where
  "nat_to_double n =
     (if n = 0 then 0
      else let e = bit_length n - 1;
               m = (if e \<le> 52 then n * 2 ^ (52 - e) else round_half_even n (e - 52))
           in (if m = 2 ^ 53 then (e + 1 + 1023) * 2 ^ 52 else (e + 1023) * 2 ^ 52 + (m - 2 ^ 52)))"

definition int_to_double :: "int \<Rightarrow> u64" where
  "int_to_double i =
     (if i < 0 then of_nat (2 ^ 63 + nat_to_double (nat (- i))) else of_nat (nat_to_double (nat i)))"

text \<open>The integer a value holds, for the four integer types.\<close>

fun checked_of :: "di_variant \<Rightarrow> checked_int option" where
  "checked_of (V_int i) = Some (Chk_signed i)"
| "checked_of (V_uint u) = Some (Chk_unsigned u)"
| "checked_of (V_nint i) = Some (Chk_signed (scast i))"
| "checked_of (V_nuint u) = Some (Chk_unsigned (ucast u))"
| "checked_of _ = None"

section \<open>Direct conversions\<close>

definition dead_weak_ref :: addr where "dead_weak_ref = 0"

text \<open>The element \<^verbatim>\<open>try_from_inner\<close> continues with.\<close>

fun inner_of :: "di_variant \<Rightarrow> di_variant option" where
  "inner_of (V_variant x) = Some x"
| "inner_of (V_tuple [x]) = Some x"
| "inner_of (V_array t [x]) = Some x"
| "inner_of _ = None"

text \<open>
  The \<^verbatim>\<open>DeaiNumber\<close> operator for the number types: \<open>None\<close> continues with the inner value,
  \<open>Some None\<close> is \<^verbatim>\<open>std::nullopt\<close>.
\<close>

definition number_direct :: "di_type \<Rightarrow> di_variant \<Rightarrow> di_variant option option" where
  "number_direct t v =
     (case checked_of v of
        Some c \<Rightarrow>
          Some (case t of
              DI_TYPE_INT \<Rightarrow> map_option (\<lambda>n. V_int (of_int n)) (chk_to_int 64 c)
            | DI_TYPE_UINT \<Rightarrow> map_option (\<lambda>n. V_uint (of_int n)) (chk_to_uint 64 c)
            | DI_TYPE_NINT \<Rightarrow> map_option (\<lambda>n. V_nint (of_int n)) (chk_to_int 32 c)
            | DI_TYPE_NUINT \<Rightarrow> map_option (\<lambda>n. V_nuint (of_int n)) (chk_to_uint 32 c)
            | DI_TYPE_FLOAT \<Rightarrow> Some (V_float (int_to_double (chk_value c)))
            | _ \<Rightarrow> None)
      | None \<Rightarrow>
          (case v of
             V_float d \<Rightarrow> Some (if t = DI_TYPE_FLOAT then Some (V_float d) else None)
           | _ \<Rightarrow> None))"

text \<open>
  \<^verbatim>\<open>tuple_to_array\<close>: the result and what stays in the converter, to be freed.
\<close>

definition tuple_to_array :: "di_variant list \<Rightarrow> (di_variant option \<times> di_variant) M" where
  "tuple_to_array es =
     (case es of
        [] \<Rightarrow> mret (Some (V_array DI_TYPE_NIL []), V_tuple [])
      | [x] \<Rightarrow> mcrash Use_after_free
      | x # _ \<Rightarrow>
          (case di_sizeof_type (typeof x) of
             None \<Rightarrow> mcrash Panic
           | Some _ \<Rightarrow>
               if (\<exists>y \<in> set es. typeof y \<noteq> typeof x) then mret (None, V_tuple es)
               else mret (Some (V_array (typeof x) es), V_nil)))"

definition array_to_tuple :: "di_type \<Rightarrow> di_variant list \<Rightarrow> (di_variant option \<times> di_variant) M" where
  "array_to_tuple t es =
     (if es = [] then mret (Some (V_tuple []), V_array t [])
      else case di_sizeof_type t of None \<Rightarrow> mcrash Panic | Some _ \<Rightarrow> mret (Some (V_tuple es), V_nil))"

text \<open>Values whose data live in storage of their own, which freeing them releases.\<close>

fun owns_storage :: "di_variant \<Rightarrow> bool" where
  "owns_storage (V_string s) \<longleftrightarrow> s \<noteq> None"
| "owns_storage (V_array t vs) \<longleftrightarrow> vs \<noteq> []"
| "owns_storage (V_tuple vs) \<longleftrightarrow> vs \<noteq> []"
| "owns_storage (V_variant v) \<longleftrightarrow> True"
| "owns_storage _ \<longleftrightarrow> False"

text \<open>
  The owning conversion operators, one per target type: \<open>None\<close> continues with the inner
  value; otherwise the result and what stays in the converter.
\<close>

fun direct_owned :: "di_type \<Rightarrow> di_variant \<Rightarrow> (di_variant option \<times> di_variant) M option" where
  "direct_owned DI_TYPE_STRING v =
     (case v of
        V_string s \<Rightarrow> Some (mret (Some v, V_nil))
      | V_string_literal s \<Rightarrow> Some (mret (Some (V_string (di_string_ndup s (length s))), v))
      | _ \<Rightarrow> None)"
| "direct_owned DI_TYPE_STRING_LITERAL v =
     (case v of V_string_literal s \<Rightarrow> Some (mret (Some v, v)) | _ \<Rightarrow> None)"
| "direct_owned DI_TYPE_ARRAY v =
     (case v of
        V_array t es \<Rightarrow> Some (mret (Some v, V_nil))
      | V_nil \<Rightarrow> Some (mret (Some (V_array DI_TYPE_NIL []), v))
      | V_empty_object a \<Rightarrow> Some (mret (Some (V_array DI_TYPE_NIL []), v))
      | V_tuple es \<Rightarrow> Some (tuple_to_array es)
      | _ \<Rightarrow> None)"
| "direct_owned DI_TYPE_TUPLE v =
     (case v of
        V_tuple es \<Rightarrow> Some (mret (Some v, V_nil))
      | V_nil \<Rightarrow> Some (mret (Some (V_tuple []), v))
      | V_empty_object a \<Rightarrow> Some (mret (Some (V_tuple []), v))
      | V_array t es \<Rightarrow> Some (array_to_tuple t es)
      | _ \<Rightarrow> None)"
| "direct_owned DI_TYPE_OBJECT v =
     (case v of
        V_object a \<Rightarrow> Some (mret (Some (V_object a), V_nil))
      | V_empty_object a \<Rightarrow> Some (mret (Some (V_object a), V_nil))
      | V_weak_object a \<Rightarrow>
          Some (mbind (di_upgrade_weak_ref a) (\<lambda>r.
            mret (map_option V_object r, v)))
      | _ \<Rightarrow> None)"
| "direct_owned DI_TYPE_WEAK_OBJECT v =
     (case v of
        V_weak_object a \<Rightarrow> Some (mret (Some v, V_nil))
      | V_object a \<Rightarrow> Some (mbind (di_weakly_ref_object a) (\<lambda>r. mret (Some (V_weak_object r), v)))
      | V_empty_object a \<Rightarrow> Some (mbind (di_weakly_ref_object a) (\<lambda>r. mret (Some (V_weak_object r), v)))
      | V_nil \<Rightarrow> Some (mret (Some (V_weak_object dead_weak_ref), v))
      | _ \<Rightarrow> None)"
| "direct_owned DI_TYPE_POINTER v =
     (case v of
        V_nil \<Rightarrow> Some (mret (Some (V_pointer 0), v))
      | V_pointer p \<Rightarrow> Some (mret (Some v, v))
      | _ \<Rightarrow> None)"
| "direct_owned DI_TYPE_BOOL v =
     (case v of V_bool b \<Rightarrow> Some (mret (Some v, v)) | _ \<Rightarrow> None)"
| "direct_owned DI_TYPE_VARIANT v =
     Some (case di_sizeof_type (typeof v) of
             None \<Rightarrow> mcrash Panic
           | Some _ \<Rightarrow> if owns_storage v then mcrash Use_after_free else mret (Some (V_variant v), v))"
| "direct_owned t v =
     (if t \<in> {DI_TYPE_INT, DI_TYPE_UINT, DI_TYPE_NINT, DI_TYPE_NUINT, DI_TYPE_FLOAT}
      then map_option (\<lambda>r. mret (r, v)) (number_direct t v)
      else Some (mret (None, v)))"

text \<open>The borrowing ones; tuples and arrays of more than zero elements do not convert.\<close>

fun direct_borrowed :: "di_type \<Rightarrow> di_variant \<Rightarrow> di_variant option option" where
  "direct_borrowed DI_TYPE_STRING v =
     (case v of
        V_string s \<Rightarrow> Some (Some v)
      | V_string_literal s \<Rightarrow> Some (Some (V_string (di_string_borrow s)))
      | _ \<Rightarrow> None)"
| "direct_borrowed DI_TYPE_STRING_LITERAL v =
     (case v of V_string_literal s \<Rightarrow> Some (Some v) | _ \<Rightarrow> None)"
| "direct_borrowed DI_TYPE_ARRAY v =
     (case v of
        V_array t es \<Rightarrow> Some (Some v)
      | V_nil \<Rightarrow> Some (Some (V_array DI_TYPE_NIL []))
      | V_empty_object a \<Rightarrow> Some (Some (V_array DI_TYPE_NIL []))
      | V_tuple es \<Rightarrow> Some (case es of
            [] \<Rightarrow> Some (V_array DI_TYPE_NIL []) | [x] \<Rightarrow> Some (V_array (typeof x) [x]) | _ \<Rightarrow> None)
      | _ \<Rightarrow> None)"
| "direct_borrowed DI_TYPE_TUPLE v =
     (case v of
        V_tuple es \<Rightarrow> Some (Some v)
      | V_nil \<Rightarrow> Some (Some (V_tuple []))
      | V_empty_object a \<Rightarrow> Some (Some (V_tuple []))
      | V_array t es \<Rightarrow> Some (if es = [] then Some (V_tuple []) else None)
      | _ \<Rightarrow> None)"
| "direct_borrowed DI_TYPE_OBJECT v =
     (case v of
        V_object a \<Rightarrow> Some (Some (V_object a))
      | V_empty_object a \<Rightarrow> Some (Some (V_object a))
      | _ \<Rightarrow> None)"
| "direct_borrowed DI_TYPE_WEAK_OBJECT v =
     (case v of
        V_weak_object a \<Rightarrow> Some (Some v)
      | V_object a \<Rightarrow> Some (Some (V_weak_object a))
      | V_empty_object a \<Rightarrow> Some (Some (V_weak_object a))
      | V_nil \<Rightarrow> Some (Some (V_weak_object dead_weak_ref))
      | _ \<Rightarrow> None)"
| "direct_borrowed DI_TYPE_POINTER v =
     (case v of V_nil \<Rightarrow> Some (Some (V_pointer 0)) | V_pointer p \<Rightarrow> Some (Some v) | _ \<Rightarrow> None)"
| "direct_borrowed DI_TYPE_BOOL v =
     (case v of V_bool b \<Rightarrow> Some (Some v) | _ \<Rightarrow> None)"
| "direct_borrowed DI_TYPE_VARIANT v = Some (Some (V_variant v))"
| "direct_borrowed t v =
     (if t \<in> {DI_TYPE_INT, DI_TYPE_UINT, DI_TYPE_NINT, DI_TYPE_NUINT, DI_TYPE_FLOAT}
      then number_direct t v else Some None)"

section \<open>The converters\<close>

lemma inner_of_size: "inner_of v = Some x \<Longrightarrow> size x < size v"
  by (induction v rule: inner_of.induct) simp_all

text \<open>\<^verbatim>\<open>DeaiVariantConverter<false>\<close>, its destructor included.\<close>

function convert_owned :: "env \<Rightarrow> di_type \<Rightarrow> di_variant \<Rightarrow> di_variant option M" where
  "convert_owned E t v =
     (case direct_owned t v of
        Some m \<Rightarrow> mbind m (\<lambda>(r, left). mseq (di_free_value E left) (mret r))
      | None \<Rightarrow>
          (case inner_of v of
             None \<Rightarrow> mseq (di_free_value E v) (mret None)
           | Some x \<Rightarrow> (case di_sizeof_type (typeof x) of
                 None \<Rightarrow> mcrash Panic
               | Some _ \<Rightarrow> convert_owned E t x)))"
  by pat_completeness auto
termination
  by (relation "measure (\<lambda>(E, t, v). size v)") (auto intro: inner_of_size)

declare convert_owned.simps [simp del]

text \<open>
  \<^verbatim>\<open>DeaiVariantConverter<true>\<close>: the inner value of a variant only; a tuple or an array of one
  element is read as if it were a variant, through its length.
\<close>

fun convert_borrowed :: "di_type \<Rightarrow> di_variant \<Rightarrow> di_variant option M" where
  "convert_borrowed t (V_variant x) =
     (case direct_borrowed t (V_variant x) of Some r \<Rightarrow> mret r | None \<Rightarrow> convert_borrowed t x)"
| "convert_borrowed t v =
     (case direct_borrowed t v of
        Some r \<Rightarrow> mret r
      | None \<Rightarrow> (case inner_of v of None \<Rightarrow> mret None | Some _ \<Rightarrow> mcrash Out_of_bounds))"

definition di_type_conversion :: "env \<Rightarrow> di_variant \<Rightarrow> di_type \<Rightarrow> bool \<Rightarrow> (int \<times> di_variant) M" where
  "di_type_conversion E from to_type borrowing =
     (if typeof from = to_type
      then (case di_sizeof_type to_type of None \<Rightarrow> mcrash Panic | Some _ \<Rightarrow> mret (0, from))
      else mbind (if borrowing then convert_borrowed to_type from else convert_owned E to_type from)
             (\<lambda>r. case r of None \<Rightarrow> mret (- EINVAL, V_nil) | Some v \<Rightarrow> mret (0, v)))"

text \<open>
  \<^verbatim>\<open>di_int_conversion\<close> to an integer of 8, 16, 32 or 64 bits; other widths abort.
\<close>

fun convert_int :: "nat \<Rightarrow> bool \<Rightarrow> di_variant \<Rightarrow> int option M" where
  "convert_int bits uns (V_variant x) = convert_int bits uns x"
| "convert_int bits uns v =
     (case checked_of v of
        Some c \<Rightarrow> mret (if uns then chk_to_uint bits c else chk_to_int bits c)
      | None \<Rightarrow> (case inner_of v of None \<Rightarrow> mret None | Some _ \<Rightarrow> mcrash Out_of_bounds))"

definition di_int_conversion :: "di_variant \<Rightarrow> nat \<Rightarrow> bool \<Rightarrow> (int \<times> int) M" where
  "di_int_conversion from to_bits to_unsigned =
     (if to_bits \<notin> {8, 16, 32, 64} then mcrash Panic
      else mbind (convert_int to_bits to_unsigned from)
             (\<lambda>r. case r of None \<Rightarrow> mret (- EINVAL, 0) | Some n \<Rightarrow> mret (0, n)))"

end
