(* ===== verification/Deai_Property.thy ===== *)
theory Deai_Property
  imports Deai_Conv
begin

text \<open>
  Members seen through getters, setters and deleters, and calls: the generic accessors of
  \<^verbatim>\<open>object.c\<close>, \<^verbatim>\<open>di_call_object\<close> of \<^verbatim>\<open>callable.c\<close> and \<^verbatim>\<open>di_call_object_catch\<close> of
  \<^verbatim>\<open>exception.cc\<close>.  The output parameter \<^verbatim>\<open>error\<close> of the C functions is modelled by a flag that
  says whether it is non-null and by the error object that is stored in it.
\<close>

definition MAX_NARGS :: nat where "MAX_NARGS = 128"

section \<open>Calls\<close>

definition di_call_object :: "env \<Rightarrow> addr \<Rightarrow> di_tuple \<Rightarrow> (int \<times> di_variant) M" where
  "di_call_object E o' args =
     mbind (get_obj o') (\<lambda>ob. case call ob of None \<Rightarrow> mcrash Null_deref | Some f \<Rightarrow> e_call E f o' args)"

definition di_call_object_catch :: "env \<Rightarrow> addr \<Rightarrow> di_tuple \<Rightarrow> (int \<times> di_variant \<times> addr option) M" where
  "di_call_object_catch E o' args =
     mcatch (mbind (di_call_object E o' args) (\<lambda>(rc, v). mret (rc, v, None)))
            (\<lambda>e. mret (0, V_nil, Some e))"

text \<open>The call with or without an error output.\<close>

definition call_maybe_catch :: "env \<Rightarrow> bool \<Rightarrow> addr \<Rightarrow> di_tuple \<Rightarrow> (int \<times> di_variant \<times> addr option) M" where
  "call_maybe_catch E catch o' args =
     (if catch then di_call_object_catch E o' args
      else mbind (di_call_object E o' args) (\<lambda>(rc, v). mret (rc, v, None)))"

text \<open>The contents of a return value variable that was not initialised before the call.\<close>

definition uninit_ret :: "env \<Rightarrow> di_variant \<Rightarrow> di_variant" where
  "uninit_ret E v = (if v = V_last then e_junk E else v)"

section \<open>Handlers\<close>

text \<open>The argument of a handler; \<^verbatim>\<open>DI_LAST_TYPE\<close> stands for no argument.\<close>

definition handler_arg :: "di_variant \<Rightarrow> di_variant list" where
  "handler_arg arg = (if arg = V_last then [] else [arg])"

definition handler_name :: "c_string \<Rightarrow> di_string \<Rightarrow> di_string" where
  "handler_name pfx name = Some (pfx @ ''_'' @ c_str (str_bytes name))"

text \<open>
  \<^verbatim>\<open>call_handler_with_fallback\<close>: the return code, the value of the handler, the error object and
  whether a handler was found.  The value is freed when the caller does not want it.
\<close>

definition call_handler_with_fallback ::
  "env \<Rightarrow> addr \<Rightarrow> c_string \<Rightarrow> di_string \<Rightarrow> di_variant \<Rightarrow> bool \<Rightarrow> bool \<Rightarrow> (int \<times> di_variant \<times> addr option \<times> bool) M" where
  "call_handler_with_fallback E o' pfx name arg want_ret catch =
     mbind (di_rawget_borrowed o' (handler_name pfx name) DI_TYPE_OBJECT) (\<lambda>(rc1, h1).
     mbind (case (rc1 = 0, h1) of
              (True, V_object handler) \<Rightarrow>
                mbind (call_maybe_catch E catch handler (V_object o' # handler_arg arg))
                  (\<lambda>(rc, v, err). mret (rc, v, err, True))
            | _ \<Rightarrow> mret (- ENOENT, V_last, None, False)) (\<lambda>(rc, v, err, found).
     mbind (if rc = 0 then mret (rc, v, err, found)
            else mbind (di_rawget_borrowed o' (di_string_borrow pfx) DI_TYPE_OBJECT) (\<lambda>(rc2, h2).
                 case (rc2 = 0, h2) of
                   (True, V_object handler) \<Rightarrow>
                     mbind (call_maybe_catch E catch handler (V_object o' # V_string name # handler_arg arg))
                       (\<lambda>(rc, v, err). mret (rc, v, err, True))
                 | _ \<Rightarrow> mret (rc, v, err, found))) (\<lambda>(rc, v, err, found).
     if rc = 0 \<and> \<not> want_ret then mseq (di_free_value E v) (mret (rc, V_nil, err, found))
     else mret (rc, v, err, found))))"

definition di_setx :: "env \<Rightarrow> addr \<Rightarrow> di_string \<Rightarrow> di_variant \<Rightarrow> bool \<Rightarrow> (int \<times> addr option) M" where
  "di_setx E o' prop v catch =
     mbind (call_handler_with_fallback E o' ''__set'' prop v False catch) (\<lambda>(rc, _, err, found).
     if found then mret (rc, err)
     else
     mbind (call_handler_with_fallback E o' ''__delete'' prop V_last False catch) (\<lambda>(rc, _, err, found).
     if found \<and> rc \<noteq> 0 then mret (rc, err)
     else
     mbind (di_lookup o' prop) (\<lambda>mem.
     case mem of
       None \<Rightarrow> mbind (di_add_member_clone E o' prop v) (\<lambda>rc. mret (rc, err))
     | Some old \<Rightarrow>
         mseq (di_free_value E old)
         (mbind (di_lookup o' prop) (\<lambda>mem'.
          case mem' of
            None \<Rightarrow> mcrash Use_after_free
          | Some _ \<Rightarrow>
              (case di_sizeof_type (typeof v) of
                 None \<Rightarrow> mcrash Panic
               | Some _ \<Rightarrow>
                   mbind (di_copy_value v) (\<lambda>v'.
                   mseq (upd_obj o' (\<lambda>ob. ob\<lparr>members := hash_set (str_bytes prop) v' (members ob)\<rparr>))
                   (mret (0, err)))))))))"

text \<open>\<^verbatim>\<open>di_free_last_type\<close>: does the value stand for a property that does not exist?\<close>

fun di_free_last_type :: "di_variant \<Rightarrow> bool" where
  "di_free_last_type V_last = True"
| "di_free_last_type (V_variant v) = di_free_last_type v"
| "di_free_last_type _ = False"

definition di_getx :: "env \<Rightarrow> addr \<Rightarrow> di_string \<Rightarrow> bool \<Rightarrow> (int \<times> di_variant \<times> addr option) M" where
  "di_getx E o' prop catch =
     mbind (di_rawgetx o' prop) (\<lambda>(rc, v).
     if rc = 0 then mret (0, v, None)
     else
     mbind (call_handler_with_fallback E o' ''__get'' prop V_last True catch) (\<lambda>(rc, v, err, _).
     if rc \<noteq> 0 then mret (rc, V_nil, err)
     else if err \<noteq> None then mret (0, v, err)
     else if di_free_last_type v then mret (- ENOENT, V_nil, None)
     else mret (0, v, None)))"

definition di_getxt :: "env \<Rightarrow> addr \<Rightarrow> di_string \<Rightarrow> di_type \<Rightarrow> bool \<Rightarrow> (int \<times> di_variant \<times> addr option) M" where
  "di_getxt E o' prop rtype catch =
     mbind (di_getx E o' prop catch) (\<lambda>(rc, v, err).
     if rc \<noteq> 0 then mret (rc, V_nil, err)
     else mbind (di_type_conversion E v rtype False) (\<lambda>(rc, v'). mret (rc, v', err)))"

text \<open>\<^verbatim>\<open>di_get\<close>: the typed getter without an error output.\<close>

definition di_get :: "env \<Rightarrow> addr \<Rightarrow> di_string \<Rightarrow> di_type \<Rightarrow> (int \<times> di_variant) M" where
  "di_get E o' prop rtype =
     mbind (di_getxt E o' prop rtype False) (\<lambda>(rc, v, _). mret (rc, v))"

definition di_rawgetxt :: "env \<Rightarrow> addr \<Rightarrow> di_string \<Rightarrow> di_type \<Rightarrow> (int \<times> di_variant) M" where
  "di_rawgetxt E o' prop rtype =
     mbind (di_rawgetx o' prop) (\<lambda>(rc, v).
     if rc \<noteq> 0 then mret (rc, V_nil) else di_type_conversion E v rtype False)"

text \<open>\<^verbatim>\<open>di_get_type\<close>: the type name, or the error of the error pointer.\<close>

definition di_get_type :: "env \<Rightarrow> addr \<Rightarrow> (int + c_string) M" where
  "di_get_type E o' =
     mbind (di_rawgetxt E o' (Some ''__type'') DI_TYPE_STRING_LITERAL) (\<lambda>(rc, v).
     if rc \<noteq> 0 then (if rc = - ENOENT then mret (Inr ''deai:object'') else mret (Inl rc))
     else case v of V_string_literal s \<Rightarrow> mret (Inr s) | _ \<Rightarrow> mcrash Panic)"

definition di_check_type :: "env \<Rightarrow> addr \<Rightarrow> c_string \<Rightarrow> bool M" where
  "di_check_type E o' tyname =
     mbind (di_get_type E o') (\<lambda>ot. case ot of Inl _ \<Rightarrow> mret False | Inr s \<Rightarrow> mret (s = tyname))"

definition di_delete_member :: "env \<Rightarrow> addr \<Rightarrow> di_string \<Rightarrow> bool \<Rightarrow> (int \<times> addr option) M" where
  "di_delete_member E obj name catch =
     mbind (call_handler_with_fallback E obj ''__delete'' name V_last False catch) (\<lambda>(rc2, _, err, found).
     if found then mret (rc2, err)
     else mbind (di_delete_member_raw E obj name) (\<lambda>rc. mret (rc, err)))"

section \<open>Calling methods\<close>

text \<open>The return code, the return value, and whether the method was called.\<close>

definition di_call_internal :: "env \<Rightarrow> addr \<Rightarrow> addr \<Rightarrow> di_tuple \<Rightarrow> (int \<times> di_variant \<times> bool) M" where
  "di_call_internal E self method args =
     mbind (get_obj method) (\<lambda>ob.
     case call ob of
       None \<Rightarrow> mret (- EINVAL, V_nil, False)
     | Some f \<Rightarrow>
         mseq (mcheck Assert_failed (length args + 1 \<le> MAX_NARGS))
         (mbind (e_call E f method (V_object self # args)) (\<lambda>(rc, v).
         mseq (di_unref_object E method)
         (mret (rc, v, True)))))"

definition di_callx :: "env \<Rightarrow> addr \<Rightarrow> di_string \<Rightarrow> di_tuple \<Rightarrow> (int \<times> di_variant \<times> bool) M" where
  "di_callx E self name args =
     mbind (di_get E self name DI_TYPE_OBJECT) (\<lambda>(rc, v).
     if rc \<noteq> 0 then mret (rc, V_nil, False)
     else case v of V_object m \<Rightarrow> di_call_internal E self m args | _ \<Rightarrow> mcrash Panic)"

section \<open>Helpers of \<^verbatim>\<open>helper.h\<close>\<close>

text \<open>\<^verbatim>\<open>di_noop\<close>: it leaves the return type as the caller set it.\<close>

definition di_noop :: "addr \<Rightarrow> di_tuple \<Rightarrow> (int \<times> di_variant) M" where
  "di_noop o' args = mret (0, V_last)"

definition di_object_get_deai_strong :: "env \<Rightarrow> addr \<Rightarrow> addr option M" where
  "di_object_get_deai_strong E o' =
     mbind (di_get E o' (Some ''__deai'') DI_TYPE_OBJECT) (\<lambda>(rc, v).
     case (rc = 0, v) of (True, V_object a) \<Rightarrow> mret (Some a) | _ \<Rightarrow> mret None)"

definition di_object_borrow_deai :: "addr \<Rightarrow> addr option M" where
  "di_object_borrow_deai o' =
     mbind (di_rawget_borrowed o' (Some ''__deai'') DI_TYPE_OBJECT) (\<lambda>(rc, v).
     case (rc = 0, v) of (True, V_object a) \<Rightarrow> mret (Some a) | _ \<Rightarrow> mret None)"

text \<open>
  \<^verbatim>\<open>di_get_object_via_weak\<close>: a strong reference from a weak member; a member whose object is
  dead is removed.
\<close>

definition di_get_object_via_weak :: "env \<Rightarrow> addr \<Rightarrow> di_string \<Rightarrow> addr option M" where
  "di_get_object_via_weak E o' prop =
     mbind (di_rawgetxt E o' prop DI_TYPE_WEAK_OBJECT) (\<lambda>(rc, v).
     case (rc = 0, v) of
       (True, V_weak_object weak) \<Rightarrow>
         mscoped
           (mbind (di_upgrade_weak_ref weak) (\<lambda>r.
            case r of
              None \<Rightarrow> mbind (di_delete_member_raw E o' prop) (\<lambda>_. mret None)
            | Some a \<Rightarrow> mret (Some a)))
           (di_drop_weak_ref weak)
     | _ \<Rightarrow> mret None)"

section \<open>Calls by name\<close>

text \<open>\<^verbatim>\<open>di_call\<close>: the return value is freed.\<close>

definition di_call_void_impl :: "env \<Rightarrow> addr \<Rightarrow> di_string \<Rightarrow> di_tuple \<Rightarrow> int M" where
  "di_call_void_impl E o' name args =
     mbind (di_callx E o' name args) (\<lambda>(rc, ret, called).
     if rc \<noteq> 0 then mret rc
     else if called then mseq (di_free_value E (uninit_ret E ret)) (mret 0)
     else mret 0)"

text \<open>\<^verbatim>\<open>di_callr\<close>: the return value must have the type of the variable, no conversion is made.\<close>

definition di_callr :: "env \<Rightarrow> addr \<Rightarrow> c_string \<Rightarrow> di_type \<Rightarrow> di_tuple \<Rightarrow> (int \<times> di_variant) M" where
  "di_callr E o' name t args =
     mbind (di_callx E o' (di_string_borrow name) args) (\<lambda>(rc, ret, called).
     if rc \<noteq> 0 then mret (rc, V_nil)
     else let v = uninit_ret E ret in
          if typeof v \<noteq> t then mseq (di_free_value E v) (mret (- EINVAL, V_nil)) else mret (0, v))"

section \<open>Logging\<close>

definition DI_LOG_ERROR :: int where "DI_LOG_ERROR = 0"
definition DI_LOG_WARN :: int where "DI_LOG_WARN = 1"
definition DI_LOG_INFO :: int where "DI_LOG_INFO = 2"
definition DI_LOG_DEBUG :: int where "DI_LOG_DEBUG = 3"

lemmas log_level_defs = DI_LOG_ERROR_def DI_LOG_WARN_def DI_LOG_INFO_def DI_LOG_DEBUG_def

definition level_tostring :: "int \<Rightarrow> c_string option" where
  "level_tostring l =
     (if l = DI_LOG_DEBUG then Some ''debug'' else if l = DI_LOG_INFO then Some ''info''
      else if l = DI_LOG_WARN then Some ''warn'' else if l = DI_LOG_ERROR then Some ''error'' else None)"

text \<open>
  \<^verbatim>\<open>di_log_va\<close> with the text of the message: through the log module, or to the standard error
  when there is none.
\<close>

definition di_log_va :: "env \<Rightarrow> int \<Rightarrow> c_string \<Rightarrow> int M" where
  "di_log_va E level msg =
     mbind (mget log_module) (\<lambda>o'.
     case o' of
       None \<Rightarrow>
         mbind (mget saved_log_level) (\<lambda>saved.
         if level > saved then mret 0 else mseq (emit_effect (Log_error msg)) (mret (int (length msg))))
     | Some l \<Rightarrow>
         (case level_tostring level of
            None \<Rightarrow> mcrash Null_deref
          | Some s \<Rightarrow>
              mbind (di_call_object E l [V_object l, V_string_literal s, V_string (Some msg)]) (\<lambda>(_, ret).
              case ret of V_nint n \<Rightarrow> mret (sint n) | _ \<Rightarrow> mcrash Panic)))"

definition log_error :: "env \<Rightarrow> c_string \<Rightarrow> unit M" where
  "log_error E msg = mbind (di_log_va E DI_LOG_ERROR msg) (\<lambda>_. mret ())"

end
