(* ===== verification/Deai_Callable.thy ===== *)
theory Deai_Callable
  imports Deai_Property
begin

text \<open>
  Callable objects of \<^verbatim>\<open>callable.c\<close>: closures with captured arguments, methods, and field
  getters.  A native function is called through libffi with its arguments converted to the
  declared types; \<open>e_native\<close> of the environment gives its effect.
\<close>

section \<open>Calling a closure\<close>

text \<open>
  The loop of \<^verbatim>\<open>di_typed_trampoline\<close>: each argument is converted, borrowing, to the declared type;
  the first failure ends it.  The declared types are read from the closure's \<^verbatim>\<open>atypes\<close>.
\<close>

fun convert_args :: "env \<Rightarrow> di_type list \<Rightarrow> di_tuple \<Rightarrow> (int + di_tuple) M" where
  "convert_args E ts [] = mret (Inr [])"
| "convert_args E [] (v # vs) = mcrash Out_of_bounds"
| "convert_args E (t # ts) (v # vs) =
     (case di_sizeof_type t of
        None \<Rightarrow> mcrash Panic
      | Some _ \<Rightarrow>
          mbind (di_type_conversion E v t True) (\<lambda>(rc, v').
          if rc \<noteq> 0 then mret (Inl rc)
          else mbind (convert_args E ts vs) (\<lambda>r.
               case r of Inl e \<Rightarrow> mret (Inl e) | Inr vs' \<Rightarrow> mret (Inr (v' # vs')))))"

definition di_typed_trampoline :: "env \<Rightarrow> fn_ptr \<Rightarrow> di_type list \<Rightarrow> di_tuple \<Rightarrow> (int \<times> di_variant) M" where
  "di_typed_trampoline E fn fnats args =
     mseq (mcheck Assert_failed (length args \<le> MAX_NARGS))
     (mbind (convert_args E fnats args) (\<lambda>r.
      case r of
        Inl rc \<Rightarrow> mret (rc, V_nil)
      | Inr xargs \<Rightarrow> mbind (e_native E fn xargs) (\<lambda>v. mret (0, v))))"

definition closure_type :: c_string where "closure_type = ''deai:closure''"

definition closure_trampoline :: "env \<Rightarrow> addr \<Rightarrow> di_tuple \<Rightarrow> (int \<times> di_variant) M" where
  "closure_trampoline E o' t =
     mbind (di_check_type E o' closure_type) (\<lambda>ok.
     if \<not> ok then mret (- EINVAL, V_nil)
     else mbind (get_obj o') (\<lambda>ob.
       case payload ob of
         P_closure fn nargs rtype atypes \<Rightarrow>
           if length t \<noteq> nargs then mret (- EINVAL, V_nil) else di_typed_trampoline E fn atypes t
       | _ \<Rightarrow> mcrash Out_of_bounds))"

definition raw_closure_trampoline :: "env \<Rightarrow> addr \<Rightarrow> di_tuple \<Rightarrow> (int \<times> di_variant) M" where
  "raw_closure_trampoline E o' t =
     mbind (di_rawget_borrowed o' (di_string_borrow ''captures'') DI_TYPE_TUPLE) (\<lambda>(rc, c).
     let captures = (case (rc = 0, c) of (True, V_tuple cs) \<Rightarrow> cs | _ \<Rightarrow> []) in
     mbind (get_obj o') (\<lambda>ob.
     case payload ob of
       P_raw_closure raw_fn \<Rightarrow> e_call E raw_fn o' (captures @ t)
     | P_closure _ _ _ _ \<Rightarrow> closure_trampoline E o' (captures @ t)
     | _ \<Rightarrow> mcrash Out_of_bounds))"

definition free_closure :: "env \<Rightarrow> addr \<Rightarrow> unit M" where
  "free_closure E o' =
     mbind (di_check_type E o' closure_type) (\<lambda>ok. mcheck Assert_failed ok)"

section \<open>Creating closures\<close>

text \<open>
  The check of the captured values and of the declared argument types: \<open>None\<close> aborts, \<open>False\<close> is
  a type without a size.
\<close>

fun types_sized :: "di_type list \<Rightarrow> bool option" where
  "types_sized [] = Some True"
| "types_sized (t # ts) =
     (case di_sizeof_type t of
        None \<Rightarrow> None
      | Some sz \<Rightarrow> if sz = 0 then Some False else types_sized ts)"

definition di_create_raw_closure_with :: "env \<Rightarrow> payload \<Rightarrow> di_tuple \<Rightarrow> (int + addr) M" where
  "di_create_raw_closure_with E p captures =
     mbind (di_new_object_with_type p) (\<lambda>cl.
     mseq (upd_obj cl (\<lambda>ob. ob\<lparr>call := Some ''raw_closure_trampoline''\<rparr>))
     (mbind (di_add_member_clone E cl (di_string_borrow ''captures'') (V_tuple captures)) (\<lambda>_.
      mbind (di_set_type E cl ''deai:raw_closure'') (\<lambda>rc.
      if rc \<noteq> 0 then mret (Inl rc) else mret (Inr cl)))))"

definition di_create_raw_closure :: "env \<Rightarrow> fn_ptr \<Rightarrow> di_tuple \<Rightarrow> (int + addr) M" where
  "di_create_raw_closure E fn captures =
     (if length captures > MAX_NARGS then mret (Inl (- E2BIG))
      else case types_sized (map typeof captures) of
          None \<Rightarrow> mcrash Panic
        | Some False \<Rightarrow> mret (Inl (- EINVAL))
        | Some True \<Rightarrow> di_create_raw_closure_with E (P_raw_closure fn) captures)"

text \<open>\<^verbatim>\<open>di_type_to_ffi\<close>: the types that have an entry in its table.\<close>

definition di_type_to_ffi :: "di_type \<Rightarrow> bool" where
  "di_type_to_ffi t \<longleftrightarrow> t \<notin> {DI_TYPE_ANY, DI_TYPE_EMPTY_OBJECT, DI_LAST_TYPE}"

definition di_ffi_prep_cif :: "env \<Rightarrow> di_type \<Rightarrow> di_type list \<Rightarrow> bool M" where
  "di_ffi_prep_cif E rtype atypes =
     mseq (mcheck Assert_failed (\<forall>t \<in> set (rtype # atypes). di_type_to_ffi t))
     (mret (e_ffi_prep E rtype atypes))"

definition di_create_closure :: "env \<Rightarrow> fn_ptr \<Rightarrow> di_type \<Rightarrow> di_tuple \<Rightarrow> di_type list \<Rightarrow> (int + addr) M" where
  "di_create_closure E fn rtype captures arg_types =
     (if length captures + length arg_types > MAX_NARGS then mret (Inl (- E2BIG))
      else case types_sized (map typeof captures @ arg_types) of
          None \<Rightarrow> mcrash Panic
        | Some False \<Rightarrow> mret (Inl (- EINVAL))
        | Some True \<Rightarrow>
            (let atypes = map typeof captures @ arg_types in
             mbind (di_create_raw_closure_with E (P_closure fn (length atypes) rtype atypes) captures) (\<lambda>r.
             case r of
               Inl rc \<Rightarrow> mcrash Null_deref
             | Inr cl \<Rightarrow>
                 mbind (di_ffi_prep_cif E rtype atypes) (\<lambda>ok.
                 if \<not> ok then mseq (di_unref_object E cl) (mret (Inl (- EINVAL)))
                 else
                 mseq (di_set_object_dtor cl (Some ''free_closure''))
                 (mbind (di_set_type E cl closure_type) (\<lambda>rc.
                  if rc \<noteq> 0 then mret (Inl rc) else mret (Inr cl)))))))"

text \<open>
  \<^verbatim>\<open>di_add_method\<close>; an error pointer that would be stored as the method is a fault.
\<close>

definition di_add_method :: "env \<Rightarrow> addr \<Rightarrow> di_string \<Rightarrow> fn_ptr \<Rightarrow> di_type \<Rightarrow> di_type list \<Rightarrow> int M" where
  "di_add_method E o' name fn rtype ats =
     (if length ats + 1 > MAX_NARGS then mret (- EINVAL)
      else if DI_TYPE_NIL \<in> set ats then mret (- EINVAL)
      else mbind (di_create_closure E fn rtype [] (DI_TYPE_OBJECT # ats)) (\<lambda>f.
           case f of
             Inl _ \<Rightarrow> mcrash Null_deref
           | Inr cl \<Rightarrow> di_add_member_move E o' name (V_object cl)))"

section \<open>Field getters\<close>

definition field_getter_type :: c_string where "field_getter_type = ''deai:FieldGetter''"

definition di_field_getter_call :: "env \<Rightarrow> addr \<Rightarrow> di_tuple \<Rightarrow> (int \<times> di_variant) M" where
  "di_field_getter_call E getter args =
     mbind (di_check_type E getter field_getter_type) (\<lambda>ok.
     mseq (mcheck Panic ok)
     (case args of
        [] \<Rightarrow> mcrash Out_of_bounds
      | V_object object # _ \<Rightarrow>
          mbind (get_obj getter) (\<lambda>g.
          case payload g of
            P_field_getter t off \<Rightarrow>
              mbind (get_obj object) (\<lambda>ob.
              mbind (di_copy_value (e_field E ob off t)) (\<lambda>v. mret (0, v)))
          | _ \<Rightarrow> mcrash Out_of_bounds)
      | _ \<Rightarrow> mcrash Panic))"

definition di_new_field_getter :: "env \<Rightarrow> di_type \<Rightarrow> nat \<Rightarrow> addr M" where
  "di_new_field_getter E type offset =
     mbind (di_new_object_with_type (P_field_getter type offset)) (\<lambda>ret.
     mseq (upd_obj ret (\<lambda>ob. ob\<lparr>call := Some ''di_field_getter_call''\<rparr>))
     (mbind (di_set_type E ret field_getter_type) (\<lambda>_. mret ret)))"

text \<open>\<^verbatim>\<open>di_new_module_with_size\<close>: a module object that knows the main object.\<close>

definition di_new_module :: "env \<Rightarrow> addr \<Rightarrow> payload \<Rightarrow> addr M" where
  "di_new_module E di p =
     mbind (di_new_object_with_type p) (\<lambda>pm.
     mbind (di_set_type E pm ''deai:module'') (\<lambda>_.
     mbind (di_add_member_clone E pm (di_string_borrow ''__deai'') (V_object di)) (\<lambda>_.
     mret pm)))"

end
