(* ===== verification/Deai_Format.thy ===== *)
theory Deai_Format
  imports Deai_Strings
begin

text \<open>
  The conversions of \<^verbatim>\<open>printf\<close> the program uses: decimal numbers (\<^verbatim>\<open>%d\<close>, \<^verbatim>\<open>%zu\<close>), hexadecimal
  numbers, and pointers (\<^verbatim>\<open>%p\<close>), and that different numbers print differently.
\<close>

definition digit_char :: "nat \<Rightarrow> char" where
  "digit_char d = char_of (if d < 10 then 48 + d else 87 + d)"

fun dec_string :: "nat \<Rightarrow> string" where
  "dec_string n = (if n < 10 then [digit_char n] else dec_string (n div 10) @ [digit_char (n mod 10)])"

fun hex_string :: "nat \<Rightarrow> string" where
  "hex_string n = (if n < 16 then [digit_char n] else hex_string (n div 16) @ [digit_char (n mod 16)])"

declare dec_string.simps [simp del] and hex_string.simps [simp del]

definition int_string :: "int \<Rightarrow> string" where
  "int_string i = (if i < 0 then ''-'' @ dec_string (nat (- i)) else dec_string (nat i))"

definition ptr_string :: "addr \<Rightarrow> string" where
  "ptr_string a = (if a = 0 then ''(nil)'' else ''0x'' @ hex_string a)"

lemma of_char_digit: "d < 16 \<Longrightarrow> of_char (digit_char d) = (if d < 10 then 48 + d else 87 + d)"
  by (simp add: digit_char_def take_bit_nat_eq_self)

lemma digit_char_inj:
  assumes "d < 16" and "d' < 16" and "digit_char d = digit_char d'"
  shows "d = d'"
  using arg_cong [OF assms(3), of "of_char :: char \<Rightarrow> nat"] assms(1,2)
  by (simp add: of_char_digit split: if_splits)

lemma hex_string_not_Nil [simp]: "hex_string n \<noteq> []" "[] \<noteq> hex_string n"
  by (subst hex_string.simps, simp)+

lemma hex_string_inj: "hex_string m = hex_string n \<Longrightarrow> m = n"
proof (induction m arbitrary: n rule: hex_string.induct)
  case (1 m)
  show ?case
  proof (cases "m < 16")
    case True
    with "1.prems" show ?thesis
      by (cases "n < 16") (auto simp: hex_string.simps [of m] hex_string.simps [of n] dest: digit_char_inj)
  next
    case False
    with "1.prems" have n: "\<not> n < 16"
      by (auto simp: hex_string.simps [of m] hex_string.simps [of n])
    with False "1.prems" have "hex_string (m div 16) = hex_string (n div 16)" "digit_char (m mod 16) = digit_char (n mod 16)"
      by (auto simp: hex_string.simps [of m] hex_string.simps [of n])
    with "1.IH" [OF False] have "m div 16 = n div 16" "m mod 16 = n mod 16"
      by (auto intro: digit_char_inj)
    then show ?thesis by (metis div_mult_mod_eq)
  qed
qed

lemma ptr_string_inj: "ptr_string a = ptr_string b \<Longrightarrow> a = b"
  by (auto simp: ptr_string_def dest: hex_string_inj split: if_splits)

text \<open>No conversion produces a NUL byte.\<close>

lemma digit_char_not_NUL: "d < 16 \<Longrightarrow> digit_char d \<noteq> NUL"
  using of_char_digit [of d] by (auto split: if_splits)

lemma hex_string_no_NUL: "NUL \<notin> set (hex_string n)"
proof (induction n rule: hex_string.induct)
  case (1 n)
  have "digit_char (n mod 16) \<noteq> NUL" by (rule digit_char_not_NUL) simp
  with 1 digit_char_not_NUL [of n] show ?case by (auto simp: hex_string.simps [of n])
qed

end
