(* ===== verification/Deai_Error.thy ===== *)
theory Deai_Error
  imports Deai_Callable Deai_Format
begin

text \<open>
  Error objects and the string form of objects: \<^verbatim>\<open>di_new_error_from_string\<close>,
  \<^verbatim>\<open>di_error_to_string\<close>, \<^verbatim>\<open>di_is_error\<close> and \<^verbatim>\<open>di_object_to_string\<close> of \<^verbatim>\<open>object.c\<close>, in a build without
  \<^verbatim>\<open>ENABLE_STACK_TRACE\<close>.
\<close>

definition error_type :: c_string where "error_type = ''deai:Error''"

text \<open>The methods of \<^verbatim>\<open>di_method\<close>: every closure takes the object first.\<close>

definition di_method :: "env \<Rightarrow> addr \<Rightarrow> c_string \<Rightarrow> fn_ptr \<Rightarrow> di_type \<Rightarrow> di_type list \<Rightarrow> int M" where
  "di_method E o' name fn rtype ats = di_add_method E o' (di_string_borrow name) fn rtype ats"

definition di_member :: "env \<Rightarrow> addr \<Rightarrow> c_string \<Rightarrow> di_variant \<Rightarrow> int M" where
  "di_member E o' name v = di_add_member_move E o' (di_string_borrow name) v"

definition di_member_clone :: "env \<Rightarrow> addr \<Rightarrow> c_string \<Rightarrow> di_variant \<Rightarrow> int M" where
  "di_member_clone E o' name v =
     (case di_sizeof_type (typeof v) of
        None \<Rightarrow> mcrash Panic
      | Some sz \<Rightarrow> if sz = 0 then mret (- EINVAL) else di_add_member_clone E o' (di_string_borrow name) v)"

text \<open>A statement whose return code is ignored, and \<^verbatim>\<open>DI_CHECK_OK\<close>.\<close>

definition ignore_rc :: "int M \<Rightarrow> unit M" where
  "ignore_rc m = mbind m (\<lambda>_. mret ())"

definition check_ok :: "int M \<Rightarrow> unit M" where
  "check_ok m = mbind m (\<lambda>rc. mcheck Panic (rc = 0))"

definition di_new_error_from_string ::
  "env \<Rightarrow> c_string option \<Rightarrow> int \<Rightarrow> c_string option \<Rightarrow> di_string \<Rightarrow> addr M" where
  "di_new_error_from_string E file line func message =
     mbind (di_new_object_with_type P_object) (\<lambda>err.
     mseq (ignore_rc (di_set_type E err error_type))
     (mseq (ignore_rc (di_method E err ''__to_string'' ''di_error_to_string'' DI_TYPE_STRING []))
     (mseq (ignore_rc (di_member E err ''error'' (V_string message)))
     (mseq (case file of None \<Rightarrow> mret ()
            | Some f \<Rightarrow> ignore_rc (di_member_clone E err ''file'' (V_string (di_string_borrow f))))
     (mseq (if line \<ge> 0 then ignore_rc (di_member E err ''line'' (V_nint (of_int line))) else mret ())
     (mseq (case func of None \<Rightarrow> mret ()
            | Some f \<Rightarrow> ignore_rc (di_member_clone E err ''func'' (V_string (di_string_borrow f))))
     (mret err)))))))"

text \<open>\<^verbatim>\<open>di_new_error\<close> of a message that is already formatted.\<close>

definition di_new_error :: "env \<Rightarrow> c_string \<Rightarrow> int \<Rightarrow> c_string \<Rightarrow> c_string \<Rightarrow> addr M" where
  "di_new_error E file line func msg = di_new_error_from_string E (Some file) line (Some func) (Some msg)"

definition di_throw :: "addr \<Rightarrow> 'a M" where
  "di_throw err = mthrow err"

definition di_is_error :: "env \<Rightarrow> addr \<Rightarrow> bool M" where
  "di_is_error E obj = di_check_type E obj error_type"

section \<open>The text of an error\<close>

text \<open>A borrowed member of a given type, or a default.\<close>

definition rawget_or :: "addr \<Rightarrow> c_string \<Rightarrow> di_type \<Rightarrow> di_variant \<Rightarrow> di_variant M" where
  "rawget_or o' name t d =
     mbind (di_rawget_borrowed o' (di_string_borrow name) t) (\<lambda>(rc, v). mret (if rc = 0 then v else d))"

fun string_of_variant :: "di_variant \<Rightarrow> di_string" where
  "string_of_variant (V_string s) = s"
| "string_of_variant _ = None"

fun nint_of_variant :: "di_variant \<Rightarrow> int" where
  "nint_of_variant (V_nint i) = sint i"
| "nint_of_variant _ = -1"

text \<open>The line that says where the error was caught; \<^verbatim>\<open>%.*s\<close> prints up to the first NUL.\<close>

definition error_location :: "di_string \<Rightarrow> di_string \<Rightarrow> int \<Rightarrow> di_string" where
  "error_location func file line =
     (if str_length func > 0 \<or> str_length file > 0 \<or> line > 0
      then let func' = (if str_length func = 0 then Some ''<unknown>'' else func);
               file' = (if str_length file = 0 then Some ''??'' else file)
           in Some (''error caught in '' @ [CHR 0x22] @ c_str (str_bytes func') @ [CHR 0x22] @ '' ('' @
                    c_str (str_bytes file') @ '':'' @ int_string line @ ''): '')
      else Some ''error caught: '')"

definition rawgetxt_or :: "env \<Rightarrow> addr \<Rightarrow> c_string \<Rightarrow> c_string \<Rightarrow> di_string M" where
  "rawgetxt_or E o' name d =
     mbind (di_rawgetxt E o' (di_string_borrow name) DI_TYPE_STRING) (\<lambda>(rc, v).
     mret (if rc \<noteq> 0 then Some d else string_of_variant v))"

text \<open>The chain of sources is followed to a depth of at most the first argument.\<close>

fun di_error_to_string_fuel :: "nat \<Rightarrow> env \<Rightarrow> addr \<Rightarrow> di_string M" where
  "di_error_to_string_fuel 0 E err = mcrash Out_of_fuel"
| "di_error_to_string_fuel (Suc n) E err =
     mbind (rawget_or err ''func'' DI_TYPE_STRING V_nil) (\<lambda>func.
     mbind (rawget_or err ''file'' DI_TYPE_STRING V_nil) (\<lambda>file.
     mbind (rawget_or err ''line'' DI_TYPE_NINT V_nil) (\<lambda>line.
     mbind (rawget_or err ''source'' DI_TYPE_OBJECT V_nil) (\<lambda>source.
     mbind (case source of
              V_object s \<Rightarrow> mbind (di_error_to_string_fuel n E s) (\<lambda>str.
                mret [str, Some ([CHR 0x0A] @ ''While handling the above error, the following error occurred:'' @ [CHR 0x0A])])
            | _ \<Rightarrow> mret []) (\<lambda>parts1.
     mbind (rawgetxt_or E err ''error'' ''<unknown error>'') (\<lambda>error.
     mbind (rawgetxt_or E err ''detail'' ''(no detail)'') (\<lambda>detail.
     case di_string_join NUL (parts1 @
            [error_location (string_of_variant func) (string_of_variant file) (nint_of_variant line), error, detail])
            (Some [CHR 0x0A]) of
       None \<Rightarrow> mcrash Out_of_bounds
     | Some s \<Rightarrow> mret s)))))))"

definition di_error_to_string :: "env \<Rightarrow> addr \<Rightarrow> di_string M" where
  "di_error_to_string E err = di_error_to_string_fuel (e_fuel E) E err"

section \<open>The string form of an object\<close>

definition di_object_to_string_fallback :: "addr \<Rightarrow> di_string" where
  "di_object_to_string_fallback o' = Some (''[object:'' @ ptr_string o' @ '']'')"

text \<open>
  \<^verbatim>\<open>di_object_to_string\<close>: the string and the error.  The return value of the \<^verbatim>\<open>__to_string\<close> function
  is written to a buffer of the size of a \<^verbatim>\<open>di_string\<close>, which an array does not fit.
\<close>

definition di_object_to_string :: "env \<Rightarrow> addr \<Rightarrow> bool \<Rightarrow> (di_string \<times> addr option) M" where
  "di_object_to_string E o' catch =
     mbind (di_refrawgetx o' (di_string_borrow ''__to_string'')) (\<lambda>(rc, to_string).
     if rc \<noteq> 0 then mret (di_object_to_string_fallback o', None)
     else
     mbind (di_type_conversion E (V_variant to_string) DI_TYPE_STRING True) (\<lambda>(rc, s).
     if rc = 0 then mret (di_clone_string (string_of_variant s), None)
     else
     mbind (di_type_conversion E (V_variant to_string) DI_TYPE_OBJECT True) (\<lambda>(rc, conv).
     case (rc = 0, conv) of
       (True, V_object conv) \<Rightarrow>
         mbind (call_maybe_catch E catch conv [V_object o']) (\<lambda>(rc, ret, err).
         if typeof ret = DI_TYPE_ARRAY then mcrash Out_of_bounds
         else if rc \<noteq> 0 then mret (di_object_to_string_fallback o', None)
         else if err \<noteq> None then mret (DI_STRING_INIT, err)
         else
         mbind (di_type_conversion E (V_variant ret) DI_TYPE_STRING False) (\<lambda>(rc, s).
         if rc = 0 then mret (string_of_variant s, None)
         else mbind (di_new_error E ''object.c'' 1316 ''di_object_to_string'' ''__to_string did not return a string'') (\<lambda>e.
              if catch then mret (DI_STRING_INIT, Some e) else di_throw e)))
     | _ \<Rightarrow> mret (di_object_to_string_fallback o', None))))"

end
