(* ===== verification/Deai_Signal.thy ===== *)
theory Deai_Signal
  imports Deai_Error
begin

text \<open>
  Signals of \<^verbatim>\<open>object.c\<close>: a signal is an object that keeps its handlers as members named after
  their addresses and counts them; it is a member of its source as long as it has handlers.
  Listening returns a handle that refers weakly to both.
\<close>

definition HANDLER_PREFIX :: c_string where "HANDLER_PREFIX = ''handler_object_''"

definition handler_member_name :: "addr \<Rightarrow> di_string" where
  "handler_member_name h = Some (HANDLER_PREFIX @ ptr_string h)"

definition signal_member_name :: "di_string \<Rightarrow> di_string" where
  "signal_member_name name = Some (''__signal_'' @ c_str (str_bytes name))"

text \<open>The field \<^verbatim>\<open>nhandlers\<close> of \<^verbatim>\<open>struct di_signal\<close>.\<close>

definition get_nhandlers :: "addr \<Rightarrow> int M" where
  "get_nhandlers sig =
     mbind (get_obj sig) (\<lambda>ob. case payload ob of P_signal n \<Rightarrow> mret n | _ \<Rightarrow> mcrash Out_of_bounds)"

definition set_nhandlers :: "addr \<Rightarrow> int \<Rightarrow> unit M" where
  "set_nhandlers sig n = upd_obj sig (\<lambda>ob. ob\<lparr>payload := P_signal n\<rparr>)"

text \<open>A weak reference obtained with \<^verbatim>\<open>di_get\<close> and \<^verbatim>\<open>DI_CHECK_OK\<close>.\<close>

definition get_weak_checked :: "env \<Rightarrow> addr \<Rightarrow> c_string \<Rightarrow> addr M" where
  "get_weak_checked E o' name =
     mbind (di_get E o' (di_string_borrow name) DI_TYPE_WEAK_OBJECT) (\<lambda>(rc, v).
     case (rc = 0, v) of (True, V_weak_object a) \<Rightarrow> mret a | _ \<Rightarrow> mcrash Panic)"

definition get_string_checked :: "env \<Rightarrow> addr \<Rightarrow> c_string \<Rightarrow> di_string M" where
  "get_string_checked E o' name =
     mbind (di_get E o' (di_string_borrow name) DI_TYPE_STRING) (\<lambda>(rc, v).
     case (rc = 0, v) of (True, V_string s) \<Rightarrow> mret s | _ \<Rightarrow> mcrash Panic)"

text \<open>Cleanup of \<^verbatim>\<open>scoped_di_object\<close> and \<^verbatim>\<open>scoped_di_weak_object\<close> variables.\<close>

definition scoped_object :: "env \<Rightarrow> addr option \<Rightarrow> 'a M \<Rightarrow> 'a M" where
  "scoped_object E a m = mscoped m (case a of None \<Rightarrow> mret () | Some x \<Rightarrow> di_unref_object E x)"

definition scoped_weak :: "addr \<Rightarrow> 'a M \<Rightarrow> 'a M" where
  "scoped_weak a m = mscoped m (di_drop_weak_ref a)"

section \<open>Handlers of a signal\<close>

definition di_signal_add_handler :: "env \<Rightarrow> addr \<Rightarrow> addr \<Rightarrow> unit M" where
  "di_signal_add_handler E sig handler =
     mbind (di_add_member_clone E sig (handler_member_name handler) (V_object handler)) (\<lambda>_.
     mbind (get_nhandlers sig) (\<lambda>n. set_nhandlers sig (n + 1)))"

definition di_signal_remove_handler :: "env \<Rightarrow> addr \<Rightarrow> addr \<Rightarrow> unit M" where
  "di_signal_remove_handler E sig handler =
     mbind (di_delete_member_raw E sig (handler_member_name handler)) (\<lambda>rc.
     if rc = - ENOENT then mret ()
     else
     mbind (get_nhandlers sig) (\<lambda>n.
     mseq (set_nhandlers sig (n - 1))
     (if n - 1 \<noteq> 0 then mret ()
      else
      mbind (get_weak_checked E sig ''weak_source'') (\<lambda>weak_source.
      scoped_weak weak_source
        (mbind (get_string_checked E sig ''signal_name'') (\<lambda>name.
         mbind (di_upgrade_weak_ref weak_source) (\<lambda>source.
         scoped_object E source
           (case source of
              None \<Rightarrow> mret ()
            | Some s \<Rightarrow> mbind (di_delete_member E s name False) (\<lambda>_. mret ())))))))))"

section \<open>Dispatch\<close>

text \<open>
  The handlers are copied first, so that removing one during the emission does not disturb
  it; the array has room for \<^verbatim>\<open>nhandlers\<close> of them.
\<close>

fun collect_handlers :: "int \<Rightarrow> (string \<times> di_variant) list \<Rightarrow> addr list M" where
  "collect_handlers room [] = mret []"
| "collect_handlers room ((k, v) # ms) =
     (if \<not> di_string_starts_with (Some k) HANDLER_PREFIX then collect_handlers room ms
      else case v of
          V_object h \<Rightarrow>
            if room \<le> 0 then mcrash Out_of_bounds
            else mbind (di_ref_object h) (\<lambda>h'.
                 mbind (collect_handlers (room - 1) ms) (\<lambda>hs. mret (h' # hs)))
        | _ \<Rightarrow> mcrash Out_of_bounds)"

definition dispatch_one :: "env \<Rightarrow> di_tuple \<Rightarrow> addr \<Rightarrow> unit M" where
  "dispatch_one E args h =
     mbind (di_call_object_catch E h args) (\<lambda>(rc, ret, err).
     scoped_object E err
       (mseq (di_unref_object E h)
        (if rc \<noteq> 0 then log_error E (''Failed to call a signal handler: '' @ e_strerror E (- rc) @ [CHR 0x0A])
         else mseq (di_free_value E (uninit_ret E ret))
           (case err of
              None \<Rightarrow> mret ()
            | Some e \<Rightarrow> mbind (di_object_to_string E e False) (\<lambda>(msg, _).
                log_error E (''Error arose when calling signal handler: '' @ c_str (str_bytes msg) @ [CHR 0x0A]))))))"

definition di_signal_dispatch :: "env \<Rightarrow> addr \<Rightarrow> di_tuple \<Rightarrow> unit M" where
  "di_signal_dispatch E sig args =
     mbind (get_nhandlers sig) (\<lambda>n.
     mbind (get_obj sig) (\<lambda>ob.
     mbind (collect_handlers n (members ob)) (\<lambda>handlers.
     mseq (mcheck Assert_failed (int (length handlers) = n))
     (mforeach (dispatch_one E args) handlers))))"

definition di_emitn :: "env \<Rightarrow> addr \<Rightarrow> di_string \<Rightarrow> di_tuple \<Rightarrow> int M" where
  "di_emitn E o' name args =
     (if length args > MAX_NARGS then mret (- E2BIG)
      else mbind (di_get E o' (signal_member_name name) DI_TYPE_OBJECT) (\<lambda>(rc, v).
           case (rc = 0, v) of
             (True, V_object sig) \<Rightarrow>
               mbind (scoped_object E (Some sig) (di_signal_dispatch E sig args)) (\<lambda>_. mret 0)
           | _ \<Rightarrow> mret 0))"

section \<open>Listen handles\<close>

definition di_listen_handle_stop :: "env \<Rightarrow> addr \<Rightarrow> unit M" where
  "di_listen_handle_stop E obj =
     mbind (get_weak_checked E obj ''weak_signal'') (\<lambda>weak_sig.
     scoped_weak weak_sig
       (mbind (get_weak_checked E obj ''weak_handler'') (\<lambda>weak_handler.
        scoped_weak weak_handler
          (mbind (di_upgrade_weak_ref weak_sig) (\<lambda>sig.
           scoped_object E sig
             (case sig of
                None \<Rightarrow> mret ()
              | Some s \<Rightarrow> di_signal_remove_handler E s weak_handler))))))"

definition di_listen_handle_dtor :: "env \<Rightarrow> addr \<Rightarrow> unit M" where
  "di_listen_handle_dtor E obj =
     mbind (di_get E obj (di_string_borrow ''stop_on_drop'') DI_TYPE_BOOL) (\<lambda>(rc, v).
     if rc = 0 \<and> v = V_bool True then di_listen_handle_stop E obj else mret ())"

definition di_listen_handle_auto_stop :: "env \<Rightarrow> addr \<Rightarrow> int \<Rightarrow> unit M" where
  "di_listen_handle_auto_stop E obj stop' =
     mbind (di_setx E obj (di_string_borrow ''stop_on_drop'') (V_bool (stop' \<noteq> 0)) False) (\<lambda>_. mret ())"

section \<open>Listening\<close>

definition new_signal :: "env \<Rightarrow> addr \<Rightarrow> di_string \<Rightarrow> addr M" where
  "new_signal E obj name =
     mbind (di_weakly_ref_object obj) (\<lambda>weak_source.
     mbind (di_new_object_with_type (P_signal 0)) (\<lambda>sig.
     mseq (check_ok (di_member E sig ''weak_source'' (V_weak_object weak_source)))
     (mseq (check_ok (di_member_clone E sig ''signal_name'' (V_string name)))
     (mseq (check_ok (di_method E sig ''remove'' ''di_signal_remove_handler'' DI_TYPE_NIL [DI_TYPE_WEAK_OBJECT]))
     (mseq (check_ok (di_method E sig ''add'' ''di_signal_add_handler'' DI_TYPE_NIL [DI_TYPE_OBJECT]))
     (mseq (check_ok (di_method E sig ''dispatch'' ''di_signal_dispatch'' DI_TYPE_NIL [DI_TYPE_TUPLE]))
     (mret sig)))))))"

text \<open>
  The signal object of a source: the one it has, or a new one that is set as its member.  The
  result is the signal and the error.
\<close>

definition obtain_signal :: "env \<Rightarrow> addr \<Rightarrow> di_string \<Rightarrow> bool \<Rightarrow> (addr option \<times> addr option) M" where
  "obtain_signal E obj name catch =
     mbind (di_getx E obj name catch) (\<lambda>(rc, sigv, new_error).
     mseq (mcheck Assert_failed (rc = 0 \<or> new_error = None))
     (if rc = - ENOENT
      then mbind (new_signal E obj name) (\<lambda>sig.
           mbind (di_setx E obj name (V_object sig) catch) (\<lambda>(rc, new_error).
           if rc \<noteq> 0 \<and> new_error = None
           then mbind (di_new_error E ''object.c'' 1232 ''di_listen_to'' (''Failed to set signal object '' @ e_strerror E rc)) (\<lambda>e.
                mret (Some sig, Some e))
           else mret (Some sig, new_error)))
      else if rc \<noteq> 0
      then mbind (di_new_error E ''object.c'' 1235 ''di_listen_to'' (''Failed to get signal object '' @ e_strerror E rc)) (\<lambda>e.
           mret (None, Some e))
      else if new_error \<noteq> None then mret (None, new_error)
      else mbind (di_type_conversion E sigv DI_TYPE_OBJECT False) (\<lambda>(rc, v).
           case (rc = 0, v) of
             (True, V_object sig) \<Rightarrow> mret (Some sig, None)
           | _ \<Rightarrow> mbind (di_new_error E ''object.c'' 1238 ''di_listen_to'' ''Failed to signal object is not an object'') (\<lambda>e.
                 mret (None, Some e)))))"

definition new_listen_handle :: "env \<Rightarrow> addr \<Rightarrow> addr \<Rightarrow> addr M" where
  "new_listen_handle E sig h =
     mbind (di_new_object_with_type P_object) (\<lambda>listen_handle.
     mseq (check_ok (di_set_type E listen_handle ''deai:ListenHandle''))
     (mbind (di_weakly_ref_object sig) (\<lambda>weak_sig.
      mbind (di_weakly_ref_object h) (\<lambda>weak_handler.
      mseq (ignore_rc (di_member E listen_handle ''weak_signal'' (V_weak_object weak_sig)))
      (mseq (ignore_rc (di_member E listen_handle ''weak_handler'' (V_weak_object weak_handler)))
      (mseq (ignore_rc (di_method E listen_handle ''stop'' ''di_listen_handle_stop'' DI_TYPE_NIL []))
      (mseq (ignore_rc (di_method E listen_handle ''auto_stop'' ''di_listen_handle_auto_stop'' DI_TYPE_NIL [DI_TYPE_NINT]))
      (mseq (di_set_object_dtor listen_handle (Some ''di_listen_handle_dtor''))
      (mret listen_handle)))))))))"

text \<open>\<^verbatim>\<open>di_listen_to\<close>: the listen handle, or no handle and the error.\<close>

definition di_listen_to :: "env \<Rightarrow> addr \<Rightarrow> di_string \<Rightarrow> addr \<Rightarrow> bool \<Rightarrow> (addr option \<times> addr option) M" where
  "di_listen_to E obj name h catch =
     mbind (get_obj obj) (\<lambda>ob.
     mseq (mcheck Assert_failed (\<not> destroyed ob))
     (mbind (obtain_signal E obj (signal_member_name name) catch) (\<lambda>(sig, new_error).
      case new_error of
        Some e \<Rightarrow>
          mseq (mcheck Assert_failed (sig = None))
          (if catch then mret (None, Some e) else di_throw e)
      | None \<Rightarrow>
          (case sig of
             None \<Rightarrow> mcrash Null_deref
           | Some s \<Rightarrow>
               mseq (di_signal_add_handler E s h)
               (mbind (new_listen_handle E s h) (\<lambda>lh.
                mseq (di_unref_object E s)
                (mret (Some lh, None))))))))"

end
