(* ===== verification/Deai_Roots.thy ===== *)
theory Deai_Roots
  imports Deai_Signal
begin

text \<open>
  The roots of \<^verbatim>\<open>main.c\<close>, the objects that keep everything else alive: named roots are members of
  the roots object, anonymous roots are in a table of their own, keyed by address.  Leaving the
  program drops them all.
\<close>

section \<open>Named roots\<close>

definition root_key :: "di_string \<Rightarrow> di_string" where
  "root_key key = Some (''___root_'' @ c_str (str_bytes key))"

definition di_add_root :: "env \<Rightarrow> addr \<Rightarrow> di_string \<Rightarrow> addr \<Rightarrow> bool M" where
  "di_add_root E di key obj =
     mbind (di_add_member_clone E di (root_key key) (V_object obj)) (\<lambda>rc. mret (rc = 0))"

definition di_remove_root :: "env \<Rightarrow> addr \<Rightarrow> di_string \<Rightarrow> bool M" where
  "di_remove_root E di key =
     mbind (di_delete_member_raw E di (root_key key)) (\<lambda>rc. mret (rc = 0))"

text \<open>
  \<^verbatim>\<open>di_clear_roots\<close>: the member after the current one is read before the current one is deleted.
\<close>

fun clear_roots_loop :: "env \<Rightarrow> addr \<Rightarrow> nat \<Rightarrow> string option \<Rightarrow> unit M" where
  "clear_roots_loop E di n None = mret ()"
| "clear_roots_loop E di 0 (Some k) = mcrash Out_of_fuel"
| "clear_roots_loop E di (Suc n) (Some k) =
     mbind (get_obj di) (\<lambda>ob.
     case hash_find k (members ob) of
       None \<Rightarrow> mcrash Use_after_free
     | Some _ \<Rightarrow>
         (let tmp = hash_next k (members ob) in
          mseq (if length k < length ''___root_'' then mret ()
                else if strncmp_eq k ''___root_'' (length ''___root_'')
                then mbind (di_delete_member_raw E di (Some k)) (\<lambda>_. mret ())
                else mret ())
          (clear_roots_loop E di n tmp)))"

definition di_clear_roots :: "env \<Rightarrow> addr \<Rightarrow> unit M" where
  "di_clear_roots E di =
     mbind (get_obj di) (\<lambda>ob.
     clear_roots_loop E di (e_fuel E) (case members ob of [] \<Rightarrow> None | (k, _) # _ \<Rightarrow> Some k))"

section \<open>Anonymous roots\<close>

definition get_anonymous_roots :: "addr \<Rightarrow> addr list M" where
  "get_anonymous_roots obj =
     mbind (get_obj obj) (\<lambda>ob. case payload ob of P_roots rs \<Rightarrow> mret rs | _ \<Rightarrow> mcrash Out_of_bounds)"

definition set_anonymous_roots :: "addr \<Rightarrow> addr list \<Rightarrow> unit M" where
  "set_anonymous_roots obj rs = upd_obj obj (\<lambda>ob. ob\<lparr>payload := P_roots rs\<rparr>)"

definition di_add_anonymous_root :: "addr \<Rightarrow> addr \<Rightarrow> bool M" where
  "di_add_anonymous_root obj root =
     mbind (get_anonymous_roots obj) (\<lambda>rs.
     if root \<in> set rs then mret False
     else mbind (di_ref_object root) (\<lambda>r.
          mbind (get_anonymous_roots obj) (\<lambda>rs.
          mseq (set_anonymous_roots obj (rs @ [r])) (mret True))))"

definition di_remove_anonymous_root :: "env \<Rightarrow> addr \<Rightarrow> addr \<Rightarrow> bool M" where
  "di_remove_anonymous_root E obj root =
     mbind (get_anonymous_roots obj) (\<lambda>rs.
     if root \<in> set rs
     then mseq (set_anonymous_roots obj (remove1 root rs))
          (mseq (di_unref_object E root) (mret True))
     else mret False)"

definition di_roots_dtor :: "env \<Rightarrow> addr \<Rightarrow> unit M" where
  "di_roots_dtor E obj =
     mbind (get_anonymous_roots obj) (\<lambda>objects_to_free.
     mseq (set_anonymous_roots obj [])
     (mforeach (di_unref_object E) objects_to_free))"

definition di_roots_getter :: "addr M" where
  "di_roots_getter =
     mbind (mget roots) (\<lambda>r. case r of None \<Rightarrow> mcrash Null_deref | Some a \<Rightarrow> di_ref_object a)"

definition di_get_roots :: "addr M" where
  "di_get_roots = mbind (mget roots) (\<lambda>r. case r of None \<Rightarrow> mcrash Null_deref | Some a \<Rightarrow> mret a)"

section \<open>Leaving the program\<close>

definition di_prepare_exit :: "env \<Rightarrow> int \<Rightarrow> unit M" where
  "di_prepare_exit E ec =
     mseq (mmodify (\<lambda>w. w\<lparr>exit_code := ec\<rparr>))
     (mbind di_get_roots (\<lambda>r. di_finalize_object E r))"

definition di_prepare_quit :: "env \<Rightarrow> unit M" where
  "di_prepare_quit E = di_prepare_exit E 0"

section \<open>Modules\<close>

definition di_register_module :: "env \<Rightarrow> addr \<Rightarrow> di_string \<Rightarrow> addr \<Rightarrow> int M" where
  "di_register_module E p name m = di_add_member_move E p name (V_object m)"

definition di_register_module_method :: "env \<Rightarrow> addr \<Rightarrow> di_string \<Rightarrow> addr \<Rightarrow> int M" where
  "di_register_module_method E p name m = di_add_member_clone E p name (V_object m)"

definition di_get_argv :: "addr \<Rightarrow> di_variant M" where
  "di_get_argv p =
     mbind (get_obj p) (\<lambda>ob.
     case payload ob of
       P_core argv \<Rightarrow> mret (V_array DI_TYPE_STRING_LITERAL (map V_string_literal argv))
     | _ \<Rightarrow> mcrash Out_of_bounds)"

text \<open>The part of \<^verbatim>\<open>main\<close> that sets up the roots object.\<close>

definition init_roots :: "env \<Rightarrow> addr M" where
  "init_roots E =
     mbind (di_new_object_with_type (P_roots [])) (\<lambda>r.
     mseq (mmodify (\<lambda>w. w\<lparr>roots := Some r\<rparr>))
     (mseq (ignore_rc (di_set_type E r ''deai:Roots''))
     (mseq (check_ok (di_method E r ''add'' ''di_add_root'' DI_TYPE_BOOL [DI_TYPE_STRING, DI_TYPE_OBJECT]))
     (mseq (check_ok (di_method E r ''remove'' ''di_remove_root'' DI_TYPE_BOOL [DI_TYPE_STRING]))
     (mseq (check_ok (di_method E r ''clear'' ''di_clear_roots'' DI_TYPE_NIL []))
     (mseq (check_ok (di_method E r ''add_anonymous'' ''di_add_anonymous_root'' DI_TYPE_BOOL [DI_TYPE_OBJECT]))
     (mseq (check_ok (di_method E r ''remove_anonymous'' ''di_remove_anonymous_root'' DI_TYPE_BOOL [DI_TYPE_OBJECT]))
     (mseq (di_set_object_dtor r (Some ''di_roots_dtor''))
     (mret r)))))))))"

end
