(* ===== verification/Deai_Event.thy ===== *)
theory Deai_Event
  imports Deai_Roots Deai_Gc
begin

text \<open>
  Event sources of \<^verbatim>\<open>event.c\<close>: file descriptor events, one-shot and periodic timers, and the
  prepare watcher that runs the collector.  Calls to libev are effects.  A source is an
  anonymous root while it is running.
\<close>

definition EV_READ :: u32 where "EV_READ = 1"
definition EV_WRITE :: u32 where "EV_WRITE = 2"

definition di_emit :: "env \<Rightarrow> addr \<Rightarrow> c_string \<Rightarrow> di_tuple \<Rightarrow> unit M" where
  "di_emit E o' name args = mbind (di_emitn E o' (di_string_borrow name) args) (\<lambda>_. mret ())"

text \<open>\<^verbatim>\<open>di_signal_setter_deleter\<close>.\<close>

definition di_signal_setter_deleter :: "env \<Rightarrow> addr \<Rightarrow> c_string \<Rightarrow> fn_ptr \<Rightarrow> fn_ptr \<Rightarrow> unit M" where
  "di_signal_setter_deleter E o' sig setter deleter =
     mseq (ignore_rc (di_method E o' (''__set___signal_'' @ sig) setter DI_TYPE_NIL [DI_TYPE_OBJECT]))
     (ignore_rc (di_method E o' (''__delete___signal_'' @ sig) deleter DI_TYPE_NIL []))"

section \<open>File descriptor events\<close>

definition get_ioev :: "addr \<Rightarrow> (int \<times> u32 \<times> bool) M" where
  "get_ioev ev =
     mbind (get_obj ev) (\<lambda>ob. case payload ob of P_ioev fd e r \<Rightarrow> mret (fd, e, r) | _ \<Rightarrow> mcrash Out_of_bounds)"

definition set_ioev :: "addr \<Rightarrow> int \<Rightarrow> u32 \<Rightarrow> bool \<Rightarrow> unit M" where
  "set_ioev ev fd e r = upd_obj ev (\<lambda>ob. ob\<lparr>payload := P_ioev fd e r\<rparr>)"

definition di_ioev_callback :: "env \<Rightarrow> addr \<Rightarrow> u32 \<Rightarrow> unit M" where
  "di_ioev_callback E ev revents =
     mseq (if and revents EV_READ \<noteq> 0 then di_emit E ev ''read'' [] else mret ())
     (if and revents EV_WRITE \<noteq> 0 then di_emit E ev ''write'' [] else mret ())"

definition di_start_ioev :: "env \<Rightarrow> addr \<Rightarrow> unit M" where
  "di_start_ioev E ev =
     mbind (get_ioev ev) (\<lambda>(fd, e, running).
     if running then mret ()
     else
     mbind (di_object_borrow_deai ev) (\<lambda>di.
     if di = None then mret ()
     else
     mseq (emit_effect (Ev_io_start ev))
     (mbind di_get_roots (\<lambda>roots.
      mbind (di_callr E roots ''add_anonymous'' DI_TYPE_BOOL [V_object ev]) (\<lambda>(rc, v).
      mseq (mcheck Panic (rc = 0))
      (mbind (get_ioev ev) (\<lambda>(fd, e, _).
       mseq (set_ioev ev fd e (v = V_bool True))
       (mcheck Panic (v = V_bool True)))))))))"

definition di_stop_ioev :: "env \<Rightarrow> addr \<Rightarrow> unit M" where
  "di_stop_ioev E ev =
     mbind (get_ioev ev) (\<lambda>(fd, e, running).
     if \<not> running then mret ()
     else
     mbind (di_object_borrow_deai ev) (\<lambda>di.
     if di = None then mret ()
     else
     mseq (emit_effect (Ev_io_stop ev))
     (mseq (set_ioev ev fd e False)
     (mbind di_get_roots (\<lambda>roots.
      mbind (di_call_void_impl E roots (di_string_borrow ''remove_anonymous'') [V_object ev]) (\<lambda>_. mret ()))))))"

definition di_modify_ioev :: "env \<Rightarrow> addr \<Rightarrow> u32 \<Rightarrow> unit M" where
  "di_modify_ioev E ioev flags =
     mbind (get_ioev ioev) (\<lambda>(fd, _, running).
     mseq (set_ioev ioev fd flags running)
     (mseq (emit_effect (Ev_io_modify ioev flags))
     (if \<not> running \<and> flags \<noteq> 0 then di_start_ioev E ioev
      else if running \<and> flags = 0 then di_stop_ioev E ioev
      else mret ())))"

text \<open>The setter and deleter of the \<^verbatim>\<open>read\<close> and \<^verbatim>\<open>write\<close> signals, by name and bit.\<close>

definition enable_events :: "env \<Rightarrow> c_string \<Rightarrow> u32 \<Rightarrow> addr \<Rightarrow> addr \<Rightarrow> unit M" where
  "enable_events E member ev_bit obj sig =
     mbind (di_member_clone E obj member (V_object sig)) (\<lambda>rc.
     if rc \<noteq> 0 then mret ()
     else mbind (get_ioev obj) (\<lambda>(_, events, _). di_modify_ioev E obj (or events ev_bit)))"

definition disable_events :: "env \<Rightarrow> c_string \<Rightarrow> u32 \<Rightarrow> addr \<Rightarrow> unit M" where
  "disable_events E member ev_bit obj =
     mbind (di_delete_member_raw E obj (di_string_borrow member)) (\<lambda>rc.
     if rc \<noteq> 0 then mret ()
     else mbind (get_ioev obj) (\<lambda>(_, events, _). di_modify_ioev E obj (and events (not ev_bit))))"

definition di_enable_read :: "env \<Rightarrow> addr \<Rightarrow> addr \<Rightarrow> unit M" where
  "di_enable_read E obj sig = enable_events E ''__signal_read'' EV_READ obj sig"

definition di_enable_write :: "env \<Rightarrow> addr \<Rightarrow> addr \<Rightarrow> unit M" where
  "di_enable_write E obj sig = enable_events E ''__signal_write'' EV_WRITE obj sig"

definition di_disable_read :: "env \<Rightarrow> addr \<Rightarrow> unit M" where
  "di_disable_read E obj = disable_events E ''__signal_read'' EV_READ obj"

definition di_disable_write :: "env \<Rightarrow> addr \<Rightarrow> unit M" where
  "di_disable_write E obj = disable_events E ''__signal_write'' EV_WRITE obj"

definition di_ioev_dtor :: "env \<Rightarrow> addr \<Rightarrow> unit M" where
  "di_ioev_dtor E obj = di_modify_ioev E obj 0"

text \<open>The new event source, or an error when the main object is gone.\<close>

definition throw_new_error :: "env \<Rightarrow> c_string \<Rightarrow> int \<Rightarrow> c_string \<Rightarrow> c_string \<Rightarrow> 'a M" where
  "throw_new_error E file line func msg = mbind (di_new_error E file line func msg) di_throw"

definition di_create_ioev :: "env \<Rightarrow> addr \<Rightarrow> int \<Rightarrow> addr M" where
  "di_create_ioev E em fd =
     mbind (di_new_object_with_type (P_ioev fd 0 False)) (\<lambda>ret.
     mseq (ignore_rc (di_set_type E ret ''deai.builtin.event:IoEv''))
     (mseq (di_set_object_dtor ret (Some ''di_ioev_dtor''))
     (mbind (di_object_get_deai_strong E em) (\<lambda>di.
      case di of
        None \<Rightarrow> throw_new_error E ''event.c'' 198 ''di_create_ioev'' ''deai is shutting down...''
      | Some di_obj \<Rightarrow>
          mseq (ignore_rc (di_member E ret ''__deai'' (V_object di_obj)))
          (mseq (di_signal_setter_deleter E ret ''read'' ''di_enable_read'' ''di_disable_read'')
          (mseq (di_signal_setter_deleter E ret ''write'' ''di_enable_write'' ''di_disable_write'')
          (mret ret)))))))"

section \<open>Timers\<close>

definition get_timer :: "addr \<Rightarrow> (u64 \<times> bool) M" where
  "get_timer t =
     mbind (get_obj t) (\<lambda>ob. case payload ob of P_timer at spent \<Rightarrow> mret (at, spent) | _ \<Rightarrow> mcrash Out_of_bounds)"

definition set_timer_spent :: "addr \<Rightarrow> unit M" where
  "set_timer_spent t = mbind (get_timer t) (\<lambda>(at, _). upd_obj t (\<lambda>ob. ob\<lparr>payload := P_timer at True\<rparr>))"

definition di_timer_delete_signal :: "env \<Rightarrow> addr \<Rightarrow> unit M" where
  "di_timer_delete_signal E o' =
     mbind (di_delete_member_raw E o' (di_string_borrow ''__signal_elapsed'')) (\<lambda>rc.
     if rc \<noteq> 0 then mret ()
     else
     mbind di_get_roots (\<lambda>roots.
     mbind (di_call_void_impl E roots (di_string_borrow ''remove_anonymous'') [V_object o']) (\<lambda>_.
     mbind (di_object_borrow_deai o') (\<lambda>di.
     if di = None then mcrash Null_deref else emit_effect (Ev_timer_stop o')))))"

definition di_timer_add_signal :: "env \<Rightarrow> addr \<Rightarrow> addr \<Rightarrow> unit M" where
  "di_timer_add_signal E o' sig =
     mbind (get_timer o') (\<lambda>(at, spent).
     if spent then mret ()
     else
     mbind (di_object_borrow_deai o') (\<lambda>di.
     if di = None then mret ()
     else
     mbind (di_member_clone E o' ''__signal_elapsed'' (V_object sig)) (\<lambda>rc.
     if rc \<noteq> 0 then mret ()
     else
     mbind di_get_roots (\<lambda>roots.
     mbind (di_callr E roots ''add_anonymous'' DI_TYPE_BOOL [V_object o']) (\<lambda>(rc, added).
     if rc \<noteq> 0 then di_timer_delete_signal E o'
     else
     mseq (mcheck Panic (added = V_bool True))
     (mseq (emit_effect (Ev_timer_set o' (e_fsub E at (e_now E))))
     (emit_effect (Ev_timer_start o'))))))))"

definition di_timer_callback :: "env \<Rightarrow> addr \<Rightarrow> unit M" where
  "di_timer_callback E d =
     mbind (di_ref_object d) (\<lambda>obj.
     scoped_object E (Some obj)
       (mbind (di_object_borrow_deai d) (\<lambda>di.
        mseq (mcheck Panic (di \<noteq> None))
        (mseq (emit_effect (Ev_timer_stop d))
        (mseq (set_timer_spent d)
        (mseq (di_emit E d ''elapsed'' [V_float (e_now E)])
        (di_timer_delete_signal E d)))))))"

definition di_create_timer :: "env \<Rightarrow> addr \<Rightarrow> u64 \<Rightarrow> addr M" where
  "di_create_timer E em timeout =
     mbind (di_new_object_with_type (P_timer (e_fadd E (e_now E) timeout) False)) (\<lambda>ret.
     mseq (ignore_rc (di_set_type E ret ''deai.builtin.event:Timer''))
     (mbind (di_object_get_deai_strong E em) (\<lambda>di.
      case di of
        None \<Rightarrow> throw_new_error E ''event.c'' 296 ''di_create_timer'' ''deai is shutting down...''
      | Some di_obj \<Rightarrow>
          mseq (di_set_object_dtor ret (Some ''di_timer_delete_signal''))
          (mseq (di_signal_setter_deleter E ret ''elapsed'' ''di_timer_add_signal'' ''di_timer_delete_signal'')
          (mseq (ignore_rc (di_member E ret ''__deai'' (V_object di_obj)))
          (mret ret))))))"

section \<open>Periodic timers\<close>

definition di_periodic_callback :: "env \<Rightarrow> addr \<Rightarrow> unit M" where
  "di_periodic_callback E p = di_emit E p ''triggered'' [V_float (e_now E)]"

definition periodic_set :: "addr \<Rightarrow> u64 \<Rightarrow> u64 \<Rightarrow> unit M" where
  "periodic_set p interval offset =
     mbind (di_object_borrow_deai p) (\<lambda>di.
     mseq (mcheck Panic (di \<noteq> None))
     (mseq (upd_obj p (\<lambda>ob. ob\<lparr>payload := P_periodic offset interval\<rparr>))
     (mseq (emit_effect (Ev_periodic_set p offset interval))
     (emit_effect (Ev_periodic_again p)))))"

definition di_periodic_signal_setter :: "env \<Rightarrow> addr \<Rightarrow> addr \<Rightarrow> unit M" where
  "di_periodic_signal_setter E o' sig =
     mbind (di_member_clone E o' ''__signal_triggered'' (V_object sig)) (\<lambda>rc.
     if rc \<noteq> 0 then mret ()
     else
     mbind di_get_roots (\<lambda>roots.
     mbind (di_callr E roots ''add_anonymous'' DI_TYPE_BOOL [V_object o']) (\<lambda>(rc, added).
     mseq (mcheck Panic (rc = 0))
     (mcheck Panic (added = V_bool True)))))"

definition di_periodic_signal_deleter :: "env \<Rightarrow> addr \<Rightarrow> unit M" where
  "di_periodic_signal_deleter E o' =
     mbind (di_delete_member_raw E o' (di_string_borrow ''__signal_triggered'')) (\<lambda>rc.
     if rc \<noteq> 0 then mret ()
     else
     mbind di_get_roots (\<lambda>roots.
     mbind (di_call_void_impl E roots (di_string_borrow ''remove_anonymous'') [V_object o']) (\<lambda>_. mret ())))"

definition di_create_periodic :: "env \<Rightarrow> addr \<Rightarrow> u64 \<Rightarrow> u64 \<Rightarrow> addr M" where
  "di_create_periodic E evm interval offset =
     mbind (di_new_object_with_type (P_periodic offset interval)) (\<lambda>ret.
     mseq (ignore_rc (di_set_type E ret ''deai.builtin.event:Periodic''))
     (mbind (di_object_get_deai_strong E evm) (\<lambda>di.
      mseq (di_set_object_dtor ret (Some ''di_periodic_signal_deleter''))
      (mseq (ignore_rc (di_method E ret ''set'' ''periodic_set'' DI_TYPE_NIL [DI_TYPE_FLOAT, DI_TYPE_FLOAT]))
      (mseq (di_signal_setter_deleter E ret ''triggered'' ''di_periodic_signal_setter'' ''di_periodic_signal_deleter'')
      (case di of
         None \<Rightarrow> mcrash Null_deref
       | Some di_obj \<Rightarrow>
           mseq (emit_effect (Ev_periodic_start ret))
           (mseq (ignore_rc (di_member E ret ''__deai'' (V_object di_obj)))
           (mret ret))))))))"

section \<open>The prepare watcher\<close>

definition di_prepare :: "env \<Rightarrow> addr \<Rightarrow> unit M" where
  "di_prepare E evm =
     mbind (di_weakly_ref_object evm) (\<lambda>weak_eventm.
     scoped_weak weak_eventm
       (mseq (di_collect_garbage E)
        (mbind (di_upgrade_weak_ref weak_eventm) (\<lambda>obj.
         scoped_object E obj
           (case obj of None \<Rightarrow> mret () | Some o' \<Rightarrow> di_emit E o' ''prepare'' [])))))"

end
