(* ===== verification/Deai_Promise.thy ===== *)
theory Deai_Promise
  imports Deai_Event
begin

text \<open>
  Promises of \<^verbatim>\<open>event.c\<close>: an object that settles once, with a value or with an error, and calls its
  handlers from the idle watcher of the event module.  Chaining makes a closure that settles
  the next promise.
\<close>

definition promise_type :: c_string where "promise_type = ''deai:Promise''"

definition di_has_member :: "addr \<Rightarrow> c_string \<Rightarrow> bool M" where
  "di_has_member o' name = mbind (di_lookup o' (di_string_borrow name)) (\<lambda>m. mret (m \<noteq> None))"

definition is_settled :: "addr \<Rightarrow> bool M" where
  "is_settled promise =
     mbind (di_has_member promise ''___resolved'') (\<lambda>a.
     if a then mret True else di_has_member promise ''___rejected'')"

section \<open>Scheduling\<close>

definition pending_key :: "int \<Rightarrow> c_string" where
  "pending_key n = ''pending_promise_'' @ int_string n"

definition get_nint_checked :: "env \<Rightarrow> addr \<Rightarrow> di_string \<Rightarrow> int M" where
  "get_nint_checked E o' name =
     mbind (di_get E o' name DI_TYPE_NINT) (\<lambda>(rc, v).
     case (rc = 0, v) of (True, V_nint n) \<Rightarrow> mret (sint n) | _ \<Rightarrow> mcrash Panic)"

definition di_promise_start_dispatch :: "env \<Rightarrow> addr \<Rightarrow> unit M" where
  "di_promise_start_dispatch E promise =
     mbind (di_has_member promise ''is_pending'') (\<lambda>pending.
     if pending then mret ()
     else
     mbind (get_weak_checked E promise ''___weak_event_module'') (\<lambda>weak_event.
     scoped_weak weak_event
       (mbind (di_upgrade_weak_ref weak_event) (\<lambda>em.
        scoped_object E em
          (case em of
             None \<Rightarrow> mret ()
           | Some event_module \<Rightarrow>
               mbind (di_object_borrow_deai event_module) (\<lambda>di.
               if di = None then mret ()
               else
               mseq (emit_effect (Ev_idle_start event_module))
               (mbind (get_nint_checked E event_module (di_string_borrow ''pending_count'')) (\<lambda>n.
                mbind (di_rawsetx E event_module (di_string_borrow ''pending_count'') (V_nint (of_int (n + 1)))) (\<lambda>_.
                mseq (if n = 0
                      then mbind di_get_roots (\<lambda>roots.
                           mbind (di_call_void_impl E roots (di_string_borrow ''add_anonymous'') [V_object event_module])
                             (\<lambda>_. mret ()))
                      else mret ())
                (mbind (di_add_member_clone E event_module (di_string_borrow (pending_key n)) (V_object promise)) (\<lambda>_.
                 mbind (di_member_clone E promise ''is_pending'' (V_bool True)) (\<lambda>_. mret ()))))))))))))"

section \<open>Settling\<close>

definition di_promise_resolve :: "env \<Rightarrow> addr \<Rightarrow> di_variant \<Rightarrow> unit M" where
  "di_promise_resolve E promise var =
     mbind (is_settled promise) (\<lambda>s.
     if s then mret ()
     else mbind (di_member_clone E promise ''___resolved'' (V_variant var)) (\<lambda>_.
          di_promise_start_dispatch E promise))"

definition di_promise_reject :: "env \<Rightarrow> addr \<Rightarrow> addr \<Rightarrow> unit M" where
  "di_promise_reject E promise error =
     mbind (is_settled promise) (\<lambda>s.
     if s then mret ()
     else mbind (di_member_clone E promise ''___rejected'' (V_object error)) (\<lambda>_.
          di_promise_start_dispatch E promise))"

definition di_new_promise :: "env \<Rightarrow> addr \<Rightarrow> addr M" where
  "di_new_promise E event_module =
     mbind (di_new_object_with_type P_object) (\<lambda>ret.
     mbind (di_weakly_ref_object event_module) (\<lambda>weak_event.
     mseq (ignore_rc (di_set_type E ret promise_type))
     (mseq (ignore_rc (di_member E ret ''___weak_event_module'' (V_weak_object weak_event)))
     (mseq (ignore_rc (di_method E ret ''then'' ''di_promise_then'' DI_TYPE_OBJECT [DI_TYPE_OBJECT]))
     (mseq (ignore_rc (di_method E ret ''catch'' ''di_promise_catch'' DI_TYPE_OBJECT [DI_TYPE_OBJECT]))
     (mseq (ignore_rc (di_method E ret ''then_'' ''di_promise_then'' DI_TYPE_OBJECT [DI_TYPE_OBJECT]))
     (mseq (ignore_rc (di_method E ret ''resolve'' ''di_promise_resolve'' DI_TYPE_NIL [DI_TYPE_VARIANT]))
     (mseq (ignore_rc (di_method E ret ''reject'' ''di_promise_reject'' DI_TYPE_NIL [DI_TYPE_OBJECT]))
     (mret ret)))))))))"

definition di_ready_promise :: "env \<Rightarrow> addr \<Rightarrow> di_variant \<Rightarrow> addr M" where
  "di_ready_promise E event_module value =
     mbind (di_new_promise E event_module) (\<lambda>ret.
     mseq (di_promise_resolve E ret value) (mret ret))"

section \<open>Dispatching\<close>

text \<open>
  \<^verbatim>\<open>di_handlers_dispatch\<close>: every handler is called with the kind of settlement (0 or 1) and the value.
\<close>

definition call_handler :: "env \<Rightarrow> di_tuple \<Rightarrow> addr \<Rightarrow> unit M" where
  "call_handler E arg h =
     mbind (di_call_object_catch E h arg) (\<lambda>(rc, ret, error).
     scoped_object E error
       (mseq (if rc \<noteq> 0 then log_error E (''Error calling handler: '' @ int_string rc)
              else case error of
                  Some e \<Rightarrow> mbind (di_object_to_string E e False) (\<lambda>(msg, _).
                    log_error E (''Error in promise handler: '' @ c_str (str_bytes msg)))
                | None \<Rightarrow> di_free_value E (uninit_ret E ret))
        (di_unref_object E h)))"

fun object_of_variant :: "di_variant \<Rightarrow> addr option" where
  "object_of_variant (V_object a) = Some a"
| "object_of_variant _ = None"

definition di_handlers_dispatch :: "env \<Rightarrow> di_type \<Rightarrow> di_variant list \<Rightarrow> int \<Rightarrow> di_variant \<Rightarrow> unit M" where
  "di_handlers_dispatch E elem_type handlers type value =
     mseq (mcheck Panic (handlers = [] \<or> elem_type = DI_TYPE_OBJECT))
     (mforeach (\<lambda>h. case object_of_variant h of
                       None \<Rightarrow> mcrash Out_of_bounds
                     | Some a \<Rightarrow> call_handler E [V_nint (of_int type), value] a) handlers)"

definition di_promise_dispatch :: "env \<Rightarrow> addr \<Rightarrow> int M" where
  "di_promise_dispatch E promise =
     mbind (di_remove_member_raw promise (di_string_borrow ''___handlers'')) (\<lambda>(rc, hv).
     mbind (case (rc = 0, hv) of
              (True, Some (V_array t hs)) \<Rightarrow> mret (t, hs)
            | (True, _) \<Rightarrow> mcrash Out_of_bounds
            | (False, _) \<Rightarrow> mret (DI_TYPE_NIL, [])) (\<lambda>(elem_type, handlers).
     mbind (di_get E promise (di_string_borrow ''___resolved'') DI_TYPE_VARIANT) (\<lambda>(rc, resolved).
     case (rc = 0, resolved) of
       (True, V_variant value) \<Rightarrow>
         mscoped
           (mseq (di_handlers_dispatch E elem_type handlers 0 value)
            (mbind (di_delete_member_raw E promise (di_string_borrow ''is_pending'')) (\<lambda>_. mret 0)))
           (di_free_value E resolved)
     | _ \<Rightarrow>
         mbind (di_get E promise (di_string_borrow ''___rejected'') DI_TYPE_OBJECT) (\<lambda>(rc, rv).
         case (rc = 0, rv) of
           (True, V_object rejected) \<Rightarrow>
             if handlers \<noteq> []
             then mseq (di_handlers_dispatch E elem_type handlers 1 (V_object rejected))
                  (mseq (di_unref_object E rejected)
                  (mbind (di_delete_member_raw E promise (di_string_borrow ''is_pending'')) (\<lambda>_. mret 0)))
             else mbind (di_delete_member_raw E promise (di_string_borrow ''is_pending'')) (\<lambda>_.
                  mbind (di_object_to_string E rejected False) (\<lambda>(msg, _).
                  mseq (log_error E (''Unhandled promise rejection: '' @ c_str (str_bytes msg)))
                  (mseq (di_unref_object E rejected) (mret 0))))
         | _ \<Rightarrow> mbind (di_delete_member_raw E promise (di_string_borrow ''is_pending'')) (\<lambda>_. mret 0)))))"

text \<open>
  \<^verbatim>\<open>di_idle_cb\<close>: the pending promises are dispatched, the last one first, until none is left; promises
  that become pending meanwhile are included.
\<close>

fun idle_loop :: "nat \<Rightarrow> env \<Rightarrow> addr \<Rightarrow> unit M" where
  "idle_loop 0 E eventm = mcrash Out_of_fuel"
| "idle_loop (Suc n) E eventm =
     mbind (get_nint_checked E eventm (di_string_borrow ''pending_count'')) (\<lambda>count.
     if count = 0 then mret ()
     else
     mbind (di_get E eventm (di_string_borrow (pending_key (count - 1))) DI_TYPE_OBJECT) (\<lambda>(rc, v).
     case (rc = 0, v) of
       (True, V_object promise) \<Rightarrow>
         mseq (scoped_object E (Some promise)
           (mbind (di_delete_member_raw E eventm (di_string_borrow (pending_key (count - 1)))) (\<lambda>rc.
            mseq (mcheck Panic (rc = 0))
            (mbind (di_rawsetx E eventm (di_string_borrow ''pending_count'') (V_nint (of_int (count - 1)))) (\<lambda>_.
             mbind (di_promise_dispatch E promise) (\<lambda>_. mret ()))))))
         (idle_loop n E eventm)
     | _ \<Rightarrow> mcrash Panic))"

definition di_idle_cb :: "env \<Rightarrow> addr \<Rightarrow> unit M" where
  "di_idle_cb E eventm =
     mseq (emit_effect (Ev_idle_stop eventm))
     (mseq (idle_loop (e_fuel E) E eventm)
     (mbind di_get_roots (\<lambda>roots.
      mbind (di_call_void_impl E roots (di_string_borrow ''remove_anonymous'') [V_object eventm]) (\<lambda>_. mret ()))))"

section \<open>Chaining\<close>

definition di_promise_add_handler :: "env \<Rightarrow> addr \<Rightarrow> addr \<Rightarrow> unit M" where
  "di_promise_add_handler E promise handler =
     mbind (di_lookup promise (di_string_borrow ''___handlers'')) (\<lambda>m.
     mseq (case m of
             None \<Rightarrow> ignore_rc (di_member E promise ''___handlers'' (V_array DI_TYPE_OBJECT []))
           | Some _ \<Rightarrow> mret ())
     (mbind (di_lookup promise (di_string_borrow ''___handlers'')) (\<lambda>m.
      case m of
        Some (V_array t hs) \<Rightarrow>
          mbind (di_ref_object handler) (\<lambda>h.
          mseq (upd_obj promise (\<lambda>ob. ob\<lparr>members := hash_set ''___handlers'' (V_array t (hs @ [V_object h])) (members ob)\<rparr>))
          (mbind (is_settled promise) (\<lambda>s.
           if s then di_promise_start_dispatch E promise else mret ())))
      | _ \<Rightarrow> mcrash Out_of_bounds)))"

text \<open>The member removed from the closure, nil when there is none; it has to be an object.\<close>

definition take_handler :: "addr \<Rightarrow> c_string \<Rightarrow> addr option M" where
  "take_handler closure name =
     mbind (di_remove_member_raw closure (di_string_borrow name)) (\<lambda>(rc, v).
     case (rc = 0, v) of
       (True, Some (V_object h)) \<Rightarrow> mret (Some h)
     | (True, _) \<Rightarrow> mcrash Panic
     | _ \<Rightarrow> mret None)"

definition forget_promise :: "env \<Rightarrow> addr \<Rightarrow> unit M" where
  "forget_promise E closure =
     mbind (di_delete_member_raw E closure (di_string_borrow ''promise'')) (\<lambda>_. mret ())"

text \<open>What the closure does with the result of the handler it called.\<close>

definition settle_with :: "env \<Rightarrow> addr \<Rightarrow> addr \<Rightarrow> di_variant \<Rightarrow> addr option \<Rightarrow> unit M" where
  "settle_with E closure promise ret error =
     (case error of
        Some e \<Rightarrow>
          mseq (di_promise_reject E promise e)
          (mseq (di_free_value E ret) (forget_promise E closure))
      | None \<Rightarrow>
          (case ret of
             V_object r \<Rightarrow>
               mbind (di_check_type E r promise_type) (\<lambda>is_promise.
               if is_promise
               then mseq (di_promise_add_handler E r closure) (di_free_value E ret)
               else mseq (di_promise_resolve E promise ret)
                    (mseq (di_free_value E ret) (forget_promise E closure)))
           | _ \<Rightarrow>
               mseq (di_promise_resolve E promise ret)
               (mseq (di_free_value E ret) (forget_promise E closure))))"

definition di_promise_handler_closure :: "env \<Rightarrow> addr \<Rightarrow> di_tuple \<Rightarrow> (int \<times> di_variant) M" where
  "di_promise_handler_closure E closure args =
     (case args of
        [kind, arg] \<Rightarrow>
          mbind (di_rawget_borrowed closure (di_string_borrow ''promise'') DI_TYPE_OBJECT) (\<lambda>(rc, pv).
          case (rc = 0, pv) of
            (True, V_object promise) \<Rightarrow>
              mbind (di_type_conversion E kind DI_TYPE_NINT True) (\<lambda>(rc, tv).
              mseq (mcheck Panic (rc = 0 \<and> (tv = V_nint 0 \<or> tv = V_nint 1)))
              (mbind (take_handler closure ''resolve'') (\<lambda>resolvev.
               mscoped
                 (mbind (take_handler closure ''reject'') (\<lambda>rejectv.
                  mscoped
                    (case (if tv = V_nint 0 then resolvev else rejectv) of
                       None \<Rightarrow>
                         if tv = V_nint 0
                         then mseq (di_promise_resolve E promise arg)
                              (mseq (forget_promise E closure) (mret (0, V_last)))
                         else (case arg of
                                 V_object e \<Rightarrow>
                                   mseq (di_promise_reject E promise e)
                                   (mseq (forget_promise E closure) (mret (0, V_last)))
                               | _ \<Rightarrow> mcrash Panic)
                     | Some handler \<Rightarrow>
                         mbind (di_call_object_catch E handler [arg]) (\<lambda>(rc, ret, error).
                         if rc \<noteq> 0
                         then mseq (log_error E (''Error calling handler: '' @ int_string rc)) (mret (0, V_last))
                         else mseq (settle_with E closure promise (uninit_ret E ret) error) (mret (0, V_last))))
                    (case rejectv of None \<Rightarrow> mret () | Some h \<Rightarrow> di_unref_object E h)))
                 (case resolvev of None \<Rightarrow> mret () | Some h \<Rightarrow> di_unref_object E h))))
          | _ \<Rightarrow> mcrash Panic)
      | _ \<Rightarrow> mcrash Panic)"

definition di_promise_then_inner :: "env \<Rightarrow> addr \<Rightarrow> addr option \<Rightarrow> addr option \<Rightarrow> addr M" where
  "di_promise_then_inner E promise resolve reject =
     mbind (di_get E promise (di_string_borrow ''___weak_event_module'') DI_TYPE_WEAK_OBJECT) (\<lambda>(rc, v).
     case (rc = 0, v) of
       (True, V_weak_object weak_event) \<Rightarrow>
         scoped_weak weak_event
           (mbind (di_upgrade_weak_ref weak_event) (\<lambda>em.
            case em of
              None \<Rightarrow> throw_new_error E ''event.c'' 628 ''di_promise_then_inner'' ''deai shutting down?''
            | Some event_module \<Rightarrow>
                scoped_object E (Some event_module)
                  (mbind (di_new_promise E event_module) (\<lambda>ret.
                   mbind (di_new_object_with_type P_object) (\<lambda>closure.
                   mseq (ignore_rc (di_set_type E closure ''deai.event:PromiseThenClosure''))
                   (mseq (di_set_object_call closure (Some ''di_promise_handler_closure''))
                   (mseq (ignore_rc (di_member_clone E closure ''promise'' (V_object ret)))
                   (mseq (case resolve of None \<Rightarrow> mret ()
                          | Some h \<Rightarrow> ignore_rc (di_member_clone E closure ''resolve'' (V_object h)))
                   (mseq (case reject of None \<Rightarrow> mret ()
                          | Some h \<Rightarrow> ignore_rc (di_member_clone E closure ''reject'' (V_object h)))
                   (mseq (di_promise_add_handler E promise closure)
                   (mseq (di_unref_object E closure)
                   (mret ret))))))))))))
     | _ \<Rightarrow> throw_new_error E ''event.c'' 624 ''di_promise_then_inner'' ''Event module member not found'')"

definition di_promise_then :: "env \<Rightarrow> addr \<Rightarrow> addr \<Rightarrow> addr M" where
  "di_promise_then E promise handler = di_promise_then_inner E promise (Some handler) None"

definition di_promise_catch :: "env \<Rightarrow> addr \<Rightarrow> addr \<Rightarrow> addr M" where
  "di_promise_catch E promise handler = di_promise_then_inner E promise None (Some handler)"

definition di_promise_finally :: "env \<Rightarrow> addr \<Rightarrow> addr \<Rightarrow> addr M" where
  "di_promise_finally E promise handler = di_promise_then_inner E promise (Some handler) (Some handler)"

section \<open>Several promises\<close>

definition check_rc :: "(int \<times> 'a) M \<Rightarrow> unit M" where
  "check_rc m = mbind m (\<lambda>(rc, _). mcheck Panic (rc = 0))"

fun join_results :: "env \<Rightarrow> addr \<Rightarrow> nat \<Rightarrow> nat \<Rightarrow> di_variant list M" where
  "join_results E storage i 0 = mret []"
| "join_results E storage i (Suc n) =
     mbind (di_get E storage (Some (int_string (int i))) DI_TYPE_VARIANT) (\<lambda>(rc, v).
     case (rc = 0, v) of
       (True, V_variant x) \<Rightarrow> mbind (join_results E storage (Suc i) n) (\<lambda>xs. mret (x # xs))
     | _ \<Rightarrow> mcrash Panic)"

definition di_promise_join_handler :: "env \<Rightarrow> int \<Rightarrow> addr \<Rightarrow> addr \<Rightarrow> di_variant \<Rightarrow> unit M" where
  "di_promise_join_handler E index storage then_promise var =
     mseq (check_ok (di_add_member_clone E storage (Some (int_string index)) (V_variant var)))
     (mbind (get_nint_checked E storage (di_string_borrow ''left'')) (\<lambda>left0.
      let left = left0 - 1 in
      mseq (check_rc (di_setx E storage (di_string_borrow ''left'') (V_nint (of_int left)) False))
      (if left \<noteq> 0 then mret ()
       else
       mbind (get_nint_checked E storage (di_string_borrow ''total'')) (\<lambda>total.
       mbind (join_results E storage 0 (nat total)) (\<lambda>results.
       mscoped
         (mbind (di_call_void_impl E then_promise (di_string_borrow ''resolve'') [V_tuple results]) (\<lambda>_. mret ()))
         (di_free_value E (V_tuple results)))))))"

text \<open>All elements have to be promises.\<close>

fun check_promises :: "env \<Rightarrow> di_variant list \<Rightarrow> addr list option M" where
  "check_promises E [] = mret (Some [])"
| "check_promises E (v # vs) =
     (case v of
        V_object a \<Rightarrow>
          mbind (di_check_type E a promise_type) (\<lambda>ok.
          if \<not> ok then mret None
          else mbind (check_promises E vs) (\<lambda>r. mret (map_option ((#) a) r)))
      | _ \<Rightarrow> mcrash Out_of_bounds)"

fun join_loop :: "env \<Rightarrow> addr \<Rightarrow> addr \<Rightarrow> addr list \<Rightarrow> int \<Rightarrow> int M" where
  "join_loop E storage ret [] cnt = mret cnt"
| "join_loop E storage ret (p # ps) cnt =
     mbind (di_create_closure E ''di_promise_join_handler'' DI_TYPE_NIL
              [V_nint (of_int cnt), V_object storage, V_object ret] [DI_TYPE_VARIANT]) (\<lambda>r.
     case r of
       Inl _ \<Rightarrow> mcrash Null_deref
     | Inr handler \<Rightarrow>
         mbind (scoped_object E (Some handler)
                  (di_call_void_impl E p (di_string_borrow ''then'') [V_object handler])) (\<lambda>rc.
         join_loop E storage ret ps (if rc = 0 then cnt + 1 else cnt)))"

definition di_join_promises :: "env \<Rightarrow> addr \<Rightarrow> di_type \<Rightarrow> di_variant list \<Rightarrow> addr M" where
  "di_join_promises E event_module elem_type promises =
     (if promises \<noteq> [] \<and> elem_type \<noteq> DI_TYPE_OBJECT
      then throw_new_error E ''event.c'' 716 ''di_join_promises'' ''promises must all be objects''
      else
      mbind (check_promises E promises) (\<lambda>r.
      case r of
        None \<Rightarrow> throw_new_error E ''event.c'' 721 ''di_join_promises'' ''not all objects are promise''
      | Some arr \<Rightarrow>
          mbind (di_new_promise E event_module) (\<lambda>ret.
          if arr = []
          then mbind (di_call_void_impl E ret (di_string_borrow ''resolve'') [V_array DI_TYPE_NIL []]) (\<lambda>_. mret ret)
          else
          mbind (di_new_object_with_type P_object) (\<lambda>storage.
          scoped_object E (Some storage)
            (mbind (join_loop E storage ret arr 0) (\<lambda>cnt.
             mseq (check_rc (di_setx E storage (di_string_borrow ''left'') (V_nint (of_int cnt)) False))
             (mseq (check_rc (di_setx E storage (di_string_borrow ''total'') (V_nint (of_int cnt)) False))
             (mret ret))))))))"

definition di_any_promise_handler :: "env \<Rightarrow> addr \<Rightarrow> di_variant \<Rightarrow> unit M" where
  "di_any_promise_handler E then_promise var =
     mbind (di_call_void_impl E then_promise (di_string_borrow ''resolve'') [V_variant var]) (\<lambda>_. mret ())"

definition any_one :: "env \<Rightarrow> addr \<Rightarrow> addr \<Rightarrow> unit M" where
  "any_one E ret p =
     mbind (di_create_closure E ''di_any_promise_handler'' DI_TYPE_NIL [V_object ret] [DI_TYPE_VARIANT]) (\<lambda>r.
     case r of
       Inl _ \<Rightarrow> mcrash Null_deref
     | Inr handler \<Rightarrow>
         scoped_object E (Some handler)
           (mbind (di_call_void_impl E p (di_string_borrow ''then'') [V_object handler]) (\<lambda>_. mret ())))"

definition di_any_promise :: "env \<Rightarrow> addr \<Rightarrow> di_type \<Rightarrow> di_variant list \<Rightarrow> addr M" where
  "di_any_promise E event_module elem_type promises =
     (if elem_type \<noteq> DI_TYPE_OBJECT
      then throw_new_error E ''event.c'' 756 ''di_any_promise'' ''promises must all be objects''
      else
      mbind (check_promises E promises) (\<lambda>r.
      case r of
        None \<Rightarrow> throw_new_error E ''event.c'' 761 ''di_any_promise'' ''not all objects are promise''
      | Some arr \<Rightarrow>
          mbind (di_new_promise E event_module) (\<lambda>ret.
          mseq (mforeach (any_one E ret) arr) (mret ret))))"

section \<open>The event module\<close>

definition di_event_module_dtor :: "env \<Rightarrow> addr \<Rightarrow> unit M" where
  "di_event_module_dtor E obj =
     mbind (di_object_borrow_deai obj) (\<lambda>di.
     if di = None then mret () else emit_effect (Ev_idle_stop obj))"

definition di_init_event :: "env \<Rightarrow> addr \<Rightarrow> addr M" where
  "di_init_event E di =
     mbind (di_new_module E di P_event_module) (\<lambda>em.
     mseq (ignore_rc (di_method E em ''fdevent'' ''di_create_ioev'' DI_TYPE_OBJECT [DI_TYPE_NINT]))
     (mseq (ignore_rc (di_method E em ''timer'' ''di_create_timer'' DI_TYPE_OBJECT [DI_TYPE_FLOAT]))
     (mseq (ignore_rc (di_method E em ''periodic'' ''di_create_periodic'' DI_TYPE_OBJECT [DI_TYPE_FLOAT, DI_TYPE_FLOAT]))
     (mseq (ignore_rc (di_method E em ''new_promise'' ''di_new_promise'' DI_TYPE_OBJECT []))
     (mseq (ignore_rc (di_method E em ''ready_promise'' ''di_ready_promise'' DI_TYPE_OBJECT [DI_TYPE_VARIANT]))
     (mseq (ignore_rc (di_method E em ''join_promises'' ''di_join_promises'' DI_TYPE_OBJECT [DI_TYPE_ARRAY]))
     (mseq (ignore_rc (di_method E em ''any_promise'' ''di_any_promise'' DI_TYPE_OBJECT [DI_TYPE_ARRAY]))
     (mseq (ignore_rc (di_rawsetx E em (di_string_borrow ''pending_count'') (V_nint 0)))
     (mseq (di_set_object_dtor em (Some ''di_event_module_dtor''))
     (mseq (ignore_rc (di_register_module E di (di_string_borrow ''event'') em))
     (mret em)))))))))))"

end
