(* ===== verification/Deai_Log.thy ===== *)
theory Deai_Log
  imports Deai_Signal
begin

text \<open>
  The log module of \<^verbatim>\<open>log.c\<close>: log levels by name, the callable log object that filters by level and
  writes to its target, and the targets that write to a file or to the standard error.
\<close>

section \<open>Levels\<close>

text \<open>
  \<^verbatim>\<open>strncasecmp(l.data, name, l.length) == 0\<close>: only as many bytes are compared as the given string
  has.
\<close>

definition strncasecmp_eq :: "char list \<Rightarrow> c_string \<Rightarrow> nat \<Rightarrow> bool" where
  "strncasecmp_eq as bs n = strncmp_eq (map c_tolower as) (map c_tolower bs) n"

definition level_lookup :: "di_string \<Rightarrow> int" where
  "level_lookup l =
     (if strncasecmp_eq (str_bytes l) ''error'' (str_length l) then DI_LOG_ERROR
      else if strncasecmp_eq (str_bytes l) ''warn'' (str_length l) then DI_LOG_WARN
      else if strncasecmp_eq (str_bytes l) ''info'' (str_length l) then DI_LOG_INFO
      else if strncasecmp_eq (str_bytes l) ''debug'' (str_length l) then DI_LOG_DEBUG
      else DI_LOG_DEBUG + 1)"

definition get_level :: "addr \<Rightarrow> int M" where
  "get_level l =
     mbind (get_obj l) (\<lambda>ob. case payload ob of P_log n \<Rightarrow> mret n | _ \<Rightarrow> mcrash Out_of_bounds)"

definition get_log_level :: "addr \<Rightarrow> c_string M" where
  "get_log_level l =
     mbind (get_level l) (\<lambda>n. case level_tostring n of None \<Rightarrow> mcrash Null_deref | Some s \<Rightarrow> mret s)"

definition di_set_log_level :: "addr \<Rightarrow> int \<Rightarrow> int M" where
  "di_set_log_level o' log_level =
     (if log_level > DI_LOG_DEBUG then mret (-1)
      else mseq (upd_obj o' (\<lambda>ob. ob\<lparr>payload := P_log log_level\<rparr>))
           (mseq (mmodify (\<lambda>w. w\<lparr>saved_log_level := log_level\<rparr>)) (mret 0)))"

definition set_log_level :: "addr \<Rightarrow> di_string \<Rightarrow> int M" where
  "set_log_level l ll = di_set_log_level l (level_lookup ll)"

section \<open>Logging\<close>

text \<open>The string a log argument holds, for the two string types.\<close>

fun log_string :: "di_variant \<Rightarrow> di_string option" where
  "log_string (V_string s) = Some s"
| "log_string (V_string_literal s) = Some (di_string_borrow s)"
| "log_string _ = None"

text \<open>
  \<^verbatim>\<open>di_log\<close>.  A message below the level returns without setting the return value, whose type is
  already \<^verbatim>\<open>DI_TYPE_NINT\<close>: the value the caller sees is then arbitrary, here \<open>junk\<close>.
\<close>

definition di_log :: "env \<Rightarrow> u32 \<Rightarrow> addr \<Rightarrow> di_tuple \<Rightarrow> (int \<times> di_variant) M" where
  "di_log E junk o' t =
     (if length t \<noteq> 3 then mret (- EINVAL, V_last)
      else case (log_string (t ! 1), log_string (t ! 2)) of
          (Some level, Some str) \<Rightarrow>
            mbind (get_level o') (\<lambda>cur.
            if level_lookup level > cur then mret (0, V_nint junk)
            else
            mbind (di_rawget_borrowed o' (di_string_borrow ''log_target'') DI_TYPE_OBJECT) (\<lambda>(rc, tgt).
            case (rc = 0, tgt) of
              (True, V_object ltgt) \<Rightarrow>
                mbind (di_callr E ltgt ''write'' DI_TYPE_NINT [V_string str]) (\<lambda>(rc, wrc).
                if rc \<noteq> 0 then mret (0, V_nint (of_int rc)) else mret (0, wrc))
            | _ \<Rightarrow> mret (0, V_nint 0)))
        | _ \<Rightarrow> mret (- EINVAL, V_last))"

section \<open>Targets\<close>

text \<open>
  \<^verbatim>\<open>file_target_write\<close> on a stream that accepts everything: the bytes written.  The last byte of
  the message is looked at even when there is none.
\<close>

definition file_target_write :: "addr \<Rightarrow> di_string \<Rightarrow> int M" where
  "file_target_write lf log =
     mbind (get_obj lf) (\<lambda>ob.
     case payload ob of
       P_log_file f \<Rightarrow>
         mseq (emit_effect (File_write f (str_bytes log)))
         (if str_bytes log = [] then mcrash Out_of_bounds
          else if last (str_bytes log) \<noteq> CHR 0x0A
          then mseq (emit_effect (File_write f [CHR 0x0A]))
               (mseq (emit_effect (File_flush f)) (mret (int (str_length log) + 1)))
          else mseq (emit_effect (File_flush f)) (mret (int (str_length log))))
     | _ \<Rightarrow> mcrash Out_of_bounds)"

definition file_target_dtor :: "addr \<Rightarrow> unit M" where
  "file_target_dtor lf =
     mbind (get_obj lf) (\<lambda>ob.
     case payload ob of P_log_file f \<Rightarrow> emit_effect (File_close f) | _ \<Rightarrow> mcrash Out_of_bounds)"

definition PATH_MAX :: nat where "PATH_MAX = 4096"

text \<open>
  \<^verbatim>\<open>file_target\<close>: the stream \<^verbatim>\<open>fopen\<close> gives (if any), whether it has a descriptor and whether the
  close-on-exec flag can be set are arguments.  Failures are returned as error objects.
\<close>

definition file_target :: "env \<Rightarrow> nat option \<Rightarrow> bool \<Rightarrow> bool \<Rightarrow> di_string \<Rightarrow> addr M" where
  "file_target E fopen_result fd_ok cloexec_ok filename =
     (case di_string_to_chars filename PATH_MAX of
        None \<Rightarrow> di_new_error E ''log.c'' 131 ''file_target'' ''Filename too long for file target''
      | Some _ \<Rightarrow>
          (case fopen_result of
             None \<Rightarrow> di_new_error E ''log.c'' 136 ''file_target''
                       (''Can't open '' @ c_str (str_bytes filename) @ '' for writing'')
           | Some f \<Rightarrow>
               if \<not> fd_ok
               then mseq (emit_effect (File_close f)) (di_new_error E ''log.c'' 143 ''file_target'' ''Can't get the file descriptor'')
               else if \<not> cloexec_ok
               then mseq (emit_effect (File_close f)) (di_new_error E ''log.c'' 148 ''file_target'' ''Can't set cloexec'')
               else
               mbind (di_new_object_with_type (P_log_file f)) (\<lambda>lf.
               mseq (ignore_rc (di_set_type E lf ''deai.builtin.log:FileTarget''))
               (mseq (di_set_object_dtor lf (Some ''file_target_dtor''))
               (mseq (ignore_rc (di_method E lf ''write'' ''file_target_write'' DI_TYPE_NINT [DI_TYPE_STRING]))
               (mret lf))))))"

definition stderr_target :: "env \<Rightarrow> nat \<Rightarrow> addr M" where
  "stderr_target E stderr =
     mbind (di_new_object_with_type (P_log_file stderr)) (\<lambda>ls.
     mseq (ignore_rc (di_set_type E ls ''deai.builtin.log:StderrTarget''))
     (mseq (di_set_object_dtor ls None)
     (mseq (ignore_rc (di_method E ls ''write'' ''file_target_write'' DI_TYPE_NINT [DI_TYPE_STRING]))
     (mret ls))))"

section \<open>The module\<close>

definition log_dtor :: "addr \<Rightarrow> unit M" where
  "log_dtor o' = mmodify (\<lambda>w. w\<lparr>log_module := None\<rparr>)"

definition di_init_log :: "env \<Rightarrow> nat \<Rightarrow> addr \<Rightarrow> unit M" where
  "di_init_log E stderr di =
     mbind (di_new_module E di (P_log DI_LOG_WARN)) (\<lambda>l.
     mseq (ignore_rc (di_set_type E l ''deai.builtin:LogModule''))
     (mbind (stderr_target E stderr) (\<lambda>dtgt.
      mseq (ignore_rc (di_add_member_move E l (di_string_borrow ''log_target'') (V_object dtgt)))
      (mseq (di_set_object_call l (Some ''di_log''))
      (mseq (ignore_rc (di_method E l ''file_target'' ''file_target'' DI_TYPE_OBJECT [DI_TYPE_STRING, DI_TYPE_BOOL]))
      (mseq (ignore_rc (di_method E l ''stderr_target'' ''stderr_target'' DI_TYPE_OBJECT []))
      (mseq (ignore_rc (di_method E l ''__get_log_level'' ''get_log_level'' DI_TYPE_STRING_LITERAL []))
      (mseq (ignore_rc (di_method E l ''__set_log_level'' ''set_log_level'' DI_TYPE_NINT [DI_TYPE_STRING]))
      (mseq (di_set_object_dtor l (Some ''log_dtor''))
      (mseq (mmodify (\<lambda>w. w\<lparr>log_module := Some l\<rparr>))
      (ignore_rc (di_add_member_move E di (di_string_borrow ''log'') (V_object l)))))))))))))"

end
