(* ===== verification/Deai_Os.thy ===== *)
theory Deai_Os
  imports Deai_Signal
begin

text \<open>
  The \<^verbatim>\<open>os\<close> module of \<^verbatim>\<open>os.c\<close>: the process environment as an object with a generic getter, setter
  and deleter, and directory listing.  \<^verbatim>\<open>getenv\<close>, \<^verbatim>\<open>setenv\<close> and \<^verbatim>\<open>unsetenv\<close> work on an
  association list; a null pointer passed to them is a fault.
\<close>

definition c_getenv :: "c_string \<Rightarrow> world \<Rightarrow> c_string option" where
  "c_getenv name w = hash_find name (environ w)"

text \<open>Names that are empty or contain an equals sign are rejected by \<^verbatim>\<open>setenv\<close> and \<^verbatim>\<open>unsetenv\<close>.\<close>

definition env_name_ok :: "c_string \<Rightarrow> bool" where
  "env_name_ok name \<longleftrightarrow> name \<noteq> [] \<and> CHR ''='' \<notin> set name"

definition c_setenv :: "c_string \<Rightarrow> c_string \<Rightarrow> world \<Rightarrow> world" where
  "c_setenv name val w =
     (if \<not> env_name_ok name then w
      else if hash_find name (environ w) = None
      then w\<lparr>environ := hash_add name val (environ w)\<rparr>
      else w\<lparr>environ := hash_set name val (environ w)\<rparr>)"

definition c_unsetenv :: "c_string \<Rightarrow> world \<Rightarrow> world" where
  "c_unsetenv name w = (if \<not> env_name_ok name then w else w\<lparr>environ := hash_del name (environ w)\<rparr>)"

section \<open>Environment variables\<close>

text \<open>The result is a variant; the bottom variant means that there is no such property.\<close>

definition di_env_get :: "di_string \<Rightarrow> di_variant M" where
  "di_env_get name =
     (if name = None then mret (V_variant V_last)
      else case di_string_to_chars_alloc name of
          None \<Rightarrow> mcrash Null_deref
        | Some buf \<Rightarrow>
            mbind (mget (c_getenv (c_str buf))) (\<lambda>str.
            case str of
              None \<Rightarrow> mret (V_variant V_last)
            | Some s \<Rightarrow> mret (V_variant (V_string_literal s))))"

definition di_env_set :: "di_string \<Rightarrow> di_string \<Rightarrow> unit M" where
  "di_env_set key val =
     (if key = None \<or> val = None then mret ()
      else case (di_string_to_chars_alloc key, di_string_to_chars_alloc val) of
          (Some k, Some v) \<Rightarrow> mmodify (c_setenv (c_str k) (c_str v))
        | _ \<Rightarrow> mcrash Null_deref)"

definition di_env_unset :: "di_string \<Rightarrow> unit M" where
  "di_env_unset key =
     (if key = None then mret ()
      else case di_string_to_chars_alloc key of
          None \<Rightarrow> mcrash Null_deref
        | Some k \<Rightarrow> mmodify (c_unsetenv (c_str k)))"

section \<open>The host\<close>

text \<open>The node name \<^verbatim>\<open>uname\<close> reports, \<open>None\<close> when it fails; the result is a null pointer then.\<close>

definition di_get_hostname :: "c_string option \<Rightarrow> c_string option M" where
  "di_get_hostname nodename = mret nodename"

definition di_os_getpid :: "int \<Rightarrow> int M" where
  "di_os_getpid pid = mret pid"

section \<open>Directories\<close>

text \<open>
  \<^verbatim>\<open>di_listdir\<close>: the entries \<^verbatim>\<open>readdir\<close> returns are an argument, \<open>None\<close> when the directory cannot be
  opened.  The array grows by doubling; \<open>capacity\<close> is the number of slots it has.
\<close>

fun listdir_loop :: "c_string list \<Rightarrow> nat \<Rightarrow> di_string list \<Rightarrow> di_string list option" where
  "listdir_loop [] capacity acc = Some acc"
| "listdir_loop (ent # ents) capacity acc =
     (if ent = ''.'' \<or> ent = ''..'' then listdir_loop ents capacity acc
      else let capacity' = (if capacity = length acc then capacity * 2 + 1 else capacity)
           in if length acc < capacity'
              then listdir_loop ents capacity' (acc @ [di_string_dup (Some ent)])
              else None)"

definition di_listdir :: "c_string list option \<Rightarrow> di_string \<Rightarrow> di_variant M" where
  "di_listdir entries path =
     (case di_string_to_chars_alloc path of
        None \<Rightarrow> mcrash Null_deref
      | Some _ \<Rightarrow>
          (case entries of
             None \<Rightarrow> mret (V_array DI_TYPE_STRING [])
           | Some ents \<Rightarrow>
               (case listdir_loop ents 0 [] of
                  None \<Rightarrow> mcrash Out_of_bounds
                | Some strs \<Rightarrow> mret (V_array DI_TYPE_STRING (map V_string strs)))))"

section \<open>The module\<close>

definition di_init_os :: "env \<Rightarrow> addr \<Rightarrow> int M" where
  "di_init_os E di =
     mbind (di_new_module E di P_object) (\<lambda>m.
     mbind (di_new_object_with_type P_object) (\<lambda>o'.
     mseq (ignore_rc (di_set_type E o' ''deai.builtin.os:Env''))
     (mseq (ignore_rc (di_method E o' ''__get'' ''di_env_get'' DI_TYPE_VARIANT [DI_TYPE_STRING]))
     (mseq (ignore_rc (di_method E o' ''__set'' ''di_env_set'' DI_TYPE_NIL [DI_TYPE_STRING, DI_TYPE_STRING]))
     (mseq (ignore_rc (di_method E o' ''__delete'' ''di_env_unset'' DI_TYPE_NIL [DI_TYPE_STRING]))
     (mseq (ignore_rc (di_member E m ''env'' (V_object o')))
     (mseq (ignore_rc (di_method E m ''__get_hostname'' ''di_get_hostname'' DI_TYPE_STRING_LITERAL []))
     (mseq (ignore_rc (di_method E m ''__get_pid'' ''di_os_getpid'' DI_TYPE_NINT []))
     (mseq (ignore_rc (di_method E m ''listdir'' ''di_listdir'' DI_TYPE_ARRAY [DI_TYPE_STRING]))
     (di_add_member_move E di (di_string_borrow ''os'') (V_object m)))))))))))"

end
