(* ===== verification/Deai_Spawn.thy ===== *)
theory Deai_Spawn
  imports Deai_Event
begin

text \<open>
  Child processes of \<^verbatim>\<open>spawn.c\<close>: output of a child is read without blocking, cut into lines that are
  emitted as signals, and an unfinished line waits in a string buffer.  The results of the system
  calls that set a child up are arguments; \<^verbatim>\<open>close\<close>, \<^verbatim>\<open>kill\<close> and the calls of the forked process are effects.
\<close>

section \<open>The child object\<close>

definition child_fd :: "addr \<Rightarrow> nat \<Rightarrow> int M" where
  "child_fd c idx =
     mbind (get_obj c) (\<lambda>ob. case payload ob of
       P_child pid f0 f1 b0 b1 \<Rightarrow> mret (if idx = 0 then f0 else f1) | _ \<Rightarrow> mcrash Out_of_bounds)"

definition child_pid :: "addr \<Rightarrow> int M" where
  "child_pid c =
     mbind (get_obj c) (\<lambda>ob. case payload ob of P_child pid f0 f1 b0 b1 \<Rightarrow> mret pid | _ \<Rightarrow> mcrash Out_of_bounds)"

definition child_buf :: "addr \<Rightarrow> nat \<Rightarrow> string_buf option M" where
  "child_buf c idx =
     mbind (get_obj c) (\<lambda>ob. case payload ob of
       P_child pid f0 f1 b0 b1 \<Rightarrow> mret (if idx = 0 then b0 else b1) | _ \<Rightarrow> mcrash Out_of_bounds)"

fun set_buf :: "nat \<Rightarrow> string_buf option \<Rightarrow> payload \<Rightarrow> payload" where
  "set_buf idx b (P_child pid f0 f1 b0 b1) =
     (if idx = 0 then P_child pid f0 f1 b b1 else P_child pid f0 f1 b0 b)"
| "set_buf idx b p = p"

definition set_child_buf :: "addr \<Rightarrow> nat \<Rightarrow> string_buf option \<Rightarrow> unit M" where
  "set_child_buf c idx b = upd_obj c (\<lambda>ob. ob\<lparr>payload := set_buf idx b (payload ob)\<rparr>)"

definition checked_buf :: "addr \<Rightarrow> nat \<Rightarrow> string_buf M" where
  "checked_buf c idx =
     mbind (child_buf c idx) (\<lambda>b. case b of None \<Rightarrow> mcrash Null_deref | Some buf \<Rightarrow> mret buf)"

section \<open>Output\<close>

text \<open>
  \<^verbatim>\<open>read\<close> with a buffer of 4096 bytes: \<open>None\<close> when the call fails because it would block, the empty
  list at the end of the file, which stays there.
\<close>

definition sys_read :: "int \<Rightarrow> char list option M" where
  "sys_read fd w =
     (case fd_reads w fd of
        [] \<Rightarrow> Ret None w
      | [] # _ \<Rightarrow> Ret (Some []) w
      | r # rs \<Rightarrow>
          Ret (Some (take 4096 r))
            (w\<lparr>fd_reads := (fd_reads w)(fd := (if length r \<le> 4096 then rs else drop 4096 r # rs))\<rparr>))"

text \<open>
  Dumping the buffer of a stream: \<open>None\<close> of \<open>string_buf_dump\<close> is memory corruption.
\<close>

definition dump_child_buf :: "addr \<Rightarrow> nat \<Rightarrow> c_string M" where
  "dump_child_buf c idx =
     mbind (checked_buf c idx) (\<lambda>buf.
     case string_buf_dump NUL buf of
       None \<Rightarrow> mcrash Out_of_bounds
     | Some (out, buf') \<Rightarrow> mseq (set_child_buf c idx (Some buf')) (mret out))"

text \<open>
  The inner loop of \<^verbatim>\<open>output_handler\<close> on the bytes not yet looked at; the result says whether the
  listeners were stopped meanwhile.  A line is passed on as a C string, so it ends at a NUL.
\<close>

function output_lines :: "env \<Rightarrow> addr \<Rightarrow> nat \<Rightarrow> c_string \<Rightarrow> char list \<Rightarrow> bool M" where
  "output_lines E c idx ev data =
     (case memchr data (CHR 0x0A) of
        Some eol \<Rightarrow>
          mbind (checked_buf c idx) (\<lambda>buf.
          mseq (if \<not> string_buf_is_empty buf
                then mseq (set_child_buf c idx (Some (string_buf_push buf (c_str (take eol data)))))
                     (mbind (dump_child_buf c idx) (\<lambda>out. di_emit E c ev [V_string_literal out]))
                else di_emit E c ev [V_string_literal (c_str (take eol data))])
          (mbind (child_buf c idx) (\<lambda>b.
           if b = None then mret True else output_lines E c idx ev (drop (eol + 1) data))))
      | None \<Rightarrow>
          mbind (checked_buf c idx) (\<lambda>buf.
          mseq (set_child_buf c idx (Some (string_buf_lpush buf data (length data)))) (mret False)))"
  by pat_completeness auto
termination
  by (relation "measure (\<lambda>(E, c, idx, ev, data). length data)") (auto simp: memchr_Some)

declare output_lines.simps [simp del]

fun output_reads :: "nat \<Rightarrow> env \<Rightarrow> addr \<Rightarrow> int \<Rightarrow> nat \<Rightarrow> c_string \<Rightarrow> unit M" where
  "output_reads 0 E c fd idx ev = mcrash Out_of_fuel"
| "output_reads (Suc n) E c fd idx ev =
     mbind (sys_read fd) (\<lambda>r.
     case r of
       None \<Rightarrow> mret ()
     | Some [] \<Rightarrow>
         mbind (di_delete_member E c (Some (''__signal_'' @ ev)) False) (\<lambda>_. mret ())
     | Some data \<Rightarrow>
         mbind (output_lines E c idx ev data) (\<lambda>stopped.
         if stopped then mret () else output_reads n E c fd idx ev))"

definition output_handler :: "env \<Rightarrow> addr \<Rightarrow> int \<Rightarrow> nat \<Rightarrow> c_string \<Rightarrow> unit M" where
  "output_handler E c fd idx ev = output_reads (e_fuel E) E c fd idx ev"

definition SIGNAL_NAME :: "nat \<Rightarrow> c_string" where
  "SIGNAL_NAME idx = (if idx = 0 then ''stdout_line'' else ''stderr_line'')"

definition output_cb :: "env \<Rightarrow> addr \<Rightarrow> nat \<Rightarrow> unit M" where
  "output_cb E obj idx =
     mbind (child_buf obj idx) (\<lambda>b.
     mseq (mcheck Assert_failed (b \<noteq> None))
     (mbind (child_fd obj idx) (\<lambda>fd. output_handler E obj fd idx (SIGNAL_NAME idx))))"

section \<open>The end of a child\<close>

text \<open>The status macros of the C library on Linux.\<close>

definition WTERMSIG :: "u32 \<Rightarrow> u32" where "WTERMSIG status = and status 0x7f"
definition WEXITSTATUS :: "u32 \<Rightarrow> u32" where "WEXITSTATUS status = drop_bit 8 (and status 0xff00)"
definition WIFSIGNALED :: "u32 \<Rightarrow> bool" where
  "WIFSIGNALED status \<longleftrightarrow> WTERMSIG status \<noteq> 0 \<and> WTERMSIG status \<noteq> 0x7f"

definition drain_output :: "env \<Rightarrow> addr \<Rightarrow> nat \<Rightarrow> unit M" where
  "drain_output E c i =
     mbind (child_buf c i) (\<lambda>b.
     if b = None then mret ()
     else
     mbind (child_fd c i) (\<lambda>fd.
     mseq (output_handler E c fd i (SIGNAL_NAME i))
     (mbind (child_buf c i) (\<lambda>b.
      case b of
        None \<Rightarrow> mret ()
      | Some buf \<Rightarrow>
          if string_buf_is_empty buf then mret ()
          else mbind (dump_child_buf c i) (\<lambda>o'. di_emit E c (SIGNAL_NAME i) [V_string_literal o'])))))"

definition stop_listeners :: "env \<Rightarrow> addr \<Rightarrow> c_string \<Rightarrow> unit M" where
  "stop_listeners E c member = mbind (di_delete_member E c (di_string_borrow member) False) (\<lambda>_. mret ())"

definition sigchld_handler :: "env \<Rightarrow> addr \<Rightarrow> u32 \<Rightarrow> unit M" where
  "sigchld_handler E c rstatus =
     mbind (di_ref_object c) (\<lambda>obj.
     scoped_object E (Some obj)
       (let sig = (if WIFSIGNALED rstatus then WTERMSIG rstatus else 0);
            ec = WEXITSTATUS rstatus
        in mseq (drain_output E c 0)
           (mseq (drain_output E c 1)
           (mseq (di_emit E c ''exit'' [V_nint ec, V_nint sig])
           (mseq (stop_listeners E c ''__signal_stdout_line'')
           (mseq (stop_listeners E c ''__signal_stderr_line'')
           (stop_listeners E c ''__signal_exit'')))))))"

definition close_child_fd :: "addr \<Rightarrow> nat \<Rightarrow> unit M" where
  "close_child_fd c i =
     mbind (child_buf c i) (\<lambda>b.
     mseq (case b of None \<Rightarrow> mret () | Some buf \<Rightarrow> set_child_buf c i (Some (string_buf_clear buf)))
     (mbind (child_fd c i) (\<lambda>fd. if fd \<noteq> -1 then emit_effect (Sys_close fd) else mret ())))"

definition child_destroy :: "env \<Rightarrow> addr \<Rightarrow> unit M" where
  "child_destroy E obj =
     mbind (di_get E obj (di_string_borrow ''pty'') DI_TYPE_NINT) (\<lambda>(rc, v).
     mseq (case (rc = 0, v) of (True, V_nint fd) \<Rightarrow> emit_effect (Sys_close (sint fd)) | _ \<Rightarrow> mret ())
     (mseq (close_child_fd obj 0) (close_child_fd obj 1)))"

definition get_child_pid :: "addr \<Rightarrow> u64 M" where
  "get_child_pid c = mbind (child_pid c) (\<lambda>pid. mret (of_int pid))"

definition kill_child :: "addr \<Rightarrow> int \<Rightarrow> unit M" where
  "kill_child c sig = mbind (child_pid c) (\<lambda>pid. emit_effect (Sys_kill pid sig))"

section \<open>Signals of a child\<close>

definition child_root_key :: "int \<Rightarrow> di_string" where
  "child_root_key pid = Some (''child_process_'' @ int_string pid)"

definition di_child_process_new_exit_signal :: "env \<Rightarrow> addr \<Rightarrow> addr \<Rightarrow> unit M" where
  "di_child_process_new_exit_signal E p sig =
     mbind (di_member_clone E p ''__signal_exit'' (V_object sig)) (\<lambda>rc.
     if rc \<noteq> 0 then mret ()
     else
     mbind (di_object_borrow_deai p) (\<lambda>di.
     if di = None then mret ()
     else
     mseq (emit_effect (Ev_child_start p))
     (mbind di_get_roots (\<lambda>roots.
      mbind (child_pid p) (\<lambda>pid.
      check_ok (di_call_void_impl E roots (di_string_borrow ''add'') [V_string (child_root_key pid), V_object p]))))))"

definition listen_handle_key :: "nat \<Rightarrow> di_string" where
  "listen_handle_key idx = Some (''__listen_handle_for_output_'' @ int_string (int idx))"

text \<open>A typed getter whose success is checked.\<close>

definition get_object_checked :: "env \<Rightarrow> addr \<Rightarrow> c_string \<Rightarrow> addr M" where
  "get_object_checked E o' name =
     mbind (di_get E o' (di_string_borrow name) DI_TYPE_OBJECT) (\<lambda>(rc, v).
     case (rc = 0, v) of (True, V_object a) \<Rightarrow> mret a | _ \<Rightarrow> mcrash Panic)"

definition di_child_start_output_listener :: "env \<Rightarrow> addr \<Rightarrow> nat \<Rightarrow> unit M" where
  "di_child_start_output_listener E p idx =
     mbind (di_object_borrow_deai p) (\<lambda>di.
     case di of
       None \<Rightarrow> mret ()
     | Some di_obj \<Rightarrow>
         mbind (get_object_checked E di_obj ''event'') (\<lambda>event_module.
         scoped_object E (Some event_module)
           (mbind (child_fd p idx) (\<lambda>fd.
            mbind (di_callr E event_module ''fdevent'' DI_TYPE_OBJECT [V_nint (of_int fd)]) (\<lambda>(rc, fv).
            case (rc = 0, fv) of
              (True, V_object fdevent) \<Rightarrow>
                scoped_object E (Some fdevent)
                  (mbind (di_create_closure E ''output_cb'' DI_TYPE_NIL [V_object p, V_nint (of_nat idx)] []) (\<lambda>r.
                   case r of
                     Inl _ \<Rightarrow> mcrash Null_deref
                   | Inr closure \<Rightarrow>
                       scoped_object E (Some closure)
                         (mbind (di_listen_to E fdevent (di_string_borrow ''read'') closure False) (\<lambda>(lh, _).
                          case lh of
                            None \<Rightarrow> mcrash Null_deref
                          | Some listen_handle \<Rightarrow>
                              mseq (check_ok (di_call_void_impl E listen_handle (di_string_borrow ''auto_stop'') [V_nint 1]))
                              (mseq (ignore_rc (di_add_member_move E p (listen_handle_key idx) (V_object listen_handle)))
                              (set_child_buf p idx (Some string_buf_new)))))))
            | _ \<Rightarrow> mcrash Panic)))))"

definition new_output_signal :: "env \<Rightarrow> nat \<Rightarrow> c_string \<Rightarrow> addr \<Rightarrow> addr \<Rightarrow> unit M" where
  "new_output_signal E idx member p sig =
     mbind (child_fd p idx) (\<lambda>fd.
     if fd = -1 then mret ()
     else
     mbind (di_member_clone E p member (V_object sig)) (\<lambda>rc.
     if rc \<noteq> 0 then mret () else di_child_start_output_listener E p idx))"

definition di_child_process_new_stdout_signal :: "env \<Rightarrow> addr \<Rightarrow> addr \<Rightarrow> unit M" where
  "di_child_process_new_stdout_signal E p sig = new_output_signal E 0 ''__signal_stdout_line'' p sig"

definition di_child_process_new_stderr_signal :: "env \<Rightarrow> addr \<Rightarrow> addr \<Rightarrow> unit M" where
  "di_child_process_new_stderr_signal E p sig = new_output_signal E 1 ''__signal_stderr_line'' p sig"

definition di_child_process_delete_exit_signal :: "env \<Rightarrow> addr \<Rightarrow> unit M" where
  "di_child_process_delete_exit_signal E obj =
     mbind (di_delete_member_raw E obj (di_string_borrow ''__signal_exit'')) (\<lambda>rc.
     if rc \<noteq> 0 then mret ()
     else
     mbind (di_object_borrow_deai obj) (\<lambda>di.
     if di = None then mcrash Null_deref
     else
     mseq (emit_effect (Ev_child_stop obj))
     (mbind di_get_roots (\<lambda>roots.
      mbind (child_pid obj) (\<lambda>pid.
      check_ok (di_call_void_impl E roots (di_string_borrow ''remove'') [V_string (child_root_key pid)]))))))"

definition di_child_process_stop_output_listener :: "env \<Rightarrow> addr \<Rightarrow> nat \<Rightarrow> unit M" where
  "di_child_process_stop_output_listener E obj idx =
     mseq (check_ok (di_delete_member_raw E obj (listen_handle_key idx)))
     (mbind (checked_buf obj idx) (\<lambda>_. set_child_buf obj idx None))"

definition delete_output_signal :: "env \<Rightarrow> nat \<Rightarrow> c_string \<Rightarrow> addr \<Rightarrow> unit M" where
  "delete_output_signal E idx member obj =
     mbind (di_delete_member_raw E obj (di_string_borrow member)) (\<lambda>rc.
     if rc = 0 then di_child_process_stop_output_listener E obj idx else mret ())"

definition di_child_process_delete_stdout_signal :: "env \<Rightarrow> addr \<Rightarrow> unit M" where
  "di_child_process_delete_stdout_signal E obj = delete_output_signal E 0 ''__signal_stdout_line'' obj"

definition di_child_process_delete_stderr_signal :: "env \<Rightarrow> addr \<Rightarrow> unit M" where
  "di_child_process_delete_stderr_signal E obj = delete_output_signal E 1 ''__signal_stderr_line'' obj"

section \<open>Starting a child\<close>

text \<open>
  The results of the system calls of \<^verbatim>\<open>di_setup_fds\<close>: the two pipes, whether the four \<^verbatim>\<open>fcntl\<close> calls
  succeed, and the descriptors \<^verbatim>\<open>open\<close> returns for \<^verbatim>\<open>/dev/null\<close>.
\<close>

record fd_results =
  r_pipe_out :: "(int \<times> int) option"
  r_pipe_err :: "(int \<times> int) option"
  r_cloexec :: bool
  r_nonblock :: bool
  r_null_out :: int
  r_null_err :: int
  r_null_in :: int

text \<open>The five descriptors in the order they are closed, and the error message if any.\<close>

definition open_fds :: "bool \<Rightarrow> fd_results \<Rightarrow> int \<times> int \<times> int \<times> int \<times> int \<times> (int \<times> c_string) option" where
  "open_fds ignore_output r =
     (let stdin' = (\<lambda>o0 o1 e0 e1.
            if r_null_in r < 0 then (o0, o1, e0, e1, r_null_in r, Some (203, ''Can't open /dev/null''))
            else (o0, o1, e0, e1, r_null_in r, None))
      in if \<not> ignore_output then
           (case r_pipe_out r of
              None \<Rightarrow> (-1, -1, -1, -1, -1, Some (178, ''Failed to open pipe''))
            | Some (o0, o1) \<Rightarrow>
                (case r_pipe_err r of
                   None \<Rightarrow> (o0, o1, -1, -1, -1, Some (178, ''Failed to open pipe''))
                 | Some (e0, e1) \<Rightarrow>
                     if \<not> r_cloexec r then (o0, o1, e0, e1, -1, Some (184, ''Can't set cloexec''))
                     else if \<not> r_nonblock r then (o0, o1, e0, e1, -1, Some (190, ''Can't set non block''))
                     else stdin' o0 o1 e0 e1))
         else if r_null_out r < 0 \<or> r_null_err r < 0
         then (-1, r_null_out r, -1, r_null_err r, -1, Some (197, ''Can't open /dev/null''))
         else stdin' (-1) (r_null_out r) (-1) (r_null_err r))"

definition di_setup_fds :: "env \<Rightarrow> bool \<Rightarrow> fd_results \<Rightarrow> (int \<times> int \<times> int \<times> int \<times> int) M" where
  "di_setup_fds E ignore_output r =
     (case open_fds ignore_output r of
        (o0, o1, e0, e1, ifd, None) \<Rightarrow> mret (o0, o1, e0, e1, ifd)
      | (o0, o1, e0, e1, ifd, Some (line, msg)) \<Rightarrow>
          mbind (di_new_error E ''spawn.c'' line ''di_setup_fds'' msg) (\<lambda>error.
          mseq (mforeach (\<lambda>fd. emit_effect (Sys_close fd)) [o0, o1, e0, e1, ifd]) (di_throw error)))"

text \<open>
  The forked process: \<open>dup_ok\<close> says how many of the three \<^verbatim>\<open>dup2\<close> calls succeed.  It ends in \<^verbatim>\<open>execvp\<close>
  or in \<^verbatim>\<open>_exit(1)\<close>.
\<close>

definition child_process :: "nat \<Rightarrow> bool \<Rightarrow> int \<times> int \<times> int \<times> int \<times> int \<Rightarrow> c_string option list \<Rightarrow> unit M" where
  "child_process dup_ok ignore_output fds nargv =
     (case fds of (o0, o1, e0, e1, ifd) \<Rightarrow>
        mseq (if \<not> ignore_output then mseq (emit_effect (Sys_close o0)) (emit_effect (Sys_close e0)) else mret ())
        (mseq (mforeach (\<lambda>(a, b). emit_effect (Sys_dup2 a b)) (take (dup_ok + 1) [(ifd, 0), (o1, 1), (e1, 2)]))
        (if dup_ok < 3 then emit_effect (Sys_exit 1)
         else mseq (mforeach (\<lambda>fd. emit_effect (Sys_close fd)) [o1, e1, ifd])
              (mseq (emit_effect Sys_setsid)
              (case nargv of
                 [] \<Rightarrow> emit_effect (Sys_execvp None [])
               | a # _ \<Rightarrow> emit_effect (Sys_execvp a nargv))))))"

text \<open>\<open>V_string\<close> elements of the argument array as the C strings of \<^verbatim>\<open>nargv\<close>; null ends the list for \<^verbatim>\<open>execvp\<close>.\<close>

fun argv_of :: "di_variant list \<Rightarrow> c_string option list" where
  "argv_of [] = []"
| "argv_of (V_string s # vs) = map_option c_str (di_string_to_chars_alloc s) # argv_of vs"
| "argv_of (_ # vs) = argv_of vs"

definition new_child :: "env \<Rightarrow> int \<Rightarrow> int \<Rightarrow> int \<Rightarrow> addr \<Rightarrow> addr M" where
  "new_child E pid o0 e0 di =
     mbind (di_new_object_with_type (P_child 0 0 0 None None)) (\<lambda>cp.
     mseq (ignore_rc (di_set_type E cp ''deai.builtin.spawn:ChildProcess''))
     (mseq (di_set_object_dtor cp (Some ''child_destroy''))
     (mseq (ignore_rc (di_method E cp ''__get_pid'' ''get_child_pid'' DI_TYPE_UINT []))
     (mseq (ignore_rc (di_method E cp ''kill'' ''kill_child'' DI_TYPE_NIL [DI_TYPE_NINT]))
     (mseq (ignore_rc (di_method E cp ''__set___signal_exit'' ''di_child_process_new_exit_signal'' DI_TYPE_NIL [DI_TYPE_OBJECT]))
     (mseq (ignore_rc (di_method E cp ''__set___signal_stdout_line'' ''di_child_process_new_stdout_signal'' DI_TYPE_NIL [DI_TYPE_OBJECT]))
     (mseq (ignore_rc (di_method E cp ''__set___signal_stderr_line'' ''di_child_process_new_stderr_signal'' DI_TYPE_NIL [DI_TYPE_OBJECT]))
     (mseq (ignore_rc (di_method E cp ''__delete___signal_exit'' ''di_child_process_delete_exit_signal'' DI_TYPE_NIL []))
     (mseq (ignore_rc (di_method E cp ''__delete___signal_stdout_line'' ''di_child_process_delete_stdout_signal'' DI_TYPE_NIL []))
     (mseq (ignore_rc (di_method E cp ''__delete___signal_stderr_line'' ''di_child_process_delete_stderr_signal'' DI_TYPE_NIL []))
     (mseq (upd_obj cp (\<lambda>ob. ob\<lparr>payload := P_child pid o0 e0 None None\<rparr>))
     (mseq (ignore_rc (di_member E cp ''__deai'' (V_object di)))
     (mret cp)))))))))))))"

text \<open>
  \<^verbatim>\<open>di_spawn_run\<close> as the calling process sees it; \<open>pid\<close> is what \<^verbatim>\<open>fork\<close> returns, zero in the child.
\<close>

definition di_spawn_run :: "env \<Rightarrow> fd_results \<Rightarrow> int \<Rightarrow> nat \<Rightarrow> addr \<Rightarrow> di_type \<Rightarrow> di_variant list \<Rightarrow> bool \<Rightarrow> addr option M" where
  "di_spawn_run E r pid dup_ok p elem_type argv ignore_output =
     (if elem_type \<noteq> DI_TYPE_STRING
      then throw_new_error E ''spawn.c'' 339 ''di_spawn_run'' ''Invalid argv type''
      else
      mbind (di_object_get_deai_strong E p) (\<lambda>di.
      case di of
        None \<Rightarrow> throw_new_error E ''spawn.c'' 343 ''di_spawn_run'' ''deai is shutting down...''
      | Some obj \<Rightarrow>
          mbind (di_setup_fds E ignore_output r) (\<lambda>(o0, o1, e0, e1, ifd).
          if pid = 0
          then mseq (child_process dup_ok ignore_output (o0, o1, e0, e1, ifd) (argv_of argv)) (mret None)
          else
          mseq (mforeach (\<lambda>fd. emit_effect (Sys_close fd)) [ifd, o1, e1])
          (if pid < 0
           then mseq (mforeach (\<lambda>fd. emit_effect (Sys_close fd)) [o0, e0])
                (throw_new_error E ''spawn.c'' 387 ''di_spawn_run'' ''Failed to fork'')
           else mbind (new_child E pid o0 e0 obj) (\<lambda>cp. mret (Some cp))))))"

definition di_init_spawn :: "env \<Rightarrow> int \<Rightarrow> addr \<Rightarrow> unit M" where
  "di_init_spawn E prctl_ret di =
     (if prctl_ret \<noteq> 0 then mret ()
      else
      mbind (di_new_module E di P_object) (\<lambda>m.
      mseq (ignore_rc (di_method E m ''run'' ''di_spawn_run'' DI_TYPE_OBJECT [DI_TYPE_ARRAY, DI_TYPE_BOOL]))
      (ignore_rc (di_register_module E di (di_string_borrow ''spawn'') m))))"

end
