(* ===== verification/Deai_Klist.thy ===== *)
theory Deai_Klist
  imports Deai_Prelude
begin

text \<open>
  The intrusive circular doubly linked lists of \<^verbatim>\<open>list.h\<close>, at pointer level.  The memory maps
  the address of every \<^verbatim>\<open>struct list_head\<close> to its two links; each function is the sequence of
  stores the C function makes, in the same order.  The abstraction \<open>dlist h head xs\<close> says that
  the ring with head \<open>head\<close> holds the entries \<open>xs\<close>, and the refinement lemmas say what each
  function does to \<open>xs\<close>.
\<close>

record list_head =
  nxt :: addr
  prv :: addr

type_synonym lmem = "addr \<Rightarrow> list_head"

definition set_next :: "addr \<Rightarrow> addr \<Rightarrow> lmem \<Rightarrow> lmem" where
  "set_next a v h = h(a := (h a)\<lparr>nxt := v\<rparr>)"

definition set_prev :: "addr \<Rightarrow> addr \<Rightarrow> lmem \<Rightarrow> lmem" where
  "set_prev a v h = h(a := (h a)\<lparr>prv := v\<rparr>)"

definition LIST_POISON1 :: addr where "LIST_POISON1 = 0x00100100"
definition LIST_POISON2 :: addr where "LIST_POISON2 = 0x00200200"

section \<open>The operations\<close>

definition INIT_LIST_HEAD :: "addr \<Rightarrow> lmem \<Rightarrow> lmem" where
  "INIT_LIST_HEAD list h = set_prev list list (set_next list list h)"

definition list_add_between :: "addr \<Rightarrow> addr \<Rightarrow> addr \<Rightarrow> lmem \<Rightarrow> lmem" where
  "list_add_between n prev next h =
     set_next prev n (set_prev n prev (set_next n next (set_prev next n h)))"

definition list_add :: "addr \<Rightarrow> addr \<Rightarrow> lmem \<Rightarrow> lmem" where
  "list_add n head h = list_add_between n head (nxt (h head)) h"

definition list_add_tail :: "addr \<Rightarrow> addr \<Rightarrow> lmem \<Rightarrow> lmem" where
  "list_add_tail n head h = list_add_between n (prv (h head)) head h"

definition list_del_between :: "addr \<Rightarrow> addr \<Rightarrow> lmem \<Rightarrow> lmem" where
  "list_del_between prev next h = set_next prev next (set_prev next prev h)"

definition list_del_entry :: "addr \<Rightarrow> lmem \<Rightarrow> lmem" where
  "list_del_entry entry h = list_del_between (prv (h entry)) (nxt (h entry)) h"

definition list_del :: "addr \<Rightarrow> lmem \<Rightarrow> lmem" where
  "list_del entry h =
     set_prev entry LIST_POISON2 (set_next entry LIST_POISON1
       (list_del_between (prv (h entry)) (nxt (h entry)) h))"

definition list_replace :: "addr \<Rightarrow> addr \<Rightarrow> lmem \<Rightarrow> lmem" where
  "list_replace old n h =
     (let h1 = set_next n (nxt (h old)) h;
          h2 = set_prev (nxt (h1 n)) n h1;
          h3 = set_prev n (prv (h2 old)) h2
      in set_next (prv (h3 n)) n h3)"

definition list_replace_init :: "addr \<Rightarrow> addr \<Rightarrow> lmem \<Rightarrow> lmem" where
  "list_replace_init old n h = INIT_LIST_HEAD old (list_replace old n h)"

definition list_del_init :: "addr \<Rightarrow> lmem \<Rightarrow> lmem" where
  "list_del_init entry h = INIT_LIST_HEAD entry (list_del_entry entry h)"

definition list_move :: "addr \<Rightarrow> addr \<Rightarrow> lmem \<Rightarrow> lmem" where
  "list_move list head h = list_add list head (list_del_entry list h)"

definition list_move_tail :: "addr \<Rightarrow> addr \<Rightarrow> lmem \<Rightarrow> lmem" where
  "list_move_tail list head h = list_add_tail list head (list_del_entry list h)"

definition list_is_last :: "addr \<Rightarrow> addr \<Rightarrow> lmem \<Rightarrow> bool" where
  "list_is_last list head h = (nxt (h list) = head)"

definition list_empty :: "addr \<Rightarrow> lmem \<Rightarrow> bool" where
  "list_empty head h = (nxt (h head) = head)"

definition list_empty_careful :: "addr \<Rightarrow> lmem \<Rightarrow> bool" where
  "list_empty_careful head h = (let next = nxt (h head) in next = head \<and> next = prv (h head))"

definition list_rotate_left :: "addr \<Rightarrow> lmem \<Rightarrow> lmem" where
  "list_rotate_left head h =
     (if \<not> list_empty head h then list_move_tail (nxt (h head)) head h else h)"

definition list_is_singular :: "addr \<Rightarrow> lmem \<Rightarrow> bool" where
  "list_is_singular head h = (\<not> list_empty head h \<and> nxt (h head) = prv (h head))"

definition list_cut_position_raw :: "addr \<Rightarrow> addr \<Rightarrow> addr \<Rightarrow> lmem \<Rightarrow> lmem" where
  "list_cut_position_raw list head entry h =
     (let new_first = nxt (h entry);
          h1 = set_next list (nxt (h head)) h;
          h2 = set_prev (nxt (h1 list)) list h1;
          h3 = set_prev list entry h2;
          h4 = set_next entry list h3;
          h5 = set_next head new_first h4
      in set_prev new_first head h5)"

definition list_cut_position :: "addr \<Rightarrow> addr \<Rightarrow> addr \<Rightarrow> lmem \<Rightarrow> lmem" where
  "list_cut_position list head entry h =
     (if list_empty head h then h
      else if list_is_singular head h \<and> (nxt (h head) \<noteq> entry \<and> head \<noteq> entry) then h
      else if entry = head then INIT_LIST_HEAD list h
      else list_cut_position_raw list head entry h)"

definition list_splice_between :: "addr \<Rightarrow> addr \<Rightarrow> addr \<Rightarrow> lmem \<Rightarrow> lmem" where
  "list_splice_between list prev next h =
     (let first = nxt (h list); last = prv (h list)
      in set_prev next last (set_next last next (set_next prev first (set_prev first prev h))))"

definition list_splice :: "addr \<Rightarrow> addr \<Rightarrow> lmem \<Rightarrow> lmem" where
  "list_splice list head h =
     (if \<not> list_empty list h then list_splice_between list head (nxt (h head)) h else h)"

definition list_splice_tail :: "addr \<Rightarrow> addr \<Rightarrow> lmem \<Rightarrow> lmem" where
  "list_splice_tail list head h =
     (if \<not> list_empty list h then list_splice_between list (prv (h head)) head h else h)"

definition list_splice_init :: "addr \<Rightarrow> addr \<Rightarrow> lmem \<Rightarrow> lmem" where
  "list_splice_init list head h =
     (if \<not> list_empty list h
      then INIT_LIST_HEAD list (list_splice_between list head (nxt (h head)) h) else h)"

definition list_splice_tail_init :: "addr \<Rightarrow> addr \<Rightarrow> lmem \<Rightarrow> lmem" where
  "list_splice_tail_init list head h =
     (if \<not> list_empty list h
      then INIT_LIST_HEAD list (list_splice_between list (prv (h head)) head h) else h)"

text \<open>
  \<^verbatim>\<open>list_for_each\<close>: the entries visited from the node \<open>pos\<close> until the head, following
  \<^verbatim>\<open>next\<close>; \<open>None\<close> when the bound on the number of steps is reached first.
\<close>

fun list_walk :: "nat \<Rightarrow> lmem \<Rightarrow> addr \<Rightarrow> addr \<Rightarrow> addr list option" where
  "list_walk 0 h head pos = (if pos = head then Some [] else None)"
| "list_walk (Suc n) h head pos =
     (if pos = head then Some [] else map_option ((#) pos) (list_walk n h head (nxt (h pos))))"

definition list_for_each :: "nat \<Rightarrow> lmem \<Rightarrow> addr \<Rightarrow> addr list option" where
  "list_for_each n h head = list_walk n h head (nxt (h head))"

section \<open>Abstraction\<close>

text \<open>Consecutive nodes of a segment point at each other.\<close>

fun links :: "lmem \<Rightarrow> addr list \<Rightarrow> bool" where
  "links h [] = True"
| "links h [x] = True"
| "links h (x # y # zs) = (nxt (h x) = y \<and> prv (h y) = x \<and> links h (y # zs))"

definition dlist :: "lmem \<Rightarrow> addr \<Rightarrow> addr list \<Rightarrow> bool" where
  "dlist h head xs \<longleftrightarrow> distinct (head # xs) \<and> links h (head # xs @ [head])"

lemma nxt_set_next [simp]: "nxt (set_next a v h b) = (if b = a then v else nxt (h b))"
  by (simp add: set_next_def)

lemma prv_set_next [simp]: "prv (set_next a v h b) = prv (h b)"
  by (simp add: set_next_def)

lemma nxt_set_prev [simp]: "nxt (set_prev a v h b) = nxt (h b)"
  by (simp add: set_prev_def)

lemma prv_set_prev [simp]: "prv (set_prev a v h b) = (if b = a then v else prv (h b))"
  by (simp add: set_prev_def)

text \<open>A segment depends on the next links of its front and the prev links of its back only.\<close>

lemma links_cong:
  assumes "\<And>x. x \<in> set (butlast xs) \<Longrightarrow> nxt (h' x) = nxt (h x)"
    and "\<And>x. x \<in> set (tl xs) \<Longrightarrow> prv (h' x) = prv (h x)"
  shows "links h' xs = links h xs"
  using assms
proof (induction h xs rule: links.induct)
  case (3 h x y zs)
  have "links h' (y # zs) = links h (y # zs)"
    using "3.prems" by (intro "3.IH") (auto split: if_splits dest: in_set_tlD)
  with "3.prems" show ?case by simp
qed simp_all

lemma links_append:
  "links h (xs @ y # ys) \<longleftrightarrow> links h (xs @ [y]) \<and> links h (y # ys)"
proof (induction h xs rule: links.induct)
  case (2 h x)
  then show ?case by (cases ys) auto
qed auto

lemma links_snoc2: "links h (xs @ [x, y]) \<longleftrightarrow> links h (xs @ [x]) \<and> nxt (h x) = y \<and> prv (h y) = x"
  using links_append [of h xs x "[y]"] by simp

lemma dlist_nextD: "dlist h head xs \<Longrightarrow> nxt (h head) = (case xs of [] \<Rightarrow> head | x # _ \<Rightarrow> x)"
  by (cases xs) (auto simp: dlist_def)

lemma dlist_prevD: "dlist h head xs \<Longrightarrow> prv (h head) = (if xs = [] then head else last xs)"
proof (cases xs rule: rev_cases)
  case Nil
  then show "dlist h head xs \<Longrightarrow> ?thesis" by (simp add: dlist_def)
next
  case (snoc ys y)
  assume "dlist h head xs"
  with snoc have "links h ((head # ys) @ [y, head])" by (simp add: dlist_def)
  then have "prv (h head) = y" unfolding links_snoc2 by simp
  with snoc show ?thesis by simp
qed

text \<open>The entry before and after a given entry.\<close>

lemma dlist_split:
  assumes "dlist h head (as @ e # bs)"
  shows "prv (h e) = (if as = [] then head else last as)"
    and "nxt (h e) = (if bs = [] then head else hd bs)"
proof -
  from assms have l: "links h ((head # as) @ e # bs @ [head])"
    by (simp add: dlist_def)
  then have l1: "links h ((head # as) @ [e])" and l2: "links h (e # bs @ [head])"
    using links_append [of h "head # as" e "bs @ [head]"] by auto
  show "prv (h e) = (if as = [] then head else last as)"
    using l1 by (cases as rule: rev_cases) (use links_snoc2 [of h "head # butlast as"] in auto)
  show "nxt (h e) = (if bs = [] then head else hd bs)"
    using l2 by (cases bs) auto
qed

lemma dlist_distinct: "dlist h head xs \<Longrightarrow> distinct xs \<and> head \<notin> set xs"
  by (simp add: dlist_def)

lemma dlist_frame:
  assumes "dlist h head xs" and "\<And>x. x \<in> set (head # xs) \<Longrightarrow> h' x = h x"
  shows "dlist h' head xs"
proof -
  have "links h' (head # xs @ [head]) = links h (head # xs @ [head])"
    by (rule links_cong) (use assms(2) in \<open>auto dest: in_set_butlastD\<close>)
  with assms(1) show ?thesis by (simp add: dlist_def)
qed

section \<open>Refinement\<close>

text \<open>
  The two pointer surgeries on a segment: linking a fresh node between two neighbours, and
  closing the gap around a node.
\<close>

lemma links_insert:
  assumes l: "links h (us @ p # q # vs)" and "p \<notin> set us" and "q \<notin> set vs"
    and "q \<notin> set (tl (us @ [p]))" and "p \<notin> set (butlast (q # vs))"
    and n: "n \<notin> set (us @ p # q # vs)"
  shows "links (list_add_between n p q h) (us @ p # n # q # vs)"
proof -
  let ?h = "list_add_between n p q h"
  from l have "links h (us @ [p])" and "links h (q # vs)"
    using links_append [of h us p "q # vs"] by auto
  moreover have "links ?h (us @ [p]) = links h (us @ [p])"
    by (rule links_cong) (use assms in \<open>auto simp: list_add_between_def dest: in_set_tlD\<close>)
  moreover have "links ?h (q # vs) = links h (q # vs)"
    by (rule links_cong) (use assms in \<open>auto simp: list_add_between_def split: if_splits dest: in_set_butlastD\<close>)
  ultimately show ?thesis
    using n links_append [of ?h us p "n # q # vs"] by (auto simp: list_add_between_def)
qed

lemma links_delete:
  assumes l: "links h (us @ p # e # q # vs)" and "p \<notin> set us" and "q \<notin> set vs"
    and "q \<notin> set (tl (us @ [p]))" and "p \<notin> set (butlast (q # vs))"
  shows "links (list_del_between p q h) (us @ p # q # vs)"
proof -
  let ?h = "list_del_between p q h"
  from l have "links h (us @ [p])" and "links h (q # vs)"
    using links_append [of h us p "e # q # vs"] by auto
  moreover have "links ?h (us @ [p]) = links h (us @ [p])"
    by (rule links_cong) (use assms in \<open>auto simp: list_del_between_def\<close>)
  moreover have "links ?h (q # vs) = links h (q # vs)"
    by (rule links_cong) (use assms in \<open>auto simp: list_del_between_def split: if_splits dest: in_set_butlastD\<close>)
  ultimately show ?thesis
    using links_append [of ?h us p "q # vs"] by (auto simp: list_del_between_def)
qed

lemma dlist_INIT: "dlist (INIT_LIST_HEAD list h) list []"
  by (simp add: dlist_def INIT_LIST_HEAD_def)

lemma dlist_list_empty: "dlist h head xs \<Longrightarrow> list_empty head h \<longleftrightarrow> xs = []"
  by (cases xs) (auto simp: list_empty_def dlist_def)

lemma dlist_list_empty_careful: "dlist h head xs \<Longrightarrow> list_empty_careful head h \<longleftrightarrow> xs = []"
  using dlist_prevD [of h head xs] by (cases xs) (auto simp: list_empty_careful_def dlist_def)

lemma dlist_list_is_singular:
  assumes d: "dlist h head xs"
  shows "list_is_singular head h \<longleftrightarrow> length xs = 1"
proof (cases xs)
  case Nil
  with dlist_list_empty [OF d] show ?thesis by (simp add: list_is_singular_def)
next
  case (Cons x ys)
  have "x = last (x # ys) \<longleftrightarrow> ys = []"
    using dlist_distinct [OF d] Cons by (auto split: if_splits)
  with Cons dlist_prevD [OF d] dlist_nextD [OF d] dlist_list_empty [OF d] show ?thesis
    by (simp add: list_is_singular_def)
qed

lemma dlist_list_is_last:
  assumes "dlist h head (as @ e # bs)"
  shows "list_is_last e head h \<longleftrightarrow> bs = []"
  using dlist_split(2) [OF assms] assms by (cases bs) (auto simp: list_is_last_def dlist_def)

lemma dlist_add:
  assumes d: "dlist h head xs" and n: "n \<notin> set (head # xs)"
  shows "dlist (list_add n head h) head (n # xs)"
proof -
  obtain q vs where q: "xs @ [head] = q # vs" by (cases "xs @ [head]") auto
  with d have eq: "nxt (h head) = q" by (cases xs) (auto simp: dlist_def)
  have "links (list_add_between n head q h) ([] @ head # n # q # vs)"
    by (rule links_insert) (use d n q in \<open>auto simp: dlist_def Cons_eq_append_conv append_eq_Cons_conv\<close>)
  with d n q eq show ?thesis by (simp add: dlist_def list_add_def)
qed

lemma dlist_add_tail:
  assumes d: "dlist h head xs" and n: "n \<notin> set (head # xs)"
  shows "dlist (list_add_tail n head h) head (xs @ [n])"
proof (cases xs rule: rev_cases)
  case Nil
  have "links (list_add_between n head head h) ([] @ head # n # head # [])"
    by (rule links_insert) (use d n Nil in \<open>auto simp: dlist_def\<close>)
  with d n Nil dlist_prevD [OF d] show ?thesis by (simp add: dlist_def list_add_tail_def)
next
  case (snoc ys p)
  have "links (list_add_between n p head h) ((head # ys) @ p # n # head # [])"
    by (rule links_insert) (use d n snoc in \<open>auto simp: dlist_def\<close>)
  with d n snoc dlist_prevD [OF d] show ?thesis by (simp add: dlist_def list_add_tail_def)
qed

lemma dlist_del_entry:
  assumes d: "dlist h head (as @ e # bs)"
  shows "dlist (list_del_entry e h) head (as @ bs)"
proof -
  define us p where "us = butlast (head # as)" and "p = last (head # as)"
  define q vs where "q = hd (bs @ [head])" and "vs = tl (bs @ [head])"
  have a: "head # as = us @ [p]" and b: "bs @ [head] = q # vs"
    by (simp_all add: us_def p_def q_def vs_def del: butlast.simps last.simps)
  have pe: "prv (h e) = p" and qe: "nxt (h e) = q"
    using dlist_split [OF d] by (auto simp: p_def q_def)
  have ring: "head # (as @ e # bs) @ [head] = us @ p # e # q # vs"
    using a b by (metis append.assoc append_Cons append_Nil)
  have dist: "distinct (us @ p # e # bs)"
    using d a by (metis append.assoc append_Cons append_Nil dlist_def)
  have q_tl: "q \<notin> set (tl (us @ [p]))"
    using d by (simp add: a [symmetric] q_def dlist_def) (cases bs; auto)
  have p_bl: "p \<notin> set (butlast (q # vs))"
    using dist by (simp add: b [symmetric])
  have q_vs: "q \<notin> set vs"
    using d b by (cases bs) (auto simp: dlist_def)
  have "links (list_del_between p q h) (us @ p # q # vs)"
    by (rule links_delete [where e = e]) (use d ring dist q_tl p_bl q_vs in \<open>auto simp: dlist_def\<close>)
  moreover have "us @ p # q # vs = head # (as @ bs) @ [head]"
    using a b by (metis append.assoc append_Cons append_Nil)
  ultimately show ?thesis
    using d pe qe by (auto simp: dlist_def list_del_entry_def)
qed

text \<open>Initialising a node that is in no ring changes no ring.\<close>

lemma dlist_set_outside:
  "dlist h head xs \<Longrightarrow> e \<notin> set (head # xs) \<Longrightarrow> dlist (h(e := v)) head xs"
  by (erule dlist_frame) auto

lemma dlist_INIT_outside:
  "dlist h head xs \<Longrightarrow> e \<notin> set (head # xs) \<Longrightarrow> dlist (INIT_LIST_HEAD e h) head xs"
  by (erule dlist_frame) (auto simp: INIT_LIST_HEAD_def set_next_def set_prev_def)

lemma dlist_del_init:
  assumes d: "dlist h head (as @ e # bs)"
  shows "dlist (list_del_init e h) head (as @ bs)" and "dlist (list_del_init e h) e []"
proof -
  from d have "e \<notin> set (head # as @ bs)" by (auto simp: dlist_def)
  with dlist_del_entry [OF d] show "dlist (list_del_init e h) head (as @ bs)"
    unfolding list_del_init_def by (rule dlist_INIT_outside)
  show "dlist (list_del_init e h) e []"
    by (simp add: list_del_init_def dlist_INIT)
qed

text \<open>Deleting a node that is in no list only reinitialises it.\<close>

lemma dlist_del_init_alone:
  assumes "dlist h e []"
  shows "list_del_init e h = INIT_LIST_HEAD e h" and "dlist (list_del_init e h) e []"
proof -
  from assms have "nxt (h e) = e" "prv (h e) = e"
    by (auto simp: dlist_def)
  then show "list_del_init e h = INIT_LIST_HEAD e h"
    by (simp add: list_del_init_def list_del_entry_def list_del_between_def INIT_LIST_HEAD_def
        set_next_def set_prev_def)
  then show "dlist (list_del_init e h) e []" by (simp add: dlist_INIT)
qed

lemma dlist_del:
  assumes d: "dlist h head (as @ e # bs)"
  shows "dlist (list_del e h) head (as @ bs)"
proof -
  from d have "e \<notin> set (head # as @ bs)" by (auto simp: dlist_def)
  with dlist_del_entry [OF d] show ?thesis
    unfolding list_del_def list_del_entry_def set_next_def set_prev_def
    by (intro dlist_set_outside) auto
qed

lemma dlist_move:
  assumes d: "dlist h head (as @ e # bs)"
  shows "dlist (list_move e head h) head (e # as @ bs)"
    and "dlist (list_move_tail e head h) head (as @ bs @ [e])"
proof -
  from d have n: "e \<notin> set (head # as @ bs)" by (auto simp: dlist_def)
  show "dlist (list_move e head h) head (e # as @ bs)"
    unfolding list_move_def by (rule dlist_add [OF dlist_del_entry [OF d] n])
  show "dlist (list_move_tail e head h) head (as @ bs @ [e])"
    using dlist_add_tail [OF dlist_del_entry [OF d] n] by (simp add: list_move_tail_def)
qed

lemma dlist_rotate_left:
  assumes d: "dlist h head xs"
  shows "dlist (list_rotate_left head h) head (rotate1 xs)"
proof (cases xs)
  case Nil
  with d dlist_list_empty [OF d] show ?thesis by (simp add: list_rotate_left_def)
next
  case (Cons x ys)
  with d have "dlist h head ([] @ x # ys)" by simp
  from dlist_move(2) [OF this] Cons d dlist_list_empty [OF d] dlist_nextD [OF d] show ?thesis
    by (simp add: list_rotate_left_def)
qed

lemma list_walk_links:
  "links h (pos # ys @ [head]) \<Longrightarrow> head \<notin> set (pos # ys) \<Longrightarrow> length ys < n \<Longrightarrow>
   list_walk n h head pos = Some (pos # ys)"
proof (induction ys arbitrary: n pos)
  case Nil
  then show ?case by (cases n) (auto split: nat.splits, metis list_walk.simps not0_implies_Suc)
next
  case (Cons y ys)
  from Cons.prems(3) obtain m where n: "n = Suc m" "length ys < m" by (cases n) auto
  from Cons n show ?case by auto
qed

lemma dlist_for_each:
  assumes d: "dlist h head xs" and "length xs \<le> n"
  shows "list_for_each n h head = Some xs"
proof (cases xs)
  case Nil
  with d show ?thesis by (cases n) (auto simp: list_for_each_def dlist_def)
next
  case (Cons x ys)
  with d have "links h (x # ys @ [head])" "head \<notin> set (x # ys)"
    by (auto simp: dlist_def)
  with assms Cons dlist_nextD [OF d] show ?thesis
    by (auto simp: list_for_each_def intro: list_walk_links)
qed

text \<open>Splicing the entries of one ring between two neighbours of another.\<close>

lemma links_append_iff:
  "links h (xs @ ys) \<longleftrightarrow> links h xs \<and> links h ys \<and>
     (xs \<noteq> [] \<and> ys \<noteq> [] \<longrightarrow> nxt (h (last xs)) = hd ys \<and> prv (h (hd ys)) = last xs)"
proof (induction h xs rule: links.induct)
  case (2 h x)
  then show ?case by (cases ys) auto
qed auto

lemma links_splice_between:
  assumes y: "dlist h list ys" and "ys \<noteq> []"
    and ring: "links h (us @ p # q # vs)" and "p \<notin> set us" and "q \<notin> set vs"
    and "q \<notin> set (tl (us @ [p]))" and "p \<notin> set (butlast (q # vs))"
    and disj: "set (list # ys) \<inter> set (us @ p # q # vs) = {}"
  shows "links (list_splice_between list p q h) (us @ p # ys @ q # vs)"
proof -
  let ?h = "list_splice_between list p q h"
  have fst: "nxt (h list) = hd ys" and lst: "prv (h list) = last ys"
    using dlist_nextD [OF y] dlist_prevD [OF y] \<open>ys \<noteq> []\<close> by (auto split: list.splits)
  have mem: "hd ys \<in> set ys" "last ys \<in> set ys" using \<open>ys \<noteq> []\<close> by auto
  with disj have out: "hd ys \<notin> set (us @ p # q # vs)" "last ys \<notin> set (us @ p # q # vs)"
    by (meson disjoint_iff list.set_intros(2))+
  have "links h (us @ [p])" and "links h (q # vs)"
    using ring links_append [of h us p "q # vs"] by auto
  moreover have "links ?h (us @ [p]) = links h (us @ [p])"
  proof (rule links_cong)
    fix x assume "x \<in> set (butlast (us @ [p]))"
    then have "x \<in> set us" by simp
    with out \<open>p \<notin> set us\<close> show "nxt (?h x) = nxt (h x)"
      by (auto simp: list_splice_between_def Let_def fst lst)
  next
    fix x assume x: "x \<in> set (tl (us @ [p]))"
    then have "x \<in> set (us @ [p])" by (rule in_set_tlD)
    with x out \<open>q \<notin> set (tl (us @ [p]))\<close> show "prv (?h x) = prv (h x)"
      by (auto simp: list_splice_between_def Let_def fst lst)
  qed
  moreover have "links ?h (q # vs) = links h (q # vs)"
  proof (rule links_cong)
    fix x assume x: "x \<in> set (butlast (q # vs))"
    then have "x \<in> set (q # vs)" by (rule in_set_butlastD)
    with x out \<open>p \<notin> set (butlast (q # vs))\<close> show "nxt (?h x) = nxt (h x)"
      by (auto simp: list_splice_between_def Let_def fst lst simp del: butlast.simps)
  next
    fix x assume "x \<in> set (tl (q # vs))"
    with out \<open>q \<notin> set vs\<close> show "prv (?h x) = prv (h x)"
      by (auto simp: list_splice_between_def Let_def fst lst)
  qed
  moreover have "links h ys"
    using y links_append_iff [of h "list # ys" "[list]"] links_append_iff [of h "[list]" ys]
    by (simp add: dlist_def)
  moreover have "links ?h ys = links h ys"
  proof (rule links_cong)
    fix x assume x: "x \<in> set (butlast ys)"
    then have "x \<in> set ys" "x \<noteq> last ys"
      using dlist_distinct [OF y] \<open>ys \<noteq> []\<close>
      by (auto dest: in_set_butlastD) (metis append_butlast_last_id distinct_append disjoint_iff list.set_intros(1))
    with disj show "nxt (?h x) = nxt (h x)"
      by (auto simp: list_splice_between_def Let_def fst lst)
  next
    fix x assume x: "x \<in> set (tl ys)"
    then have "x \<in> set ys" "x \<noteq> hd ys"
      using dlist_distinct [OF y] \<open>ys \<noteq> []\<close> by (cases ys; auto)+
    with disj show "prv (?h x) = prv (h x)"
      by (auto simp: list_splice_between_def Let_def fst lst)
  qed
  moreover have "nxt (?h p) = hd ys" "prv (?h (hd ys)) = p" "nxt (?h (last ys)) = q" "prv (?h q) = last ys"
    using disj mem by (auto simp: list_splice_between_def Let_def fst lst)
  ultimately show ?thesis
    using \<open>ys \<noteq> []\<close> links_append [of ?h us p "ys @ q # vs"] links_append_iff [of ?h "[p]" "ys @ q # vs"]
      links_append_iff [of ?h ys "q # vs"]
    by (auto simp: links_append_iff)
qed

lemma dlist_splice_between:
  assumes x: "dlist h head xs" and y: "dlist h list ys" and "ys \<noteq> []"
    and disj: "set (list # ys) \<inter> set (head # xs) = {}"
  shows "dlist (list_splice_between list head (nxt (h head)) h) head (ys @ xs)"
proof -
  obtain q vs where q: "xs @ [head] = q # vs" by (cases "xs @ [head]") auto
  with x have eq: "nxt (h head) = q" by (cases xs) (auto simp: dlist_def)
  have "set (q # vs) = insert head (set xs)" using q by (metis Un_insert_right list.simps(15) list.set(1) set_append sup_bot.right_neutral)
  moreover have "head \<notin> set (butlast (q # vs))" using x by (simp add: q [symmetric] dlist_def)
  moreover have "q \<notin> set vs" using x q by (cases xs) (auto simp: dlist_def)
  ultimately have "links (list_splice_between list head q h) ([] @ head # ys @ q # vs)"
    by (intro links_splice_between [OF y \<open>ys \<noteq> []\<close>]) (use x disj q in \<open>auto simp: dlist_def\<close>)
  with x y disj q eq show ?thesis by (auto simp: dlist_def)
qed

lemma dlist_splice:
  assumes x: "dlist h head xs" and y: "dlist h list ys"
    and disj: "set (list # ys) \<inter> set (head # xs) = {}"
  shows "dlist (list_splice list head h) head (ys @ xs)"
  using dlist_splice_between [OF x y _ disj] x dlist_list_empty [OF y]
  by (auto simp: list_splice_def)

lemma dlist_splice_init:
  assumes x: "dlist h head xs" and y: "dlist h list ys"
    and disj: "set (list # ys) \<inter> set (head # xs) = {}"
  shows "dlist (list_splice_init list head h) head (ys @ xs)"
    and "dlist (list_splice_init list head h) list []"
proof -
  have out: "list \<notin> set (head # ys @ xs)"
    using disj dlist_distinct [OF y] by auto
  show "dlist (list_splice_init list head h) head (ys @ xs)"
    using dlist_INIT_outside [OF dlist_splice_between [OF x y _ disj] out] x dlist_list_empty [OF y]
    by (auto simp: list_splice_init_def)
  show "dlist (list_splice_init list head h) list []"
    using y dlist_list_empty [OF y] by (auto simp: list_splice_init_def dlist_INIT)
qed

section \<open>The interface of the list\<close>

text \<open>
  What the object system relies on when it keeps a set of objects on such a list: entries
  are put in front, taken from the front, and removed wherever they are.
\<close>

locale intrusive_queue =
  fixes abs :: "'m \<Rightarrow> addr \<Rightarrow> addr list \<Rightarrow> bool"
    and init :: "addr \<Rightarrow> 'm \<Rightarrow> 'm"
    and push :: "addr \<Rightarrow> addr \<Rightarrow> 'm \<Rightarrow> 'm"
    and remove :: "addr \<Rightarrow> 'm \<Rightarrow> 'm"
    and empty :: "addr \<Rightarrow> 'm \<Rightarrow> bool"
    and first :: "addr \<Rightarrow> 'm \<Rightarrow> addr"
  assumes abs_init: "abs (init q m) q []"
    and abs_push: "abs m q xs \<Longrightarrow> n \<notin> set (q # xs) \<Longrightarrow> abs (push n q m) q (n # xs)"
    and abs_remove: "abs m q (xs @ e # ys) \<Longrightarrow> abs (remove e m) q (xs @ ys)"
    and abs_empty: "abs m q xs \<Longrightarrow> empty q m \<longleftrightarrow> xs = []"
    and abs_first: "abs m q (x # xs) \<Longrightarrow> first q m = x"
    and abs_distinct: "abs m q xs \<Longrightarrow> distinct (q # xs)"
begin

lemma pop_first:
  assumes "abs m q xs" and "\<not> empty q m"
  shows "first q m = hd xs \<and> abs (remove (first q m) m) q (tl xs)"
proof -
  from assms abs_empty obtain x ys where xs: "xs = x # ys" by (cases xs) auto
  with assms(1) have "first q m = x" using abs_first by simp
  moreover have "abs (remove x m) q ys" using abs_remove [of m q "[]" x ys] assms(1) xs by simp
  ultimately show ?thesis using xs by simp
qed

lemma remove_member:
  assumes "abs m q xs" and "e \<in> set xs"
  shows "abs (remove e m) q (filter (\<lambda>x. x \<noteq> e) xs)"
proof -
  from assms(2) obtain as bs where xs: "xs = as @ e # bs" by (auto dest: split_list)
  moreover have "e \<notin> set as" "e \<notin> set bs" using abs_distinct [OF assms(1)] xs by auto
  then have "filter (\<lambda>x. x \<noteq> e) xs = as @ bs" using xs by (simp add: filter_True) (metis (mono_tags, lifting) filter_True)
  ultimately show ?thesis using abs_remove assms(1) by simp
qed

lemma push_all:
  assumes "abs m q xs" and "distinct ns" and "set ns \<inter> set (q # xs) = {}"
  shows "abs (fold (\<lambda>n. push n q) ns m) q (rev ns @ xs)"
  using assms
proof (induction ns arbitrary: m xs)
  case Nil
  then show ?case by simp
next
  case (Cons n ns)
  from Cons.prems have "abs (push n q m) q (n # xs)" by (intro abs_push) auto
  with Cons.prems Cons.IH [of "push n q m" "n # xs"] show ?case by auto
qed

end

definition list_first :: "addr \<Rightarrow> lmem \<Rightarrow> addr" where
  "list_first head h = nxt (h head)"

interpretation klist: intrusive_queue dlist INIT_LIST_HEAD list_add list_del_init list_empty list_first
proof unfold_locales
  fix m :: lmem and q n e :: addr and x xs ys
  show "dlist (INIT_LIST_HEAD q m) q []" by (rule dlist_INIT)
  show "dlist m q xs \<Longrightarrow> n \<notin> set (q # xs) \<Longrightarrow> dlist (list_add n q m) q (n # xs)" by (rule dlist_add)
  show "dlist m q (xs @ e # ys) \<Longrightarrow> dlist (list_del_init e m) q (xs @ ys)" by (rule dlist_del_init)
  show "dlist m q xs \<Longrightarrow> list_empty q m \<longleftrightarrow> xs = []" by (rule dlist_list_empty)
  show "dlist m q (x # xs) \<Longrightarrow> list_first q m = x" by (simp add: list_first_def dlist_nextD)
  show "dlist m q xs \<Longrightarrow> distinct (q # xs)" by (simp add: dlist_def)
qed

end
