(* ===== verification/Deai_Proctree.thy ===== *)
theory Deai_Proctree
  imports Deai_Klist Deai_World
begin

text \<open>
  \<^verbatim>\<open>kill_all_descendants\<close> of \<^verbatim>\<open>main.c\<close> (the Linux version): the processes found in \<^verbatim>\<open>/proc\<close> are linked
  into rings with the intrusive lists of \<^verbatim>\<open>list.h\<close> so that every subtree is contiguous, and the entries that
  follow the own process are signalled as long as their parent has been visited.
\<close>

section \<open>Reading the process table\<close>

text \<open>
  An entry of \<^verbatim>\<open>/proc\<close>: its name, whether it is a directory, and the text of its \<^verbatim>\<open>stat\<close> file, \<open>None\<close> when
  the file cannot be opened.
\<close>

record proc_entry =
  d_name :: c_string
  d_dir :: bool
  stat_text :: "char list option"

definition isdigit :: "char \<Rightarrow> bool" where
  "isdigit c \<longleftrightarrow> 48 \<le> (of_char c :: nat) \<and> (of_char c :: nat) \<le> 57"

definition isspace :: "char \<Rightarrow> bool" where
  "isspace c \<longleftrightarrow> (of_char c :: nat) = 32 \<or> 9 \<le> (of_char c :: nat) \<and> (of_char c :: nat) \<le> 13"

fun digits_val :: "nat \<Rightarrow> char list \<Rightarrow> nat" where
  "digits_val acc [] = acc"
| "digits_val acc (c # cs) = (if isdigit c then digits_val (10 * acc + (of_char c - 48)) cs else acc)"

definition c_atoi :: "c_string \<Rightarrow> int" where
  "c_atoi s =
     (case dropWhile isspace s of
        [] \<Rightarrow> 0
      | c # cs \<Rightarrow>
          if c = CHR ''-'' then - int (digits_val 0 cs)
          else if c = CHR ''+'' then int (digits_val 0 cs)
          else int (digits_val 0 (c # cs)))"

text \<open>The last occurrence of a character, as \<^verbatim>\<open>strrchr\<close> returns it: the rest of the string from there.\<close>

fun strrchr :: "char list \<Rightarrow> char \<Rightarrow> char list option" where
  "strrchr [] c = None"
| "strrchr (b # bs) c =
     (case strrchr bs c of Some r \<Rightarrow> Some r | None \<Rightarrow> if b = c then Some (b # bs) else None)"

text \<open>
  The parent process id: the number four characters after the last closing parenthesis, up to the
  next blank.  A text without them is a fault.
\<close>

definition parse_ppid :: "c_string \<Rightarrow> fault + int" where
  "parse_ppid text =
     (case strrchr text (CHR '')'') of
        None \<Rightarrow> Inl Null_deref
      | Some sep1 \<Rightarrow>
          if length sep1 < 4 then Inl Out_of_bounds
          else case memchr (drop 4 sep1) (CHR '' '') of
              None \<Rightarrow> Inl Null_deref
            | Some ppid_end \<Rightarrow> Inr (c_atoi (take ppid_end (drop 4 sep1))))"

text \<open>The table \<^verbatim>\<open>ps\<close> in insertion order: process id and parent process id.\<close>

fun read_procs :: "proc_entry list \<Rightarrow> fault + (int \<times> int) list" where
  "read_procs [] = Inr []"
| "read_procs (d # ds) =
     (if \<not> d_dir d \<or> \<not> list_all isdigit (d_name d) then read_procs ds
      else case stat_text d of
          None \<Rightarrow> read_procs ds
        | Some [] \<Rightarrow> read_procs ds
        | Some text \<Rightarrow>
            (case parse_ppid (c_str text) of
               Inl f \<Rightarrow> Inl f
             | Inr ppid \<Rightarrow>
                 (case read_procs ds of Inl f \<Rightarrow> Inl f | Inr ps \<Rightarrow> Inr ((c_atoi (d_name d), ppid) # ps))))"

section \<open>Linking the tree\<close>

text \<open>
  The node of a process is at the address given by its id; no process has the id zero, which is the
  address of the sentinel.
\<close>

definition sentinel :: addr where "sentinel = 0"

definition node :: "int \<Rightarrow> addr" where "node pid = nat pid"

definition parent_node :: "(int \<times> int) list \<Rightarrow> int \<Rightarrow> addr" where
  "parent_node ps ppid = (if hash_find ppid ps = None then sentinel else node ppid)"

fun init_nodes :: "(int \<times> int) list \<Rightarrow> lmem \<Rightarrow> lmem" where
  "init_nodes [] h = h"
| "init_nodes ((pid, _) # ps) h = init_nodes ps (INIT_LIST_HEAD (node pid) h)"

text \<open>The loop over the table; \<open>all\<close> is the whole table, in which parents are looked up.\<close>

fun link_tree :: "(int \<times> int) list \<Rightarrow> (int \<times> int) list \<Rightarrow> lmem \<Rightarrow> lmem" where
  "link_tree all [] h = h"
| "link_tree all ((pid, ppid) # ps) h =
     (let pp = parent_node all ppid
      in link_tree all ps (list_splice_between (node pid) pp (nxt (h pp)) h))"

definition parents :: "(int \<times> int) list \<Rightarrow> addr \<Rightarrow> addr option" where
  "parents ps a = (if a = sentinel then None
     else map_option (parent_node ps) (hash_find (int a) ps))"

section \<open>Signalling\<close>

text \<open>
  The walk along the ring.  The field \<^verbatim>\<open>pp\<close> of the sentinel is never set, so reaching the sentinel
  dereferences a garbage pointer.
\<close>

fun kill_loop :: "nat \<Rightarrow> lmem \<Rightarrow> (addr \<Rightarrow> addr option) \<Rightarrow> addr list \<Rightarrow> addr \<Rightarrow> fault + addr list" where
  "kill_loop 0 h pp visited cur = Inl Out_of_fuel"
| "kill_loop (Suc n) h pp visited cur =
     (let c = nxt (h cur) in
      case pp c of
        None \<Rightarrow> Inl Null_deref
      | Some p \<Rightarrow>
          if p \<notin> set visited then Inr []
          else case kill_loop n h pp (c # visited) c of Inl f \<Rightarrow> Inl f | Inr ks \<Rightarrow> Inr (c # ks))"

definition descendants_to_kill :: "int \<Rightarrow> (int \<times> int) list \<Rightarrow> fault + addr list" where
  "descendants_to_kill self ps =
     (if hash_find self ps = None then Inl Null_deref
      else
        let h = link_tree ps ps (INIT_LIST_HEAD sentinel (init_nodes ps (\<lambda>_. \<lparr>nxt = 0, prv = 0\<rparr>)))
        in kill_loop (length ps + 1) h (parents ps) [node self] (node self))"

definition SIGTERM :: int where "SIGTERM = 15"

definition kill_all_descendants :: "int \<Rightarrow> proc_entry list option \<Rightarrow> unit M" where
  "kill_all_descendants self dir =
     (case dir of
        None \<Rightarrow> mret ()
      | Some entries \<Rightarrow>
          (case read_procs entries of
             Inl f \<Rightarrow> mcrash f
           | Inr ps \<Rightarrow>
               (case descendants_to_kill self ps of
                  Inl f \<Rightarrow> mcrash f
                | Inr ks \<Rightarrow> mforeach (\<lambda>k. emit_effect (Sys_kill (int k) SIGTERM)) ks)))"

section \<open>The ring as a list\<close>

text \<open>Insertion after an element that is in the list.\<close>

fun ins_after :: "'a \<Rightarrow> 'a \<Rightarrow> 'a list \<Rightarrow> 'a list" where
  "ins_after p x [] = []"
| "ins_after p x (y # ys) = (if y = p then y # x # ys else y # ins_after p x ys)"

lemma ins_after_split: "p \<notin> set us \<Longrightarrow> ins_after p x (us @ p # vs) = us @ p # x # vs"
  by (induction us) auto

lemma ins_after_append1: "p \<in> set xs \<Longrightarrow> ins_after p x (xs @ ys) = ins_after p x xs @ ys"
  by (induction xs) auto

lemma ins_after_append2: "p \<notin> set xs \<Longrightarrow> ins_after p x (xs @ ys) = xs @ ins_after p x ys"
  by (induction xs) auto

lemma ins_after_notin: "p \<notin> set xs \<Longrightarrow> ins_after p x xs = xs"
  by (induction xs) auto

lemma set_ins_after: "p \<in> set xs \<Longrightarrow> set (ins_after p x xs) = insert x (set xs)"
  by (induction xs) auto

lemma distinct_ins_after: "distinct xs \<Longrightarrow> x \<notin> set xs \<Longrightarrow> distinct (ins_after p x xs)"
proof (induction xs)
  case Nil
  then show ?case by simp
next
  case (Cons y ys)
  then show ?case by (cases "p \<in> set ys") (auto simp: set_ins_after ins_after_notin)
qed

text \<open>Splicing the ring of a node that has no children yet inserts the node itself.\<close>

lemma splice_single:
  assumes "nxt (h i) = i" and "prv (h i) = i" and "i \<noteq> p" and "i \<noteq> nxt (h p)"
  shows "list_splice_between i p (nxt (h p)) h = list_add_between i p (nxt (h p)) h"
  using assms by (auto simp: list_splice_between_def list_add_between_def set_next_def set_prev_def Let_def fun_eq_iff)

lemma dlist_ins_after:
  assumes d: "dlist h s xs" and p: "p \<in> set (s # xs)" and i: "i \<notin> set (s # xs)"
    and single: "nxt (h i) = i" "prv (h i) = i"
  shows "dlist (list_splice_between i p (nxt (h p)) h) s (tl (ins_after p i (s # xs)))"
proof -
  from p obtain us vs where uv: "s # xs = us @ p # vs" and pu: "p \<notin> set us" by (metis split_list_first)
  obtain q ws where q: "vs @ [s] = q # ws" by (cases "vs @ [s]") auto
  have ring: "s # xs @ [s] = us @ p # q # ws" using uv q by (metis append_Cons append_assoc)
  then have l: "links h (us @ p # q # ws)" using d by (simp add: dlist_def)
  have dis: "distinct (us @ p # vs)" using d unfolding dlist_def uv by simp
  have nq: "nxt (h p) = q" using l links_append [of h us p "q # ws"] by simp
  have us: "us = [] \<and> p = s \<or> (\<exists>us'. us = s # us')" using uv by (cases us) auto
  have qs: "vs = [] \<and> q = s \<and> ws = [] \<or> (\<exists>vs'. vs = q # vs' \<and> ws = vs' @ [s])" using q by (cases vs) auto
  have "links (list_add_between i p q h) (us @ p # i # q # ws)"
    by (rule links_insert [OF l pu]) (use dis us qs i uv in \<open>auto simp: butlast_append\<close>)
  moreover have "list_splice_between i p q h = list_add_between i p q h"
  proof -
    have "i \<notin> set vs" using i unfolding uv by simp
    moreover have "i \<noteq> s" using i by simp
    ultimately have "i \<noteq> q" using qs by auto
    moreover have "i \<noteq> p" using p i by auto
    ultimately show ?thesis using splice_single [of h i p] single nq by simp
  qed
  moreover have ia: "ins_after p i (s # xs) = us @ p # i # vs" unfolding uv using pu by (rule ins_after_split)
  moreover have "us @ p # i # vs = s # tl (us @ p # i # vs)" using us by auto
  moreover have "s # tl (us @ p # i # vs) @ [s] = us @ p # i # q # ws" using us q uv by auto
  moreover have "distinct (us @ p # i # vs)" using dis i unfolding uv by auto
  ultimately show ?thesis using nq unfolding dlist_def ia by metis
qed

lemma dlist_next_in:
  assumes d: "dlist h s xs" and p: "p \<in> set (s # xs)"
  shows "nxt (h p) \<in> set (s # xs)"
proof (cases "p = s")
  case True
  then show ?thesis using dlist_nextD [OF d] by (cases xs) auto
next
  case False
  with p obtain as bs where "xs = as @ p # bs" by (auto dest: split_list)
  with dlist_split(2) [of h s as p bs] d show ?thesis by (cases bs) auto
qed

section \<open>Subtrees are contiguous\<close>

text \<open>Parent and child, with the sentinel as the parent of the processes whose parent is not in the table.\<close>

definition child_of :: "(int \<times> int) list \<Rightarrow> (int \<times> int) list \<Rightarrow> (addr \<times> addr) set" where
  "child_of all ps = (\<lambda>(pid, ppid). (parent_node all ppid, node pid)) ` set ps"

abbreviation desc :: "(addr \<times> addr) set \<Rightarrow> addr \<Rightarrow> addr set" where
  "desc R a \<equiv> {c. (a, c) \<in> R\<^sup>+}"

text \<open>The table order: ids are positive and distinct, and a parent that is in the table precedes its children.\<close>

fun parents_first :: "(int \<times> int) list \<Rightarrow> int list \<Rightarrow> (int \<times> int) list \<Rightarrow> bool" where
  "parents_first all seen [] \<longleftrightarrow> True"
| "parents_first all seen ((pid, ppid) # ps) \<longleftrightarrow>
     0 < pid \<and> pid \<notin> set seen \<and> (hash_find ppid all = None \<or> ppid \<in> set seen) \<and>
     parents_first all (pid # seen) ps"

definition contiguous :: "(addr \<times> addr) set \<Rightarrow> addr list \<Rightarrow> bool" where
  "contiguous R zs \<longleftrightarrow> distinct zs \<and> Field R \<subseteq> set zs \<and>
     (\<forall>a \<in> set zs. \<exists>us D vs. zs = us @ a # D @ vs \<and> set D = desc R a)"

lemma desc_leaf:
  assumes "i \<notin> Field R" and "a \<noteq> i"
  shows "desc (insert (p, i) R) a = desc R a \<union> (if a = p \<or> p \<in> desc R a then {i} else {})"
proof -
  have "(i, b) \<in> R\<^sup>* \<longleftrightarrow> b = i" for b
    using assms(1) by (auto simp: Field_def elim: converse_rtranclE)
  then show ?thesis using assms(2) by (auto simp: trancl_insert rtrancl_eq_or_trancl)
qed

lemma desc_new: "i \<notin> Field R \<Longrightarrow> p \<noteq> i \<Longrightarrow> desc (insert (p, i) R) i = {}"
  by (auto simp: trancl_insert Field_def elim: converse_tranclE converse_rtranclE)

lemma contiguous_ins:
  assumes c: "contiguous R zs" and p: "p \<in> set zs" and i: "i \<notin> set zs"
  shows "contiguous (insert (p, i) R) (ins_after p i zs)"
  unfolding contiguous_def
proof (intro conjI ballI)
  have dis: "distinct zs" and F: "Field R \<subseteq> set zs" using c by (auto simp: contiguous_def)
  have iF: "i \<notin> Field R" and pi: "p \<noteq> i" using F i p by auto
  show "distinct (ins_after p i zs)" using dis i by (rule distinct_ins_after)
  show "Field (insert (p, i) R) \<subseteq> set (ins_after p i zs)" using F p by (auto simp: set_ins_after Field_def)
  fix a assume "a \<in> set (ins_after p i zs)"
  then consider "a = i" | "a \<noteq> i" "a \<in> set zs" using p by (auto simp: set_ins_after)
  then show "\<exists>us D vs. ins_after p i zs = us @ a # D @ vs \<and> set D = desc (insert (p, i) R) a"
  proof cases
    case 1
    from p obtain us vs where "zs = us @ p # vs" "p \<notin> set us" by (metis split_list_first)
    then have "ins_after p i zs = (us @ [p]) @ a # [] @ vs" using 1 by (simp add: ins_after_split)
    then show ?thesis using desc_new [OF iF pi] 1 by (metis empty_set)
  next
    case 2
    from c 2(2) obtain us D vs where z: "zs = us @ a # D @ vs" and D: "set D = desc R a"
      unfolding contiguous_def by blast
    note d' = desc_leaf [OF iF 2(1), of p]
    from p z consider "p \<in> set us" | "p = a" | "p \<in> set D" | "p \<in> set vs" by auto
    then show ?thesis
    proof cases
      case 1
      then have "p \<noteq> a" "p \<notin> set D" using dis z by auto
      then have "ins_after p i zs = ins_after p i us @ a # D @ vs" "set D = desc (insert (p, i) R) a"
        using 1 z d' D by (auto simp: ins_after_append1)
      then show ?thesis by blast
    next
      case 2
      then have "p \<notin> set us" using dis z by auto
      then have "ins_after p i zs = us @ a # (i # D) @ vs" "set (i # D) = desc (insert (p, i) R) a"
        using 2 z d' D by (auto simp: ins_after_split)
      then show ?thesis by blast
    next
      case 3
      then have "p \<notin> set us" "p \<noteq> a" using dis z by auto
      then have "ins_after p i zs = us @ a # ins_after p i D @ vs" "set (ins_after p i D) = desc (insert (p, i) R) a"
        using 3 z d' D by (auto simp: ins_after_append1 ins_after_append2 set_ins_after)
      then show ?thesis by blast
    next
      case 4
      then have "p \<notin> set us" "p \<noteq> a" "p \<notin> set D" using dis z by auto
      then have "ins_after p i zs = us @ a # D @ ins_after p i vs" "set D = desc (insert (p, i) R) a"
        using z d' D by (auto simp: ins_after_append2)
      then show ?thesis by blast
    qed
  qed
qed

text \<open>A parent stands before its children.\<close>

lemma contiguous_before:
  assumes c: "contiguous R zs" and z: "zs = A @ x # B" and px: "(p, x) \<in> R"
  shows "p \<in> set A"
proof -
  have "p \<in> set zs" using c px by (auto simp: contiguous_def Field_def)
  then obtain us D vs where p: "zs = us @ p # D @ vs" and D: "set D = desc R p"
    using c unfolding contiguous_def by blast
  have "x \<in> set D" using px D by auto
  then obtain X Y where "D = X @ x # Y" by (metis split_list)
  then have "A @ x # B = (us @ p # X) @ x # (Y @ vs)" using z p by simp
  moreover have "distinct (A @ x # B)" using c z by (simp add: contiguous_def)
  ultimately have "A = us @ p # X" by (metis append_Cons_eq_iff distinct.simps(2) distinct_append not_distinct_conv_prefix)
  then show ?thesis by simp
qed

section \<open>Linking\<close>

text \<open>
  The list the ring with the sentinel holds after the entries \<open>done\<close> have been linked.
\<close>

definition link_order :: "(int \<times> int) list \<Rightarrow> (int \<times> int) list \<Rightarrow> addr list" where
  "link_order all ps = foldl (\<lambda>zs (pid, ppid). ins_after (parent_node all ppid) (node pid) zs) [sentinel] ps"

definition linked :: "(int \<times> int) list \<Rightarrow> (int \<times> int) list \<Rightarrow> (int \<times> int) list \<Rightarrow> lmem \<Rightarrow> bool" where
  "linked all ps todo h \<longleftrightarrow>
     (\<exists>xs. link_order all ps = sentinel # xs \<and> dlist h sentinel xs \<and>
        set (sentinel # xs) = insert sentinel (node ` fst ` set ps) \<and>
        contiguous (child_of all ps) (sentinel # xs)) \<and>
     (\<forall>i \<in> fst ` set todo. nxt (h (node i)) = node i \<and> prv (h (node i)) = node i)"

lemma parents_first_fresh:
  "parents_first all seen ps \<Longrightarrow>
   distinct (map fst ps) \<and> set (map fst ps) \<inter> set seen = {} \<and> (\<forall>p \<in> set ps. 0 < fst p)"
  by (induction all seen ps rule: parents_first.induct) auto

lemma node_inj: "0 < i \<Longrightarrow> 0 < j \<Longrightarrow> node i = node j \<longleftrightarrow> i = j"
  by (auto simp: node_def)

lemma node_sentinel: "0 < i \<Longrightarrow> node i \<noteq> sentinel"
  by (simp add: node_def sentinel_def)

lemma linked_step:
  assumes l: "linked all ps ((i, q) # todo) h" and pf: "parents_first all seen ((i, q) # todo)"
    and seen: "set seen = fst ` set ps" and pos: "\<forall>p \<in> set ps. 0 < fst p"
  shows "linked all (ps @ [(i, q)]) todo
    (list_splice_between (node i) (parent_node all q) (nxt (h (parent_node all q))) h)" (is "linked _ _ _ ?h")
proof -
  let ?p = "parent_node all q"
  obtain xs where xs: "link_order all ps = sentinel # xs" "dlist h sentinel xs"
    "set (sentinel # xs) = insert sentinel (node ` fst ` set ps)" "contiguous (child_of all ps) (sentinel # xs)"
    using l unfolding linked_def by blast
  have p: "?p \<in> set (sentinel # xs)" using pf seen unfolding xs(3) by (auto simp: parent_node_def)
  have fresh: "node j \<notin> set (sentinel # xs)" if "j \<in> fst ` set ((i, q) # todo)" for j
  proof -
    have j: "0 < j" "j \<notin> fst ` set ps" using parents_first_fresh [OF pf] that seen by auto
    have "node j \<noteq> node k" if "k \<in> fst ` set ps" for k
      using j that pos node_inj [of j k] by force
    then show ?thesis using node_sentinel [OF j(1)] unfolding xs(3) by blast
  qed
  then have i: "node i \<notin> set (sentinel # xs)" by simp
  have single: "nxt (h (node i)) = node i" "prv (h (node i)) = node i" using l by (auto simp: linked_def)
  let ?zs = "ins_after ?p (node i) (sentinel # xs)"
  have zs: "?zs = sentinel # tl ?zs" by simp
  note np = dlist_next_in [OF xs(2) p]
  have "nxt (?h (node j)) = node j \<and> prv (?h (node j)) = node j" if j: "j \<in> fst ` set todo" for j
  proof -
    have "node j \<notin> set (sentinel # xs)" using fresh j by simp
    moreover have "node j \<noteq> node i" using parents_first_fresh [OF pf] j node_inj by force
    ultimately show ?thesis using l j p np single unfolding linked_def by (auto simp: list_splice_between_def Let_def)
  qed
  moreover have "dlist ?h sentinel (tl ?zs)" by (rule dlist_ins_after [OF xs(2) p i single])
  moreover have "link_order all (ps @ [(i, q)]) = ?zs" using xs(1) by (simp add: link_order_def)
  moreover have "set ?zs = insert sentinel (node ` fst ` set (ps @ [(i, q)]))" 
    unfolding set_ins_after [OF p] xs(3) by auto
  moreover have "contiguous (child_of all (ps @ [(i, q)])) ?zs"
    using contiguous_ins [OF xs(4) p i] by (simp add: child_of_def)
  ultimately show ?thesis unfolding linked_def using zs by metis
qed

lemma link_tree_linked:
  "linked all ps todo h \<Longrightarrow> parents_first all seen todo \<Longrightarrow> set seen = fst ` set ps \<Longrightarrow> \<forall>p \<in> set ps. 0 < fst p \<Longrightarrow>
   linked all (ps @ todo) [] (link_tree all todo h)"
proof (induction todo arbitrary: ps seen h)
  case Nil
  then show ?case by simp
next
  case (Cons e todo)
  obtain i q where e: "e = (i, q)" by (cases e)
  have "linked all (ps @ [(i, q)]) todo
      (list_splice_between (node i) (parent_node all q) (nxt (h (parent_node all q))) h)"
    using Cons.prems unfolding e by (rule linked_step)
  from Cons.IH [OF this, of "i # seen"] Cons.prems show ?case by (auto simp: e Let_def)
qed

lemma init_nodes_keep:
  "nxt (h a) = a \<and> prv (h a) = a \<Longrightarrow> nxt (init_nodes ps h a) = a \<and> prv (init_nodes ps h a) = a"
  by (induction ps h rule: init_nodes.induct) (auto simp: INIT_LIST_HEAD_def)

lemma init_nodes_single:
  "i \<in> fst ` set ps \<Longrightarrow> nxt (init_nodes ps h (node i)) = node i \<and> prv (init_nodes ps h (node i)) = node i"
proof (induction ps h rule: init_nodes.induct)
  case (2 pid q ps h)
  have "nxt (INIT_LIST_HEAD (node pid) h (node pid)) = node pid" "prv (INIT_LIST_HEAD (node pid) h (node pid)) = node pid"
    by (simp_all add: INIT_LIST_HEAD_def)
  with 2 show ?case using init_nodes_keep by (cases "i = pid") auto
qed simp

lemma linked_init:
  assumes "\<forall>p \<in> set ps. 0 < fst p"
  shows "linked all [] ps (INIT_LIST_HEAD sentinel (init_nodes ps h))"
proof -
  have "nxt (INIT_LIST_HEAD sentinel (init_nodes ps h) (node i)) = node i \<and>
      prv (INIT_LIST_HEAD sentinel (init_nodes ps h) (node i)) = node i" if "i \<in> fst ` set ps" for i
    using that init_nodes_single [of i ps h] by (auto simp: INIT_LIST_HEAD_def)
  moreover have "contiguous {} [sentinel]" by (auto simp: contiguous_def)
  ultimately show ?thesis
    unfolding linked_def by (auto simp: link_order_def child_of_def dlist_INIT)
qed

section \<open>The walk\<close>

lemma parents_child:
  assumes "distinct (map fst ps)" and "\<forall>p \<in> set ps. 0 < fst p"
  shows "(p, a) \<in> child_of ps ps \<longleftrightarrow> a \<noteq> sentinel \<and> parents ps a = Some p"
proof -
  have "hash_find i ps = Some q \<longleftrightarrow> (i, q) \<in> set ps" for i q
    using assms(1) by (simp add: hash_find_map_of)
  then show ?thesis
    using assms(2) node_sentinel by (force simp: parents_def child_of_def node_def)
qed

lemma parents_defined:
  assumes "i \<in> fst ` set ps" and "0 < i"
  shows "parents ps (node i) \<noteq> None"
  using assms node_sentinel [of i] by (auto simp: parents_def node_def hash_find_None)

text \<open>
  The walk from inside a subtree visits the rest of the subtree, and stops at the next entry or
  fails at the sentinel.
\<close>

lemma kill_loop_subtree:
  assumes c: "contiguous R (sentinel # xs)" and d: "dlist h sentinel xs"
    and R: "\<And>a p. (p, a) \<in> R \<longleftrightarrow> a \<noteq> sentinel \<and> pp a = Some p" and def: "\<And>a. a \<in> set xs \<Longrightarrow> pp a \<noteq> None" "pp sentinel = None"
    and D: "set (D1 @ D2) = desc R s"
  shows "xs = us @ s # D1 @ D2 @ vs \<Longrightarrow> length D2 < n \<Longrightarrow> set visited = set (s # D1) \<Longrightarrow>
    kill_loop n h pp visited (last (s # D1)) = (if vs = [] then Inl Null_deref else Inr D2)"
  using D
proof (induction D2 arbitrary: D1 n visited)
  case Nil
  then obtain m where n: "n = Suc m" by (cases n) auto
  obtain ys where ys: "us @ s # D1 = ys @ [last (s # D1)]" by (metis append_butlast_last_id append_is_Nil_conv last_appendR list.discI)
  have "xs = ys @ last (s # D1) # vs" using Nil.prems(1) ys by (metis append.assoc append_Cons append_Nil)
  from dlist_split(2) [OF d [unfolded this]]
  have nx: "nxt (h (last (s # D1))) = (if vs = [] then sentinel else hd vs)" .
  show ?case
  proof (cases vs)
    case Nil
    then show ?thesis using n nx def(2) by simp
  next
    case (Cons v vs')
    have v: "v \<in> set xs" "v \<noteq> sentinel" "v \<notin> set (s # D1)"
      using Nil.prems(1) Cons c by (auto simp: contiguous_def)
    obtain p where p: "pp v = Some p" using def(1) v(1) by blast
    have "p \<notin> set visited"
    proof
      assume "p \<in> set visited"
      then have "p = s \<or> (s, p) \<in> R\<^sup>+" using Nil.prems by auto
      then have "v \<in> desc R s" using R [of p v] v(2) p by auto
      then show False using Nil.prems(4) v(3) by auto
    qed
    then show ?thesis using n nx p Cons by simp
  qed
next
  case (Cons x D2)
  obtain m where n: "n = Suc m" using Cons.prems(2) by (cases n) auto
  obtain ys where ys: "us @ s # D1 = ys @ [last (s # D1)]" by (metis append_butlast_last_id append_is_Nil_conv last_appendR list.discI)
  have "xs = ys @ last (s # D1) # x # D2 @ vs" using Cons.prems(1) ys by (metis append.assoc append_Cons append_Nil)
  from dlist_split(2) [OF d [unfolded this]] have nx: "nxt (h (last (s # D1))) = x" by simp
  have x: "x \<in> set xs" "x \<noteq> sentinel" using Cons.prems(1) c by (auto simp: contiguous_def)
  obtain p where p: "pp x = Some p" using def(1) x(1) by blast
  then have px: "(p, x) \<in> R" using R x(2) by blast
  have pA: "p \<in> set (sentinel # us @ s # D1)"
    by (rule contiguous_before [OF c _ px, where B = "D2 @ vs"]) (simp add: Cons.prems(1))
  have "x \<in> desc R s" using Cons.prems(4) by auto
  then have "p = s \<or> p \<in> desc R s" using R px by (auto elim: tranclE)
  moreover have "set us \<inter> set (s # D1 @ x # D2) = {}" "p \<noteq> sentinel \<or> sentinel \<notin> set (s # D1 @ x # D2)"
    using Cons.prems(1) c by (auto simp: contiguous_def)
  ultimately have "p \<in> set visited" using pA Cons.prems(3,4) by auto
  moreover have "kill_loop m h pp (x # visited) (last (s # D1 @ [x])) = (if vs = [] then Inl Null_deref else Inr D2)"
    using Cons.prems n by (intro Cons.IH) auto
  ultimately show ?case using n nx p by simp
qed

text \<open>The whole computation, for a table in which parents come first.\<close>

lemma kill_subtree:
  assumes pf: "parents_first ps [] ps" and self: "self \<in> fst ` set ps"
  obtains us D vs where "link_order ps ps = us @ node self # D @ vs" and "set D = desc (child_of ps ps) (node self)"
    and "contiguous (child_of ps ps) (link_order ps ps)"
    and "descendants_to_kill self ps = (if vs = [] then Inl Null_deref else Inr D)"
proof -
  let ?h = "link_tree ps ps (INIT_LIST_HEAD sentinel (init_nodes ps (\<lambda>_. \<lparr>nxt = 0, prv = 0\<rparr>)))"
  note fresh = parents_first_fresh [OF pf]
  have "linked ps ([] @ ps) [] ?h"
    by (rule link_tree_linked [OF linked_init pf]) (use fresh in auto)
  then obtain xs where xs: "link_order ps ps = sentinel # xs" "dlist ?h sentinel xs"
    "set (sentinel # xs) = insert sentinel (node ` fst ` set ps)" "contiguous (child_of ps ps) (sentinel # xs)"
    unfolding linked_def by auto
  have pos: "0 < self" using self fresh by auto
  have "node self \<in> set (sentinel # xs)" unfolding xs(3) using self by blast
  then obtain us D vs where z: "sentinel # xs = us @ node self # D @ vs" and D: "set D = desc (child_of ps ps) (node self)"
    using xs(4) unfolding contiguous_def by blast
  obtain us' where us: "us = sentinel # us'" using z node_sentinel [OF pos] by (cases us) auto
  have zx: "xs = us' @ node self # [] @ D @ vs" using z us by simp
  have "sentinel \<notin> node ` fst ` set ps" using fresh node_sentinel by force
  then have sx: "set xs = node ` fst ` set ps" using xs(2,3) insert_ident [of sentinel "set xs"] by (simp add: dlist_def)
  have len: "length xs = length ps"
  proof -
    have "distinct (map (node \<circ> fst) ps)"
      using fresh node_inj by (fastforce simp: distinct_map inj_on_def)
    then have "length ps = card (node ` fst ` set ps)"
      by (metis distinct_card image_image length_map list.set_map map_map)
    then show ?thesis using dlist_distinct [OF xs(2)] sx by (metis distinct_card)
  qed
  have "kill_loop (length ps + 1) ?h (parents ps) [node self] (last [node self]) = (if vs = [] then Inl Null_deref else Inr D)"
  proof (rule kill_loop_subtree [OF xs(4,2) parents_child _ _ _ zx])
    fix a assume "a \<in> set xs"
    then obtain i where "i \<in> fst ` set ps" "a = node i" using sx by auto
    then show "parents ps a \<noteq> None" using parents_defined fresh by auto
  qed (use fresh D len zx in \<open>auto simp: parents_def\<close>)
  moreover have "hash_find self ps \<noteq> None" using self by (simp add: hash_find_None)
  ultimately have "descendants_to_kill self ps = (if vs = [] then Inl Null_deref else Inr D)"
    by (auto simp: descendants_to_kill_def Let_def simp del: kill_loop.simps)
  then show ?thesis using that z D xs(1,4) by metis
qed

section \<open>Which processes are signalled\<close>

lemma subseq_ins_after: "subseq zs (ins_after p i zs)"
  by (induction zs) auto

lemma subseq_new: "p \<in> set zs \<Longrightarrow> subseq [p, i] (ins_after p i zs)"
  by (induction zs) auto

lemma subseq_elder: "subseq [p, e] zs \<Longrightarrow> subseq [a, e] (ins_after p a zs)"
proof (induction zs)
  case Nil
  then show ?case by simp
next
  case (Cons y ys)
  show ?case
  proof (cases "y = p")
    case True
    with Cons.prems have "subseq [a, e] (a # ys)" by simp
    with True show ?thesis by (metis ins_after.simps(2) list_emb_Cons)
  next
    case False
    with Cons have "subseq [a, e] (ins_after p a ys)" by auto
    with False show ?thesis by (metis ins_after.simps(2) list_emb_Cons)
  qed
qed

lemma link_order_append:
  "link_order all (xs @ (i, q) # ys) =
   foldl (\<lambda>zs (pid, ppid). ins_after (parent_node all ppid) (node pid) zs)
     (ins_after (parent_node all q) (node i) (link_order all xs)) ys"
  by (simp add: link_order_def)

lemma subseq_link_order:
  "subseq zs (foldl (\<lambda>zs (pid, ppid). ins_after (parent_node all ppid) (node pid) zs) zs ys)"
proof (induction ys arbitrary: zs)
  case Nil
  then show ?case by simp
next
  case (Cons y ys)
  then show ?case by (cases y) (auto intro: subseq_order.order_trans [OF subseq_ins_after])
qed

lemma parents_first_at:
  "parents_first all seen (xs @ (i, q) # ys) \<Longrightarrow> hash_find q all = None \<or> q \<in> set seen \<union> fst ` set xs"
  by (induction all seen xs rule: parents_first.induct) auto

lemma set_link_order:
  "parents_first all [] (xs @ ys) \<Longrightarrow> set (link_order all xs) = insert sentinel (node ` fst ` set xs)"
proof (induction xs arbitrary: ys rule: rev_induct)
  case Nil
  then show ?case by (simp add: link_order_def)
next
  case (snoc x xs)
  obtain i q where x: "x = (i, q)" by (cases x)
  from snoc.IH [of "x # ys"] snoc.prems have ih: "set (link_order all xs) = insert sentinel (node ` fst ` set xs)"
    by simp
  have "parent_node all q \<in> set (link_order all xs)"
    using parents_first_at [of all "[]" xs i q ys] snoc.prems unfolding ih x by (auto simp: parent_node_def)
  from set_ins_after [OF this, of "node i"] show ?case unfolding x link_order_append ih by auto
qed

text \<open>An elder sibling stands after its younger siblings.\<close>

lemma elder_after:
  assumes ps: "ps = l1 @ (e, q1) # l2 @ (a, q2) # l3" and pf: "parents_first ps [] ps"
    and sib: "parent_node ps q1 = parent_node ps q2"
  shows "subseq [node a, node e] (link_order ps ps)"
proof -
  let ?p = "parent_node ps q1"
  have pf1: "parents_first ps [] (l1 @ (e, q1) # l2 @ (a, q2) # l3)" using pf ps by simp
  have "?p \<in> set (link_order ps l1)"
    using parents_first_at [OF pf1] unfolding set_link_order [OF pf1] by (auto simp: parent_node_def)
  then have "subseq [?p, node e] (link_order ps (l1 @ (e, q1) # l2))"
    unfolding link_order_append using subseq_new subseq_link_order subseq_order.order_trans by meson
  then have "subseq [node a, node e] (ins_after ?p (node a) (link_order ps (l1 @ (e, q1) # l2)))"
    by (rule subseq_elder)
  then have "subseq [node a, node e] (link_order ps ((l1 @ (e, q1) # l2) @ (a, q2) # l3))"
    unfolding link_order_append sib [symmetric] using subseq_link_order subseq_order.order_trans by meson
  then show ?thesis using ps by simp
qed

lemma subseq_skip: "a \<notin> set us \<Longrightarrow> subseq [a, e] (us @ a # rest) \<Longrightarrow> e \<in> set rest"
  by (induction us) (auto simp: subseq_singleton_left)

lemma elder_not_last:
  assumes c: "contiguous R zs" and z: "zs = us @ s # D" and D: "set D = desc R s"
    and a: "a = s \<or> s \<in> desc R a" and ae: "subseq [a, e] zs" and e: "e \<notin> desc R a"
  shows False
proof -
  have dis: "distinct zs" using c by (simp add: contiguous_def)
  have "a \<in> set zs"
  proof (cases "a = s")
    case False
    with a have "a \<in> Field R" unfolding Field_def by (blast dest: tranclD)
    with c show ?thesis by (auto simp: contiguous_def)
  qed (simp add: z)
  then obtain ua Da va where za: "zs = ua @ a # Da @ va" and Da: "set Da = desc R a"
    using c unfolding contiguous_def by blast
  have "a \<notin> set ua" using dis za by simp
  then have "e \<in> set (Da @ va)" using subseq_skip ae unfolding za by metis
  then have "e \<in> set va" using e Da by auto
  moreover have "set va \<subseteq> set D"
  proof (cases "a = s")
    case True
    then show ?thesis using dis za z by (metis append_Cons_eq_iff distinct.simps(2) distinct_append not_distinct_conv_prefix set_append sup_ge2)
  next
    case False
    then obtain X Y where "Da = X @ s # Y" using a Da by (metis mem_Collect_eq split_list)
    then have "us @ s # D = (ua @ a # X) @ s # (Y @ va)" using za z by simp
    then have "D = Y @ va" using dis z by (metis append_Cons_eq_iff distinct.simps(2) distinct_append not_distinct_conv_prefix)
    then show ?thesis by simp
  qed
  ultimately have "e \<in> desc R s" using D by auto
  then show False using a e by (auto intro: trancl_trans)
qed

text \<open>The first process of the table: nothing but its descendants follows it on the ring.\<close>

lemma first_is_last:
  assumes "\<And>x. x \<in> set l \<Longrightarrow> node (fst x) \<noteq> s" and "s \<noteq> sentinel"
  shows "\<exists>us D. foldl (\<lambda>zs (pid, ppid). ins_after (parent_node all ppid) (node pid) zs) [sentinel, s] l = us @ s # D \<and>
     s \<notin> set us \<and> set D \<subseteq> desc (child_of all l) s"
  using assms(1)
proof (induction l rule: rev_induct)
  case Nil
  show ?case by (rule exI [of _ "[sentinel]"], rule exI [of _ "[]"]) (use assms(2) in simp)
next
  case (snoc x l)
  obtain i q where x: "x = (i, q)" by (cases x)
  let ?p = "parent_node all q"
  obtain us D where ih: "foldl (\<lambda>zs (pid, ppid). ins_after (parent_node all ppid) (node pid) zs) [sentinel, s] l = us @ s # D"
    "s \<notin> set us" "set D \<subseteq> desc (child_of all l) s" using snoc by auto
  have R: "child_of all (l @ [x]) = insert (?p, node i) (child_of all l)" by (simp add: child_of_def x)
  have mono: "desc (child_of all l) s \<subseteq> desc (child_of all (l @ [x])) s"
    unfolding R by (auto intro: trancl_mono)
  consider "?p \<in> set us" | "?p \<notin> set us" "?p = s" | "?p \<notin> set us" "?p \<noteq> s" "?p \<in> set D" | "?p \<notin> set (us @ s # D)"
    by auto
  then show ?case
  proof cases
    case 1
    have new: "node i \<noteq> s" using snoc.prems [of x] x by simp
    show ?thesis
      by (rule exI [of _ "ins_after ?p (node i) us"], rule exI [of _ D]) (use new 1 ih mono x in \<open>auto simp: ins_after_append1 set_ins_after\<close>)
  next
    case 2
    have new: "(s, node i) \<in> (child_of all (l @ [x]))\<^sup>+" using 2 unfolding R by auto
    show ?thesis
      by (rule exI [of _ us], rule exI [of _ "node i # D"]) (use new ih mono 2 x in \<open>auto simp: ins_after_split\<close>)
  next
    case 3
    have "(s, ?p) \<in> (child_of all (l @ [x]))\<^sup>+" using 3 ih(3) mono by auto
    then have new: "(s, node i) \<in> (child_of all (l @ [x]))\<^sup>+" unfolding R by (rule trancl_into_trancl) simp
    show ?thesis
      by (rule exI [of _ us], rule exI [of _ "ins_after ?p (node i) D"]) (use new ih mono 3 x in \<open>auto simp: ins_after_append2 set_ins_after\<close>)
  next
    case 4
    show ?thesis by (rule exI [of _ us], rule exI [of _ D]) (use 4 ih mono x in \<open>auto simp: ins_after_notin\<close>)
  qed
qed



text \<open>
  When the own process is the first entry of the table, as the first process of a container is, the
  walk reaches the sentinel and reads its parent pointer, which was never set.
\<close>

theorem kill_from_first_process_faults:
  assumes pf: "parents_first ps [] ps" and ps: "ps = (self, q) # l"
  shows "descendants_to_kill self ps = Inl Null_deref"
proof -
  let ?R = "child_of ps ps"
  note fresh = parents_first_fresh [OF pf]
  have self: "self \<in> fst ` set ps" using ps by simp
  obtain us D vs where z: "link_order ps ps = us @ node self # D @ vs" and D: "set D = desc ?R (node self)"
    and c: "contiguous ?R (link_order ps ps)" and k: "descendants_to_kill self ps = (if vs = [] then Inl Null_deref else Inr D)"
    using kill_subtree [OF pf self] by metis
  have "parent_node ps q = sentinel" using pf ps by (auto simp: parent_node_def)
  then have lo: "link_order ps ps =
      foldl (\<lambda>zs (pid, ppid). ins_after (parent_node ps ppid) (node pid) zs) [sentinel, node self] l"
    by (simp add: link_order_def ps)
  have "\<exists>us D. link_order ps ps = us @ node self # D \<and> node self \<notin> set us \<and> set D \<subseteq> desc (child_of ps l) (node self)"
    unfolding lo
  proof (rule first_is_last)
    fix x assume "x \<in> set l"
    then show "node (fst x) \<noteq> node self" using fresh ps node_inj by force
  qed (use fresh ps node_sentinel in auto)
  then obtain us' D' where z': "link_order ps ps = us' @ node self # D'" "set D' \<subseteq> desc (child_of ps l) (node self)" by blast
  have "desc (child_of ps l) (node self) \<subseteq> desc ?R (node self)"
    using ps by (auto simp: child_of_def intro: trancl_mono)
  then have "set D' \<subseteq> set D" using z'(2) D by blast
  moreover have "D' = D @ vs" using c z z'(1) unfolding contiguous_def
    by (metis append_Cons_eq_iff distinct.simps(2) distinct_append not_distinct_conv_prefix)
  ultimately have "vs = []" using c z by (cases vs) (auto simp: contiguous_def)
  then show ?thesis using k by simp
qed

theorem kill_from_first_process_faults_witness:
  "descendants_to_kill 1 [(1, 0), (7, 1), (9, 7)] = Inl Null_deref"
  by (rule kill_from_first_process_faults [where q = 0 and l = "[(7, 1), (9, 7)]"]) simp_all

end
