(* ===== verification/Deai_Signature.thy ===== *)
theory Deai_Signature
  imports Deai_Values
begin

text \<open>
  D-Bus type signatures of \<^verbatim>\<open>plugins/dbus/signature.c\<close>: the signature of a value, checking a value
  against a signature, and parsing.  A D-Bus type code is a character.  \<^verbatim>\<open>dbus_type_is_valid\<close> and
  \<^verbatim>\<open>dbus_type_is_basic\<close> are functions of libdbus, here the parameters \<open>valid\<close> and \<open>basic\<close>.
\<close>

abbreviation DBUS_TYPE_INVALID :: char where "DBUS_TYPE_INVALID \<equiv> CHR 0x00"
abbreviation DBUS_TYPE_ARRAY :: char where "DBUS_TYPE_ARRAY \<equiv> CHR ''a''"
abbreviation DBUS_TYPE_VARIANT :: char where "DBUS_TYPE_VARIANT \<equiv> CHR ''v''"
abbreviation DBUS_TYPE_STRUCT :: char where "DBUS_TYPE_STRUCT \<equiv> CHR ''r''"
abbreviation DBUS_STRUCT_BEGIN_CHAR :: char where "DBUS_STRUCT_BEGIN_CHAR \<equiv> CHR ''(''"
abbreviation DBUS_STRUCT_END_CHAR :: char where "DBUS_STRUCT_END_CHAR \<equiv> CHR '')''"

text \<open>
  \<^verbatim>\<open>struct dbus_signature\<close>: the text, the number of children (an error code when negative) and the children.
\<close>

datatype dbus_signature =
  Dbus_signature (sig_current: di_string) (sig_nchild: int) (sig_child: "dbus_signature list")

text \<open>The documented basic type codes of D-Bus.\<close>

definition dbus_codes :: "char list" where "dbus_codes = ''ybnqiuxtdsogh''"

definition dbus_basic_spec :: "(char \<Rightarrow> bool) \<Rightarrow> bool" where
  "dbus_basic_spec basic \<longleftrightarrow> (\<forall>c. basic c \<longleftrightarrow> c \<in> set dbus_codes)"

definition dbus_valid_spec :: "(char \<Rightarrow> bool) \<Rightarrow> bool" where
  "dbus_valid_spec valid \<longleftrightarrow> (\<forall>c. valid c \<longleftrightarrow> c \<in> set (dbus_codes @ ''avre''))"

definition sum_bind :: "'e + 'a \<Rightarrow> ('a \<Rightarrow> 'e + 'b) \<Rightarrow> 'e + 'b" where
  "sum_bind m k = (case m of Inl e \<Rightarrow> Inl e | Inr x \<Rightarrow> k x)"

section \<open>Signatures of values\<close>

text \<open>\<open>None\<close> is \<^verbatim>\<open>DI_PANIC\<close>.\<close>

fun di_type_to_dbus_basic :: "di_type \<Rightarrow> char option" where
  "di_type_to_dbus_basic DI_TYPE_BOOL = Some (CHR ''b'')"
| "di_type_to_dbus_basic DI_TYPE_INT = Some (CHR ''x'')"
| "di_type_to_dbus_basic DI_TYPE_UINT = Some (CHR ''t'')"
| "di_type_to_dbus_basic DI_TYPE_NINT = Some (CHR ''i'')"
| "di_type_to_dbus_basic DI_TYPE_NUINT = Some (CHR ''u'')"
| "di_type_to_dbus_basic DI_TYPE_FLOAT = Some (CHR ''d'')"
| "di_type_to_dbus_basic DI_TYPE_STRING = Some (CHR ''s'')"
| "di_type_to_dbus_basic DI_TYPE_STRING_LITERAL = Some (CHR ''s'')"
| "di_type_to_dbus_basic DI_TYPE_ARRAY = Some DBUS_TYPE_ARRAY"
| "di_type_to_dbus_basic DI_TYPE_TUPLE = Some DBUS_TYPE_STRUCT"
| "di_type_to_dbus_basic DI_TYPE_ANY = None"
| "di_type_to_dbus_basic DI_LAST_TYPE = None"
| "di_type_to_dbus_basic _ = Some DBUS_TYPE_INVALID"

definition is_basic_value :: "(char \<Rightarrow> bool) \<Rightarrow> di_variant \<Rightarrow> fault + bool" where
  "is_basic_value basic var =
     (case di_type_to_dbus_basic (typeof var) of None \<Rightarrow> Inl Panic | Some d \<Rightarrow> Inr (basic d))"

text \<open>
  \<^verbatim>\<open>type_signature_length_of_di_value\<close>.  The loop over an array looks at element 0 again in every
  round, so it never finds a difference, and an element that cannot be sent adds minus one.
\<close>

fun type_signature_length_of_di_value :: "(char \<Rightarrow> bool) \<Rightarrow> di_variant \<Rightarrow> fault + int" where
  "type_signature_length_of_di_value basic var =
     sum_bind (is_basic_value basic var) (\<lambda>b.
     if b then Inr 1
     else
     case var of
       V_array t vs \<Rightarrow>
         (case vs of
            [] \<Rightarrow> Inl Out_of_bounds
          | v # _ \<Rightarrow> sum_bind (type_signature_length_of_di_value basic v) (\<lambda>v0. Inr (1 + v0)))
     | V_tuple vs \<Rightarrow>
         (let tmps = map (type_signature_length_of_di_value basic) vs in
          sum_bind
            (foldl (\<lambda>acc r. sum_bind acc (\<lambda>ret. if ret < 0 then Inr ret
                               else sum_bind r (\<lambda>tmp. if tmp < 0 then Inr tmp else Inr (ret + tmp)))) (Inr 0) tmps)
            (\<lambda>ret. Inr (if ret < 0 then ret else ret + 2)))
     | V_variant v \<Rightarrow> type_signature_length_of_di_value basic v
     | _ \<Rightarrow> Inr (-1))"

declare type_signature_length_of_di_value.simps [simp del]

definition is_basic_type_compatible :: "di_type \<Rightarrow> char \<Rightarrow> fault + bool" where
  "is_basic_type_compatible type dbus_type =
     (if dbus_type = CHR ''b'' then Inr (type = DI_TYPE_BOOL)
      else if dbus_type \<in> set ''nixqut''
      then Inr (type = DI_TYPE_UINT \<or> type = DI_TYPE_INT \<or> type = DI_TYPE_NINT \<or> type = DI_TYPE_NUINT)
      else if dbus_type = CHR ''d'' then Inr (type = DI_TYPE_FLOAT)
      else if dbus_type = CHR ''s'' \<or> dbus_type = CHR ''o'' then Inr (type = DI_TYPE_STRING)
      else if dbus_type = CHR ''h'' then Inr False
      else if dbus_type \<in> {DBUS_TYPE_ARRAY, DBUS_TYPE_STRUCT, DBUS_TYPE_VARIANT} then Inl Assert_failed
      else Inr False)"

text \<open>
  \<^verbatim>\<open>verify_type_signature\<close>: the rest of the signature after the part that matches, \<open>None\<close> for a mismatch.
  The signature is the bytes known to be there; reading past them is a fault.
\<close>

fun verify_type_signature :: "(char \<Rightarrow> bool) \<Rightarrow> di_variant \<Rightarrow> char list \<Rightarrow> fault + char list option"
  and verify_all :: "(char \<Rightarrow> bool) \<Rightarrow> di_variant list \<Rightarrow> char list \<Rightarrow> char list option \<Rightarrow> fault + char list option"
  and verify_seq :: "(char \<Rightarrow> bool) \<Rightarrow> di_variant list \<Rightarrow> char list \<Rightarrow> fault + char list option" where
  "verify_type_signature basic var signature =
     sum_bind (is_basic_value basic var) (\<lambda>b.
     case signature of
       [] \<Rightarrow> Inl Out_of_bounds
     | c # cs \<Rightarrow>
         if b then sum_bind (is_basic_type_compatible (typeof var) c) (\<lambda>ok. Inr (if ok then Some cs else None))
         else if c = DBUS_TYPE_VARIANT then Inr (Some cs)
         else
         (case var of
            V_variant v \<Rightarrow> verify_type_signature basic v signature
          | V_array t vs \<Rightarrow>
              if c = DBUS_TYPE_ARRAY
              then (case vs of
                      [] \<Rightarrow> Inl Out_of_bounds
                    | v # rest \<Rightarrow>
                        sum_bind (verify_type_signature basic v cs) (\<lambda>ret.
                        if t = DI_TYPE_ARRAY \<or> t = DI_TYPE_TUPLE \<or> t = DI_TYPE_VARIANT
                        then verify_all basic rest cs ret else Inr ret))
              else if c = DBUS_STRUCT_BEGIN_CHAR then verify_seq basic vs cs
              else Inr None
          | V_tuple vs \<Rightarrow>
              if c = DBUS_TYPE_ARRAY then Inr None
              else if c = DBUS_STRUCT_BEGIN_CHAR then verify_seq basic vs cs
              else Inr None
          | _ \<Rightarrow> Inr None))"
| "verify_all basic [] signature ret = Inr ret"
| "verify_all basic (v # vs) signature ret =
     sum_bind (verify_type_signature basic v signature) (\<lambda>ret2.
     if ret2 = None \<or> ret2 \<noteq> ret then Inr None else verify_all basic vs signature ret)"
| "verify_seq basic [] cur =
     (case cur of [] \<Rightarrow> Inl Out_of_bounds
      | c # cs \<Rightarrow> Inr (if c \<noteq> DBUS_STRUCT_END_CHAR then None else Some cs))"
| "verify_seq basic (v # vs) cur =
     sum_bind (verify_type_signature basic v cur) (\<lambda>nxt.
     case nxt of None \<Rightarrow> Inr None | Some cur' \<Rightarrow> verify_seq basic vs cur')"

declare verify_type_signature.simps [simp del]

text \<open>
  \<^verbatim>\<open>type_signature_of_di_value_to_buffer\<close>: the bytes written from the buffer pointer on, and the result.
  \<open>cap\<close> is the number of bytes allocated from there; a store beyond them is a fault.
\<close>

definition invalid_signature :: dbus_signature where
  "invalid_signature = Dbus_signature DI_STRING_INIT (- EINVAL) []"

fun to_buffer :: "(char \<Rightarrow> bool) \<Rightarrow> nat \<Rightarrow> di_variant \<Rightarrow> fault + char list \<times> dbus_signature"
  and to_buffer_seq :: "(char \<Rightarrow> bool) \<Rightarrow> nat \<Rightarrow> di_variant list \<Rightarrow> char list \<Rightarrow> dbus_signature list \<Rightarrow>
    fault + char list \<times> dbus_signature" where
  "to_buffer basic cap var =
     (case di_type_to_dbus_basic (typeof var) of
        None \<Rightarrow> Inl Panic
      | Some dtype \<Rightarrow>
          if basic dtype
          then (if cap = 0 then Inl Out_of_bounds else Inr ([dtype], Dbus_signature (Some [dtype]) 0 []))
          else
          (case var of
             V_array t vs \<Rightarrow>
               if cap = 0 then Inl Out_of_bounds
               else (case vs of
                       [] \<Rightarrow> Inl Out_of_bounds
                     | v # _ \<Rightarrow>
                         sum_bind (to_buffer basic (cap - 1) v) (\<lambda>(bytes, res).
                         sum_bind (verify_type_signature basic var (DBUS_TYPE_ARRAY # bytes)) (\<lambda>r.
                         if r = None then Inr (DBUS_TYPE_ARRAY # bytes, invalid_signature)
                         else Inr (DBUS_TYPE_ARRAY # bytes,
                                Dbus_signature (Some (DBUS_TYPE_ARRAY # str_bytes (sig_current res))) 1 [res]))))
           | V_tuple vs \<Rightarrow>
               if cap = 0 then Inl Out_of_bounds
               else to_buffer_seq basic (cap - 1) vs [DBUS_STRUCT_BEGIN_CHAR] []
           | V_variant v \<Rightarrow>
               if cap = 0 then Inl Out_of_bounds
               else Inr ([DBUS_TYPE_VARIANT], Dbus_signature (Some [DBUS_TYPE_VARIANT]) 0 [])
           | _ \<Rightarrow> Inr ([], invalid_signature)))"
| "to_buffer_seq basic cap [] done children =
     (if cap = 0 then Inl Out_of_bounds
      else Inr (done @ [DBUS_STRUCT_END_CHAR],
             Dbus_signature (Some (done @ [DBUS_STRUCT_END_CHAR])) (int (length children)) children))"
| "to_buffer_seq basic cap (v # vs) done children =
     sum_bind (to_buffer basic cap v) (\<lambda>(bytes, child).
     if sig_nchild child < 0 then Inr (done @ bytes, child)
     else to_buffer_seq basic (cap - length bytes) vs (done @ bytes) (children @ [child]))"

declare to_buffer.simps [simp del]

text \<open>
  \<^verbatim>\<open>type_signature_of_di_value\<close>.  The terminating NUL is stored also when the buffer was freed.
\<close>

definition type_signature_of_di_value :: "(char \<Rightarrow> bool) \<Rightarrow> di_variant \<Rightarrow> fault + dbus_signature" where
  "type_signature_of_di_value basic var =
     sum_bind (type_signature_length_of_di_value basic var) (\<lambda>len.
     if len < 0 then Inr invalid_signature
     else sum_bind (to_buffer basic (nat len + 1) var) (\<lambda>(_, rc).
          if sig_nchild rc < 0 then Inl Use_after_free else Inr rc))"

section \<open>Parsing\<close>

fun parse_dbus_signature_one ::
    "nat \<Rightarrow> (char \<Rightarrow> bool) \<Rightarrow> (char \<Rightarrow> bool) \<Rightarrow> di_string \<Rightarrow> fault + dbus_signature \<times> di_string"
  and parse_sequence_loop ::
    "nat \<Rightarrow> (char \<Rightarrow> bool) \<Rightarrow> (char \<Rightarrow> bool) \<Rightarrow> di_string \<Rightarrow> char \<Rightarrow> di_string \<Rightarrow> dbus_signature list \<Rightarrow> nat \<Rightarrow>
     fault + dbus_signature \<times> di_string" where
  "parse_dbus_signature_one 0 valid basic signature = Inl Out_of_fuel"
| "parse_dbus_signature_one (Suc n) valid basic signature =
     (case signature of
        None \<Rightarrow> Inl Null_deref
      | Some [] \<Rightarrow> Inl Out_of_bounds
      | Some (c # _) \<Rightarrow>
          if valid c \<and> basic c \<or> c = DBUS_TYPE_VARIANT
          then sum_bind (di_substring signature 0 1) (\<lambda>cur.
               Inr (Dbus_signature cur 0 [], di_suffix signature 1))
          else if c = DBUS_TYPE_ARRAY
          then sum_bind (parse_dbus_signature_one n valid basic (di_suffix signature 1)) (\<lambda>(child, rest).
               if sig_nchild child < 0 then Inr (child, rest)
               else sum_bind (di_substring signature 0 (str_length (sig_current child) + 1)) (\<lambda>cur.
                    Inr (Dbus_signature cur 1 [child], rest)))
          else if c = DBUS_STRUCT_BEGIN_CHAR
          then sum_bind (parse_sequence_loop n valid basic (di_suffix signature 1) DBUS_STRUCT_END_CHAR
                           (di_suffix signature 1) [] 0) (\<lambda>(ret, next).
               if sig_nchild ret < 0 then Inr (ret, next)
               else if str_length next = 0 then Inl Assert_failed
               else if hd (str_bytes next) \<noteq> DBUS_STRUCT_END_CHAR then Inl Assert_failed
               else sum_bind (di_substring signature 0 (str_length (sig_current ret) + 2)) (\<lambda>cur.
                    Inr (Dbus_signature cur (sig_nchild ret) (sig_child ret), di_suffix next 1)))
          else Inr (invalid_signature, DI_STRING_INIT))"
| "parse_sequence_loop 0 valid basic start end_char signature children len = Inl Out_of_fuel"
| "parse_sequence_loop (Suc n) valid basic start end_char signature children len =
     (if str_length signature \<noteq> 0 \<and> hd (str_bytes signature) \<noteq> end_char
      then sum_bind (parse_dbus_signature_one n valid basic signature) (\<lambda>(child, next).
           if sig_nchild child < 0 then Inr (child, next)
           else parse_sequence_loop n valid basic start end_char next (children @ [child])
                  (len + str_length (sig_current child)))
      else sum_bind (di_substring start 0 len) (\<lambda>cur.
           Inr (Dbus_signature cur (int (length children)) children, signature)))"

definition parse_dbus_signaure_sequence ::
  "nat \<Rightarrow> (char \<Rightarrow> bool) \<Rightarrow> (char \<Rightarrow> bool) \<Rightarrow> di_string \<Rightarrow> char \<Rightarrow> fault + dbus_signature \<times> di_string" where
  "parse_dbus_signaure_sequence n valid basic signature end_char =
     parse_sequence_loop n valid basic signature end_char signature [] 0"

definition parse_dbus_signature :: "(char \<Rightarrow> bool) \<Rightarrow> (char \<Rightarrow> bool) \<Rightarrow> di_string \<Rightarrow> fault + dbus_signature" where
  "parse_dbus_signature valid basic signature =
     sum_bind (parse_dbus_signaure_sequence (2 * str_length signature + 2) valid basic signature NUL) (\<lambda>(ret2, rest).
     if sig_nchild ret2 \<noteq> 0 then Inr ret2
     else if str_length rest \<noteq> 0 then Inl Assert_failed
     else Inr (Dbus_signature signature (sig_nchild ret2) (sig_child ret2)))"

end
