(* ===== verification/Deai_Signature_Proof.thy ===== *)
theory Deai_Signature_Proof
  imports Deai_Signature
begin

text \<open>
  The grammar of D-Bus types, and that the parser inverts printing; that parsing ends on every
  input; and how the signature of a value and the check of a value against it fit together.
\<close>

section \<open>Types and their text\<close>

datatype dbus_ty = T_basic char | T_variant | T_array dbus_ty | T_struct "dbus_ty list"

fun ty_text :: "dbus_ty \<Rightarrow> char list" where
  "ty_text (T_basic c) = [c]"
| "ty_text T_variant = [DBUS_TYPE_VARIANT]"
| "ty_text (T_array t) = DBUS_TYPE_ARRAY # ty_text t"
| "ty_text (T_struct ts) = DBUS_STRUCT_BEGIN_CHAR # concat (map ty_text ts) @ [DBUS_STRUCT_END_CHAR]"

fun ty_ok :: "dbus_ty \<Rightarrow> bool" where
  "ty_ok (T_basic c) \<longleftrightarrow> c \<in> set dbus_codes"
| "ty_ok T_variant \<longleftrightarrow> True"
| "ty_ok (T_array t) \<longleftrightarrow> ty_ok t"
| "ty_ok (T_struct ts) \<longleftrightarrow> (\<forall>t \<in> set ts. ty_ok t)"

fun ty_tree :: "dbus_ty \<Rightarrow> dbus_signature" where
  "ty_tree (T_basic c) = Dbus_signature (Some [c]) 0 []"
| "ty_tree T_variant = Dbus_signature (Some [DBUS_TYPE_VARIANT]) 0 []"
| "ty_tree (T_array t) = Dbus_signature (Some (ty_text (T_array t))) 1 [ty_tree t]"
| "ty_tree (T_struct ts) = Dbus_signature (Some (ty_text (T_struct ts))) (int (length ts)) (map ty_tree ts)"

lemma ty_text_nonempty: "ty_text t \<noteq> []"
  by (cases t) auto

lemma ty_text_hd: "ty_ok t \<Longrightarrow> hd (ty_text t) \<noteq> NUL \<and> hd (ty_text t) \<noteq> DBUS_STRUCT_END_CHAR"
  by (cases t) (auto simp: dbus_codes_def)

lemma ty_tree_simps [simp]: "sig_current (ty_tree t) = Some (ty_text t)" "0 \<le> sig_nchild (ty_tree t)"
  by (cases t; simp)+

lemma ty_tree_ok [simp]: "\<not> sig_nchild (ty_tree t) < 0"
  by (simp add: not_less)

text \<open>The view \<^verbatim>\<open>di_suffix\<close> returns: the null string when nothing is left.\<close>

definition view :: "char list \<Rightarrow> di_string" where
  "view bs = (if bs = [] then None else Some bs)"

lemma view_simps [simp]: "str_bytes (view bs) = bs" "str_length (view bs) = length bs"
  by (simp_all add: view_def)

lemma di_suffix_view: "str_bytes s = pre @ bs \<Longrightarrow> n = length pre \<Longrightarrow> di_suffix s n = view bs"
  by (cases s) (auto simp: di_suffix_def view_def DI_STRING_INIT_def)

lemma di_substring_prefix:
  assumes "str_bytes s = bs @ rest" and "bs \<noteq> []" and "n = length bs" and "str_length s < 2 ^ 64"
  shows "di_substring s 0 n = Inr (Some bs)"
  using assms by (cases s) (auto simp: di_substring_def)

lemma di_substring_none: "di_substring s 0 0 = Inr None"
  by (simp add: di_substring_def DI_STRING_INIT_def)

lemma sum_bind_simps [simp]: "sum_bind (Inl e) k = Inl e" "sum_bind (Inr x) k = k x"
  by (simp_all add: sum_bind_def)

section \<open>Parsing printed types\<close>

locale dbus_lib =
  fixes valid basic :: "char \<Rightarrow> bool"
  assumes valid_spec: "dbus_valid_spec valid" and basic_spec: "dbus_basic_spec basic"
begin

lemma basic_iff: "basic c \<longleftrightarrow> c \<in> set dbus_codes"
  using basic_spec by (simp add: dbus_basic_spec_def)

lemma valid_basic: "valid c \<and> basic c \<longleftrightarrow> c \<in> set dbus_codes"
  using valid_spec basic_spec by (auto simp: dbus_basic_spec_def dbus_valid_spec_def)

lemma composite_not_basic:
  "\<not> basic DBUS_TYPE_ARRAY" "\<not> basic DBUS_STRUCT_BEGIN_CHAR" "\<not> basic DBUS_TYPE_VARIANT" "\<not> basic DBUS_TYPE_STRUCT"
  "\<not> basic DBUS_TYPE_INVALID"
  by (simp_all add: basic_iff dbus_codes_def)

text \<open>What the parser returns for a printed type, and for a sequence of them.\<close>

definition parses :: "dbus_ty \<Rightarrow> bool" where
  "parses t \<longleftrightarrow> (\<forall>n rest s. str_bytes s = ty_text t @ rest \<longrightarrow> str_length s < 2 ^ 64 \<longrightarrow> 2 * length (ty_text t) \<le> n \<longrightarrow>
     parse_dbus_signature_one n valid basic s = Inr (ty_tree t, view rest))"

lemma parse_loop:
  assumes "\<And>t. t \<in> set ts \<Longrightarrow> parses t \<and> ty_ok t" and "rest = [] \<or> hd rest = e" and "e = NUL \<or> e = DBUS_STRUCT_END_CHAR"
  shows "str_bytes s = concat (map ty_text ts) @ rest \<Longrightarrow> str_length start < 2 ^ 64 \<Longrightarrow> str_length s < 2 ^ 64 \<Longrightarrow>
    str_bytes start = pre @ concat (map ty_text ts) @ rest \<Longrightarrow> len = length pre \<Longrightarrow>
    2 * length (concat (map ty_text ts)) + 1 \<le> n \<Longrightarrow>
    \<exists>s'. str_bytes s' = rest \<and> parse_sequence_loop n valid basic start e s children len =
      Inr (Dbus_signature (view (pre @ concat (map ty_text ts))) (int (length children + length ts))
             (children @ map ty_tree ts), s')"
  using assms(1)
proof (induction ts arbitrary: s pre len n children)
  case Nil
  then obtain m where n: "n = Suc m" by (cases n) auto
  have "di_substring start 0 len = Inr (view pre)"
    using Nil di_substring_prefix [of start pre rest len]
    by (cases "pre = []") (auto simp: view_def di_substring_none)
  moreover have "\<not> (str_length s \<noteq> 0 \<and> hd (str_bytes s) \<noteq> e)" using Nil.prems(1) assms(2) by (auto simp flip: length_str_bytes)
  ultimately show ?case using n Nil by auto
next
  case (Cons t ts)
  then obtain m where n: "n = Suc m" by (cases n) auto
  let ?more = "concat (map ty_text ts) @ rest"
  have t: "parses t" "ty_ok t" using Cons.prems(7) by auto
  have len: "0 < length (ty_text t)" using ty_text_nonempty [of t] by simp
  have one: "parse_dbus_signature_one m valid basic s = Inr (ty_tree t, view ?more)"
    using t(1) Cons.prems n len unfolding parses_def by auto
  have hd: "hd (str_bytes s) = hd (ty_text t)" using Cons.prems(1) ty_text_nonempty [of t] by simp
  then have guard: "str_length s \<noteq> 0 \<and> hd (str_bytes s) \<noteq> e"
    using Cons.prems(1) ty_text_hd [OF t(2)] assms(3) ty_text_nonempty [of t] by (auto simp flip: length_str_bytes)
  have "length (str_bytes s) = length (ty_text t) + length ?more" using Cons.prems(1) by simp
  then have "str_length (view ?more) < 2 ^ 64" using Cons.prems(3) by simp
  moreover have "2 * length (concat (map ty_text ts)) + 1 \<le> m"
  proof -
    have "2 * (length (ty_text t) + length (concat (map ty_text ts))) \<le> m" using Cons.prems(6) n by simp
    moreover have "0 < a \<Longrightarrow> 2 * (a + b) \<le> m \<Longrightarrow> 2 * b + 1 \<le> m" for a b by simp
    ultimately show ?thesis using len by blast
  qed
  ultimately obtain s' where "str_bytes s' = rest" "parse_sequence_loop m valid basic start e (view ?more) (children @ [ty_tree t])
      (len + length (ty_text t)) = Inr (Dbus_signature (view ((pre @ ty_text t) @ concat (map ty_text ts)))
        (int (length (children @ [ty_tree t]) + length ts)) ((children @ [ty_tree t]) @ map ty_tree ts), s')"
    using Cons.IH [of "view ?more" "pre @ ty_text t" "len + length (ty_text t)" m "children @ [ty_tree t]"]
      Cons.prems by auto
  then show ?case using n one guard by (intro exI [of _ s']) simp
qed

lemma parse_one: "ty_ok t \<Longrightarrow> parses t"
proof (induction t)
  case (T_basic c)
  then show ?case
    unfolding parses_def
  proof (intro allI impI)
    fix n rest and s :: di_string
    assume a: "str_bytes s = ty_text (T_basic c) @ rest" "str_length s < 2 ^ 64" "2 * length (ty_text (T_basic c)) \<le> n"
    then obtain m where n: "n = Suc m" by (cases n) auto
    from a have s: "s = Some (c # rest)" by (cases s) auto
    show "parse_dbus_signature_one n valid basic s = Inr (ty_tree (T_basic c), view rest)"
      using T_basic di_substring_prefix [of s "[c]" rest 1] di_suffix_view [of s "[c]" rest 1] a(2)
      unfolding n s by (simp add: valid_basic)
  qed
next
  case T_variant
  show ?case
    unfolding parses_def
  proof (intro allI impI)
    fix n rest and s :: di_string
    assume a: "str_bytes s = ty_text T_variant @ rest" "str_length s < 2 ^ 64" "2 * length (ty_text T_variant) \<le> n"
    then obtain m where n: "n = Suc m" by (cases n) auto
    from a have s: "s = Some (DBUS_TYPE_VARIANT # rest)" by (cases s) auto
    show "parse_dbus_signature_one n valid basic s = Inr (ty_tree T_variant, view rest)"
      using di_substring_prefix [of s "[DBUS_TYPE_VARIANT]" rest 1] di_suffix_view [of s "[DBUS_TYPE_VARIANT]" rest 1] a(2)
      unfolding n s by simp
  qed
next
  case (T_array t)
  show ?case
    unfolding parses_def
  proof (intro allI impI)
    fix n rest and s :: di_string
    assume a: "str_bytes s = ty_text (T_array t) @ rest" "str_length s < 2 ^ 64" "2 * length (ty_text (T_array t)) \<le> n"
    then obtain m where n: "n = Suc m" by (cases n) auto
    from a have s: "s = Some (DBUS_TYPE_ARRAY # ty_text t @ rest)" by (cases s) auto
    have "parses t" using T_array by simp
    then have "parse_dbus_signature_one m valid basic (view (ty_text t @ rest)) = Inr (ty_tree t, view rest)"
      using a n s unfolding parses_def by auto
    then show "parse_dbus_signature_one n valid basic s = Inr (ty_tree (T_array t), view rest)"
      using di_substring_prefix [of s "ty_text (T_array t)" rest "length (ty_text t) + 1"]
        di_suffix_view [of s "[DBUS_TYPE_ARRAY]" "ty_text t @ rest" 1] a(1,2)
      unfolding n s by (simp add: composite_not_basic)
  qed
next
  case (T_struct ts)
  show ?case
    unfolding parses_def
  proof (intro allI impI)
    fix n rest and s :: di_string
    let ?txt = "concat (map ty_text ts)" and ?r = "DBUS_STRUCT_END_CHAR # rest"
    assume a: "str_bytes s = ty_text (T_struct ts) @ rest" "str_length s < 2 ^ 64" "2 * length (ty_text (T_struct ts)) \<le> n"
    then obtain m where n: "n = Suc m" by (cases n) auto
    from a have s: "s = Some (DBUS_STRUCT_BEGIN_CHAR # ?txt @ ?r)" by (cases s) auto
    obtain s' where s': "str_bytes s' = ?r" "parse_sequence_loop m valid basic (view (?txt @ ?r)) DBUS_STRUCT_END_CHAR (view (?txt @ ?r)) [] 0 =
        Inr (Dbus_signature (view ?txt) (int (length ts)) (map ty_tree ts), s')"
      using parse_loop [of ts ?r DBUS_STRUCT_END_CHAR "view (?txt @ ?r)" "view (?txt @ ?r)" "[]" 0 m "[]"] T_struct a n s by auto
    have "str_length s' \<noteq> 0" using s'(1) by (auto simp flip: length_str_bytes)
    moreover have "di_suffix s' 1 = view rest" using di_suffix_view [of s' "[DBUS_STRUCT_END_CHAR]" rest 1] s'(1) by simp
    moreover have "di_substring s 0 (length ?txt + 2) = Inr (Some (ty_text (T_struct ts)))"
      using a(2) by (intro di_substring_prefix [where rest = rest]) (simp_all add: s)
    ultimately show "parse_dbus_signature_one n valid basic s = Inr (ty_tree (T_struct ts), view rest)"
      using s' di_suffix_view [of s "[DBUS_STRUCT_BEGIN_CHAR]" "?txt @ ?r" 1]
      unfolding n s by (simp add: composite_not_basic)
  qed
qed

lemma parse_printed:
  assumes "\<And>t. t \<in> set ts \<Longrightarrow> ty_ok t" and "ts \<noteq> []" and "length (concat (map ty_text ts)) < 2 ^ 64"
  shows "parse_dbus_signature valid basic (Some (concat (map ty_text ts))) =
    Inr (Dbus_signature (Some (concat (map ty_text ts))) (int (length ts)) (map ty_tree ts))"
proof -
  let ?s = "Some (concat (map ty_text ts))"
  have "concat (map ty_text ts) \<noteq> []" using assms(2) ty_text_nonempty by (cases ts) auto
  moreover obtain s' where "parse_sequence_loop (2 * length (concat (map ty_text ts)) + 2) valid basic ?s NUL ?s [] 0 =
      Inr (Dbus_signature (view (concat (map ty_text ts))) (int (length ts)) (map ty_tree ts), s')"
    using parse_loop [of ts "[]" NUL ?s ?s "[]" 0 "2 * length (concat (map ty_text ts)) + 2" "[]"] assms parse_one by auto
  ultimately show ?thesis
    using assms(2) by (simp add: parse_dbus_signature_def parse_dbus_signaure_sequence_def view_def)
qed

end

interpretation dbus: dbus_lib "\<lambda>c. c \<in> set (dbus_codes @ ''avre'')" "\<lambda>c. c \<in> set dbus_codes"
  by unfold_locales (simp_all add: dbus_valid_spec_def dbus_basic_spec_def)

section \<open>Parsing ends\<close>

text \<open>What is left to parse gets shorter, and the bound of \<^verbatim>\<open>parse_dbus_signature\<close> is never reached.\<close>

lemma str_length_suffix: "str_length (di_suffix s n) = str_length s - n"
  by (cases s) (auto simp: di_suffix_def)

lemma parse_rest_shorter:
  "parse_dbus_signature_one n valid basic s = Inr (r, rest) \<Longrightarrow> 0 \<le> sig_nchild r \<Longrightarrow> str_length rest < str_length s"
  "parse_sequence_loop n valid basic start e s children len = Inr (r, rest) \<Longrightarrow> 0 \<le> sig_nchild r \<Longrightarrow>
   str_length rest \<le> str_length s"
proof (induction n valid basic s and n valid basic start e s children len arbitrary: r rest and r rest
    rule: parse_dbus_signature_one_parse_sequence_loop.induct)
  case (2 n valid basic s)
  show ?case
  proof (cases s)
    case None
    with 2 show ?thesis by simp
  next
    case (Some bs)
    show ?thesis
    proof (cases bs)
      case Nil
      with Some 2 show ?thesis by simp
    next
      case (Cons c cs)
      have len: "str_length s = Suc (length cs)" "\<And>k. str_length (di_suffix s k) = Suc (length cs) - k"
        using Some Cons by (simp_all add: str_length_suffix)
      from 2 Some Cons show ?thesis
        by (auto simp: sum_bind_def str_length_suffix invalid_signature_def errno_defs split: if_splits sum.splits prod.splits)
          (fastforce simp: str_length_suffix)+
    qed
  qed
next
  case (4 n valid basic start e s children len)
  then show ?case by (fastforce simp: sum_bind_def split: if_splits sum.splits prod.splits)
qed simp_all

lemma sum_bind_Inl: "sum_bind m k = Inl e \<longleftrightarrow> m = Inl e \<or> (\<exists>x. m = Inr x \<and> k x = Inl e)"
  by (cases m) auto

lemma substring_no_fuel [simp]: "di_substring s i k \<noteq> Inl Out_of_fuel"
  by (simp add: di_substring_def Let_def)

lemma parse_enough_fuel:
  "2 * str_length s + 1 \<le> n \<Longrightarrow> parse_dbus_signature_one n valid basic s \<noteq> Inl Out_of_fuel"
  "2 * str_length s + 2 \<le> n \<Longrightarrow> parse_sequence_loop n valid basic start e s children len \<noteq> Inl Out_of_fuel"
proof (induction n valid basic s and n valid basic start e s children len
    rule: parse_dbus_signature_one_parse_sequence_loop.induct)
  case (2 n valid basic s)
  show ?case
  proof (cases s)
    case (Some bs)
    show ?thesis
    proof (cases bs)
      case (Cons c cs)
      have len: "str_length (di_suffix s 1) = length cs" using Some Cons by (simp add: str_length_suffix)
      have "parse_dbus_signature_one n valid basic (di_suffix s 1) \<noteq> Inl Out_of_fuel"
        if "\<not> (valid c \<and> basic c \<or> c = DBUS_TYPE_VARIANT)" "c = DBUS_TYPE_ARRAY"
        using 2 Some Cons that len by auto
      moreover have "parse_sequence_loop n valid basic (di_suffix s 1) DBUS_STRUCT_END_CHAR (di_suffix s 1) [] 0 \<noteq> Inl Out_of_fuel"
        if "\<not> (valid c \<and> basic c \<or> c = DBUS_TYPE_VARIANT)" "c \<noteq> DBUS_TYPE_ARRAY" "c = DBUS_STRUCT_BEGIN_CHAR"
        using 2 Some Cons that len by auto
      ultimately show ?thesis
        unfolding parse_dbus_signature_one.simps Some Cons option.case list.case
        by (simp add: sum_bind_Inl split: prod.splits)
    qed (simp add: Some)
  qed simp
next
  case (4 n valid basic start e s children len)
  have "parse_sequence_loop n valid basic start e next (children @ [child]) (len + str_length (sig_current child)) \<noteq> Inl Out_of_fuel"
    if "str_length s \<noteq> 0 \<and> hd (str_bytes s) \<noteq> e" "parse_dbus_signature_one n valid basic s = Inr (child, next)" "\<not> sig_nchild child < 0" for child "next"
    using 4 that parse_rest_shorter(1) [OF that(2)] by auto
  then show ?case using 4 by (auto simp: sum_bind_Inl split: prod.splits if_splits)
qed simp_all

section \<open>Signatures of values\<close>

text \<open>No string literal outside a variant.\<close>

fun no_literal :: "di_variant \<Rightarrow> bool" where
  "no_literal (V_string_literal _) \<longleftrightarrow> False"
| "no_literal (V_array t vs) \<longleftrightarrow> (\<forall>v \<in> set vs. no_literal v)"
| "no_literal (V_tuple vs) \<longleftrightarrow> (\<forall>v \<in> set vs. no_literal v)"
| "no_literal _ \<longleftrightarrow> True"

text \<open>
  The D-Bus type of a value, where it has one: all elements of an array have the same type, and
  arrays hold no string literals.
\<close>

fun ty_of :: "di_variant \<Rightarrow> dbus_ty option" where
  "ty_of (V_bool _) = Some (T_basic (CHR ''b''))"
| "ty_of (V_int _) = Some (T_basic (CHR ''x''))"
| "ty_of (V_uint _) = Some (T_basic (CHR ''t''))"
| "ty_of (V_nint _) = Some (T_basic (CHR ''i''))"
| "ty_of (V_nuint _) = Some (T_basic (CHR ''u''))"
| "ty_of (V_float _) = Some (T_basic (CHR ''d''))"
| "ty_of (V_string _) = Some (T_basic (CHR ''s''))"
| "ty_of (V_string_literal _) = Some (T_basic (CHR ''s''))"
| "ty_of (V_array t vs) =
     (case map ty_of vs of
        Some ty # rs \<Rightarrow> if (\<forall>r \<in> set rs. r = Some ty) \<and> (\<forall>v \<in> set vs. no_literal v) then Some (T_array ty) else None
      | _ \<Rightarrow> None)"
| "ty_of (V_tuple vs) =
     (if \<forall>r \<in> set (map ty_of vs). r \<noteq> None then Some (T_struct (map the (map ty_of vs))) else None)"
| "ty_of (V_variant v) = (if ty_of v = None then None else Some T_variant)"
| "ty_of _ = None"

lemma ty_of_ok: "ty_of v = Some ty \<Longrightarrow> ty_ok ty"
proof (induction v arbitrary: ty rule: ty_of.induct)
  case (9 t vs)
  then show ?case by (cases vs) (fastforce split: option.splits if_splits list.splits)+
next
  case (10 vs)
  then show ?case by (auto split: if_splits)
qed (auto simp: dbus_codes_def split: if_splits)

context dbus_lib
begin

lemma basic_value:
  "wt_value v \<Longrightarrow> is_basic_value basic v =
     Inr (case v of V_array _ _ \<Rightarrow> False | V_tuple _ \<Rightarrow> False | V_variant _ \<Rightarrow> False | _ \<Rightarrow> ty_of v \<noteq> None)"
  by (cases v) (simp_all add: is_basic_value_def basic_iff dbus_codes_def)

text \<open>The length computed first is at least the length of the text.\<close>

lemma signature_length:
  "wt_value v \<Longrightarrow> ty_of v = Some ty \<Longrightarrow>
   \<exists>len. type_signature_length_of_di_value basic v = Inr len \<and> int (length (ty_text ty)) \<le> len"
proof (induction v arbitrary: ty rule: ty_of.induct)
  case (9 t vs)
  then obtain v rest where vs: "vs = v # rest" by (cases vs) auto
  from 9 vs obtain ty' where ty': "ty_of v = Some ty'" "ty = T_array ty'" by (auto split: option.splits if_splits)
  with "9.IH" [of v] "9.prems"(1) vs obtain len where "type_signature_length_of_di_value basic v = Inr len" "int (length (ty_text ty')) \<le> len"
    by auto
  then show ?case using basic_value [OF "9.prems"(1)] vs ty'
    by (simp add: type_signature_length_of_di_value.simps [of basic "V_array t (v # rest)"])
next
  case (10 vs)
  let ?f = "\<lambda>acc r. sum_bind acc (\<lambda>ret. if ret < 0 then Inr ret else sum_bind r (\<lambda>tmp. if tmp < 0 then Inr tmp else Inr (ret + tmp)))"
  have "\<exists>len. foldl ?f (Inr n) (map (type_signature_length_of_di_value basic) us) = (Inr len :: fault + int) \<and>
      n + int (length (concat (map ty_text (map the (map ty_of us))))) \<le> len"
    if "set us \<subseteq> set vs" "0 \<le> n" for us n
    using that
  proof (induction us arbitrary: n)
    case Nil
    then show ?case by simp
  next
    case (Cons u us)
    then obtain ty' where u: "u \<in> set vs" "ty_of u = Some ty'" "wt_value u" using 10 by (force split: if_splits)
    then obtain len where len: "type_signature_length_of_di_value basic u = Inr len" "int (length (ty_text ty')) \<le> len"
      using "10.IH" by blast
    then have "0 \<le> len" by simp
    with Cons.IH [of "n + len"] Cons.prems len u(2) show ?case by (force simp: not_less)
  qed
  from this [of vs 0] 10 show ?case
    using basic_value [OF "10.prems"(1)]
    by (force simp: type_signature_length_of_di_value.simps [of basic "V_tuple vs"] not_less split: if_splits)
next
  case (11 v)
  then obtain ty' where "ty_of v = Some ty'" "ty = T_variant" by (auto split: if_splits)
  with 11 obtain len where "type_signature_length_of_di_value basic v = Inr len" "int (length (ty_text ty')) \<le> len" by auto
  moreover have "0 < length (ty_text ty')" using ty_text_nonempty by simp
  then have "1 \<le> int (length (ty_text ty'))" by linarith
  ultimately show ?case using basic_value [OF "11.prems"(1)] \<open>ty = T_variant\<close>
    by (simp add: type_signature_length_of_di_value.simps [of basic "V_variant v"])
qed (use basic_value in \<open>auto simp: type_signature_length_of_di_value.simps\<close>)

text \<open>A value matches the text of its type.\<close>

lemma verify_all_same:
  "(\<And>v. v \<in> set vs \<Longrightarrow> verify_type_signature basic v s = Inr (Some r)) \<Longrightarrow> verify_all basic vs s (Some r) = Inr (Some r)"
  by (induction vs) simp_all

lemma verify_seq_types:
  assumes "\<And>v rest. v \<in> set vs \<Longrightarrow> verify_type_signature basic v (ty_text (the (ty_of v)) @ rest) = Inr (Some rest)"
  shows "verify_seq basic vs (concat (map ty_text (map the (map ty_of vs))) @ DBUS_STRUCT_END_CHAR # rest) = Inr (Some rest)"
  using assms by (induction vs) simp_all

lemma verify_type:
  "wt_value v \<Longrightarrow> no_literal v \<Longrightarrow> ty_of v = Some ty \<Longrightarrow> verify_type_signature basic v (ty_text ty @ rest) = Inr (Some rest)"
proof (induction v arbitrary: ty rest rule: ty_of.induct)
  case (9 t vs)
  then obtain v us where vs: "vs = v # us" by (cases vs) auto
  from 9 vs obtain ty' where ty': "ty_of v = Some ty'" "ty = T_array ty'" "\<forall>r \<in> set us. ty_of r = Some ty'"
    by (auto split: option.splits if_splits)
  have all: "verify_type_signature basic u (ty_text ty' @ rest) = Inr (Some rest)" if "u \<in> set vs" for u
    using "9.IH" [OF that] "9.prems" that vs ty' by auto
  then have "verify_all basic us (ty_text ty' @ rest) (Some rest) = Inr (Some rest)" using vs by (intro verify_all_same) simp
  then show ?case using basic_value [OF "9.prems"(1)] vs ty' all [of v]
    by (simp add: verify_type_signature.simps [of basic "V_array t (v # us)"])
next
  case (10 vs)
  then have "verify_type_signature basic v (ty_text (the (ty_of v)) @ rest) = Inr (Some rest)" if "v \<in> set vs" for v rest
    using that by (fastforce split: if_splits)
  from verify_seq_types [OF this] 10 show ?case
    using basic_value [OF "10.prems"(1)]
    by (auto simp: verify_type_signature.simps [of basic "V_tuple vs"] split: if_splits)
next
  case (11 v)
  then show ?case using basic_value [OF "11.prems"(1)]
    by (auto simp: verify_type_signature.simps [of basic "V_variant v"] split: if_splits)
qed (use basic_value in \<open>auto simp: verify_type_signature.simps is_basic_type_compatible_def\<close>)

text \<open>Writing the text of the type.\<close>

lemma to_buffer_types:
  assumes "\<And>v cap. v \<in> set vs \<Longrightarrow> length (ty_text (the (ty_of v))) \<le> cap \<Longrightarrow>
      to_buffer basic cap v = Inr (ty_text (the (ty_of v)), ty_tree (the (ty_of v)))"
    and "length (concat (map ty_text (map the (map ty_of vs)))) < cap"
  shows "to_buffer_seq basic cap vs done children =
    Inr (done @ concat (map ty_text (map the (map ty_of vs))) @ [DBUS_STRUCT_END_CHAR],
      Dbus_signature (Some (done @ concat (map ty_text (map the (map ty_of vs))) @ [DBUS_STRUCT_END_CHAR]))
        (int (length children + length vs)) (children @ map ty_tree (map the (map ty_of vs))))"
  using assms
proof (induction vs arbitrary: cap "done" children)
  case Nil
  then show ?case by simp
next
  case (Cons v vs)
  then show ?case by simp
qed

lemma to_buffer_type:
  "wt_value v \<Longrightarrow> ty_of v = Some ty \<Longrightarrow> length (ty_text ty) \<le> cap \<Longrightarrow> to_buffer basic cap v = Inr (ty_text ty, ty_tree ty)"
proof (induction v arbitrary: ty cap rule: ty_of.induct)
  case (9 t vs)
  then obtain v us where vs: "vs = v # us" by (cases vs) auto
  from 9 vs obtain ty' where ty': "ty_of v = Some ty'" "ty = T_array ty'" and nl: "\<forall>v \<in> set vs. no_literal v"
    by (auto split: option.splits if_splits)
  have "to_buffer basic (cap - 1) v = Inr (ty_text ty', ty_tree ty')"
    using "9.IH" [of v] "9.prems" vs ty' by auto
  moreover have "verify_type_signature basic (V_array t vs) (ty_text ty @ []) = Inr (Some [])"
    using "9.prems" nl by (intro verify_type) auto
  ultimately show ?case using vs ty' "9.prems"(3)
    by (simp add: to_buffer.simps [of basic cap "V_array t (v # us)"] composite_not_basic)
next
  case (10 vs)
  then have "to_buffer basic cap v = Inr (ty_text (the (ty_of v)), ty_tree (the (ty_of v)))"
    if "v \<in> set vs" "length (ty_text (the (ty_of v))) \<le> cap" for v cap
    using that by (fastforce split: if_splits)
  from to_buffer_types [OF this, of vs "cap - 1" "[DBUS_STRUCT_BEGIN_CHAR]" "[]"] 10 show ?case
    by (auto simp: to_buffer.simps [of basic cap "V_tuple vs"] composite_not_basic split: if_splits)
next
  case (11 v)
  then show ?case by (auto simp: to_buffer.simps [of basic cap "V_variant v"] composite_not_basic split: if_splits)
qed (auto simp: to_buffer.simps basic_iff dbus_codes_def)

lemma signature_of_typed:
  assumes "wt_value v" and "ty_of v = Some ty"
  shows "type_signature_of_di_value basic v = Inr (ty_tree ty)"
proof -
  from signature_length [OF assms] obtain len where "type_signature_length_of_di_value basic v = Inr len" "int (length (ty_text ty)) \<le> len"
    by blast
  moreover from this have "to_buffer basic (nat len + 1) v = Inr (ty_text ty, ty_tree ty)"
    by (intro to_buffer_type [OF assms]) simp
  ultimately show ?thesis by (simp add: type_signature_of_di_value_def)
qed

end

section \<open>Properties\<close>



text \<open>
  C14: Every value that has a D-Bus type gets the signature of that type, without leaving the buffer that was
  allocated for it, and parsing that signature returns the same tree.
\<close>

theorem dbus_signature_of_value:
  assumes "dbus_valid_spec valid" and "dbus_basic_spec basic" and "wt_value v" and "ty_of v = Some ty"
    and "length (ty_text ty) < 2 ^ 64"
  shows "type_signature_of_di_value basic v = Inr (ty_tree ty) \<and>
    parse_dbus_signature valid basic (sig_current (ty_tree ty)) = Inr (Dbus_signature (Some (ty_text ty)) 1 [ty_tree ty])"
  using dbus_lib.signature_of_typed [OF dbus_lib.intro] dbus_lib.parse_printed [OF dbus_lib.intro, of valid basic "[ty]"]
    ty_of_ok assms by simp

theorem dbus_signature_of_value_witness:
  "type_signature_of_di_value (\<lambda>c. c \<in> set dbus_codes) (V_array DI_TYPE_TUPLE [V_tuple [V_nint 1, V_variant (V_bool True)]]) =
     Inr (ty_tree (T_array (T_struct [T_basic (CHR ''i''), T_variant]))) \<and>
   parse_dbus_signature (\<lambda>c. c \<in> set (dbus_codes @ ''avre'')) (\<lambda>c. c \<in> set dbus_codes)
     (sig_current (ty_tree (T_array (T_struct [T_basic (CHR ''i''), T_variant])))) =
     Inr (Dbus_signature (Some (ty_text (T_array (T_struct [T_basic (CHR ''i''), T_variant])))) 1
       [ty_tree (T_array (T_struct [T_basic (CHR ''i''), T_variant]))])"
  by (rule dbus_signature_of_value) (simp_all add: dbus_valid_spec_def dbus_basic_spec_def)

text \<open>
  C31: Parsing a signature ends on every input: the recursion depth never exceeds twice the length of the text.
\<close>

theorem dbus_parse_terminates: "parse_dbus_signature valid basic signature \<noteq> Inl Out_of_fuel"
  using parse_enough_fuel(2) [of signature]
  by (auto simp: parse_dbus_signature_def parse_dbus_signaure_sequence_def sum_bind_Inl
      simp del: parse_dbus_signature_one.simps parse_sequence_loop.simps split: prod.splits if_splits)

text \<open>
  C36: An array whose elements are structures with a member that cannot be sent is not rejected: its length is computed
  as zero, because the error value is added to one, and writing its signature leaves the buffer.
\<close>

theorem dbus_signature_overflow:
  assumes "\<not> basic DBUS_TYPE_ARRAY" and "\<not> basic DBUS_TYPE_STRUCT"
    and "type_signature_length_of_di_value basic (V_tuple vs) = Inr (-1)"
  shows "type_signature_of_di_value basic (V_array DI_TYPE_TUPLE (V_tuple vs # us)) = Inl Out_of_bounds"
proof -
  have "type_signature_length_of_di_value basic (V_array DI_TYPE_TUPLE (V_tuple vs # us)) = Inr 0"
    using assms by (simp add: type_signature_length_of_di_value.simps [of basic "V_array _ _"] is_basic_value_def)
  moreover have "to_buffer basic 1 (V_array DI_TYPE_TUPLE (V_tuple vs # us)) = Inl Out_of_bounds"
    using assms by (simp add: to_buffer.simps)
  ultimately show ?thesis by (simp add: type_signature_of_di_value_def)
qed

theorem dbus_signature_overflow_witness:
  "type_signature_of_di_value (\<lambda>c. c \<in> set dbus_codes) (V_array DI_TYPE_TUPLE (V_tuple [V_nint 1, V_object 3] # [])) = Inl Out_of_bounds"
  by (rule dbus_signature_overflow)
    (simp_all add: dbus_codes_def type_signature_length_of_di_value.simps is_basic_value_def)

end
