(* ===== verification/Deai_Klist_Props.thy ===== *)
theory Deai_Klist_Props
  imports Deai_Klist
begin

text \<open>
  The list library as a data refinement: any valid sequence of operations of \<^verbatim>\<open>list.h\<close> on one ring
  behaves like the corresponding operations on a sequence of entries, and cutting a list is
  undone by splicing the pieces.
\<close>

section \<open>Replacing an entry\<close>

lemma links_replace_cong:
  assumes "set xs \<inter> {n, p} = {} \<or> p \<notin> set (butlast xs) \<and> n \<notin> set xs"
    and "q \<notin> set (tl xs)" and "n \<notin> set xs"
  shows "links (set_next p n (set_prev n p (set_prev q n (set_next n q h)))) xs = links h xs"
  by (rule links_cong) (use assms in \<open>auto dest: in_set_butlastD in_set_tlD\<close>)

lemma list_replace_eq:
  assumes "dlist h head (as @ e # bs)" and n: "n \<notin> set (head # as @ e # bs)"
    and p: "p = last (head # as)" and q: "q = hd (bs @ [head])"
  shows "list_replace e n h = set_next p n (set_prev n p (set_prev q n (set_next n q h)))"
proof -
  have pq: "prv (h e) = p" "nxt (h e) = q" using dlist_split [OF assms(1)] p q by auto
  have "n \<noteq> e" "q \<noteq> e" using n assms(1) q by (auto simp: dlist_def hd_append)
  with pq show ?thesis by (simp add: list_replace_def Let_def)
qed

lemma dlist_replace:
  assumes d: "dlist h head (as @ e # bs)" and n: "n \<notin> set (head # as @ e # bs)"
  shows "dlist (list_replace e n h) head (as @ n # bs)"
proof -
  define p q where p: "p = last (head # as)" and q: "q = hd (bs @ [head])"
  note eq = list_replace_eq [OF d n p q]
  let ?h = "set_next p n (set_prev n p (set_prev q n (set_next n q h)))"
  have mem: "p \<in> set (head # as)" "q \<in> set (bs @ [head])" unfolding p q using last_in_set [of "head # as"] hd_in_set [of "bs @ [head]"] by blast+
  with n have ne: "p \<noteq> n" "q \<noteq> n" by auto
  have seg: "links h (head # as)" "links h (bs @ [head])"
    using d links_append_iff [of h "head # as" "e # bs @ [head]"] links_append_iff [of h "[e]" "bs @ [head]"]
    by (auto simp: dlist_def)
  have "p \<notin> set (butlast (head # as))"
    using d p by (metis append_butlast_last_id distinct_append dlist_def disjoint_iff distinct.simps(2)
        append_Cons list.discI list.set_intros(1))
  moreover have "q \<notin> set (tl (head # as))" using d mem(2) by (auto simp: dlist_def)
  moreover have "p \<notin> set (butlast (bs @ [head]))" using d mem(1) by (auto simp: dlist_def)
  moreover have "q \<notin> set (tl (bs @ [head]))" using d q by (cases bs) (auto simp: dlist_def)
  ultimately have "links ?h (head # as)" "links ?h (bs @ [head])"
    using links_replace_cong [of "head # as" n p q h] links_replace_cong [of "bs @ [head]" n p q h] seg n by auto
  moreover have "nxt (?h p) = n" "prv (?h n) = p" "nxt (?h n) = q" "prv (?h q) = n" using ne by auto
  ultimately have "links ?h ((head # as) @ [n] @ (bs @ [head]))"
    unfolding links_append_iff [of ?h "head # as"] links_append_iff [of ?h "[n]"] by (simp add: p q)
  with d n show ?thesis unfolding eq by (auto simp: dlist_def)
qed

section \<open>Cutting\<close>

lemma dlist_cut_raw:
  assumes d: "dlist h head (as @ e # bs)" and l: "list \<notin> set (head # as @ e # bs)"
  shows "dlist (list_cut_position_raw list head e h) list (as @ [e])"
    and "dlist (list_cut_position_raw list head e h) head bs"
proof -
  define f q where f: "f = hd (as @ [e])" and q: "q = hd (bs @ [head])"
  let ?h = "set_prev q head (set_next head q (set_next e list (set_prev list e (set_prev f list (set_next list f h)))))"
  have "nxt (h head) = f" "nxt (h e) = q"
    using dlist_nextD [OF d] dlist_split(2) [OF d] f q by (cases as; auto simp: hd_append)+
  then have eq: "list_cut_position_raw list head e h = ?h" by (simp add: list_cut_position_raw_def Let_def)
  have mem: "f \<in> set (as @ [e])" "q \<in> set (bs @ [head])"
    unfolding f q using hd_in_set [of "as @ [e]"] hd_in_set [of "bs @ [head]"] by blast+
  have dist: "distinct (head # as @ e # bs)" using d by (simp add: dlist_def)
  have ring: "links h ([head] @ (as @ [e]) @ (bs @ [head]))" using d by (simp add: dlist_def)
  then have seg: "links h (as @ [e])" "links h (bs @ [head])"
    unfolding links_append_iff [of h "[head]"] links_append_iff [of h "as @ [e]"] by blast+
  have A: "links ?h (as @ [e])"
  proof (subst links_cong [of _ ?h h])
    show "nxt (?h x) = nxt (h x)" if "x \<in> set (butlast (as @ [e]))" for x using that dist l by auto
    show "prv (?h x) = prv (h x)" if "x \<in> set (tl (as @ [e]))" for x
    proof -
      have "x \<noteq> f" using that dist f by (cases as) auto
      moreover have "x \<noteq> q" "x \<noteq> list" using in_set_tlD [OF that] mem(2) dist l by auto
      ultimately show ?thesis by simp
    qed
  qed (rule seg(1))
  have B: "links ?h (bs @ [head])"
  proof (subst links_cong [of _ ?h h])
    show "nxt (?h x) = nxt (h x)" if "x \<in> set (butlast (bs @ [head]))" for x using that dist l by auto
    show "prv (?h x) = prv (h x)" if "x \<in> set (tl (bs @ [head]))" for x
    proof -
      have "x \<noteq> q" using that dist q by (cases bs) auto
      moreover have "x \<noteq> f" "x \<noteq> list" using in_set_tlD [OF that] mem(1) dist l by auto
      ultimately show ?thesis by simp
    qed
  qed (rule seg(2))
  have ne: "f \<noteq> q" "list \<noteq> q" "list \<noteq> f" "e \<noteq> head" "list \<noteq> e" "list \<noteq> head" "head \<noteq> f"
    using mem dist l by auto
  have "links ?h ([list] @ (as @ [e]) @ [list])"
    unfolding links_append_iff [of ?h "[list]"] links_append_iff [of ?h "as @ [e]"]
    using A ne by (auto simp: f hd_append split: if_splits)
  with dist l show "dlist (list_cut_position_raw list head e h) list (as @ [e])"
    unfolding eq by (simp add: dlist_def)
  have "links ?h ([head] @ (bs @ [head]))"
    unfolding links_append_iff [of ?h "[head]"] using B ne by (simp add: q)
  with dist show "dlist (list_cut_position_raw list head e h) head bs"
    unfolding eq by (simp add: dlist_def)
qed

lemma list_cut_position_inside:
  assumes d: "dlist h head (as @ e # bs)"
  shows "list_cut_position list head e h = list_cut_position_raw list head e h"
proof -
  have "\<not> list_empty head h" using dlist_list_empty [OF d] by simp
  moreover have "nxt (h head) = e" if "list_is_singular head h"
    using that dlist_list_is_singular [OF d] dlist_nextD [OF d] by (auto split: list.splits)
  ultimately show ?thesis using d by (auto simp: list_cut_position_def dlist_def)
qed

section \<open>Sequences of operations\<close>

datatype list_op = Add addr | Add_tail addr | Del addr | Replace addr addr | Move addr | Move_tail addr | Rotate_left

fun run_op :: "addr \<Rightarrow> list_op \<Rightarrow> lmem \<Rightarrow> lmem" where
  "run_op head (Add n) = list_add n head"
| "run_op head (Add_tail n) = list_add_tail n head"
| "run_op head (Del e) = list_del_init e"
| "run_op head (Replace e n) = list_replace e n"
| "run_op head (Move e) = list_move e head"
| "run_op head (Move_tail e) = list_move_tail e head"
| "run_op head Rotate_left = list_rotate_left head"

fun seq_op :: "list_op \<Rightarrow> addr list \<Rightarrow> addr list" where
  "seq_op (Add n) xs = n # xs"
| "seq_op (Add_tail n) xs = xs @ [n]"
| "seq_op (Del e) xs = remove1 e xs"
| "seq_op (Replace e n) xs = map (\<lambda>x. if x = e then n else x) xs"
| "seq_op (Move e) xs = e # remove1 e xs"
| "seq_op (Move_tail e) xs = remove1 e xs @ [e]"
| "seq_op Rotate_left xs = rotate1 xs"

text \<open>New nodes are in no ring position yet; the others are entries of the ring.\<close>

fun op_ok :: "addr \<Rightarrow> list_op \<Rightarrow> addr list \<Rightarrow> bool" where
  "op_ok head (Add n) xs \<longleftrightarrow> n \<notin> set (head # xs)"
| "op_ok head (Add_tail n) xs \<longleftrightarrow> n \<notin> set (head # xs)"
| "op_ok head (Del e) xs \<longleftrightarrow> e \<in> set xs"
| "op_ok head (Replace e n) xs \<longleftrightarrow> e \<in> set xs \<and> n \<notin> set (head # xs)"
| "op_ok head (Move e) xs \<longleftrightarrow> e \<in> set xs"
| "op_ok head (Move_tail e) xs \<longleftrightarrow> e \<in> set xs"
| "op_ok head Rotate_left xs \<longleftrightarrow> True"

fun ops_ok :: "addr \<Rightarrow> list_op list \<Rightarrow> addr list \<Rightarrow> bool" where
  "ops_ok head [] xs \<longleftrightarrow> True"
| "ops_ok head (p # ps) xs \<longleftrightarrow> op_ok head p xs \<and> ops_ok head ps (seq_op p xs)"

lemma ring_split:
  assumes "dlist h head xs" and "e \<in> set xs"
  obtains as bs where "xs = as @ e # bs" and "remove1 e xs = as @ bs" and "e \<notin> set as" and "e \<notin> set bs"
proof -
  from split_list [OF assms(2)] obtain as bs where xs: "xs = as @ e # bs" by blast
  with assms(1) have "e \<notin> set as" "e \<notin> set bs" by (auto simp: dlist_def)
  with xs that show ?thesis by (simp add: remove1_append)
qed

lemma run_op_refines:
  assumes d: "dlist h head xs" and ok: "op_ok head p xs"
  shows "dlist (run_op head p h) head (seq_op p xs)"
proof (cases p)
  case (Del e)
  with d ok obtain as bs where "xs = as @ e # bs" "remove1 e xs = as @ bs" by (auto elim: ring_split)
  with Del d show ?thesis using dlist_del_init(1) by simp
next
  case (Replace e n)
  with d ok obtain as bs where xs: "xs = as @ e # bs" "e \<notin> set as" "e \<notin> set bs" by (auto elim: ring_split)
  then have "map (\<lambda>x. if x = e then n else x) xs = as @ n # bs"
    by (auto intro!: map_idI)
  with Replace d ok xs show ?thesis using dlist_replace by simp
next
  case (Move e)
  with d ok obtain as bs where "xs = as @ e # bs" "remove1 e xs = as @ bs" by (auto elim: ring_split)
  with Move d show ?thesis using dlist_move(1) by simp
next
  case (Move_tail e)
  with d ok obtain as bs where "xs = as @ e # bs" "remove1 e xs = as @ bs" by (auto elim: ring_split)
  with Move_tail d show ?thesis using dlist_move(2) by simp
qed (use d ok in \<open>auto intro: dlist_add dlist_add_tail dlist_rotate_left\<close>)

lemma run_ops_refine:
  "dlist h head xs \<Longrightarrow> ops_ok head ps xs \<Longrightarrow> dlist (fold (run_op head) ps h) head (fold seq_op ps xs)"
  by (induction ps arbitrary: h xs) (auto intro: run_op_refines)

section \<open>Properties\<close>

text \<open>
  C9: Any sequence of insertions, removals, replacements, moves and rotations on a ring, applied to
  entries as their comments require, leaves a well-formed ring that holds what the same operations make of the
  sequence of entries, and \<^verbatim>\<open>list_for_each\<close> visits exactly that sequence.
\<close>

theorem list_ops_refine_sequence:
  assumes "dlist h head xs" and "ops_ok head ps xs"
  shows "dlist (fold (run_op head) ps h) head (fold seq_op ps xs) \<and>
    list_for_each (length (fold seq_op ps xs)) (fold (run_op head) ps h) head = Some (fold seq_op ps xs)"
  using run_ops_refine [OF assms] dlist_for_each by blast

theorem list_ops_refine_sequence_witness:
  "let ps = [Add 1, Add_tail 2, Add 3, Rotate_left, Move_tail 1, Replace 2 5, Del 3]; h = INIT_LIST_HEAD 9 (\<lambda>_. \<lparr>nxt = 0, prv = 0\<rparr>)
   in dlist (fold (run_op 9) ps h) 9 [5, 1] \<and> list_for_each 2 (fold (run_op 9) ps h) 9 = Some [5, 1]"
  using list_ops_refine_sequence [OF dlist_INIT, of 9 "[Add 1, Add_tail 2, Add 3, Rotate_left, Move_tail 1, Replace 2 5, Del 3]"]
  by (simp add: numeral_2_eq_2)

text \<open>
  Cutting a list at an entry moves the entries up to that one to the other list and keeps the rest,
  and splicing them back restores the list and leaves the other one empty.
\<close>

theorem list_cut_splice_restores:
  assumes "dlist h head (as @ e # bs)" and "list \<notin> set (head # as @ e # bs)"
  defines "h' \<equiv> list_cut_position list head e h"
  shows "dlist h' list (as @ [e]) \<and> dlist h' head bs \<and>
    dlist (list_splice_init list head h') head (as @ e # bs) \<and> dlist (list_splice_init list head h') list []"
proof -
  have cut: "dlist h' list (as @ [e])" "dlist h' head bs"
    unfolding h'_def list_cut_position_inside [OF assms(1)] using dlist_cut_raw [OF assms(1,2)] by auto
  have "set (list # as @ [e]) \<inter> set (head # bs) = {}" using assms(1,2) by (auto simp: dlist_def)
  from dlist_splice_init [OF cut(2,1) this] cut show ?thesis by simp
qed

theorem list_cut_splice_restores_witness:
  "let h = list_add_tail 3 9 (list_add_tail 2 9 (list_add_tail 1 9 (INIT_LIST_HEAD 9 (\<lambda>_. \<lparr>nxt = 0, prv = 0\<rparr>))));
       h' = list_cut_position 8 9 2 h
   in dlist h' 8 [1, 2] \<and> dlist h' 9 [3] \<and> dlist (list_splice_init 8 9 h') 9 [1, 2, 3] \<and> dlist (list_splice_init 8 9 h') 8 []"
proof -
  have "dlist (list_add_tail 3 9 (list_add_tail 2 9 (list_add_tail 1 9 (INIT_LIST_HEAD 9 (\<lambda>_. \<lparr>nxt = 0, prv = 0\<rparr>)))))
      9 ([1] @ 2 # [3])"
    using dlist_add_tail [OF dlist_add_tail [OF dlist_add_tail [OF dlist_INIT]]] by simp
  from list_cut_splice_restores [OF this, of 8] show ?thesis by simp
qed

end
