(* ===== verification/Deai_Text_Props.thy ===== *)
theory Deai_Text_Props
  imports Deai_String_Buf Deai_Os Deai_Log
begin

text \<open>
  Properties of the string functions, the string buffer, and the modules that work on text: the
  environment, directory listing and log levels.
\<close>

section \<open>Strings\<close>

lemma string_join_eq:
  "di_string_join junk strs sep =
     Some (if strs = [] then DI_STRING_INIT else Some (intercalate (str_bytes sep) (map str_bytes strs)))"
proof (cases "strs = []")
  case False
  then have len: "length (intercalate (str_bytes sep) (map str_bytes strs)) =
      sum_list (map str_length strs) + str_length sep * (length strs - 1)"
    by (simp add: length_intercalate o_def)
  from join_loop_intercalate [of 0 strs "length strs" 0 sep
      "replicate (sum_list (map str_length strs) + str_length sep * (length strs - 1)) junk"] len False
  show ?thesis by (simp add: di_string_join_def Let_def)
qed (simp add: di_string_join_def)

lemma split_once_iff:
  "di_string_split_once s sep = Some (a, b) \<longleftrightarrow>
     (\<exists>x y. a = Some x \<and> b = Some y \<and> str_bytes s = x @ sep # y \<and> sep \<notin> set x)"
proof
  assume "di_string_split_once s sep = Some (a, b)"
  then obtain pos where pos: "memchr (str_bytes s) sep = Some pos"
    and ab: "a = Some (take pos (str_bytes s))" "b = Some (drop (Suc pos) (str_bytes s))"
    by (auto simp: di_string_split_once_def Let_def split: option.splits simp flip: length_str_bytes)
  from pos have "pos < length (str_bytes s)" "str_bytes s ! pos = sep" "sep \<notin> set (take pos (str_bytes s))"
    unfolding memchr_Some by blast+
  with ab id_take_nth_drop [of pos "str_bytes s"]
  show "\<exists>x y. a = Some x \<and> b = Some y \<and> str_bytes s = x @ sep # y \<and> sep \<notin> set x" by blast
next
  assume "\<exists>x y. a = Some x \<and> b = Some y \<and> str_bytes s = x @ sep # y \<and> sep \<notin> set x"
  then obtain x y where ab: "a = Some x" "b = Some y" and s: "str_bytes s = x @ sep # y" and x: "sep \<notin> set x"
    by blast
  have "memchr (str_bytes s) sep = Some (length x)" unfolding memchr_Some s using x by simp
  with ab s show "di_string_split_once s sep = Some (a, b)"
    by (simp add: di_string_split_once_def Let_def flip: length_str_bytes)
qed

text \<open>
  Joining strings writes exactly the strings with the separator between them, never outside the buffer it
  computed in advance and whatever that buffer held before.
\<close>

theorem string_join_is_intercalation:
  "di_string_join junk strs sep =
     Some (if strs = [] then DI_STRING_INIT else Some (intercalate (str_bytes sep) (map str_bytes strs)))"
  by (rule string_join_eq)

text \<open>
  Splitting a string at a separator and joining the two parts with it gives back the string; the split
  is at the first separator, and it fails only when there is none.
\<close>

theorem string_split_join:
  "case di_string_split_once s sep of
     None \<Rightarrow> sep \<notin> set (str_bytes s)
   | Some (a, b) \<Rightarrow> sep \<notin> set (str_bytes a) \<and> di_string_join junk [a, b] (Some [sep]) = Some (Some (str_bytes s))"
proof (cases "di_string_split_once s sep")
  case None
  then show ?thesis by (auto simp: di_string_split_once_def memchr_None Let_def split: option.splits)
next
  case (Some ab)
  then obtain a b where ab: "di_string_split_once s sep = Some (a, b)" by (cases ab) auto
  then show ?thesis
    unfolding split_once_iff by (auto simp: ab string_join_eq split_once_iff)
qed

section \<open>Views\<close>

text \<open>
  C32: A view of a string is out of bounds exactly when the sum of its start and its length wraps around to a value
  the string covers; every other view is the bytes it names, cut at the end of the string.
\<close>

theorem substring_bounds:
  assumes "str_length str < 2 ^ 64" and "len < 2 ^ 64"
  shows "di_substring str start len =
    (if start < str_length str \<and> 2 ^ 64 \<le> start + len \<and> start + len - 2 ^ 64 \<le> str_length str then Inl Out_of_bounds
     else if start < str_length str \<and> len \<noteq> 0 then Inr (Some (take len (drop start (str_bytes str))))
     else Inr DI_STRING_INIT)"
proof (cases "start < str_length str \<and> len \<noteq> 0")
  case False
  then show ?thesis using assms by (auto simp: di_substring_def)
next
  case True
  show ?thesis
  proof (cases "2 ^ 64 \<le> start + len")
    case wrap: True
    with True assms have "(start + len) mod 2 ^ 64 = start + len - 2 ^ 64"
      by (subst le_mod_geq) auto
    with True wrap assms show ?thesis
      by (auto simp: di_substring_def Let_def take_all_iff simp flip: length_str_bytes)
  next
    case False
    then have "(start + len) mod 2 ^ 64 = start + len" by simp
    with True False show ?thesis
      by (auto simp: di_substring_def Let_def simp flip: length_str_bytes)
  qed
qed

theorem substring_bounds_witness:
  "di_substring (Some ''deai'') 2 (2 ^ 64 - 1) = Inl Out_of_bounds"
  using substring_bounds [of "Some ''deai''" "2 ^ 64 - 1" 2] by simp

section \<open>The string buffer\<close>

text \<open>
  Dumping a string buffer returns everything that was pushed, in order, in a buffer of exactly the right size,
  and leaves the string buffer empty.
\<close>

theorem string_buf_dump_all:
  assumes "\<forall>s \<in> set ss. NUL \<notin> set s"
  shows "string_buf_dump junk (foldl string_buf_push string_buf_new ss) = Some (concat ss, string_buf_new)"
  using assms by (intro sbuf.dump_all) blast

theorem string_buf_dump_all_witness:
  "string_buf_dump CHR ''x'' (foldl string_buf_push string_buf_new [''ab'', [], ''c'']) = Some (''abc'', string_buf_new)"
  using string_buf_dump_all [of "[''ab'', [], ''c'']" "CHR ''x''"] by simp

text \<open>
  A chunk pushed with its length that contains a NUL byte makes the next dump write outside its buffer: the stored
  copy ends at the NUL but keeps the length.
\<close>

theorem string_buf_NUL_overflows:
  assumes "\<forall>s \<in> set ss. NUL \<notin> set s" and "NUL \<in> set (take len str)" and "len \<le> length str"
  shows "string_buf_dump junk (string_buf_lpush (foldl string_buf_push string_buf_new ss) str len) = None"
  using assms by (intro string_buf_dump_NUL sbuf.push_all_ok buf_ok_new) blast+

theorem string_buf_NUL_overflows_witness:
  "string_buf_dump CHR ''x'' (string_buf_lpush (foldl string_buf_push string_buf_new [''ab'']) [CHR ''c'', NUL, CHR ''d''] 3) = None"
  using string_buf_NUL_overflows [of "[''ab'']" 3 "[CHR ''c'', NUL, CHR ''d'']" "CHR ''x''"] by simp

section \<open>The environment\<close>

lemma c_setenv_get:
  "env_name_ok k \<Longrightarrow> c_getenv k' (c_setenv k v w) = (if k' = k then Some v else c_getenv k' w)"
  by (auto simp: c_getenv_def c_setenv_def hash_find_add hash_find_set hash_find_None)

lemma c_unsetenv_get:
  "env_name_ok k \<Longrightarrow> distinct (hash_keys (environ w)) \<Longrightarrow>
   c_getenv k' (c_unsetenv k w) = (if k' = k then None else c_getenv k' w)"
  by (simp add: c_getenv_def c_unsetenv_def hash_find_del)

lemma c_setenv_distinct: "distinct (hash_keys (environ w)) \<Longrightarrow> distinct (hash_keys (environ (c_setenv k v w)))"
  by (simp add: c_setenv_def distinct_hash_add hash_keys_set)

text \<open>A non-empty text without NUL bytes reaches the C library unchanged.\<close>

lemma to_chars_alloc_ok: "s \<noteq> [] \<Longrightarrow> di_string_to_chars_alloc (Some s) = Some (s @ [NUL])"
  by (simp add: di_string_to_chars_alloc_def di_string_to_chars_def)

lemma env_get_eq:
  "k \<noteq> [] \<Longrightarrow> NUL \<notin> set k \<Longrightarrow> di_env_get (Some k) w =
     Ret (V_variant (case c_getenv k w of None \<Rightarrow> V_last | Some s \<Rightarrow> V_string_literal s)) w"
  by (simp add: di_env_get_def to_chars_alloc_ok c_str_append_NUL mget_apply mbind_Ret mret_apply split: option.splits)

lemma env_set_eq:
  "k \<noteq> [] \<Longrightarrow> NUL \<notin> set k \<Longrightarrow> v \<noteq> [] \<Longrightarrow> NUL \<notin> set v \<Longrightarrow> di_env_set (Some k) (Some v) w = Ret () (c_setenv k v w)"
  by (simp add: di_env_set_def to_chars_alloc_ok c_str_append_NUL mmodify_apply)

lemma env_unset_eq: "k \<noteq> [] \<Longrightarrow> NUL \<notin> set k \<Longrightarrow> di_env_unset (Some k) w = Ret () (c_unsetenv k w)"
  by (simp add: di_env_unset_def to_chars_alloc_ok c_str_append_NUL mmodify_apply)

text \<open>
  Reading a variable after setting it returns the value that was set, after unsetting it there is no such property,
  and the other variables keep their values throughout.
\<close>

theorem env_set_get_unset:
  assumes "env_name_ok k" and "NUL \<notin> set k" and "v \<noteq> []" and "NUL \<notin> set v" and "distinct (hash_keys (environ w))"
  shows "\<exists>w1 w2. di_env_set (Some k) (Some v) w = Ret () w1 \<and> di_env_get (Some k) w1 = Ret (V_variant (V_string_literal v)) w1 \<and>
    di_env_unset (Some k) w1 = Ret () w2 \<and> di_env_get (Some k) w2 = Ret (V_variant V_last) w2 \<and>
    (\<forall>k'. k' \<noteq> k \<longrightarrow> c_getenv k' w1 = c_getenv k' w \<and> c_getenv k' w2 = c_getenv k' w)"
proof -
  have k: "k \<noteq> []" using assms(1) by (simp add: env_name_ok_def)
  show ?thesis
    using k assms by (simp add: env_set_eq env_get_eq env_unset_eq c_setenv_get c_unsetenv_get c_setenv_distinct)
qed

theorem env_set_get_unset_witness:
  "\<exists>w1 w2. di_env_set (Some ''A'') (Some ''1'') empty_world = Ret () w1 \<and>
    di_env_get (Some ''A'') w1 = Ret (V_variant (V_string_literal ''1'')) w1 \<and>
    di_env_unset (Some ''A'') w1 = Ret () w2 \<and> di_env_get (Some ''A'') w2 = Ret (V_variant V_last) w2"
  using env_set_get_unset [of "''A''" "''1''" empty_world] by (auto simp: env_name_ok_def empty_world_def)

section \<open>Directories\<close>

lemma listdir_loop_eq:
  "length acc \<le> capacity \<Longrightarrow>
   listdir_loop ents capacity acc = Some (acc @ map Some (filter (\<lambda>e. e \<noteq> ''.'' \<and> e \<noteq> ''..'') ents))"
  by (induction ents capacity acc rule: listdir_loop.induct) (auto simp: Let_def di_string_dup_def)

text \<open>
  Listing a directory returns its entries in the order they are read, without the two special ones, and never writes
  past the end of the array it grows.
\<close>

theorem listdir_entries:
  assumes "path \<noteq> []"
  shows "di_listdir (Some ents) (Some path) w =
    Ret (V_array DI_TYPE_STRING (map (V_string \<circ> Some) (filter (\<lambda>e. e \<noteq> ''.'' \<and> e \<noteq> ''..'') ents))) w"
  using assms by (simp add: di_listdir_def to_chars_alloc_ok listdir_loop_eq mret_apply)

theorem listdir_entries_witness:
  "di_listdir (Some [''.'', ''a'', ''..'', ''b'']) (Some ''/tmp'') empty_world =
     Ret (V_array DI_TYPE_STRING [V_string (Some ''a''), V_string (Some ''b'')]) empty_world"
  using listdir_entries [of "''/tmp''" "[''.'', ''a'', ''..'', ''b'']" empty_world] by simp

section \<open>Log levels\<close>

lemma strncmp_eq_own_length:
  "NUL \<notin> set as \<Longrightarrow> NUL \<notin> set bs \<Longrightarrow> strncmp_eq as bs (length as) \<longleftrightarrow> prefix as bs"
proof (induction as arbitrary: bs)
  case (Cons a as)
  then show ?case by (cases bs) auto
qed simp

lemma c_tolower_NUL: "c_tolower c = NUL \<longleftrightarrow> c = NUL"
proof -
  have "c_tolower c \<noteq> NUL" if "c \<noteq> NUL"
  proof
    assume *: "c_tolower c = NUL"
    show False
    proof (cases "65 \<le> (of_char c :: nat) \<and> (of_char c :: nat) \<le> 90")
      case True
      with * have "(of_char (char_of ((of_char c :: nat) + 32)) :: nat) = of_char NUL" by (simp add: c_tolower_def Let_def)
      with True show False by (simp add: take_bit_nat_eq_self)
    qed (use * that in \<open>auto simp: c_tolower_def Let_def\<close>)
  qed
  then show ?thesis by (auto simp: c_tolower_def)
qed

lemma level_matches:
  assumes "NUL \<notin> set s" and "NUL \<notin> set name"
  shows "strncasecmp_eq s name (length s) \<longleftrightarrow> prefix (map c_tolower s) (map c_tolower name)"
proof -
  have "NUL \<notin> set (map c_tolower xs)" if "NUL \<notin> set xs" for xs
    using that by (auto simp: image_iff dest: c_tolower_NUL [THEN iffD1, OF sym])
  from strncmp_eq_own_length [OF this [OF assms(1)] this [OF assms(2)]] show ?thesis
    by (simp add: strncasecmp_eq_def)
qed

text \<open>
  Setting the log level accepts exactly the prefixes of the four level names, in any case and the empty text included,
  reads back the full name of the first one that matches, and refuses everything else without a change.
\<close>

theorem set_log_level_reads_back:
  assumes "NUL \<notin> set s" and "objs w l = Some ob" and "payload ob = P_log n"
  shows "(case find (\<lambda>name. prefix (map c_tolower s) name) [''error'', ''warn'', ''info'', ''debug''] of
     None \<Rightarrow> set_log_level l (Some s) w = Ret (-1) w
   | Some name \<Rightarrow> \<exists>w'. set_log_level l (Some s) w = Ret 0 w' \<and> get_log_level l w' = Ret name w')"
  using assms
  by (simp add: set_log_level_def level_lookup_def level_matches c_tolower_def di_set_log_level_def log_level_defs
      get_log_level_def get_level_def level_tostring_def heap_simps outcome_simps mseq_Ret mbind_Ret)

theorem set_log_level_reads_back_witness:
  "\<exists>w'. set_log_level 2 (Some ''wa'') (empty_world\<lparr>objs := [2 \<mapsto> di_init_object (P_log 0)]\<rparr>) = Ret 0 w' \<and>
     get_log_level 2 w' = Ret ''warn'' w'"
proof -
  have "payload (di_init_object (P_log 0)) = P_log 0" by (simp add: di_init_object_def)
  from set_log_level_reads_back [of "''wa''" "empty_world\<lparr>objs := [2 \<mapsto> di_init_object (P_log 0)]\<rparr>" 2, OF _ _ this]
  show ?thesis by (simp add: c_tolower_def)
qed

end
