(* ===== verification/Deai_Conv_Props.thy ===== *)
theory Deai_Conv_Props
  imports Deai_Conv Deai_Memory
begin

text \<open>
  Properties of the conversions: numbers are converted exactly or not at all, a converted value has
  the type that was asked for, and an owning conversion neither loses nor invents references.
\<close>

section \<open>Numbers\<close>

definition int_min :: "nat \<Rightarrow> bool \<Rightarrow> int" where
  "int_min bits uns = (if uns then 0 else - (2 ^ (bits - 1)))"

definition int_max :: "nat \<Rightarrow> bool \<Rightarrow> int" where
  "int_max bits uns = (if uns then 2 ^ bits - 1 else 2 ^ (bits - 1) - 1)"

abbreviation fits :: "nat \<Rightarrow> bool \<Rightarrow> int \<Rightarrow> bool" where
  "fits bits uns n \<equiv> int_min bits uns \<le> n \<and> n \<le> int_max bits uns"

text \<open>The integer a value stands for, through any number of variants around it.\<close>

fun int_value :: "di_variant \<Rightarrow> int option" where
  "int_value (V_variant v) = int_value v"
| "int_value v = map_option chk_value (checked_of v)"

lemma chk_to_int_exact: "0 < bits \<Longrightarrow> chk_to_int bits c = (if fits bits False (chk_value c) then Some (chk_value c) else None)"
  by (cases c) (auto simp: int_min_def int_max_def intro: order_trans [OF _ uint_ge_0])

lemma uint_mod_small: "(0 :: int) \<le> n \<Longrightarrow> n mod 2 ^ bits = n \<longleftrightarrow> n < 2 ^ bits"
  by (metis mod_pos_pos_trivial pos_mod_bound zero_less_numeral zero_less_power)

lemma chk_to_uint_exact: "chk_to_uint bits c = (if fits bits True (chk_value c) then Some (chk_value c) else None)"
  by (cases c) (auto simp: int_min_def int_max_def Let_def uint_mod_small not_less)

lemma chk_exact:
  "0 < bits \<Longrightarrow> (if uns then chk_to_uint bits c else chk_to_int bits c) =
     (if fits bits uns (chk_value c) then Some (chk_value c) else None)"
  using chk_to_int_exact [of bits c] chk_to_uint_exact [of bits c] by (cases uns) simp_all

lemma convert_int_exact:
  assumes "int_value v = Some n" and "0 < bits"
  shows "convert_int bits uns v = mret (if fits bits uns n then Some n else None)"
  using assms
  by (induction v rule: int_value.induct)
    (simp_all add: chk_exact del: chk_to_int.simps chk_to_uint.simps chk_value.simps)



section \<open>Result types\<close>

lemma number_direct_type: "number_direct t v = Some (Some v') \<Longrightarrow> typeof v' = t"
  by (auto simp: number_direct_def split: option.splits di_type.splits di_variant.splits if_splits)

lemma direct_borrowed_type: "direct_borrowed t v = Some (Some v') \<Longrightarrow> typeof v' = t"
  by (cases t; cases v) (auto split: list.splits if_splits dest: number_direct_type)

lemma convert_borrowed_type: "convert_borrowed t v w = Ret (Some v') w' \<Longrightarrow> typeof v' = t"
  by (induction t v rule: convert_borrowed.induct)
    (auto simp: outcome_simps dest: direct_borrowed_type split: option.splits)

lemma tuple_to_array_type: "tuple_to_array es w = Ret (Some v', left) w' \<Longrightarrow> typeof v' = DI_TYPE_ARRAY"
  by (auto simp: tuple_to_array_def outcome_simps split: list.splits option.splits if_splits)

lemma array_to_tuple_type: "array_to_tuple t es w = Ret (Some v', left) w' \<Longrightarrow> typeof v' = DI_TYPE_TUPLE"
  by (auto simp: array_to_tuple_def outcome_simps split: option.splits if_splits)

lemma direct_owned_type:
  "direct_owned t v = Some m \<Longrightarrow> m w = Ret (Some v', left) w' \<Longrightarrow> typeof v' = t"
  by (cases t; cases v)
    (auto simp: outcome_simps mbind_eq_Ret split: option.splits if_splits
      dest: number_direct_type tuple_to_array_type array_to_tuple_type)

lemma convert_owned_type: "convert_owned E t v w = Ret (Some v') w' \<Longrightarrow> typeof v' = t"
proof (induction E t v arbitrary: w rule: convert_owned.induct)
  case (1 E t v)
  show ?case
  proof (cases "direct_owned t v")
    case None
    with 1 show ?thesis
      by (auto simp: convert_owned.simps [of E t v] mseq_eq_Ret outcome_simps split: option.splits)
  next
    case (Some m)
    with "1.prems" obtain left w1 where "m w = Ret (Some v', left) w1"
      by (auto simp: convert_owned.simps [of E t v] mbind_eq_Ret mseq_eq_Ret outcome_simps)
    with Some show ?thesis by (rule direct_owned_type)
  qed
qed



section \<open>Weak references\<close>

text \<open>An object can be reached through a weak reference while it is alive and not taken for garbage.\<close>

definition upgradable :: "di_object_internal \<Rightarrow> bool" where
  "upgradable ob \<longleftrightarrow> ref_count ob \<noteq> 0 \<and> mark ob = 0"

lemma upgrade_ok:
  assumes ok: "heap_ok B ext wext w" and ob: "objs w a = Some ob" and room: "unat (ref_count ob) + 1 < 2 ^ 64"
  shows "\<exists>w'. di_upgrade_weak_ref a w = Ret (if upgradable ob then Some a else None) w' \<and> same_shape w w' \<and>
    heap_ok B (if upgradable ob then ext(a := Suc (ext a)) else ext) wext w'"
proof -
  note oka = heap_okD(4) [OF ok ob, unfolded obj_ok_def]
  have up: "di_upgrade_weak_ref a w =
      (if upgradable ob then mbind (di_ref_object a) (\<lambda>r. mret (Some r)) w else Ret None w)"
    using ob oka by (auto simp: di_upgrade_weak_ref_def upgradable_def outcome_simps heap_simps mbind_Ret mseq_Ret word_gt_0)
  show ?thesis
  proof (cases "upgradable ob")
    case True
    then have "a \<in> live w" using ob by (auto simp: live_def upgradable_def)
    moreover have "strong_in (objs w) a + ext a + 1 < 2 ^ 64" using room oka by simp
    ultimately obtain w' where "di_ref_object a w = Ret a w'" "heap_ok B (ext(a := Suc (ext a))) wext w'" "same_shape w w'"
      using ref_object_ok [OF ok] by blast
    with True up show ?thesis by (auto simp: outcome_simps mbind_Ret)
  qed (use up ok in \<open>auto simp: same_shape_refl\<close>)
qed

text \<open>
  C28: Upgrading a weak reference gives a new strong reference exactly when the object is alive and not being collected, with
  its count raised by one, and nothing otherwise; the heap stays consistent.
\<close>

theorem upgrade_weak_ref_iff_alive:
  assumes "heap_ok {} ext wext w" and "objs w a = Some ob" and "unat (ref_count ob) + 1 < 2 ^ 64"
  shows "\<exists>w'. di_upgrade_weak_ref a w = Ret (if upgradable ob then Some a else None) w' \<and>
    heap_ok {} (if upgradable ob then ext(a := Suc (ext a)) else ext) wext w'"
  using upgrade_ok [OF assms] by blast

theorem upgrade_weak_ref_iff_alive_witness:
  "\<exists>w'. di_upgrade_weak_ref 3 demo_world = Ret (Some 3) w' \<and> heap_ok {} (demo_ext(3 := 1)) (\<lambda>_. 0) w'"
  using upgrade_weak_ref_iff_alive [OF demo_heap_ok, of 3 "demo_obj 1 [(''peer'', V_object 4)]"]
  by (simp add: demo_world_def demo_heap_def demo_obj_def upgradable_def di_init_object_def demo_ext_def)

section \<open>References of converted values\<close>

text \<open>
  The direct conversions that keep the references in order.  The others are defects of the
  converter: a variant made from a value still refers to what the destructor of the converter
  frees, an array made from a tuple of one element points into freed storage, and the weak
  reference made from nil is not counted.
\<close>

definition direct_sound :: "di_type \<Rightarrow> di_variant \<Rightarrow> bool" where
  "direct_sound t v \<longleftrightarrow>
     (t = DI_TYPE_VARIANT \<longrightarrow> \<not> owns_storage v \<and> refs_of v = [] \<and> weak_refs_of v = []) \<and>
     (t = DI_TYPE_ARRAY \<longrightarrow> (\<forall>x. v \<noteq> V_tuple [x])) \<and>
     (t = DI_TYPE_WEAK_OBJECT \<longrightarrow> v \<noteq> V_nil)"

function conv_sound :: "di_type \<Rightarrow> di_variant \<Rightarrow> bool" where
  "conv_sound t v \<longleftrightarrow> direct_sound t v \<and>
     (direct_owned t v = None \<longrightarrow> (case inner_of v of None \<Rightarrow> True | Some x \<Rightarrow> conv_sound t x))"
  by pat_completeness auto
termination
  by (relation "measure (\<lambda>(t, v). size v)") (auto intro: inner_of_size)

declare conv_sound.simps [simp del]

definition opt_refs :: "di_variant option \<Rightarrow> addr list" where
  "opt_refs r = (case r of None \<Rightarrow> [] | Some v \<Rightarrow> refs_of v)"

definition opt_weak_refs :: "di_variant option \<Rightarrow> addr list" where
  "opt_weak_refs r = (case r of None \<Rightarrow> [] | Some v \<Rightarrow> weak_refs_of v)"

text \<open>A direct conversion that makes no new reference divides those of its input.\<close>

definition divides_refs :: "di_variant \<Rightarrow> di_variant option \<Rightarrow> di_variant \<Rightarrow> bool" where
  "divides_refs v r left \<longleftrightarrow> wt_value left \<and>
     (\<forall>a. count_list (opt_refs r) a + count_list (refs_of left) a = count_list (refs_of v) a) \<and>
     (\<forall>a. count_list (opt_weak_refs r) a + count_list (weak_refs_of left) a = count_list (weak_refs_of v) a)"

lemma mret_inject [simp]: "mret x = mret y \<longleftrightarrow> x = y"
  by (auto simp: mret_def fun_eq_iff)

lemma number_direct_plain:
  "number_direct t v = Some r \<Longrightarrow> refs_of v = [] \<and> weak_refs_of v = [] \<and> opt_refs r = [] \<and> opt_weak_refs r = []"
  by (cases v) (auto simp: number_direct_def opt_refs_def opt_weak_refs_def split: di_type.splits option.splits if_splits)

lemma tuple_to_array_divides:
  assumes "wt_value (V_tuple es)" and "\<And>x. es \<noteq> [x]"
  shows "\<exists>r left. tuple_to_array es = mret (r, left) \<and> divides_refs (V_tuple es) r left"
proof (cases es)
  case (Cons x xs)
  with assms obtain y ys where es: "es = x # y # ys" by (cases xs) auto
  with assms(1) sizeof_wt [of x] show ?thesis
    by (auto simp: tuple_to_array_def divides_refs_def opt_refs_def opt_weak_refs_def)
qed (simp add: tuple_to_array_def divides_refs_def opt_refs_def opt_weak_refs_def)

lemma array_to_tuple_divides:
  assumes "wt_value (V_array t es)"
  shows "\<exists>r left. array_to_tuple t es = mret (r, left) \<and> divides_refs (V_array t es) r left"
proof (cases es)
  case (Cons x xs)
  with assms sizeof_wt [of x] show ?thesis
    by (auto simp: array_to_tuple_def divides_refs_def opt_refs_def opt_weak_refs_def)
qed (simp add: array_to_tuple_def divides_refs_def opt_refs_def opt_weak_refs_def)

lemma direct_owned_divides:
  assumes "direct_owned t v = Some m" and "direct_sound t v" and "wt_value v"
    and "\<not> (t = DI_TYPE_OBJECT \<and> typeof v = DI_TYPE_WEAK_OBJECT)"
    and "\<not> (t = DI_TYPE_WEAK_OBJECT \<and> refs_of v \<noteq> [])"
  shows "\<exists>r left. m = mret (r, left) \<and> divides_refs v r left"
proof (cases "t \<in> {DI_TYPE_INT, DI_TYPE_UINT, DI_TYPE_NINT, DI_TYPE_NUINT, DI_TYPE_FLOAT}")
  case True
  then have "direct_owned t v = map_option (\<lambda>r. mret (r, v)) (number_direct t v)" by auto
  with assms(1,3) show ?thesis by (auto simp: divides_refs_def dest: number_direct_plain)
next
  case False
  show ?thesis
  proof (cases "(t = DI_TYPE_ARRAY \<and> typeof v = DI_TYPE_TUPLE) \<or> (t = DI_TYPE_TUPLE \<and> typeof v = DI_TYPE_ARRAY)")
    case True
    then show ?thesis
      using assms tuple_to_array_divides array_to_tuple_divides
      by (cases v) (auto simp: direct_sound_def)
  next
    case no: False
    show ?thesis
      using False no assms(1) [symmetric] assms(2-)
      by (cases t; cases v)
        (simp_all add: direct_sound_def divides_refs_def opt_refs_def opt_weak_refs_def)
  qed
qed

lemma direct_weak_to_object:
  assumes ok: "heap_ok {} ext (\<lambda>b. wext b + count_list [a] b) w" and room: "count_room 3 w"
    and m: "direct_owned DI_TYPE_OBJECT (V_weak_object a) = Some m"
  shows "\<exists>r w1. m w = Ret (r, V_weak_object a) w1 \<and> same_shape w w1 \<and> opt_weak_refs r = [] \<and>
    heap_ok {} (\<lambda>b. ext b + count_list (opt_refs r) b) (\<lambda>b. wext b + count_list [a] b) w1"
proof -
  from heap_ok_wext_obj [OF ok, of a] obtain ob where ob: "objs w a = Some ob" by auto
  with room have "unat (ref_count ob) + 1 < 2 ^ 64" unfolding count_room_def by fastforce
  from upgrade_ok [OF ok ob this] obtain w1 where w1: "di_upgrade_weak_ref a w = Ret (if upgradable ob then Some a else None) w1"
    "same_shape w w1" "heap_ok {} (if upgradable ob then ext(a := Suc (ext a)) else ext) (\<lambda>b. wext b + count_list [a] b) w1"
    by blast
  let ?r = "if upgradable ob then Some (V_object a) else None"
  have "m w = Ret (?r, V_weak_object a) w1" using m w1(1) by (auto simp: outcome_simps mbind_Ret)
  moreover have "(\<lambda>b. ext b + count_list (opt_refs ?r) b) = (if upgradable ob then ext(a := Suc (ext a)) else ext)"
    by (auto simp: opt_refs_def fun_eq_iff)
  moreover have "opt_weak_refs ?r = []" by (simp add: opt_weak_refs_def)
  ultimately show ?thesis using w1(2,3) by (intro exI [of _ ?r] exI [of _ w1]) (simp only:)
qed

lemma direct_object_to_weak:
  assumes ok: "heap_ok {} (\<lambda>b. ext b + count_list [a] b) wext w" and room: "count_room 3 w"
    and v: "v = V_object a \<or> v = V_empty_object a" and m: "direct_owned DI_TYPE_WEAK_OBJECT v = Some m"
  shows "\<exists>w1. m w = Ret (Some (V_weak_object a), v) w1 \<and> same_shape w w1 \<and>
    heap_ok {} (\<lambda>b. ext b + count_list [a] b) (\<lambda>b. wext b + count_list [a] b) w1"
proof -
  from heap_ok_ext_obj [OF ok, of a] obtain ob where ob: "objs w a = Some ob" "ref_count ob \<noteq> 0" by auto
  with room have "unat (weak_ref_count ob) + 3 < 2 ^ 64" by (simp add: count_room_def)
  with heap_okD(4) [OF ok ob(1)] have "weak_in (objs w) a + wext a + 2 < 2 ^ 64" by (simp add: obj_ok_def)
  from weakly_ref_object_ok [OF ok ob(1) this] obtain w1 where w1: "di_weakly_ref_object a w = Ret a w1" "same_shape w w1"
    "heap_ok {} (\<lambda>b. ext b + count_list [a] b) (wext(a := Suc (wext a))) w1" by blast
  have "m w = Ret (Some (V_weak_object a), v) w1" using m v w1(1) by (auto simp: outcome_simps mbind_Ret)
  moreover have "(\<lambda>b. wext b + count_list [a] b) = wext(a := Suc (wext a))" by (auto simp: fun_eq_iff)
  ultimately show ?thesis using w1(2,3) by simp
qed

text \<open>Every sound direct conversion: what it returns and what it leaves account for the references.\<close>

lemma direct_owned_ok:
  assumes m: "direct_owned t v = Some m" and snd: "direct_sound t v" and wt: "wt_value v" and room: "count_room 3 w"
    and ok: "heap_ok {} (\<lambda>a. ext a + count_list (refs_of v) a) (\<lambda>a. wext a + count_list (weak_refs_of v) a) w"
  shows "\<exists>r left w1. m w = Ret (r, left) w1 \<and> wt_value left \<and> same_shape w w1 \<and>
    heap_ok {} (\<lambda>a. (ext a + count_list (opt_refs r) a) + count_list (refs_of left) a)
      (\<lambda>a. (wext a + count_list (opt_weak_refs r) a) + count_list (weak_refs_of left) a) w1"
proof -
  consider (up) a where "t = DI_TYPE_OBJECT" "v = V_weak_object a"
    | (down) a where "t = DI_TYPE_WEAK_OBJECT" "v = V_object a \<or> v = V_empty_object a"
    | (plain) "\<not> (t = DI_TYPE_OBJECT \<and> typeof v = DI_TYPE_WEAK_OBJECT)" "\<not> (t = DI_TYPE_WEAK_OBJECT \<and> refs_of v \<noteq> [])"
    using m by (cases "t = DI_TYPE_WEAK_OBJECT"; cases v) auto
  then show ?thesis
  proof cases
    case up
    with ok have "heap_ok {} ext (\<lambda>b. wext b + count_list [a] b) w" by simp
    from direct_weak_to_object [OF this room m [unfolded up]] up show ?thesis
      by (auto simp del: direct_owned.simps)
  next
    case down
    then have "heap_ok {} (\<lambda>b. ext b + count_list [a] b) wext w" using ok by auto
    from direct_object_to_weak [OF this room down(2) m [unfolded down(1)]] obtain w1
      where w1: "m w = Ret (Some (V_weak_object a), v) w1" "same_shape w w1"
        "heap_ok {} (\<lambda>b. ext b + count_list [a] b) (\<lambda>b. wext b + count_list [a] b) w1" by blast
    have "refs_of v = [a]" "weak_refs_of v = []" "wt_value v" using down(2) by auto
    then show ?thesis
      using w1 by (intro exI [of _ "Some (V_weak_object a)"] exI [of _ v]) (auto simp: opt_refs_def opt_weak_refs_def)
  next
    case plain
    from direct_owned_divides [OF m snd wt plain] obtain r left where r: "m = mret (r, left)" "divides_refs v r left"
      by blast
    then have "(\<lambda>a. (ext a + count_list (opt_refs r) a) + count_list (refs_of left) a) = (\<lambda>a. ext a + count_list (refs_of v) a)"
      "(\<lambda>a. (wext a + count_list (opt_weak_refs r) a) + count_list (weak_refs_of left) a) = (\<lambda>a. wext a + count_list (weak_refs_of v) a)"
      by (auto simp: divides_refs_def fun_eq_iff add.assoc)
    with r ok show ?thesis by (auto simp: divides_refs_def outcome_simps same_shape_refl)
  qed
qed

lemma inner_of_refs:
  "inner_of v = Some x \<Longrightarrow> refs_of x = refs_of v \<and> weak_refs_of x = weak_refs_of v \<and> (wt_value v \<longrightarrow> wt_value x)"
  by (induction v rule: inner_of.induct) auto

lemma convert_owned_ok:
  "dtors_neutral E \<Longrightarrow> wt_value v \<Longrightarrow> conv_sound t v \<Longrightarrow> count_room 3 w \<Longrightarrow> pinned ext w \<Longrightarrow> enough_fuel E w \<Longrightarrow>
    heap_ok {} (\<lambda>a. ext a + count_list (refs_of v) a) (\<lambda>a. wext a + count_list (weak_refs_of v) a) w \<Longrightarrow>
    \<exists>r w'. convert_owned E t v w = Ret r w' \<and>
      heap_ok {} (\<lambda>a. ext a + count_list (opt_refs r) a) (\<lambda>a. wext a + count_list (opt_weak_refs r) a) w'"
proof (induction E t v rule: convert_owned.induct)
  case (1 E t v)
  note snd = "1.prems"(3) [unfolded conv_sound.simps [of t v]]
  show ?case
  proof (cases "direct_owned t v")
    case (Some m)
    from direct_owned_ok [OF Some _ "1.prems"(2,4,7)] snd obtain r left w1 where w1: "m w = Ret (r, left) w1" "wt_value left"
      "same_shape w w1" "heap_ok {} (\<lambda>a. (ext a + count_list (opt_refs r) a) + count_list (refs_of left) a)
        (\<lambda>a. (wext a + count_list (opt_weak_refs r) a) + count_list (weak_refs_of left) a) w1" by blast
    have "pinned (\<lambda>a. ext a + count_list (opt_refs r) a) w1"
      using pinned_mono [OF same_shape_pinned [OF w1(3) "1.prems"(5)]] by simp
    from free_value_ok [OF "1.prems"(1) w1(2,4) this enough_fuel_shape [OF w1(3) "1.prems"(6)]] w1(1) Some
    show ?thesis by (auto simp: convert_owned.simps [of E t v] outcome_simps mbind_Ret mseq_Ret)
  next
    case None
    show ?thesis
    proof (cases "inner_of v")
      case inner: None
      from free_value_ok [OF "1.prems"(1,2,7,5,6)] None inner show ?thesis
        by (auto simp: convert_owned.simps [of E t v] outcome_simps mseq_Ret opt_refs_def opt_weak_refs_def)
    next
      case (Some x)
      note x = inner_of_refs [OF Some]
      from x "1.prems"(2) sizeof_wt [of x] obtain sz where "di_sizeof_type (typeof x) = Some sz" by auto
      with None Some "1.IH" [OF None Some this] x "1.prems" snd show ?thesis
        by (auto simp: convert_owned.simps [of E t v])
    qed
  qed
qed



end
