(* ===== verification/Deai_Object_Props.thy ===== *)
theory Deai_Object_Props
  imports Deai_Property Deai_Memory
begin

text \<open>
  Properties of member access: iteration over the members, and the generic accessors on objects
  that have no handlers.
\<close>

section \<open>Values stored in the heap\<close>

text \<open>References from a member are counted, so the objects they refer to are there.\<close>

lemma member_strong_in:
  assumes fin: "finite (dom h)" and ob: "h a = Some ob" and m: "(k, v) \<in> set (members ob)"
  shows "b \<in> set (refs_of v) \<Longrightarrow> 0 < strong_in h b" and "b \<in> set (weak_refs_of v) \<Longrightarrow> 0 < weak_in h b"
proof -
  have "b \<in> set (obj_refs ob)" if "b \<in> set (refs_of v)"
    using that m unfolding obj_refs_def by force
  with count_in_zero [OF fin, of obj_refs b] ob show "b \<in> set (refs_of v) \<Longrightarrow> 0 < strong_in h b" by auto
  have "b \<in> set (obj_weak_refs ob)" if "b \<in> set (weak_refs_of v)"
    using that m unfolding obj_weak_refs_def by force
  with count_in_zero [OF fin, of obj_weak_refs b] ob show "b \<in> set (weak_refs_of v) \<Longrightarrow> 0 < weak_in h b" by auto
qed

lemma member_copy_room:
  assumes ok: "heap_ok {} ext wext w" and ob: "objs w a = Some ob" and m: "(k, v) \<in> set (members ob)"
    and room: "count_room n w" and n: "length (refs_of v) < n" "length (weak_refs_of v) + 1 < n"
  shows "copy_room ext wext (refs_of v) (weak_refs_of v) w"
  unfolding copy_room_def
proof (intro conjI ballI)
  fix b assume b: "b \<in> set (refs_of v)"
  have pos: "0 < strong_in (objs w) b" using member_strong_in(1) [OF heap_okD(1) [OF ok] ob m b] .
  with heap_okD(5) [OF ok, of b] obtain ob' where ob': "objs w b = Some ob'" by (cases "objs w b") auto
  from heap_okD(4) [OF ok ob'] have rc: "unat (ref_count ob') = strong_in (objs w) b + ext b" by (simp add: obj_ok_def)
  with pos have "ref_count ob' \<noteq> 0" by (metis add_is_0 less_numeral_extra(3) unat_0)
  with ob' show "b \<in> live w" by (auto simp: live_def)
  from room ob' rc show "strong_in (objs w) b + ext b + count_list (refs_of v) b < 2 ^ 64"
    using count_list_le [of "refs_of v" b] n unfolding count_room_def by fastforce
next
  fix b assume b: "b \<in> set (weak_refs_of v)"
  have pos: "0 < weak_in (objs w) b" using member_strong_in(2) [OF heap_okD(1) [OF ok] ob m b] .
  with heap_okD(5) [OF ok, of b] obtain ob' where ob': "objs w b = Some ob'" by (cases "objs w b") auto
  then show "b \<in> dom (objs w)" by auto
  from heap_okD(4) [OF ok ob'] have "weak_in (objs w) b + wext b \<le> unat (weak_ref_count ob')" by (simp add: obj_ok_def)
  with room ob' show "weak_in (objs w) b + wext b + count_list (weak_refs_of v) b + 1 < 2 ^ 64"
    using count_list_le [of "weak_refs_of v" b] n unfolding count_room_def by fastforce
qed

section \<open>Iterating over members\<close>

abbreviation visible :: "(string \<times> di_variant) list \<Rightarrow> (string \<times> di_variant) list" where
  "visible ms \<equiv> filter (\<lambda>p. \<not> prefix ''__'' (fst p)) ms"

lemma starts_with_prefix: "NUL \<notin> set pat \<Longrightarrow> di_string_starts_with (Some s) pat \<longleftrightarrow> prefix pat s"
  using strncmp_eq_prefix [of pat s] by (auto simp: di_string_starts_with_def Let_def dest: prefix_length_le)

lemma skip_internal_visible: "skip_internal ms = (case visible ms of [] \<Rightarrow> None | p # _ \<Rightarrow> Some p)"
  by (induction ms rule: skip_internal.induct) (auto simp: starts_with_prefix)

lemma members_after_subset: "set (members_after k ms) \<subseteq> set ms"
  by (induction k ms rule: members_after.induct) auto

lemma members_after_notin: "k \<notin> set (hash_keys ms) \<Longrightarrow> members_after k (ms @ ms') = members_after k ms'"
  by (induction ms) auto

lemma visible_after:
  assumes "distinct (hash_keys ms)" and "j < length (visible ms)"
  shows "visible (members_after (fst (visible ms ! j)) ms) = drop (Suc j) (visible ms)"
  using assms
proof (induction ms arbitrary: j)
  case (Cons p ms)
  obtain k v where p: "p = (k, v)" by (cases p)
  show ?case
  proof (cases "prefix ''__'' k \<or> j \<noteq> 0")
    case True
    define i where "i = (if prefix ''__'' k then j else j - 1)"
    have i: "i < length (visible ms)" "visible (p # ms) ! j = visible ms ! i"
      "drop (Suc j) (visible (p # ms)) = drop (Suc i) (visible ms)"
      using True Cons.prems(2) p by (cases j; auto simp: i_def)+
    have "visible ms ! i \<in> set ms" using nth_mem [OF i(1)] by simp
    then have "fst (visible ms ! i) \<in> set (hash_keys ms)" by simp
    with Cons.prems(1) p have "k \<noteq> fst (visible ms ! i)" by auto
    with i Cons.IH [of i] Cons.prems(1) p show ?thesis by simp
  qed (use p in auto)
qed simp

text \<open>The name that is passed to ask for the visible member number \<open>i\<close>.\<close>

definition name_before :: "(string \<times> di_variant) list \<Rightarrow> nat \<Rightarrow> di_string" where
  "name_before ms i = (case i of 0 \<Rightarrow> None | Suc j \<Rightarrow> Some (fst (visible ms ! j)))"

lemma rest_at:
  assumes "distinct (hash_keys ms)" and "i \<le> length (visible ms)"
  shows "visible (case name_before ms i of None \<Rightarrow> ms | Some k \<Rightarrow> members_after k ms) = drop i (visible ms)"
  using assms visible_after [OF assms(1)] by (auto simp: name_before_def split: nat.splits)

lemma next_member_raw_eq:
  assumes ob: "objs w a = Some ob" and "distinct (hash_keys (members ob))" and i: "i \<le> length (visible (members ob))"
    and wt: "\<forall>p \<in> set (members ob). wt_value (snd p)"
  shows "next_member_raw a (name_before (members ob) i) w =
    (if i < length (visible (members ob))
     then mbind (di_copy_value (snd (visible (members ob) ! i)))
       (\<lambda>v'. mret (V_tuple [V_string (Some (fst (visible (members ob) ! i))), v'])) w
     else Ret (V_tuple []) w)"
proof -
  let ?rest = "case name_before (members ob) i of None \<Rightarrow> members ob | Some k \<Rightarrow> members_after k (members ob)"
  have skip: "skip_internal ?rest =
      (if i < length (visible (members ob)) then Some (visible (members ob) ! i) else None)"
    unfolding skip_internal_visible rest_at [OF assms(2,3)]
    by (cases "i < length (visible (members ob))") (auto simp: Cons_nth_drop_Suc [symmetric])
  have "di_sizeof_type (typeof (snd (visible (members ob) ! i))) \<noteq> None" if "i < length (visible (members ob))"
    using nth_mem [OF that] wt by (intro sizeof_wt) auto
  then show ?thesis
    unfolding next_member_raw_def using ob skip
    by (auto simp: outcome_simps heap_simps mbind_Ret Let_def di_clone_string_def di_string_ndup_def split: prod.splits option.splits)
qed



section \<open>Accessors without handlers\<close>

text \<open>No getter, setter or deleter for the property, neither a specific nor a generic one.\<close>

definition no_handler :: "(string \<times> di_variant) list \<Rightarrow> c_string \<Rightarrow> string \<Rightarrow> bool" where
  "no_handler ms pfx k \<longleftrightarrow> hash_find (pfx @ ''_'' @ c_str k) ms = None \<and> hash_find pfx ms = None"

lemma rawget_borrowed_missing:
  "objs w a = Some ob \<Longrightarrow> hash_find k (members ob) = None \<Longrightarrow> di_rawget_borrowed a (Some k) t w = Ret (- ENOENT, V_nil) w"
  by (simp add: di_rawget_borrowed_def di_refrawgetx_def di_lookup_def outcome_simps heap_simps mbind_Ret ENOENT_def)

lemma call_handler_none:
  assumes "objs w a = Some ob" and "no_handler (members ob) pfx k"
  shows "call_handler_with_fallback E a pfx (Some k) arg want catch w = Ret (- ENOENT, V_last, None, False) w"
  using assms
  by (simp add: call_handler_with_fallback_def no_handler_def handler_name_def di_string_borrow_def
      rawget_borrowed_missing mbind_Ret outcome_simps ENOENT_def)

lemma setx_new:
  assumes "objs w a = Some ob" and "no_handler (members ob) ''__set'' k" and "no_handler (members ob) ''__delete'' k"
    and "hash_find k (members ob) = None"
  shows "di_setx E a (Some k) v catch w = mbind (di_add_member_clone E a (Some k) v) (\<lambda>rc. mret (rc, None)) w"
  using assms
  by (simp add: di_setx_def call_handler_none mbind_Ret di_lookup_def outcome_simps heap_simps)

lemma getx_present:
  assumes ob: "objs w a = Some ob" and "hash_find k (members ob) = Some v" and "wt_value v" and "v \<noteq> V_nil"
    and "di_copy_value v w = Ret v' w'"
  shows "di_getx E a (Some k) catch w = Ret (0, v', None) w'"
proof -
  from sizeof_nonzero [OF assms(3,4)] obtain sz where "di_sizeof_type (typeof v) = Some sz" "0 < sz" by blast
  with assms show ?thesis
    by (simp add: di_getx_def di_rawgetx_def di_refrawgetx_def di_lookup_def mbind_Ret mseq_Ret outcome_simps heap_simps)
qed

text \<open>
  C27: Setting a property that has no handlers and does not exist yet adds a member, and getting it returns a copy of the value; the
  heap stays consistent and counts the reference held by the member and the one in the result.
\<close>

theorem setx_getx_new_property:
  assumes "heap_ok {} ext wext w" and "objs w a = Some ob" and "ref_count ob \<noteq> 0"
    and "no_handler (members ob) ''__set'' k" and "no_handler (members ob) ''__delete'' k" and "hash_find k (members ob) = None"
    and wt: "wt_value v" "v \<noteq> V_nil" and room: "copy_room ext wext (refs_of v @ refs_of v) (weak_refs_of v @ weak_refs_of v) w"
  shows "\<exists>w1 w2. di_setx E a (Some k) v catch w = Ret (0, None) w1 \<and> heap_ok {} ext wext w1 \<and>
    di_getx E a (Some k) catch w1 = Ret (0, copied v, None) w2 \<and>
    heap_ok {} (\<lambda>b. ext b + count_list (refs_of v) b) (\<lambda>b. wext b + count_list (weak_refs_of v) b) w2"
proof -
  have room1: "copy_room ext wext (refs_of v) (weak_refs_of v) w"
    using room unfolding copy_room_def by force
  from add_member_clone_shape [OF assms(1,2,3,6) wt room1] obtain w0 ob1 where
    add: "di_add_member_clone E a (Some k) v w = Ret 0 (with_member a k (copied v) ob1 w0)"
    and w0: "same_shape w w0" "objs w0 a = Some ob1" "members ob1 = members ob"
    and ok1: "heap_ok {} ext wext (with_member a k (copied v) ob1 w0)" by blast
  let ?w1 = "with_member a k (copied v) ob1 w0"
  have fin: "finite (dom (objs w0))" using heap_okD(1) [OF assms(1)] w0(1) by (simp add: same_shape_def)
  have room2: "copy_room ext wext (refs_of v) (weak_refs_of v) ?w1"
    using room w0(1) with_member_live [OF w0(2), of k "copied v"]
    unfolding copy_room_def with_member_counts [OF w0(1) fin w0(2)] same_shape_def by force
  have ob1: "objs ?w1 a = Some (ob1\<lparr>members := hash_add k (copied v) (members ob1)\<rparr>)" by (simp add: with_member_def)
  have find: "hash_find k (hash_add k (copied v) (members ob1)) = Some (copied v)"
    using assms(6) by (simp add: w0(3) hash_find_add)
  have "copied v \<noteq> V_nil" using wt(2) by (cases v) auto
  moreover obtain w2 where "di_copy_value (copied v) ?w1 = Ret (copied v) w2"
    "heap_ok {} (\<lambda>b. ext b + count_list (refs_of v) b) (\<lambda>b. wext b + count_list (weak_refs_of v) b) w2"
    using copy_value_ok [of "copied v"] wt(1) room2 ok1 unfolding copies_def by (fastforce simp: copied_copied)
  ultimately show ?thesis
    using setx_new [OF assms(2,4,5,6), of E v catch] getx_present [OF ob1, of k "copied v"] find wt(1) add ok1
    by (intro exI [of _ ?w1] exI [of _ w2]) (simp add: mbind_Ret outcome_simps)
qed

theorem setx_getx_new_property_witness:
  "\<exists>w1 w2. di_setx demo_env 2 (Some ''owner'') (V_object 1) True demo_world = Ret (0, None) w1 \<and> heap_ok {} demo_ext (\<lambda>_. 0) w1 \<and>
    di_getx demo_env 2 (Some ''owner'') True w1 = Ret (0, copied (V_object 1), None) w2 \<and>
    heap_ok {} (\<lambda>b. demo_ext b + count_list (refs_of (V_object 1)) b) (\<lambda>b. 0 + count_list (weak_refs_of (V_object 1)) b) w2"
proof (rule setx_getx_new_property [OF demo_heap_ok, where ob = "demo_obj 1 []"])
  show "copy_room demo_ext (\<lambda>_. 0) (refs_of (V_object 1) @ refs_of (V_object 1))
      (weak_refs_of (V_object 1) @ weak_refs_of (V_object 1)) demo_world"
    using demo_live by (auto simp: copy_room_def demo_world_def demo_strong demo_ext_def)
qed (simp_all add: demo_world_def demo_heap_def demo_obj_def no_handler_def)



end
