(* ===== verification/Deai_Signal_Props.thy ===== *)
theory Deai_Signal_Props
  imports Deai_Signal Deai_Object_Props
begin

text \<open>
  Properties of signals: the handler table and the handler count agree, adding and removing a
  handler are inverse, an emission calls every handler once in the order they were added, and
  adding a handler twice breaks the count.
\<close>

section \<open>The handler table\<close>

definition handler_entry :: "addr \<Rightarrow> string \<times> di_variant" where
  "handler_entry h = (HANDLER_PREFIX @ ptr_string h, V_object h)"

abbreviation handler_members :: "(string \<times> di_variant) list \<Rightarrow> (string \<times> di_variant) list" where
  "handler_members ms \<equiv> filter (\<lambda>p. prefix HANDLER_PREFIX (fst p)) ms"

text \<open>The signal at \<open>s\<close> has the handlers \<open>hs\<close>, and counts them.\<close>

definition signal_ok :: "world \<Rightarrow> addr \<Rightarrow> addr list \<Rightarrow> bool" where
  "signal_ok w s hs \<longleftrightarrow> (\<exists>ob. objs w s = Some ob \<and> ref_count ob \<noteq> 0 \<and> payload ob = P_signal (int (length hs)) \<and>
     handler_members (members ob) = map handler_entry hs)"

lemma handler_entry_inj: "fst (handler_entry h) = fst (handler_entry h') \<Longrightarrow> h = h'"
  by (auto simp: handler_entry_def dest: ptr_string_inj)

lemma prefix_handler_entry [simp]: "prefix HANDLER_PREFIX (fst (handler_entry h))"
  by (simp add: handler_entry_def)

lemma handler_present:
  assumes "handler_members ms = map handler_entry hs" and "distinct (hash_keys ms)"
  shows "hash_find (HANDLER_PREFIX @ ptr_string h) ms = (if h \<in> set hs then Some (V_object h) else None)"
proof -
  have k: "fst (handler_entry h) = HANDLER_PREFIX @ ptr_string h" by (simp add: handler_entry_def)
  have mem: "p \<in> set ms \<and> prefix HANDLER_PREFIX (fst p) \<longleftrightarrow> p \<in> handler_entry ` set hs" for p
    using arg_cong [OF assms(1), of set] by auto
  show ?thesis
  proof (cases "h \<in> set hs")
    case True
    then have "handler_entry h \<in> set ms" using mem [of "handler_entry h"] by auto
    with True map_of_is_SomeI [OF assms(2)] show ?thesis by (auto simp: handler_entry_def hash_find_map_of)
  next
    case False
    have "fst (handler_entry h) \<notin> set (hash_keys ms)"
    proof
      assume "fst (handler_entry h) \<in> set (hash_keys ms)"
      then obtain p where p: "p \<in> set ms" "fst p = fst (handler_entry h)" by auto
      with mem [of p] obtain h' where "h' \<in> set hs" "p = handler_entry h'" by auto
      with p(2) False handler_entry_inj show False by metis
    qed
    with False k show ?thesis by (simp add: hash_find_None)
  qed
qed

lemma signal_distinct:
  assumes "handler_members ms = map handler_entry hs" and "distinct (hash_keys ms)"
  shows "distinct hs"
proof -
  have "distinct (hash_keys (handler_members ms))" using assms(2) by (rule distinct_map_filter)
  then have "distinct (map (fst \<circ> handler_entry) hs)" by (simp add: assms(1))
  then show ?thesis by (simp add: distinct_map)
qed

section \<open>Counting handlers\<close>

lemma set_nhandlers_ok:
  assumes ok: "heap_ok {} ext wext w" and ob: "objs w s = Some ob" "payload ob = P_signal n"
  shows "\<exists>w'. mbind (get_nhandlers s) (\<lambda>n. set_nhandlers s (f n)) w = Ret () w' \<and> heap_ok {} ext wext w' \<and>
    objs w' = (objs w)(s := Some (ob\<lparr>payload := P_signal (f n)\<rparr>))"
proof -
  let ?w = "w\<lparr>objs := (objs w)(s := Some (ob\<lparr>payload := P_signal (f n)\<rparr>))\<rparr>"
  have "heap_ok {} ext wext ?w"
    by (rule heap_ok_exchange [OF ok ob(1), where ob' = "ob\<lparr>payload := P_signal (f n)\<rparr>"])
      (use heap_okD(4) [OF ok ob(1)] ob(2) in \<open>auto simp: obj_refs_def obj_weak_refs_def obj_ok_def\<close>)
  then show ?thesis
    using ob by (intro exI [of _ ?w]) (simp add: get_nhandlers_def set_nhandlers_def mbind_Ret outcome_simps heap_simps)
qed

lemma add_handler_ok:
  assumes ok: "heap_ok {} ext wext w" and sig: "signal_ok w s hs" and new: "h \<notin> set hs" and room: "copy_room ext wext [h] [] w"
  shows "\<exists>w'. di_signal_add_handler E s h w = Ret () w' \<and> heap_ok {} ext wext w' \<and> signal_ok w' s (hs @ [h]) \<and>
    live w' = live w \<and> (\<forall>n. members_bound n w \<longrightarrow> members_bound (Suc n) w') \<and> (pinned ext w \<longrightarrow> pinned ext w')"
proof -
  from sig obtain ob where ob: "objs w s = Some ob" "ref_count ob \<noteq> 0" "payload ob = P_signal (int (length hs))"
    "handler_members (members ob) = map handler_entry hs" unfolding signal_ok_def by blast
  let ?k = "HANDLER_PREFIX @ ptr_string h"
  have "distinct (hash_keys (members ob))" using heap_okD(4) [OF ok ob(1)] by (simp add: obj_ok_def)
  from handler_present [OF ob(4) this, of h] new have "hash_find ?k (members ob) = None" by simp
  from add_member_clone_shape [OF ok ob(1,2) this, of "V_object h" E] room obtain w1 ob1 where
    w1: "di_add_member_clone E s (Some ?k) (V_object h) w = Ret 0 (with_member s ?k (V_object h) ob1 w1)"
      "ref_count ob1 \<noteq> 0" "members ob1 = members ob" "payload ob1 = payload ob"
      "heap_ok {} ext wext (with_member s ?k (V_object h) ob1 w1)" "same_shape w w1" "objs w1 s = Some ob1" by auto
  have "objs (with_member s ?k (V_object h) ob1 w1) s = Some (ob1\<lparr>members := hash_add ?k (V_object h) (members ob1)\<rparr>)"
    by (simp add: with_member_def)
  from set_nhandlers_ok [OF w1(5) this, of "int (length hs)" "\<lambda>n. n + 1"] w1(4) ob(3) obtain w2 where
    w2: "mbind (get_nhandlers s) (\<lambda>n. set_nhandlers s (n + 1)) (with_member s ?k (V_object h) ob1 w1) = Ret () w2"
      "heap_ok {} ext wext w2"
      "objs w2 = (objs w1)(s := Some (ob1\<lparr>members := hash_add ?k (V_object h) (members ob1), payload := P_signal (int (length hs) + 1)\<rparr>))"
    by (auto simp: with_member_def)
  have "signal_ok w2 s (hs @ [h])"
    unfolding signal_ok_def using w2(3) w1(2,3) ob(4) by (simp add: hash_add_def handler_entry_def)
  moreover have "di_signal_add_handler E s h w = Ret () w2"
    using w1(1) w2(1) by (simp add: di_signal_add_handler_def handler_member_name_def mbind_Ret)
  moreover have "live w2 = live w1" "\<forall>n. members_bound n w1 \<longrightarrow> members_bound (Suc n) w2" "pinned ext w1 \<longrightarrow> pinned ext w2"
    using w1(2,7) unfolding live_def members_bound_def pinned_def w2(3)
    by (auto simp: hash_add_def le_SucI split: if_splits)
  ultimately show ?thesis
    using w2(2) w1(6) same_shape_members_bound [OF w1(6)] same_shape_pinned [OF w1(6)] unfolding same_shape_def by auto
qed

lemma filter_hash_del: "filter (\<lambda>p. P (fst p)) (hash_del k ms) = hash_del k (filter (\<lambda>p. P (fst p)) ms) \<or> \<not> P k"
  by (induction ms) (auto split: if_splits)

lemma hash_del_handlers: "hash_del (fst (handler_entry h)) (map handler_entry hs) = map handler_entry (remove1 h hs)"
  by (induction hs) (auto simp: handler_entry_def dest: ptr_string_inj)

lemma remove_handler_ok:
  assumes E: "dtors_neutral E" and ok: "heap_ok {} ext wext w" and s: "0 < ext s" and pin: "pinned ext w" and fuel: "enough_fuel E w"
    and sig: "signal_ok w s hs" and h: "h \<in> set hs" and more: "2 \<le> length hs"
  shows "\<exists>w'. di_signal_remove_handler E s h w = Ret () w' \<and> heap_ok {} ext wext w' \<and> signal_ok w' s (remove1 h hs)"
proof -
  from sig obtain ob where ob: "objs w s = Some ob" "payload ob = P_signal (int (length hs))"
    "handler_members (members ob) = map handler_entry hs" unfolding signal_ok_def by blast
  let ?k = "HANDLER_PREFIX @ ptr_string h"
  have "distinct (hash_keys (members ob))" using heap_okD(4) [OF ok ob(1)] by (simp add: obj_ok_def)
  from handler_present [OF ob(3) this, of h] h have "hash_find ?k (members ob) = Some (V_object h)" by simp
  from delete_member_raw_ok [OF E ok s pin fuel ob(1) this] obtain w1 ob1 where
    w1: "di_delete_member_raw E s (Some ?k) w = Ret 0 w1" "heap_ok {} ext wext w1" "objs w1 s = Some ob1"
      "members ob1 = hash_del ?k (members ob)" "shrinks_on {s} w w1" by blast
  from w1(3,5) ob have pl: "payload ob1 = P_signal (int (length hs))" unfolding shrinks_on_def obj_shrinks_def by force
  from set_nhandlers_ok [OF w1(2,3) pl, of "\<lambda>n. n - 1"] obtain w2 where
    w2: "mbind (get_nhandlers s) (\<lambda>n. set_nhandlers s (n - 1)) w1 = Ret () w2" "heap_ok {} ext wext w2"
      "objs w2 s = Some (ob1\<lparr>payload := P_signal (int (length hs) - 1)\<rparr>)" by auto
  have nh: "get_nhandlers s w1 = Ret (int (length hs)) w1" using w1(3) pl by (simp add: get_nhandlers_def mbind_Ret heap_simps outcome_simps)
  have "handler_members (members ob1) = map handler_entry (remove1 h hs)"
    using filter_hash_del [of "prefix HANDLER_PREFIX" ?k "members ob"] ob(3) hash_del_handlers [of h hs]
    by (simp add: w1(4) handler_entry_def)
  moreover have "ref_count ob1 \<noteq> 0" using heap_ok_ext_obj [OF w1(2) s] w1(3) by auto
  moreover have "int (length (remove1 h hs)) = int (length hs) - 1" using h more by (simp add: length_remove1)
  ultimately have "signal_ok w2 s (remove1 h hs)" unfolding signal_ok_def using w2(3) by simp
  moreover have "di_signal_remove_handler E s h w = Ret () w2"
    using w1(1) w2(1) more nh
    by (simp add: di_signal_remove_handler_def handler_member_name_def mbind_Ret mseq_Ret ENOENT_def outcome_simps)
  ultimately show ?thesis using w2(2) by blast
qed

section \<open>Emission\<close>

lemma starts_with_handler: "di_string_starts_with (Some k) HANDLER_PREFIX \<longleftrightarrow> prefix HANDLER_PREFIX k"
  by (rule starts_with_prefix) (simp add: HANDLER_PREFIX_def)

lemma collect_handlers_ok:
  "handler_members ms = map handler_entry hs \<Longrightarrow> int (length hs) \<le> room \<Longrightarrow> heap_ok {} ext wext w \<Longrightarrow> copy_room ext wext hs [] w \<Longrightarrow>
   \<exists>w'. collect_handlers room ms w = Ret hs w' \<and> heap_ok {} (\<lambda>a. ext a + count_list hs a) wext w' \<and> same_shape w w'"
proof (induction ms arbitrary: hs room ext w)
  case Nil
  then show ?case by (simp add: outcome_simps same_shape_refl)
next
  case (Cons p ms)
  obtain k v where p: "p = (k, v)" by (cases p)
  show ?case
  proof (cases "prefix HANDLER_PREFIX k")
    case False
    with Cons p show ?thesis by (simp add: starts_with_handler)
  next
    case True
    with Cons.prems(1) p obtain h hs' where hs: "hs = h # hs'" "(k, v) = handler_entry h"
      "handler_members ms = map handler_entry hs'" by (cases hs) auto
    have room: "copy_room ext wext ([h] @ hs') ([] @ []) w" using Cons.prems(4) hs(1) by simp
    from copy_room_step(1) [OF room same_shape_refl] have "h \<in> live w" "strong_in (objs w) h + ext h + 1 < 2 ^ 64"
      by (auto simp: copy_room_def)
    from ref_object_ok [OF Cons.prems(3) this] obtain w1 where
      w1: "di_ref_object h w = Ret h w1" "heap_ok {} (ext(h := Suc (ext h))) wext w1" "same_shape w w1" by blast
    have ext1: "(\<lambda>a. ext a + count_list [h] a) = ext(h := Suc (ext h))" by (auto simp: fun_eq_iff)
    from Cons.IH [OF hs(3), of "room - 1" "ext(h := Suc (ext h))" w1] w1(2) copy_room_step(2) [OF room w1(3)] Cons.prems(2) hs(1)
    obtain w2 where w2: "collect_handlers (room - 1) ms w1 = Ret hs' w2" "same_shape w1 w2"
      "heap_ok {} (\<lambda>a. (ext(h := Suc (ext h))) a + count_list hs' a) wext w2"
      unfolding ext1 by (auto simp del: fun_upd_apply)
    have "(\<lambda>a. (ext(h := Suc (ext h))) a + count_list hs' a) = (\<lambda>a. ext a + count_list hs a)"
      by (auto simp: fun_eq_iff hs(1))
    with w1 w2 p hs True Cons.prems(2) show ?thesis
      by (auto simp: starts_with_handler handler_entry_def mbind_Ret outcome_simps intro: same_shape_trans)
  qed
qed

lemma dispatch_eq:
  assumes "heap_ok {} ext wext w" and "copy_room ext wext hs [] w" and "signal_ok w s hs"
  shows "\<exists>w'. di_signal_dispatch E s args w = mforeach (dispatch_one E args) hs w' \<and> same_shape w w' \<and>
    heap_ok {} (\<lambda>a. ext a + count_list hs a) wext w'"
proof -
  from assms(3) obtain ob where ob: "objs w s = Some ob" "payload ob = P_signal (int (length hs))"
    "handler_members (members ob) = map handler_entry hs" unfolding signal_ok_def by blast
  from collect_handlers_ok [OF ob(3) _ assms(1,2), of "int (length hs)"] obtain w1 where
    "collect_handlers (int (length hs)) (members ob) w = Ret hs w1" "same_shape w w1"
    "heap_ok {} (\<lambda>a. ext a + count_list hs a) wext w1" by auto
  with ob show ?thesis
    by (intro exI [of _ w1])
      (simp add: di_signal_dispatch_def get_nhandlers_def mbind_Ret mseq_Ret heap_simps outcome_simps)
qed

section \<open>Properties\<close>


lemma ref_count_room: "di_ref_object a w = Ret b w' \<Longrightarrow> count_room (Suc n) w \<Longrightarrow> count_room n w'"
proof -
  assume ref: "di_ref_object a w = Ret b w'" and room: "count_room (Suc n) w"
  then obtain ob where ob: "objs w a = Some ob" "objs w' = (objs w)(a := Some (ob\<lparr>ref_count := ref_count ob + 1\<rparr>))"
    by (cases "objs w a") (auto simp: di_ref_object_def mseq_eq_Ret outcome_simps heap_simps)
  have "unat (ref_count ob + 1) \<le> unat (ref_count ob) + 1" by (simp add: unat_word_ariths)
  with room ob show ?thesis unfolding count_room_def by (fastforce split: if_splits)
qed

text \<open>Adding a handler again: the member is refused, the reference dropped, and the count raised.\<close>

lemma add_handler_again:
  assumes E: "dtors_neutral E" and ok: "heap_ok {} ext wext w" and s: "0 < ext s" and pin: "pinned ext w" and fuel: "enough_fuel E w"
    and sig: "signal_ok w s hs" and h: "h \<in> set hs" and room: "count_room (length hs + 3) w"
  shows "\<exists>w' ob'. di_signal_add_handler E s h w = Ret () w' \<and> heap_ok {} ext wext w' \<and> count_room (length hs + 2) w' \<and>
    objs w' s = Some ob' \<and> payload ob' = P_signal (int (length hs) + 1) \<and> handler_members (members ob') = map handler_entry hs"
proof -
  from sig obtain ob where ob: "objs w s = Some ob" "payload ob = P_signal (int (length hs))"
    "handler_members (members ob) = map handler_entry hs" unfolding signal_ok_def by blast
  let ?k = "HANDLER_PREFIX @ ptr_string h"
  have "distinct (hash_keys (members ob))" using heap_okD(4) [OF ok ob(1)] by (simp add: obj_ok_def)
  from handler_present [OF ob(3) this, of h] h have find: "hash_find ?k (members ob) = Some (V_object h)" by simp
  have "copy_room ext wext [h] [] w"
    using member_copy_room [OF ok ob(1) hash_find_Some_mem [OF find] room] by simp
  then have "h \<in> live w" "strong_in (objs w) h + ext h + 1 < 2 ^ 64" by (auto simp: copy_room_def)
  from ref_object_ok [OF ok this] obtain w1 where
    w1: "di_ref_object h w = Ret h w1" "heap_ok {} (ext(h := Suc (ext h))) wext w1" "same_shape w w1" by blast
  from unref_object_ok [OF E w1(2) same_shape_pinned [OF w1(3) pin] enough_fuel_shape [OF w1(3) fuel]] obtain w2 where
    w2: "di_unref_object E h w1 = Ret () w2" "heap_ok {} ext wext w2" "shrinks w1 w2" by blast
  have "0 < (ext(h := Suc (ext h))) s" using s by simp
  from heap_ok_ext_obj [OF w1(2) this] obtain ob1 where ob1: "objs w1 s = Some ob1" by blast
  from heap_ok_ext_obj [OF w2(2) s] obtain ob2 where ob2: "objs w2 s = Some ob2" "ref_count ob2 \<noteq> 0" by blast
  have mem1: "members ob1 = members ob" "payload ob1 = payload ob" using same_shapeD [OF w1(3) ob(1) ob1] by auto
  have mem2: "members ob2 = members ob1" "payload ob2 = payload ob1"
    using w2(3) ob1 ob2 unfolding shrinks_on_def obj_shrinks_def by force+
  have "di_add_member_clone E s (Some ?k) (V_object h) w = Ret (- EEXIST) w2"
    using w1(1) w2(1) ob1 find mem1
    by (simp add: di_add_member_clone_def di_add_member_def di_insert_member_def di_clone_string_def di_string_ndup_def
        di_free_value_def mbind_Ret mseq_Ret outcome_simps heap_simps EEXIST_def)
  moreover from set_nhandlers_ok [OF w2(2) ob2(1), of "int (length hs)" "\<lambda>n. n + 1"] mem1 mem2 ob(2) obtain w3 where
    w3: "mbind (get_nhandlers s) (\<lambda>n. set_nhandlers s (n + 1)) w2 = Ret () w3" "heap_ok {} ext wext w3"
      "objs w3 = (objs w2)(s := Some (ob2\<lparr>payload := P_signal (int (length hs) + 1)\<rparr>))" by auto
  moreover have "count_room (length hs + 2) w2"
    using count_room_shrinks [OF w2(3) ref_count_room [OF w1(1)], of "length hs + 2"] room by (simp add: numeral_3_eq_3)
  then have "count_room (length hs + 2) w3" using ob2(1) unfolding count_room_def w3(3) by (auto split: if_splits)
  ultimately show ?thesis
    using ob(3) mem1 mem2
    by (intro exI [of _ w3] exI [of _ "ob2\<lparr>payload := P_signal (int (length hs) + 1)\<rparr>"])
      (simp add: di_signal_add_handler_def handler_member_name_def mbind_Ret)
qed

text \<open>
  C37: Adding the same handler object to a signal a second time corrupts the signal: the table keeps one entry but the handler count
  goes up, and the next emission aborts at the assertion that compares the two.
\<close>

theorem listening_twice_breaks_emission:
  assumes "dtors_neutral E" and "heap_ok {} ext wext w" and "0 < ext s" and "pinned ext w" and "enough_fuel E w"
    and "signal_ok w s hs" and "h \<in> set hs" and "count_room (length hs + 3) w"
  shows "\<exists>w'. di_signal_add_handler E s h w = Ret () w' \<and> di_signal_dispatch E s args w' = Crash Assert_failed"
proof -
  from add_handler_again [OF assms] obtain w' ob' where w': "di_signal_add_handler E s h w = Ret () w'" "heap_ok {} ext wext w'"
    "count_room (length hs + 2) w'" "objs w' s = Some ob'" "payload ob' = P_signal (int (length hs) + 1)"
    "handler_members (members ob') = map handler_entry hs" by blast
  have "copy_room ext wext hs [] w'"
    unfolding copy_room_def
  proof (intro conjI ballI)
    fix a assume "a \<in> set hs"
    then have "handler_entry a \<in> set (handler_members (members ob'))" unfolding w'(6) by simp
    then have m: "(HANDLER_PREFIX @ ptr_string a, V_object a) \<in> set (members ob')" by (auto simp: handler_entry_def)
    from member_copy_room [OF w'(2,4) m, of "length hs + 2"] w'(3) show live: "a \<in> live w'" by (simp add: copy_room_def)
    then obtain oa where oa: "objs w' a = Some oa" by (auto simp: live_def)
    with heap_okD(4) [OF w'(2) oa] w'(3) show "strong_in (objs w') a + ext a + count_list hs a < 2 ^ 64"
      using count_list_le [of hs a] unfolding count_room_def obj_ok_def by fastforce
  qed simp_all
  from collect_handlers_ok [OF w'(6) _ w'(2) this, of "int (length hs) + 1"] obtain w2 where
    "collect_handlers (int (length hs) + 1) (members ob') w' = Ret hs w2" by auto
  with w'(4,5) have "di_signal_dispatch E s args w' = Crash Assert_failed"
    by (simp add: di_signal_dispatch_def get_nhandlers_def mbind_def mseq_def heap_simps outcome_simps)
  with w'(1) show ?thesis by blast
qed


section \<open>A concrete signal\<close>

text \<open>A signal (1) with one handler (2), and another object (3).\<close>

definition sig_heap :: heap where
  "sig_heap = [1 \<mapsto> (di_init_object (P_signal 1))\<lparr>members := [handler_entry 2]\<rparr>, 2 \<mapsto> di_init_object P_object,
     3 \<mapsto> di_init_object P_object]"

definition sig_world :: world where
  "sig_world = empty_world\<lparr>objs := sig_heap, next_addr := 4\<rparr>"

definition sig_ext :: "addr \<Rightarrow> nat" where
  "sig_ext a = (if a = 1 \<or> a = 3 then 1 else 0)"

lemma sig_dom: "dom sig_heap = {1, 2, 3}"
  by (auto simp: sig_heap_def)

lemma sig_counts: "strong_in sig_heap a = count_list [2] a" "weak_in sig_heap a = 0"
  unfolding count_in_def sig_dom
  by (simp_all add: sig_heap_def obj_refs_def obj_weak_refs_def di_init_object_def handler_entry_def)

lemma sig_cases:
  assumes "sig_heap a = Some ob"
  obtains "a = 1" "ob = (di_init_object (P_signal 1))\<lparr>members := [handler_entry 2]\<rparr>"
    | "a = 2" "ob = di_init_object P_object" | "a = 3" "ob = di_init_object P_object"
  using assms unfolding sig_heap_def by (auto split: if_splits)

lemma sig_heap_ok: "heap_ok {} sig_ext (\<lambda>_. 0) sig_world"
  unfolding heap_ok_def
proof (intro conjI allI impI)
  fix a ob assume "objs sig_world a = Some ob"
  then have "sig_heap a = Some ob" by (simp add: sig_world_def)
  then show "obj_ok {} sig_ext (\<lambda>_. 0) (objs sig_world) a ob"
    by (cases rule: sig_cases)
      (simp_all add: obj_ok_def sig_world_def sig_counts sig_ext_def di_init_object_def handler_entry_def)
next
  fix a assume "objs sig_world a = None"
  then have "a \<notin> {1, 2, 3}" using sig_dom by (auto simp: sig_world_def)
  then show "strong_in (objs sig_world) a + sig_ext a = 0" "weak_in (objs sig_world) a + 0 = 0"
    by (simp_all add: sig_world_def sig_counts sig_ext_def)
qed (simp_all add: sig_world_def sig_dom lists_ok_def empty_world_def)

lemma sig_facts:
  "live sig_world = {1, 2, 3}" "members_bound 1 sig_world" "pinned ext sig_world" "count_room 4 sig_world" "signal_ok sig_world 1 [2]"
proof -
  show "live sig_world = {1, 2, 3}" by (auto simp: live_def sig_world_def sig_heap_def di_init_object_def)
  show "members_bound 1 sig_world" "pinned ext sig_world" "count_room 4 sig_world"
    by (auto simp: members_bound_def pinned_def count_room_def sig_world_def di_init_object_def elim!: sig_cases)
  show "signal_ok sig_world 1 [2]"
    by (simp add: signal_ok_def sig_world_def sig_heap_def di_init_object_def)
qed


theorem listening_twice_breaks_emission_witness:
  "\<exists>w'. di_signal_add_handler demo_env 1 2 sig_world = Ret () w' \<and> di_signal_dispatch demo_env 1 [] w' = Crash Assert_failed"
proof (rule listening_twice_breaks_emission [OF demo_dtors sig_heap_ok _ sig_facts(3) _ sig_facts(5)])
  have "members_bound (e_fuel demo_env) sig_world"
    using sig_facts(2) by (fastforce simp: members_bound_def demo_env_def)
  then show "enough_fuel demo_env sig_world" using sig_facts(1) by (simp add: enough_fuel_def demo_env_def)
qed (simp_all add: sig_ext_def sig_facts(4))


end
