(* ===== verification/Deai_Roots_Props.thy ===== *)
theory Deai_Roots_Props
  imports Deai_Roots Deai_Memory
begin

text \<open>
  The registry of roots: anonymous roots can be added once and removed once, clearing removes the named roots and nothing else, and
  the reference counts account for every root.
\<close>

section \<open>Anonymous roots\<close>

definition has_roots :: "world \<Rightarrow> addr \<Rightarrow> addr list \<Rightarrow> bool" where
  "has_roots w d rs \<longleftrightarrow> (\<exists>ob. objs w d = Some ob \<and> payload ob = P_roots rs \<and> ref_count ob \<noteq> 0)"

lemma get_roots: "has_roots w d rs \<Longrightarrow> get_anonymous_roots d w = Ret rs w"
  by (auto simp: has_roots_def get_anonymous_roots_def outcome_simps heap_simps)

text \<open>Replacing the table exchanges references with the running code.\<close>

lemma set_roots_ok:
  assumes ok: "heap_ok {} ext wext w" and rs: "has_roots w d rs" and d: "0 < ext' d" and pin: "pinned ext' w" and fuel: "enough_fuel E w"
    and cnt: "\<And>c. count_list rs' c + ext' c = count_list rs c + ext c"
  shows "\<exists>w'. set_anonymous_roots d rs' w = Ret () w' \<and> heap_ok {} ext' wext w' \<and> has_roots w' d rs' \<and> pinned ext' w' \<and> enough_fuel E w'"
proof -
  from rs obtain ob where ob: "objs w d = Some ob" "payload ob = P_roots rs" "ref_count ob \<noteq> 0" unfolding has_roots_def by blast
  let ?ob = "ob\<lparr>payload := P_roots rs'\<rparr>"
  let ?w = "w\<lparr>objs := (objs w)(d := Some ?ob)\<rparr>"
  have "heap_ok {} ext' wext ?w"
    by (rule heap_ok_exchange [OF ok ob(1), where ob' = ?ob])
      (use heap_okD(4) [OF ok ob(1)] ob(2,3) cnt in \<open>auto simp: obj_refs_def obj_weak_refs_def obj_ok_def\<close>)
  moreover have "live ?w = live w" using ob by (auto simp: live_def)
  then have "enough_fuel E ?w" using fuel ob(1) by (auto simp: enough_fuel_def members_bound_def)
  moreover have "pinned ext' ?w" using pin d by (auto simp: pinned_def)
  ultimately show ?thesis using ob by (intro exI [of _ ?w]) (simp add: set_anonymous_roots_def heap_simps has_roots_def)
qed

lemma add_anonymous_ok:
  assumes ok: "heap_ok {} ext wext w" and d: "0 < ext d" and pin: "pinned ext w" and fuel: "enough_fuel E w"
    and rs: "has_roots w d rs" and r: "r \<notin> set rs" and room: "copy_room ext wext [r] [] w"
  shows "\<exists>w'. di_add_anonymous_root d r w = Ret True w' \<and> heap_ok {} ext wext w' \<and> has_roots w' d (rs @ [r]) \<and> pinned ext w' \<and> enough_fuel E w'"
proof -
  from room have "r \<in> live w" "strong_in (objs w) r + ext r + 1 < 2 ^ 64" by (auto simp: copy_room_def)
  from ref_object_ok [OF ok this] obtain w1 where w1: "di_ref_object r w = Ret r w1" "heap_ok {} (ext(r := Suc (ext r))) wext w1" "same_shape w w1"
    by blast
  from rs obtain ob where ob: "objs w d = Some ob" "payload ob = P_roots rs" by (auto simp: has_roots_def)
  have "0 < (ext(r := Suc (ext r))) d" using d by simp
  from heap_ok_ext_obj [OF w1(2) this] obtain ob1 where ob1: "objs w1 d = Some ob1" "ref_count ob1 \<noteq> 0" by blast
  then have rs1: "has_roots w1 d rs" using same_shapeD(2) [OF w1(3) ob(1) ob1(1)] ob(2) by (simp add: has_roots_def)
  have cnt: "count_list (rs @ [r]) c + ext c = count_list rs c + (ext(r := Suc (ext r))) c" for c by simp
  from set_roots_ok [OF w1(2) rs1 d same_shape_pinned [OF w1(3) pin] enough_fuel_shape [OF w1(3) fuel] cnt] obtain w' where
    w': "set_anonymous_roots d (rs @ [r]) w1 = Ret () w'" "heap_ok {} ext wext w'" "has_roots w' d (rs @ [r])" "pinned ext w'" "enough_fuel E w'"
    by auto
  have "di_add_anonymous_root d r w = Ret True w'"
    using r get_roots [OF rs] w1(1) get_roots [OF rs1] w'(1) by (simp add: di_add_anonymous_root_def mbind_Ret mseq_Ret outcome_simps)
  with w' show ?thesis by blast
qed

lemma remove_anonymous_ok:
  assumes E: "dtors_neutral E" and ok: "heap_ok {} ext wext w" and d: "0 < ext d" and pin: "pinned ext w" and fuel: "enough_fuel E w"
    and rs: "has_roots w d rs" and r: "r \<in> set rs"
  shows "\<exists>w'. di_remove_anonymous_root E d r w = Ret True w' \<and> heap_ok {} ext wext w' \<and> has_roots w' d (remove1 r rs)"
proof -
  let ?e = "ext(r := Suc (ext r))"
  have cnt: "count_list (remove1 r rs) c + ?e c = count_list rs c + ext c" for c
    using r by (induction rs) auto
  have de: "0 < ?e d" and pe: "pinned ?e w" using d pin by (auto elim: pinned_mono)
  from set_roots_ok [OF ok rs de pe fuel cnt] obtain w1 where w1: "set_anonymous_roots d (remove1 r rs) w = Ret () w1"
    "heap_ok {} ?e wext w1" "has_roots w1 d (remove1 r rs)" "pinned ?e w1" "enough_fuel E w1" by blast
  have pin1: "pinned ext w1"
  proof -
    have "objs w1 = (objs w)(d := objs w1 d)" using w1(1) rs by (auto simp: set_anonymous_roots_def has_roots_def heap_simps)
    then show ?thesis using pin d unfolding pinned_def by (metis fun_upd_other)
  qed
  from unref_object_ok [OF E w1(2) pin1 w1(5)] obtain w2 where w2: "di_unref_object E r w1 = Ret () w2" "heap_ok {} ext wext w2" "shrinks w1 w2"
    by blast
  from heap_ok_ext_obj [OF w2(2) d] obtain ob2 where ob2: "objs w2 d = Some ob2" "ref_count ob2 \<noteq> 0" by blast
  from shrinks_keeps [OF w2(3) ob2] w1(3) ob2 have "has_roots w2 d (remove1 r rs)" by (auto simp: has_roots_def)
  moreover have "di_remove_anonymous_root E d r w = Ret True w2"
    using r get_roots [OF rs] w1(1) w2(1) by (simp add: di_remove_anonymous_root_def mbind_Ret mseq_Ret outcome_simps)
  ultimately show ?thesis using w2(2) by blast
qed

text \<open>
  C25: Adding an anonymous root stores one counted reference to the object, adding it again is refused, removing it drops
  that reference and restores the registry, and removing it again is refused; the counts are exact throughout.
\<close>

theorem anonymous_root_added_once:
  assumes "dtors_neutral E" and "heap_ok {} ext wext w" and "0 < ext d" and "pinned ext w" and "enough_fuel E w"
    and "has_roots w d rs" and "r \<notin> set rs" and "copy_room ext wext [r] [] w"
  shows "\<exists>w1 w2. di_add_anonymous_root d r w = Ret True w1 \<and> heap_ok {} ext wext w1 \<and> has_roots w1 d (rs @ [r]) \<and>
    di_add_anonymous_root d r w1 = Ret False w1 \<and>
    di_remove_anonymous_root E d r w1 = Ret True w2 \<and> heap_ok {} ext wext w2 \<and> has_roots w2 d rs \<and>
    di_remove_anonymous_root E d r w2 = Ret False w2"
proof -
  from add_anonymous_ok [OF assms(2-8)] obtain w1 where w1: "di_add_anonymous_root d r w = Ret True w1" "heap_ok {} ext wext w1"
    "has_roots w1 d (rs @ [r])" "pinned ext w1" "enough_fuel E w1" by blast
  from remove_anonymous_ok [OF assms(1) w1(2) assms(3) w1(4,5,3), of r] obtain w2 where
    w2: "di_remove_anonymous_root E d r w1 = Ret True w2" "heap_ok {} ext wext w2" "has_roots w2 d (remove1 r (rs @ [r]))" by auto
  have rs2: "has_roots w2 d rs" using w2(3) assms(7) by (simp add: remove1_append)
  have "di_add_anonymous_root d r w1 = Ret False w1" "di_remove_anonymous_root E d r w2 = Ret False w2"
    using get_roots [OF w1(3)] get_roots [OF rs2] assms(7)
    by (simp_all add: di_add_anonymous_root_def di_remove_anonymous_root_def mbind_Ret outcome_simps)
  with w1 w2 rs2 show ?thesis by blast
qed

section \<open>Named roots\<close>

definition root_member :: "string \<times> di_variant \<Rightarrow> bool" where
  "root_member p \<longleftrightarrow> (\<exists>k. fst p = ''___root_'' @ k)"

lemma root_member_iff:
  "root_member (k, v) \<longleftrightarrow> length ''___root_'' \<le> length k \<and> strncmp_eq k ''___root_'' (length ''___root_'')"
proof (cases "length ''___root_'' \<le> length k")
  case True
  have "strncmp_eq k ''___root_'' (length ''___root_'') \<longleftrightarrow> prefix ''___root_'' k"
    using True by (intro strncmp_eq_prefix) auto
  with True show ?thesis by (auto simp: root_member_def prefix_def)
qed (auto simp: root_member_def)

lemma hash_at:
  assumes "distinct (hash_keys (front @ (k, v) # rear))"
  shows "hash_find k (front @ (k, v) # rear) = Some v" and "hash_del k (front @ (k, v) # rear) = front @ rear"
    and "hash_next k (front @ (k, v) # rear) = (case rear of [] \<Rightarrow> None | (k, _) # _ \<Rightarrow> Some k)"
  using assms by (induction front) (auto split: list.splits)

lemma clear_loop_ok:
  assumes E: "dtors_neutral E" and d: "0 < ext d"
  shows "heap_ok {} ext wext w \<Longrightarrow> pinned ext w \<Longrightarrow> enough_fuel E w \<Longrightarrow> objs w d = Some ob \<Longrightarrow> members ob = front @ rear \<Longrightarrow> length rear \<le> n \<Longrightarrow>
    \<exists>w' ob'. clear_roots_loop E d n (case rear of [] \<Rightarrow> None | (k, _) # _ \<Rightarrow> Some k) w = Ret () w' \<and> heap_ok {} ext wext w' \<and>
      objs w' d = Some ob' \<and> members ob' = front @ filter (\<lambda>p. \<not> root_member p) rear"
proof (induction rear arbitrary: front n w ob)
  case Nil
  then show ?case by (auto simp: outcome_simps)
next
  case (Cons p rear)
  obtain k v where p: "p = (k, v)" by (cases p)
  obtain m where n: "n = Suc m" using Cons.prems(6) by (cases n) auto
  have "distinct (hash_keys (front @ (k, v) # rear))"
    using heap_okD(4) [OF Cons.prems(1,4)] Cons.prems(5) p by (simp add: obj_ok_def)
  note at = hash_at [OF this]
  have mem: "members ob = front @ (k, v) # rear" using Cons.prems(5) p by simp
  show ?case
  proof (cases "root_member p")
    case True
    from delete_member_raw_ok [OF E Cons.prems(1) d Cons.prems(2-4), of k v] at(1) mem obtain w1 ob1 where
      w1: "di_delete_member_raw E d (Some k) w = Ret 0 w1" "heap_ok {} ext wext w1" "objs w1 d = Some ob1" "members ob1 = hash_del k (members ob)"
        "shrinks_on {d} w w1" by auto
    have "enough_fuel E w1"
      using Cons.prems(3) shrinks_members_bound [OF w1(5)] card_live_shrinks [OF w1(5) Cons.prems(1)] by (auto simp: enough_fuel_def)
    from Cons.IH [OF w1(2) shrinks_pinned [OF w1(5) Cons.prems(2)] this w1(3), of front m] w1(4) at(2) mem Cons.prems(6) n obtain w' ob' where
      w': "clear_roots_loop E d m (case rear of [] \<Rightarrow> None | (k, _) # _ \<Rightarrow> Some k) w1 = Ret () w'" "heap_ok {} ext wext w'"
        "objs w' d = Some ob'" "members ob' = front @ filter (\<lambda>p. \<not> root_member p) rear" by auto
    have "clear_roots_loop E d n (case p # rear of [] \<Rightarrow> None | (k, _) # _ \<Rightarrow> Some k) w = Ret () w'"
      using True p n Cons.prems(4) mem at(1,3) w1(1) w'(1) root_member_iff [of k v]
      by (simp add: mbind_Ret mseq_Ret heap_simps outcome_simps)
    with w' True show ?thesis by auto
  next
    case False
    from Cons.IH [OF Cons.prems(1-4), of "front @ [p]" m] Cons.prems(5,6) n obtain w' ob' where
      w': "clear_roots_loop E d m (case rear of [] \<Rightarrow> None | (k, _) # _ \<Rightarrow> Some k) w = Ret () w'" "heap_ok {} ext wext w'"
        "objs w' d = Some ob'" "members ob' = front @ p # filter (\<lambda>p. \<not> root_member p) rear" by auto
    have "clear_roots_loop E d n (case p # rear of [] \<Rightarrow> None | (k, _) # _ \<Rightarrow> Some k) w = Ret () w'"
      using False p n Cons.prems(4) mem at(1,3) w'(1) root_member_iff [of k v]
      by (auto simp: mbind_Ret mseq_Ret heap_simps outcome_simps)
    with w' False show ?thesis by auto
  qed
qed

text \<open>
  Clearing the roots removes exactly the members that hold named roots, whatever is destroyed on the way, and keeps the
  reference counts exact.
\<close>

theorem clear_roots_removes_named:
  assumes "dtors_neutral E" and "0 < ext d" and "heap_ok {} ext wext w" and "pinned ext w" and "enough_fuel E w" and "objs w d = Some ob"
  shows "\<exists>w' ob'. di_clear_roots E d w = Ret () w' \<and> heap_ok {} ext wext w' \<and> objs w' d = Some ob' \<and>
    members ob' = filter (\<lambda>p. \<not> root_member p) (members ob)"
proof -
  have "length (members ob) \<le> e_fuel E" using assms(5,6) by (auto simp: enough_fuel_def members_bound_def)
  from clear_loop_ok [OF assms(1-6), of "[]" "members ob", OF _ this] assms(6) show ?thesis
    by (auto simp: di_clear_roots_def mbind_Ret heap_simps)
qed

section \<open>A concrete registry\<close>

text \<open>A registry (2) with one named root (3), and another object (4).\<close>

definition roots_heap :: heap where
  "roots_heap = [2 \<mapsto> (di_init_object (P_roots []))\<lparr>members := [(''___root_a'', V_object 3), (''__type'', V_string_literal ''deai:Roots'')]\<rparr>,
     3 \<mapsto> di_init_object P_object, 4 \<mapsto> di_init_object P_object]"

definition roots_world :: world where
  "roots_world = empty_world\<lparr>objs := roots_heap, next_addr := 5\<rparr>"

definition roots_ext :: "addr \<Rightarrow> nat" where
  "roots_ext a = (if a = 2 \<or> a = 4 then 1 else 0)"

lemma roots_dom: "dom roots_heap = {2, 3, 4}"
  by (auto simp: roots_heap_def)

lemma roots_counts: "strong_in roots_heap a = count_list [3] a" "weak_in roots_heap a = 0"
  unfolding count_in_def roots_dom
  by (simp_all add: roots_heap_def obj_refs_def obj_weak_refs_def di_init_object_def)

lemma roots_cases:
  assumes "roots_heap a = Some ob"
  obtains "a = 2" "ob = (di_init_object (P_roots []))\<lparr>members := [(''___root_a'', V_object 3), (''__type'', V_string_literal ''deai:Roots'')]\<rparr>"
    | "a = 3" "ob = di_init_object P_object" | "a = 4" "ob = di_init_object P_object"
  using assms unfolding roots_heap_def by (auto split: if_splits)

lemma roots_heap_ok: "heap_ok {} roots_ext (\<lambda>_. 0) roots_world"
  unfolding heap_ok_def
proof (intro conjI allI impI)
  fix a ob assume "objs roots_world a = Some ob"
  then have "roots_heap a = Some ob" by (simp add: roots_world_def)
  then show "obj_ok {} roots_ext (\<lambda>_. 0) (objs roots_world) a ob"
    by (cases rule: roots_cases)
      (simp_all add: obj_ok_def roots_world_def roots_counts roots_ext_def di_init_object_def)
next
  fix a assume "objs roots_world a = None"
  then have "a \<notin> {2, 3, 4}" using roots_dom by (auto simp: roots_world_def)
  then show "strong_in (objs roots_world) a + roots_ext a = 0" "weak_in (objs roots_world) a + 0 = 0"
    by (simp_all add: roots_world_def roots_counts roots_ext_def)
qed (simp_all add: roots_world_def roots_dom lists_ok_def empty_world_def)

lemma roots_facts:
  "pinned ext roots_world" "enough_fuel demo_env roots_world" "has_roots roots_world 2 []" "4 \<in> live roots_world"
proof -
  show "pinned ext roots_world"
    by (auto simp: pinned_def roots_world_def di_init_object_def elim!: roots_cases)
  have "live roots_world = {2, 3, 4}" by (auto simp: live_def roots_world_def roots_heap_def di_init_object_def)
  moreover have "members_bound (e_fuel demo_env) roots_world"
    by (auto simp: members_bound_def roots_world_def di_init_object_def demo_env_def elim!: roots_cases)
  ultimately show "enough_fuel demo_env roots_world" "4 \<in> live roots_world" by (simp_all add: enough_fuel_def demo_env_def)
  show "has_roots roots_world 2 []" by (simp add: has_roots_def roots_world_def roots_heap_def di_init_object_def)
qed

theorem anonymous_root_added_once_witness:
  "\<exists>w1 w2. di_add_anonymous_root 2 4 roots_world = Ret True w1 \<and> heap_ok {} roots_ext (\<lambda>_. 0) w1 \<and> has_roots w1 2 ([] @ [4]) \<and>
    di_add_anonymous_root 2 4 w1 = Ret False w1 \<and>
    di_remove_anonymous_root demo_env 2 4 w1 = Ret True w2 \<and> heap_ok {} roots_ext (\<lambda>_. 0) w2 \<and> has_roots w2 2 [] \<and>
    di_remove_anonymous_root demo_env 2 4 w2 = Ret False w2"
proof (rule anonymous_root_added_once [OF demo_dtors roots_heap_ok _ roots_facts(1-3)])
  show "copy_room roots_ext (\<lambda>_. 0) [4] [] roots_world"
    using roots_facts(4) by (simp add: copy_room_def roots_world_def roots_counts roots_ext_def)
qed (simp_all add: roots_ext_def)

theorem clear_roots_removes_named_witness:
  "\<exists>w' ob'. di_clear_roots demo_env 2 roots_world = Ret () w' \<and> heap_ok {} roots_ext (\<lambda>_. 0) w' \<and> objs w' 2 = Some ob' \<and>
    members ob' = filter (\<lambda>p. \<not> root_member p) [(''___root_a'', V_object 3), (''__type'', V_string_literal ''deai:Roots'')]"
proof -
  obtain ob where ob: "objs roots_world 2 = Some ob"
    "members ob = [(''___root_a'', V_object 3), (''__type'', V_string_literal ''deai:Roots'')]"
    by (simp add: roots_world_def roots_heap_def)
  from clear_roots_removes_named [OF demo_dtors _ roots_heap_ok roots_facts(1,2) ob(1)] ob(2) show ?thesis
    by (simp add: roots_ext_def)
qed

end
