(* ===== verification/Deai_Spawn_Props.thy ===== *)
theory Deai_Spawn_Props
  imports Deai_Spawn
begin

text \<open>
  The output of a child process: whatever pieces \<^verbatim>\<open>read\<close> returns, the listeners get the lines of the whole output, and the unfinished
  last line waits in the buffer.
\<close>

section \<open>Lines\<close>

text \<open>The reference: the complete lines, given an unfinished line, and the unfinished line afterwards.\<close>

fun lines_of :: "char list \<Rightarrow> char list \<Rightarrow> c_string list \<times> char list" where
  "lines_of acc [] = ([], acc)"
| "lines_of acc (x # xs) =
     (if x = CHR 0x0A then (case lines_of [] xs of (ls, r) \<Rightarrow> (acc # ls, r)) else lines_of (acc @ [x]) xs)"

lemma lines_of_append:
  "lines_of acc (xs @ ys) = (case lines_of acc xs of (l1, r1) \<Rightarrow> case lines_of r1 ys of (l2, r2) \<Rightarrow> (l1 @ l2, r2))"
  by (induction acc xs rule: lines_of.induct) (auto split: prod.splits)

lemma lines_of_unfinished: "CHR 0x0A \<notin> set xs \<Longrightarrow> lines_of acc xs = ([], acc @ xs)"
  by (induction xs arbitrary: acc) auto

lemma lines_of_line:
  assumes "memchr data (CHR 0x0A) = Some eol"
  shows "lines_of acc data = (case lines_of [] (drop (eol + 1) data) of (ls, r) \<Rightarrow> ((acc @ take eol data) # ls, r))"
proof -
  from assms have eol: "eol < length data" "data ! eol = CHR 0x0A" "CHR 0x0A \<notin> set (take eol data)" by (auto simp: memchr_Some)
  then have "data = take eol data @ CHR 0x0A # drop (eol + 1) data" by (metis Suc_eq_plus1 id_take_nth_drop)
  then have "lines_of acc data = lines_of acc (take eol data @ CHR 0x0A # drop (eol + 1) data)" by simp
  also have "\<dots> = (case lines_of [] (drop (eol + 1) data) of (ls, r) \<Rightarrow> ((acc @ take eol data) # ls, r))"
    by (simp add: lines_of_append lines_of_unfinished [OF eol(3)] split: prod.splits)
  finally show ?thesis .
qed

section \<open>Listeners that let the child be\<close>

text \<open>
  A listener may do anything that leaves the buffer of the child and its pending input alone; \<open>obs\<close> is what it has recorded of the
  lines, and \<open>calm\<close> the states in which it works.
\<close>

lemma child_buf_input: "child_buf c idx w = Ret x w \<Longrightarrow> child_buf c idx (w\<lparr>fd_reads := r\<rparr>) = Ret x (w\<lparr>fd_reads := r\<rparr>)"
  by (auto simp: child_buf_def mbind_def get_obj_def outcome_simps split: option.splits payload.splits)

locale line_sink =
  fixes E :: env and c :: addr and idx :: nat and ev :: c_string and calm :: "world \<Rightarrow> bool" and obs :: "world \<Rightarrow> c_string list"
  assumes emit: "calm w \<Longrightarrow> child_buf c idx w = Ret (Some b) w \<Longrightarrow>
      \<exists>w'. di_emit E c ev [V_string_literal l] w = Ret () w' \<and> calm w' \<and> child_buf c idx w' = Ret (Some b) w' \<and>
        obs w' = obs w @ [l] \<and> fd_reads w' = fd_reads w"
    and store: "calm w \<Longrightarrow> child_buf c idx w = Ret (Some b) w \<Longrightarrow>
      \<exists>w'. set_child_buf c idx (Some b') w = Ret () w' \<and> calm w' \<and> child_buf c idx w' = Ret (Some b') w' \<and>
        obs w' = obs w \<and> fd_reads w' = fd_reads w"
    and input: "calm w \<Longrightarrow> calm (w\<lparr>fd_reads := r\<rparr>)" "obs (w\<lparr>fd_reads := r\<rparr>) = obs w"
begin

lemma checked: "child_buf c idx w = Ret (Some b) w \<Longrightarrow> checked_buf c idx w = Ret b w"
  by (simp add: checked_buf_def mbind_Ret outcome_simps)

lemma line_out:
  assumes "calm w" and "child_buf c idx w = Ret (Some b) w" and "buf_ok b" and "NUL \<notin> set line"
  shows "\<exists>w' b'. (if \<not> string_buf_is_empty b
                then mseq (set_child_buf c idx (Some (string_buf_push b (c_str line))))
                     (mbind (dump_child_buf c idx) (\<lambda>out. di_emit E c ev [V_string_literal out]))
                else di_emit E c ev [V_string_literal (c_str line)]) w = Ret () w' \<and>
    calm w' \<and> child_buf c idx w' = Ret (Some b') w' \<and> buf_ok b' \<and> buf_content b' = [] \<and> obs w' = obs w @ [buf_content b @ line] \<and>
    fd_reads w' = fd_reads w"
proof (cases "b = []")
  case True
  from emit [OF assms(1,2), of line] assms(3) True show ?thesis
    using c_str_no_NUL [OF assms(4)] by (auto simp: string_buf_is_empty_def buf_content_def)
next
  case False
  let ?b = "string_buf_push b line"
  note push = buf_ok_push [OF assms(3,4)]
  from store [OF assms(1,2), of ?b] obtain w1 where w1: "set_child_buf c idx (Some ?b) w = Ret () w1" "calm w1"
    "child_buf c idx w1 = Ret (Some ?b) w1" "obs w1 = obs w" "fd_reads w1 = fd_reads w" by blast
  from store [OF w1(2,3), of string_buf_new] obtain w2 where w2: "set_child_buf c idx (Some string_buf_new) w1 = Ret () w2" "calm w2"
    "child_buf c idx w2 = Ret (Some string_buf_new) w2" "obs w2 = obs w1" "fd_reads w2 = fd_reads w1" by blast
  have "dump_child_buf c idx w1 = Ret (buf_content b @ line) w2"
    using checked [OF w1(3)] string_buf_dump_ok [OF push(1), of NUL] push(2) w2(1)
    by (simp add: dump_child_buf_def mbind_Ret mseq_Ret outcome_simps)
  moreover from emit [OF w2(2,3), of "buf_content b @ line"] obtain w3 where
    "di_emit E c ev [V_string_literal (buf_content b @ line)] w2 = Ret () w3" "calm w3" "child_buf c idx w3 = Ret (Some string_buf_new) w3"
    "obs w3 = obs w2 @ [buf_content b @ line]" "fd_reads w3 = fd_reads w2" by blast
  ultimately show ?thesis
    using False w1 w2 buf_ok_new c_str_no_NUL [OF assms(4)]
    by (intro exI [of _ w3] exI [of _ string_buf_new]) (simp add: string_buf_is_empty_def mbind_Ret mseq_Ret)
qed

lemma lines_out:
  "calm w \<Longrightarrow> child_buf c idx w = Ret (Some b) w \<Longrightarrow> buf_ok b \<Longrightarrow> NUL \<notin> set data \<Longrightarrow>
    \<exists>w' b'. output_lines E c idx ev data w = Ret False w' \<and> calm w' \<and> child_buf c idx w' = Ret (Some b') w' \<and> buf_ok b' \<and>
      buf_content b' = snd (lines_of (buf_content b) data) \<and> obs w' = obs w @ fst (lines_of (buf_content b) data) \<and> fd_reads w' = fd_reads w"
proof (induction "length data" arbitrary: data w b rule: less_induct)
  case less
  show ?case
  proof (cases "memchr data (CHR 0x0A)")
    case None
    then have nl: "CHR 0x0A \<notin> set data" by (simp add: memchr_None)
    have "NUL \<notin> set (take (length data) data)" using less.prems(4) by simp
    note lp = buf_ok_lpush [OF less.prems(3) this order_refl]
    from store [OF less.prems(1,2), of "string_buf_lpush b data (length data)"] lp None nl show ?thesis
      using checked [OF less.prems(2)]
      by (auto simp: output_lines.simps [of E c idx ev data] mbind_Ret mseq_Ret outcome_simps lines_of_unfinished)
  next
    case (Some eol)
    then have eol: "eol < length data" by (simp add: memchr_Some)
    have nul: "NUL \<notin> set (take eol data)" "NUL \<notin> set (drop (eol + 1) data)"
      using less.prems(4) by (meson in_set_takeD, meson in_set_dropD)
    from line_out [OF less.prems(1-3) nul(1)] obtain w1 b1 where w1:
      "(if \<not> string_buf_is_empty b
                then mseq (set_child_buf c idx (Some (string_buf_push b (c_str (take eol data)))))
                     (mbind (dump_child_buf c idx) (\<lambda>out. di_emit E c ev [V_string_literal out]))
                else di_emit E c ev [V_string_literal (c_str (take eol data))]) w = Ret () w1"
      "calm w1" "child_buf c idx w1 = Ret (Some b1) w1" "buf_ok b1" "buf_content b1 = []" "obs w1 = obs w @ [buf_content b @ take eol data]"
      "fd_reads w1 = fd_reads w" by blast
    have "length (drop (eol + 1) data) < length data" using eol by simp
    from less.hyps [OF this w1(2-4) nul(2)] obtain w' b' where w': "output_lines E c idx ev (drop (eol + 1) data) w1 = Ret False w'"
      "calm w'" "child_buf c idx w' = Ret (Some b') w'" "buf_ok b'" "buf_content b' = snd (lines_of [] (drop (eol + 1) data))"
      "obs w' = obs w1 @ fst (lines_of [] (drop (eol + 1) data))" "fd_reads w' = fd_reads w1" using w1(5) by auto
    have "output_lines E c idx ev data w = Ret False w'"
      using Some checked [OF less.prems(2)] w1(1,3) w'(1)
      by (simp add: output_lines.simps [of E c idx ev data] mbind_Ret mseq_Ret)
    with w' w1(6,7) lines_of_line [OF Some, of "buf_content b"] show ?thesis by (auto split: prod.splits)
  qed
qed

lemma reads_out:
  "calm w \<Longrightarrow> child_buf c idx w = Ret (Some b) w \<Longrightarrow> buf_ok b \<Longrightarrow> [] \<notin> set (fd_reads w fd) \<Longrightarrow> NUL \<notin> set (concat (fd_reads w fd)) \<Longrightarrow>
    length (concat (fd_reads w fd)) < n \<Longrightarrow>
    \<exists>w' b'. output_reads n E c fd idx ev w = Ret () w' \<and> calm w' \<and> child_buf c idx w' = Ret (Some b') w' \<and> buf_ok b' \<and>
      buf_content b' = snd (lines_of (buf_content b) (concat (fd_reads w fd))) \<and>
      obs w' = obs w @ fst (lines_of (buf_content b) (concat (fd_reads w fd))) \<and> fd_reads w' fd = []"
proof (induction n arbitrary: w b)
  case 0
  then show ?case by simp
next
  case (Suc n)
  show ?case
  proof (cases "fd_reads w fd")
    case Nil
    with Suc.prems show ?thesis by (intro exI [of _ w] exI [of _ b]) (simp add: sys_read_def mbind_Ret outcome_simps)
  next
    case (Cons r rs)
    let ?rs = "if length r \<le> 4096 then rs else drop 4096 r # rs"
    let ?w = "w\<lparr>fd_reads := (fd_reads w)(fd := ?rs)\<rparr>"
    have ne: "r \<noteq> []" "take 4096 r \<noteq> []" using Suc.prems(4) Cons by auto
    have read: "sys_read fd w = Ret (Some (take 4096 r)) ?w" using Cons ne(1) by (auto simp: sys_read_def split: list.splits)
    have cat: "concat (r # rs) = take 4096 r @ concat ?rs" by simp
    have nul: "NUL \<notin> set (take 4096 r)" "NUL \<notin> set (concat ?rs)"
      using Suc.prems(5) unfolding Cons cat by auto
    from lines_out [OF input(1) [OF Suc.prems(1), of "(fd_reads w)(fd := ?rs)"] child_buf_input [OF Suc.prems(2)] Suc.prems(3) nul(1)]
    obtain w1 b1 where w1: "output_lines E c idx ev (take 4096 r) ?w = Ret False w1" "calm w1" "child_buf c idx w1 = Ret (Some b1) w1" "buf_ok b1"
      "buf_content b1 = snd (lines_of (buf_content b) (take 4096 r))" "obs w1 = obs ?w @ fst (lines_of (buf_content b) (take 4096 r))"
      "fd_reads w1 = fd_reads ?w" by blast
    have rs1: "fd_reads w1 fd = ?rs" using w1(7) by simp
    have "[] \<notin> set ?rs" using Suc.prems(4) Cons by auto
    moreover have "length (concat ?rs) < n" using Suc.prems(6) ne unfolding Cons cat by (cases r) auto
    ultimately obtain w' b' where w': "output_reads n E c fd idx ev w1 = Ret () w'" "calm w'" "child_buf c idx w' = Ret (Some b') w'" "buf_ok b'"
      "buf_content b' = snd (lines_of (buf_content b1) (concat ?rs))" "obs w' = obs w1 @ fst (lines_of (buf_content b1) (concat ?rs))"
      "fd_reads w' fd = []"
      using Suc.IH [OF w1(2-4)] nul(2) unfolding rs1 by blast
    obtain y ys where y: "take 4096 r = y # ys" using ne(2) by (cases "take 4096 r") auto
    have "output_reads (Suc n) E c fd idx ev w = Ret () w'"
      unfolding output_reads.simps mbind_Ret [where m = "sys_read fd" and s = w, OF read [unfolded y]] option.case list.case
        mbind_Ret [where m = "output_lines E c idx ev (y # ys)" and s = ?w, OF w1(1) [unfolded y]] using w'(1) by simp
    with w' w1(5,6) input(2) show ?thesis
      unfolding Cons cat by (auto simp: lines_of_append split: prod.splits)
  qed
qed

end


section \<open>A recording listener\<close>

text \<open>
  A child (2) whose signal (3) has one handler (4) that prints its argument; the worlds that differ only in the buffer, the input and what
  was printed.
\<close>

definition rec_env :: env where
  "rec_env = \<lparr>e_call = (\<lambda>_ _ args. case args of [V_string_literal l] \<Rightarrow> mseq (emit_effect (Stderr l)) (mret (0, V_nil)) | _ \<Rightarrow> mret (0, V_nil)),
     e_dtor = (\<lambda>_ _. mret ()), e_native = (\<lambda>_ _. mret V_nil), e_ffi_prep = (\<lambda>_ _. True), e_field = (\<lambda>_ _ _. V_nil), e_strerror = (\<lambda>_. ''''),
     e_now = 0, e_fadd = (+), e_fsub = (-), e_junk = V_nil, e_fuel = 30\<rparr>"

definition rec_world :: "string_buf \<Rightarrow> (int \<Rightarrow> char list list) \<Rightarrow> effect list \<Rightarrow> world" where
  "rec_world b rd eff = empty_world\<lparr>objs :=
     [2 \<mapsto> (di_init_object (P_child 100 5 6 (Some b) None))\<lparr>members := [(''__signal_stdout_line'', V_object 3)]\<rparr>,
      3 \<mapsto> (di_init_object (P_signal 1))\<lparr>members := [(''handler_object_0x4'', V_object 4)]\<rparr>,
      4 \<mapsto> (di_init_object (P_raw_closure ''record''))\<lparr>call := Some ''record''\<rparr>],
     next_addr := 5, unreferred_objects := [3, 4], fd_reads := rd, effects := eff\<rparr>"

definition printed :: "world \<Rightarrow> c_string list" where
  "printed w = concat (map (\<lambda>e. case e of Stderr l \<Rightarrow> [l] | _ \<Rightarrow> []) (effects w))"

lemma rec_emit:
  "di_emit rec_env 2 ''stdout_line'' [V_string_literal l] (rec_world b rd eff) = Ret () (rec_world b rd (eff @ [Stderr l]))"
  by (simp add: di_emit_def di_emitn_def MAX_NARGS_def signal_member_name_def di_string_borrow_def c_str_def rec_env_def
    di_get_def di_getxt_def di_getx_def di_rawgetx_def di_refrawgetx_def di_lookup_def rec_world_def di_init_object_def
    scoped_object_def mscoped_def di_ref_object_def di_signal_dispatch_def get_nhandlers_def dispatch_one_def
    di_type_conversion_def di_call_object_catch_def di_call_object_def mcatch_def uninit_ret_def di_free_value_def
    di_unref_object_def numeral_eq_Suc sib_list_empty_def HANDLER_PREFIX_def di_string_starts_with_def
    mbind_def mseq_def outcome_simps heap_simps empty_world_def)
    (auto simp: fun_eq_iff)

definition rec_calm :: "world \<Rightarrow> bool" where
  "rec_calm w \<longleftrightarrow> (\<exists>b rd eff. w = rec_world b rd eff)"

lemma rec_buf:
  "child_buf 2 0 (rec_world b rd eff) = Ret (Some b) (rec_world b rd eff)"
  "set_child_buf 2 0 (Some b') (rec_world b rd eff) = Ret () (rec_world b' rd eff)"
  by (simp_all add: child_buf_def set_child_buf_def rec_world_def di_init_object_def mbind_Ret heap_simps outcome_simps empty_world_def)
    (simp add: fun_eq_iff)

lemma rec_simps:
  "fd_reads (rec_world b rd eff) = rd" "effects (rec_world b rd eff) = eff" "rec_calm (rec_world b rd eff)"
  by (auto simp: rec_calm_def rec_world_def)

interpretation recorder: line_sink rec_env 2 0 "''stdout_line''" rec_calm printed
proof
  fix w :: world and b b' l r
  assume w: "rec_calm w"
  then obtain b0 rd eff where w0: "w = rec_world b0 rd eff" by (auto simp: rec_calm_def)
  show "rec_calm (w\<lparr>fd_reads := r\<rparr>)"
    unfolding rec_calm_def w0 by (intro exI [of _ b0] exI [of _ r] exI [of _ eff]) (simp add: rec_world_def empty_world_def)
  assume "child_buf 2 0 w = Ret (Some b) w"
  then have b: "b = b0" unfolding w0 by (simp add: rec_buf)
  show "\<exists>w'. di_emit rec_env 2 ''stdout_line'' [V_string_literal l] w = Ret () w' \<and> rec_calm w' \<and> child_buf 2 0 w' = Ret (Some b) w' \<and>
      printed w' = printed w @ [l] \<and> fd_reads w' = fd_reads w"
    unfolding w0 b rec_emit
    by (intro exI [of _ "rec_world b0 rd (eff @ [Stderr l])"]) (simp add: rec_buf printed_def rec_simps)
  show "\<exists>w'. set_child_buf 2 0 (Some b') w = Ret () w' \<and> rec_calm w' \<and> child_buf 2 0 w' = Ret (Some b') w' \<and>
      printed w' = printed w \<and> fd_reads w' = fd_reads w"
    unfolding w0 rec_buf by (intro exI [of _ "rec_world b' rd eff"]) (simp add: rec_buf printed_def rec_simps)
qed (simp add: printed_def)


end
