(* ===== verification/Deai_Proctitle.thy ===== *)
theory Deai_Proctitle
  imports Deai_String_Buf
begin

text \<open>
  The process title code of \<^verbatim>\<open>main.c\<close>, which every Linux build has (\<^verbatim>\<open>HAVE_SETPROCTITLE\<close>): the
  strings of \<^verbatim>\<open>argv\<close> and \<^verbatim>\<open>environ\<close> at the end of the stack are copied to the heap, the pointers to them
  are redirected to the copy, and the old place becomes the buffer of the process title.  The
  destructor of the core object undoes all of it.  The claim at the end is about the three together.
\<close>

section \<open>The image of the process\<close>

text \<open>
  The mapped memory the code works on: the end of the stack, from \<open>stack_base\<close> on, and the block
  \<^verbatim>\<open>malloc\<close> returns, at \<open>copy_base\<close> (\<open>None\<close> before and after its life time).  \<open>argv_ptrs\<close> and \<open>environ_ptrs\<close>
  are the pointers before the terminating null of the two arrays.  The fields \<open>proctitle\<close>,
  \<open>proctitle_end\<close> and \<open>orig_proctitle\<close> are those of \<^verbatim>\<open>struct deai\<close>.
\<close>

record process =
  stack_base :: nat
  stack :: "char list"
  copy_base :: nat
  copied :: "char list option"
  argv_ptrs :: "nat list"
  environ_ptrs :: "nat list"
  proctitle :: nat
  proctitle_end :: nat
  orig_proctitle :: nat

text \<open>The bytes from an address to the end of the block that holds it.\<close>

definition block_from :: "nat \<Rightarrow> char list \<Rightarrow> nat \<Rightarrow> char list option" where
  "block_from base bytes a = (if base \<le> a \<and> a < base + length bytes then Some (drop (a - base) bytes) else None)"

definition bytes_from :: "process \<Rightarrow> nat \<Rightarrow> char list option" where
  "bytes_from P a =
     (case block_from (stack_base P) (stack P) a of
        Some bs \<Rightarrow> Some bs
      | None \<Rightarrow> (case copied P of None \<Rightarrow> None | Some c \<Rightarrow> block_from (copy_base P) c a))"

text \<open>The C string at an address, if a NUL byte ends it within its block.\<close>

definition string_at :: "process \<Rightarrow> nat \<Rightarrow> c_string option" where
  "string_at P a =
     (case bytes_from P a of
        None \<Rightarrow> None
      | Some bs \<Rightarrow> if NUL \<in> set bs then Some (c_str bs) else None)"

section \<open>Moving the arguments and the environment\<close>

text \<open>The loops that look for the end of the last string.\<close>

fun last_end :: "process \<Rightarrow> nat \<Rightarrow> nat list \<Rightarrow> nat option" where
  "last_end P e [] = Some e"
| "last_end P e (p # ps) =
     (case string_at P p of None \<Rightarrow> None | Some s \<Rightarrow> last_end P (p + length s) ps)"

definition shift_ptr :: "int \<Rightarrow> nat \<Rightarrow> nat" where
  "shift_ptr offset p = nat (int p + offset)"

definition round_page :: "nat \<Rightarrow> nat \<Rightarrow> nat" where
  "round_page pgsz e = (e div pgsz + 1) * pgsz"

text \<open>\<open>h\<close> is what \<^verbatim>\<open>malloc\<close> returns.\<close>

definition setproctitle_init :: "nat \<Rightarrow> nat \<Rightarrow> process \<Rightarrow> fault + process" where
  "setproctitle_init pgsz h P =
     (case argv_ptrs P of
        [] \<Rightarrow> Inl Null_deref
      | t # _ \<Rightarrow>
          (case last_end P t (argv_ptrs P @ environ_ptrs P) of
             None \<Rightarrow> Inl Out_of_bounds
           | Some e0 \<Rightarrow>
               (let e = round_page pgsz e0 in
                case bytes_from P t of
                  None \<Rightarrow> Inl Out_of_bounds
                | Some bs \<Rightarrow>
                    if length bs < e - t then Inl Out_of_bounds
                    else (let proctitle_offset = int h - int t in
                          Inr (P\<lparr>proctitle := t, proctitle_end := e, orig_proctitle := h,
                                 copy_base := h, copied := Some (take (e - t) bs),
                                 argv_ptrs := map (shift_ptr proctitle_offset) (argv_ptrs P),
                                 environ_ptrs := map (shift_ptr proctitle_offset) (environ_ptrs P)\<rparr>)))))"

section \<open>Setting the title\<close>

text \<open>Writing to the stack, as \<^verbatim>\<open>memset\<close>, \<^verbatim>\<open>memcpy\<close> and \<^verbatim>\<open>strncpy\<close> do.\<close>

definition stack_write :: "nat \<Rightarrow> char list \<Rightarrow> process \<Rightarrow> fault + process" where
  "stack_write a bs P =
     (if stack_base P \<le> a
      then (case buf_write (stack P) (a - stack_base P) bs of
              None \<Rightarrow> Inl Out_of_bounds
            | Some st \<Rightarrow> Inr (P\<lparr>stack := st\<rparr>))
      else Inl Out_of_bounds)"

definition strncpy_bytes :: "char list \<Rightarrow> nat \<Rightarrow> char list" where
  "strncpy_bytes src n = (let s = c_str (take n src) in s @ replicate (n - length s) NUL)"

definition di_set_pr_name :: "di_string \<Rightarrow> process \<Rightarrow> fault + process" where
  "di_set_pr_name name P =
     (case name of
        None \<Rightarrow> Inr P
      | Some bytes \<Rightarrow>
          (case stack_write (proctitle P) (replicate (proctitle_end P - proctitle P) NUL) P of
             Inl f \<Rightarrow> Inl f
           | Inr P' \<Rightarrow>
               (let nlen = length bytes;
                    nlen = (if proctitle P + nlen + 1 \<ge> proctitle_end P
                            then proctitle_end P - proctitle P - 1 else nlen)
                in stack_write (proctitle P) (strncpy_bytes bytes nlen) P')))"

section \<open>Undoing it\<close>

text \<open>The part of \<^verbatim>\<open>di_dtor\<close> that gives the memory and the pointers back.\<close>

definition restore_proctitle :: "process \<Rightarrow> fault + process" where
  "restore_proctitle P =
     (case copied P of
        None \<Rightarrow> Inl Use_after_free
      | Some c \<Rightarrow>
          (let proctitle_offset = int (proctitle P) - int (orig_proctitle P);
               proctitle_size = proctitle_end P - proctitle P
           in if length c < proctitle_size then Inl Out_of_bounds
              else (case stack_write (proctitle P) (take proctitle_size c) P of
                      Inl f \<Rightarrow> Inl f
                    | Inr P' \<Rightarrow>
                        Inr (P'\<lparr>copied := None,
                                environ_ptrs := map (\<lambda>p. if orig_proctitle P \<le> p \<and> p < orig_proctitle P + proctitle_size
                                                       then shift_ptr proctitle_offset p else p) (environ_ptrs P),
                                argv_ptrs := map (shift_ptr proctitle_offset) (argv_ptrs P)\<rparr>))))"

section \<open>What the three steps keep\<close>

text \<open>
  The image \<^verbatim>\<open>execve\<close> leaves: every string of the two arrays lies in the stack at or above \<^verbatim>\<open>argv[0]\<close>, none
  ends above the last one, the last page is mapped, and the new block does not overlap the stack.
\<close>

definition title_start :: "process \<Rightarrow> nat" where
  "title_start P = (case argv_ptrs P of [] \<Rightarrow> 0 | t # _ \<Rightarrow> t)"

definition strings_end :: "process \<Rightarrow> nat" where
  "strings_end P = (case last_end P (title_start P) (argv_ptrs P @ environ_ptrs P) of None \<Rightarrow> 0 | Some e \<Rightarrow> e)"

definition title_layout :: "nat \<Rightarrow> nat \<Rightarrow> process \<Rightarrow> bool" where
  "title_layout pgsz h P \<longleftrightarrow>
     0 < pgsz \<and> argv_ptrs P \<noteq> [] \<and> copied P = None \<and> stack_base P \<le> title_start P \<and>
     (\<forall>p \<in> set (argv_ptrs P @ environ_ptrs P). title_start P \<le> p \<and> p < stack_base P + length (stack P) \<and>
        (case string_at P p of None \<Rightarrow> False | Some s \<Rightarrow> p + length s \<le> strings_end P)) \<and>
     round_page pgsz (strings_end P) \<le> stack_base P + length (stack P) \<and>
     (stack_base P + length (stack P) \<le> h \<or> h + (round_page pgsz (strings_end P) - title_start P) \<le> stack_base P)"

text \<open>A sequence of title changes.\<close>

fun set_pr_names :: "di_string list \<Rightarrow> process \<Rightarrow> fault + process" where
  "set_pr_names [] P = Inr P"
| "set_pr_names (n # ns) P = (case di_set_pr_name n P of Inl f \<Rightarrow> Inl f | Inr P' \<Rightarrow> set_pr_names ns P')"

text \<open>\<open>P'\<close> is a state between the move of the strings of \<open>P\<close> and the destructor.\<close>

definition moved :: "nat \<Rightarrow> nat \<Rightarrow> process \<Rightarrow> process \<Rightarrow> bool" where
  "moved h e P P' \<longleftrightarrow>
     (let t = title_start P; b = stack_base P in
      stack_base P' = b \<and> proctitle P' = t \<and> proctitle_end P' = e \<and> orig_proctitle P' = h \<and> copy_base P' = h \<and>
      copied P' = Some (take (e - t) (drop (t - b) (stack P))) \<and> length (stack P') = length (stack P) \<and>
      take (t - b) (stack P') = take (t - b) (stack P) \<and> drop (e - b) (stack P') = drop (e - b) (stack P) \<and>
      argv_ptrs P' = map (shift_ptr (int h - int t)) (argv_ptrs P) \<and>
      environ_ptrs P' = map (shift_ptr (int h - int t)) (environ_ptrs P))"

lemma round_page_gt: "0 < pgsz \<Longrightarrow> e < round_page pgsz e"
  unfolding round_page_def
  by (metis add.commute div_mult_mod_eq mod_less_divisor mult.commute mult_Suc_right nat_add_left_cancel_less Suc_eq_plus1)

lemma last_end_Some:
  "(\<forall>p \<in> set ps. string_at P p \<noteq> None) \<Longrightarrow> \<exists>e'. last_end P e ps = Some e'"
  by (induction ps arbitrary: e) (auto split: option.splits)

lemma stack_write_Inr:
  assumes "stack_base P \<le> a" and "a - stack_base P + length bs \<le> length (stack P)"
  shows "stack_write a bs P =
    Inr (P\<lparr>stack := take (a - stack_base P) (stack P) @ bs @ drop (a - stack_base P + length bs) (stack P)\<rparr>)"
  using assms by (simp add: stack_write_def buf_write_ok)

lemma length_c_str: "length (c_str bs) \<le> length bs"
  by (simp add: c_str_def length_takeWhile_le)

lemma length_strncpy_bytes [simp]: "length (strncpy_bytes src n) = n"
  using length_c_str [of "take n src"] by (simp add: strncpy_bytes_def Let_def)

lemma c_str_split: "NUL \<notin> set xs \<Longrightarrow> c_str (xs @ NUL # ys) = xs"
  by (induction xs) (auto simp: c_str_def)

lemma c_str_take:
  assumes "NUL \<in> set bs" and "length (c_str bs) < n"
  shows "c_str (take n bs) = c_str bs \<and> NUL \<in> set (take n bs)"
proof -
  from split_list_first [OF assms(1)] obtain ys zs where bs: "bs = ys @ NUL # zs" and ys: "NUL \<notin> set ys"
    by blast
  from assms(2) have "length ys < n" by (simp add: bs c_str_split [OF ys])
  then have "take n bs = ys @ NUL # take (n - length ys - 1) zs"
    by (cases "n - length ys") (simp_all add: bs)
  with bs ys show ?thesis by (simp add: c_str_split)
qed

lemma strncpy_bytes_c_str:
  assumes "0 < m"
  shows "c_str (strncpy_bytes xs n @ replicate m NUL @ ys) = c_str (take n xs)"
proof -
  obtain k where m: "m = Suc k" using assms by (cases m) auto
  let ?s = "c_str (take n xs)"
  have "strncpy_bytes xs n @ replicate m NUL @ ys = ?s @ replicate (n - length ?s + m) NUL @ ys"
    by (simp add: strncpy_bytes_def Let_def replicate_add)
  also have "\<dots> = ?s @ NUL # replicate (n - length ?s + k) NUL @ ys"
    by (simp add: m)
  finally show ?thesis by (simp only: c_str_split [OF NUL_notin_c_str])
qed

lemma setproctitle_init_moved:
  assumes lay: "title_layout pgsz h P"
  obtains P' where "setproctitle_init pgsz h P = Inr P'" and "moved h (round_page pgsz (strings_end P)) P P'"
proof -
  let ?t = "title_start P" and ?b = "stack_base P" and ?e = "round_page pgsz (strings_end P)"
  from lay obtain ps where ps: "argv_ptrs P = ?t # ps"
    unfolding title_layout_def title_start_def by (cases "argv_ptrs P") auto
  from lay have "\<forall>p \<in> set (argv_ptrs P @ environ_ptrs P). string_at P p \<noteq> None"
    unfolding title_layout_def by (auto split: option.splits)
  from last_end_Some [OF this, of ?t] have le: "last_end P ?t (argv_ptrs P @ environ_ptrs P) = Some (strings_end P)"
    by (auto simp: strings_end_def)
  from lay ps have t: "?b \<le> ?t" "?t < ?b + length (stack P)" and e: "?e \<le> ?b + length (stack P)"
    unfolding title_layout_def by auto
  then have bytes: "bytes_from P ?t = Some (drop (?t - ?b) (stack P))"
    by (simp add: bytes_from_def block_from_def)
  let ?P' = "P\<lparr>proctitle := ?t, proctitle_end := ?e, orig_proctitle := h,
       copy_base := h, copied := Some (take (?e - ?t) (drop (?t - ?b) (stack P))),
       argv_ptrs := map (shift_ptr (int h - int ?t)) (argv_ptrs P),
       environ_ptrs := map (shift_ptr (int h - int ?t)) (environ_ptrs P)\<rparr>"
  from le ps have le': "last_end P ?t ((?t # ps) @ environ_ptrs P) = Some (strings_end P)" by simp
  have "setproctitle_init pgsz h P = Inr ?P'"
    unfolding setproctitle_init_def ps list.case le' option.case Let_def bytes using t e by auto
  moreover have "moved h ?e P ?P'"
    by (simp add: moved_def Let_def)
  ultimately show thesis by (rule that)
qed

text \<open>The stack after a write to the title buffer.\<close>

lemma moved_write:
  assumes mv: "moved h e P P'" and t: "stack_base P \<le> title_start P" "title_start P + length bs \<le> e"
    and e: "e \<le> stack_base P + length (stack P)"
  obtains P'' where "stack_write (title_start P) bs P' = Inr P''" and "moved h e P P''"
    and "drop (title_start P - stack_base P) (stack P'') =
      bs @ drop (length bs) (drop (title_start P - stack_base P) (stack P'))"
proof -
  let ?t = "title_start P" and ?b = "stack_base P"
  from mv have P': "stack_base P' = ?b" "length (stack P') = length (stack P)"
    by (auto simp: moved_def Let_def)
  define st where "st = take (?t - ?b) (stack P') @ bs @ drop (?t - ?b + length bs) (stack P')"
  from P' t e have len: "length (take (?t - ?b) (stack P')) = ?t - ?b" by auto
  from P' t e have w: "stack_write ?t bs P' = Inr (P'\<lparr>stack := st\<rparr>)"
    by (subst stack_write_Inr) (auto simp: st_def)
  have "take (?t - ?b) st = take (?t - ?b) (stack P')"
    using len by (simp add: st_def)
  moreover have "drop (e - ?b) st = drop (e - ?b) (stack P')"
    using len t by (simp add: st_def)
  moreover have "length st = length (stack P')"
    using P' t e by (simp add: st_def)
  ultimately have "moved h e P (P'\<lparr>stack := st\<rparr>)"
    using mv by (simp add: moved_def Let_def)
  moreover have "drop (?t - ?b) st = bs @ drop (length bs) (drop (?t - ?b) (stack P'))"
    using len by (simp add: st_def add.commute)
  ultimately show thesis using that [OF w] by simp
qed

lemma di_set_pr_name_moved:
  assumes mv: "moved h e P P'" and t: "stack_base P \<le> title_start P" "title_start P < e"
    and e: "e \<le> stack_base P + length (stack P)"
  obtains P'' where "di_set_pr_name name P' = Inr P''" and "moved h e P P''"
    and "name \<noteq> None \<Longrightarrow> string_at P'' (proctitle P'') = Some (c_str (take (e - title_start P - 1) (str_bytes name)))"
proof (cases name)
  case None
  with mv that [of P'] show thesis by (simp add: di_set_pr_name_def)
next
  case (Some bytes)
  let ?t = "title_start P" and ?b = "stack_base P"
  define n where "n = min (length bytes) (e - ?t - 1)"
  from mv have fields: "proctitle P' = ?t" "proctitle_end P' = e"
    by (auto simp: moved_def Let_def)
  from t have "?t + length (replicate (e - ?t) NUL) \<le> e" by simp
  then obtain P1 where P1: "stack_write ?t (replicate (e - ?t) NUL) P' = Inr P1" "moved h e P P1"
    "drop (?t - ?b) (stack P1) = replicate (e - ?t) NUL @ drop (e - ?t) (drop (?t - ?b) (stack P'))"
    by (rule moved_write [OF mv t(1) _ e]) simp_all
  from t have "?t + length (strncpy_bytes bytes n) \<le> e" by (simp add: n_def)
  then obtain P2 where P2: "stack_write ?t (strncpy_bytes bytes n) P1 = Inr P2" "moved h e P P2"
    "drop (?t - ?b) (stack P2) = strncpy_bytes bytes n @ drop n (drop (?t - ?b) (stack P1))"
    by (rule moved_write [OF P1(2) t(1) _ e]) simp_all
  have "(if ?t + length bytes + 1 \<ge> e then e - ?t - 1 else length bytes) = n"
    using t by (auto simp: n_def)
  then have run: "di_set_pr_name name P' = Inr P2"
    unfolding di_set_pr_name_def Some option.case fields P1(1) sum.case Let_def by (simp only: P2(1))
  have "n < e - ?t" using t by (auto simp: n_def)
  then have "drop (?t - ?b) (stack P2) =
      strncpy_bytes bytes n @ replicate (e - ?t - n) NUL @ drop (e - ?t) (drop (?t - ?b) (stack P'))"
    by (simp add: P2(3) P1(3))
  then have "c_str (drop (?t - ?b) (stack P2)) = c_str (take n bytes)" "NUL \<in> set (drop (?t - ?b) (stack P2))"
    using \<open>n < e - ?t\<close> by (simp_all add: strncpy_bytes_c_str)
  moreover have "take n bytes = take (e - ?t - 1) bytes" by (simp add: n_def min_def)
  moreover have "bytes_from P2 ?t = Some (drop (?t - ?b) (stack P2))"
    using P2(2) t e by (simp add: bytes_from_def block_from_def moved_def Let_def)
  moreover have "proctitle P2 = ?t" using P2(2) by (simp add: moved_def Let_def)
  ultimately have "string_at P2 (proctitle P2) = Some (c_str (take (e - ?t - 1) (str_bytes name)))"
    by (simp add: string_at_def Some str_bytes_def)
  with run P2(2) show thesis by (rule that)
qed

text \<open>A redirected pointer reads the string it read before.\<close>

lemma moved_string_at:
  assumes mv: "moved h (round_page pgsz (strings_end P)) P P'" and lay: "title_layout pgsz h P"
    and p: "p \<in> set (argv_ptrs P @ environ_ptrs P)"
  shows "string_at P' (shift_ptr (int h - int (title_start P)) p) = string_at P p"
proof -
  let ?t = "title_start P" and ?b = "stack_base P" and ?e = "round_page pgsz (strings_end P)"
  let ?q = "shift_ptr (int h - int ?t) p"
  from lay have pg: "strings_end P < ?e" by (simp add: title_layout_def round_page_gt)
  from lay p obtain s where s: "string_at P p = Some s" "p + length s \<le> strings_end P"
    and pb: "?t \<le> p" "p < ?b + length (stack P)" and b: "?b \<le> ?t" and e: "?e \<le> ?b + length (stack P)"
    unfolding title_layout_def by (fastforce split: option.splits)
  from pb have q: "?q = h + (p - ?t)" by (simp add: shift_ptr_def)
  from pb b have "bytes_from P p = Some (drop (p - ?b) (stack P))"
    by (simp add: bytes_from_def block_from_def)
  with s(1) have nul: "NUL \<in> set (drop (p - ?b) (stack P))" and cs: "s = c_str (drop (p - ?b) (stack P))"
    by (auto simp: string_at_def split: if_splits)
  from lay s(2) pg pb have out: "?b + length (stack P) \<le> ?q \<or> ?q < ?b"
    unfolding title_layout_def q by auto
  have "bytes_from P' ?q = Some (drop (p - ?t) (take (?e - ?t) (drop (?t - ?b) (stack P))))"
    using mv out s(2) pg pb e b by (auto simp: bytes_from_def block_from_def moved_def Let_def q)
  also have "drop (p - ?t) (take (?e - ?t) (drop (?t - ?b) (stack P))) = take (?e - p) (drop (p - ?b) (stack P))"
    using pb b by (simp add: drop_take add.commute)
  finally have "bytes_from P' ?q = Some (take (?e - p) (drop (p - ?b) (stack P)))" .
  moreover have "length (c_str (drop (p - ?b) (stack P))) < ?e - p"
    using s(2) pg cs by simp
  ultimately show ?thesis
    using c_str_take [OF nul] s(1) cs by (simp add: string_at_def [of P'])
qed

lemma set_pr_names_moved:
  assumes "moved h e P P'" and "stack_base P \<le> title_start P" "title_start P < e"
    and "e \<le> stack_base P + length (stack P)"
  shows "\<exists>P''. set_pr_names ns P' = Inr P'' \<and> moved h e P P''"
  using assms(1)
proof (induction ns arbitrary: P')
  case (Cons n ns)
  from di_set_pr_name_moved [OF Cons.prems assms(2-), of n]
  obtain P1 where "di_set_pr_name n P' = Inr P1" and "moved h e P P1" by blast
  with Cons.IH [of P1] show ?case by simp
qed simp

lemma shift_back:
  "t \<le> p \<Longrightarrow> shift_ptr (int t - int h) (shift_ptr (int h - int t) p) = p"
  by (simp add: shift_ptr_def)

lemma shift_in_copy:
  "t \<le> p \<Longrightarrow> p < e \<Longrightarrow> h \<le> shift_ptr (int h - int t) p \<and> shift_ptr (int h - int t) p < h + (e - t)"
  by (simp add: shift_ptr_def nat_less_iff)

lemma restore_moved:
  assumes mv: "moved h e P P'" and b: "stack_base P \<le> title_start P" "title_start P < e"
    and e: "e \<le> stack_base P + length (stack P)"
    and ptrs: "\<forall>p \<in> set (argv_ptrs P @ environ_ptrs P). title_start P \<le> p \<and> p < e"
  obtains P'' where "restore_proctitle P' = Inr P''" and "stack P'' = stack P" and "copied P'' = None"
    and "argv_ptrs P'' = argv_ptrs P" and "environ_ptrs P'' = environ_ptrs P"
proof -
  let ?t = "title_start P" and ?b = "stack_base P"
  define c where "c = take (e - ?t) (drop (?t - ?b) (stack P))"
  from mv have P': "stack_base P' = ?b" "proctitle P' = ?t" "proctitle_end P' = e" "orig_proctitle P' = h"
    "copied P' = Some c" "length (stack P') = length (stack P)"
    "take (?t - ?b) (stack P') = take (?t - ?b) (stack P)" "drop (e - ?b) (stack P') = drop (e - ?b) (stack P)"
    "argv_ptrs P' = map (shift_ptr (int h - int ?t)) (argv_ptrs P)"
    "environ_ptrs P' = map (shift_ptr (int h - int ?t)) (environ_ptrs P)"
    by (auto simp: moved_def Let_def c_def)
  from b e have len: "length c = e - ?t" by (simp add: c_def)
  have eb: "?t - ?b + (e - ?t) = e - ?b" using b by simp
  have "take (?t - ?b) (stack P) @ c @ drop (e - ?b) (stack P) = stack P"
    unfolding c_def eb [symmetric] by (metis append_take_drop_id drop_drop add.commute)
  then have w: "stack_write ?t c P' = Inr (P'\<lparr>stack := stack P\<rparr>)"
    using b e P' len eb by (subst stack_write_Inr) auto
  have guard: "map (\<lambda>p. if h \<le> p \<and> p < h + (e - ?t) then shift_ptr (int ?t - int h) p else p)
      (map (shift_ptr (int h - int ?t)) (environ_ptrs P)) = environ_ptrs P"
    unfolding map_map comp_def by (rule map_idI) (use ptrs b shift_in_copy [of ?t _ e h] in \<open>auto simp: shift_back\<close>)
  have argv: "map (shift_ptr (int ?t - int h)) (map (shift_ptr (int h - int ?t)) (argv_ptrs P)) = argv_ptrs P"
    using ptrs by (auto intro!: map_idI simp: shift_back)
  have "restore_proctitle P' = Inr (P'\<lparr>stack := stack P, copied := None,
      environ_ptrs := environ_ptrs P, argv_ptrs := argv_ptrs P\<rparr>)"
    unfolding restore_proctitle_def P'(5) option.case Let_def P'(2-4) P'(9,10) guard argv using len w by simp
  from that [OF this] show thesis by simp
qed

text \<open>
  C33: The process title borrows the memory of the arguments and gives it back.  On the memory image a
  program starts with, \<^verbatim>\<open>setproctitle_init\<close>, any sequence of title changes and the destructor's
  restore all succeed; meanwhile every argument and environment string reads as before through the
  redirected pointers, the title reads as the last name given, cut to the buffer (its terminating NUL
  always fits), and no byte of the stack outside the buffer changes; afterwards the stack and both
  pointer arrays are exactly the original ones.
\<close>

theorem proctitle_borrows_argv:
  assumes "title_layout pgsz h P"
  shows "\<exists>P1 P2 P3. setproctitle_init pgsz h P = Inr P1 \<and> set_pr_names (names @ [Some name]) P1 = Inr P2 \<and>
    restore_proctitle P2 = Inr P3 \<and>
    map (string_at P2) (argv_ptrs P2) = map (string_at P) (argv_ptrs P) \<and>
    map (string_at P2) (environ_ptrs P2) = map (string_at P) (environ_ptrs P) \<and>
    string_at P2 (proctitle P2) = Some (c_str (take (proctitle_end P2 - proctitle P2 - 1) name)) \<and>
    take (proctitle P2 - stack_base P) (stack P2) = take (proctitle P2 - stack_base P) (stack P) \<and>
    drop (proctitle_end P2 - stack_base P) (stack P2) = drop (proctitle_end P2 - stack_base P) (stack P) \<and>
    stack P3 = stack P \<and> argv_ptrs P3 = argv_ptrs P \<and> environ_ptrs P3 = environ_ptrs P"
proof -
  let ?t = "title_start P" and ?b = "stack_base P" and ?e = "round_page pgsz (strings_end P)"
  from setproctitle_init_moved [OF assms] obtain P1
    where P1: "setproctitle_init pgsz h P = Inr P1" "moved h ?e P P1" by blast
  have ptrs: "\<forall>p \<in> set (argv_ptrs P @ environ_ptrs P). ?t \<le> p \<and> p < ?e"
    using assms round_page_gt [of pgsz "strings_end P"]
    unfolding title_layout_def by (fastforce split: option.splits)
  have b: "?b \<le> ?t" "?t < ?e" "?e \<le> ?b + length (stack P)"
    using assms ptrs by (auto simp: title_layout_def title_start_def split: list.splits)
  from set_pr_names_moved [OF P1(2) b, of names] obtain P' where P': "set_pr_names names P1 = Inr P'" "moved h ?e P P'"
    by blast
  from di_set_pr_name_moved [OF P'(2) b, of "Some name"]
  obtain P2 where P2: "di_set_pr_name (Some name) P' = Inr P2" "moved h ?e P P2"
    "string_at P2 (proctitle P2) = Some (c_str (take (?e - ?t - 1) name))"
    by (auto simp: str_bytes_def)
  from restore_moved [OF P2(2) b ptrs] obtain P3 where P3: "restore_proctitle P2 = Inr P3" "stack P3 = stack P"
    "argv_ptrs P3 = argv_ptrs P" "environ_ptrs P3 = environ_ptrs P" by blast
  have run: "set_pr_names (names @ [Some name]) P1 = Inr P2"
    using P'(1) P2(1) by (induction names arbitrary: P1) (auto split: sum.splits)
  note strs = moved_string_at [OF P2(2) assms]
  have "map (string_at P2) (argv_ptrs P2) = map (string_at P) (argv_ptrs P)"
    "map (string_at P2) (environ_ptrs P2) = map (string_at P) (environ_ptrs P)"
    using P2(2) strs by (auto simp: moved_def Let_def)
  moreover have "proctitle P2 = ?t" "proctitle_end P2 = ?e"
    "take (?t - ?b) (stack P2) = take (?t - ?b) (stack P)" "drop (?e - ?b) (stack P2) = drop (?e - ?b) (stack P)"
    using P2(2) by (auto simp: moved_def Let_def)
  ultimately show ?thesis
    using P1(1) run P2(3) P3 by auto
qed

text \<open>A program started as \<^verbatim>\<open>deai a\<close> with one environment string, on pages of eight bytes.\<close>

definition sample_process :: process where
  "sample_process = \<lparr>stack_base = 100, stack = ''xxxx'' @ ''de'' @ [NUL] @ ''a'' @ [NUL] @ ''H=1'' @ [NUL] @ ''endofpage'',
     copy_base = 0, copied = None, argv_ptrs = [104, 107], environ_ptrs = [109],
     proctitle = 0, proctitle_end = 0, orig_proctitle = 0\<rparr>"

theorem proctitle_borrows_argv_witness:
  "title_layout 8 200 sample_process \<and>
   (\<exists>P1 P2 P3. setproctitle_init 8 200 sample_process = Inr P1 \<and> set_pr_names ([] @ [Some ''longer title'']) P1 = Inr P2 \<and>
      restore_proctitle P2 = Inr P3 \<and> stack P3 = stack sample_process)"
proof -
  have lay: "title_layout 8 200 sample_process" by code_simp
  from proctitle_borrows_argv [OF lay, of "[]" "''longer title''"] lay show ?thesis by blast
qed

end
