(* ===== verification/Deai_Cmdline.thy ===== *)
theory Deai_Cmdline
  imports Deai_Roots Deai_Log Deai_Os Deai_Promise Deai_Spawn Deai_Proctree Deai_Gc
begin

text \<open>
  The rest of \<^verbatim>\<open>main.c\<close>: loading plugins, the methods of the core object, parsing the command line,
  and \<^verbatim>\<open>main\<close> itself, which sets the program up, calls the method the command line names, and runs
  the event loop until the roots are gone.
\<close>

section \<open>The host system\<close>

text \<open>
  What the operating system, the dynamic linker, libev and the C library's \<^verbatim>\<open>strtod\<close> answer.
  \<open>h_open\<close> is a descriptor or a negative number, \<open>h_fdopendir\<close> the entries \<^verbatim>\<open>readdir\<close> returns, \<open>h_fstatat\<close>
  whether the target is a regular file, \<open>h_dlsym\<close> the plugin's \<^verbatim>\<open>di_plugin_init\<close>, \<open>h_chdir\<close> zero or the
  errno (also for a null pointer), \<open>h_strtod\<close> a binary64 and the rest of the string, \<open>h_ev_run\<close> everything the event loop does
  until it stops.  \<open>DI_PLUGIN_INSTALL_DIR\<close> and \<open>DI_RESOURCES_DIR\<close> are fixed when the program is built.
\<close>

datatype d_type = DT_REG | DT_UNKNOWN | DT_LNK | DT_OTHER

record host =
  h_realpath :: "c_string \<Rightarrow> c_string option"
  h_open :: "c_string \<Rightarrow> int"
  h_fdopendir :: "int \<Rightarrow> (c_string \<times> d_type) list option"
  h_fstatat :: "int \<Rightarrow> c_string \<Rightarrow> bool option"
  h_dlopen :: "c_string \<Rightarrow> nat option"
  h_strerror :: c_string
  h_dlerror :: c_string
  h_dlsym :: "nat \<Rightarrow> (addr \<Rightarrow> unit M) option"
  h_chdir :: "c_string option \<Rightarrow> int"
  h_strtod :: "c_string \<Rightarrow> u64 \<times> c_string"
  h_ev_run :: "unit M"
  h_pid :: int
  h_proc :: "proc_entry list option"
  h_prctl :: int
  h_stderr :: nat
  h_stdout :: nat
  DI_PLUGIN_INSTALL_DIR :: c_string
  DI_RESOURCES_DIR :: c_string

text \<open>A line on the standard error.\<close>

definition put_stderr :: "c_string \<Rightarrow> unit M" where
  "put_stderr msg = emit_effect (Stderr (msg @ [CHR 0x0A]))"

section \<open>Plugins\<close>

definition load_plugin_impl :: "host \<Rightarrow> addr \<Rightarrow> c_string \<Rightarrow> bool M" where
  "load_plugin_impl H p sopath =
     (if \<not> (sopath \<noteq> [] \<and> hd sopath = CHR ''/'')
      then mseq (put_stderr (''Plugin path must be absolute: '' @ sopath)) (mret False)
      else case h_dlopen H sopath of
          None \<Rightarrow> mseq (put_stderr (''Failed to load '' @ sopath @ '': '' @ h_dlerror H)) (mret False)
        | Some handle \<Rightarrow>
            (case h_dlsym H handle of
               None \<Rightarrow> mseq (put_stderr (sopath @ '' doesn't have a di_plugin_init function'')) (mret False)
             | Some init_fn \<Rightarrow> mseq (init_fn p) (mret True)))"

definition load_plugin :: "env \<Rightarrow> host \<Rightarrow> addr \<Rightarrow> di_string \<Rightarrow> unit M" where
  "load_plugin E H p sopath =
     (if sopath = None then mret ()
      else case di_string_to_chars_alloc sopath of
          None \<Rightarrow> mcrash Null_deref
        | Some buf \<Rightarrow>
            mbind (load_plugin_impl H p (c_str buf)) (\<lambda>success.
            if \<not> success then throw_new_error E ''main.c'' 71 ''load_plugin'' ''Failed to load plugin''
            else mret ()))"

definition has_so_suffix :: "c_string \<Rightarrow> bool" where
  "has_so_suffix name = (let nlen = length name in nlen \<ge> 3 \<and> drop (nlen - 3) name = ''.so'')"

text \<open>The \<^verbatim>\<open>readdir\<close> loop; a failed \<^verbatim>\<open>fstatat\<close> leaves it (and the directory stays open).\<close>

fun load_dir_loop :: "host \<Rightarrow> addr \<Rightarrow> int \<Rightarrow> c_string \<Rightarrow> (c_string \<times> d_type) list \<Rightarrow> int M" where
  "load_dir_loop H di dirfd rpath [] = mseq (emit_effect (Sys_close dirfd)) (mret 0)"
| "load_dir_loop H di dirfd rpath ((name, ty) # dents) =
     (let is_reg = (if ty = DT_UNKNOWN \<or> ty = DT_LNK then h_fstatat H dirfd name else Some (ty = DT_REG)) in
      case is_reg of
        None \<Rightarrow> mseq (put_stderr (''stat: '' @ h_strerror H)) (mret (-1))
      | Some reg \<Rightarrow>
          if \<not> reg then load_dir_loop H di dirfd rpath dents
          else if has_so_suffix name
          then mbind (load_plugin_impl H di (rpath @ ''/'' @ name)) (\<lambda>_. load_dir_loop H di dirfd rpath dents)
          else load_dir_loop H di dirfd rpath dents)"

definition load_plugin_from_dir_impl :: "host \<Rightarrow> addr \<Rightarrow> c_string \<Rightarrow> int M" where
  "load_plugin_from_dir_impl H di path =
     (case h_realpath H path of
        None \<Rightarrow> mret (-1)
      | Some rpath \<Rightarrow>
          (let dirfd = h_open H path in
           if dirfd < 0 then mret (-1)
           else case h_fdopendir H dirfd of
               None \<Rightarrow> mseq (emit_effect (Sys_close dirfd)) (mret (-1))
             | Some dents \<Rightarrow> load_dir_loop H di dirfd rpath dents))"

definition load_plugin_from_dir :: "host \<Rightarrow> addr \<Rightarrow> di_string \<Rightarrow> int M" where
  "load_plugin_from_dir H p path =
     (if path = None then mret (-1)
      else case di_string_to_chars path PATH_MAX of
          None \<Rightarrow> mret (-1)
        | Some buf \<Rightarrow> load_plugin_from_dir_impl H p (c_str buf))"

section \<open>Methods of the core object\<close>

definition di_chdir :: "host \<Rightarrow> di_string \<Rightarrow> int M" where
  "di_chdir H dir =
     (if dir = None then mret (- EINVAL)
      else let dir_str = map_option c_str (di_string_to_chars_alloc dir); errno = h_chdir H dir_str in
           if errno \<noteq> 0 then mret (- errno)
           else mseq (case dir_str of None \<Rightarrow> mret () | Some d \<Rightarrow> emit_effect (Sys_chdir d)) (mret 0))"

text \<open>
  The destructor of the core object (the process title is put back by \<^verbatim>\<open>restore_proctitle\<close> of
  \<^verbatim>\<open>Deai_Proctitle\<close>).
\<close>

definition di_dtor :: "host \<Rightarrow> unit M" where
  "di_dtor H =
     mseq (mmodify (\<lambda>w. w\<lparr>quit := True\<rparr>))
     (mseq (kill_all_descendants (h_pid H) (h_proc H)) (emit_effect Ev_break))"

definition di_sighandler :: "unit M" where
  "di_sighandler = emit_effect Ev_break"

text \<open>
  \<^verbatim>\<open>di_exec\<close>: the elements are read as strings whatever the type of the array is.  \<^verbatim>\<open>execvp\<close> only
  returns when it fails.
\<close>

definition di_exec :: "di_type \<Rightarrow> di_variant list \<Rightarrow> int M" where
  "di_exec elem_type argv =
     (if argv \<noteq> [] \<and> elem_type \<noteq> DI_TYPE_STRING then mcrash Out_of_bounds
      else let nargv = argv_of argv in
           mseq (emit_effect (case nargv of [] \<Rightarrow> Sys_execvp None [] | a # _ \<Rightarrow> Sys_execvp a nargv))
           (mret (-1)))"

definition di_terminate :: "unit M" where
  "di_terminate = emit_effect (Sys_kill 0 15)"

definition di_get_plugin_install_dir :: "host \<Rightarrow> c_string M" where
  "di_get_plugin_install_dir H = mret (DI_PLUGIN_INSTALL_DIR H)"

section \<open>The command line\<close>

definition LLONG_MAX :: int where "LLONG_MAX = 2 ^ 63 - 1"
definition LLONG_MIN :: int where "LLONG_MIN = - (2 ^ 63)"

text \<open>\<^verbatim>\<open>strtoll\<close> in base ten: the value, saturated, and the rest of the string; all of it when there is no number.\<close>

definition c_strtoll :: "c_string \<Rightarrow> int \<times> c_string" where
  "c_strtoll s =
     (let t = dropWhile isspace s;
          neg = (t \<noteq> [] \<and> hd t = CHR ''-'');
          d = (if t \<noteq> [] \<and> (hd t = CHR ''-'' \<or> hd t = CHR ''+'') then tl t else t)
      in if d = [] \<or> \<not> isdigit (hd d) then (0, s)
         else let v = (if neg then - int (digits_val 0 d) else int (digits_val 0 d))
              in (max LLONG_MIN (min LLONG_MAX v), dropWhile isdigit d))"

text \<open>An argument is parsed, ends the program with a message, or is read out of bounds.\<close>

datatype 'a parsed = Parsed 'a | Exit_failure c_string | Fault fault

fun parse_arg :: "host \<Rightarrow> c_string \<Rightarrow> di_variant parsed" where
  "parse_arg H [] = Fault Out_of_bounds"
| "parse_arg H [c] = Exit_failure (''Invalid argument: '' @ [c])"
| "parse_arg H (c # d # s) =
     (if d \<noteq> CHR '':'' then Exit_failure (''Invalid argument: '' @ c # d # s)
      else if c = CHR ''i''
      then (let (val, endptr) = c_strtoll s in
            if endptr \<noteq> [] then Exit_failure (''Invalid integer: '' @ s) else Parsed (V_int (word_of_int val)))
      else if c = CHR ''s'' then Parsed (V_string (di_string_dup (Some s)))
      else if c = CHR ''f''
      then (let (fval, endptr) = h_strtod H s in
            if endptr \<noteq> [] then Exit_failure (''Invalid float: '' @ s) else Parsed (V_float fval))
      else Exit_failure (''Invalid argument type: '' @ c # d # s))"

fun parse_args :: "host \<Rightarrow> c_string list \<Rightarrow> di_variant list parsed" where
  "parse_args H [] = Parsed []"
| "parse_args H (a # as) =
     (if a = ''--'' then Parsed []
      else case parse_arg H a of
          Exit_failure msg \<Rightarrow> Exit_failure msg
        | Fault f \<Rightarrow> Fault f
        | Parsed v \<Rightarrow>
            (case parse_args H as of
               Exit_failure msg \<Rightarrow> Exit_failure msg
             | Fault f \<Rightarrow> Fault f
             | Parsed vs \<Rightarrow> Parsed (v # vs)))"

text \<open>
  The tuple of \<open>argc - 1\<close> elements: the module object first, the parsed arguments, and the
  zeroed elements that no argument was stored to.
\<close>

definition call_args :: "nat \<Rightarrow> addr \<Rightarrow> di_variant list \<Rightarrow> di_tuple" where
  "call_args argc m vs = (V_object m # vs) @ replicate (argc - 1 - Suc (length vs)) V_nil"

text \<open>\<^verbatim>\<open>argv[1]\<close>, split at its first dot.\<close>

definition split_method :: "c_string \<Rightarrow> c_string option \<times> c_string" where
  "split_method arg =
     (case memchr arg (CHR ''.'') of
        None \<Rightarrow> (None, arg)
      | Some n \<Rightarrow> (Some (take n arg), drop (n + 1) arg))"

section \<open>Colon separated lists\<close>

lemma memchr_less: "memchr s c = Some n \<Longrightarrow> n < length s"
  by (induction s arbitrary: n) (auto split: if_splits)

text \<open>The loops over \<^verbatim>\<open>DEAI_EXTRA_PLUGIN_DIRS\<close> and \<^verbatim>\<open>DEAI_EXTRA_PLUGINS\<close>: the body gets every part in turn.\<close>

function colon_loop :: "(c_string \<Rightarrow> unit M) \<Rightarrow> c_string \<Rightarrow> unit M" where
  "colon_loop body s =
     (case memchr s (CHR '':'') of
        None \<Rightarrow> body s
      | Some next \<Rightarrow> mseq (body (take next s)) (colon_loop body (drop (next + 1) s)))"
  by pat_completeness auto
termination
  by (relation "measure (\<lambda>(_, s). length s)") (auto dest: memchr_less)

declare colon_loop.simps [simp del]

definition load_extra_dir :: "host \<Rightarrow> addr \<Rightarrow> c_string \<Rightarrow> unit M" where
  "load_extra_dir H p dir =
     mbind (load_plugin_from_dir_impl H p dir) (\<lambda>ret.
     if ret \<noteq> 0 then put_stderr (''Failed to load plugins from \"'' @ dir @ ''\".'') else mret ())"

definition load_extra_plugin :: "host \<Rightarrow> addr \<Rightarrow> c_string \<Rightarrow> unit M" where
  "load_extra_plugin H p plugin =
     mbind (load_plugin_impl H p plugin) (\<lambda>ok.
     if \<not> ok then put_stderr (''Failed to load plugin \"'' @ plugin @ ''\".'') else mret ())"

text \<open>Step (3) of \<^verbatim>\<open>main\<close>.\<close>

definition load_default_plugins :: "host \<Rightarrow> addr \<Rightarrow> unit M" where
  "load_default_plugins H p =
     mseq (load_extra_dir H p (DI_PLUGIN_INSTALL_DIR H))
     (mbind (mget (c_getenv ''DEAI_EXTRA_PLUGIN_DIRS'')) (\<lambda>dirs.
      mseq (case dirs of None \<Rightarrow> mret () | Some s \<Rightarrow> colon_loop (load_extra_dir H p) s)
      (mbind (mget (c_getenv ''DEAI_EXTRA_PLUGINS'')) (\<lambda>plugins.
       case plugins of None \<Rightarrow> mret () | Some s \<Rightarrow> colon_loop (load_extra_plugin H p) s))))"

section \<open>The main function\<close>

text \<open>The core object with its builtin modules.\<close>

definition init_core :: "env \<Rightarrow> host \<Rightarrow> addr M" where
  "init_core E H =
     mbind (di_new_object_with_type (P_core [])) (\<lambda>p.
     mseq (ignore_rc (di_set_type E p ''deai:Core''))
     (mbind (init_roots E) (\<lambda>_.
      mseq (mmodify (\<lambda>w. w\<lparr>exit_code := 0, quit := False\<rparr>))
      (mseq (di_set_object_dtor p (Some ''di_dtor''))
      (mseq (emit_effect (Sys_setpgid 0 0))
      (mbind (di_init_event E p) (\<lambda>_.
       mseq (di_init_log E (h_stderr H) p)
       (mbind (di_init_os E p) (\<lambda>_.
        mseq (di_init_spawn E (h_prctl H) p)
        (mret p))))))))))"

definition set_resources_dir :: "env \<Rightarrow> host \<Rightarrow> addr \<Rightarrow> unit M" where
  "set_resources_dir E H p =
     mbind (mget (c_getenv ''DEAI_RESOURCES_DIR'')) (\<lambda>dir.
     check_ok (di_member E p ''resources_dir''
       (case dir of Some d \<Rightarrow> V_string (di_string_dup (Some d)) | None \<Rightarrow> V_string_literal (DI_RESOURCES_DIR H))))"

text \<open>The methods, in the order of the source; the build without object tracking.\<close>

definition core_methods :: "(c_string \<times> fn_ptr \<times> di_type \<times> di_type list) list" where
  "core_methods =
    [(''load_plugin_from_dir'', ''load_plugin_from_dir'', DI_TYPE_NINT, [DI_TYPE_STRING]),
     (''load_plugin'', ''load_plugin'', DI_TYPE_NIL, [DI_TYPE_STRING]),
     (''register_module'', ''di_register_module_method'', DI_TYPE_NINT, [DI_TYPE_STRING, DI_TYPE_OBJECT]),
     (''chdir'', ''di_chdir'', DI_TYPE_NINT, [DI_TYPE_STRING]),
     (''exec'', ''di_exec'', DI_TYPE_NINT, [DI_TYPE_ARRAY]),
     (''quit'', ''di_prepare_quit'', DI_TYPE_NIL, []),
     (''exit'', ''di_prepare_exit'', DI_TYPE_NIL, [DI_TYPE_NINT]),
     (''terminate'', ''di_terminate'', DI_TYPE_NIL, []),
     (''__set_proctitle'', ''di_set_pr_name'', DI_TYPE_NIL, [DI_TYPE_STRING]),
     (''__get_DI_PLUGIN_INSTALL_DIR'', ''di_get_plugin_install_dir'', DI_TYPE_STRING_LITERAL, [])]"

definition offsetof_proctitle :: nat where "offsetof_proctitle = 152"

definition register_core_methods :: "env \<Rightarrow> addr \<Rightarrow> unit M" where
  "register_core_methods E p =
     mseq (mforeach (\<lambda>(name, fn, rt, ats). check_ok (di_method E p name fn rt ats)) core_methods)
     (mbind (di_create_closure E ''di_dump_objects'' DI_TYPE_NIL [] []) (\<lambda>closure.
      mseq (case closure of
              Inl _ \<Rightarrow> mcrash Null_deref
            | Inr cl \<Rightarrow> ignore_rc (di_member E p ''dump_objects'' (V_object cl)))
      (mseq (check_ok (di_method E p ''track_object_ref'' ''di_track_object_ref'' DI_TYPE_NIL [DI_TYPE_OBJECT]))
      (mseq (check_ok (di_method E p ''__get_roots'' ''di_roots_getter'' DI_TYPE_OBJECT []))
      (mseq (check_ok (di_method E p ''__get_argv'' ''di_get_argv'' DI_TYPE_ARRAY []))
      (mbind (di_new_field_getter E DI_TYPE_STRING_LITERAL offsetof_proctitle) (\<lambda>proctitle_getter.
       ignore_rc (di_member E p ''__get_proctitle'' (V_object proctitle_getter)))))))))"

text \<open>The message and the two assignments of the error branches.\<close>

definition call_failed :: "c_string \<Rightarrow> unit M" where
  "call_failed msg = mseq (put_stderr msg) (mmodify (\<lambda>w. w\<lparr>exit_code := 1, quit := True\<rparr>))"

text \<open>The call of the method, and what becomes of its result.\<close>

definition call_method ::
  "env \<Rightarrow> addr \<Rightarrow> c_string option \<Rightarrow> c_string \<Rightarrow> di_tuple \<Rightarrow> addr option M" where
  "call_method E m modname method args =
     mbind (di_rawget_borrowed m (di_string_borrow method) DI_TYPE_OBJECT) (\<lambda>(rc, v).
     case (rc = 0, v) of
       (True, V_object method_obj) \<Rightarrow>
         mbind (di_call_object_catch E method_obj args) (\<lambda>(rc, retd, error_obj).
         if rc \<noteq> 0
         then mseq (call_failed (''Failed to call \"'' @ (case modname of None \<Rightarrow> [] | Some n \<Rightarrow> n) @ ''.'' @ method @ ''\": '' @ int_string rc))
              (mret error_obj)
         else
         mseq (di_free_value E retd)
         (case error_obj of
            None \<Rightarrow> mret None
          | Some err \<Rightarrow>
              mbind (di_object_to_string E err False) (\<lambda>(error_message, _).
              mseq (call_failed (''The function you called returned an error message:'' @ [CHR 0x0A] @ c_str (str_bytes error_message)))
              (mret error_obj))))
     | _ \<Rightarrow>
         mseq (call_failed (case modname of
                 Some n \<Rightarrow> ''Method \"'' @ method @ ''\" not found in module \"'' @ n @ ''\"''
               | None \<Rightarrow> ''Method \"'' @ method @ ''\" not found in main module''))
         (mret None))"

definition exit_now :: "int \<Rightarrow> int M" where
  "exit_now code = mseq (emit_effect (Sys_exit code)) (mret code)"

text \<open>The end of \<^verbatim>\<open>main\<close>; the core object is read again to start the loop.\<close>

definition main_loop :: "env \<Rightarrow> host \<Rightarrow> addr \<Rightarrow> int M" where
  "main_loop E H p =
     mseq (di_collect_garbage E)
     (mbind (mget quit) (\<lambda>q.
      mseq (if q then mret () else mbind (get_obj p) (\<lambda>_. mseq (emit_effect Ev_run) (h_ev_run H)))
      (mbind di_get_roots (\<lambda>r.
       mseq (di_unref_object E r)
       (mseq (mmodify (\<lambda>w. w\<lparr>roots := None\<rparr>))
       (mget exit_code))))))"

definition run_method :: "env \<Rightarrow> host \<Rightarrow> addr \<Rightarrow> c_string list \<Rightarrow> di_variant list \<Rightarrow> c_string option \<Rightarrow> c_string \<Rightarrow> int M" where
  "run_method E H p argv vs modname method =
     mbind (case modname of
              Some m \<Rightarrow> mbind (di_get E p (di_string_borrow m) DI_TYPE_OBJECT) (\<lambda>(rc, v).
                mret (case (rc = 0, v) of (True, V_object a) \<Rightarrow> Some a | _ \<Rightarrow> None))
            | None \<Rightarrow> mbind (di_ref_object p) (\<lambda>a. mret (Some a))) (\<lambda>module.
     case module of
       None \<Rightarrow> mseq (put_stderr (''Module \"'' @ (case modname of None \<Rightarrow> [] | Some n \<Rightarrow> n) @ ''\" not found'')) (exit_now 1)
     | Some m \<Rightarrow>
         mbind (di_ref_object m) (\<lambda>_.
         (let args = call_args (length argv) m vs in
          mbind (call_method E m modname method args) (\<lambda>error_obj.
          mseq (di_unref_object E p)
          (mseq (case error_obj of None \<Rightarrow> mret () | Some e \<Rightarrow> di_unref_object E e)
          (mseq (di_unref_object E m)
          (mseq (di_free_value E (V_tuple args))
          (main_loop E H p))))))))"

definition main :: "env \<Rightarrow> host \<Rightarrow> c_string list \<Rightarrow> int M" where
  "main E H argv =
     mbind (init_core E H) (\<lambda>p.
     if length argv < 2
     then mseq (emit_effect (File_write (h_stdout H)
                  (''Usage: '' @ (case argv of [] \<Rightarrow> ''(null)'' | a # _ \<Rightarrow> a) @ '' <module>.<method> <arg1> <arg2> ...'' @ [CHR 0x0A])))
          (exit_now 1)
     else
     mseq (set_resources_dir E H p)
     (mseq (register_core_methods E p)
     (mseq (emit_effect (Ev_signal_start 2))
     (mseq (emit_effect (Ev_signal_start 15))
     (let (modname, method) = split_method (argv ! 1) in
      case parse_args H (drop 2 argv) of
        Fault f \<Rightarrow> mcrash f
      | Exit_failure msg \<Rightarrow> mseq (put_stderr msg) (exit_now 1)
      | Parsed vs \<Rightarrow>
          mseq (upd_obj p (\<lambda>ob. ob\<lparr>payload := P_core argv\<rparr>))
          (mseq (load_default_plugins H p)
          (run_method E H p argv vs modname method)))))))"

end
