(* ===== verification/Deai_Cmdline_Props.thy ===== *)
theory Deai_Cmdline_Props
  imports Deai_Cmdline
begin

text \<open>
  What the command line and the plugin search mean: arguments written in the documented syntax reach
  the method unchanged, and the plugins loaded are those of a reference list.
\<close>

section \<open>Numbers\<close>

lemma isdigit_digit_char: "d < 10 \<Longrightarrow> isdigit (digit_char d)"
  by (simp add: isdigit_def of_char_digit)

lemma dec_string_digits: "\<forall>c \<in> set (dec_string n). isdigit c"
proof (induction n rule: dec_string.induct)
  case (1 n)
  then show ?case
    by (subst dec_string.simps) (auto simp: isdigit_digit_char)
qed

lemma dec_string_not_Nil [simp]: "dec_string n \<noteq> []"
  by (subst dec_string.simps) simp

lemma digits_val_append:
  "\<forall>c \<in> set xs. isdigit c \<Longrightarrow> digits_val acc (xs @ ys) = digits_val (digits_val acc xs) ys"
  by (induction xs arbitrary: acc) auto

lemma digits_val_dec_string: "digits_val 0 (dec_string n) = n"
proof (induction n rule: dec_string.induct)
  case (1 n)
  show ?case
  proof (cases "n < 10")
    case True
    then show ?thesis
      by (subst dec_string.simps) (simp add: isdigit_digit_char of_char_digit)
  next
    case False
    with 1 have "digits_val 0 (dec_string (n div 10)) = n div 10" by simp
    with False show ?thesis
      by (subst dec_string.simps)
        (simp add: digits_val_append dec_string_digits isdigit_digit_char of_char_digit)
  qed
qed

lemma isdigit_not_space: "isdigit c \<Longrightarrow> \<not> isspace c"
  by (auto simp: isdigit_def isspace_def)

lemma isdigit_not_sign: "isdigit c \<Longrightarrow> c \<noteq> CHR ''-'' \<and> c \<noteq> CHR ''+''"
  by (auto simp: isdigit_def)

lemma c_strtoll_int_string:
  assumes "LLONG_MIN \<le> i" and "i \<le> LLONG_MAX"
  shows "c_strtoll (int_string i) = (i, [])"
proof -
  let ?d = "dec_string (nat \<bar>i\<bar>)"
  obtain c cs where d: "?d = c # cs" by (cases ?d) auto
  then have c: "isdigit c" using dec_string_digits [of "nat \<bar>i\<bar>"] by simp
  have rest: "dropWhile isdigit ?d = []" using dec_string_digits [of "nat \<bar>i\<bar>"] by simp
  have val: "digits_val 0 ?d = nat \<bar>i\<bar>" by (rule digits_val_dec_string)
  show ?thesis
  proof (cases "i < 0")
    case True
    then have "int_string i = CHR ''-'' # ?d" by (simp add: int_string_def)
    moreover have "\<not> isspace (CHR ''-'')" by (simp add: isspace_def)
    ultimately show ?thesis
      using True assms c d rest val by (simp add: c_strtoll_def Let_def)
  next
    case False
    then have "int_string i = ?d" by (simp add: int_string_def)
    then show ?thesis
      using False assms c d rest val isdigit_not_space [OF c] isdigit_not_sign [OF c]
      by (simp add: c_strtoll_def Let_def)
  qed
qed

lemma sint_range: "LLONG_MIN \<le> sint (x :: u64)" "sint (x :: u64) \<le> LLONG_MAX"
  using sint_greater_eq [of x] sint_lt [of x] by (simp_all add: LLONG_MIN_def LLONG_MAX_def)

section \<open>Arguments\<close>

text \<open>The documented syntax of an argument; \<open>fmt\<close> prints a floating point number.\<close>

fun print_arg :: "(u64 \<Rightarrow> c_string) \<Rightarrow> di_variant \<Rightarrow> c_string" where
  "print_arg fmt (V_int i) = ''i:'' @ int_string (sint i)"
| "print_arg fmt (V_string s) = ''s:'' @ str_bytes s"
| "print_arg fmt (V_float f) = ''f:'' @ fmt f"
| "print_arg fmt _ = []"

fun cmdline_value :: "host \<Rightarrow> (u64 \<Rightarrow> c_string) \<Rightarrow> di_variant \<Rightarrow> bool" where
  "cmdline_value H fmt (V_int i) = True"
| "cmdline_value H fmt (V_string s) = (s \<noteq> None)"
| "cmdline_value H fmt (V_float f) = (h_strtod H (fmt f) = (f, []))"
| "cmdline_value H fmt _ = False"

lemma parse_print_arg:
  assumes "cmdline_value H fmt v"
  shows "parse_arg H (print_arg fmt v) = Parsed v" and "print_arg fmt v \<noteq> ''--''"
  using assms
  by (cases "(H, fmt, v)" rule: cmdline_value.cases;
      auto simp: c_strtoll_int_string sint_range di_string_dup_def str_bytes_def split: option.splits)+

lemma parse_print_args:
  "\<forall>v \<in> set vs. cmdline_value H fmt v \<Longrightarrow>
   parse_args H (map (print_arg fmt) vs @ rest) =
     (case parse_args H rest of Parsed ws \<Rightarrow> Parsed (vs @ ws) | r \<Rightarrow> r)"
  by (induction vs) (auto simp: parse_print_arg split: parsed.splits)

text \<open>
  C34: Arguments given on the command line in the documented syntax (\<^verbatim>\<open>i:\<close>, \<^verbatim>\<open>s:\<close> and \<^verbatim>\<open>f:\<close> prefixes) reach
  the method as exactly the values they denote: parsing what was printed gives the values back, up
  to the end or to a \<^verbatim>\<open>--\<close>, every 64-bit integer included, and in the first case the tuple the method
  is called with is the module object followed by these values, with nothing after them.
\<close>

theorem command_line_roundtrip:
  assumes "\<forall>v \<in> set vs. cmdline_value H fmt v"
  shows "parse_args H (map (print_arg fmt) vs) = Parsed vs \<and>
    parse_args H (map (print_arg fmt) vs @ ''--'' # rest) = Parsed vs \<and>
    call_args (length (prog # what # map (print_arg fmt) vs)) m vs = V_object m # vs"
  using parse_print_args [OF assms, of "[]"] parse_print_args [OF assms, of "''--'' # rest"]
  by (simp add: call_args_def)

definition sample_host :: host where
  "sample_host = \<lparr>h_realpath = Some, h_open = (\<lambda>_. 3),
     h_fdopendir = (\<lambda>_. Some [(''a.so'', DT_REG), (''b.txt'', DT_REG), (''c.so'', DT_LNK), (''d'', DT_OTHER)]),
     h_fstatat = (\<lambda>_ _. Some True), h_dlopen = (\<lambda>_. Some 1), h_strerror = [], h_dlerror = [],
     h_dlsym = (\<lambda>_. None), h_chdir = (\<lambda>_. 0), h_strtod = (\<lambda>s. if s = ''1.5'' then (0x3FF8000000000000, []) else (0, s)),
     h_ev_run = mret (), h_pid = 7, h_proc = None, h_prctl = 0, h_stderr = 2, h_stdout = 1,
     DI_PLUGIN_INSTALL_DIR = ''/lib'', DI_RESOURCES_DIR = ''/share''\<rparr>"

theorem command_line_roundtrip_witness:
  "parse_args sample_host (map (print_arg (\<lambda>_. ''1.5'')) [V_int (- 42), V_string (Some ''x y''), V_float 0x3FF8000000000000]) =
     Parsed [V_int (- 42), V_string (Some ''x y''), V_float 0x3FF8000000000000]"
proof -
  have "\<forall>v \<in> set [V_int (- 42), V_string (Some ''x y''), V_float 0x3FF8000000000000].
      cmdline_value sample_host (\<lambda>_. ''1.5'') v"
    by (simp add: sample_host_def)
  from command_line_roundtrip [OF this] show ?thesis by blast
qed

section \<open>The plugin search\<close>

text \<open>The reference: the parts of a list between its colons, and the plugins of a directory.\<close>

fun colon_parts :: "c_string \<Rightarrow> c_string list" where
  "colon_parts [] = [[]]"
| "colon_parts (c # s) = (if c = CHR '':'' then [] # colon_parts s
     else case colon_parts s of [] \<Rightarrow> [[c]] | p # ps \<Rightarrow> (c # p) # ps)"

fun entry_is_file :: "host \<Rightarrow> int \<Rightarrow> c_string \<times> d_type \<Rightarrow> bool option" where
  "entry_is_file H dirfd (name, DT_REG) = Some True"
| "entry_is_file H dirfd (name, DT_OTHER) = Some False"
| "entry_is_file H dirfd (name, _) = h_fstatat H dirfd name"

definition dir_plugins :: "host \<Rightarrow> int \<Rightarrow> c_string \<Rightarrow> (c_string \<times> d_type) list \<Rightarrow> c_string list" where
  "dir_plugins H dirfd rpath dents =
     map (\<lambda>d. rpath @ ''/'' @ fst d) (filter (\<lambda>d. entry_is_file H dirfd d = Some True \<and> has_so_suffix (fst d)) dents)"

lemma colon_parts_not_Nil [simp]: "colon_parts s \<noteq> []"
  by (cases s) (auto split: list.splits)

lemma intercalate_Cons_head: "intercalate sep ((c # p) # ps) = c # intercalate sep (p # ps)"
  by (cases ps) simp_all

lemma intercalate_colon_parts: "intercalate '':'' (colon_parts s) = s"
proof (induction s)
  case (Cons c s)
  then show ?case
    by (cases "colon_parts s") (auto simp: intercalate_Cons_head split: list.splits)
qed simp

lemma colon_parts_no_colon: "\<forall>p \<in> set (colon_parts s). CHR '':'' \<notin> set p"
  by (induction s) (auto split: list.splits)

lemma colon_parts_memchr:
  "colon_parts s = (case memchr s (CHR '':'') of None \<Rightarrow> [s] | Some n \<Rightarrow> take n s # colon_parts (drop (n + 1) s))"
  by (induction s) (auto split: option.splits list.splits)

lemma mseq_mret_unit: "mseq m (mret ()) = (m :: 's \<Rightarrow> ('s, unit) outcome)"
  by (auto simp: mseq_def mbind_def mret_def fun_eq_iff split: outcome.splits)

lemma mseq_mret_left: "mseq (mret ()) m = m"
  by (simp add: mseq_def mbind_mret)

lemma colon_loop_parts: "colon_loop body s = mforeach body (colon_parts s)"
proof (induction body s rule: colon_loop.induct)
  case (1 body s)
  show ?case
    using 1 by (subst colon_loop.simps, subst colon_parts_memchr) (simp add: mseq_mret_unit split: option.split)
qed

lemma load_dir_loop_plugins:
  assumes "\<forall>d \<in> set dents. entry_is_file H fd d \<noteq> None"
  shows "load_dir_loop H p fd rpath dents =
    mseq (mforeach (\<lambda>f. mbind (load_plugin_impl H p f) (\<lambda>_. mret ())) (dir_plugins H fd rpath dents))
      (mseq (emit_effect (Sys_close fd)) (mret 0))"
  using assms
proof (induction dents)
  case Nil
  then show ?case by (simp add: dir_plugins_def mseq_mret_left)
next
  case (Cons d dents)
  obtain name ty where d: "d = (name, ty)" by (cases d)
  obtain r where r: "entry_is_file H fd d = Some r" using Cons.prems by auto
  then have reg: "(if ty = DT_UNKNOWN \<or> ty = DT_LNK then h_fstatat H fd name else Some (ty = DT_REG)) = Some r"
    by (cases ty) (auto simp: d)
  from Cons.prems have ih: "load_dir_loop H p fd rpath dents =
    mseq (mforeach (\<lambda>f. mbind (load_plugin_impl H p f) (\<lambda>_. mret ())) (dir_plugins H fd rpath dents))
      (mseq (emit_effect (Sys_close fd)) (mret 0))"
    by (intro Cons.IH) simp
  have step: "load_dir_loop H p fd rpath (d # dents) =
    (if r \<and> has_so_suffix name then mbind (load_plugin_impl H p (rpath @ ''/'' @ name)) (\<lambda>_. load_dir_loop H p fd rpath dents)
     else load_dir_loop H p fd rpath dents)"
    unfolding d load_dir_loop.simps Let_def reg by simp
  show ?case
  proof (cases "r \<and> has_so_suffix name")
    case True
    then have "dir_plugins H fd rpath (d # dents) = (rpath @ ''/'' @ name) # dir_plugins H fd rpath dents"
      using r by (simp add: dir_plugins_def d)
    with True step ih show ?thesis by (simp add: mseq_def mbind_assoc mbind_mret)
  next
    case False
    then have "dir_plugins H fd rpath (d # dents) = dir_plugins H fd rpath dents"
      using r by (auto simp: dir_plugins_def d)
    with False step ih show ?thesis by (simp only: if_False)
  qed
qed

text \<open>
  Loading a directory of plugins whose entries can all be examined loads exactly the regular
  files (links followed) whose name ends in \<^verbatim>\<open>.so\<close>, by their absolute path, in the order of the
  directory; a plugin that fails to load stops nothing, the directory is closed and the result is 0.
\<close>

theorem plugin_directory_loads_shared_objects:
  assumes "h_realpath H path = Some rpath" and "0 \<le> h_open H path"
    and "h_fdopendir H (h_open H path) = Some dents"
    and "\<forall>d \<in> set dents. entry_is_file H (h_open H path) d \<noteq> None"
  shows "load_plugin_from_dir_impl H p path =
    mseq (mforeach (\<lambda>f. mbind (load_plugin_impl H p f) (\<lambda>_. mret ())) (dir_plugins H (h_open H path) rpath dents))
      (mseq (emit_effect (Sys_close (h_open H path))) (mret 0))"
  using assms load_dir_loop_plugins [OF assms(4)] by (simp add: load_plugin_from_dir_impl_def Let_def)

theorem plugin_directory_loads_shared_objects_witness:
  "load_plugin_from_dir_impl sample_host 2 ''/p'' =
    mseq (mforeach (\<lambda>f. mbind (load_plugin_impl sample_host 2 f) (\<lambda>_. mret ())) [''/p/a.so'', ''/p/c.so''])
      (mseq (emit_effect (Sys_close 3)) (mret 0))"
proof -
  let ?dents = "[(''a.so'', DT_REG), (''b.txt'', DT_REG), (''c.so'', DT_LNK), (''d'', DT_OTHER)]"
  have h: "h_realpath sample_host ''/p'' = Some ''/p''" "h_open sample_host ''/p'' = 3"
    "h_fdopendir sample_host 3 = Some ?dents" "\<forall>d \<in> set ?dents. entry_is_file sample_host 3 d \<noteq> None"
    "dir_plugins sample_host 3 ''/p'' ?dents = [''/p/a.so'', ''/p/c.so'']"
    by (auto simp: sample_host_def dir_plugins_def has_so_suffix_def Let_def)
  show ?thesis
    using plugin_directory_loads_shared_objects [of sample_host "''/p''" "''/p''" ?dents 2] h
    by (simp only: h)
qed

text \<open>
  The lists of extra plugin directories and extra plugins are handled part by part: the body of the
  loop runs once for each part between colons, empty parts included, from left to right, where
  the parts contain no colon and, joined with colons, are the list again.
\<close>

theorem colon_list_visits_parts:
  "colon_loop body s = mforeach body (colon_parts s) \<and> intercalate '':'' (colon_parts s) = s \<and>
   (\<forall>p \<in> set (colon_parts s). CHR '':'' \<notin> set p)"
  by (simp add: colon_loop_parts intercalate_colon_parts colon_parts_no_colon)

theorem colon_list_visits_parts_witness:
  "colon_loop (load_extra_plugin sample_host 2) ''/a.so::/b.so'' =
   mforeach (load_extra_plugin sample_host 2) [''/a.so'', [], ''/b.so'']"
  using colon_list_visits_parts [of "load_extra_plugin sample_host 2" "''/a.so::/b.so''"] by simp

end
