(* ===== verification/Deai_Sedes.thy ===== *)
theory Deai_Sedes
  imports Deai_Signature Deai_Conv Deai_Error
begin

text \<open>
  \<^verbatim>\<open>plugins/dbus/sedes.c\<close>: values to D-Bus messages and back.  Writing is modelled as the sequence of calls
  made to libdbus; whether libdbus accepts a call after the earlier ones is the parameter \<open>ok\<close>.
  Reading uses the iterator functions of libdbus, the record \<open>dbus_iter\<close>.
\<close>

abbreviation DBUS_TYPE_DICT_ENTRY :: char where "DBUS_TYPE_DICT_ENTRY \<equiv> CHR ''e''"

text \<open>The value of a basic type: the bits of a number, zero extended, or a string (null or not).\<close>

datatype dbus_basic = B_bits u64 | B_text "c_string option"

datatype dbus_call =
    Append_basic char dbus_basic
  | Append_fixed char "di_variant list"
  | Open_container char "c_string option"
  | Close_container

record 'i dbus_iter =
  it_arg_type :: "'i \<Rightarrow> char"
  it_get_basic :: "'i \<Rightarrow> dbus_basic"
  it_recurse :: "'i \<Rightarrow> 'i"
  it_next :: "'i \<Rightarrow> 'i"
  it_element_count :: "'i \<Rightarrow> nat"
  is_basic :: "char \<Rightarrow> bool"
  is_fixed :: "char \<Rightarrow> bool"

section \<open>Reading\<close>

definition dbus_type_to_di :: "char \<Rightarrow> di_type" where
  "dbus_type_to_di type =
     (if type = CHR ''b'' then DI_TYPE_BOOL
      else if type \<in> set ''nix'' then DI_TYPE_INT
      else if type \<in> set ''qut'' then DI_TYPE_UINT
      else if type = CHR ''d'' then DI_TYPE_FLOAT
      else if type \<in> set ''so'' then DI_TYPE_STRING
      else if type = CHR ''h'' then DI_TYPE_INT
      else if type = DBUS_TYPE_ARRAY then DI_TYPE_ARRAY
      else if type = DBUS_TYPE_STRUCT then DI_TYPE_TUPLE
      else if type = DBUS_TYPE_VARIANT then DI_TYPE_VARIANT
      else DI_LAST_TYPE)"

text \<open>\<^verbatim>\<open>DESERIAL\<close> for each type: the number is widened with or without its sign.\<close>

fun dbus_deserialize_basic :: "dbus_basic \<Rightarrow> char \<Rightarrow> fault + di_variant" where
  "dbus_deserialize_basic (B_bits x) type =
     (if type = CHR ''b'' then Inr (V_bool ((ucast x :: 32 word) \<noteq> 0))
      else if type = CHR ''n'' then Inr (V_int (scast (ucast x :: 16 word)))
      else if type = CHR ''i'' \<or> type = CHR ''h'' then Inr (V_int (scast (ucast x :: 32 word)))
      else if type = CHR ''x'' then Inr (V_int x)
      else if type = CHR ''q'' then Inr (V_uint (ucast (ucast x :: 16 word)))
      else if type = CHR ''u'' then Inr (V_uint (ucast (ucast x :: 32 word)))
      else if type = CHR ''t'' then Inr (V_uint x)
      else if type = CHR ''d'' then Inr (V_float x)
      else Inl Assert_failed)"
| "dbus_deserialize_basic (B_text s) type =
     (if type = CHR ''s'' \<or> type = CHR ''o'' then Inr (V_string (di_string_dup s)) else Inl Assert_failed)"

definition lift_fault :: "fault + 'a \<Rightarrow> 'a M" where
  "lift_fault r = (case r of Inl f \<Rightarrow> mcrash f | Inr x \<Rightarrow> mret x)"

text \<open>The number of values an iterator has left.\<close>

fun args_left :: "nat \<Rightarrow> 'i dbus_iter \<Rightarrow> 'i \<Rightarrow> fault + nat" where
  "args_left 0 L i = Inl Out_of_fuel"
| "args_left (Suc n) L i =
     (if it_arg_type L i = DBUS_TYPE_INVALID then Inr 0
      else sum_bind (args_left n L (it_next L i)) (\<lambda>k. Inr (Suc k)))"

text \<open>
  The readers.  Each takes the reader of the values inside as an argument; the recursion is closed
  with a bound \<open>n\<close> on the nesting.  Reading a fixed-size array stores a pointer
  into the message and no element type: the result cannot be used or freed, a fault.  So is
  an element whose type is not the one its slot was allocated for (a dictionary in an array).
\<close>

primrec deserialize_elems :: "('i \<Rightarrow> char \<Rightarrow> di_variant M) \<Rightarrow> 'i dbus_iter \<Rightarrow> char \<Rightarrow> di_type \<Rightarrow> nat \<Rightarrow> 'i \<Rightarrow> di_variant list M" where
  "deserialize_elems one L type elem_type 0 i = mret []"
| "deserialize_elems one L type elem_type (Suc k) i =
     mbind (one i type) (\<lambda>v.
     mseq (mcheck Out_of_bounds (typeof v = elem_type))
     (mbind (deserialize_elems one L type elem_type k (it_next L i)) (\<lambda>vs. mret (v # vs))))"

primrec deserialize_fields :: "('i \<Rightarrow> char \<Rightarrow> di_variant M) \<Rightarrow> 'i dbus_iter \<Rightarrow> nat \<Rightarrow> 'i \<Rightarrow> di_variant list M" where
  "deserialize_fields one L 0 i = mret []"
| "deserialize_fields one L (Suc k) i =
     (let type = it_arg_type L i; etype = dbus_type_to_di type in
      case di_sizeof_type etype of
        None \<Rightarrow> mcrash Panic
      | Some _ \<Rightarrow>
          mbind (one i type) (\<lambda>v.
          mseq (mcheck Assert_failed (typeof v = etype \<or> typeof v = DI_TYPE_OBJECT \<and> etype = DI_TYPE_ARRAY))
          (mbind (deserialize_fields one L k (it_next L i)) (\<lambda>vs. mret (v # vs)))))"

definition deserialize_struct_with :: "('i \<Rightarrow> char \<Rightarrow> di_variant M) \<Rightarrow> nat \<Rightarrow> 'i dbus_iter \<Rightarrow> 'i \<Rightarrow> di_variant list M" where
  "deserialize_struct_with one n L i =
     mbind (lift_fault (args_left n L i)) (\<lambda>len. deserialize_fields one L len i)"

primrec deserialize_entries ::
  "('i \<Rightarrow> di_variant list M) \<Rightarrow> env \<Rightarrow> 'i dbus_iter \<Rightarrow> addr \<Rightarrow> nat \<Rightarrow> 'i \<Rightarrow> unit M" where
  "deserialize_entries str E L o' 0 i = mret ()"
| "deserialize_entries str E L o' (Suc k) i =
     mbind (str (it_recurse L i)) (\<lambda>t.
     case t of
       [V_string key, v] \<Rightarrow>
         mseq (ignore_rc (di_add_member_move E o' key v)) (deserialize_entries str E L o' k (it_next L i))
     | _ \<Rightarrow> mcrash Assert_failed)"

definition dbus_deserialize_dict ::
  "('i \<Rightarrow> di_variant list M) \<Rightarrow> env \<Rightarrow> 'i dbus_iter \<Rightarrow> 'i \<Rightarrow> nat \<Rightarrow> di_variant M" where
  "dbus_deserialize_dict str E L i len =
     mbind (di_new_object_with_type P_object) (\<lambda>o'.
     mseq (deserialize_entries str E L o' len i) (mret (V_object o')))"

definition dbus_deserialize_array ::
  "('i \<Rightarrow> char \<Rightarrow> di_variant M) \<Rightarrow> 'i dbus_iter \<Rightarrow> 'i \<Rightarrow> char \<Rightarrow> nat \<Rightarrow> di_variant M" where
  "dbus_deserialize_array one L i type len =
     (if is_fixed L type then mcrash Out_of_bounds
      else let elem_type = dbus_type_to_di type in
           case di_sizeof_type elem_type of
             None \<Rightarrow> mcrash Panic
           | Some _ \<Rightarrow> mbind (deserialize_elems one L type elem_type len i) (\<lambda>vs. mret (V_array elem_type vs)))"

definition deserialize_variant :: "('i \<Rightarrow> char \<Rightarrow> di_variant M) \<Rightarrow> 'i dbus_iter \<Rightarrow> 'i \<Rightarrow> di_variant M" where
  "deserialize_variant one L i =
     (let i2 = it_recurse L i; type2 = it_arg_type L i2; vtype = dbus_type_to_di type2 in
      case di_sizeof_type vtype of
        None \<Rightarrow> mcrash Panic
      | Some _ \<Rightarrow>
          mbind (one i2 type2) (\<lambda>v.
          mseq (mcheck Assert_failed (typeof v = vtype)) (mret (V_variant v))))"

definition deserialize_array_or_dict ::
  "('i \<Rightarrow> char \<Rightarrow> di_variant M) \<Rightarrow> nat \<Rightarrow> env \<Rightarrow> 'i dbus_iter \<Rightarrow> 'i \<Rightarrow> di_variant M" where
  "deserialize_array_or_dict one n E L i =
     (let i2 = it_recurse L i; type2 = it_arg_type L i2 in
      if type2 = DBUS_TYPE_DICT_ENTRY \<and> it_arg_type L (it_recurse L i2) = CHR ''s''
      then dbus_deserialize_dict (deserialize_struct_with one n L) E L i2 (it_element_count L i)
      else if type2 = DBUS_TYPE_INVALID then mret (V_array DI_TYPE_NIL [])
      else dbus_deserialize_array one L i2 type2 (it_element_count L i))"

primrec dbus_deserialize_one :: "nat \<Rightarrow> env \<Rightarrow> 'i dbus_iter \<Rightarrow> 'i \<Rightarrow> char \<Rightarrow> di_variant M" where
  "dbus_deserialize_one 0 E L i type = mcrash Out_of_fuel"
| "dbus_deserialize_one (Suc n) E L i type =
     (if is_basic L type then lift_fault (dbus_deserialize_basic (it_get_basic L i) type)
      else if type = DBUS_TYPE_VARIANT then deserialize_variant (dbus_deserialize_one n E L) L i
      else if type = DBUS_TYPE_ARRAY then deserialize_array_or_dict (dbus_deserialize_one n E L) (e_fuel E) E L i
      else if type = DBUS_TYPE_STRUCT \<or> type = DBUS_TYPE_DICT_ENTRY
      then mbind (deserialize_struct_with (dbus_deserialize_one n E L) (e_fuel E) L (it_recurse L i)) (\<lambda>vs. mret (V_tuple vs))
      else mcrash Out_of_bounds)"

definition dbus_deserialize_struct :: "nat \<Rightarrow> env \<Rightarrow> 'i dbus_iter \<Rightarrow> 'i \<Rightarrow> di_variant list M" where
  "dbus_deserialize_struct n E L i = deserialize_struct_with (dbus_deserialize_one n E L) (e_fuel E) L i"

section \<open>Writing\<close>

text \<open>The type codes \<^verbatim>\<open>dbus_serialize_integer\<close> knows; every one is converted as a signed number.\<close>

definition dbus_int_bits :: "char \<Rightarrow> nat option" where
  "dbus_int_bits type =
     (if type = CHR ''n'' \<or> type = CHR ''q'' then Some 16
      else if type = CHR ''i'' \<or> type = CHR ''u'' then Some 32
      else if type = CHR ''x'' \<or> type = CHR ''t'' then Some 64
      else None)"

text \<open>
  A call: its result, and the calls made so far.  \<open>junk\<close> is what the buffer holds that a failed
  conversion leaves unset.
\<close>

definition do_call :: "(dbus_call list \<Rightarrow> dbus_call \<Rightarrow> bool) \<Rightarrow> dbus_call \<Rightarrow> dbus_call list \<Rightarrow> (bool \<times> dbus_call list) M" where
  "do_call ok c calls = mret (ok calls c, calls @ [c])"

definition dbus_serialize_integer ::
  "u64 \<Rightarrow> (dbus_call list \<Rightarrow> dbus_call \<Rightarrow> bool) \<Rightarrow> di_variant \<Rightarrow> char \<Rightarrow> dbus_call list \<Rightarrow> (bool \<times> dbus_call list) M" where
  "dbus_serialize_integer junk ok var dbus_type calls =
     (case dbus_int_bits dbus_type of
        None \<Rightarrow> mret (False, calls)
      | Some bits \<Rightarrow>
          mbind (di_int_conversion var bits False) (\<lambda>(rc, v).
          do_call ok (Append_basic dbus_type (B_bits (take_bit bits (if rc = 0 then word_of_int v else junk)))) calls))"

definition dbus_serialize_basic_with_type ::
  "u64 \<Rightarrow> (dbus_call list \<Rightarrow> dbus_call \<Rightarrow> bool) \<Rightarrow> di_variant \<Rightarrow> char \<Rightarrow> dbus_call list \<Rightarrow> (bool \<times> dbus_call list) M" where
  "dbus_serialize_basic_with_type junk ok var dbus_type calls =
     (if dbus_type = CHR ''b''
      then (case var of
              V_bool b \<Rightarrow> do_call ok (Append_basic dbus_type (B_bits (of_bool b))) calls
            | _ \<Rightarrow> mret (False, calls))
      else if dbus_type \<in> set ''nixqut'' then dbus_serialize_integer junk ok var dbus_type calls
      else if dbus_type = CHR ''d''
      then (case var of
              V_float f \<Rightarrow> do_call ok (Append_basic dbus_type (B_bits f)) calls
            | _ \<Rightarrow> mret (False, calls))
      else if dbus_type = CHR ''s'' \<or> dbus_type = CHR ''o''
      then (case var of
              V_string s \<Rightarrow>
                do_call ok (Append_basic dbus_type (B_text (map_option c_str (di_string_to_chars_alloc s)))) calls
            | _ \<Rightarrow> mret (False, calls))
      else if dbus_type = CHR ''h'' then mret (False, calls)
      else if dbus_type \<in> {DBUS_TYPE_ARRAY, DBUS_TYPE_STRUCT, DBUS_TYPE_VARIANT} then mcrash Assert_failed
      else mret (False, calls))"

text \<open>The first byte of the text of a signature.\<close>

definition sig_head :: "dbus_signature \<Rightarrow> fault + char" where
  "sig_head si = (case sig_current si of None \<Rightarrow> Inl Null_deref | Some [] \<Rightarrow> Inl Out_of_bounds | Some (c # _) \<Rightarrow> Inr c)"

definition close_container ::
  "(dbus_call list \<Rightarrow> dbus_call \<Rightarrow> bool) \<Rightarrow> dbus_call list \<Rightarrow> (int \<times> dbus_call list) M" where
  "close_container ok calls =
     mbind (do_call ok Close_container calls) (\<lambda>(b, calls). mret (if b then 0 else - ENOMEM, calls))"

text \<open>
  The array that is appended as a block.  A \<^verbatim>\<open>bool\<close> has one byte and a \<^verbatim>\<open>dbus_bool_t\<close> four: the block of an
  array of booleans is read beyond its end.
\<close>

definition serialize_fixed ::
  "(dbus_call list \<Rightarrow> dbus_call \<Rightarrow> bool) \<Rightarrow> char \<Rightarrow> di_variant list \<Rightarrow> dbus_call list \<Rightarrow> (int \<times> dbus_call list) M" where
  "serialize_fixed ok atype vs calls =
     mbind (do_call ok (Open_container DBUS_TYPE_ARRAY (Some [atype])) calls) (\<lambda>(b, calls).
     if \<not> b then mret (- ENOMEM, calls)
     else if atype = CHR ''b'' \<and> vs \<noteq> [] then mcrash Out_of_bounds
     else mbind (do_call ok (Append_fixed atype vs) calls) (\<lambda>(b, calls).
          if \<not> b then mret (- ENOMEM, calls) else close_container ok calls))"

text \<open>A writer of a value by its signature, after the calls made so far.\<close>

type_synonym dbus_write = "di_variant \<Rightarrow> dbus_signature \<Rightarrow> dbus_call list \<Rightarrow> (int \<times> dbus_call list) M"

primrec serialize_elems :: "dbus_write \<Rightarrow> dbus_signature \<Rightarrow> di_variant list \<Rightarrow> dbus_call list \<Rightarrow> (int \<times> dbus_call list) M" where
  "serialize_elems wr si [] calls = mret (0, calls)"
| "serialize_elems wr si (v # vs) calls =
     mbind (wr v si calls) (\<lambda>(ret, calls).
     if ret < 0 then mret (ret, calls) else serialize_elems wr si vs calls)"

fun serialize_fields :: "dbus_write \<Rightarrow> di_variant list \<Rightarrow> dbus_signature list \<Rightarrow> dbus_call list \<Rightarrow> (int \<times> dbus_call list) M" where
  "serialize_fields wr [] sis calls = mret (0, calls)"
| "serialize_fields wr (v # vs) [] calls = mcrash Out_of_bounds"
| "serialize_fields wr (v # vs) (si # sis) calls =
     mbind (wr v si calls) (\<lambda>(ret, calls).
     if ret < 0 then mret (ret, calls) else serialize_fields wr vs sis calls)"

definition serialize_variant ::
  "dbus_write \<Rightarrow> (char \<Rightarrow> bool) \<Rightarrow> (dbus_call list \<Rightarrow> dbus_call \<Rightarrow> bool) \<Rightarrow> di_variant \<Rightarrow> dbus_call list \<Rightarrow> (int \<times> dbus_call list) M" where
  "serialize_variant wr basic ok var calls =
     (let v = (case var of V_variant v \<Rightarrow> v | _ \<Rightarrow> var) in
      mbind (lift_fault (type_signature_of_di_value basic v)) (\<lambda>inner.
      mbind (do_call ok (Open_container DBUS_TYPE_VARIANT (sig_current inner)) calls) (\<lambda>(_, calls).
      mbind (wr v inner calls) (\<lambda>(_, calls).
      close_container ok calls))))"

definition serialize_array ::
  "dbus_write \<Rightarrow> (char \<Rightarrow> bool) \<Rightarrow> (dbus_call list \<Rightarrow> dbus_call \<Rightarrow> bool) \<Rightarrow> di_variant \<Rightarrow> dbus_signature \<Rightarrow> dbus_call list \<Rightarrow>
   (int \<times> dbus_call list) M" where
  "serialize_array wr basic ok var si calls =
     (case var of
        V_array t vs \<Rightarrow>
          (case di_type_to_dbus_basic t of
             None \<Rightarrow> mcrash Panic
           | Some atype \<Rightarrow>
               mseq (mcheck Assert_failed (sig_nchild si = 1))
               (case sig_child si of
                  [] \<Rightarrow> mcrash Out_of_bounds
                | si2 # _ \<Rightarrow>
                    mbind (if basic atype \<and> atype \<noteq> CHR ''s'' then lift_fault (sig_head si2) else mret NUL) (\<lambda>c2.
                    if basic atype \<and> atype \<noteq> CHR ''s'' \<and> atype = c2
                    then serialize_fixed ok atype vs calls
                    else case di_sizeof_type t of
                        None \<Rightarrow> mcrash Panic
                      | Some _ \<Rightarrow>
                          mbind (do_call ok (Open_container DBUS_TYPE_ARRAY
                                   (map_option c_str (di_string_to_chars_alloc (sig_current si2)))) calls) (\<lambda>(b, calls).
                          if \<not> b then mret (- ENOMEM, calls)
                          else
                          mbind (serialize_elems wr si2 vs calls) (\<lambda>(ret, calls).
                          if ret < 0 then mret (ret, calls) else close_container ok calls)))))
      | _ \<Rightarrow> mret (- EINVAL, calls))"

text \<open>A value that is neither an array nor a tuple becomes a structure without fields.\<close>

definition serialize_in_struct ::
  "dbus_write \<Rightarrow> (dbus_call list \<Rightarrow> dbus_call \<Rightarrow> bool) \<Rightarrow> di_variant \<Rightarrow> dbus_signature \<Rightarrow> dbus_call list \<Rightarrow> (int \<times> dbus_call list) M" where
  "serialize_in_struct wr ok var si calls =
     mbind (do_call ok (Open_container DBUS_TYPE_STRUCT None) calls) (\<lambda>(b, calls).
     if \<not> b then mret (- ENOMEM, calls)
     else
     case (case var of V_array t vs \<Rightarrow> Some vs | V_tuple vs \<Rightarrow> Some vs | _ \<Rightarrow> None) of
       None \<Rightarrow> close_container ok calls
     | Some vs \<Rightarrow>
         if sig_nchild si \<noteq> int (length vs) then mret (- EINVAL, calls)
         else mbind (serialize_fields wr vs (sig_child si) calls) (\<lambda>(ret, calls).
              if ret < 0 then mret (ret, calls) else close_container ok calls))"

primrec dbus_serialize_with_signature ::
  "nat \<Rightarrow> (char \<Rightarrow> bool) \<Rightarrow> u64 \<Rightarrow> (dbus_call list \<Rightarrow> dbus_call \<Rightarrow> bool) \<Rightarrow> dbus_write" where
  "dbus_serialize_with_signature 0 basic junk ok var si calls = mcrash Out_of_fuel"
| "dbus_serialize_with_signature (Suc n) basic junk ok var si calls =
     mbind (lift_fault (sig_head si)) (\<lambda>c.
     if basic c
     then mbind (dbus_serialize_basic_with_type junk ok var c calls) (\<lambda>(b, calls).
          mret (if b then 0 else - EINVAL, calls))
     else if c = DBUS_TYPE_VARIANT
     then serialize_variant (dbus_serialize_with_signature n basic junk ok) basic ok var calls
     else
     case var of
       V_variant v \<Rightarrow> dbus_serialize_with_signature n basic junk ok v si calls
     | _ \<Rightarrow>
       if c = DBUS_TYPE_ARRAY
       then serialize_array (dbus_serialize_with_signature n basic junk ok) basic ok var si calls
       else if c = DBUS_STRUCT_BEGIN_CHAR
       then serialize_in_struct (dbus_serialize_with_signature n basic junk ok) ok var si calls
       else mret (- EINVAL, calls))"

text \<open>
  \<^verbatim>\<open>dbus_serialize_struct\<close>: the signature is given or computed from the values.  The number of values
  is not compared with the number of types in a signature that is given.
\<close>

definition dbus_serialize_struct ::
  "nat \<Rightarrow> (char \<Rightarrow> bool) \<Rightarrow> (char \<Rightarrow> bool) \<Rightarrow> u64 \<Rightarrow> (dbus_call list \<Rightarrow> dbus_call \<Rightarrow> bool) \<Rightarrow> di_variant list \<Rightarrow> di_string \<Rightarrow>
   dbus_call list \<Rightarrow> (int \<times> dbus_call list) M" where
  "dbus_serialize_struct n valid basic junk ok t signature calls =
     mbind (lift_fault (if str_length signature = 0 then type_signature_of_di_value basic (V_tuple t)
                        else parse_dbus_signature valid basic signature)) (\<lambda>sig.
     if sig_nchild sig < 0 then mret (sig_nchild sig, calls)
     else serialize_fields (dbus_serialize_with_signature n basic junk ok) t (sig_child sig) calls)"

end
