(* ===== verification/Deai_Sedes_Props.thy ===== *)
theory Deai_Sedes_Props
  imports Deai_Sedes Deai_Signature_Proof Deai_Conv_Props
begin

text \<open>
  What is written to a message is what is read from it.  A message is a tree of D-Bus values; the calls
  that write a tree and the iterators that read one are the two sides of the interface to libdbus.
\<close>

section \<open>Messages\<close>

datatype dbus_value =
    D_basic char dbus_basic
  | D_array c_string "dbus_value list"
  | D_struct "dbus_value list"
  | D_variant c_string dbus_value
  | D_entry dbus_value dbus_value

fun code :: "dbus_value \<Rightarrow> char" where
  "code (D_basic c b) = c"
| "code (D_array s vs) = DBUS_TYPE_ARRAY"
| "code (D_struct vs) = DBUS_TYPE_STRUCT"
| "code (D_variant s v) = DBUS_TYPE_VARIANT"
| "code (D_entry k v) = DBUS_TYPE_DICT_ENTRY"

fun inside :: "dbus_value \<Rightarrow> dbus_value list" where
  "inside (D_basic c b) = []"
| "inside (D_array s vs) = vs"
| "inside (D_struct vs) = vs"
| "inside (D_variant s v) = [v]"
| "inside (D_entry k v) = [k, v]"

text \<open>The calls that write a value.\<close>

fun calls_of :: "dbus_value \<Rightarrow> dbus_call list" where
  "calls_of (D_basic c b) = [Append_basic c b]"
| "calls_of (D_array s vs) = Open_container DBUS_TYPE_ARRAY (Some s) # concat (map calls_of vs) @ [Close_container]"
| "calls_of (D_struct vs) = Open_container DBUS_TYPE_STRUCT None # concat (map calls_of vs) @ [Close_container]"
| "calls_of (D_variant s v) = Open_container DBUS_TYPE_VARIANT (Some s) # calls_of v @ [Close_container]"
| "calls_of (D_entry k v) = Open_container DBUS_TYPE_DICT_ENTRY None # calls_of k @ calls_of v @ [Close_container]"

text \<open>Iterators that read the values of a message, with what libdbus documents about them.\<close>

locale dbus_reader =
  fixes L :: "'i dbus_iter" and content :: "'i \<Rightarrow> dbus_value list"
  assumes arg_type: "it_arg_type L i = (case content i of [] \<Rightarrow> DBUS_TYPE_INVALID | v # _ \<Rightarrow> code v)"
    and iter_next: "content (it_next L i) = tl (content i)"
    and recurse: "content i = v # vs \<Longrightarrow> content (it_recurse L i) = inside v"
    and get_basic: "content i = D_basic c b # vs \<Longrightarrow> it_get_basic L i = b"
    and element_count: "content i = D_array s vs # rest \<Longrightarrow> it_element_count L i = length vs"
    and basic_codes: "is_basic L c \<longleftrightarrow> c \<in> set dbus_codes"
    and fixed_codes: "is_fixed L c \<longleftrightarrow> c \<in> set ''ybnqiuxtdh''"
begin

end

definition tree_iter :: "dbus_value list dbus_iter" where
  "tree_iter = \<lparr>it_arg_type = (\<lambda>i. case i of [] \<Rightarrow> DBUS_TYPE_INVALID | v # _ \<Rightarrow> code v),
     it_get_basic = (\<lambda>i. case i of D_basic c b # _ \<Rightarrow> b | _ \<Rightarrow> B_bits 0),
     it_recurse = (\<lambda>i. case i of [] \<Rightarrow> [] | v # _ \<Rightarrow> inside v), it_next = tl,
     it_element_count = (\<lambda>i. case i of D_array s vs # _ \<Rightarrow> length vs | _ \<Rightarrow> 0),
     is_basic = (\<lambda>c. c \<in> set dbus_codes), is_fixed = (\<lambda>c. c \<in> set ''ybnqiuxtdh'')\<rparr>"

interpretation tree: dbus_reader tree_iter "\<lambda>i. i"
  by unfold_locales (auto simp: tree_iter_def)

section \<open>Values that can be sent\<close>

fun sends :: "di_variant \<Rightarrow> bool" where
  "sends (V_uint x) \<longleftrightarrow> uint x < 2 ^ 63"
| "sends (V_nuint x) \<longleftrightarrow> uint x < 2 ^ 31"
| "sends (V_string s) \<longleftrightarrow> str_bytes s \<noteq> [] \<and> NUL \<notin> set (str_bytes s)"
| "sends (V_array t vs) \<longleftrightarrow>
     t \<in> {DI_TYPE_STRING, DI_TYPE_TUPLE, DI_TYPE_ARRAY, DI_TYPE_VARIANT} \<and> (\<forall>v \<in> set vs. sends v)"
| "sends (V_tuple vs) \<longleftrightarrow> (\<forall>v \<in> set vs. sends v)"
| "sends (V_variant v) \<longleftrightarrow> sends v"
| "sends (V_string_literal s) \<longleftrightarrow> False"
| "sends _ \<longleftrightarrow> True"

text \<open>The D-Bus value of a value, and the value it is received as: small integers arrive widened.\<close>

definition elem_text :: "di_variant \<Rightarrow> c_string" where
  "elem_text v = (case ty_of v of None \<Rightarrow> [] | Some ty \<Rightarrow> ty_text ty)"

fun to_dbus :: "di_variant \<Rightarrow> dbus_value" where
  "to_dbus (V_bool b) = D_basic (CHR ''b'') (B_bits (of_bool b))"
| "to_dbus (V_int x) = D_basic (CHR ''x'') (B_bits x)"
| "to_dbus (V_uint x) = D_basic (CHR ''t'') (B_bits x)"
| "to_dbus (V_nint x) = D_basic (CHR ''i'') (B_bits (ucast x))"
| "to_dbus (V_nuint x) = D_basic (CHR ''u'') (B_bits (ucast x))"
| "to_dbus (V_float f) = D_basic (CHR ''d'') (B_bits f)"
| "to_dbus (V_string s) = D_basic (CHR ''s'') (B_text (Some (str_bytes s)))"
| "to_dbus (V_array t vs) = D_array (case vs of [] \<Rightarrow> [] | v # _ \<Rightarrow> elem_text v) (map to_dbus vs)"
| "to_dbus (V_tuple vs) = D_struct (map to_dbus vs)"
| "to_dbus (V_variant v) = D_variant (elem_text v) (to_dbus v)"
| "to_dbus _ = D_struct []"

fun received :: "di_variant \<Rightarrow> di_variant" where
  "received (V_nint x) = V_int (scast x)"
| "received (V_nuint x) = V_uint (ucast x)"
| "received (V_array t vs) = V_array t (map received vs)"
| "received (V_tuple vs) = V_tuple (map received vs)"
| "received (V_variant v) = V_variant (received v)"
| "received v = v"

section \<open>Writing\<close>

lemma do_call_ok: "\<forall>cs c. ok cs c \<Longrightarrow> do_call ok c calls = mret (True, calls @ [c])"
  by (simp add: do_call_def)

lemma close_ok: "\<forall>cs c. ok cs c \<Longrightarrow> close_container ok calls = mret (0, calls @ [Close_container])"
  by (simp add: close_container_def do_call_ok mbind_mret)

lemma serialize_elems_ok:
  assumes "\<forall>v \<in> set vs. \<forall>cs. wr v si cs = mret (0, cs @ f v)"
  shows "serialize_elems wr si vs calls = mret (0, calls @ concat (map f vs))"
  using assms by (induction vs arbitrary: calls) (simp_all add: mbind_mret)

lemma serialize_fields_ok:
  assumes "length sis = length vs" and "\<forall>(v, si) \<in> set (zip vs sis). \<forall>cs. wr v si cs = mret (0, cs @ f v)"
  shows "serialize_fields wr vs sis calls = mret (0, calls @ concat (map f vs))"
  using assms by (induction vs sis arbitrary: calls rule: list_induct2') (simp_all add: mbind_mret)

lemma take_bit_self: "take_bit 64 (x :: u64) = x"
  by (simp add: take_bit_word_eq_self)

lemma take_bit_nint: "take_bit 32 (scast (x :: u32) :: u64) = ucast x"
proof (rule bit_word_eqI)
  fix n
  show "bit (take_bit 32 (scast x :: u64)) n = bit (ucast x :: u64) n" if "n < LENGTH(64)"
    using bit_imp_le_length [of x n] that by (cases "n < 32") (auto simp: bit_simps min_absorb2)
qed

lemma take_bit_nuint: "take_bit 32 (ucast (x :: u32) :: u64) = ucast x"
  by (rule bit_word_eqI) (auto simp: bit_simps dest: bit_imp_le_length)

lemma sint_scast_nint: "sint (scast (x :: u32) :: u64) = sint x"
  by transfer (simp add: signed_take_bit_signed_take_bit)

lemma uint_ucast_nuint: "uint (ucast (x :: u32) :: u64) = uint x"
  by (simp add: uint_up_ucast is_up)

lemma serialize_integer_ok:
  assumes "\<forall>cs c. ok cs c" and "int_value v = Some n" and "fits bits False n" and "dbus_int_bits c = Some bits"
  shows "dbus_serialize_integer junk ok v c calls =
    mret (True, calls @ [Append_basic c (B_bits (take_bit bits (word_of_int n)))])"
proof -
  from assms(4) have "bits \<in> {8, 16, 32, 64}" by (auto simp: dbus_int_bits_def split: if_splits)
  with assms(2,3) have "di_int_conversion v bits False = mret (0, n)"
    by (auto simp: di_int_conversion_def convert_int_exact [OF assms(2)] mbind_mret)
  with assms(1,4) show ?thesis
    by (simp add: dbus_serialize_integer_def mbind_mret do_call_ok)
qed

lemma c_str_alloc: "str_bytes s \<noteq> [] \<Longrightarrow> NUL \<notin> set (str_bytes s) \<Longrightarrow>
  map_option c_str (di_string_to_chars_alloc s) = Some (str_bytes s)"
  by (cases s) (simp_all add: di_string_to_chars_alloc_def di_string_to_chars_def c_str_append_NUL)

lemma serialize_basic_ok:
  assumes "\<forall>cs c. ok cs c" and "sends v" and "ty_of v = Some (T_basic c)"
  shows "dbus_serialize_basic_with_type junk ok v c calls = mret (True, calls @ calls_of (to_dbus v))"
  using assms(2,3)
proof (cases v)
  case (V_int x)
  with assms serialize_integer_ok [of ok v "sint x" 64 "CHR ''x''" junk calls] sint_ge [of x] sint_lt [of x]
  show ?thesis by (auto simp: dbus_serialize_basic_with_type_def dbus_int_bits_def int_min_def int_max_def take_bit_self)
next
  case (V_uint x)
  with assms order_trans [OF _ uint_ge_0 [of x], of "- (2 ^ 63)"] serialize_integer_ok [of ok v "uint x" 64 "CHR ''t''" junk calls]
  show ?thesis by (auto simp: dbus_serialize_basic_with_type_def dbus_int_bits_def int_min_def int_max_def take_bit_self)
next
  case (V_nint x)
  with assms serialize_integer_ok [of ok v "sint x" 32 "CHR ''i''" junk calls] sint_ge [of x] sint_lt [of x]
  show ?thesis by (auto simp: dbus_serialize_basic_with_type_def dbus_int_bits_def int_min_def int_max_def take_bit_nint sint_scast_nint)
next
  case (V_nuint x)
  with assms order_trans [OF _ uint_ge_0 [of x], of "- (2 ^ 31)"] serialize_integer_ok [of ok v "uint x" 32 "CHR ''u''" junk calls]
  show ?thesis by (auto simp: dbus_serialize_basic_with_type_def dbus_int_bits_def int_min_def int_max_def take_bit_nuint uint_ucast_nuint)
qed (auto simp: dbus_serialize_basic_with_type_def do_call_ok assms(1) c_str_alloc split: list.splits option.splits if_splits)

lemma ty_text_no_NUL: "ty_ok ty \<Longrightarrow> NUL \<notin> set (ty_text ty)"
  by (induction ty rule: ty_text.induct) (auto simp: dbus_codes_def)

lemma sizes_inside:
  "v \<in> set vs \<Longrightarrow> size v < size (V_array t vs)" "v \<in> set vs \<Longrightarrow> size v < size (V_tuple vs)"
  "size v < size (V_variant v)"
  by (simp_all add: size_list_estimation' [OF _ order_refl] less_Suc_eq_le)

lemma ty_of_array:
  assumes "ty_of (V_array t vs) = Some ty"
  obtains ty0 where "ty = T_array ty0" and "\<forall>v \<in> set vs. ty_of v = Some ty0" and "vs \<noteq> []"
    and "(case vs of [] \<Rightarrow> [] | v # _ \<Rightarrow> elem_text v) = ty_text ty0"
  using assms by (cases vs) (auto simp: elem_text_def split: option.splits if_splits)

lemma ty_of_tuple:
  assumes "ty_of (V_tuple vs) = Some ty"
  shows "ty = T_struct (map (the \<circ> ty_of) vs)" and "\<forall>v \<in> set vs. ty_of v = Some (the (ty_of v))"
  using assms by (fastforce split: if_splits)+

lemma ty_of_variant:
  assumes "ty_of (V_variant v) = Some ty"
  obtains ty0 where "ty = T_variant" and "ty_of v = Some ty0" and "elem_text v = ty_text ty0"
  using assms by (auto simp: elem_text_def split: if_splits)

lemma ty_of_basic:
  assumes "ty_of v = Some ty" and "\<forall>t vs. v \<noteq> V_array t vs" and "\<forall>vs. v \<noteq> V_tuple vs" and "\<forall>u. v \<noteq> V_variant u"
  obtains c where "ty = T_basic c" and "c \<in> set dbus_codes"
  using assms by (cases v) (auto simp: dbus_codes_def)

context dbus_lib
begin

lemma serialize_array_step:
  assumes "\<forall>cs c. ok cs c" and "t \<in> {DI_TYPE_STRING, DI_TYPE_TUPLE, DI_TYPE_ARRAY, DI_TYPE_VARIANT}" and "ty_ok ty"
    and "\<forall>v \<in> set vs. \<forall>cs. wr v (ty_tree ty) cs = mret (0, cs @ f v)"
  shows "serialize_array wr basic ok (V_array t vs) (ty_tree (T_array ty)) calls =
    mret (0, calls @ Open_container DBUS_TYPE_ARRAY (Some (ty_text ty)) # concat (map f vs) @ [Close_container])"
proof -
  have "map_option c_str (di_string_to_chars_alloc (Some (ty_text ty))) = Some (ty_text ty)"
    using c_str_alloc [of "Some (ty_text ty)"] ty_text_nonempty [of ty] ty_text_no_NUL [OF assms(3)] by simp
  moreover have "\<not> (basic d \<and> d \<noteq> CHR ''s'')" if "di_type_to_dbus_basic t = Some d" for d
    using assms(2) that by (auto simp: basic_iff dbus_codes_def)
  ultimately show ?thesis
    using assms(1,2) serialize_elems_ok [where wr = wr and f = f and si = "ty_tree ty" and vs = vs, OF assms(4)]
    by (auto simp: serialize_array_def do_call_ok close_ok mbind_mret mseq_def mcheck_def mret_def [abs_def] fun_eq_iff
        mbind_def basic_iff dbus_codes_def)
qed

lemma serialize_ok:
  assumes ok: "\<forall>cs c. ok cs c"
  shows "wt_value v \<Longrightarrow> sends v \<Longrightarrow> ty_of v = Some ty \<Longrightarrow> size v < n \<Longrightarrow>
    dbus_serialize_with_signature n basic junk ok v (ty_tree ty) calls = mret (0, calls @ calls_of (to_dbus v))"
proof (induction n arbitrary: v ty calls)
  case (Suc n)
  note ok_ty = ty_of_ok [OF Suc.prems(3)]
  consider (array) t vs where "v = V_array t vs" | (tuple) vs where "v = V_tuple vs" | (variant) u where "v = V_variant u"
    | (basic) "\<forall>t vs. v \<noteq> V_array t vs" "\<forall>vs. v \<noteq> V_tuple vs" "\<forall>u. v \<noteq> V_variant u" by blast
  then show ?case
  proof cases
    case array
    from Suc.prems(3) obtain ty0 where ty: "ty = T_array ty0" "\<forall>u \<in> set vs. ty_of u = Some ty0"
      and el: "(case vs of [] \<Rightarrow> [] | v # _ \<Rightarrow> elem_text v) = ty_text ty0"
      unfolding array by (rule ty_of_array)
    have "\<forall>u \<in> set vs. \<forall>cs. dbus_serialize_with_signature n basic junk ok u (ty_tree ty0) cs = mret (0, cs @ calls_of (to_dbus u))"
      using Suc.IH Suc.prems ty(2) sizes_inside(1) unfolding array by (fastforce simp del: to_dbus.simps)
    from serialize_array_step [where wr = "dbus_serialize_with_signature n basic junk ok" and f = "\<lambda>u. calls_of (to_dbus u)", OF ok _ _ this] Suc.prems(2) ok_ty show ?thesis
      by (simp add: array ty sig_head_def lift_fault_def mbind_mret composite_not_basic el comp_def)
  next
    case tuple
    from Suc.prems(3) have ty: "ty = T_struct (map (the \<circ> ty_of) vs)" "\<forall>u \<in> set vs. ty_of u = Some (the (ty_of u))"
      unfolding tuple by (rule ty_of_tuple)+
    have "\<forall>(u, si) \<in> set (zip vs (map ty_tree (map (the \<circ> ty_of) vs))). \<forall>cs.
        dbus_serialize_with_signature n basic junk ok u si cs = mret (0, cs @ calls_of (to_dbus u))"
    proof -
      have "\<forall>u \<in> set vs. \<forall>cs. dbus_serialize_with_signature n basic junk ok u (ty_tree (the (ty_of u))) cs =
          mret (0, cs @ calls_of (to_dbus u))"
        using Suc.IH Suc.prems ty(2) sizes_inside(2) unfolding tuple by (fastforce simp del: to_dbus.simps)
      then show ?thesis by (simp add: zip_map2 zip_same_conv_map del: to_dbus.simps)
    qed
    from serialize_fields_ok [where wr = "dbus_serialize_with_signature n basic junk ok" and f = "\<lambda>u. calls_of (to_dbus u)", OF _ this] show ?thesis
      by (simp add: tuple ty sig_head_def lift_fault_def mbind_mret composite_not_basic serialize_in_struct_def do_call_ok [OF ok] close_ok [OF ok] comp_def)
  next
    case variant
    from Suc.prems(3) obtain ty0 where ty: "ty = T_variant" "ty_of u = Some ty0" "elem_text u = ty_text ty0"
      unfolding variant by (rule ty_of_variant)
    from Suc.prems have "type_signature_of_di_value basic u = Inr (ty_tree ty0)"
      by (intro signature_of_typed) (simp_all add: variant ty)
    moreover have "dbus_serialize_with_signature n basic junk ok u (ty_tree ty0) cs = mret (0, cs @ calls_of (to_dbus u))" for cs
      using Suc.prems ty sizes_inside(3) [of u] by (intro Suc.IH) (simp_all add: variant)
    ultimately show ?thesis
      by (simp add: variant ty sig_head_def lift_fault_def mbind_mret composite_not_basic serialize_variant_def do_call_ok [OF ok] close_ok [OF ok])
  next
    case basic
    with Suc.prems(3) obtain c where ty: "ty = T_basic c" "c \<in> set dbus_codes" by (rule ty_of_basic)
    then show ?thesis
      using serialize_basic_ok [OF ok Suc.prems(2), of c junk calls] Suc.prems(3)
      by (simp add: ty sig_head_def lift_fault_def mbind_mret basic_iff)
  qed
qed simp

end

section \<open>Reading\<close>

lemma code_to_dbus: "ty_of v = Some ty \<Longrightarrow> sends v \<Longrightarrow> dbus_type_to_di (code (to_dbus v)) = typeof (received v)"
  by (cases v) (auto simp: dbus_type_to_di_def)

lemma sizeof_received: "ty_of v = Some ty \<Longrightarrow> \<exists>sz. di_sizeof_type (typeof (received v)) = Some sz"
  by (cases v) auto

lemma code_valid: "ty_of v = Some ty \<Longrightarrow> code (to_dbus v) \<noteq> DBUS_TYPE_INVALID \<and> code (to_dbus v) \<noteq> DBUS_TYPE_DICT_ENTRY"
  by (cases v) auto

lemma ucast_ucast_32: "(ucast (ucast (x :: u32) :: u64) :: 32 word) = x"
  by (rule bit_word_eqI) (auto simp: bit_simps)

lemma deserialize_basic_to_dbus:
  assumes "ty_of v = Some (T_basic c)" and "sends v"
  shows "\<exists>b. to_dbus v = D_basic c b \<and> dbus_deserialize_basic b c = Inr (received v)"
  using assms
  by (cases v) (auto simp: ucast_ucast_32 di_string_dup_def str_bytes_def split: option.splits list.splits if_splits)

context dbus_reader
begin

lemma args_left_content: "length (content i) < n \<Longrightarrow> \<forall>v \<in> set (content i). code v \<noteq> DBUS_TYPE_INVALID \<Longrightarrow>
  args_left n L i = Inr (length (content i))"
proof (induction n arbitrary: i)
  case (Suc n)
  then show ?case
    by (cases "content i") (simp_all add: arg_type iter_next)
qed simp

lemma fields_content:
  assumes "\<forall>v \<in> set vs. \<forall>i rest. content i = to_dbus v # rest \<longrightarrow> one i (code (to_dbus v)) = mret (received v)"
    and "\<forall>v \<in> set vs. ty_of v \<noteq> None \<and> sends v"
  shows "content i = map to_dbus vs @ rest \<Longrightarrow> deserialize_fields one L (length vs) i = mret (map received vs)"
  using assms
proof (induction vs arbitrary: i)
  case (Cons v vs)
  then obtain ty where ty: "ty_of v = Some ty" "sends v" by auto
  with Cons.prems have "it_arg_type L i = code (to_dbus v)" and one: "one i (code (to_dbus v)) = mret (received v)"
    by (simp_all add: arg_type)
  moreover have "deserialize_fields one L (length vs) (it_next L i) = mret (map received vs)"
    using Cons.prems by (intro Cons.IH) (simp_all add: iter_next)
  ultimately show ?case
    using sizeof_received [OF ty(1)]
    by (auto simp: Let_def code_to_dbus [OF ty] mbind_mret mseq_def mcheck_def [abs_def] mbind_def mret_def fun_eq_iff)
qed simp

lemma elems_content:
  assumes "\<forall>v \<in> set vs. \<forall>i rest. content i = to_dbus v # rest \<longrightarrow> one i c = mret (received v)"
    and "\<forall>v \<in> set vs. typeof (received v) = t"
  shows "content i = map to_dbus vs @ rest \<Longrightarrow> deserialize_elems one L c t (length vs) i = mret (map received vs)"
  using assms
proof (induction vs arbitrary: i)
  case (Cons v vs)
  then have "one i c = mret (received v)" by simp
  moreover have "deserialize_elems one L c t (length vs) (it_next L i) = mret (map received vs)"
    using Cons.prems by (intro Cons.IH) (simp_all add: iter_next)
  ultimately show ?case
    using Cons.prems by (simp add: mbind_mret mseq_def mcheck_def [abs_def] mbind_def mret_def fun_eq_iff)
qed simp

end

context dbus_reader
begin

lemma struct_content:
  assumes one: "\<forall>v \<in> set vs. \<forall>i rest. content i = to_dbus v # rest \<longrightarrow> one i (code (to_dbus v)) = mret (received v)"
    and ty: "\<forall>v \<in> set vs. ty_of v \<noteq> None \<and> sends v" and i: "content i = map to_dbus vs" and n: "length vs < n"
  shows "deserialize_struct_with one n L i = mret (map received vs)"
proof -
  have "args_left n L i = Inr (length vs)"
    using args_left_content [of i n] i n ty code_valid by fastforce
  with fields_content [OF one ty, of i "[]"] i show ?thesis
    by (simp add: deserialize_struct_with_def lift_fault_def mbind_mret)
qed

lemma deserialize_ok:
  "wt_value v \<Longrightarrow> sends v \<Longrightarrow> ty_of v = Some ty \<Longrightarrow> size v < n \<Longrightarrow> size v < e_fuel E \<Longrightarrow> content i = to_dbus v # rest \<Longrightarrow>
   dbus_deserialize_one n E L i (code (to_dbus v)) = mret (received v)"
proof (induction n arbitrary: v ty i rest)
  case (Suc n)
  note rec = recurse [OF Suc.prems(6)]
  consider (array) t vs where "v = V_array t vs" | (tuple) vs where "v = V_tuple vs" | (variant) u where "v = V_variant u"
    | (basic) "\<forall>t vs. v \<noteq> V_array t vs" "\<forall>vs. v \<noteq> V_tuple vs" "\<forall>u. v \<noteq> V_variant u" by blast
  then show ?case
  proof cases
    case array
    from Suc.prems(3) obtain ty0 where ty: "ty = T_array ty0" "\<forall>u \<in> set vs. ty_of u = Some ty0" and ne: "vs \<noteq> []"
      unfolding array by (rule ty_of_array)
    obtain v0 vs' where vs: "vs = v0 # vs'" using ne by (cases vs) auto
    let ?c = "code (to_dbus v0)"
    have snd: "\<forall>u \<in> set vs. sends u" and wt: "\<forall>u \<in> set vs. wt_value u \<and> typeof u = t"
      and t: "t \<in> {DI_TYPE_STRING, DI_TYPE_TUPLE, DI_TYPE_ARRAY, DI_TYPE_VARIANT}"
      using Suc.prems(1,2) unfolding array by auto
    have same: "typeof (received u) = t" if "u \<in> set vs" for u
      using wt t that by (cases u) auto
    have code: "code (to_dbus u) = ?c" if "u \<in> set vs" for u
      using wt t snd that vs by (cases u; cases v0) auto
    have c: "dbus_type_to_di ?c = t" "\<not> is_fixed L ?c" "?c \<noteq> DBUS_TYPE_INVALID" "?c \<noteq> DBUS_TYPE_DICT_ENTRY"
      using t wt snd vs code_to_dbus [of v0 ty0] same [of v0] ty(2) by (cases v0; auto simp: fixed_codes)+
    have "deserialize_elems (dbus_deserialize_one n E L) L ?c t (length vs) (it_recurse L i) = mret (map received vs)"
    proof (rule elems_content)
      show "\<forall>u \<in> set vs. \<forall>i rest. content i = to_dbus u # rest \<longrightarrow> dbus_deserialize_one n E L i ?c = mret (received u)"
      proof (intro ballI allI impI)
        fix u i rest
        assume u: "u \<in> set vs" and "content i = to_dbus u # rest"
        with Suc.IH [of u ty0 i rest] Suc.prems(4,5) sizes_inside(1) [OF u, of t] snd wt ty(2) code [OF u]
        show "dbus_deserialize_one n E L i ?c = mret (received u)" by (simp add: array)
      qed
      show "content (it_recurse L i) = map to_dbus vs @ []" using rec by (simp add: array)
    qed (use same in simp)
    moreover have "it_element_count L i = length vs"
      using Suc.prems(6) by (simp add: array element_count)
    moreover have "it_arg_type L (it_recurse L i) = ?c" using rec by (simp add: arg_type array vs)
    moreover obtain sz where "di_sizeof_type t = Some sz" using t by auto
    ultimately show ?thesis
      using c by (simp add: array basic_codes dbus_codes_def deserialize_array_or_dict_def Let_def dbus_deserialize_array_def mbind_mret)
  next
    case tuple
    note ty = ty_of_tuple [OF Suc.prems(3) [unfolded tuple]]
    have "deserialize_struct_with (dbus_deserialize_one n E L) (e_fuel E) L (it_recurse L i) = mret (map received vs)"
    proof (rule struct_content)
      show "\<forall>u \<in> set vs. \<forall>i rest. content i = to_dbus u # rest \<longrightarrow>
          dbus_deserialize_one n E L i (code (to_dbus u)) = mret (received u)"
      proof (intro ballI allI impI)
        fix u i rest
        assume u: "u \<in> set vs" and "content i = to_dbus u # rest"
        with Suc.IH [of u "the (ty_of u)" i rest] Suc.prems(1,2,4,5) sizes_inside(2) [OF u] ty(2)
        show "dbus_deserialize_one n E L i (code (to_dbus u)) = mret (received u)" by (simp add: tuple)
      qed
      show "\<forall>u \<in> set vs. ty_of u \<noteq> None \<and> sends u" using ty(2) Suc.prems(2) by (auto simp: tuple)
      show "content (it_recurse L i) = map to_dbus vs" using rec by (simp add: tuple)
      show "length vs < e_fuel E"
        using Suc.prems(5) size_list_pointwise [of vs "\<lambda>_. 0" size] by (simp add: tuple size_list_conv_sum_list)
    qed
    then show ?thesis by (simp add: tuple basic_codes dbus_codes_def mbind_mret)
  next
    case variant
    from Suc.prems(3) obtain ty0 where ty: "ty = T_variant" "ty_of u = Some ty0"
      unfolding variant by (rule ty_of_variant)
    have "content (it_recurse L i) = to_dbus u # []" using rec by (simp add: variant)
    moreover from this have "dbus_deserialize_one n E L (it_recurse L i) (code (to_dbus u)) = mret (received u)"
      using Suc.prems ty sizes_inside(3) [of u] by (intro Suc.IH [of u ty0]) (simp_all add: variant)
    moreover obtain sz where "di_sizeof_type (typeof (received u)) = Some sz"
      using sizeof_received [OF ty(2)] by auto
    moreover have "sends u" using Suc.prems(2) by (simp add: variant)
    ultimately show ?thesis
      using code_to_dbus [OF ty(2)]
      by (simp add: variant basic_codes dbus_codes_def deserialize_variant_def Let_def arg_type mbind_mret
          mseq_def mcheck_def [abs_def] mret_def [symmetric, abs_def])
  next
    case basic
    with Suc.prems(3) obtain c where ty: "ty = T_basic c" "c \<in> set dbus_codes" by (rule ty_of_basic)
    from deserialize_basic_to_dbus [OF Suc.prems(3) [unfolded ty(1)] Suc.prems(2)] obtain b
      where "to_dbus v = D_basic c b" "dbus_deserialize_basic b c = Inr (received v)" by blast
    then show ?thesis
      using Suc.prems(6) ty(2) get_basic [of i c b rest] by (simp add: basic_codes lift_fault_def)
  qed
qed simp

end

context dbus_lib
begin

lemma serialize_struct_ok:
  assumes "\<forall>cs c. ok cs c" and t: "\<forall>v \<in> set t. wt_value v \<and> sends v \<and> ty_of v \<noteq> None" and "\<forall>v \<in> set t. size v < n"
  shows "dbus_serialize_struct n valid basic junk ok t None [] = mret (0, concat (map (calls_of \<circ> to_dbus) t))"
proof -
  let ?ty = "T_struct (map (the \<circ> ty_of) t)"
  have "type_signature_of_di_value basic (V_tuple t) = Inr (ty_tree ?ty)"
    using t by (intro signature_of_typed) (auto simp: comp_def)
  moreover have "\<forall>u \<in> set t. \<forall>cs. dbus_serialize_with_signature n basic junk ok u (ty_tree (the (ty_of u))) cs =
      mret (0, cs @ calls_of (to_dbus u))"
    using t assms(3) by (auto intro!: serialize_ok [OF assms(1)])
  then have "serialize_fields (dbus_serialize_with_signature n basic junk ok) t (map ty_tree (map (the \<circ> ty_of) t)) [] =
      mret (0, [] @ concat (map (\<lambda>u. calls_of (to_dbus u)) t))"
    by (intro serialize_fields_ok) (auto simp: zip_map2 zip_same_conv_map)
  ultimately show ?thesis
    by (simp add: dbus_serialize_struct_def lift_fault_def mbind_mret comp_def)
qed

end

context dbus_reader
begin

lemma deserialize_struct_ok:
  assumes t: "\<forall>v \<in> set t. wt_value v \<and> sends v \<and> ty_of v \<noteq> None"
    and "\<forall>v \<in> set t. size v < n \<and> size v < e_fuel E" "length t < e_fuel E" and "content i = map to_dbus t"
  shows "dbus_deserialize_struct n E L i = mret (map received t)"
  unfolding dbus_deserialize_struct_def
proof (rule struct_content)
  show "\<forall>v \<in> set t. \<forall>i rest. content i = to_dbus v # rest \<longrightarrow> dbus_deserialize_one n E L i (code (to_dbus v)) = mret (received v)"
  proof (intro ballI allI impI)
    fix v i rest
    assume "v \<in> set t" "content i = to_dbus v # rest"
    with t assms(2) deserialize_ok [of v "the (ty_of v)" n E i rest]
    show "dbus_deserialize_one n E L i (code (to_dbus v)) = mret (received v)" by fastforce
  qed
qed (use assms in auto)

end

section \<open>The property\<close>


text \<open>A message with a number, a nested structure, an array of strings and a variant.\<close>

definition sample_tuple :: "di_variant list" where
  "sample_tuple = [V_nint 7, V_tuple [V_bool True, V_string (Some ''x'')],
     V_array DI_TYPE_STRING [V_string (Some ''a''), V_string (Some ''b'')], V_variant (V_float 1)]"

definition sedes_env :: env where
  "sedes_env = \<lparr>e_call = (\<lambda>_ _ _. mret (0, V_nil)), e_dtor = (\<lambda>_ _. mret ()), e_native = (\<lambda>_ _. mret V_nil),
     e_ffi_prep = (\<lambda>_ _. True), e_field = (\<lambda>_ _ _. V_nil), e_strerror = (\<lambda>_. []), e_now = 0,
     e_fadd = (+), e_fsub = (-), e_junk = V_nil, e_fuel = 20\<rparr>"


section \<open>Messages that are not handled\<close>

text \<open>
  A variant that holds a dictionary, a common thing on the bus, fails the assertion of the reader; a
  byte value makes it panic.
\<close>

theorem dict_in_variant_aborts:
  "dbus_deserialize_struct 20 sedes_env tree_iter
     [D_variant ''a{ss}'' (D_array ''{ss}'' [D_entry (D_basic (CHR ''s'') (B_text (Some ''k''))) (D_basic (CHR ''s'') (B_text (Some ''v'')))])]
     empty_world = Crash Assert_failed"
  by (simp add: dbus_deserialize_struct_def deserialize_struct_with_def sedes_env_def numeral_eq_Suc tree_iter_def lift_fault_def
      mbind_def mret_def sum_bind_def Let_def dbus_type_to_di_def dbus_codes_def deserialize_variant_def deserialize_array_or_dict_def
      dbus_deserialize_dict_def di_new_object_with_type_def di_new_object_def sizeof_di_object_def alignof_di_object_def
      mseq_def mcheck_def di_string_dup_def ignore_rc_def di_add_member_move_def di_add_member_def di_insert_member_def
      empty_world_def di_clone_string_def di_string_ndup_def str_bytes_def str_length_def di_lookup_def get_obj_def
      upd_obj_def put_obj_def di_init_object_def hash_add_def)

theorem byte_argument_panics:
  "dbus_deserialize_struct 20 sedes_env tree_iter [D_basic (CHR ''y'') (B_bits 1)] empty_world = Crash Panic"
  by (simp add: dbus_deserialize_struct_def deserialize_struct_with_def sedes_env_def numeral_eq_Suc tree_iter_def lift_fault_def
      mbind_def mret_def mcrash_def sum_bind_def Let_def dbus_type_to_di_def)

text \<open>A 64-bit unsigned number of half the range or more is replaced by whatever was on the stack.\<close>

theorem large_unsigned_sends_junk:
  assumes "2 ^ 63 \<le> uint x"
  shows "dbus_serialize_integer junk ok (V_uint x) (CHR ''t'') calls =
    do_call ok (Append_basic (CHR ''t'') (B_bits junk)) calls"
proof -
  have "di_int_conversion (V_uint x) 64 False = mret (- EINVAL, 0)"
    using assms convert_int_exact [of "V_uint x" "uint x" 64 False]
    by (auto simp: di_int_conversion_def mbind_mret int_max_def split: if_splits)
  then show ?thesis
    by (simp add: dbus_serialize_integer_def dbus_int_bits_def mbind_mret take_bit_self EINVAL_def)
qed

end
