(* ===== verification/Deai_File.thy ===== *)
theory Deai_File
  imports Deai_Event Deai_Spawn
begin

text \<open>
  The file plugin, \<^verbatim>\<open>plugins/file/file.c\<close>: watches over inotify.  A watch object keeps its entries in two
  hash tables, by watch descriptor and by name; both hold the same entries, so the model has one
  list of them, in the order they were added.  A search in a table that has several
  entries with the key finds the one added last, as long as the table has not been expanded since
  (an expansion reverses the chains).
\<close>

section \<open>Entries\<close>

type_synonym watch_entry = "int \<times> char list"

definition get_watch :: "addr \<Rightarrow> (int \<times> int \<times> watch_entry list) M" where
  "get_watch fw =
     mbind (get_obj fw) (\<lambda>ob.
     case payload ob of P_file_watch fd n es \<Rightarrow> mret (fd, n, es) | _ \<Rightarrow> mcrash Out_of_bounds)"

definition set_watch :: "addr \<Rightarrow> int \<Rightarrow> int \<Rightarrow> watch_entry list \<Rightarrow> unit M" where
  "set_watch fw fd n es = upd_obj fw (\<lambda>ob. ob\<lparr>payload := P_file_watch fd n es\<rparr>)"

definition find_bywd :: "int \<Rightarrow> watch_entry list \<Rightarrow> watch_entry option" where
  "find_bywd wd es = List.find (\<lambda>e. fst e = wd) (rev es)"

definition find_byname :: "char list \<Rightarrow> watch_entry list \<Rightarrow> watch_entry option" where
  "find_byname name es = List.find (\<lambda>e. snd e = name) (rev es)"

definition del_entry :: "watch_entry \<Rightarrow> watch_entry list \<Rightarrow> watch_entry list" where
  "del_entry e es = rev (remove1 e (rev es))"

section \<open>Events\<close>

text \<open>\<^verbatim>\<open>struct inotify_event\<close>; \<open>ev_name\<close> is absent when its length is 0.\<close>

record inotify_event =
  ev_wd :: int
  ev_mask :: u32
  ev_cookie :: u32
  ev_name :: "c_string option"

text \<open>The event bits of \<^verbatim>\<open>sys/inotify.h\<close> and the signals they become, in the order of the code.\<close>

definition watch_signals :: "(u32 \<times> c_string) list" where
  "watch_signals =
    [(0x100, ''create''), (0x1, ''access''), (0x4, ''attrib''), (0x8, ''close-write''), (0x10, ''close-nowrite''),
     (0x200, ''delete''), (0x400, ''delete-self''), (0x2, ''modify''), (0x800, ''move-self''), (0x20, ''open'')]"

definition move_signals :: "(u32 \<times> c_string) list" where
  "move_signals = [(0x40, ''moved-from''), (0x80, ''moved-to'')]"

text \<open>
  One emission.  The entry is read again: a handler that removed the watch has freed it.
\<close>

definition emit_watch_signal :: "env \<Rightarrow> addr \<Rightarrow> watch_entry \<Rightarrow> c_string \<Rightarrow> c_string \<Rightarrow> di_tuple \<Rightarrow> unit M" where
  "emit_watch_signal E fw we name path extra =
     mbind (get_watch fw) (\<lambda>(_, _, es).
     if we \<notin> set es then mcrash Use_after_free
     else di_emit E fw name ([V_string_literal (c_str (snd we)), V_string_literal path] @ extra))"

definition handle_event :: "env \<Rightarrow> addr \<Rightarrow> inotify_event \<Rightarrow> unit M" where
  "handle_event E fw ev =
     (let path = (case ev_name ev of None \<Rightarrow> [] | Some p \<Rightarrow> p) in
      mbind (get_watch fw) (\<lambda>(_, _, es).
      case find_bywd (ev_wd ev) es of
        None \<Rightarrow> mret ()
      | Some we \<Rightarrow>
          mseq (mforeach (\<lambda>(m, name). if and (ev_mask ev) m \<noteq> 0 then emit_watch_signal E fw we name path [] else mret ()) watch_signals)
          (mforeach (\<lambda>(m, name). if and (ev_mask ev) m \<noteq> 0
                       then emit_watch_signal E fw we name path [V_nuint (ev_cookie ev)] else mret ()) move_signals)))"

text \<open>\<^verbatim>\<open>di_file_ioev\<close> on the events one \<^verbatim>\<open>read\<close> returns (none when it fails).\<close>

definition di_file_ioev :: "env \<Rightarrow> inotify_event list \<Rightarrow> addr \<Rightarrow> int M" where
  "di_file_ioev E evs weak =
     mbind (di_upgrade_weak_ref weak) (\<lambda>fw.
     case fw of
       None \<Rightarrow> mcrash Panic
     | Some fw \<Rightarrow> scoped_object E (Some fw) (mseq (mforeach (handle_event E fw) evs) (mret 0)))"

section \<open>Adding and removing files\<close>

text \<open>\<open>inotify p\<close> is what \<^verbatim>\<open>inotify_add_watch\<close> returns for the path.\<close>

definition di_file_add_watch :: "(c_string option \<Rightarrow> int) \<Rightarrow> addr \<Rightarrow> di_string \<Rightarrow> int M" where
  "di_file_add_watch inotify fw path =
     (if path = None then mret (- EINVAL)
      else let ret = inotify (map_option c_str (di_string_to_chars_alloc path)) in
           if ret \<ge> 0
           then mbind (get_watch fw) (\<lambda>(fd, n, es).
                mseq (set_watch fw fd n (es @ [(ret, str_bytes path)])) (mret 0))
           else mret ret)"

fun add_watches :: "(c_string option \<Rightarrow> int) \<Rightarrow> addr \<Rightarrow> di_string list \<Rightarrow> int M" where
  "add_watches inotify fw [] = mret 0"
| "add_watches inotify fw (p # ps) =
     mbind (di_file_add_watch inotify fw p) (\<lambda>ret. if ret \<noteq> 0 then mret ret else add_watches inotify fw ps)"

fun path_of :: "di_variant \<Rightarrow> di_string" where
  "path_of (V_string s) = s"
| "path_of (V_string_literal s) = di_string_borrow s"
| "path_of _ = None"

definition di_file_add_many_watch :: "(c_string option \<Rightarrow> int) \<Rightarrow> addr \<Rightarrow> di_type \<Rightarrow> di_variant list \<Rightarrow> int M" where
  "di_file_add_many_watch inotify fw elem_type paths =
     (if paths = [] then mret 0
      else if elem_type \<noteq> DI_TYPE_STRING \<and> elem_type \<noteq> DI_TYPE_STRING_LITERAL then mret (- EINVAL)
      else add_watches inotify fw (map path_of paths))"

definition di_file_rm_watch :: "addr \<Rightarrow> di_string \<Rightarrow> int M" where
  "di_file_rm_watch fw path =
     (if path = None then mret (- EINVAL)
      else mbind (get_watch fw) (\<lambda>(fd, n, es).
           case find_byname (str_bytes path) es of
             None \<Rightarrow> mret (- ENOENT)
           | Some we \<Rightarrow>
               mseq (emit_effect (Inotify_rm_watch fd (fst we)))
               (mseq (set_watch fw fd n (del_entry we es)) (mret 0))))"

definition stop_file_watcher :: "addr \<Rightarrow> unit M" where
  "stop_file_watcher fw =
     mbind (get_watch fw) (\<lambda>(fd, n, _).
     mseq (emit_effect (Sys_close fd)) (set_watch fw fd n []))"

section \<open>Signals start and stop the descriptor event\<close>

definition listen_handle_name :: c_string where
  "listen_handle_name = ''__inotify_fd_event_read_listen_handle''"

definition start_watch_listener :: "env \<Rightarrow> addr \<Rightarrow> int \<Rightarrow> unit M" where
  "start_watch_listener E fw fd =
     mbind (get_weak_checked E fw ''__weak_event_module'') (\<lambda>weak_eventm.
     scoped_weak weak_eventm
       (mbind (di_upgrade_weak_ref weak_eventm) (\<lambda>em.
        case em of
          None \<Rightarrow> mret ()
        | Some event_module \<Rightarrow>
            scoped_object E (Some event_module)
              (mbind (di_callr E event_module ''fdevent'' DI_TYPE_OBJECT [V_nint (of_int fd)]) (\<lambda>(rc, fv).
               case (rc = 0, fv) of
                 (True, V_object fdevent) \<Rightarrow>
                   scoped_object E (Some fdevent)
                     (mbind (di_create_closure E ''di_file_ioev'' DI_TYPE_NINT [V_object fw] []) (\<lambda>r.
                      case r of
                        Inl _ \<Rightarrow> mcrash Null_deref
                      | Inr cl \<Rightarrow>
                          scoped_object E (Some cl)
                            (mbind (di_listen_to E fdevent (di_string_borrow ''read'') cl False) (\<lambda>(lh, _).
                             case lh of
                               None \<Rightarrow> mcrash Null_deref
                             | Some listen_handle \<Rightarrow>
                                 mseq (check_ok (di_call_void_impl E listen_handle (di_string_borrow ''auto_stop'') [V_nint 1]))
                                 (ignore_rc (di_member E fw listen_handle_name (V_object listen_handle)))))))
               | _ \<Rightarrow> mcrash Panic)))))"

definition di_file_new_signal :: "env \<Rightarrow> addr \<Rightarrow> di_string \<Rightarrow> addr \<Rightarrow> unit M" where
  "di_file_new_signal E fw member_name sig =
     (if \<not> di_string_starts_with member_name ''__signal_'' then mret ()
      else
      mbind (di_add_member_clone E fw member_name (V_object sig)) (\<lambda>rc.
      if rc \<noteq> 0 then mret ()
      else
      mbind (get_watch fw) (\<lambda>(fd, n, es).
      mseq (set_watch fw fd (n + 1) es)
      (if n + 1 = 1 then start_watch_listener E fw fd else mret ()))))"

definition di_file_delete_signal :: "env \<Rightarrow> addr \<Rightarrow> di_string \<Rightarrow> unit M" where
  "di_file_delete_signal E fw member_name =
     (if \<not> di_string_starts_with member_name ''__signal_'' then mret ()
      else
      mbind (di_delete_member_raw E fw member_name) (\<lambda>rc.
      if rc \<noteq> 0 then mret ()
      else
      mbind (get_watch fw) (\<lambda>(fd, n, es).
      mseq (set_watch fw fd (n - 1) es)
      (if n - 1 = 0 then ignore_rc (di_delete_member_raw E fw (di_string_borrow listen_handle_name)) else mret ()))))"

section \<open>The module\<close>

text \<open>\<^verbatim>\<open>di_mgetm\<close>: a strong reference to another module, through the core object.\<close>

definition di_mgetm :: "env \<Rightarrow> addr \<Rightarrow> c_string \<Rightarrow> addr option M" where
  "di_mgetm E m modn =
     mbind (di_object_get_deai_strong E m) (\<lambda>di.
     case di of
       None \<Rightarrow> mret None
     | Some d \<Rightarrow>
         scoped_object E (Some d)
           (mbind (di_get E d (di_string_borrow modn) DI_TYPE_OBJECT) (\<lambda>(rc, v).
            case (rc = 0, v) of (True, V_object a) \<Rightarrow> mret (Some a) | _ \<Rightarrow> mret None)))"

definition di_file_new_watch :: "env \<Rightarrow> int \<Rightarrow> (c_string option \<Rightarrow> int) \<Rightarrow> addr \<Rightarrow> di_type \<Rightarrow> di_variant list \<Rightarrow> addr M" where
  "di_file_new_watch E ifd inotify f elem_type paths =
     (if paths \<noteq> [] \<and> elem_type \<noteq> DI_TYPE_STRING \<and> elem_type \<noteq> DI_TYPE_STRING_LITERAL
      then throw_new_error E ''file.c'' 288 ''di_file_new_watch'' ''Argument needs to be an array of strings''
      else if ifd < 0
      then throw_new_error E ''file.c'' 293 ''di_file_new_watch'' ''Failed to create new inotify file descriptor''
      else
      mbind (di_new_object_with_type (P_file_watch ifd 0 [])) (\<lambda>fw.
      mseq (ignore_rc (di_set_type E fw ''deai.plugin.file:Watch''))
      (mseq (di_set_object_dtor fw (Some ''stop_file_watcher''))
      (mseq (ignore_rc (di_method E fw ''add'' ''di_file_add_many_watch'' DI_TYPE_NINT [DI_TYPE_ARRAY]))
      (mseq (ignore_rc (di_method E fw ''add_one'' ''di_file_add_watch'' DI_TYPE_NINT [DI_TYPE_STRING]))
      (mseq (ignore_rc (di_method E fw ''remove'' ''di_file_rm_watch'' DI_TYPE_NINT [DI_TYPE_STRING]))
      (mseq (ignore_rc (di_method E fw ''__set'' ''di_file_new_signal'' DI_TYPE_NIL [DI_TYPE_STRING, DI_TYPE_OBJECT]))
      (mseq (ignore_rc (di_method E fw ''__delete'' ''di_file_delete_signal'' DI_TYPE_NIL [DI_TYPE_STRING]))
      (mbind (di_mgetm E f ''event'') (\<lambda>em.
       case em of
         None \<Rightarrow> throw_new_error E ''file.c'' 306 ''di_file_new_watch'' ''Can't find event module''
       | Some eventm \<Rightarrow>
           scoped_object E (Some eventm)
             (mbind (di_weakly_ref_object eventm) (\<lambda>weak_eventm.
              mseq (ignore_rc (di_member E fw ''__weak_event_module'' (V_weak_object weak_eventm)))
              (mbind (di_file_add_many_watch inotify fw elem_type paths) (\<lambda>rc.
               if rc \<noteq> 0
               then mseq (di_unref_object E fw)
                    (throw_new_error E ''file.c'' 313 ''di_file_new_watch'' ''Failed to add watches'')
               else mret fw))))))))))))))"

definition di_new_file :: "env \<Rightarrow> addr \<Rightarrow> addr M" where
  "di_new_file E di =
     mbind (di_new_module E di P_object) (\<lambda>fm.
     mseq (ignore_rc (di_method E fm ''watch'' ''di_file_new_watch'' DI_TYPE_OBJECT [DI_TYPE_ARRAY])) (mret fm))"

definition file_plugin_init :: "env \<Rightarrow> addr \<Rightarrow> unit M" where
  "file_plugin_init E di =
     mbind (di_new_file E di) (\<lambda>fm. ignore_rc (di_register_module E di (di_string_borrow ''file'') fm))"

end
