(* ===== verification/Deai_File_Props.thy ===== *)
theory Deai_File_Props
  imports Deai_File
begin

text \<open>
  The table of a file watch as a map from names to watch descriptors.  The contract of a table with two
  keys is a locale; the entries of \<^verbatim>\<open>Deai_File\<close> are an instance, and the operations refine the map.
\<close>

section \<open>Tables with two keys\<close>

locale two_key_table =
  fixes table_ok :: "'t \<Rightarrow> bool"
    and byname :: "'n \<Rightarrow> 't \<Rightarrow> ('d \<times> 'n) option"
    and bywd :: "'d \<Rightarrow> 't \<Rightarrow> ('d \<times> 'n) option"
    and insert_entry :: "'d \<times> 'n \<Rightarrow> 't \<Rightarrow> 't"
    and delete_entry :: "'d \<times> 'n \<Rightarrow> 't \<Rightarrow> 't"
  assumes ok_insert: "table_ok t \<Longrightarrow> byname n t = None \<Longrightarrow> bywd d t = None \<Longrightarrow> table_ok (insert_entry (d, n) t)"
    and ok_delete: "table_ok t \<Longrightarrow> table_ok (delete_entry e t)"
    and byname_insert: "byname m (insert_entry (d, n) t) = (if m = n then Some (d, n) else byname m t)"
    and byname_delete: "table_ok t \<Longrightarrow> byname n t = Some e \<Longrightarrow> byname m (delete_entry e t) = (if m = n then None else byname m t)"
    and byname_key: "byname n t = Some e \<Longrightarrow> snd e = n"
    and bywd_key: "bywd d t = Some e \<Longrightarrow> fst e = d"
    and indexes_agree: "table_ok t \<Longrightarrow> byname n t = Some (d, n) \<longleftrightarrow> bywd d t = Some (d, n)"
begin

lemma insert_view: "(\<lambda>m. map_option fst (byname m (insert_entry (d, n) t))) = (\<lambda>m. map_option fst (byname m t))(n \<mapsto> d)"
  by (auto simp: byname_insert)

lemma delete_view:
  "table_ok t \<Longrightarrow> byname n t = Some e \<Longrightarrow>
   (\<lambda>m. map_option fst (byname m (delete_entry e t))) = (\<lambda>m. map_option fst (byname m t))(n := None)"
  by (auto simp: byname_delete)

lemma bywd_view: "table_ok t \<Longrightarrow> bywd d t = Some (d, n) \<longleftrightarrow> map_option fst (byname n t) = Some d"
  using indexes_agree [of t n d] byname_key [of n t] by (auto simp: prod_eq_iff)

lemma fresh_descriptor:
  assumes "table_ok t" and "d \<notin> ran (\<lambda>m. map_option fst (byname m t))"
  shows "bywd d t = None"
proof (cases "bywd d t")
  case (Some e)
  then have "e = (d, snd e)" using bywd_key by (metis prod.collapse)
  then have "map_option fst (byname (snd e) t) = Some d" using Some bywd_view [OF assms(1)] by metis
  with assms(2) show ?thesis by (auto simp: ran_def)
qed

end

definition entries_ok :: "watch_entry list \<Rightarrow> bool" where
  "entries_ok es = (distinct (map fst es) \<and> distinct (map snd es))"

lemma find_rev_distinct:
  assumes "distinct (map f es)" and "e \<in> set es"
  shows "List.find (\<lambda>x. f x = f e) (rev es) = Some e"
proof -
  have "List.find (\<lambda>x. f x = f e) xs = Some e" if "distinct (map f xs)" "e \<in> set xs" for xs
    using that by (induction xs) (auto simp: rev_image_eqI)
  then show ?thesis using assms by (simp add: rev_map [symmetric])
qed

lemma find_SomeD: "List.find P xs = Some e \<Longrightarrow> e \<in> set xs \<and> P e"
  by (auto simp: find_Some_iff)

lemma same_SomeI: "(\<And>x. a = Some x \<longleftrightarrow> b = Some x) \<Longrightarrow> a = b"
  by (cases b) (cases a; auto)+

lemma find_byname_iff: "entries_ok es \<Longrightarrow> find_byname n es = Some e \<longleftrightarrow> e \<in> set es \<and> snd e = n"
  using find_rev_distinct [of snd es e] by (auto simp: find_byname_def entries_ok_def dest!: find_SomeD)

lemma find_bywd_iff: "entries_ok es \<Longrightarrow> find_bywd d es = Some e \<longleftrightarrow> e \<in> set es \<and> fst e = d"
  using find_rev_distinct [of fst es e] by (auto simp: find_bywd_def entries_ok_def dest!: find_SomeD)

lemma find_byname_none: "find_byname n es = None \<longleftrightarrow> n \<notin> snd ` set es"
  by (auto simp: find_byname_def find_None_iff image_iff)

lemma find_bywd_none: "find_bywd d es = None \<longleftrightarrow> d \<notin> fst ` set es"
  by (auto simp: find_bywd_def find_None_iff image_iff)

lemma del_entry_distinct: "distinct es \<Longrightarrow> del_entry e es = filter (\<lambda>x. x \<noteq> e) es"
  by (simp add: del_entry_def distinct_remove1_removeAll removeAll_filter_not_eq rev_filter [symmetric] eq_commute)

lemma entries_ok_distinct: "entries_ok es \<Longrightarrow> distinct es"
  by (auto simp: entries_ok_def distinct_map)

lemma entries_ok_del: "entries_ok es \<Longrightarrow> entries_ok (del_entry e es)"
  by (simp add: del_entry_distinct entries_ok_distinct)
    (auto simp: entries_ok_def distinct_map inj_on_def)

lemma set_del_entry: "entries_ok es \<Longrightarrow> set (del_entry e es) = set es - {e}"
  by (auto simp: del_entry_distinct entries_ok_distinct)

lemma snd_unique: "entries_ok es \<Longrightarrow> e \<in> set es \<Longrightarrow> x \<in> set es \<Longrightarrow> snd x = snd e \<Longrightarrow> x = e"
  by (auto simp: entries_ok_def distinct_map inj_on_def)

interpretation watches: two_key_table entries_ok find_byname find_bywd "\<lambda>e es. es @ [e]" del_entry
proof unfold_locales
  fix es :: "watch_entry list" and n d
  assume "entries_ok es" "find_byname n es = None" "find_bywd d es = None"
  then show "entries_ok (es @ [(d, n)])" by (auto simp: entries_ok_def find_byname_none find_bywd_none)
next
  fix es :: "watch_entry list" and n e m
  assume ok: "entries_ok es" and e: "find_byname n es = Some e"
  have "find_byname m (del_entry e es) = Some x \<longleftrightarrow> m \<noteq> n \<and> find_byname m es = Some x" for x
    using e ok set_del_entry [OF ok, of e] snd_unique [OF ok, of e x]
    by (simp add: find_byname_iff entries_ok_del) blast
  then show "find_byname m (del_entry e es) = (if m = n then None else find_byname m es)"
    by (intro same_SomeI) (simp split: if_split)
next
  fix es :: "watch_entry list" and n d
  assume "entries_ok es"
  then show "(find_byname n es = Some (d, n)) = (find_bywd d es = Some (d, n))"
    by (simp add: find_byname_iff find_bywd_iff)
qed (auto simp: entries_ok_del find_byname_def find_bywd_def find_Some_iff)

section \<open>Sequences of operations\<close>

text \<open>
  An addition carries what the kernel answers.  The specification is a map from names to descriptors; it gives the
  results and the calls to the kernel.
\<close>

datatype watch_op = Watch_add string int | Watch_remove string

fun run_watch :: "addr \<Rightarrow> watch_op list \<Rightarrow> int list M" where
  "run_watch fw [] = mret []"
| "run_watch fw (Watch_add p d # ops) =
     mbind (di_file_add_watch (\<lambda>_. d) fw (Some p)) (\<lambda>rc. mbind (run_watch fw ops) (\<lambda>rcs. mret (rc # rcs)))"
| "run_watch fw (Watch_remove p # ops) =
     mbind (di_file_rm_watch fw (Some p)) (\<lambda>rc. mbind (run_watch fw ops) (\<lambda>rcs. mret (rc # rcs)))"

fun spec_map :: "(string \<rightharpoonup> int) \<Rightarrow> watch_op list \<Rightarrow> (string \<rightharpoonup> int)" where
  "spec_map m [] = m"
| "spec_map m (Watch_add p d # ops) = spec_map (if d < 0 then m else m(p \<mapsto> d)) ops"
| "spec_map m (Watch_remove p # ops) = spec_map (m(p := None)) ops"

fun spec_results :: "(string \<rightharpoonup> int) \<Rightarrow> watch_op list \<Rightarrow> int list" where
  "spec_results m [] = []"
| "spec_results m (Watch_add p d # ops) = min d 0 # spec_results (if d < 0 then m else m(p \<mapsto> d)) ops"
| "spec_results m (Watch_remove p # ops) = (if m p = None then - ENOENT else 0) # spec_results (m(p := None)) ops"

fun spec_kernel :: "int \<Rightarrow> (string \<rightharpoonup> int) \<Rightarrow> watch_op list \<Rightarrow> effect list" where
  "spec_kernel fd m [] = []"
| "spec_kernel fd m (Watch_add p d # ops) = spec_kernel fd (if d < 0 then m else m(p \<mapsto> d)) ops"
| "spec_kernel fd m (Watch_remove p # ops) =
     (case m p of None \<Rightarrow> [] | Some d \<Rightarrow> [Inotify_rm_watch fd d]) @ spec_kernel fd (m(p := None)) ops"

text \<open>Different names of different files: the kernel gives a new descriptor to each.\<close>

fun new_files :: "(string \<rightharpoonup> int) \<Rightarrow> watch_op list \<Rightarrow> bool" where
  "new_files m [] = True"
| "new_files m (Watch_add p d # ops) =
     (if d < 0 then new_files m ops else m p = None \<and> (\<forall>q \<in> dom m. m q \<noteq> Some d) \<and> new_files (m(p \<mapsto> d)) ops)"
| "new_files m (Watch_remove p # ops) = new_files (m(p := None)) ops"

abbreviation table_view :: "watch_entry list \<Rightarrow> string \<rightharpoonup> int" where
  "table_view es \<equiv> \<lambda>m. map_option fst (find_byname m es)"

definition with_table :: "addr \<Rightarrow> di_object_internal \<Rightarrow> int \<Rightarrow> int \<Rightarrow> watch_entry list \<Rightarrow> effect list \<Rightarrow> world \<Rightarrow> world" where
  "with_table fw ob fd n es effs w =
     w\<lparr>objs := (objs w)(fw \<mapsto> ob\<lparr>payload := P_file_watch fd n es\<rparr>), effects := effects w @ effs\<rparr>"

lemma add_watch_table:
  "di_file_add_watch (\<lambda>_. d) fw (Some p) (with_table fw ob fd n es effs w) =
   Ret (min d 0) (with_table fw ob fd n (if d < 0 then es else es @ [(d, p)]) effs w)"
  by (simp add: di_file_add_watch_def with_table_def get_watch_def set_watch_def outcome_simps heap_simps str_bytes_def)

lemma rm_watch_table:
  "di_file_rm_watch fw (Some p) (with_table fw ob fd n es effs w) =
   (case find_byname p es of
      None \<Rightarrow> Ret (- ENOENT) (with_table fw ob fd n es effs w)
    | Some e \<Rightarrow> Ret 0 (with_table fw ob fd n (del_entry e es) (effs @ [Inotify_rm_watch fd (fst e)]) w))"
  by (simp add: di_file_rm_watch_def with_table_def get_watch_def set_watch_def emit_effect_def outcome_simps heap_simps
      str_bytes_def split: option.split)

lemma run_watch_refines:
  assumes "entries_ok es" and "new_files (table_view es) ops"
  shows "\<exists>es'. entries_ok es' \<and> table_view es' = spec_map (table_view es) ops \<and>
    run_watch fw ops (with_table fw ob fd n es effs w) =
      Ret (spec_results (table_view es) ops) (with_table fw ob fd n es' (effs @ spec_kernel fd (table_view es) ops) w)"
  using assms
proof (induction ops arbitrary: es effs)
  case (Cons oper ops)
  show ?case
  proof (cases oper)
    case (Watch_add p d)
    show ?thesis
    proof (cases "d < 0")
      case True
      with Cons.IH [of es effs] Cons.prems Watch_add show ?thesis by (auto simp: add_watch_table outcome_simps)
    next
      case False
      have fresh: "find_byname p es = None" "find_bywd d es = None"
        using Cons.prems Watch_add False watches.fresh_descriptor [of es d] by (auto simp: ran_def)
      then have "entries_ok (es @ [(d, p)])" using watches.ok_insert Cons.prems(1) by blast
      with Cons.IH [of "es @ [(d, p)]" effs] Cons.prems(2) Watch_add False watches.insert_view [where d = d and n = p and t = es]
      show ?thesis by (auto simp: add_watch_table outcome_simps)
    qed
  next
    case (Watch_remove p)
    show ?thesis
    proof (cases "find_byname p es")
      case None
      then have "(table_view es)(p := None) = table_view es" by auto
      with None Cons.IH [of es effs] Cons.prems Watch_remove show ?thesis by (auto simp: rm_watch_table outcome_simps)
    next
      case (Some e)
      from watches.delete_view [OF Cons.prems(1) Some] Some Cons.IH [OF entries_ok_del [OF Cons.prems(1), of e],
          of "effs @ [Inotify_rm_watch fd (fst e)]"] Cons.prems Watch_remove
      show ?thesis by (auto simp: rm_watch_table outcome_simps)
    qed
  qed
qed (auto simp: outcome_simps)


text \<open>A watch of two files of which one is removed again, one cannot be watched, and one was never there.\<close>

definition watch_world :: "int \<Rightarrow> watch_entry list \<Rightarrow> world" where
  "watch_world fd es = empty_world\<lparr>objs := [1 \<mapsto> di_init_object (P_file_watch fd 0 es)]\<rparr>"


text \<open>
  A name that is added a second time gets a second entry with the descriptor the kernel gave the first time.  Removing the name
  drops the kernel's watch and one of the entries; the other stays, and removing the name again succeeds
  and drops a descriptor that is no longer the watch's own.
\<close>

theorem watch_added_twice_stays:
  assumes "objs w fw = Some ob" and "payload ob = P_file_watch fd n es" and "0 \<le> d"
  shows "run_watch fw [Watch_add p d, Watch_add p d, Watch_remove p] w =
      Ret [0, 0, 0] (with_table fw ob fd n (es @ [(d, p)]) [Inotify_rm_watch fd d] w)"
    and "run_watch fw [Watch_add p d, Watch_add p d, Watch_remove p, Watch_remove p] w =
      Ret [0, 0, 0, 0] (with_table fw ob fd n es [Inotify_rm_watch fd d, Inotify_rm_watch fd d] w)"
proof -
  have w: "w = with_table fw ob fd n es [] w"
    using assms(1,2) by (simp add: with_table_def fun_upd_idem)
  show "run_watch fw [Watch_add p d, Watch_add p d, Watch_remove p] w =
      Ret [0, 0, 0] (with_table fw ob fd n (es @ [(d, p)]) [Inotify_rm_watch fd d] w)"
    by (subst w) (use assms(3) in \<open>simp add: add_watch_table rm_watch_table find_byname_def del_entry_def outcome_simps\<close>)
  show "run_watch fw [Watch_add p d, Watch_add p d, Watch_remove p, Watch_remove p] w =
      Ret [0, 0, 0, 0] (with_table fw ob fd n es [Inotify_rm_watch fd d, Inotify_rm_watch fd d] w)"
    by (subst w) (use assms(3) in \<open>simp add: add_watch_table rm_watch_table find_byname_def del_entry_def outcome_simps\<close>)
qed

end
