(* ===== verification/Deai_Dbus.thy ===== *)
theory Deai_Dbus
  imports Deai_Sedes Deai_File Deai_Promise Deai_Spawn
begin

text \<open>
  The D-Bus plugin, \<^verbatim>\<open>plugins/dbus/dbus.c\<close>: connections as objects, proxies for remote objects, method calls
  that return promises, signals, and the tables that follow the owners of well-known names.
  libdbus is the record \<open>dbus_host\<close>.
\<close>

section \<open>The interface to libdbus\<close>

text \<open>
  Flags, state and descriptor of a watch; the watches a connection has when watch functions are set or
  cleared (libdbus passes each of them to the new or to the old functions); what dispatching does;
  whether a message can be created; the serial number a message is sent with; the result of connecting.
\<close>

record dbus_host =
  dh_watch_flags :: "nat \<Rightarrow> u32"
  dh_watch_enabled :: "nat \<Rightarrow> bool"
  dh_watch_fd :: "nat \<Rightarrow> int"
  dh_watches :: "nat \<Rightarrow> nat list"
  dh_dispatch :: "nat \<Rightarrow> unit M"
  dh_message_ok :: "c_string option list \<Rightarrow> bool"
  dh_send :: "nat \<Rightarrow> dbus_call list \<Rightarrow> u32 option"
  dh_valid :: "char \<Rightarrow> bool"
  dh_basic :: "char \<Rightarrow> bool"
  dh_ok :: "dbus_call list \<Rightarrow> dbus_call \<Rightarrow> bool"
  dh_junk :: u64
  dh_session_bus :: "c_string + nat"
  dh_open :: "c_string option \<Rightarrow> c_string + nat"

abbreviation DBUS_WATCH_READABLE :: u32 where "DBUS_WATCH_READABLE \<equiv> 1"
abbreviation DBUS_WATCH_WRITABLE :: u32 where "DBUS_WATCH_WRITABLE \<equiv> 2"

definition DBUS_SERVICE_DBUS :: c_string where "DBUS_SERVICE_DBUS = ''org.freedesktop.DBus''"
definition DBUS_PATH_DBUS :: c_string where "DBUS_PATH_DBUS = ''/org/freedesktop/DBus''"
definition DBUS_INTERFACE_DBUS :: c_string where "DBUS_INTERFACE_DBUS = ''org.freedesktop.DBus''"
definition DBUS_INTERFACE_PROPERTIES :: c_string where "DBUS_INTERFACE_PROPERTIES = ''org.freedesktop.DBus.Properties''"

text \<open>The fields \<^verbatim>\<open>conn\<close> and \<^verbatim>\<open>nsignals\<close> of \<^verbatim>\<open>di_dbus_connection\<close>.\<close>

definition get_conn :: "addr \<Rightarrow> (nat option \<times> int) M" where
  "get_conn c =
     mbind (get_obj c) (\<lambda>ob. case payload ob of P_dbus_connection p n \<Rightarrow> mret (p, n) | _ \<Rightarrow> mcrash Out_of_bounds)"

definition set_conn :: "addr \<Rightarrow> nat option \<Rightarrow> int \<Rightarrow> unit M" where
  "set_conn c p n = upd_obj c (\<lambda>ob. ob\<lparr>payload := P_dbus_connection p n\<rparr>)"

definition the_conn :: "addr \<Rightarrow> nat M" where
  "the_conn c = mbind (get_conn c) (\<lambda>(p, _). case p of None \<Rightarrow> mcrash Null_deref | Some x \<Rightarrow> mret x)"

section \<open>Watches\<close>

definition ioev_callback :: "dbus_host \<Rightarrow> addr \<Rightarrow> nat \<Rightarrow> int \<Rightarrow> unit M" where
  "ioev_callback H conn w event =
     mbind (the_conn conn) (\<lambda>c.
     mseq (if event = 0 then mseq (emit_effect (Dbus_watch_handle w 1)) (dh_dispatch H c) else mret ())
     (if event = 1 then emit_effect (Dbus_watch_handle w 2) else mret ()))"

definition ioev_handle_name :: "c_string \<Rightarrow> nat \<Rightarrow> di_string" where
  "ioev_handle_name signal w = Some (''__dbus_ioev_'' @ signal @ ''_listen_handle_for_watch_'' @ ptr_string w)"

definition dbus_add_signal_handler_for :: "env \<Rightarrow> addr \<Rightarrow> nat \<Rightarrow> addr \<Rightarrow> c_string \<Rightarrow> int \<Rightarrow> unit M" where
  "dbus_add_signal_handler_for E ioev w oc signal event =
     mbind (di_create_closure E ''ioev_callback'' DI_TYPE_NIL [V_object oc, V_pointer w, V_nint (of_int event)] []) (\<lambda>r.
     case r of
       Inl _ \<Rightarrow> mcrash Null_deref
     | Inr handler \<Rightarrow>
         scoped_object E (Some handler)
           (mbind (di_listen_to E ioev (di_string_borrow signal) handler False) (\<lambda>(lh, _).
            case lh of
              None \<Rightarrow> mcrash Null_deref
            | Some l \<Rightarrow>
                mseq (check_ok (di_call_void_impl E l (di_string_borrow ''auto_stop'') [V_nint 1]))
                (check_ok (di_add_member_move E oc (ioev_handle_name signal w) (V_object l))))))"

definition drop_ioev_handle :: "env \<Rightarrow> addr \<Rightarrow> c_string \<Rightarrow> nat \<Rightarrow> unit M" where
  "drop_ioev_handle E oc signal w = ignore_rc (di_delete_member_raw E oc (ioev_handle_name signal w))"

definition dbus_toggle_watch_impl :: "env \<Rightarrow> dbus_host \<Rightarrow> nat \<Rightarrow> addr \<Rightarrow> bool \<Rightarrow> bool M" where
  "dbus_toggle_watch_impl E H w oc enabled =
     (let flags = dh_watch_flags H w; readable = (and flags DBUS_WATCH_READABLE \<noteq> 0);
          writable = (and flags DBUS_WATCH_WRITABLE \<noteq> 0) in
      if \<not> enabled
      then mseq (if readable then drop_ioev_handle E oc ''read'' w else mret ())
           (mseq (if writable then drop_ioev_handle E oc ''write'' w else mret ())
           (mret True))
      else
      mbind (di_object_borrow_deai oc) (\<lambda>di.
      case di of
        None \<Rightarrow> mcrash Null_deref
      | Some d \<Rightarrow>
          mbind (di_rawget_borrowed d (di_string_borrow ''event'') DI_TYPE_OBJECT) (\<lambda>(rc, em).
          case (rc = 0, em) of
            (True, V_object eventm) \<Rightarrow>
              mbind (di_callr E eventm ''fdevent'' DI_TYPE_OBJECT [V_nint (of_int (dh_watch_fd H w))]) (\<lambda>(rc, iv).
              case (rc = 0, iv) of
                (True, V_object ioev) \<Rightarrow>
                  scoped_object E (Some ioev)
                    (mseq (if readable then dbus_add_signal_handler_for E ioev w oc ''read'' 0 else mret ())
                    (mseq (if writable then dbus_add_signal_handler_for E ioev w oc ''write'' 1 else mret ())
                    (mret True)))
              | _ \<Rightarrow> mret False)
          | _ \<Rightarrow> mret False)))"

definition dbus_toggle_watch :: "env \<Rightarrow> dbus_host \<Rightarrow> nat \<Rightarrow> addr \<Rightarrow> unit M" where
  "dbus_toggle_watch E H w ud = mbind (dbus_toggle_watch_impl E H w ud (dh_watch_enabled H w)) (\<lambda>_. mret ())"

definition dbus_add_watch :: "env \<Rightarrow> dbus_host \<Rightarrow> addr \<Rightarrow> nat \<Rightarrow> unit M" where
  "dbus_add_watch E H ud w =
     mbind (di_lookup ud (Some (''__dbus_ioev_for_watch_'' @ ptr_string w))) (\<lambda>m.
     mseq (mcheck Panic (m = None))
     (if dh_watch_enabled H w then mbind (dbus_toggle_watch_impl E H w ud True) (\<lambda>_. mret ()) else mret ()))"

definition dbus_remove_watch :: "env \<Rightarrow> dbus_host \<Rightarrow> addr \<Rightarrow> nat \<Rightarrow> unit M" where
  "dbus_remove_watch E H ud w = mbind (dbus_toggle_watch_impl E H w ud False) (\<lambda>_. mret ())"

text \<open>\<^verbatim>\<open>dbus_connection_set_watch_functions\<close> with functions, and with null pointers.\<close>

definition set_watch_functions :: "env \<Rightarrow> dbus_host \<Rightarrow> nat \<Rightarrow> addr \<Rightarrow> unit M" where
  "set_watch_functions E H conn c =
     mseq (emit_effect (Dbus_set_watch True)) (mforeach (dbus_add_watch E H c) (dh_watches H conn))"

definition clear_watch_functions :: "env \<Rightarrow> dbus_host \<Rightarrow> nat \<Rightarrow> addr \<Rightarrow> unit M" where
  "clear_watch_functions E H conn c =
     mseq (emit_effect (Dbus_set_watch False)) (mforeach (dbus_remove_watch E H c) (dh_watches H conn))"

definition di_dbus_nsignal_inc :: "env \<Rightarrow> dbus_host \<Rightarrow> addr \<Rightarrow> unit M" where
  "di_dbus_nsignal_inc E H c =
     mbind (get_conn c) (\<lambda>(p, n).
     mseq (set_conn c p (n + 1))
     (if n + 1 = 1
      then mbind (the_conn c) (\<lambda>conn. mseq (set_watch_functions E H conn c) (emit_effect (Dbus_set_filter True)))
      else mret ()))"

definition di_dbus_nsignal_dec :: "env \<Rightarrow> dbus_host \<Rightarrow> addr \<Rightarrow> unit M" where
  "di_dbus_nsignal_dec E H c =
     mbind (get_conn c) (\<lambda>(p, n).
     mseq (set_conn c p (n - 1))
     (if n - 1 = 0
      then mbind (the_conn c) (\<lambda>conn. mseq (clear_watch_functions E H conn c) (emit_effect (Dbus_set_filter False)))
      else mret ()))"

section \<open>Requests\<close>

definition promise_key :: "int \<Rightarrow> di_string" where
  "promise_key serial = Some (''promise_for_request_'' @ int_string serial)"

definition di_dbus_add_promise_for :: "env \<Rightarrow> dbus_host \<Rightarrow> addr \<Rightarrow> addr \<Rightarrow> int \<Rightarrow> addr M" where
  "di_dbus_add_promise_for E H conn eventm serial =
     mbind (di_new_promise E eventm) (\<lambda>promise.
     mseq (ignore_rc (di_add_member_clone E conn (promise_key serial) (V_object promise)))
     (mseq (di_dbus_nsignal_inc E H conn) (mret promise)))"

definition c_arg :: "di_string \<Rightarrow> c_string option" where
  "c_arg s = map_option c_str (di_string_to_chars_alloc s)"

text \<open>A message that libdbus refuses to create is a null pointer, which is then used.\<close>

definition di_dbus_send_message ::
  "env \<Rightarrow> dbus_host \<Rightarrow> addr \<Rightarrow> di_string \<Rightarrow> di_string \<Rightarrow> di_string \<Rightarrow> di_string \<Rightarrow> di_string \<Rightarrow> di_string \<Rightarrow> di_tuple \<Rightarrow> int M" where
  "di_dbus_send_message E H o' type bus objpath iface method signature args =
     (let hdr = (if di_string_eq type (di_string_borrow ''method'') then Some [c_arg bus, c_arg objpath, c_arg iface, c_arg method]
                 else if di_string_eq type (di_string_borrow ''signal'') then Some [c_arg objpath, c_arg iface, c_arg method]
                 else None) in
      case hdr of
        None \<Rightarrow> mret (-1)
      | Some h \<Rightarrow>
          if \<not> dh_message_ok H h then mcrash Null_deref
          else
          mbind (dbus_serialize_struct (e_fuel E) (dh_valid H) (dh_basic H) (dh_junk H) (dh_ok H) args signature []) (\<lambda>(rc, calls).
          if rc < 0 then mret (-1)
          else
          mbind (the_conn o') (\<lambda>conn.
          mseq (emit_effect (Dbus_send (str_bytes type) (c_arg bus) (c_arg objpath) (c_arg iface) (c_arg method)))
          (mret (case dh_send H conn calls of None \<Rightarrow> -1 | Some serial \<Rightarrow> uint serial)))))"

text \<open>The connection of a proxy, and the event module, both borrowed.\<close>

definition borrow_connection :: "addr \<Rightarrow> addr option M" where
  "borrow_connection dobj =
     mbind (di_rawget_borrowed dobj (di_string_borrow ''___deai_dbus_connection'') DI_TYPE_OBJECT) (\<lambda>(rc, v).
     mret (case (rc = 0, v) of (True, V_object c) \<Rightarrow> Some c | _ \<Rightarrow> None))"

definition borrow_event_module :: "addr \<Rightarrow> addr option M" where
  "borrow_event_module o' =
     mbind (di_object_borrow_deai o') (\<lambda>di.
     case di of
       None \<Rightarrow> mcrash Null_deref
     | Some d \<Rightarrow>
         mbind (di_rawget_borrowed d (di_string_borrow ''event'') DI_TYPE_OBJECT) (\<lambda>(rc, v).
         mret (case (rc = 0, v) of (True, V_object em) \<Rightarrow> Some em | _ \<Rightarrow> None)))"

definition dbus_call_method ::
  "env \<Rightarrow> dbus_host \<Rightarrow> addr \<Rightarrow> di_string \<Rightarrow> di_string \<Rightarrow> di_string \<Rightarrow> di_tuple \<Rightarrow> addr M" where
  "dbus_call_method E H dobj iface method signature t =
     mbind (borrow_connection dobj) (\<lambda>c.
     case c of
       None \<Rightarrow> throw_new_error E ''dbus.c'' 279 ''dbus_call_method'' ''DBus connection gone''
     | Some conn \<Rightarrow>
         mbind (borrow_event_module conn) (\<lambda>em.
         case em of
           None \<Rightarrow> throw_new_error E ''dbus.c'' 282 ''dbus_call_method'' ''no event module''
         | Some eventm \<Rightarrow>
             mbind (get_string_checked E dobj ''___bus_name'') (\<lambda>bus.
             mbind (get_string_checked E dobj ''___object_path'') (\<lambda>path.
             mbind (di_dbus_send_message E H conn (di_string_borrow ''method'') bus path iface method signature t) (\<lambda>serial.
             if serial < 0
             then throw_new_error E ''dbus.c'' 291 ''dbus_call_method'' (''Failed to send '' @ int_string serial)
             else di_dbus_add_promise_for E H conn eventm serial)))))"

section \<open>Method objects\<close>

definition get_dbus_method :: "addr \<Rightarrow> (di_string \<times> di_string) M" where
  "get_dbus_method m =
     mbind (get_obj m) (\<lambda>ob. case payload ob of P_dbus_method meth iface \<Rightarrow> mret (meth, iface) | _ \<Rightarrow> mcrash Out_of_bounds)"

definition di_dbus_free_method :: "addr \<Rightarrow> unit M" where
  "di_dbus_free_method o' = mbind (get_dbus_method o') (\<lambda>_. mret ())"

definition call_dbus_method :: "env \<Rightarrow> dbus_host \<Rightarrow> addr \<Rightarrow> di_tuple \<Rightarrow> (int \<times> di_variant) M" where
  "call_dbus_method E H m t =
     (case t of
        V_object dobj # args \<Rightarrow>
          mbind (get_dbus_method m) (\<lambda>(meth, iface).
          mbind (dbus_call_method E H dobj iface meth DI_STRING_INIT args) (\<lambda>p. mret (0, V_object p)))
      | _ \<Rightarrow> mret (- EINVAL, V_last))"

definition call_dbus_method_with_signature :: "env \<Rightarrow> dbus_host \<Rightarrow> di_tuple \<Rightarrow> (int \<times> di_variant) M" where
  "call_dbus_method_with_signature E H t =
     (case t of
        V_object m # V_object dobj # sig # args \<Rightarrow>
          (case (case sig of V_string s \<Rightarrow> Some s | V_string_literal s \<Rightarrow> Some (di_string_borrow s) | _ \<Rightarrow> None) of
             None \<Rightarrow> mret (- EINVAL, V_last)
           | Some signature \<Rightarrow>
               mbind (get_dbus_method m) (\<lambda>(meth, iface).
               mbind (dbus_call_method E H dobj iface meth signature args) (\<lambda>p. mret (0, V_object p))))
      | _ \<Rightarrow> mret (- EINVAL, V_last))"

definition di_dbus_object_getter :: "env \<Rightarrow> addr \<Rightarrow> di_string \<Rightarrow> di_variant M" where
  "di_dbus_object_getter E dobj method =
     (if di_string_starts_with method ''__signal_''
      then mbind (di_rawgetx dobj method) (\<lambda>(rc, v). mret (V_variant (if rc \<noteq> 0 then V_last else v)))
      else
      mbind (di_new_object_with_type (P_dbus_method (di_clone_string method) DI_STRING_INIT)) (\<lambda>ret.
      mseq (ignore_rc (di_set_type E ret ''deai.plugin.dbus:DBusMethod''))
      (mbind (get_string_checked E dobj ''___interface'') (\<lambda>iface.
       mseq (upd_obj ret (\<lambda>ob. ob\<lparr>payload := P_dbus_method (di_clone_string method) iface\<rparr>))
       (mseq (di_set_object_dtor ret (Some ''di_dbus_free_method''))
       (mseq (di_set_object_call ret (Some ''call_dbus_method''))
       (mbind (di_new_object_with_type P_object) (\<lambda>cwm.
        mseq (di_set_object_call cwm (Some ''call_dbus_method_with_signature''))
        (mseq (ignore_rc (di_member E ret ''call_with_signature'' (V_object cwm)))
        (mret (V_variant (V_object ret))))))))))))"

section \<open>Signals of remote objects\<close>

definition quoted :: "c_string \<Rightarrow> c_string" where
  "quoted s = [CHR 0x27] @ s @ [CHR 0x27]"

definition to_dbus_match_rule :: "di_string \<Rightarrow> di_string \<Rightarrow> di_string \<Rightarrow> c_string" where
  "to_dbus_match_rule path interface signal =
     (if str_length interface \<noteq> 0
      then ''type='' @ quoted ''signal'' @ '',path='' @ quoted (c_str (str_bytes path)) @
           '',interface='' @ quoted (c_str (str_bytes interface)) @ '',member='' @ quoted (c_str (str_bytes signal))
      else ''type='' @ quoted ''signal'' @ '',path='' @ quoted (c_str (str_bytes path)) @
           '',member='' @ quoted (c_str (str_bytes signal)))"

definition keep_alive_name :: "addr \<Rightarrow> di_string \<Rightarrow> di_string" where
  "keep_alive_name dobj signal_name = Some (''___keep_alive_'' @ ptr_string dobj @ ''_'' @ c_str (str_bytes signal_name))"

definition di_dbus_object_new_signal :: "env \<Rightarrow> dbus_host \<Rightarrow> addr \<Rightarrow> di_string \<Rightarrow> addr \<Rightarrow> unit M" where
  "di_dbus_object_new_signal E H dobj member_name sig =
     (let signal_name = di_suffix member_name (length ''__signal_'') in
      if \<not> di_string_starts_with member_name ''__signal_'' then mret ()
      else if str_length signal_name = 0 then mret ()
      else
      mbind (get_string_checked E dobj ''___object_path'') (\<lambda>path.
      mbind (get_string_checked E dobj ''___interface'') (\<lambda>interface.
      mbind (borrow_connection dobj) (\<lambda>c.
      case c of
        None \<Rightarrow> mret ()
      | Some conn \<Rightarrow>
          mbind (get_conn conn) (\<lambda>(p, _).
          if p = None then mret ()
          else
          mseq (emit_effect (Dbus_add_match (to_dbus_match_rule path interface signal_name)))
          (mseq (ignore_rc (di_add_member_clone E dobj member_name (V_object sig)))
          (mseq (di_dbus_nsignal_inc E H conn)
          (check_ok (di_add_member_clone E conn (keep_alive_name dobj signal_name) (V_object dobj))))))))))"

definition di_dbus_object_del_signal :: "env \<Rightarrow> dbus_host \<Rightarrow> addr \<Rightarrow> di_string \<Rightarrow> unit M" where
  "di_dbus_object_del_signal E H obj member_name =
     (if \<not> di_string_starts_with member_name ''__signal_'' then mret ()
      else
      mbind (di_delete_member_raw E obj member_name) (\<lambda>rc.
      if rc \<noteq> 0 then mret ()
      else
      mbind (di_get E obj (di_string_borrow ''___deai_dbus_connection'') DI_TYPE_OBJECT) (\<lambda>(rc, cv).
      case (rc = 0, cv) of
        (True, V_object conn) \<Rightarrow>
          scoped_object E (Some conn)
            (mbind (get_conn conn) (\<lambda>(p, _).
             let signal_name = di_suffix member_name (length ''__signal_'') in
             if p = None then mret ()
             else if str_length signal_name = 0 then mret ()
             else
             mbind (get_string_checked E obj ''___object_path'') (\<lambda>path.
             let (interface, member) = (case di_string_split_once signal_name (CHR ''.'') of
                                          Some (i, m) \<Rightarrow> (i, m) | None \<Rightarrow> (DI_STRING_INIT, signal_name)) in
             mseq (emit_effect (Dbus_remove_match (to_dbus_match_rule path interface member)))
             (mseq (di_dbus_nsignal_dec E H conn)
             (check_ok (di_delete_member_raw E conn (keep_alive_name obj signal_name)))))))
      | _ \<Rightarrow> mret ())))"

section \<open>Owners of well-known names\<close>

definition object_cache_name :: "di_string \<Rightarrow> di_string" where
  "object_cache_name bus = Some (''object_cache_'' @ c_str (str_bytes bus))"

definition peer_name :: "di_string \<Rightarrow> di_string" where
  "peer_name owner = Some (''peer_'' @ c_str (str_bytes owner))"

definition object_key :: "di_string \<Rightarrow> di_string \<Rightarrow> di_string" where
  "object_key path interface = Some (c_str (str_bytes path) @ ''@'' @ c_str (str_bytes interface))"

text \<open>The parts of \<^verbatim>\<open>di_dbus_name_changed\<close>, in the order of the source: the record under the old owner goes.\<close>

definition forget_old_owner :: "env \<Rightarrow> addr \<Rightarrow> di_string \<Rightarrow> di_string \<Rightarrow> unit M" where
  "forget_old_owner E conn well_known old_owner =
     (if str_length old_owner = 0 then mret ()
      else
      mbind (di_get_object_via_weak E conn (peer_name old_owner)) (\<lambda>peer.
      case peer of
        None \<Rightarrow> mret ()
      | Some p \<Rightarrow> scoped_object E (Some p) (ignore_rc (di_delete_member_raw E p well_known))))"

text \<open>When the recorded owner is another one, every cache of the connection is dropped.\<close>

definition is_cache_name :: "di_string \<Rightarrow> bool" where
  "is_cache_name s = (di_string_starts_with s ''peer_'' \<or> di_string_starts_with s ''object_cache_'')"

definition drop_caches :: "env \<Rightarrow> addr \<Rightarrow> unit M" where
  "drop_caches E conn =
     mbind (di_get_all_member_names_raw conn) (\<lambda>arr.
     case arr of
       V_array _ names \<Rightarrow>
         mforeach (\<lambda>v. if is_cache_name (path_of v) then ignore_rc (di_delete_member_raw E conn (path_of v)) else mret ()) names
     | _ \<Rightarrow> mret ())"

definition check_desync :: "env \<Rightarrow> addr \<Rightarrow> addr \<Rightarrow> di_string \<Rightarrow> di_string \<Rightarrow> di_string \<Rightarrow> unit M" where
  "check_desync E conn directory well_known old_owner new_owner =
     mbind (di_get E directory (di_string_borrow ''___owner'') DI_TYPE_STRING) (\<lambda>(rc, v).
     if rc = 0 \<and> str_length old_owner \<noteq> 0 \<and> \<not> di_string_eq old_owner (path_of v)
     then mseq (ignore_rc (di_log_va E DI_LOG_WARN (''dbus: name owner desynced for '' @ c_str (str_bytes well_known) @
                  '': old owner '' @ c_str (str_bytes old_owner) @ '', new owner '' @ c_str (str_bytes new_owner) @
                  '', recorded_owner: '' @ c_str (str_bytes (path_of v)))))
          (drop_caches E conn)
     else mret ())"

definition obtain_peer :: "env \<Rightarrow> addr \<Rightarrow> di_string \<Rightarrow> addr M" where
  "obtain_peer E conn owner =
     mbind (di_get_object_via_weak E conn (peer_name owner)) (\<lambda>p.
     case p of
       Some peer \<Rightarrow> mret peer
     | None \<Rightarrow>
         mbind (di_new_object_with_type P_object) (\<lambda>peer.
         mbind (di_weakly_ref_object peer) (\<lambda>weak_peer.
         mseq (scoped_weak weak_peer
                 (check_ok (di_add_member_clone E conn (peer_name owner) (V_weak_object weak_peer))))
         (mret peer))))"

definition record_owner :: "env \<Rightarrow> addr \<Rightarrow> addr \<Rightarrow> di_string \<Rightarrow> di_string \<Rightarrow> unit M" where
  "record_owner E conn directory well_known new_owner =
     mseq (check_ok (di_rawsetx E directory (di_string_borrow ''___owner_name'') (V_string new_owner)))
     (mbind (obtain_peer E conn new_owner) (\<lambda>peer.
      scoped_object E (Some peer)
        (mseq (check_ok (di_rawsetx E directory (di_string_borrow ''___owner'') (V_object peer)))
        (mbind (di_weakly_ref_object directory) (\<lambda>weak_directory.
         scoped_weak weak_directory
           (check_ok (di_rawsetx E peer well_known (V_weak_object weak_directory))))))))"

definition forget_owner :: "env \<Rightarrow> addr \<Rightarrow> di_string \<Rightarrow> unit M" where
  "forget_owner E directory well_known =
     mseq (ignore_rc (di_log_va E DI_LOG_DEBUG (''dbus: name '' @ c_str (str_bytes well_known) @ '' unowned'')))
     (mseq (ignore_rc (di_delete_member_raw E directory (di_string_borrow ''___owner'')))
     (ignore_rc (di_delete_member_raw E directory (di_string_borrow ''___owner_name''))))"

definition di_dbus_name_changed :: "env \<Rightarrow> addr \<Rightarrow> di_string \<Rightarrow> di_string \<Rightarrow> di_string \<Rightarrow> unit M" where
  "di_dbus_name_changed E conn well_known old_owner new_owner =
     mseq (ignore_rc (di_log_va E DI_LOG_INFO (''DBus name changed for '' @ c_str (str_bytes well_known) @ '': '' @
             c_str (str_bytes old_owner) @ '' -> '' @ c_str (str_bytes new_owner) @ [CHR 10])))
     (if di_string_starts_with well_known '':'' then mret ()
      else
      mseq (forget_old_owner E conn well_known old_owner)
      (mbind (di_get_object_via_weak E conn (object_cache_name well_known)) (\<lambda>d.
       case d of
         None \<Rightarrow> mret ()
       | Some directory \<Rightarrow>
           scoped_object E (Some directory)
             (mseq (check_desync E conn directory well_known old_owner new_owner)
             (if str_length new_owner > 0
              then record_owner E conn directory well_known new_owner
              else forget_owner E directory well_known)))))"

definition di_dbus_object_set_owner :: "env \<Rightarrow> addr \<Rightarrow> di_string \<Rightarrow> unit M" where
  "di_dbus_object_set_owner E o' owner =
     mbind (get_object_checked E o' ''___deai_dbus_connection'') (\<lambda>conn.
     scoped_object E (Some conn)
       (mbind (get_object_checked E o' ''___object_cache'') (\<lambda>object_cache.
        scoped_object E (Some object_cache)
          (mbind (get_string_checked E object_cache ''___bus_name'') (\<lambda>bus_name.
           mbind (di_get E object_cache (di_string_borrow ''___owner_name'') DI_TYPE_STRING) (\<lambda>(rc, v).
           di_dbus_name_changed E conn bus_name (if rc = 0 then path_of v else DI_STRING_INIT) owner))))))"

section \<open>Properties of remote objects\<close>

text \<open>The common body of \<^verbatim>\<open>di_dbus_get_property\<close> and \<^verbatim>\<open>di_dbus_set_property\<close>.\<close>

definition property_request ::
  "env \<Rightarrow> dbus_host \<Rightarrow> c_string \<Rightarrow> int \<Rightarrow> c_string \<Rightarrow> c_string \<Rightarrow> addr \<Rightarrow> (di_string \<Rightarrow> di_tuple) \<Rightarrow> addr M" where
  "property_request E H func line method signature dobj args =
     mbind (borrow_connection dobj) (\<lambda>c.
     case c of
       None \<Rightarrow> throw_new_error E ''dbus.c'' line func ''DBus connection gone''
     | Some conn \<Rightarrow>
         mbind (borrow_event_module conn) (\<lambda>em.
         case em of
           None \<Rightarrow> throw_new_error E ''dbus.c'' (line + 2) func ''no event module''
         | Some eventm \<Rightarrow>
             mbind (get_string_checked E dobj ''___object_path'') (\<lambda>obj.
             mbind (get_string_checked E dobj ''___bus_name'') (\<lambda>bus.
             mbind (get_string_checked E dobj ''___interface'') (\<lambda>interface.
             mbind (di_dbus_send_message E H conn (di_string_borrow ''method'') bus obj
                      (di_string_borrow DBUS_INTERFACE_PROPERTIES) (di_string_borrow method)
                      (di_string_borrow signature) (args interface)) (\<lambda>serial.
             if serial < 0 then throw_new_error E ''dbus.c'' (line + 12) func ''DBus error''
             else di_dbus_add_promise_for E H conn eventm serial))))))"

definition di_dbus_get_property :: "env \<Rightarrow> dbus_host \<Rightarrow> addr \<Rightarrow> di_string \<Rightarrow> addr M" where
  "di_dbus_get_property E H dobj property =
     property_request E H ''di_dbus_get_property'' 638 ''Get'' '''' dobj (\<lambda>interface. [V_string interface, V_string property])"

definition di_dbus_set_property :: "env \<Rightarrow> dbus_host \<Rightarrow> addr \<Rightarrow> di_string \<Rightarrow> di_variant \<Rightarrow> addr M" where
  "di_dbus_set_property E H dobj property value =
     property_request E H ''di_dbus_set_property'' 658 ''Set'' ''ssv'' dobj
       (\<lambda>interface. [V_string interface, V_string property, V_variant value])"

section \<open>Proxies\<close>

text \<open>The cache directory of a bus name, found or created.\<close>

definition obtain_object_cache :: "env \<Rightarrow> addr \<Rightarrow> di_string \<Rightarrow> addr M" where
  "obtain_object_cache E o' bus =
     mbind (di_get_object_via_weak E o' (object_cache_name bus)) (\<lambda>oc.
     case oc of
       Some object_cache \<Rightarrow> mret object_cache
     | None \<Rightarrow>
         mbind (di_new_object_with_type P_object) (\<lambda>object_cache.
         mseq (check_ok (di_add_member_clone E object_cache (di_string_borrow ''___bus_name'') (V_string bus)))
         (mbind (di_weakly_ref_object object_cache) (\<lambda>weak_object_cache.
          mseq (ignore_rc (di_add_member_move E o' (object_cache_name bus) (V_weak_object weak_object_cache)))
          (mret object_cache)))))"

definition new_dbus_object :: "env \<Rightarrow> addr \<Rightarrow> addr \<Rightarrow> di_string \<Rightarrow> di_string \<Rightarrow> di_string \<Rightarrow> addr M" where
  "new_dbus_object E o' object_cache bus obj interface =
     mbind (di_new_object_with_type P_object) (\<lambda>ret.
     mseq (ignore_rc (di_set_type E ret ''deai.plugin.dbus:DBusObject''))
     (mseq (check_ok (di_add_member_clone E ret (di_string_borrow ''___deai_dbus_connection'') (V_object o')))
     (mseq (ignore_rc (di_member_clone E ret ''___bus_name'' (V_string bus)))
     (mseq (ignore_rc (di_member_clone E ret ''___object_path'' (V_string obj)))
     (mseq (ignore_rc (di_member_clone E ret ''___interface'' (V_string interface)))
     (mseq (ignore_rc (di_method E ret ''__get'' ''di_dbus_object_getter'' DI_TYPE_VARIANT [DI_TYPE_STRING]))
     (mseq (ignore_rc (di_method E ret ''__set'' ''di_dbus_object_new_signal'' DI_TYPE_NIL [DI_TYPE_STRING, DI_TYPE_OBJECT]))
     (mseq (ignore_rc (di_method E ret ''__delete'' ''di_dbus_object_del_signal'' DI_TYPE_NIL [DI_TYPE_STRING]))
     (mseq (ignore_rc (di_method E ret ''get'' ''di_dbus_get_property'' DI_TYPE_OBJECT [DI_TYPE_STRING]))
     (mseq (ignore_rc (di_method E ret ''set'' ''di_dbus_set_property'' DI_TYPE_OBJECT [DI_TYPE_STRING, DI_TYPE_VARIANT]))
     (mseq (ignore_rc (di_member_clone E ret ''___object_cache'' (V_object object_cache)))
     (mbind (di_weakly_ref_object ret) (\<lambda>weak_object.
      mseq (ignore_rc (di_add_member_move E object_cache (object_key obj interface) (V_weak_object weak_object)))
      (mret ret))))))))))))))"

text \<open>The request for the owner of the bus name, when none is recorded.\<close>

definition ask_for_owner :: "env \<Rightarrow> dbus_host \<Rightarrow> addr \<Rightarrow> addr \<Rightarrow> addr \<Rightarrow> di_string \<Rightarrow> unit M" where
  "ask_for_owner E H o' eventm ret bus =
     mbind (di_dbus_send_message E H o' (di_string_borrow ''method'') (di_string_borrow DBUS_SERVICE_DBUS)
              (di_string_borrow DBUS_PATH_DBUS) (di_string_borrow DBUS_INTERFACE_DBUS)
              (di_string_borrow ''GetNameOwner'') (di_string_borrow ''s'') [V_string bus]) (\<lambda>serial.
     if serial < 0
     then mseq (di_unref_object E ret)
          (throw_new_error E ''dbus.c'' 759 ''di_dbus_get_object'' ''Failed to send GetNameOwner request'')
     else
     mbind (di_create_closure E ''di_dbus_object_set_owner'' DI_TYPE_NIL [V_object ret] [DI_TYPE_STRING]) (\<lambda>r.
     case r of
       Inl _ \<Rightarrow> mcrash Null_deref
     | Inr set_owner \<Rightarrow>
         scoped_object E (Some set_owner)
           (mbind (di_dbus_add_promise_for E H o' eventm serial) (\<lambda>promise.
            scoped_object E (Some promise)
              (mbind (di_promise_then E promise set_owner) (\<lambda>p. di_unref_object E p))))))"

definition di_dbus_get_object :: "env \<Rightarrow> dbus_host \<Rightarrow> addr \<Rightarrow> di_string \<Rightarrow> di_string \<Rightarrow> di_string \<Rightarrow> addr M" where
  "di_dbus_get_object E H o' bus obj interface =
     mbind (borrow_event_module o') (\<lambda>em.
     case em of
       None \<Rightarrow> throw_new_error E ''dbus.c'' 693 ''di_dbus_get_object'' ''no event module''
     | Some eventm \<Rightarrow>
         mbind (obtain_object_cache E o' bus) (\<lambda>object_cache.
         scoped_object E (Some object_cache)
           (mbind (di_get_object_via_weak E object_cache (object_key obj interface)) (\<lambda>r.
            case r of
              Some ret \<Rightarrow> mret ret
            | None \<Rightarrow>
                mbind (new_dbus_object E o' object_cache bus obj interface) (\<lambda>ret.
                mbind (di_get E object_cache (di_string_borrow ''___owner'') DI_TYPE_STRING) (\<lambda>(rc, _).
                mseq (if rc \<noteq> 0 then ask_for_owner E H o' eventm ret bus else mret ())
                (mret ret)))))))"

section \<open>Shutdown of a connection\<close>

definition di_dbus_shutdown_part2 :: "addr \<Rightarrow> unit M" where
  "di_dbus_shutdown_part2 self =
     mbind (get_obj self) (\<lambda>ob.
     case payload ob of
       P_dbus_shutdown conn \<Rightarrow> mseq (emit_effect (Dbus_close conn)) (emit_effect (Dbus_unref conn))
     | _ \<Rightarrow> mcrash Out_of_bounds)"

definition di_dbus_drop_root :: "env \<Rightarrow> addr \<Rightarrow> di_tuple \<Rightarrow> (int \<times> di_variant) M" where
  "di_dbus_drop_root E self args =
     mseq (ignore_rc (di_delete_member_raw E self (di_string_borrow ''___listen_handle''))) (mret (0, V_nil))"

definition schedule_close :: "env \<Rightarrow> addr \<Rightarrow> nat \<Rightarrow> unit M" where
  "schedule_close E eventm conn =
     mbind (di_new_object_with_type (P_dbus_shutdown conn)) (\<lambda>shutdown.
     mseq (di_set_object_dtor shutdown (Some ''di_dbus_shutdown_part2''))
     (mseq (di_set_object_call shutdown (Some ''di_dbus_drop_root''))
     (mbind (di_listen_to E eventm (di_string_borrow ''prepare'') shutdown False) (\<lambda>(lh, _).
      case lh of
        None \<Rightarrow> mcrash Null_deref
      | Some listen_handle \<Rightarrow>
          mseq (check_ok (di_call_void_impl E listen_handle (di_string_borrow ''auto_stop'') [V_nint 1]))
          (mseq (check_ok (di_member E shutdown ''___listen_handle'' (V_object listen_handle)))
          (di_unref_object E shutdown))))))"

definition di_dbus_shutdown :: "env \<Rightarrow> dbus_host \<Rightarrow> addr \<Rightarrow> unit M" where
  "di_dbus_shutdown E H obj =
     mbind (get_conn obj) (\<lambda>(p, n).
     case p of
       None \<Rightarrow> mret ()
     | Some conn \<Rightarrow>
         mseq (if n > 0
               then mseq (clear_watch_functions E H conn obj) (emit_effect (Dbus_set_filter False))
               else mret ())
         (mbind (borrow_event_module obj) (\<lambda>em.
          mseq (case em of
                  Some eventm \<Rightarrow> schedule_close E eventm conn
                | None \<Rightarrow> mseq (emit_effect (Dbus_close conn)) (emit_effect (Dbus_unref conn)))
          (mbind (get_conn obj) (\<lambda>(_, n). set_conn obj None n)))))"

end
