(* ===== verification/Deai_Dbus_Filter.thy ===== *)
theory Deai_Dbus_Filter
  imports Deai_Dbus
begin

text \<open>
  The rest of \<^verbatim>\<open>plugins/dbus/dbus.c\<close>: the filter that turns messages into signals and settled promises, and the
  operations that make a connection, with the module.
\<close>

section \<open>Incoming messages\<close>

record di_signal_info =
  si_path :: di_string
  si_interface :: di_string
  si_member :: di_string
  si_args :: di_tuple

definition di_emit_signal_for :: "env \<Rightarrow> addr \<Rightarrow> di_signal_info \<Rightarrow> unit M" where
  "di_emit_signal_for E directory info =
     mbind (di_get_object_via_weak E directory (object_key (si_path info) (si_interface info))) (\<lambda>o'.
     case o' of
       None \<Rightarrow> mret ()
     | Some obj \<Rightarrow> scoped_object E (Some obj) (ignore_rc (di_emitn E obj (si_member info) (si_args info))))"

definition di_peer_foreach_cb :: "env \<Rightarrow> di_signal_info \<Rightarrow> string \<Rightarrow> di_variant \<Rightarrow> bool M" where
  "di_peer_foreach_cb E info name value =
     (case value of
        V_weak_object w \<Rightarrow>
          mbind (di_upgrade_weak_ref w) (\<lambda>o'.
          case o' of
            None \<Rightarrow> mret False
          | Some obj \<Rightarrow> scoped_object E (Some obj) (mseq (di_emit_signal_for E obj info) (mret False)))
      | _ \<Rightarrow> mret False)"

text \<open>
  A message of libdbus: its type (2 a method return, 3 an error, 4 a signal), the header fields that may be
  absent, and the serial of the request it answers.
\<close>

record dbus_message =
  m_type :: nat
  m_member :: "c_string option"
  m_sender :: "c_string option"
  m_path :: "c_string option"
  m_interface :: "c_string option"
  m_reply_serial :: u32

datatype handler_result = DBUS_HANDLER_RESULT_HANDLED | DBUS_HANDLER_RESULT_NOT_YET_HANDLED

abbreviation DBUS_MESSAGE_TYPE_METHOD_RETURN :: nat where "DBUS_MESSAGE_TYPE_METHOD_RETURN \<equiv> 2"
abbreviation DBUS_MESSAGE_TYPE_ERROR :: nat where "DBUS_MESSAGE_TYPE_ERROR \<equiv> 3"
abbreviation DBUS_MESSAGE_TYPE_SIGNAL :: nat where "DBUS_MESSAGE_TYPE_SIGNAL \<equiv> 4"

text \<open>Fields compared one after the other, as \<^verbatim>\<open>strcmp\<close> and \<^verbatim>\<open>&&\<close> do; comparing an absent one faults.\<close>

fun fields_match :: "(c_string option \<times> c_string) list \<Rightarrow> bool M" where
  "fields_match [] = mret True"
| "fields_match ((None, _) # _) = mcrash Null_deref"
| "fields_match ((Some s, t) # fs) = (if s = t then fields_match fs else mret False)"

definition is_name_owner_changed :: "dbus_message \<Rightarrow> bool M" where
  "is_name_owner_changed msg =
     fields_match [(m_member msg, ''NameOwnerChanged''), (m_sender msg, DBUS_SERVICE_DBUS),
                   (m_path msg, DBUS_PATH_DBUS), (m_interface msg, DBUS_INTERFACE_DBUS)]"

definition borrow_field :: "c_string option \<Rightarrow> di_string M" where
  "borrow_field f = (case f of None \<Rightarrow> mcrash Null_deref | Some s \<Rightarrow> mret (di_string_borrow s))"

definition deliver_signal :: "env \<Rightarrow> addr \<Rightarrow> c_string \<Rightarrow> di_signal_info \<Rightarrow> unit M" where
  "deliver_signal E c bus_name info =
     (if di_string_starts_with (di_string_borrow bus_name) '':''
      then mbind (di_get_object_via_weak E c (peer_name (di_string_borrow bus_name))) (\<lambda>p.
           case p of
             None \<Rightarrow> mret ()
           | Some peer \<Rightarrow>
               scoped_object E (Some peer)
                 (mbind (di_foreach_member_raw peer (di_peer_foreach_cb E info)) (\<lambda>_. mret ())))
      else mbind (di_get_object_via_weak E c (object_cache_name (di_string_borrow bus_name))) (\<lambda>d.
           case d of
             None \<Rightarrow> mret ()
           | Some directory \<Rightarrow> scoped_object E (Some directory) (di_emit_signal_for E directory info)))"

definition emit_message :: "env \<Rightarrow> addr \<Rightarrow> dbus_message \<Rightarrow> di_tuple \<Rightarrow> handler_result M" where
  "emit_message E c msg t =
     (case m_sender msg of
        None \<Rightarrow> mret DBUS_HANDLER_RESULT_NOT_YET_HANDLED
      | Some bus_name \<Rightarrow>
          mbind (borrow_field (m_path msg)) (\<lambda>path.
          mbind (borrow_field (m_interface msg)) (\<lambda>ifc.
          mbind (borrow_field (m_member msg)) (\<lambda>mbr.
          mseq (deliver_signal E c bus_name
                  \<lparr>si_path = path, si_interface = ifc, si_member = mbr, si_args = t\<rparr>)
          (mret DBUS_HANDLER_RESULT_HANDLED)))))"

definition filter_signal :: "env \<Rightarrow> addr \<Rightarrow> dbus_message \<Rightarrow> di_tuple \<Rightarrow> handler_result M" where
  "filter_signal E c msg t =
     mbind (is_name_owner_changed msg) (\<lambda>changed.
     if changed
     then case t of
            [V_string name, V_string old_owner, V_string new_owner] \<Rightarrow>
              mseq (di_dbus_name_changed E c name old_owner new_owner) (emit_message E c msg t)
          | _ \<Rightarrow> mret DBUS_HANDLER_RESULT_NOT_YET_HANDLED
     else emit_message E c msg t)"

text \<open>
  An error reply is read as a string from its first value: past the end of an empty body, and as another
  member of the union when it is not a string.
\<close>

definition settle_reply :: "env \<Rightarrow> addr \<Rightarrow> bool \<Rightarrow> di_tuple \<Rightarrow> unit M" where
  "settle_reply E promise is_error t =
     (if is_error
      then case t of
             V_string s # _ \<Rightarrow>
               mbind (di_new_error E ''dbus.c'' 941 ''dbus_filter'' (c_str (str_bytes s))) (\<lambda>err.
               scoped_object E (Some err) (di_promise_reject E promise err))
           | _ \<Rightarrow> mcrash Out_of_bounds
      else di_promise_resolve E promise (case t of [v] \<Rightarrow> v | _ \<Rightarrow> V_tuple t))"

definition filter_reply :: "env \<Rightarrow> dbus_host \<Rightarrow> addr \<Rightarrow> dbus_message \<Rightarrow> di_tuple \<Rightarrow> handler_result M" where
  "filter_reply E H ud msg t =
     (let promise_name = promise_key (uint (m_reply_serial msg)) in
      mbind (di_rawget_borrowed ud promise_name DI_TYPE_OBJECT) (\<lambda>(rc, v).
      mseq (case (rc = 0, v) of
              (True, V_object promise) \<Rightarrow>
                mseq (settle_reply E promise (m_type msg = DBUS_MESSAGE_TYPE_ERROR) t)
                (mseq (ignore_rc (di_delete_member_raw E ud promise_name))
                (di_dbus_nsignal_dec E H ud))
            | _ \<Rightarrow> mret ())
      (mret DBUS_HANDLER_RESULT_HANDLED)))"

definition dbus_filter :: "nat \<Rightarrow> env \<Rightarrow> dbus_host \<Rightarrow> 'i dbus_iter \<Rightarrow> 'i \<Rightarrow> dbus_message \<Rightarrow> addr \<Rightarrow> handler_result M" where
  "dbus_filter n E H L i msg ud =
     (if m_type msg \<noteq> DBUS_MESSAGE_TYPE_SIGNAL \<and> m_type msg \<noteq> DBUS_MESSAGE_TYPE_METHOD_RETURN \<and>
         m_type msg \<noteq> DBUS_MESSAGE_TYPE_ERROR
      then mret DBUS_HANDLER_RESULT_NOT_YET_HANDLED
      else
      mbind (dbus_deserialize_struct n E L i) (\<lambda>t.
      mscoped
        (mbind (di_ref_object ud) (\<lambda>obj.
         scoped_object E (Some obj)
           (if m_type msg = DBUS_MESSAGE_TYPE_SIGNAL then filter_signal E obj msg t
            else filter_reply E H ud msg t)))
        (di_free_value E (V_tuple t))))"

section \<open>Connections and the module\<close>

definition di_dbus_connection_to_di :: "env \<Rightarrow> addr \<Rightarrow> nat \<Rightarrow> addr M" where
  "di_dbus_connection_to_di E m conn =
     mbind (di_object_get_deai_strong E m) (\<lambda>di.
     case di of
       None \<Rightarrow> throw_new_error E ''dbus.c'' 969 ''di_dbus_connection_to_di'' ''deai is shutting down...''
     | Some d \<Rightarrow>
         mbind (di_new_object_with_type (P_dbus_connection (Some conn) 0)) (\<lambda>ret.
         mseq (ignore_rc (di_set_type E ret ''deai.plugin.dbus:DBusConnection''))
         (mseq (ignore_rc (di_member E ret ''__deai'' (V_object d)))
         (mseq (ignore_rc (di_method E ret ''send'' ''di_dbus_send_message'' DI_TYPE_INT
                  [DI_TYPE_STRING, DI_TYPE_STRING, DI_TYPE_STRING, DI_TYPE_STRING, DI_TYPE_STRING, DI_TYPE_STRING, DI_TYPE_TUPLE]))
         (mseq (ignore_rc (di_method E ret ''get'' ''di_dbus_get_object'' DI_TYPE_OBJECT
                  [DI_TYPE_STRING, DI_TYPE_STRING, DI_TYPE_STRING]))
         (mseq (di_set_object_dtor ret (Some ''di_dbus_shutdown''))
         (mret ret)))))))"

definition name_owner_match :: c_string where
  "name_owner_match =
     ''type='' @ quoted ''signal'' @ '',sender='' @ quoted DBUS_SERVICE_DBUS @ '',path='' @ quoted DBUS_PATH_DBUS @
     '',interface='' @ quoted DBUS_INTERFACE_DBUS @ '',member='' @ quoted ''NameOwnerChanged''"

definition di_dbus_get_session_bus :: "env \<Rightarrow> dbus_host \<Rightarrow> addr \<Rightarrow> addr M" where
  "di_dbus_get_session_bus E H o' =
     (case dh_session_bus H of
        Inl message \<Rightarrow> throw_new_error E ''dbus.c'' 995 ''di_dbus_get_session_bus'' message
      | Inr conn \<Rightarrow>
          mseq (emit_effect (Dbus_add_match name_owner_match)) (di_dbus_connection_to_di E o' conn))"

definition di_dbus_handle_hello_reply :: "env \<Rightarrow> addr \<Rightarrow> di_string \<Rightarrow> addr M" where
  "di_dbus_handle_hello_reply E conn name =
     mseq (ignore_rc (di_log_va E DI_LOG_DEBUG
             (''unique name is: '' @ (case c_arg name of None \<Rightarrow> ''(null)'' | Some s \<Rightarrow> s))))
     (mbind (the_conn conn) (\<lambda>c.
      mseq (emit_effect (Dbus_set_unique_name c (c_arg name)))
      (mseq (emit_effect (Dbus_add_match name_owner_match))
      (di_ref_object conn))))"

definition hello :: "env \<Rightarrow> dbus_host \<Rightarrow> addr \<Rightarrow> addr \<Rightarrow> addr M" where
  "hello E H eventm ret =
     mbind (di_dbus_send_message E H ret (di_string_borrow ''method'') (di_string_borrow DBUS_SERVICE_DBUS)
              (di_string_borrow DBUS_PATH_DBUS) (di_string_borrow DBUS_INTERFACE_DBUS)
              (di_string_borrow ''Hello'') DI_STRING_INIT []) (\<lambda>serial.
     mseq (mcheck Panic (serial \<ge> 0))
     (mbind (di_dbus_add_promise_for E H ret eventm serial) (\<lambda>promise.
      scoped_object E (Some promise)
        (mbind (di_create_closure E ''di_dbus_handle_hello_reply'' DI_TYPE_OBJECT [V_object ret] [DI_TYPE_STRING]) (\<lambda>r.
         case r of
           Inl _ \<Rightarrow> mcrash Null_deref
         | Inr handler \<Rightarrow> scoped_object E (Some handler) (di_promise_then E promise handler))))))"

definition di_dbus_connect :: "env \<Rightarrow> dbus_host \<Rightarrow> addr \<Rightarrow> di_string \<Rightarrow> addr M" where
  "di_dbus_connect E H o' address =
     mbind (di_mgetm E o' ''event'') (\<lambda>em.
     case em of
       None \<Rightarrow> throw_new_error E ''dbus.c'' 1022 ''di_dbus_connect'' ''deai is shutting down...''
     | Some eventm \<Rightarrow>
         scoped_object E (Some eventm)
           (case dh_open H (c_arg address) of
              Inl message \<Rightarrow> throw_new_error E ''dbus.c'' 1028 ''di_dbus_connect'' message
            | Inr conn \<Rightarrow>
                mbind (di_dbus_connection_to_di E o' conn) (\<lambda>ret.
                scoped_object E (Some ret) (hello E H eventm ret))))"

definition new_dbus_module :: "env \<Rightarrow> addr \<Rightarrow> addr M" where
  "new_dbus_module E di =
     mbind (di_new_module E di P_object) (\<lambda>m.
     mseq (ignore_rc (di_method E m ''__get_session_bus'' ''di_dbus_get_session_bus'' DI_TYPE_OBJECT []))
     (mseq (ignore_rc (di_method E m ''connect'' ''di_dbus_connect'' DI_TYPE_OBJECT [DI_TYPE_STRING])) (mret m)))"

definition dbus_plugin_init :: "env \<Rightarrow> addr \<Rightarrow> unit M" where
  "dbus_plugin_init E di =
     mbind (new_dbus_module E di) (\<lambda>m. ignore_rc (di_register_module E di (di_string_borrow ''dbus'') m))"

end
