(* ===== verification/Deai_Exact.thy ===== *)
theory Deai_Exact
  imports Deai_Promise Deai_Object_Props
begin

text \<open>
  Member operations evaluated exactly: on scalars and single references the resulting world is given in full, which is what
  the proofs about sequences of such operations need.
\<close>

section \<open>Exact results of member operations\<close>

named_theorems exact \<open>operations whose resulting world is given in full\<close>

abbreviation upd :: "addr \<Rightarrow> di_object_internal \<Rightarrow> world \<Rightarrow> world" where
  "upd a ob w \<equiv> w\<lparr>objs := (objs w)(a \<mapsto> ob)\<rparr>"

lemma one_less_plus_one: "(x :: 64 word) \<noteq> 0 \<Longrightarrow> x \<noteq> - 1 \<Longrightarrow> 1 < x + 1"
  using unatSuc [of x] by (simp add: word_less_nat_alt add.commute unat_gt_0 add_eq_0_iff)

lemma plus_one_nonzero: "unat (x :: 64 word) + 1 < 2 ^ 64 \<Longrightarrow> x + 1 \<noteq> 0"
proof
  assume "unat x + 1 < 2 ^ 64" and "x + 1 = 0"
  then have "unat (- 1 :: 64 word) + 1 < 2 ^ 64" by (metis eq_neg_iff_add_eq_0)
  then show False by (simp add: unsigned_minus_1_eq_mask mask_eq_exp_minus_1)
qed

lemma lookup_exact [exact]: "objs w a = Some ob \<Longrightarrow> di_lookup a (Some k) w = Ret (hash_find k (members ob)) w"
  by (simp add: di_lookup_def outcome_simps heap_simps)

lemma has_member_exact [exact]:
  "objs w a = Some ob \<Longrightarrow> di_has_member a k w = Ret (hash_find k (members ob) \<noteq> None) w"
  by (simp add: di_has_member_def di_string_borrow_def exact outcome_simps)

lemma add_object_exact [exact]:
  assumes "objs w a = Some ob" and "hash_find k (members ob) = None" and "objs w b = Some ob'" and "a \<noteq> b"
  shows "di_add_member_clone E a (Some k) (V_object b) w =
    Ret 0 (upd a (ob\<lparr>members := hash_add k (V_object b) (members ob)\<rparr>) (upd b (ob'\<lparr>ref_count := ref_count ob' + 1\<rparr>) w))"
  using assms
  by (simp add: di_add_member_clone_def di_add_member_def di_insert_member_def di_clone_string_def di_ref_object_def
      di_string_ndup_def str_bytes_def str_length_def outcome_simps heap_simps errno_defs)

lemma add_bool_exact [exact]:
  assumes "objs w a = Some ob" and "hash_find k (members ob) = None"
  shows "di_add_member_clone E a (Some k) (V_bool b) w = Ret 0 (upd a (ob\<lparr>members := hash_add k (V_bool b) (members ob)\<rparr>) w)"
  using assms
  by (simp add: di_add_member_clone_def di_add_member_def di_insert_member_def di_clone_string_def
      di_string_ndup_def str_bytes_def str_length_def outcome_simps heap_simps errno_defs)

lemma rawset_nint_exact [exact]:
  assumes "objs w a = Some ob" and "hash_find k (members ob) = Some (V_nint m)" and "distinct (hash_keys (members ob))"
  shows "di_rawsetx E a (Some k) (V_nint n) w =
    Ret 0 (upd a (ob\<lparr>members := hash_add k (V_nint n) (hash_del k (members ob))\<rparr>) w)"
  using assms
  by (simp add: di_rawsetx_def di_delete_member_raw_def di_remove_member_raw_impl_def di_free_value_def
      di_add_member_clone_def di_add_member_def di_insert_member_def di_clone_string_def hash_find_del
      di_string_ndup_def str_bytes_def str_length_def exact outcome_simps heap_simps errno_defs)

lemma get_nint_exact [exact]:
  assumes "objs w a = Some ob" and "hash_find k (members ob) = Some (V_nint n)"
  shows "get_nint_checked E a (Some k) w = Ret (sint n) w"
proof -
  have "di_getx E a (Some k) False w = Ret (0, V_nint n, None) w"
    by (rule getx_present [OF assms]) (simp_all add: outcome_simps)
  then show ?thesis
    by (simp add: get_nint_checked_def di_get_def di_getxt_def di_type_conversion_def outcome_simps)
qed

lemma get_weak_exact [exact]:
  assumes "objs w a = Some ob" and "hash_find k (members ob) = Some (V_weak_object b)" and "objs w b = Some ob'"
  shows "get_weak_checked E a k w = Ret b (upd b (ob'\<lparr>weak_ref_count := weak_ref_count ob' + 1\<rparr>) w)"
proof -
  have "di_getx E a (Some k) False w = Ret (0, V_weak_object b, None) (upd b (ob'\<lparr>weak_ref_count := weak_ref_count ob' + 1\<rparr>) w)"
    by (rule getx_present [OF assms(1,2)]) (use assms(3) in \<open>simp_all add: di_weakly_ref_object_def outcome_simps heap_simps\<close>)
  then show ?thesis
    by (simp add: get_weak_checked_def di_string_borrow_def di_get_def di_getxt_def di_type_conversion_def outcome_simps)
qed

lemma upgrade_exact [exact]:
  assumes "objs w a = Some ob" and "ref_count ob \<noteq> 0" and "\<not> destroyed ob" and "mark ob = 0"
  shows "di_upgrade_weak_ref a w = Ret (Some a) (upd a (ob\<lparr>ref_count := ref_count ob + 1\<rparr>) w)"
  using assms by (simp add: di_upgrade_weak_ref_def di_ref_object_def outcome_simps heap_simps word_gt_0)

lemma borrow_deai_exact [exact]:
  assumes "objs w a = Some ob" and "hash_find ''__deai'' (members ob) = Some (V_object d)"
  shows "di_object_borrow_deai a w = Ret (Some d) w"
  using assms by (simp add: di_object_borrow_deai_def di_rawget_borrowed_def di_refrawgetx_def exact outcome_simps)

text \<open>Giving back one of several references: the object becomes a candidate of the collector.\<close>

definition candidate :: "addr \<Rightarrow> world \<Rightarrow> world" where
  "candidate a w = (if sib_list_empty a w then w\<lparr>unreferred_objects := a # unreferred_objects w\<rparr> else w)"

lemma candidate_objs [simp]: "objs (candidate a w) = objs w"
  by (simp add: candidate_def)

lemma unref_exact [exact]:
  assumes "objs w a = Some ob" and "\<not> destroyed ob" and "mark ob = 0" and "1 < ref_count ob" and "e_fuel E \<noteq> 0"
  shows "di_unref_object E a w = Ret () (candidate a (upd a (ob\<lparr>ref_count := ref_count ob - 1\<rparr>) w))"
proof -
  obtain n where "e_fuel E = Suc n" using assms(5) not0_implies_Suc by blast
  moreover have "0 < ref_count ob" "ref_count ob - 1 \<noteq> 0" using assms(4) by (auto simp: word_gt_0)
  ultimately show ?thesis
    using assms(1-3) by (simp add: di_unref_object_def candidate_def outcome_simps heap_simps)
qed

lemma drop_weak_exact [exact]:
  assumes "objs w a = Some ob" and "weak_ref_count ob \<noteq> 1"
  shows "di_drop_weak_ref a w = Ret () (upd a (ob\<lparr>weak_ref_count := weak_ref_count ob - 1\<rparr>) w)"
  using assms by (simp add: di_drop_weak_ref_def di_decrement_weak_ref_count_def outcome_simps heap_simps)

text \<open>Strings and references read from members, and references given back with them.\<close>

lemma get_string_exact [exact]:
  assumes "objs w a = Some ob" and "hash_find k (members ob) = Some (V_string (Some s))"
  shows "get_string_checked E a k w = Ret (Some s) w"
proof -
  have "di_getx E a (Some k) False w = Ret (0, V_string (Some s), None) w"
    by (rule getx_present [OF assms]) (simp_all add: outcome_simps di_clone_string_def di_string_ndup_def str_bytes_def str_length_def)
  then show ?thesis
    by (simp add: get_string_checked_def di_string_borrow_def di_get_def di_getxt_def di_type_conversion_def outcome_simps)
qed

lemma rawget_object_exact [exact]:
  assumes "objs w a = Some ob" and "hash_find k (members ob) = Some (V_object b)"
  shows "di_rawget_borrowed a (Some k) DI_TYPE_OBJECT w = Ret (0, V_object b) w"
  using assms by (simp add: di_rawget_borrowed_def di_refrawgetx_def exact outcome_simps)

lemma get_object_exact [exact]:
  assumes "objs w a = Some ob" and "hash_find k (members ob) = Some (V_object b)" and "objs w b = Some ob'"
  shows "di_get E a (Some k) DI_TYPE_OBJECT w = Ret (0, V_object b) (upd b (ob'\<lparr>ref_count := ref_count ob' + 1\<rparr>) w)"
proof -
  have "di_getx E a (Some k) False w = Ret (0, V_object b, None) (upd b (ob'\<lparr>ref_count := ref_count ob' + 1\<rparr>) w)"
    by (rule getx_present [OF assms(1,2)]) (use assms(3) in \<open>simp_all add: di_ref_object_def outcome_simps heap_simps\<close>)
  then show ?thesis by (simp add: di_get_def di_getxt_def di_type_conversion_def outcome_simps)
qed

lemma delete_object_exact [exact]:
  assumes "objs w a = Some ob" and "hash_find k (members ob) = Some (V_object b)" and "objs w b = Some ob'" and "a \<noteq> b"
    and "\<not> destroyed ob'" and "mark ob' = 0" and "1 < ref_count ob'" and "e_fuel E \<noteq> 0"
  shows "di_delete_member_raw E a (Some k) w =
    Ret 0 (candidate b (upd b (ob'\<lparr>ref_count := ref_count ob' - 1\<rparr>) (upd a (ob\<lparr>members := hash_del k (members ob)\<rparr>) w)))"
  using assms
  by (simp add: di_delete_member_raw_def di_remove_member_raw_impl_def di_free_value_def str_bytes_def exact outcome_simps heap_simps)

lemma hash_del_add: "hash_find k ms = None \<Longrightarrow> hash_del k (hash_add k v ms) = ms"
  by (simp add: hash_add_def hash_find_None) (induction ms, auto)

text \<open>Values without references: copying and freeing them leaves the world alone.\<close>

definition plain :: "di_variant \<Rightarrow> bool" where
  "plain v \<longleftrightarrow> wt_value v \<and> refs_of v = [] \<and> weak_refs_of v = []"

lemma mmap_exact: "(\<And>v. v \<in> set vs \<Longrightarrow> f v w = Ret (g v) w) \<Longrightarrow> mmap f vs w = Ret (map g vs) w"
  by (induction vs) (simp_all add: outcome_simps)

lemma mforeach_exact: "(\<And>v. v \<in> set vs \<Longrightarrow> f v w = Ret () w) \<Longrightarrow> mforeach f vs w = Ret () w"
  by (induction vs) (simp_all add: outcome_simps)

lemma plain_list: "plain (V_tuple vs) \<longleftrightarrow> (\<forall>v \<in> set vs. plain v)"
  by (auto simp: plain_def)

lemma array_elem_size: "wt_value (V_array t vs) \<Longrightarrow> vs \<noteq> [] \<Longrightarrow> \<exists>sz. di_sizeof_type t = Some sz \<and> 0 < sz"
  using sizeof_nonzero [of "vs ! 0"] typeof_nil by (cases vs) auto

lemma copy_plain_exact: "plain v \<Longrightarrow> di_copy_value v w = Ret (copied v) w"
proof (induction v)
  case (V_array t vs)
  then have "\<And>v. v \<in> set vs \<Longrightarrow> di_copy_value v w = Ret (copied v) w" by (auto simp: plain_def)
  with mmap_exact [of vs di_copy_value w copied] array_elem_size [of t vs] V_array.prems show ?case
    by (auto simp: plain_def outcome_simps)
next
  case (V_tuple vs)
  let ?f = "\<lambda>v. case di_sizeof_type (typeof v) of None \<Rightarrow> mcrash Panic | Some _ \<Rightarrow> di_copy_value v"
  have "?f v w = Ret (copied v) w" if "v \<in> set vs" for v
    using V_tuple that sizeof_wt [of v] by (auto simp: plain_def)
  with mmap_exact [of vs ?f w copied] show ?case by (simp add: outcome_simps)
next
  case (V_variant v)
  then show ?case using sizeof_wt [of v] by (auto simp: plain_def outcome_simps)
qed (simp_all add: plain_def outcome_simps di_clone_string_def di_string_ndup_def)

lemma free_plain_exact: "plain v \<Longrightarrow> di_free_value E v w = Ret () w"
  unfolding di_free_value_def
proof (induction v)
  case (V_array t vs)
  then have "mforeach (free_value_with (di_unref_object E)) vs w = Ret () w"
    by (intro mforeach_exact) (auto simp: plain_def)
  with array_elem_size [of t vs] V_array.prems show ?case by (auto simp: plain_def outcome_simps)
next
  case (V_tuple vs)
  then show ?case by (auto intro!: mforeach_exact simp: plain_def)
qed (simp_all add: plain_def outcome_simps)

lemma add_plain_exact:
  assumes "objs w a = Some ob" and "hash_find k (members ob) = None" and "plain v" and "v \<noteq> V_nil"
  shows "di_add_member_clone E a (Some k) v w = Ret 0 (upd a (ob\<lparr>members := hash_add k (copied v) (members ob)\<rparr>) w)"
proof -
  from assms(3,4) obtain sz where "di_sizeof_type (typeof v) = Some sz" "0 < sz" using sizeof_nonzero by (auto simp: plain_def)
  with assms show ?thesis
    by (simp add: di_add_member_clone_def di_add_member_def di_insert_member_def di_clone_string_def copy_plain_exact
        di_string_ndup_def str_bytes_def str_length_def outcome_simps heap_simps errno_defs)
qed

end
