(* ===== verification/Deai_Promise_Props.thy ===== *)
theory Deai_Promise_Props
  imports Deai_Exact
begin

text \<open>
  Promises settle once: the settling of a promise is followed step by step with the rules of \<^verbatim>\<open>Deai_Exact\<close>.
\<close>

section \<open>Scheduling\<close>

text \<open>An event module that is alive and has the promises \<open>0\<close> to \<open>n - 1\<close> waiting.\<close>

definition waiting :: "int \<Rightarrow> di_object_internal \<Rightarrow> bool" where
  "waiting n ob \<longleftrightarrow> ref_count ob \<noteq> 0 \<and> \<not> destroyed ob \<and> mark ob = 0 \<and> distinct (hash_keys (members ob)) \<and>
     ref_count ob \<noteq> - 1 \<and> weak_ref_count ob \<noteq> 0 \<and>
     hash_find ''pending_count'' (members ob) = Some (V_nint (of_int n)) \<and> 0 < n \<and> n < 2 ^ 31 - 1 \<and>
     hash_find (pending_key n) (members ob) = None \<and> (\<exists>d. hash_find ''__deai'' (members ob) = Some (V_object d))"

definition queued :: "addr \<Rightarrow> int \<Rightarrow> di_object_internal \<Rightarrow> di_object_internal" where
  "queued p n ob = ob\<lparr>members := hash_add (pending_key n) (V_object p)
     (hash_add ''pending_count'' (V_nint (of_int (n + 1))) (hash_del ''pending_count'' (members ob)))\<rparr>"

definition pending_promise :: "di_object_internal \<Rightarrow> di_object_internal" where
  "pending_promise ob = ob\<lparr>ref_count := ref_count ob + 1, members := hash_add ''is_pending'' (V_bool True) (members ob)\<rparr>"

lemma sint_of_count: "0 \<le> n \<Longrightarrow> n < 2 ^ 31 \<Longrightarrow> sint (of_int n :: 32 word) = n"
  by (simp add: signed_of_int signed_take_bit_int_eq_self)

lemma pending_key_fresh: "pending_key n \<noteq> ''pending_count''"
  by (simp add: pending_key_def)

lemma start_dispatch_queues:
  assumes p: "objs w p = Some ob" "hash_find ''is_pending'' (members ob) = None"
      "hash_find ''___weak_event_module'' (members ob) = Some (V_weak_object em)"
    and em: "objs w em = Some oe" "waiting n oe" and "p \<noteq> em" and "e_fuel E \<noteq> 0"
  shows "\<exists>w'. di_promise_start_dispatch E p w = Ret () w' \<and>
    objs w' = (objs w)(p \<mapsto> pending_promise ob, em \<mapsto> queued p n oe) \<and>
    unreferred_objects w' = unreferred_objects (candidate em w) \<and> isolated_roots w' = isolated_roots w"
proof -
  note wt = em(2) [unfolded waiting_def]
  have "1 < ref_count oe + 1" using wt one_less_plus_one by blast
  moreover have "weak_ref_count oe + 1 \<noteq> 1" using wt by simp
  moreover have "sint (word_of_int n :: 32 word) = n" using wt sint_of_count by simp
  moreover have "hash_find (pending_key n) (hash_add ''pending_count'' x (hash_del ''pending_count'' (members oe))) = None" for x
    using wt pending_key_fresh [of n] by (simp add: hash_find_add hash_find_del)
  ultimately show ?thesis
    using assms wt
    by (auto simp: di_promise_start_dispatch_def scoped_object_def scoped_weak_def mscoped_def di_string_borrow_def exact
        di_member_clone_def emit_effect_def pending_promise_def queued_def fun_upd_twist
        candidate_def sib_list_empty_def outcome_simps heap_simps)
qed

lemma heap_ok_candidate:
  assumes ok: "heap_ok B ext wext w" and ob: "objs w a = Some ob" "ref_count ob \<noteq> 0"
    and w': "objs w' = objs w" "unreferred_objects w' = unreferred_objects (candidate a w)" "isolated_roots w' = isolated_roots w"
  shows "heap_ok B ext wext w'"
proof -
  have "lists_ok w'"
    using heap_okD(3) [OF ok] ob w' by (auto simp: lists_ok_def candidate_def sib_list_empty_def)
  with ok w'(1) show ?thesis by (simp add: heap_ok_def)
qed

lemma queued_refs:
  assumes "waiting n ob"
  shows "count_list (obj_refs (queued p n ob)) c = count_list (obj_refs ob) c + (if c = p then 1 else 0)"
    and "count_list (obj_weak_refs (queued p n ob)) c = count_list (obj_weak_refs ob) c"
proof -
  have "hash_find ''pending_count'' (members ob) = Some (V_nint (of_int n))" using assms by (simp add: waiting_def)
  from count_concat_del [OF this, of refs_of c] count_concat_del [OF this, of weak_refs_of c]
  show "count_list (obj_refs (queued p n ob)) c = count_list (obj_refs ob) c + (if c = p then 1 else 0)"
    "count_list (obj_weak_refs (queued p n ob)) c = count_list (obj_weak_refs ob) c"
    by (simp_all add: queued_def obj_refs_def obj_weak_refs_def hash_add_def)
qed

lemma queued_members:
  assumes "waiting n ob" and "\<forall>p \<in> set (members ob). wt_value (snd p)"
  shows "distinct (hash_keys (members (queued p n ob)))" and "\<forall>p \<in> set (members (queued p n ob)). wt_value (snd p)"
proof -
  have d: "distinct (hash_keys (members ob))" "pending_key n \<notin> set (hash_keys (members ob))"
    using assms(1) hash_find_None [of "pending_key n" "members ob"] by (simp_all add: waiting_def)
  then show "distinct (hash_keys (members (queued p n ob)))"
    using distinct_hash_del [of "members ob"] hash_keys_del [of "members ob"] pending_key_fresh [of n] by (simp add: queued_def hash_add_def)
  show "\<forall>p \<in> set (members (queued p n ob)). wt_value (snd p)"
    using assms(2) set_hash_del [of "''pending_count''" "members ob"] by (auto simp: queued_def hash_add_def)
qed

lemma queued_lookup:
  assumes "waiting n ob"
  shows "hash_find ''pending_count'' (members (queued p n ob)) = Some (V_nint (of_int (n + 1)))"
    and "hash_find (pending_key n) (members (queued p n ob)) = Some (V_object p)"
proof -
  have "hash_find ''pending_count'' (hash_del ''pending_count'' (members ob)) = None"
      "hash_find (pending_key n) (hash_del ''pending_count'' (members ob)) = None"
    using assms by (simp_all add: waiting_def hash_find_del)
  then show "hash_find ''pending_count'' (members (queued p n ob)) = Some (V_nint (of_int (n + 1)))"
      "hash_find (pending_key n) (members (queued p n ob)) = Some (V_object p)"
    using pending_key_fresh [of n] by (simp_all add: queued_def hash_find_add)
qed

lemma queued_counts [simp]:
  "ref_count (queued p n ob) = ref_count ob" "weak_ref_count (queued p n ob) = weak_ref_count ob" "mark (queued p n ob) = mark ob"
  "destroyed (queued p n ob) = destroyed ob" "payload (queued p n ob) = payload ob"
  by (simp_all add: queued_def)

lemma queueing_keeps_counts:
  assumes ok: "heap_ok {} ext wext w" and p: "objs w p = Some ob" "ref_count ob \<noteq> 0" "unat (ref_count ob) + 1 < 2 ^ 64"
      "hash_find ''is_pending'' (members ob) = None"
    and em: "objs w em = Some oe" "waiting n oe" "p \<noteq> em"
    and w': "objs w' = (objs w)(p \<mapsto> pending_promise ob, em \<mapsto> queued p n oe)"
      "unreferred_objects w' = unreferred_objects (candidate em w)" "isolated_roots w' = isolated_roots w"
  shows "heap_ok {} ext wext w'"
proof -
  note okp = heap_okD(4) [OF ok p(1), unfolded obj_ok_def] and oke = heap_okD(4) [OF ok em(1), unfolded obj_ok_def]
  note wt = em(2) [unfolded waiting_def]
  let ?ext = "ext(p := Suc (ext p))" and ?ob1 = "ob\<lparr>ref_count := ref_count ob + 1\<rparr>"
  let ?w1 = "upd p ?ob1 w" and ?w2 = "upd p (pending_promise ob) w"
  let ?w3 = "upd em (queued p n oe) ?w2"
  have "p \<in> live w" using p by (auto simp: live_def)
  then have "heap_ok {} ?ext wext ?w1"
    using ref_object_ok [OF ok, of p] okp p by (auto simp: di_ref_object_def outcome_simps heap_simps)
  then have "heap_ok {} ?ext wext ?w2"
  proof (rule heap_ok_exchange [where a = p and ob = ?ob1 and ob' = "pending_promise ob"])
    show "distinct (hash_keys (members (pending_promise ob)))"
      using okp p(4) by (simp add: pending_promise_def hash_add_def hash_find_None)
    show "members (pending_promise ob) = []" if "ref_count ?ob1 = 0" using that plus_one_nonzero [OF p(3)] by simp
  qed (use okp in \<open>simp_all add: pending_promise_def obj_refs_def obj_weak_refs_def hash_add_def\<close>)
  then have "heap_ok {} ext wext ?w3"
    by (rule heap_ok_exchange [where a = em and ob = oe and ob' = "queued p n oe"])
      (use oke em(1,3) wt queued_refs [OF em(2)] queued_members [OF em(2)] in simp_all)
  then show ?thesis
    by (rule heap_ok_candidate [where a = em and ob = "queued p n oe"]) (use wt w' in \<open>auto simp: queued_def candidate_def sib_list_empty_def\<close>)
qed

section \<open>Settling\<close>

text \<open>A promise that has not settled, with its event module.\<close>

definition unsettled :: "addr \<Rightarrow> di_object_internal \<Rightarrow> bool" where
  "unsettled em ob \<longleftrightarrow> ref_count ob \<noteq> 0 \<and> hash_find ''___resolved'' (members ob) = None \<and>
     hash_find ''___rejected'' (members ob) = None \<and> hash_find ''is_pending'' (members ob) = None \<and>
     hash_find ''___weak_event_module'' (members ob) = Some (V_weak_object em)"

text \<open>What settling with a member does to the promise.\<close>

definition settled_as :: "string \<Rightarrow> di_variant \<Rightarrow> (string \<times> di_variant) list \<Rightarrow> (string \<times> di_variant) list" where
  "settled_as k v ms = hash_add ''is_pending'' (V_bool True) (hash_add k v ms)"

lemma copied_world_waiting:
  assumes ok: "heap_ok {} ext wext w" and em: "objs w em = Some oe" "waiting n oe" and sh: "same_shape w w1"
    and room: "unat (ref_count oe) + length (refs_of v) + 1 < 2 ^ 64"
    and p: "objs w1 p = Some ob1" and ok': "heap_ok {} ext wext (with_member p k v ob1 w1)" and "p \<noteq> em"
  obtains oe1 where "objs w1 em = Some oe1" "waiting n oe1" "members oe1 = members oe"
proof -
  from sh em(1) obtain oe1 where oe1: "objs w1 em = Some oe1" unfolding same_shape_def by blast
  note sm = same_shapeD [OF sh em(1) oe1]
  have oe1': "objs (with_member p k v ob1 w1) em = Some oe1" using oe1 assms(8) by (simp add: with_member_def)
  note ok1 = heap_okD(4) [OF ok' oe1', unfolded obj_ok_def] and ok0 = heap_okD(4) [OF ok em(1), unfolded obj_ok_def]
  have fin: "finite (dom (objs w1))" using heap_okD(1) [OF ok] sh by (simp add: same_shape_def)
  have "unat (ref_count oe1) = unat (ref_count oe) + count_list (refs_of v) em"
    using with_member_counts(1) [OF sh fin p, of k v em] ok0 ok1 by simp
  then have lim: "unat (ref_count oe1) + 1 < 2 ^ 64" "ref_count oe1 \<noteq> 0"
    using room count_list_le [of "refs_of v" em] em(2) by (auto simp: waiting_def unat_eq_zero)
  then have "ref_count oe1 \<noteq> - 1" using plus_one_nonzero by fastforce
  with lim em(2) sm ok1 have "waiting n oe1" by (simp add: waiting_def)
  with oe1 sm that show thesis by blast
qed

lemma settle_step:
  assumes ok: "heap_ok {} ext wext w" and p: "objs w p = Some ob" "unsettled em ob"
    and em: "objs w em = Some oe" "waiting n oe" and ne: "p \<noteq> em" and fuel: "e_fuel E \<noteq> 0"
    and v: "wt_value v" "v \<noteq> V_nil" "copy_room ext wext (refs_of v) (weak_refs_of v) w"
    and room: "count_room (length (refs_of v) + 1) w" and k: "k = ''___resolved'' \<or> k = ''___rejected''"
  shows "\<exists>w' ob' oe'. mbind (di_member_clone E p k v) (\<lambda>_. di_promise_start_dispatch E p) w = Ret () w' \<and>
    heap_ok {} ext wext w' \<and> objs w' p = Some ob' \<and> members ob' = settled_as k (copied v) (members ob) \<and>
    objs w' em = Some oe' \<and> members oe' = members (queued p n oe)"
proof -
  note un = p(2) [unfolded unsettled_def]
  have "hash_find k (members ob) = None" using un k by auto
  then obtain w1 ob1 where w1: "di_add_member_clone E p (Some k) v w = Ret 0 (with_member p k (copied v) ob1 w1)"
      "same_shape w w1" "objs w1 p = Some ob1" "ref_count ob1 \<noteq> 0" "members ob1 = members ob"
      "heap_ok {} ext wext (with_member p k (copied v) ob1 w1)"
    using add_member_clone_shape [OF ok p(1) _ _ v] un by blast
  let ?w2 = "with_member p k (copied v) ob1 w1" and ?ob2 = "ob1\<lparr>members := hash_add k (copied v) (members ob1)\<rparr>"
  have "unat (ref_count oe) + length (refs_of (copied v)) + 1 < 2 ^ 64" using room em(1) by (simp add: count_room_def)
  then obtain oe1 where oe1: "objs w1 em = Some oe1" "waiting n oe1" "members oe1 = members oe"
    using copied_world_waiting [OF ok em w1(2) _ w1(3,6) ne] by blast
  have p2: "objs ?w2 p = Some ?ob2" and em2: "objs ?w2 em = Some oe1" using oe1 ne by (simp_all add: with_member_def)
  have m2: "hash_find ''is_pending'' (members ?ob2) = None"
      "hash_find ''___weak_event_module'' (members ?ob2) = Some (V_weak_object em)"
    using un k w1(5) \<open>hash_find k (members ob) = None\<close> by (auto simp: hash_find_add)
  obtain w' where w': "di_promise_start_dispatch E p ?w2 = Ret () w'"
      "objs w' = (objs ?w2)(p \<mapsto> pending_promise ?ob2, em \<mapsto> queued p n oe1)"
      "unreferred_objects w' = unreferred_objects (candidate em ?w2)" "isolated_roots w' = isolated_roots ?w2"
    using start_dispatch_queues [OF p2 m2 em2 oe1(2) ne fuel] by blast
  have "heap_ok {} ext wext w'"
  proof (rule queueing_keeps_counts [OF w1(6) p2 _ _ m2(1) em2 oe1(2) ne w'(2-4)])
    have "unat (ref_count ob1) = unat (ref_count ob) + count_list (refs_of (copied v)) p"
      using with_member_counts(1) [OF w1(2) _ w1(3), of k "copied v" p] heap_okD(4) [OF ok p(1), unfolded obj_ok_def]
        heap_okD(4) [OF w1(6) p2, unfolded obj_ok_def] heap_okD(1) [OF ok] w1(2) by (simp add: same_shape_def)
    then show "unat (ref_count ?ob2) + 1 < 2 ^ 64"
      using room p(1) count_list_le [of "refs_of v" p] by (fastforce simp: count_room_def)
  qed (use w1(4) in simp)
  moreover have "mbind (di_member_clone E p k v) (\<lambda>_. di_promise_start_dispatch E p) w = Ret () w'"
    using w1(1) w'(1) sizeof_nonzero [OF v(1,2)] k by (auto simp: di_member_clone_def di_string_borrow_def outcome_simps)
  ultimately show ?thesis
    using w'(2) ne w1(5) oe1(3) by (auto simp: pending_promise_def settled_as_def queued_def)
qed

lemma settled_noop:
  assumes "objs w p = Some ob" and "members ob = settled_as k v ms" and "k = ''___resolved'' \<or> k = ''___rejected''"
    and "hash_find k ms = None"
  shows "di_promise_resolve E p v' w = Ret () w" and "di_promise_reject E p e w = Ret () w"
proof -
  have "is_settled p w = Ret True w"
    using assms by (auto simp: is_settled_def mbind_Ret [OF has_member_exact] has_member_exact settled_as_def hash_add_def
        hash_find_append mret_apply split: option.splits)
  then show "di_promise_resolve E p v' w = Ret () w" "di_promise_reject E p e w = Ret () w"
    by (simp_all add: di_promise_resolve_def di_promise_reject_def mbind_Ret mret_apply)
qed

lemma unsettled_exact: "objs w p = Some ob \<Longrightarrow> unsettled em ob \<Longrightarrow> is_settled p w = Ret False w"
  by (simp add: is_settled_def mbind_Ret [OF has_member_exact] has_member_exact unsettled_def)

lemma resolve_plain:
  assumes p: "objs w p = Some ob" "unsettled em ob" and em: "objs w em = Some oe" "waiting n oe" and ne: "p \<noteq> em"
    and fuel: "e_fuel E \<noteq> 0" and v: "plain v"
  shows "\<exists>w'. di_promise_resolve E p v w = Ret () w' \<and>
    objs w' = (objs w)(p \<mapsto> ob\<lparr>ref_count := ref_count ob + 1,
        members := settled_as ''___resolved'' (V_variant (copied v)) (members ob)\<rparr>, em \<mapsto> queued p n oe)"
proof -
  note un = p(2) [unfolded unsettled_def]
  let ?ob = "ob\<lparr>members := hash_add ''___resolved'' (V_variant (copied v)) (members ob)\<rparr>"
  have clone: "di_member_clone E p ''___resolved'' (V_variant v) w = Ret 0 (upd p ?ob w)"
    using add_plain_exact [OF p(1), of "''___resolved''" "V_variant v" E] un v
    by (simp add: di_member_clone_def di_string_borrow_def plain_def)
  have "hash_find ''is_pending'' (members ?ob) = None"
      "hash_find ''___weak_event_module'' (members ?ob) = Some (V_weak_object em)"
    using un by (auto simp: hash_find_add)
  then obtain w' where "di_promise_start_dispatch E p (upd p ?ob w) = Ret () w'"
      "objs w' = (objs (upd p ?ob w))(p \<mapsto> pending_promise ?ob, em \<mapsto> queued p n oe)"
    using start_dispatch_queues [of "upd p ?ob w" p ?ob em oe n E] em ne fuel by auto
  with clone show ?thesis
    by (simp add: di_promise_resolve_def mbind_Ret [where m = "is_settled p" and s = w, OF unsettled_exact [OF p]]
        mbind_Ret pending_promise_def settled_as_def)
qed


section \<open>A concrete promise\<close>

text \<open>An event module (1) with one promise (4) waiting, an unsettled promise (2) and the core object (3).\<close>

definition prm_em :: di_object_internal where
  "prm_em = (di_init_object P_event_module)\<lparr>weak_ref_count := 2,
     members := [(''pending_count'', V_nint 1), (''__deai'', V_object 3), (pending_key 0, V_object 4)]\<rparr>"

definition prm_obj :: di_object_internal where
  "prm_obj = (di_init_object P_object)\<lparr>members := [(''___weak_event_module'', V_weak_object 1)]\<rparr>"

definition prm_heap :: heap where
  "prm_heap = [1 \<mapsto> prm_em, 2 \<mapsto> prm_obj, 3 \<mapsto> di_init_object P_object, 4 \<mapsto> di_init_object P_object]"

definition prm_world :: world where
  "prm_world = empty_world\<lparr>objs := prm_heap, next_addr := 5\<rparr>"

definition prm_ext :: "addr \<Rightarrow> nat" where
  "prm_ext a = (if a = 1 \<or> a = 2 then 1 else 0)"

lemma prm_dom: "dom prm_heap = {1, 2, 3, 4}"
  by (auto simp: prm_heap_def)

lemmas prm_defs = prm_heap_def prm_em_def prm_obj_def di_init_object_def

lemma prm_counts: "strong_in prm_heap a = count_list [3, 4] a" "weak_in prm_heap a = count_list [1] a"
  unfolding count_in_def prm_dom by (simp_all add: prm_defs obj_refs_def obj_weak_refs_def)

lemma prm_cases:
  assumes "prm_heap a = Some ob"
  obtains "a = 1" "ob = prm_em" | "a = 2" "ob = prm_obj" | "a = 3" "ob = di_init_object P_object" | "a = 4" "ob = di_init_object P_object"
  using assms unfolding prm_heap_def by (auto split: if_splits)

lemma pending_key_small: "pending_key 0 = ''pending_promise_0''" "pending_key 1 = ''pending_promise_1''"
  by (simp_all add: pending_key_def int_string_def digit_char_def dec_string.simps [of 0] dec_string.simps [of "Suc 0"] char_of_def bit_0)

lemma prm_heap_ok: "heap_ok {} prm_ext (\<lambda>_. 0) prm_world"
  unfolding heap_ok_def
proof (intro conjI allI impI)
  fix a ob assume "objs prm_world a = Some ob"
  then have "prm_heap a = Some ob" by (simp add: prm_world_def)
  then show "obj_ok {} prm_ext (\<lambda>_. 0) (objs prm_world) a ob"
    by (cases rule: prm_cases)
      (simp_all add: obj_ok_def prm_world_def prm_counts prm_ext_def prm_em_def prm_obj_def di_init_object_def pending_key_small)
next
  fix a assume "objs prm_world a = None"
  then have "a \<notin> {1, 2, 3, 4}" using prm_dom by (auto simp: prm_world_def)
  then show "strong_in (objs prm_world) a + prm_ext a = 0" "weak_in (objs prm_world) a + 0 = 0"
    by (simp_all add: prm_world_def prm_counts prm_ext_def)
qed (simp_all add: prm_world_def prm_dom lists_ok_def empty_world_def)


end
