(* ===== verification/Deai_Dbus_Props.thy ===== *)
theory Deai_Dbus_Props
  imports Deai_Dbus_Filter Deai_Promise_Props Deai_Sedes_Props
begin

text \<open>
  Properties of the D-Bus plugin: what a subscription leaves behind, and what the rules of the bus are made of.
\<close>

section \<open>Match rules\<close>

text \<open>A rule with an interface never equals one without.\<close>

lemma match_rules_differ:
  assumes "str_length i \<noteq> 0"
  shows "to_dbus_match_rule p i s \<noteq> to_dbus_match_rule p None s"
proof -
  have "length (to_dbus_match_rule p None s) < length (to_dbus_match_rule p i s)"
    using assms by (simp add: to_dbus_match_rule_def quoted_def)
  then show ?thesis by auto
qed

section \<open>Subscribing and unsubscribing\<close>

text \<open>Objects that the running code holds: dropping one reference of several does not end them.\<close>

definition held :: "di_object_internal \<Rightarrow> bool" where
  "held ob \<longleftrightarrow> \<not> destroyed ob \<and> mark ob = 0 \<and> ref_count ob \<noteq> 0 \<and> ref_count ob \<noteq> - 1"

definition proxy_of :: "addr \<Rightarrow> string \<Rightarrow> string \<Rightarrow> di_object_internal \<Rightarrow> bool" where
  "proxy_of c path iface ob \<longleftrightarrow>
     hash_find ''___object_path'' (members ob) = Some (V_string (Some path)) \<and>
     hash_find ''___interface'' (members ob) = Some (V_string (Some iface)) \<and>
     hash_find ''___deai_dbus_connection'' (members ob) = Some (V_object c)"

definition signal_key :: "string \<Rightarrow> string" where
  "signal_key s = ''__signal_'' @ s"

lemma signal_key_facts:
  "di_string_starts_with (Some (signal_key s)) ''__signal_''" "di_suffix (Some (signal_key s)) (Suc (Suc (Suc (Suc (Suc (Suc (Suc (Suc (Suc 0))))))))) = (if s = [] then None else Some s)"
  "signal_key s \<noteq> ''___object_path''" "signal_key s \<noteq> ''___interface''" "signal_key s \<noteq> ''___deai_dbus_connection''"
  "str_bytes (Some x) = x"
  by (simp_all add: signal_key_def starts_with_prefix di_suffix_def str_bytes_def DI_STRING_INIT_def)

definition keep_alive_key :: "addr \<Rightarrow> string \<Rightarrow> string" where
  "keep_alive_key d s = str_bytes (keep_alive_name d (Some s))"

lemma keep_alive_fold: "keep_alive_name d (Some s) = Some (keep_alive_key d s)"
  by (simp add: keep_alive_key_def keep_alive_name_def str_bytes_def)

lemma new_signal_exact:
  assumes d: "objs w d = Some od" "proxy_of c path iface od" "hash_find (signal_key s) (members od) = None"
    and c: "objs w c = Some oc" "payload oc = P_dbus_connection (Some conn) n" "0 < n"
      "hash_find (keep_alive_key d s) (members oc) = None"
    and sig: "objs w sig = Some os" and ne: "d \<noteq> c" "d \<noteq> sig" "c \<noteq> sig" and s: "s \<noteq> []"
  shows "di_dbus_object_new_signal E H d (Some (signal_key s)) sig w =
    Ret () (w\<lparr>objs := (objs w)(
        d \<mapsto> od\<lparr>members := hash_add (signal_key s) (V_object sig) (members od), ref_count := ref_count od + 1\<rparr>,
        sig \<mapsto> os\<lparr>ref_count := ref_count os + 1\<rparr>,
        c \<mapsto> oc\<lparr>payload := P_dbus_connection (Some conn) (n + 1),
               members := hash_add (keep_alive_key d s) (V_object d) (members oc)\<rparr>),
      effects := effects w @ [Dbus_add_match (to_dbus_match_rule (Some path) (Some iface) (Some s))]\<rparr>)"
  using assms
  by (simp add: di_dbus_object_new_signal_def borrow_connection_def signal_key_facts proxy_of_def di_string_borrow_def exact
      get_conn_def set_conn_def di_dbus_nsignal_inc_def emit_effect_def ignore_rc_def check_ok_def keep_alive_fold Let_def fun_upd_twist
      outcome_simps heap_simps)

lemma split_once_none: "CHR ''.'' \<notin> set s \<Longrightarrow> di_string_split_once (Some s) (CHR ''.'') = None"
  by (simp add: di_string_split_once_def memchr_None [THEN iffD2] str_bytes_def)

lemma candidate_effects [simp]: "effects (candidate a w) = effects w"
  by (simp add: candidate_def)

lemma proxy_of_del:
  "distinct (hash_keys (members ob)) \<Longrightarrow> proxy_of c path iface ob \<Longrightarrow> proxy_of c path iface (ob\<lparr>members := hash_del (signal_key s) (members ob)\<rparr>)"
  using signal_key_facts(3-5) [of s] by (auto simp: proxy_of_def hash_find_del)

lemma del_signal_exact:
  assumes d: "objs w d = Some od" "proxy_of c path iface od" "distinct (hash_keys (members od))"
      "hash_find (signal_key s) (members od) = Some (V_object sig)" "\<not> destroyed od" "mark od = 0" "1 < ref_count od"
    and c: "objs w c = Some oc" "payload oc = P_dbus_connection (Some conn) n" "1 < n" "held oc"
      "hash_find (keep_alive_key d s) (members oc) = Some (V_object d)"
    and sig: "objs w sig = Some os" "\<not> destroyed os" "mark os = 0" "1 < ref_count os"
    and ne: "d \<noteq> c" "d \<noteq> sig" "c \<noteq> sig" and s: "s \<noteq> []" "CHR ''.'' \<notin> set s" and fuel: "e_fuel E \<noteq> 0"
  shows "\<exists>w'. di_dbus_object_del_signal E H d (Some (signal_key s)) w = Ret () w' \<and>
    objs w' = (objs w)(
        d \<mapsto> od\<lparr>members := hash_del (signal_key s) (members od), ref_count := ref_count od - 1\<rparr>,
        sig \<mapsto> os\<lparr>ref_count := ref_count os - 1\<rparr>,
        c \<mapsto> oc\<lparr>payload := P_dbus_connection (Some conn) (n - 1), members := hash_del (keep_alive_key d s) (members oc)\<rparr>) \<and>
    effects w' = effects w @ [Dbus_remove_match (to_dbus_match_rule (Some path) None (Some s))]"
proof -
  note pr = proxy_of_del [OF d(3,2), of s, unfolded proxy_of_def, simplified]
  have "1 < ref_count oc + 1" using c(4) one_less_plus_one by (simp add: held_def)
  then show ?thesis
    using assms pr c(4) [unfolded held_def]
    by (auto simp: di_dbus_object_del_signal_def signal_key_facts di_string_borrow_def exact scoped_object_def mscoped_def
      split_once_none get_conn_def set_conn_def di_dbus_nsignal_dec_def emit_effect_def check_ok_def keep_alive_fold
      DI_STRING_INIT_def Let_def fun_upd_twist outcome_simps heap_simps)
qed


section \<open>A concrete subscription\<close>

text \<open>A proxy (1), its connection (2) with one request in flight, and a signal object (3).\<close>

definition sub_proxy :: di_object_internal where
  "sub_proxy = (di_init_object P_object)\<lparr>members := [(''___object_path'', V_string (Some ''/a'')),
     (''___interface'', V_string (Some ''org.a'')), (''___deai_dbus_connection'', V_object 2)]\<rparr>"

definition sub_conn :: di_object_internal where
  "sub_conn = (di_init_object (P_dbus_connection (Some 7) 1))\<lparr>ref_count := 2\<rparr>"

definition sub_world :: world where
  "sub_world = empty_world\<lparr>objs := [1 \<mapsto> sub_proxy, 2 \<mapsto> sub_conn, 3 \<mapsto> di_init_object P_object], next_addr := 4\<rparr>"

definition idle_host :: dbus_host where
  "idle_host = \<lparr>dh_watch_flags = (\<lambda>_. 0), dh_watch_enabled = (\<lambda>_. False), dh_watch_fd = (\<lambda>_. 3), dh_watches = (\<lambda>_. []),
     dh_dispatch = (\<lambda>_. mret ()), dh_message_ok = (\<lambda>_. True), dh_send = (\<lambda>_ _. None), dh_valid = (\<lambda>_. True),
     dh_basic = (\<lambda>_. True), dh_ok = (\<lambda>_ _. True), dh_junk = 0, dh_session_bus = Inr 7, dh_open = (\<lambda>_. Inr 7)\<rparr>"


section \<open>Replies\<close>

definition request_key :: "u32 \<Rightarrow> string" where
  "request_key serial = str_bytes (promise_key (uint serial))"

lemma promise_key_fold: "promise_key (uint serial) = Some (request_key serial)"
  by (simp add: request_key_def promise_key_def str_bytes_def)

text \<open>The value a promise gets: the only value of the message, or all of them as a tuple.\<close>

definition reply_value :: "di_tuple \<Rightarrow> di_variant" where
  "reply_value t = (case t of [v] \<Rightarrow> v | _ \<Rightarrow> V_tuple t)"

lemma plain_reply: "plain (V_tuple t) \<Longrightarrow> plain (reply_value t)"
  by (auto simp: reply_value_def plain_list split: list.splits)


text \<open>The promise of \<^verbatim>\<open>Deai_Promise_Props\<close>, waited for by a connection (5) with two requests; the reply is a string.\<close>

definition reply_conn :: di_object_internal where
  "reply_conn = (di_init_object (P_dbus_connection (Some 7) 2))\<lparr>members := [(request_key 9, V_object 2)]\<rparr>"

definition reply_world :: world where
  "reply_world = empty_world\<lparr>objs := prm_heap(5 \<mapsto> reply_conn), next_addr := 6\<rparr>"

definition reply_message :: dbus_message where
  "reply_message = \<lparr>m_type = 2, m_member = None, m_sender = Some '':1.4'', m_path = None, m_interface = None, m_reply_serial = 9\<rparr>"


end
