(* ===== verification/Deai_Uthash.thy ===== *)
theory Deai_Uthash
  imports Deai_Prelude "HOL-Library.Word"
begin

unbundle bit_operations_syntax

text \<open>
  The hash tables of \<^verbatim>\<open>uthash.h\<close>, on the memory of the handles that are embedded in the elements: a doubly linked list in
  the order of insertion, and for each bucket a doubly linked chain.  The macros that deai uses are
  modelled, with failing allocation left out (it exits the program).  The table of a hash is reached from its head; pointers to
  an element and to its handle are one address.  A handle has the bytes of its key, which a program must not change while the element is
  in a table.  The pointers of a deleted handle are read once, before its neighbours are written; it is not its own neighbour.
\<close>

type_synonym hu32 = "32 word"

record UT_hash_handle =
  hh_app_prev :: "nat option"
  hh_app_next :: "nat option"
  hh_prev :: "nat option"
  hh_next :: "nat option"
  hh_key :: "char list"
  hh_keylen :: hu32
  hh_hashv :: hu32

record UT_hash_bucket =
  hh_head :: "nat option"
  bkt_count :: hu32
  expand_mult :: hu32

record UT_hash_table =
  buckets :: "UT_hash_bucket list"
  num_buckets :: hu32
  log2_num_buckets :: hu32
  num_items :: hu32
  tail :: nat
  ideal_chain_maxlen :: hu32
  nonideal_items :: hu32
  ineff_expands :: hu32
  noexpand :: bool

record uthash =
  ut_head :: "nat option"
  ut_tbl :: "UT_hash_table option"
  ut_mem :: "nat \<rightharpoonup> UT_hash_handle"

type_synonym 'a U = "uthash \<Rightarrow> (uthash, 'a) outcome"

section \<open>Memory\<close>

definition get_hh :: "nat \<Rightarrow> UT_hash_handle U" where
  "get_hh a s = (case ut_mem s a of None \<Rightarrow> Crash Use_after_free | Some h \<Rightarrow> Ret h s)"

definition upd_hh :: "nat \<Rightarrow> (UT_hash_handle \<Rightarrow> UT_hash_handle) \<Rightarrow> unit U" where
  "upd_hh a f = mbind (get_hh a) (\<lambda>h s. Ret () (s\<lparr>ut_mem := (ut_mem s)(a \<mapsto> f h)\<rparr>))"

text \<open>An assignment through a pointer that may be null and was tested before.\<close>

definition upd_hh_opt :: "nat option \<Rightarrow> (UT_hash_handle \<Rightarrow> UT_hash_handle) \<Rightarrow> unit U" where
  "upd_hh_opt p f = (case p of None \<Rightarrow> mret () | Some a \<Rightarrow> upd_hh a f)"

definition get_tbl :: "UT_hash_table U" where
  "get_tbl s = (case ut_tbl s of None \<Rightarrow> Crash Null_deref | Some t \<Rightarrow> Ret t s)"

definition upd_tbl :: "(UT_hash_table \<Rightarrow> UT_hash_table) \<Rightarrow> unit U" where
  "upd_tbl f = mbind get_tbl (\<lambda>t s. Ret () (s\<lparr>ut_tbl := Some (f t)\<rparr>))"

definition free_tbl :: "unit U" where
  "free_tbl = mmodify (\<lambda>s. s\<lparr>ut_tbl := None\<rparr>)"

definition set_head :: "nat option \<Rightarrow> unit U" where
  "set_head p = mmodify (\<lambda>s. s\<lparr>ut_head := p\<rparr>)"

section \<open>The hash function\<close>

definition byte_at :: "char list \<Rightarrow> nat \<Rightarrow> hu32" where
  "byte_at k i = of_char (k ! i)"

definition HASH_JEN_MIX :: "hu32 \<Rightarrow> hu32 \<Rightarrow> hu32 \<Rightarrow> hu32 \<times> hu32 \<times> hu32" where
  "HASH_JEN_MIX a b c =
     (let a = (a - b - c) XOR drop_bit 13 c; b = (b - c - a) XOR push_bit 8 a; c = (c - a - b) XOR drop_bit 13 b;
          a = (a - b - c) XOR drop_bit 12 c; b = (b - c - a) XOR push_bit 16 a; c = (c - a - b) XOR drop_bit 5 b;
          a = (a - b - c) XOR drop_bit 3 c; b = (b - c - a) XOR push_bit 10 a; c = (c - a - b) XOR drop_bit 15 b
      in (a, b, c))"

definition word_at :: "char list \<Rightarrow> nat \<Rightarrow> hu32" where
  "word_at k i = byte_at k i + push_bit 8 (byte_at k (i + 1)) + push_bit 16 (byte_at k (i + 2)) + push_bit 24 (byte_at k (i + 3))"

function jen_loop :: "char list \<Rightarrow> hu32 \<Rightarrow> hu32 \<Rightarrow> hu32 \<Rightarrow> char list \<times> hu32 \<times> hu32 \<times> hu32" where
  "jen_loop k i j h =
     (if length k \<ge> 12
      then let (i', j', h') = HASH_JEN_MIX (i + word_at k 0) (j + word_at k 4) (h + word_at k 8)
           in jen_loop (drop 12 k) i' j' h'
      else (k, i, j, h))"
  by pat_completeness auto
termination by (relation "measure (\<lambda>(k, _). length k)") auto

declare jen_loop.simps [simp del]

text \<open>The switch over the bytes that are left: case \<open>n\<close> falls through to the cases below it.\<close>

definition jen_tail :: "char list \<Rightarrow> hu32 \<Rightarrow> hu32 \<Rightarrow> hu32 \<Rightarrow> hu32 \<times> hu32 \<times> hu32" where
  "jen_tail k i j h =
     (let at = (\<lambda>n s. if length k > n then push_bit s (byte_at k n) else 0) in
      (i + at 3 24 + at 2 16 + at 1 8 + at 0 0, j + at 7 24 + at 6 16 + at 5 8 + at 4 0, h + at 10 24 + at 9 16 + at 8 8))"

definition HASH_JEN :: "char list \<Rightarrow> hu32" where
  "HASH_JEN key =
     (let (k, i, j, h) = jen_loop key 0x9e3779b9 0x9e3779b9 0xfeedbeef;
          (i, j, h) = jen_tail k i j (h + of_nat (length key));
          (_, _, h) = HASH_JEN_MIX i j h
      in h)"

section \<open>Buckets\<close>

definition HASH_TO_BKT :: "hu32 \<Rightarrow> hu32 \<Rightarrow> nat" where
  "HASH_TO_BKT hashv num_bkts = unat (hashv AND (num_bkts - 1))"

definition get_bkt :: "nat \<Rightarrow> UT_hash_bucket U" where
  "get_bkt i = mbind get_tbl (\<lambda>t. if i < length (buckets t) then mret (buckets t ! i) else mcrash Out_of_bounds)"

definition upd_bkt :: "nat \<Rightarrow> (UT_hash_bucket \<Rightarrow> UT_hash_bucket) \<Rightarrow> unit U" where
  "upd_bkt i f = mbind (get_bkt i) (\<lambda>b. upd_tbl (\<lambda>t. t\<lparr>buckets := (buckets t)[i := f b]\<rparr>))"

text \<open>The chain is walked with fuel; a chain has at most as many entries as the table has items.\<close>

definition key_matches :: "char list \<Rightarrow> hu32 \<Rightarrow> UT_hash_handle \<Rightarrow> bool" where
  "key_matches key hashv h \<longleftrightarrow> hh_hashv h = hashv \<and> unat (hh_keylen h) = length key \<and> take (length key) (hh_key h) = key"

fun find_in_chain :: "nat \<Rightarrow> char list \<Rightarrow> hu32 \<Rightarrow> nat option \<Rightarrow> nat option U" where
  "find_in_chain 0 key hashv out = mcrash Out_of_fuel"
| "find_in_chain (Suc n) key hashv None = mret None"
| "find_in_chain (Suc n) key hashv (Some a) =
     mbind (get_hh a) (\<lambda>h. if key_matches key hashv h then mret (Some a) else find_in_chain n key hashv (hh_next h))"

definition HASH_FIND_IN_BKT :: "nat \<Rightarrow> char list \<Rightarrow> hu32 \<Rightarrow> nat option U" where
  "HASH_FIND_IN_BKT i key hashv =
     mbind (get_bkt i) (\<lambda>b. mbind get_tbl (\<lambda>t. find_in_chain (Suc (unat (num_items t))) key hashv (hh_head b)))"

definition HASH_FIND :: "(char list \<Rightarrow> hu32) \<Rightarrow> char list \<Rightarrow> nat option U" where
  "HASH_FIND HASH_FCN key =
     mbind (mget ut_head) (\<lambda>head.
     case head of
       None \<Rightarrow> mret None
     | Some _ \<Rightarrow>
         mbind get_tbl (\<lambda>t. HASH_FIND_IN_BKT (HASH_TO_BKT (HASH_FCN key) (num_buckets t)) key (HASH_FCN key)))"

section \<open>Expansion\<close>

text \<open>One item moves to the front of its new chain.\<close>

definition expand_item :: "hu32 \<Rightarrow> hu32 \<Rightarrow> nat \<Rightarrow> UT_hash_bucket list \<Rightarrow> UT_hash_bucket list U" where
  "expand_item num2 ideal thh new =
     mbind (get_hh thh) (\<lambda>h.
     let i = HASH_TO_BKT (hh_hashv h) num2 in
     if \<not> i < length new then mcrash Out_of_bounds
     else
     let b = new ! i; c = bkt_count b + 1;
         m = (if c > ideal \<and> c > expand_mult b * ideal then expand_mult b + 1 else expand_mult b) in
     mseq (if c > ideal then upd_tbl (\<lambda>t. t\<lparr>nonideal_items := nonideal_items t + 1\<rparr>) else mret ())
     (mseq (upd_hh thh (\<lambda>h. h\<lparr>hh_prev := None\<rparr>))
     (mseq (upd_hh thh (\<lambda>h. h\<lparr>hh_next := hh_head b\<rparr>))
     (mseq (upd_hh_opt (hh_head b) (\<lambda>h. h\<lparr>hh_prev := Some thh\<rparr>))
     (mret (new[i := \<lparr>hh_head = Some thh, bkt_count = c, expand_mult = m\<rparr>]))))))"

fun expand_chain :: "nat \<Rightarrow> hu32 \<Rightarrow> hu32 \<Rightarrow> nat option \<Rightarrow> UT_hash_bucket list \<Rightarrow> UT_hash_bucket list U" where
  "expand_chain 0 num2 ideal thh new = mcrash Out_of_fuel"
| "expand_chain (Suc n) num2 ideal None new = mret new"
| "expand_chain (Suc n) num2 ideal (Some a) new =
     mbind (get_hh a) (\<lambda>h.
     let nxt = hh_next h in
     mbind (expand_item num2 ideal a new) (\<lambda>new'. expand_chain n num2 ideal nxt new'))"

fun expand_all :: "nat \<Rightarrow> hu32 \<Rightarrow> hu32 \<Rightarrow> nat option list \<Rightarrow> UT_hash_bucket list \<Rightarrow> UT_hash_bucket list U" where
  "expand_all n num2 ideal [] new = mret new"
| "expand_all n num2 ideal (p # ps) new =
     mbind (expand_chain n num2 ideal p new) (\<lambda>new'. expand_all n num2 ideal ps new')"

definition HASH_EXPAND_BUCKETS :: "unit U" where
  "HASH_EXPAND_BUCKETS =
     mbind get_tbl (\<lambda>t.
     let new = replicate (2 * unat (num_buckets t)) \<lparr>hh_head = None, bkt_count = 0, expand_mult = 0\<rparr>;
         num2 = num_buckets t * 2;
         ideal = drop_bit (unat (log2_num_buckets t + 1)) (num_items t) + (if num_items t AND (num2 - 1) \<noteq> 0 then 1 else 0) in
     mseq (upd_tbl (\<lambda>t. t\<lparr>ideal_chain_maxlen := ideal, nonideal_items := 0\<rparr>))
     (mbind (expand_all (Suc (unat (num_items t))) num2 ideal (map hh_head (take (unat (num_buckets t)) (buckets t))) new) (\<lambda>new.
      upd_tbl (\<lambda>t.
        let ineff = (if nonideal_items t > drop_bit 1 (num_items t) then ineff_expands t + 1 else 0) in
        t\<lparr>num_buckets := num2, log2_num_buckets := log2_num_buckets t + 1, buckets := new,
          ineff_expands := ineff, noexpand := noexpand t \<or> ineff > 1\<rparr>))))"

section \<open>Adding and deleting\<close>

definition HASH_INITIAL_NUM_BUCKETS :: hu32 where "HASH_INITIAL_NUM_BUCKETS = 32"
definition HASH_INITIAL_NUM_BUCKETS_LOG2 :: hu32 where "HASH_INITIAL_NUM_BUCKETS_LOG2 = 5"
definition HASH_BKT_CAPACITY_THRESH :: hu32 where "HASH_BKT_CAPACITY_THRESH = 10"

definition HASH_ADD_TO_BKT :: "nat \<Rightarrow> nat \<Rightarrow> unit U" where
  "HASH_ADD_TO_BKT i addhh =
     mseq (upd_bkt i (\<lambda>b. b\<lparr>bkt_count := bkt_count b + 1\<rparr>))
     (mbind (get_bkt i) (\<lambda>b.
      mseq (upd_hh addhh (\<lambda>h. h\<lparr>hh_next := hh_head b\<rparr>))
      (mseq (upd_hh addhh (\<lambda>h. h\<lparr>hh_prev := None\<rparr>))
      (mseq (upd_hh_opt (hh_head b) (\<lambda>h. h\<lparr>hh_prev := Some addhh\<rparr>))
      (mseq (upd_bkt i (\<lambda>b. b\<lparr>hh_head := Some addhh\<rparr>))
      (mbind get_tbl (\<lambda>t.
       if bkt_count b \<ge> (expand_mult b + 1) * HASH_BKT_CAPACITY_THRESH \<and> \<not> noexpand t
       then HASH_EXPAND_BUCKETS else mret ())))))))"

definition HASH_DEL_IN_BKT :: "nat \<Rightarrow> nat \<Rightarrow> unit U" where
  "HASH_DEL_IN_BKT i delhh =
     mseq (upd_bkt i (\<lambda>b. b\<lparr>bkt_count := bkt_count b - 1\<rparr>))
     (mbind (get_bkt i) (\<lambda>b.
      mbind (get_hh delhh) (\<lambda>d.
      mseq (if hh_head b = Some delhh then upd_bkt i (\<lambda>b. b\<lparr>hh_head := hh_next d\<rparr>) else mret ())
      (mseq (upd_hh_opt (hh_prev d) (\<lambda>h. h\<lparr>hh_next := hh_next d\<rparr>))
      (upd_hh_opt (hh_next d) (\<lambda>h. h\<lparr>hh_prev := hh_prev d\<rparr>))))))"

definition HASH_MAKE_TABLE :: "nat \<Rightarrow> unit U" where
  "HASH_MAKE_TABLE a =
     mmodify (\<lambda>s. s\<lparr>ut_tbl := Some
       \<lparr>buckets = replicate (unat HASH_INITIAL_NUM_BUCKETS) \<lparr>hh_head = None, bkt_count = 0, expand_mult = 0\<rparr>,
        num_buckets = HASH_INITIAL_NUM_BUCKETS, log2_num_buckets = HASH_INITIAL_NUM_BUCKETS_LOG2, num_items = 0, tail = a,
        ideal_chain_maxlen = 0, nonideal_items = 0, ineff_expands = 0, noexpand = False\<rparr>\<rparr>)"

definition HASH_APPEND_LIST :: "nat \<Rightarrow> unit U" where
  "HASH_APPEND_LIST a =
     mseq (upd_hh a (\<lambda>h. h\<lparr>hh_app_next := None\<rparr>))
     (mbind get_tbl (\<lambda>t.
      mseq (upd_hh a (\<lambda>h. h\<lparr>hh_app_prev := Some (tail t)\<rparr>))
      (mseq (upd_hh (tail t) (\<lambda>h. h\<lparr>hh_app_next := Some a\<rparr>))
      (upd_tbl (\<lambda>t. t\<lparr>tail := a\<rparr>)))))"

definition HASH_ADD_TO_TABLE :: "hu32 \<Rightarrow> nat \<Rightarrow> unit U" where
  "HASH_ADD_TO_TABLE hashv a =
     mseq (upd_tbl (\<lambda>t. t\<lparr>num_items := num_items t + 1\<rparr>))
     (mbind get_tbl (\<lambda>t. HASH_ADD_TO_BKT (HASH_TO_BKT hashv (num_buckets t)) a))"

definition HASH_ADD_KEYPTR_BYHASHVALUE :: "char list \<Rightarrow> hu32 \<Rightarrow> nat \<Rightarrow> unit U" where
  "HASH_ADD_KEYPTR_BYHASHVALUE key hashv a =
     mseq (upd_hh a (\<lambda>h. h\<lparr>hh_hashv := hashv, hh_key := key, hh_keylen := of_nat (length key)\<rparr>))
     (mbind (mget ut_head) (\<lambda>head.
      mseq (case head of
              None \<Rightarrow>
                mseq (upd_hh a (\<lambda>h. h\<lparr>hh_app_next := None, hh_app_prev := None\<rparr>))
                (mseq (HASH_MAKE_TABLE a) (set_head (Some a)))
            | Some _ \<Rightarrow> HASH_APPEND_LIST a)
      (HASH_ADD_TO_TABLE hashv a)))"

definition HASH_ADD_KEYPTR :: "(char list \<Rightarrow> hu32) \<Rightarrow> char list \<Rightarrow> nat \<Rightarrow> unit U" where
  "HASH_ADD_KEYPTR HASH_FCN key a = HASH_ADD_KEYPTR_BYHASHVALUE key (HASH_FCN key) a"

definition HASH_DELETE :: "nat \<Rightarrow> unit U" where
  "HASH_DELETE a =
     mbind (get_hh a) (\<lambda>d.
     if hh_app_prev d = None \<and> hh_app_next d = None
     then mbind get_tbl (\<lambda>_. mseq free_tbl (set_head None))
     else
     mbind get_tbl (\<lambda>t.
     mseq (if a = tail t
           then (case hh_app_prev d of None \<Rightarrow> mcrash Null_deref | Some p \<Rightarrow> upd_tbl (\<lambda>t. t\<lparr>tail := p\<rparr>))
           else mret ())
     (mseq (case hh_app_prev d of
              Some p \<Rightarrow> upd_hh p (\<lambda>h. h\<lparr>hh_app_next := hh_app_next d\<rparr>)
            | None \<Rightarrow> set_head (hh_app_next d))
     (mseq (upd_hh_opt (hh_app_next d) (\<lambda>h. h\<lparr>hh_app_prev := hh_app_prev d\<rparr>))
     (mseq (HASH_DEL_IN_BKT (HASH_TO_BKT (hh_hashv d) (num_buckets t)) a)
     (upd_tbl (\<lambda>t. t\<lparr>num_items := num_items t - 1\<rparr>)))))))"

section \<open>Iterating\<close>

text \<open>\<^verbatim>\<open>HASH_ITER\<close> without changes by its body: the elements in the order it visits them.\<close>

fun iter_loop :: "nat \<Rightarrow> nat option \<Rightarrow> nat list U" where
  "iter_loop 0 p = mcrash Out_of_fuel"
| "iter_loop (Suc n) None = mret []"
| "iter_loop (Suc n) (Some a) =
     mbind (get_hh a) (\<lambda>h. mbind (iter_loop n (hh_app_next h)) (\<lambda>as. mret (a # as)))"

definition HASH_CNT :: "hu32 U" where
  "HASH_CNT = mbind (mget ut_head) (\<lambda>head. case head of None \<Rightarrow> mret 0 | Some _ \<Rightarrow> mbind get_tbl (\<lambda>t. mret (num_items t)))"

definition HASH_ITER :: "nat list U" where
  "HASH_ITER = mbind HASH_CNT (\<lambda>n. mbind (mget ut_head) (\<lambda>head. iter_loop (Suc (unat n)) head))"

end
