(* ===== verification/Deai_Refine.thy ===== *)
theory Deai_Refine
  imports Deai_Prelude
begin

text \<open>
  Sequences of operations that refine an abstract state: each step has a precondition on the state and the abstract value, and
  takes related ones to related ones.
\<close>

fun run_steps :: "('op \<Rightarrow> 's \<Rightarrow> ('s, unit) outcome) \<Rightarrow> 'op list \<Rightarrow> 's \<Rightarrow> ('s, unit) outcome" where
  "run_steps step [] = mret ()"
| "run_steps step (x # xs) = mseq (step x) (run_steps step xs)"

text \<open>Every step is one its precondition allows, at the state and the specification's value it is taken from.\<close>

fun steps_allowed :: "('op \<Rightarrow> 's \<Rightarrow> ('s, unit) outcome) \<Rightarrow> ('op \<Rightarrow> 'e \<Rightarrow> 'e) \<Rightarrow> ('op \<Rightarrow> 's \<Rightarrow> 'e \<Rightarrow> bool) \<Rightarrow> 'op list \<Rightarrow> 's \<Rightarrow> 'e \<Rightarrow> bool" where
  "steps_allowed step spec pre [] s e = True"
| "steps_allowed step spec pre (x # xs) s e =
     (pre x s e \<and> (case step x s of Ret _ s' \<Rightarrow> steps_allowed step spec pre xs s' (spec x e) | _ \<Rightarrow> True))"

locale step_refinement =
  fixes rep :: "'s \<Rightarrow> 'e \<Rightarrow> bool" and step :: "'op \<Rightarrow> 's \<Rightarrow> ('s, unit) outcome" and spec :: "'op \<Rightarrow> 'e \<Rightarrow> 'e"
    and pre :: "'op \<Rightarrow> 's \<Rightarrow> 'e \<Rightarrow> bool"
  assumes step_refines: "rep s e \<Longrightarrow> pre x s e \<Longrightarrow> \<exists>s'. step x s = Ret () s' \<and> rep s' (spec x e)"
begin

lemma steps_refine: "rep s e \<Longrightarrow> steps_allowed step spec pre xs s e \<Longrightarrow> \<exists>s'. run_steps step xs s = Ret () s' \<and> rep s' (fold spec xs e)"
proof (induction xs arbitrary: s e)
  case (Cons x xs)
  from Cons.prems step_refines [of s e x] obtain s1 where s1: "step x s = Ret () s1" "rep s1 (spec x e)" by auto
  with Cons.prems have "steps_allowed step spec pre xs s1 (spec x e)" by simp
  from Cons.IH [OF s1(2) this] s1(1) show ?case by (auto simp: outcome_simps)
qed (simp add: outcome_simps)

end

end
