(* ===== verification/Deai_Uthash_Props.thy ===== *)
theory Deai_Uthash_Props
  imports Deai_Uthash Deai_Refine
begin

text \<open>
  The hash tables of \<^verbatim>\<open>uthash.h\<close> refine association lists: whatever the hash function and however the buckets are expanded, finding,
  adding, deleting and iterating are what they are on the list of entries in the order of insertion.
\<close>

section \<open>Doubly linked lists that end in null pointers\<close>

definition first_or :: "'a list \<Rightarrow> 'a option \<Rightarrow> 'a option" where
  "first_or xs e = (case xs of [] \<Rightarrow> e | x # _ \<Rightarrow> Some x)"

definition last_or :: "'a list \<Rightarrow> 'a option \<Rightarrow> 'a option" where
  "last_or xs q = (if xs = [] then q else Some (last xs))"

lemma first_or_simps [simp]: "first_or [] e = e" "first_or (x # xs) e = Some x"
  by (simp_all add: first_or_def)

lemma first_or_append [simp]: "first_or (xs @ ys) e = first_or xs (first_or ys e)"
  by (cases xs) simp_all

lemma last_or_simps [simp]: "last_or [] q = q" "last_or (x # xs) q = last_or xs (Some x)" "last_or (xs @ [y]) q = Some y"
  by (simp_all add: last_or_def)

lemma first_or_mem: "first_or xs None = Some x \<Longrightarrow> x \<in> set xs"
  by (cases xs) auto

lemma last_or_mem: "last_or xs None = Some x \<Longrightarrow> x \<in> set xs"
  by (auto simp: last_or_def split: if_splits)

fun lseg :: "('a \<Rightarrow> 'a option) \<Rightarrow> ('a \<Rightarrow> 'a option) \<Rightarrow> 'a option \<Rightarrow> 'a list \<Rightarrow> 'a option \<Rightarrow> bool" where
  "lseg N P q [] e = True"
| "lseg N P q (x # xs) e = (P x = q \<and> N x = first_or xs e \<and> lseg N P (Some x) xs e)"

lemma lseg_append: "lseg N P q (xs @ ys) e \<longleftrightarrow> lseg N P q xs (first_or ys e) \<and> lseg N P (last_or xs q) ys e"
  by (induction xs arbitrary: q) auto

lemma lseg_cong: "(\<And>x. x \<in> set xs \<Longrightarrow> N' x = N x \<and> P' x = P x) \<Longrightarrow> lseg N' P' q xs e = lseg N P q xs e"
  by (induction xs arbitrary: q) auto

lemma lseg_new_end:
  assumes "lseg N P q xs e" and "distinct xs" and "\<And>x. x \<in> set xs \<Longrightarrow> P' x = P x \<and> N' x = (if Some x = last_or xs None then e' else N x)"
  shows "lseg N' P' q xs e'"
  using assms
proof (cases xs rule: rev_cases)
  case (snoc ys y)
  then have "\<And>x. x \<in> set ys \<Longrightarrow> N' x = N x \<and> P' x = P x" "lseg N P q ys (Some y)"
    using assms by (auto simp: lseg_append)
  then have "lseg N' P' q ys (Some y)" using lseg_cong [of ys N' N P' P] by blast
  with snoc assms show ?thesis by (auto simp: lseg_append)
qed simp

lemma lseg_new_start:
  assumes "lseg N P q xs e" and "distinct xs" and "\<And>x. x \<in> set xs \<Longrightarrow> N' x = N x \<and> P' x = (if Some x = first_or xs None then q' else P x)"
  shows "lseg N' P' q' xs e"
proof (cases xs)
  case (Cons y ys)
  then have "\<And>x. x \<in> set ys \<Longrightarrow> N' x = N x \<and> P' x = P x" "lseg N P (Some y) ys e"
    using assms by auto
  then have "lseg N' P' (Some y) ys e" using lseg_cong [of ys N' N P' P] by blast
  with Cons assms show ?thesis by auto
qed simp

lemma lseg_push:
  assumes "lseg N P None xs None" and "distinct xs" and "N' a = first_or xs None" and "P' a = None"
    and "\<And>x. x \<in> set xs \<Longrightarrow> N' x = N x \<and> P' x = (if Some x = first_or xs None then Some a else P x)"
  shows "lseg N' P' None (a # xs) None"
  using assms lseg_new_start [OF assms(1,2), of N' P' "Some a"] by simp

lemma lseg_snoc:
  assumes "lseg N P None xs None" and "distinct xs" and "N' a = None" and "P' a = last_or xs None"
    and "\<And>x. x \<in> set xs \<Longrightarrow> P' x = P x \<and> N' x = (if Some x = last_or xs None then Some a else N x)"
  shows "lseg N' P' None (xs @ [a]) None"
  using assms lseg_new_end [OF assms(1,2), of P' N' "Some a"] by (simp add: lseg_append)

lemma lseg_unlink:
  assumes seg: "lseg N P None (ys @ a # zs) None" and dist: "distinct (ys @ a # zs)"
    and upd: "\<And>x. x \<in> set (ys @ zs) \<Longrightarrow> N' x = (if P a = Some x then N a else N x) \<and> P' x = (if N a = Some x then P a else P x)"
  shows "lseg N' P' None (ys @ zs) None"
proof -
  have a: "P a = last_or ys None" "N a = first_or zs None" and y: "lseg N P None ys (Some a)" and z: "lseg N P (Some a) zs None"
    using seg by (simp_all add: lseg_append)
  have "lseg N' P' None ys (first_or zs None)"
    by (rule lseg_new_end [OF y]) (use dist a upd first_or_mem in fastforce)+
  moreover have "lseg N' P' (last_or ys None) zs None"
    by (rule lseg_new_start [OF z]) (use dist a upd last_or_mem in fastforce)+
  ultimately show ?thesis by (simp add: lseg_append)
qed

lemma lseg_neighbours:
  assumes "lseg N P None xs None" and "a \<in> set xs"
  shows "\<And>b. N a = Some b \<Longrightarrow> b \<in> set xs" and "\<And>b. P a = Some b \<Longrightarrow> b \<in> set xs"
proof -
  from assms(2) obtain ys zs where "xs = ys @ a # zs" by (auto simp: in_set_conv_decomp)
  with assms(1) have "P a = last_or ys None" "N a = first_or zs None" "xs = ys @ a # zs" by (simp_all add: lseg_append)
  then show "\<And>b. N a = Some b \<Longrightarrow> b \<in> set xs" "\<And>b. P a = Some b \<Longrightarrow> b \<in> set xs"
    using first_or_mem last_or_mem by fastforce+
qed

section \<open>Memory\<close>

named_theorems ut_simps \<open>evaluation of the memory operations\<close>

lemma get_hh_Ret [ut_simps]: "ut_mem s a = Some h \<Longrightarrow> get_hh a s = Ret h s"
  by (simp add: get_hh_def)

lemma upd_hh_Ret [ut_simps]: "ut_mem s a = Some h \<Longrightarrow> upd_hh a f s = Ret () (s\<lparr>ut_mem := (ut_mem s)(a \<mapsto> f h)\<rparr>)"
  by (simp add: upd_hh_def mbind_Ret [OF get_hh_Ret])

lemma get_tbl_Ret [ut_simps]: "ut_tbl s = Some t \<Longrightarrow> get_tbl s = Ret t s"
  by (simp add: get_tbl_def)

lemma upd_tbl_Ret [ut_simps]: "ut_tbl s = Some t \<Longrightarrow> upd_tbl f s = Ret () (s\<lparr>ut_tbl := Some (f t)\<rparr>)"
  by (simp add: upd_tbl_def mbind_Ret [OF get_tbl_Ret])

lemma get_bkt_Ret [ut_simps]: "ut_tbl s = Some t \<Longrightarrow> i < length (buckets t) \<Longrightarrow> get_bkt i s = Ret (buckets t ! i) s"
  by (simp add: get_bkt_def mbind_Ret [OF get_tbl_Ret] mret_apply)

lemma upd_bkt_Ret [ut_simps]:
  "ut_tbl s = Some t \<Longrightarrow> i < length (buckets t) \<Longrightarrow>
   upd_bkt i f s = Ret () (s\<lparr>ut_tbl := Some (t\<lparr>buckets := (buckets t)[i := f (buckets t ! i)]\<rparr>)\<rparr>)"
  by (simp add: upd_bkt_def mbind_Ret [OF get_bkt_Ret] upd_tbl_Ret)

lemma upd_hh_opt_simps [ut_simps]:
  "upd_hh_opt None f = mret ()" "upd_hh_opt (Some a) f = upd_hh a f"
  by (simp_all add: upd_hh_opt_def)

abbreviation nx :: "uthash \<Rightarrow> nat \<Rightarrow> nat option" where "nx s a \<equiv> hh_next (the (ut_mem s a))"
abbreviation pv :: "uthash \<Rightarrow> nat \<Rightarrow> nat option" where "pv s a \<equiv> hh_prev (the (ut_mem s a))"
abbreviation anx :: "uthash \<Rightarrow> nat \<Rightarrow> nat option" where "anx s a \<equiv> hh_app_next (the (ut_mem s a))"
abbreviation apv :: "uthash \<Rightarrow> nat \<Rightarrow> nat option" where "apv s a \<equiv> hh_app_prev (the (ut_mem s a))"

text \<open>What operations on buckets leave alone.\<close>

definition core :: "UT_hash_handle \<Rightarrow> nat option \<times> nat option \<times> char list \<times> hu32 \<times> hu32" where
  "core h = (hh_app_prev h, hh_app_next h, hh_key h, hh_keylen h, hh_hashv h)"

definition same_core :: "uthash \<Rightarrow> uthash \<Rightarrow> bool" where
  "same_core s s' \<longleftrightarrow> ut_head s' = ut_head s \<and> (\<forall>a. map_option core (ut_mem s' a) = map_option core (ut_mem s a))"

lemma same_core_refl: "same_core s s"
  by (simp add: same_core_def)

lemma same_core_trans: "same_core s s' \<Longrightarrow> same_core s' s'' \<Longrightarrow> same_core s s''"
  by (simp add: same_core_def)

lemma same_core_hh: "same_core s s' \<Longrightarrow> ut_mem s a = Some h \<Longrightarrow> \<exists>h'. ut_mem s' a = Some h' \<and> core h' = core h"
  unfolding same_core_def by (metis map_option_eq_Some option.simps(9))

lemma same_core_dom: "same_core s s' \<Longrightarrow> dom (ut_mem s') = dom (ut_mem s)"
  unfolding same_core_def dom_def by (metis (mono_tags, lifting) option.map_disc_iff)

definition bk :: "uthash \<Rightarrow> hu32 \<Rightarrow> nat \<Rightarrow> nat" where
  "bk s n a = HASH_TO_BKT (hh_hashv (the (ut_mem s a))) n"

lemma same_core_bk: "same_core s s' \<Longrightarrow> a \<in> dom (ut_mem s) \<Longrightarrow> bk s' n a = bk s n a"
  using same_core_hh by (fastforce simp: bk_def core_def)

section \<open>Chains\<close>

text \<open>Every bucket heads a chain of exactly the elements of \<open>A\<close> that hash to it.\<close>

definition bkts_ok :: "uthash \<Rightarrow> hu32 \<Rightarrow> UT_hash_bucket list \<Rightarrow> nat list list \<Rightarrow> nat set \<Rightarrow> bool" where
  "bkts_ok s n bs cs A \<longleftrightarrow> length cs = length bs \<and> A \<subseteq> dom (ut_mem s) \<and>
     (\<forall>i < length bs. hh_head (bs ! i) = first_or (cs ! i) None \<and> lseg (nx s) (pv s) None (cs ! i) None \<and>
        distinct (cs ! i) \<and> set (cs ! i) = {a \<in> A. bk s n a = i})"

text \<open>An element put in front of a chain whose first element is \<open>q\<close>.\<close>

definition link_front :: "nat \<Rightarrow> nat option \<Rightarrow> (nat \<rightharpoonup> UT_hash_handle) \<Rightarrow> (nat \<rightharpoonup> UT_hash_handle)" where
  "link_front a q m =
     (let m1 = m(a \<mapsto> (the (m a))\<lparr>hh_prev := None, hh_next := q\<rparr>) in
      case q of None \<Rightarrow> m1 | Some b \<Rightarrow> m1(b \<mapsto> (the (m b))\<lparr>hh_prev := Some a\<rparr>))"

lemma link_front_core:
  assumes "a \<in> dom (ut_mem s)" and "\<And>b. q = Some b \<Longrightarrow> b \<in> dom (ut_mem s) \<and> b \<noteq> a"
    and "ut_mem s' = link_front a q (ut_mem s)" and "ut_head s' = ut_head s"
  shows "same_core s s'"
  using assms by (auto simp: same_core_def link_front_def core_def Let_def split: option.splits)

lemma push_front_ok:
  assumes ok: "bkts_ok s n bs cs A" and a: "a \<in> dom (ut_mem s)" "a \<notin> A" and i: "i = bk s n a" "i < length bs"
    and mem: "ut_mem s' = link_front a (hh_head (bs ! i)) (ut_mem s)" and hd: "ut_head s' = ut_head s"
    and b: "hh_head b = Some a"
  shows "bkts_ok s' n (bs[i := b]) (cs[i := a # cs ! i]) (insert a A)" and "same_core s s'"
proof -
  have inA: "set (cs ! j) \<subseteq> A" if "j < length bs" for j using ok that by (auto simp: bkts_ok_def)
  have head: "hh_head (bs ! i) = first_or (cs ! i) None" using ok i(2) by (simp add: bkts_ok_def)
  then have q: "q \<in> A \<and> q \<noteq> a \<and> q \<in> set (cs ! i)" if "hh_head (bs ! i) = Some q" for q
    using that first_or_mem [of "cs ! i" q] inA [OF i(2)] a(2) by auto
  show sc: "same_core s s'"
    by (rule link_front_core [OF a(1) _ mem hd]) (use q ok in \<open>auto simp: bkts_ok_def\<close>)
  have bk': "bk s' n x = bk s n x" if "x \<in> insert a A" for x
  proof -
    have "x \<in> dom (ut_mem s)" using that a(1) ok by (auto simp: bkts_ok_def)
    then show ?thesis by (rule same_core_bk [OF sc])
  qed
  have front: "lseg (nx s') (pv s') None (a # cs ! i) None"
    by (rule lseg_push [of "nx s" "pv s"])
      (use ok i(2) mem head q inA [OF i(2)] a(2) in \<open>auto simp: bkts_ok_def link_front_def Let_def split: option.splits\<close>)
  have other: "lseg (nx s') (pv s') None (cs ! j) None" if "j < length bs" "j \<noteq> i" for j
  proof -
    have "x \<noteq> a \<and> hh_head (bs ! i) \<noteq> Some x" if "x \<in> set (cs ! j)" for x
      using that \<open>j < length bs\<close> \<open>j \<noteq> i\<close> inA q ok a(2) i by (auto simp: bkts_ok_def)
    then have "lseg (nx s') (pv s') None (cs ! j) None = lseg (nx s) (pv s) None (cs ! j) None"
      using mem by (intro lseg_cong) (auto simp: link_front_def Let_def split: option.splits)
    with ok that show ?thesis by (simp add: bkts_ok_def)
  qed
  have "set ((cs[i := a # cs ! i]) ! j) = {x \<in> insert a A. bk s' n x = j}" if "j < length bs" for j
    using ok that i bk' by (cases "j = i") (auto simp: bkts_ok_def)
  moreover have "insert a A \<subseteq> dom (ut_mem s')" using same_core_dom [OF sc] a(1) ok by (auto simp: bkts_ok_def)
  moreover have "hh_head (bs[i := b] ! j) = first_or (cs[i := a # cs ! i] ! j) None \<and>
      lseg (nx s') (pv s') None (cs[i := a # cs ! i] ! j) None \<and> distinct (cs[i := a # cs ! i] ! j)" if j: "j < length bs" for j
  proof (cases "j = i")
    case True
    have "length cs = length bs" "distinct (cs ! i)" "a \<notin> set (cs ! i)" using ok i(2) inA [OF i(2)] a(2) by (auto simp: bkts_ok_def)
    then show ?thesis using True front b i(2) by simp
  next
    case False
    then show ?thesis using ok j other [OF j False] by (simp add: bkts_ok_def)
  qed
  moreover have "length (cs[i := a # cs ! i]) = length (bs[i := b])" using ok by (simp add: bkts_ok_def)
  ultimately show "bkts_ok s' n (bs[i := b]) (cs[i := a # cs ! i]) (insert a A)"
    unfolding bkts_ok_def by simp
qed

section \<open>Expansion\<close>

text \<open>A chain that is still to be moved: only its forward pointers count.\<close>

fun nseg :: "('a \<Rightarrow> 'a option) \<Rightarrow> 'a list \<Rightarrow> bool" where
  "nseg N [] = True"
| "nseg N (x # xs) = (N x = first_or xs None \<and> nseg N xs)"

lemma nseg_cong: "(\<And>x. x \<in> set xs \<Longrightarrow> N' x = N x) \<Longrightarrow> nseg N' xs = nseg N xs"
  by (induction xs) auto

lemma lseg_nseg: "lseg N P q xs None \<Longrightarrow> nseg N xs"
  by (induction xs arbitrary: q) auto

text \<open>Moving leaves the table alone, but for its count of items in long chains.\<close>

definition same_tbl :: "uthash \<Rightarrow> uthash \<Rightarrow> bool" where
  "same_tbl s s' \<longleftrightarrow> (\<exists>t k. ut_tbl s = Some t \<and> ut_tbl s' = Some (t\<lparr>nonideal_items := k\<rparr>))"

lemma same_tbl_trans: "same_tbl s s' \<Longrightarrow> same_tbl s' s'' \<Longrightarrow> same_tbl s s''"
  by (auto simp: same_tbl_def)

lemma same_tbl_refl: "ut_tbl s = Some t \<Longrightarrow> same_tbl s s"
  by (auto simp: same_tbl_def intro: exI [of _ "nonideal_items t"])

lemma expand_item_ok:
  assumes ok: "bkts_ok s n new ns A" and a: "a \<in> dom (ut_mem s)" "a \<notin> A" and i: "bk s n a < length new"
    and t: "ut_tbl s = Some t"
  shows "\<exists>s' new' ns'. expand_item n ideal a new s = Ret new' s' \<and> bkts_ok s' n new' ns' (insert a A) \<and>
    length new' = length new \<and> same_core s s' \<and> same_tbl s s' \<and> (\<forall>x. x \<notin> insert a A \<longrightarrow> nx s' x = nx s x)"
proof -
  obtain h where h: "ut_mem s a = Some h" using a(1) by auto
  define i where "i = bk s n a"
  have lim: "i < length new" using assms(4) by (simp add: i_def)
  let ?q = "hh_head (new ! i)" and ?c = "bkt_count (new ! i) + 1"
  let ?b = "\<lparr>hh_head = Some a, bkt_count = ?c,
    expand_mult = (if ?c > ideal \<and> ?c > expand_mult (new ! i) * ideal then expand_mult (new ! i) + 1 else expand_mult (new ! i))\<rparr>"
  define s' where "s' = s\<lparr>ut_mem := link_front a ?q (ut_mem s),
    ut_tbl := Some (if ?c > ideal then t\<lparr>nonideal_items := nonideal_items t + 1\<rparr> else t)\<rparr>"
  have q: "\<exists>hq. ut_mem s b = Some hq \<and> b \<noteq> a \<and> b \<in> A" if "?q = Some b" for b
    using ok lim that a(2) first_or_mem [of "ns ! i" b] by (force simp: bkts_ok_def)
  have run: "expand_item n ideal a new s = Ret (new[i := ?b]) s'"
    using h t lim q unfolding i_def bk_def
    by (cases "hh_head (new ! HASH_TO_BKT (hh_hashv h) n)")
      (auto simp: expand_item_def s'_def i_def bk_def link_front_def Let_def ut_simps outcome_simps)
  have "bkts_ok s' n (new[i := ?b]) (ns[i := a # ns ! i]) (insert a A)" "same_core s s'"
    using push_front_ok [OF ok a i_def lim, of s' ?b] by (simp_all add: s'_def)
  moreover have "same_tbl s s'" using t same_tbl_refl [OF t] by (auto simp: same_tbl_def s'_def)
  moreover have "nx s' x = nx s x" if "x \<notin> insert a A" for x
    using that q by (auto simp: s'_def link_front_def Let_def split: option.splits)
  ultimately show ?thesis using run by auto
qed

lemma expand_chain_ok:
  assumes "bkts_ok s n new ns A" and "nseg (nx s) xs" and "distinct xs" and "set xs \<inter> A = {}"
    and "set xs \<subseteq> dom (ut_mem s)" and "\<forall>a \<in> set xs. bk s n a < length new" and "ut_tbl s = Some t" and "length xs < k"
  shows "\<exists>s' new' ns'. expand_chain k n ideal (first_or xs None) new s = Ret new' s' \<and> bkts_ok s' n new' ns' (A \<union> set xs) \<and>
    length new' = length new \<and> same_core s s' \<and> same_tbl s s' \<and> (\<forall>x. x \<notin> A \<union> set xs \<longrightarrow> nx s' x = nx s x)"
  using assms
proof (induction xs arbitrary: k s new ns A t)
  case Nil
  then show ?case by (cases k) (auto simp: outcome_simps same_core_refl intro!: same_tbl_refl)
next
  case (Cons a xs)
  obtain k' where k: "k = Suc k'" using Cons.prems(8) by (cases k) auto
  obtain h where h: "ut_mem s a = Some h" using Cons.prems(5) by auto
  obtain s1 new1 ns1 where s1: "expand_item n ideal a new s = Ret new1 s1" "bkts_ok s1 n new1 ns1 (insert a A)"
      "length new1 = length new" "same_core s s1" "same_tbl s s1" "\<And>x. x \<notin> insert a A \<Longrightarrow> nx s1 x = nx s x"
    using expand_item_ok [OF Cons.prems(1) _ _ _ Cons.prems(7), of a ideal] Cons.prems(4-6) by fastforce
  obtain t1 where t1: "ut_tbl s1 = Some t1" using s1(5) by (auto simp: same_tbl_def)
  have seg: "nseg (nx s1) xs" using Cons.prems(2-4) s1(6) nseg_cong [of xs "nx s1" "nx s"] by fastforce
  obtain s2 new2 ns2 where s2: "expand_chain k' n ideal (first_or xs None) new1 s1 = Ret new2 s2"
      "bkts_ok s2 n new2 ns2 (insert a A \<union> set xs)" "length new2 = length new1" "same_core s1 s2" "same_tbl s1 s2"
      "\<And>x. x \<notin> insert a A \<union> set xs \<Longrightarrow> nx s2 x = nx s1 x"
  proof -
    have "set xs \<inter> insert a A = {}" using Cons.prems(3,4) by auto
    moreover have "set xs \<subseteq> dom (ut_mem s1)" using Cons.prems(5) same_core_dom [OF s1(4)] by simp
    moreover have "\<forall>x \<in> set xs. bk s1 n x < length new1"
      using Cons.prems(5,6) s1(3) by (simp add: same_core_bk [OF s1(4)] subset_iff)
    moreover have "distinct xs" "length xs < k'" using Cons.prems(3,8) k by simp_all
    ultimately show ?thesis using Cons.IH [OF s1(2) seg _ _ _ _ t1, of k'] that by blast
  qed
  have "expand_chain k n ideal (first_or (a # xs) None) new s = Ret new2 s2"
    using h s1(1) s2(1) Cons.prems(2) k by (simp add: ut_simps outcome_simps)
  with s1 s2 show ?case
    using same_core_trans [OF s1(4) s2(4)] same_tbl_trans [OF s1(5) s2(5)] by (intro exI [of _ s2] exI [of _ new2] exI [of _ ns2]) auto
qed

lemma expand_all_ok:
  assumes "bkts_ok s n new ns A" and "\<forall>c \<in> set cs. nseg (nx s) c" and "distinct (concat cs)" and "set (concat cs) \<inter> A = {}"
    and "set (concat cs) \<subseteq> dom (ut_mem s)" and "\<forall>a \<in> set (concat cs). bk s n a < length new" and "ut_tbl s = Some t"
    and "length (concat cs) < k"
  shows "\<exists>s' new' ns'. expand_all k n ideal (map (\<lambda>c. first_or c None) cs) new s = Ret new' s' \<and>
    bkts_ok s' n new' ns' (A \<union> set (concat cs)) \<and> length new' = length new \<and> same_core s s' \<and> same_tbl s s'"
  using assms
proof (induction cs arbitrary: s new ns A t)
  case Nil
  then show ?case by (auto simp: outcome_simps same_core_refl intro!: same_tbl_refl)
next
  case (Cons c cs)
  have "distinct c" "set c \<inter> A = {}" "set c \<subseteq> dom (ut_mem s)" "\<forall>a \<in> set c. bk s n a < length new" "length c < k" "nseg (nx s) c"
    using Cons.prems by auto
  with expand_chain_ok [OF Cons.prems(1) _ _ _ _ _ Cons.prems(7), of c k ideal]
  obtain s1 new1 ns1 where s1: "expand_chain k n ideal (first_or c None) new s = Ret new1 s1" "bkts_ok s1 n new1 ns1 (A \<union> set c)"
      "length new1 = length new" "same_core s s1" "same_tbl s s1" "\<And>x. x \<notin> A \<union> set c \<Longrightarrow> nx s1 x = nx s x" by blast
  obtain t1 where t1: "ut_tbl s1 = Some t1" using s1(5) by (auto simp: same_tbl_def)
  have sep: "set (concat cs) \<inter> (A \<union> set c) = {}" using Cons.prems(3,4) by auto
  have "nseg (nx s1) c'" if "c' \<in> set cs" for c'
  proof -
    have "nx s1 x = nx s x" if "x \<in> set c'" for x using s1(6) [of x] that \<open>c' \<in> set cs\<close> sep by fastforce
    with nseg_cong [of c' "nx s1" "nx s"] Cons.prems(2) that show ?thesis by simp
  qed
  moreover have "set (concat cs) \<subseteq> dom (ut_mem s1)" "\<forall>a \<in> set (concat cs). bk s1 n a < length new1"
    using Cons.prems(5,6) s1(3) same_core_dom [OF s1(4)] by (simp_all add: same_core_bk [OF s1(4)] subset_iff)
  moreover have "distinct (concat cs)" "length (concat cs) < k" using Cons.prems(3,8) by simp_all
  ultimately obtain s2 new2 ns2 where s2: "expand_all k n ideal (map (\<lambda>c. first_or c None) cs) new1 s1 = Ret new2 s2"
      "bkts_ok s2 n new2 ns2 (A \<union> set c \<union> set (concat cs))" "length new2 = length new1" "same_core s1 s2" "same_tbl s1 s2"
    using Cons.IH [OF s1(2) _ _ sep _ _ t1] by blast
  have "expand_all k n ideal (map (\<lambda>c. first_or c None) (c # cs)) new s = Ret new2 s2"
    using s1(1) s2(1) by (simp add: outcome_simps)
  with s1(3-5) s2 same_core_trans [OF s1(4) s2(4)] same_tbl_trans [OF s1(5) s2(5)] show ?case
    by (intro exI [of _ s2] exI [of _ new2] exI [of _ ns2]) (simp add: Un_assoc)
qed

text \<open>The chains of a table partition its elements.\<close>

lemma distinct_concat_nth:
  assumes "\<And>i. i < length cs \<Longrightarrow> distinct (cs ! i)"
    and "\<And>i j. i < j \<Longrightarrow> j < length cs \<Longrightarrow> set (cs ! i) \<inter> set (cs ! j) = {}"
  shows "distinct (concat cs)"
  using assms
proof (induction cs)
  case (Cons c cs)
  have "distinct (concat cs)"
  proof (rule Cons.IH)
    show "distinct (cs ! i)" if "i < length cs" for i using Cons.prems(1) [of "Suc i"] that by simp
    show "set (cs ! i) \<inter> set (cs ! j) = {}" if "i < j" "j < length cs" for i j
      using Cons.prems(2) [of "Suc i" "Suc j"] that by simp
  qed
  moreover have "set c \<inter> set (cs ! j) = {}" if "j < length cs" for j using Cons.prems(2) [of 0 "Suc j"] that by simp
  then have "set c \<inter> set (concat cs) = {}" by (fastforce simp: in_set_conv_nth)
  ultimately show ?case using Cons.prems(1) [of 0] by simp
qed simp

lemma bkts_ok_concat:
  assumes ok: "bkts_ok s n bs cs A" and lim: "\<forall>a \<in> A. bk s n a < length bs"
  shows "distinct (concat cs)" and "set (concat cs) = A"
proof -
  have len: "length cs = length bs" and sets: "\<And>i. i < length cs \<Longrightarrow> set (cs ! i) = {a \<in> A. bk s n a = i} \<and> distinct (cs ! i)"
    using ok by (auto simp: bkts_ok_def)
  show "distinct (concat cs)" by (rule distinct_concat_nth) (use sets in auto)
  have "set (concat cs) = (\<Union>i < length cs. set (cs ! i))" by (auto simp: set_conv_nth [of cs])
  with sets lim len show "set (concat cs) = A" by auto
qed

lemma unat_count: "m < 2 ^ 32 \<Longrightarrow> unat (of_nat m :: 32 word) = m"
  by (simp add: unat_of_nat take_bit_nat_eq_self)

lemma to_bkt_bound: "n \<noteq> 0 \<Longrightarrow> HASH_TO_BKT hashv n < unat n"
proof -
  assume n: "n \<noteq> 0"
  have "unat (hashv AND (n - 1)) \<le> unat (n - 1)" by (simp add: word_and_le1 word_le_nat_alt [symmetric])
  also have "\<dots> < unat n" using n by (simp add: unat_minus_one unat_gt_0)
  finally show ?thesis by (simp add: HASH_TO_BKT_def)
qed

section \<open>The invariant\<close>

text \<open>The elements with their keys, in the order of insertion.\<close>

definition entries_linked :: "(char list \<Rightarrow> hu32) \<Rightarrow> uthash \<Rightarrow> (nat \<times> char list) list \<Rightarrow> bool" where
  "entries_linked HF s es \<longleftrightarrow> ut_head s = first_or (map fst es) None \<and> distinct (map fst es) \<and>
     lseg (anx s) (apv s) None (map fst es) None \<and>
     (\<forall>(a, k) \<in> set es. \<exists>h. ut_mem s a = Some h \<and> hh_key h = k \<and> hh_keylen h = of_nat (length k) \<and> length k < 2 ^ 32 \<and> hh_hashv h = HF k)"

definition table_ok :: "uthash \<Rightarrow> UT_hash_table \<Rightarrow> nat list \<Rightarrow> bool" where
  "table_ok s t as \<longleftrightarrow> num_items t = of_nat (length as) \<and> length as < 2 ^ 32 \<and>
     num_buckets t \<noteq> 0 \<and> length (buckets t) = unat (num_buckets t) \<and> (\<exists>cs. bkts_ok s (num_buckets t) (buckets t) cs (set as))"

definition hash_ok :: "(char list \<Rightarrow> hu32) \<Rightarrow> uthash \<Rightarrow> (nat \<times> char list) list \<Rightarrow> bool" where
  "hash_ok HF s es \<longleftrightarrow> entries_linked HF s es \<and>
     (es \<noteq> [] \<longrightarrow> (\<exists>t. ut_tbl s = Some t \<and> tail t = fst (last es) \<and> table_ok s t (map fst es)))"

lemma entries_linked_core:
  assumes "entries_linked HF s es" and sc: "same_core s s'"
  shows "entries_linked HF s' es"
proof -
  have h: "\<exists>h'. ut_mem s' a = Some h' \<and> core h' = core (the (ut_mem s a))" if "a \<in> set (map fst es)" for a
    using assms(1) that same_core_hh [OF sc] by (fastforce simp: entries_linked_def)
  have "lseg (anx s') (apv s') None (map fst es) None = lseg (anx s) (apv s) None (map fst es) None"
    by (rule lseg_cong) (use h in \<open>fastforce simp: core_def\<close>)
  moreover have "ut_head s' = ut_head s" using sc by (simp add: same_core_def)
  moreover have "\<exists>h. ut_mem s' a = Some h \<and> hh_key h = k \<and> hh_keylen h = of_nat (length k) \<and> length k < 2 ^ 32 \<and> hh_hashv h = HF k"
    if "(a, k) \<in> set es" for a k
    using assms(1) that same_core_hh [OF sc] by (fastforce simp: entries_linked_def core_def)
  ultimately show ?thesis using assms(1) by (auto simp: entries_linked_def)
qed

lemma bkts_ok_empty: "bkts_ok s n (replicate m \<lparr>hh_head = None, bkt_count = 0, expand_mult = 0\<rparr>) (replicate m []) {}"
  by (simp add: bkts_ok_def)

lemma expand_buckets_ok:
  assumes t: "ut_tbl s = Some t" and ok: "table_ok s t as" and dist: "distinct as" and room: "unat (num_buckets t) < 2 ^ 31"
  shows "\<exists>s' t'. HASH_EXPAND_BUCKETS s = Ret () s' \<and> ut_tbl s' = Some t' \<and> same_core s s' \<and> table_ok s' t' as \<and> tail t' = tail t"
proof -
  define n where "n = num_buckets t"
  define ideal where "ideal = drop_bit (unat (log2_num_buckets t + 1)) (num_items t) + (if num_items t AND (n * 2 - 1) \<noteq> 0 then 1 else 0)"
  obtain cs where cs: "bkts_ok s n (buckets t) cs (set as)" and len: "length (buckets t) = unat n" "n \<noteq> 0" "num_items t = of_nat (length as)"
      "length as < 2 ^ 32" using ok by (auto simp: table_ok_def n_def)
  have num2: "unat (n * 2) = 2 * unat n" "n * 2 \<noteq> 0"
    using room len(2) by (simp_all add: n_def unat_mult_lem [THEN iffD1] unat_eq_zero flip: unat_eq_zero)
  let ?s = "s\<lparr>ut_tbl := Some (t\<lparr>ideal_chain_maxlen := ideal, nonideal_items := 0\<rparr>)\<rparr>"
  let ?new = "replicate (2 * unat n) \<lparr>hh_head = None, bkt_count = 0, expand_mult = 0\<rparr>"
  have part: "distinct (concat cs)" "set (concat cs) = set as"
    using bkts_ok_concat [OF cs] to_bkt_bound [OF len(2)] len(1) by (simp_all add: bk_def)
  have "length (concat cs) = length as" using part dist by (metis distinct_card)
  then have fuel: "length (concat cs) < Suc (unat (num_items t))" using len(3,4) by (simp add: unat_count)
  have heads: "map hh_head (take (unat n) (buckets t)) = map (\<lambda>c. first_or c None) cs"
    using cs len(1) by (auto simp: bkts_ok_def list_eq_iff_nth_eq)
  have seg: "\<forall>c \<in> set cs. nseg (nx ?s) c" using cs lseg_nseg by (fastforce simp: bkts_ok_def in_set_conv_nth)
  have lim: "\<forall>a \<in> set (concat cs). bk ?s (n * 2) a < length ?new" using to_bkt_bound [OF num2(2)] num2(1) by (simp add: bk_def)
  have sub: "set (concat cs) \<subseteq> dom (ut_mem ?s)" unfolding part(2) using cs by (simp add: bkts_ok_def)
  have t0: "ut_tbl ?s = Some (t\<lparr>ideal_chain_maxlen := ideal, nonideal_items := 0\<rparr>)" by simp
  obtain s' new' ns' where s': "expand_all (Suc (unat (num_items t))) (n * 2) ideal (map (\<lambda>c. first_or c None) cs) ?new ?s = Ret new' s'"
      "bkts_ok s' (n * 2) new' ns' ({} \<union> set (concat cs))" "length new' = length ?new" "same_core ?s s'" "same_tbl ?s s'"
    using expand_all_ok [OF bkts_ok_empty seg part(1) Int_empty_right sub lim t0 fuel] by blast
  obtain k where k: "ut_tbl s' = Some (t\<lparr>ideal_chain_maxlen := ideal, nonideal_items := k\<rparr>)" using s'(5) by (auto simp: same_tbl_def)
  let ?ineff = "if k > drop_bit 1 (num_items t) then ineff_expands t + 1 else 0"
  let ?t = "t\<lparr>ideal_chain_maxlen := ideal, nonideal_items := k, num_buckets := n * 2, log2_num_buckets := log2_num_buckets t + 1,
    buckets := new', ineff_expands := ?ineff, noexpand := noexpand t \<or> ?ineff > 1\<rparr>"
  have run: "HASH_EXPAND_BUCKETS s = Ret () (s'\<lparr>ut_tbl := Some ?t\<rparr>)"
    using t s'(1) k unfolding HASH_EXPAND_BUCKETS_def
    by (simp add: ut_simps outcome_simps Let_def heads [unfolded n_def] n_def ideal_def)
  have "bkts_ok (s'\<lparr>ut_tbl := Some ?t\<rparr>) (n * 2) new' ns' (set as)"
    using s'(2) [unfolded part(2)] by (simp add: bkts_ok_def bk_def)
  then have "table_ok (s'\<lparr>ut_tbl := Some ?t\<rparr>) ?t as" using len(3,4) num2 s'(3) by (auto simp: table_ok_def)
  moreover have "same_core s (s'\<lparr>ut_tbl := Some ?t\<rparr>)" using s'(4) by (simp add: same_core_def)
  ultimately show ?thesis using run by (intro exI [of _ "s'\<lparr>ut_tbl := Some ?t\<rparr>"] exI [of _ ?t]) simp
qed

section \<open>Finding\<close>

lemma find_in_chain_eq:
  assumes "nseg (nx s) xs" and "set xs \<subseteq> dom (ut_mem s)" and "length xs < k"
  shows "find_in_chain k key hashv (first_or xs None) s = Ret (List.find (\<lambda>a. key_matches key hashv (the (ut_mem s a))) xs) s"
  using assms
proof (induction xs arbitrary: k)
  case (Cons x xs)
  obtain k' h where "k = Suc k'" "ut_mem s x = Some h" using Cons.prems by (cases k) auto
  with Cons show ?case by (simp add: ut_simps outcome_simps)
next
  case Nil
  then show ?case by (cases k) (simp_all add: outcome_simps)
qed

lemma key_matches_entry:
  assumes "entries_linked HF s es" and "(a, k) \<in> set es"
  shows "key_matches key (HF key) (the (ut_mem s a)) \<longleftrightarrow> k = key"
proof -
  from assms obtain h where "ut_mem s a = Some h" "hh_key h = k" "hh_keylen h = of_nat (length k)" "length k < 2 ^ 32" "hh_hashv h = HF k"
    by (auto simp: entries_linked_def)
  then show ?thesis by (auto simp: key_matches_def unat_count)
qed

text \<open>The element the list of entries has for a key.\<close>

definition element_of :: "(nat \<times> char list) list \<Rightarrow> char list \<Rightarrow> nat option" where
  "element_of es key = map_option fst (List.find (\<lambda>e. snd e = key) es)"

lemma element_of_iff: "distinct (map snd es) \<Longrightarrow> element_of es key = Some a \<longleftrightarrow> (a, key) \<in> set es"
  by (induction es) (force simp: element_of_def)+

lemma element_of_none: "element_of es key = None \<longleftrightarrow> key \<notin> snd ` set es"
  by (force simp: element_of_def find_None_iff)

lemma find_unique:
  assumes "distinct (map snd es)" and "fst ` {e \<in> set es. snd e = key} \<subseteq> set xs" and "set xs \<subseteq> fst ` set es"
    and "\<And>a k. (a, k) \<in> set es \<Longrightarrow> Q a \<longleftrightarrow> k = key"
  shows "List.find Q xs = element_of es key"
proof (cases "element_of es key")
  case None
  then have "\<forall>a \<in> set xs. \<not> Q a" using assms(3,4) by (force simp: element_of_none)
  with None show ?thesis by (simp add: find_None_iff)
next
  case (Some a)
  then have a: "(a, key) \<in> set es" using element_of_iff [OF assms(1)] by blast
  have uniq: "b = a" if "b \<in> set xs" "Q b" for b
  proof -
    have "b \<in> fst ` set es" using that(1) assms(3) by blast
    then obtain k where "(b, k) \<in> set es" by force
    with that assms(4) have "(b, key) \<in> set es" by blast
    with a element_of_iff [OF assms(1), of key] show ?thesis by (metis option.inject)
  qed
  have "a \<in> set xs" "Q a" using a assms(2,4) by force+
  then obtain b where b: "List.find Q xs = Some b" by (metis find_None_iff not_Some_eq)
  then have "b \<in> set xs \<and> Q b" by (metis find_Some_iff nth_mem)
  with uniq b Some show ?thesis by simp
qed

lemma hash_find_ok:
  assumes ok: "hash_ok HF s es" and keys: "distinct (map snd es)"
  shows "HASH_FIND HF key s = Ret (element_of es key) s"
proof (cases "es = []")
  case True
  with ok show ?thesis by (simp add: hash_ok_def entries_linked_def HASH_FIND_def element_of_def outcome_simps)
next
  case False
  have el: "entries_linked HF s es" using ok by (simp add: hash_ok_def)
  from ok False obtain t cs where t: "ut_tbl s = Some t" "num_items t = of_nat (length es)" "length es < 2 ^ 32" "num_buckets t \<noteq> 0"
      "length (buckets t) = unat (num_buckets t)" and cs: "bkts_ok s (num_buckets t) (buckets t) cs (fst ` set es)"
    by (auto simp: hash_ok_def table_ok_def)
  define i where "i = HASH_TO_BKT (HF key) (num_buckets t)"
  have i: "i < length (buckets t)" using to_bkt_bound [OF t(4)] t(5) by (simp add: i_def)
  let ?c = "cs ! i"
  have c: "hh_head (buckets t ! i) = first_or ?c None" "lseg (nx s) (pv s) None ?c None" "distinct ?c"
      "set ?c = {a \<in> fst ` set es. bk s (num_buckets t) a = i}" "set ?c \<subseteq> dom (ut_mem s)"
    using cs i by (auto simp: bkts_ok_def)
  have "length ?c \<le> length es"
    using card_mono [of "fst ` set es" "set ?c"] c(3,4) distinct_card [OF c(3)] card_image_le [of "set es" fst] card_length [of es] by fastforce
  then have fuel: "length ?c < Suc (unat (num_items t))" using t(2,3) by (simp add: unat_count)
  have "fst ` {e \<in> set es. snd e = key} \<subseteq> set ?c"
  proof
    fix a assume "a \<in> fst ` {e \<in> set es. snd e = key}"
    then have a: "(a, key) \<in> set es" by auto
    then obtain h where "ut_mem s a = Some h" "hh_hashv h = HF key" using el by (auto simp: entries_linked_def)
    then show "a \<in> set ?c" using a c(4) by (force simp: bk_def i_def)
  qed
  then have "List.find (\<lambda>a. key_matches key (HF key) (the (ut_mem s a))) ?c = element_of es key"
    by (rule find_unique [OF keys]) (use c(4) key_matches_entry [OF el] in auto)
  with find_in_chain_eq [OF lseg_nseg [OF c(2)] c(5) fuel, of key "HF key"] False el t(1) i c(1) show ?thesis
    by (cases es) (auto simp: HASH_FIND_def HASH_FIND_IN_BKT_def i_def [symmetric] entries_linked_def ut_simps outcome_simps)
qed

section \<open>Adding\<close>

lemma hh_update_order: "h\<lparr>hh_next := q, hh_prev := p\<rparr> = h\<lparr>hh_prev := p, hh_next := q\<rparr>"
  by simp

lemma add_to_table_ok:
  assumes t: "ut_tbl s = Some t" and ok: "table_ok s t as" and a: "ut_mem s a = Some h" "hh_hashv h = hashv" "a \<notin> set as"
    and dist: "distinct as" and len: "length as + 1 < 2 ^ 32" and room: "unat (num_buckets t) < 2 ^ 31"
  shows "\<exists>s' t'. HASH_ADD_TO_TABLE hashv a s = Ret () s' \<and> ut_tbl s' = Some t' \<and> same_core s s' \<and> table_ok s' t' (as @ [a]) \<and> tail t' = tail t"
proof -
  define i where "i = HASH_TO_BKT hashv (num_buckets t)"
  obtain cs where cs: "bkts_ok s (num_buckets t) (buckets t) cs (set as)" and tk: "num_items t = of_nat (length as)" "num_buckets t \<noteq> 0"
      "length (buckets t) = unat (num_buckets t)" using ok by (auto simp: table_ok_def)
  have i: "i < length (buckets t)" using to_bkt_bound [OF tk(2)] tk(3) by (simp add: i_def)
  have ia: "i = bk s (num_buckets t) a" using a by (simp add: bk_def i_def)
  let ?b = "buckets t ! i"
  let ?b' = "?b\<lparr>bkt_count := bkt_count ?b + 1, hh_head := Some a\<rparr>"
  let ?t = "t\<lparr>num_items := num_items t + 1, buckets := (buckets t)[i := ?b']\<rparr>"
  define s1 where "s1 = s\<lparr>ut_mem := link_front a (hh_head ?b) (ut_mem s), ut_tbl := Some ?t\<rparr>"
  have q: "\<exists>hq. ut_mem s b = Some hq \<and> b \<noteq> a" if "hh_head ?b = Some b" for b
    using cs i that a(3) first_or_mem [of "cs ! i" b] by (force simp: bkts_ok_def)
  have "bkts_ok s1 (num_buckets t) ((buckets t)[i := ?b']) (cs[i := a # cs ! i]) (insert a (set as))" and sc: "same_core s s1"
    using push_front_ok [OF cs _ a(3) ia i, of s1 ?b'] a(1) by (auto simp: s1_def)
  then have ok1: "table_ok s1 ?t (as @ [a])" using tk len by (auto simp: table_ok_def)
  have run: "HASH_ADD_TO_TABLE hashv a s =
      (if bkt_count ?b + 1 \<ge> (expand_mult ?b + 1) * HASH_BKT_CAPACITY_THRESH \<and> \<not> noexpand t then HASH_EXPAND_BUCKETS s1 else Ret () s1)"
    using t a(1) i q
    by (cases "hh_head ?b") (auto simp: HASH_ADD_TO_TABLE_def HASH_ADD_TO_BKT_def i_def [symmetric] s1_def link_front_def Let_def
      hh_update_order ut_simps outcome_simps)
  show ?thesis
  proof (cases "bkt_count ?b + 1 \<ge> (expand_mult ?b + 1) * HASH_BKT_CAPACITY_THRESH \<and> \<not> noexpand t")
    case True
    have "ut_tbl s1 = Some ?t" by (simp add: s1_def)
    with expand_buckets_ok [OF this ok1] dist a(3) room obtain s' t' where "HASH_EXPAND_BUCKETS s1 = Ret () s'" "ut_tbl s' = Some t'"
        "same_core s1 s'" "table_ok s' t' (as @ [a])" "tail t' = tail t" by auto
    with True run same_core_trans [OF sc] show ?thesis by auto
  next
    case False
    have "ut_tbl s1 = Some ?t" "tail ?t = tail t" by (simp_all add: s1_def)
    with False run sc ok1 show ?thesis by (metis (mono_tags))
  qed
qed

lemma bkts_ok_frame:
  assumes "bkts_ok s n bs cs A"
    and "\<And>x. x \<in> A \<Longrightarrow> \<exists>h h'. ut_mem s x = Some h \<and> ut_mem s' x = Some h' \<and> hh_next h' = hh_next h \<and> hh_prev h' = hh_prev h \<and> hh_hashv h' = hh_hashv h"
  shows "bkts_ok s' n bs cs A"
proof -
  have f: "nx s' x = nx s x \<and> pv s' x = pv s x \<and> bk s' n x = bk s n x" if "x \<in> A" for x
    using assms(2) [OF that] by (auto simp: bk_def)
  have "lseg (nx s') (pv s') None (cs ! i) None = lseg (nx s) (pv s) None (cs ! i) None" if "i < length bs" for i
    by (rule lseg_cong) (use assms(1) f that in \<open>auto simp: bkts_ok_def\<close>)
  moreover have "{a \<in> A. bk s' n a = i} = {a \<in> A. bk s n a = i}" for i using f by auto
  moreover have "A \<subseteq> dom (ut_mem s')" using assms(2) by fastforce
  ultimately show ?thesis using assms(1) by (simp add: bkts_ok_def)
qed

lemma table_ok_frame:
  assumes "table_ok s t as"
    and "\<And>x. x \<in> set as \<Longrightarrow> \<exists>h h'. ut_mem s x = Some h \<and> ut_mem s' x = Some h' \<and> hh_next h' = hh_next h \<and> hh_prev h' = hh_prev h \<and> hh_hashv h' = hh_hashv h"
  shows "table_ok s' (t\<lparr>tail := p\<rparr>) as"
proof -
  from assms(1) obtain cs where "bkts_ok s (num_buckets t) (buckets t) cs (set as)" by (auto simp: table_ok_def)
  then have "bkts_ok s' (num_buckets t) (buckets t) cs (set as)" by (rule bkts_ok_frame) (rule assms(2))
  with assms(1) show ?thesis by (auto simp: table_ok_def)
qed

lemma entries_linked_hh:
  "entries_linked HF s es \<Longrightarrow> (a, k) \<in> set es \<Longrightarrow>
   \<exists>h. ut_mem s a = Some h \<and> hh_key h = k \<and> hh_keylen h = of_nat (length k) \<and> length k < 2 ^ 32 \<and> hh_hashv h = HF k"
  unfolding entries_linked_def by (elim conjE) (drule (1) bspec, simp)

lemma entries_linked_snoc:
  assumes el: "entries_linked HF s es" and ne: "es \<noteq> []" and a: "a \<notin> fst ` set es" and len: "length key < 2 ^ 32"
    and p: "p = fst (last es)" "ut_mem s p = Some hp" and hd: "ut_head s' = ut_head s"
    and mem: "ut_mem s' = (ut_mem s)(a \<mapsto> ha, p \<mapsto> hp\<lparr>hh_app_next := Some a\<rparr>)"
    and ha: "hh_app_next ha = None" "hh_app_prev ha = Some p" "hh_key ha = key" "hh_keylen ha = of_nat (length key)" "hh_hashv ha = HF key"
  shows "entries_linked HF s' (es @ [(a, key)])"
proof -
  have p': "last_or (map fst es) None = Some p" using ne p(1) by (simp add: last_or_def last_map)
  have pa: "p \<noteq> a" using a ne p(1) by (metis imageI last_in_set)
  have "lseg (anx s') (apv s') None (map fst es @ [a]) None"
    by (rule lseg_snoc [of "anx s" "apv s"]) (use el a pa p' p(2) mem ha in \<open>auto simp: entries_linked_def\<close>)
  moreover have "\<exists>h. ut_mem s' b = Some h \<and> hh_key h = k \<and> hh_keylen h = of_nat (length k) \<and> length k < 2 ^ 32 \<and> hh_hashv h = HF k"
    if b: "(b, k) \<in> set es" for b k
  proof -
    obtain h where "ut_mem s b = Some h" "hh_key h = k" "hh_keylen h = of_nat (length k)" "length k < 2 ^ 32" "hh_hashv h = HF k"
      using entries_linked_hh [OF el b] by auto
    moreover have "b \<noteq> a" using a b by force
    ultimately show ?thesis using mem p(2) by auto
  qed
  moreover have "ut_head s' = first_or (map fst es) (Some a)" using el ne hd by (cases es) (auto simp: entries_linked_def)
  moreover have "ut_mem s' a = Some ha" using mem pa by simp
  ultimately show ?thesis using el a ha len by (auto simp: entries_linked_def)
qed

lemma add_linked_ok:
  assumes s1: "ut_tbl s1 = Some t1" "table_ok s1 t1 (map fst es)" "ut_mem s1 a = Some ha" "hh_hashv ha = HF key"
    and el: "entries_linked HF s1 (es @ [(a, key)])" and tl: "tail t1 = a" and len: "length es + 1 < 2 ^ 32"
    and room: "unat (num_buckets t1) < 2 ^ 31"
  shows "\<exists>s'. HASH_ADD_TO_TABLE (HF key) a s1 = Ret () s' \<and> hash_ok HF s' (es @ [(a, key)]) \<and> dom (ut_mem s') = dom (ut_mem s1)"
proof -
  have "a \<notin> set (map fst es)" "distinct (map fst es)" "length (map fst es) + 1 < 2 ^ 32" using el len by (auto simp: entries_linked_def)
  from add_to_table_ok [OF s1 this room] obtain s' t' where s': "HASH_ADD_TO_TABLE (HF key) a s1 = Ret () s'" "ut_tbl s' = Some t'"
      "same_core s1 s'" "table_ok s' t' (map fst es @ [a])" "tail t' = tail t1" by blast
  have "hash_ok HF s' (es @ [(a, key)])"
    using s' tl entries_linked_core [OF el s'(3)] by (simp add: hash_ok_def)
  with s'(1) same_core_dom [OF s'(3)] show ?thesis by blast
qed

lemma new_table_ok:
  assumes "num_buckets t = HASH_INITIAL_NUM_BUCKETS" "num_items t = 0"
    and "buckets t = replicate (unat HASH_INITIAL_NUM_BUCKETS) \<lparr>hh_head = None, bkt_count = 0, expand_mult = 0\<rparr>"
  shows "table_ok s t []"
proof -
  have "HASH_INITIAL_NUM_BUCKETS \<noteq> 0" by (simp add: HASH_INITIAL_NUM_BUCKETS_def)
  with bkts_ok_empty [of s HASH_INITIAL_NUM_BUCKETS "unat HASH_INITIAL_NUM_BUCKETS"] assms show ?thesis
    by (auto simp: table_ok_def)
qed

lemma hash_add_first:
  assumes ok: "hash_ok HF s []" and a: "ut_mem s a = Some h" and len: "length key < 2 ^ 32"
  shows "\<exists>s'. HASH_ADD_KEYPTR HF key a s = Ret () s' \<and> hash_ok HF s' [(a, key)] \<and> dom (ut_mem s') = dom (ut_mem s)"
proof -
  let ?h = "h\<lparr>hh_hashv := HF key, hh_key := key, hh_keylen := of_nat (length key), hh_app_next := None, hh_app_prev := None\<rparr>"
  let ?t = "\<lparr>buckets = replicate (unat HASH_INITIAL_NUM_BUCKETS) \<lparr>hh_head = None, bkt_count = 0, expand_mult = 0\<rparr>,
        num_buckets = HASH_INITIAL_NUM_BUCKETS, log2_num_buckets = HASH_INITIAL_NUM_BUCKETS_LOG2, num_items = 0, tail = a,
        ideal_chain_maxlen = 0, nonideal_items = 0, ineff_expands = 0, noexpand = False\<rparr>"
  define s1 where "s1 = s\<lparr>ut_mem := (ut_mem s)(a \<mapsto> ?h), ut_tbl := Some ?t, ut_head := Some a\<rparr>"
  have run: "HASH_ADD_KEYPTR HF key a s = HASH_ADD_TO_TABLE (HF key) a s1"
    using a ok by (simp add: HASH_ADD_KEYPTR_def HASH_ADD_KEYPTR_BYHASHVALUE_def HASH_MAKE_TABLE_def set_head_def s1_def hash_ok_def
      entries_linked_def ut_simps outcome_simps)
  have "entries_linked HF s1 ([] @ [(a, key)])" using len by (simp add: entries_linked_def s1_def)
  moreover have "ut_tbl s1 = Some ?t" "ut_mem s1 a = Some ?h" "hh_hashv ?h = HF key" "tail ?t = a" by (simp_all add: s1_def)
  moreover have "table_ok s1 ?t (map fst [])" by (simp add: new_table_ok)
  moreover have "unat (num_buckets ?t) < 2 ^ 31" by (simp add: HASH_INITIAL_NUM_BUCKETS_def)
  ultimately obtain s' where "HASH_ADD_TO_TABLE (HF key) a s1 = Ret () s'" "hash_ok HF s' ([] @ [(a, key)])" "dom (ut_mem s') = dom (ut_mem s1)"
    using add_linked_ok [of s1 ?t "[]" a ?h HF key] by auto
  with run a show ?thesis by (auto simp: s1_def)
qed

lemma hash_add_more:
  assumes ok: "hash_ok HF s es" and ne: "es \<noteq> []" and a: "ut_mem s a = Some h" "a \<notin> fst ` set es"
    and len: "length key < 2 ^ 32" "length es + 1 < 2 ^ 32" and room: "\<And>t. ut_tbl s = Some t \<Longrightarrow> unat (num_buckets t) < 2 ^ 31"
  shows "\<exists>s'. HASH_ADD_KEYPTR HF key a s = Ret () s' \<and> hash_ok HF s' (es @ [(a, key)]) \<and> dom (ut_mem s') = dom (ut_mem s)"
proof -
  from ok ne obtain t where t: "ut_tbl s = Some t" "tail t = fst (last es)" "table_ok s t (map fst es)" by (auto simp: hash_ok_def)
  have el: "entries_linked HF s es" using ok by (simp add: hash_ok_def)
  define p where "p = fst (last es)"
  have pe: "(p, snd (last es)) \<in> set es" using ne by (simp add: p_def)
  then obtain hp where hp: "ut_mem s p = Some hp" using el by (fastforce simp: entries_linked_def)
  have pa: "p \<noteq> a" using pe a(2) by force
  have head: "\<exists>b. ut_head s = Some b" using el ne by (cases es) (auto simp: entries_linked_def)
  let ?h = "h\<lparr>hh_hashv := HF key, hh_key := key, hh_keylen := of_nat (length key), hh_app_next := None, hh_app_prev := Some p\<rparr>"
  define s1 where "s1 = s\<lparr>ut_mem := (ut_mem s)(a \<mapsto> ?h, p \<mapsto> hp\<lparr>hh_app_next := Some a\<rparr>), ut_tbl := Some (t\<lparr>tail := a\<rparr>)\<rparr>"
  have run: "HASH_ADD_KEYPTR HF key a s = HASH_ADD_TO_TABLE (HF key) a s1"
    using a(1) hp head t(1,2) pa by (auto simp: HASH_ADD_KEYPTR_def HASH_ADD_KEYPTR_BYHASHVALUE_def HASH_APPEND_LIST_def s1_def
      p_def [symmetric] ut_simps outcome_simps)
  have "entries_linked HF s1 (es @ [(a, key)])"
    by (rule entries_linked_snoc [OF el ne a(2) len(1) p_def hp, of _ ?h]) (simp_all add: s1_def)
  moreover have "ut_tbl s1 = Some (t\<lparr>tail := a\<rparr>)" "ut_mem s1 a = Some ?h" using pa by (simp_all add: s1_def)
  moreover have "\<exists>h h'. ut_mem s x = Some h \<and> ut_mem s1 x = Some h' \<and> hh_next h' = hh_next h \<and> hh_prev h' = hh_prev h \<and> hh_hashv h' = hh_hashv h"
    if x: "x \<in> set (map fst es)" for x
  proof -
    have "x \<noteq> a" using x a(2) by auto
    moreover obtain hx where "ut_mem s x = Some hx" using el x by (fastforce simp: entries_linked_def)
    ultimately show ?thesis using hp by (auto simp: s1_def)
  qed
  with t(3) have "table_ok s1 (t\<lparr>tail := a\<rparr>) (map fst es)" by (rule table_ok_frame)
  ultimately obtain s' where "HASH_ADD_TO_TABLE (HF key) a s1 = Ret () s'" "hash_ok HF s' (es @ [(a, key)])" "dom (ut_mem s') = dom (ut_mem s1)"
    using add_linked_ok [of s1 "t\<lparr>tail := a\<rparr>" es a ?h HF key] len(2) room [OF t(1)] by auto
  with run a hp show ?thesis by (auto simp: s1_def insert_absorb)
qed

lemma hash_add_ok:
  assumes "hash_ok HF s es" and "ut_mem s a = Some h" "a \<notin> fst ` set es"
    and "length key < 2 ^ 32" "length es + 1 < 2 ^ 32" and "\<And>t. ut_tbl s = Some t \<Longrightarrow> unat (num_buckets t) < 2 ^ 31"
  shows "\<exists>s'. HASH_ADD_KEYPTR HF key a s = Ret () s' \<and> hash_ok HF s' (es @ [(a, key)]) \<and> dom (ut_mem s') = dom (ut_mem s)"
  using hash_add_first [of HF s a h key] hash_add_more [OF assms(1) _ assms(2-6)] assms by (cases "es = []") auto

section \<open>Deleting\<close>

text \<open>The neighbours \<open>q\<close> and \<open>r\<close> of an element of a chain are linked to each other.\<close>

definition unlink_hh :: "nat option \<Rightarrow> nat option \<Rightarrow> (nat \<rightharpoonup> UT_hash_handle) \<Rightarrow> (nat \<rightharpoonup> UT_hash_handle)" where
  "unlink_hh q r m =
     (let m1 = (case q of None \<Rightarrow> m | Some p \<Rightarrow> m(p \<mapsto> (the (m p))\<lparr>hh_next := r\<rparr>)) in
      case r of None \<Rightarrow> m1 | Some b \<Rightarrow> m1(b \<mapsto> (the (m1 b))\<lparr>hh_prev := q\<rparr>))"

lemma unlink_hh_at:
  assumes "m x = Some h"
  shows "unlink_hh q r m x = Some (h\<lparr>hh_next := if q = Some x then r else hh_next h, hh_prev := if r = Some x then q else hh_prev h\<rparr>)"
  using assms by (auto simp: unlink_hh_def Let_def split: option.splits)

lemma unlink_hh_None:
  assumes "m x = None" and "\<And>p. q = Some p \<or> r = Some p \<Longrightarrow> p \<in> dom m"
  shows "unlink_hh q r m x = None"
  using assms by (fastforce simp: unlink_hh_def Let_def split: option.splits)

lemma unlink_hh_core:
  assumes "\<And>p. q = Some p \<or> r = Some p \<Longrightarrow> p \<in> dom (ut_mem s)" and mem: "ut_mem s' = unlink_hh q r (ut_mem s)" and "ut_head s' = ut_head s"
  shows "same_core s s'"
  unfolding same_core_def
proof (intro conjI allI)
  show "map_option core (ut_mem s' x) = map_option core (ut_mem s x)" for x
  proof (cases "ut_mem s x")
    case None
    then have "ut_mem s' x = None" unfolding mem by (rule unlink_hh_None) (rule assms(1))
    with None show ?thesis by simp
  next
    case (Some h)
    then show ?thesis unfolding mem by (simp add: unlink_hh_at core_def)
  qed
qed (rule assms(3))

lemma split_chain:
  assumes "lseg (nx s) (pv s) None c None" and "a \<in> set c"
  obtains ys zs where "c = ys @ a # zs" "pv s a = last_or ys None" "nx s a = first_or zs None"
proof -
  from assms(2) obtain ys zs where c: "c = ys @ a # zs" by (auto simp: in_set_conv_decomp)
  with assms(1) have "pv s a = last_or ys None" "nx s a = first_or zs None" by (simp_all add: lseg_append)
  with c show ?thesis by (rule that)
qed

lemma unlink_chains_ok:
  assumes ok: "bkts_ok s n bs cs A" and a: "a \<in> A" and i: "i = bk s n a" "i < length bs"
    and mem: "ut_mem s' = unlink_hh (pv s a) (nx s a) (ut_mem s)" and hd: "ut_head s' = ut_head s"
    and b: "hh_head b = (if hh_head (bs ! i) = Some a then nx s a else hh_head (bs ! i))"
  shows "bkts_ok s' n (bs[i := b]) (cs[i := remove1 a (cs ! i)]) (A - {a})" and "same_core s s'"
proof -
  have c: "hh_head (bs ! i) = first_or (cs ! i) None" "lseg (nx s) (pv s) None (cs ! i) None" "distinct (cs ! i)"
      "set (cs ! i) = {x \<in> A. bk s n x = i}" and dom: "A \<subseteq> dom (ut_mem s)" and len: "length cs = length bs"
    using ok i(2) by (auto simp: bkts_ok_def)
  have "a \<in> set (cs ! i)" using a i(1) c(4) by simp
  with c(2) obtain ys zs where sp: "cs ! i = ys @ a # zs" "pv s a = last_or ys None" "nx s a = first_or zs None" by (rule split_chain)
  have rm: "remove1 a (cs ! i) = ys @ zs" using sp(1) c(3) by (simp add: remove1_append)
  have nb: "p \<in> set (cs ! i)" if "pv s a = Some p \<or> nx s a = Some p" for p
    using that sp first_or_mem [of zs p] last_or_mem [of ys p] by auto
  show sc: "same_core s s'" by (rule unlink_hh_core [OF _ mem hd]) (use nb c(4) dom in blast)
  have at: "nx s' x = (if pv s a = Some x then nx s a else nx s x) \<and> pv s' x = (if nx s a = Some x then pv s a else pv s x)"
    if x: "x \<in> A" for x
  proof -
    obtain h where "ut_mem s x = Some h" using x dom by auto
    then show ?thesis unfolding mem by (simp add: unlink_hh_at)
  qed
  have bk': "bk s' n x = bk s n x" if "x \<in> A" for x
    by (rule same_core_bk [OF sc]) (use that dom in blast)
  have this_chain: "lseg (nx s') (pv s') None (ys @ zs) None"
  proof (rule lseg_unlink [of "nx s" "pv s" ys a])
    fix x assume "x \<in> set (ys @ zs)"
    then have "x \<in> A" using c(4) sp(1) by auto
    then show "nx s' x = (if pv s a = Some x then nx s a else nx s x) \<and> pv s' x = (if nx s a = Some x then pv s a else pv s x)" by (rule at)
  qed (use c(2,3) sp(1) in simp_all)
  have other: "lseg (nx s') (pv s') None (cs ! j) None" if j: "j < length bs" "j \<noteq> i" for j
  proof -
    have cj: "set (cs ! j) = {x \<in> A. bk s n x = j}" "lseg (nx s) (pv s) None (cs ! j) None" using ok j(1) by (auto simp: bkts_ok_def)
    have "nx s' x = nx s x \<and> pv s' x = pv s x" if "x \<in> set (cs ! j)" for x
      using at [of x] nb [of x] that cj(1) c(4) j(2) by auto
    with lseg_cong [of "cs ! j" "nx s'" "nx s" "pv s'" "pv s"] cj(2) show ?thesis by blast
  qed
  have "hh_head (bs[i := b] ! j) = first_or (cs[i := remove1 a (cs ! i)] ! j) None \<and>
      lseg (nx s') (pv s') None (cs[i := remove1 a (cs ! i)] ! j) None \<and> distinct (cs[i := remove1 a (cs ! i)] ! j)" if j: "j < length bs" for j
  proof (cases "j = i")
    case True
    have "hh_head b = first_or (ys @ zs) None" using b c(1,3) sp by (cases ys) auto
    with True this_chain c(3) sp(1) rm i(2) len show ?thesis by simp
  next
    case False
    then show ?thesis using ok j other [OF j False] by (simp add: bkts_ok_def)
  qed
  moreover have "set (cs[i := remove1 a (cs ! i)] ! j) = {x \<in> A - {a}. bk s' n x = j}" if "j < length bs" for j
    using ok that i c(3) bk' len by (cases "j = i") (auto simp: bkts_ok_def)
  moreover have "A - {a} \<subseteq> dom (ut_mem s')" using same_core_dom [OF sc] dom by auto
  ultimately show "bkts_ok s' n (bs[i := b]) (cs[i := remove1 a (cs ! i)]) (A - {a})" using len by (simp add: bkts_ok_def)
qed

lemma unlink_run:
  assumes "\<And>p. q = Some p \<or> r = Some p \<Longrightarrow> \<exists>h. ut_mem s p = Some h"
  shows "mseq (upd_hh_opt q (hh_next_update (\<lambda>_. r))) (upd_hh_opt r (hh_prev_update (\<lambda>_. q))) s = Ret () (s\<lparr>ut_mem := unlink_hh q r (ut_mem s)\<rparr>)"
proof (cases q)
  case None
  then show ?thesis using assms by (cases r) (auto simp: unlink_hh_def ut_simps outcome_simps)
next
  case (Some p)
  then obtain hp where hp: "ut_mem s p = Some hp" using assms by blast
  show ?thesis
  proof (cases r)
    case None
    then show ?thesis using Some hp by (simp add: unlink_hh_def ut_simps outcome_simps)
  next
    fix b assume r: "r = Some b"
    then obtain hb where "ut_mem s b = Some hb" using assms by blast
    then show ?thesis using Some hp r by (cases "b = p") (simp_all add: unlink_hh_def Let_def ut_simps outcome_simps)
  qed
qed

lemma del_in_bkt_ok:
  assumes t: "ut_tbl s = Some t" and ok: "bkts_ok s n (buckets t) cs A" and a: "a \<in> A" and i: "i = bk s n a" "i < length (buckets t)"
  shows "\<exists>s' bs' cs'. HASH_DEL_IN_BKT i a s = Ret () s' \<and> ut_tbl s' = Some (t\<lparr>buckets := bs'\<rparr>) \<and> length bs' = length (buckets t) \<and>
    bkts_ok s' n bs' cs' (A - {a}) \<and> same_core s s'"
proof -
  let ?b = "buckets t ! i"
  obtain d where d: "ut_mem s a = Some d" using ok a by (auto simp: bkts_ok_def)
  define b' where "b' = (if hh_head ?b = Some a then ?b\<lparr>bkt_count := bkt_count ?b - 1, hh_head := hh_next d\<rparr> else ?b\<lparr>bkt_count := bkt_count ?b - 1\<rparr>)"
  define s' where "s' = s\<lparr>ut_mem := unlink_hh (hh_prev d) (hh_next d) (ut_mem s), ut_tbl := Some (t\<lparr>buckets := (buckets t)[i := b']\<rparr>)\<rparr>"
  have nb: "\<exists>h. ut_mem s p = Some h" if p: "hh_prev d = Some p \<or> hh_next d = Some p" for p
  proof -
    have c: "lseg (nx s) (pv s) None (cs ! i) None" "a \<in> set (cs ! i)" "set (cs ! i) \<subseteq> A" "A \<subseteq> dom (ut_mem s)"
      using ok a i by (auto simp: bkts_ok_def)
    from lseg_neighbours [OF c(1,2), of p] p d have "p \<in> set (cs ! i)" by auto
    with c(3,4) show ?thesis by blast
  qed
  have run: "HASH_DEL_IN_BKT i a s = Ret () s'"
    using t i(2) d nb unfolding s'_def b'_def by (simp add: HASH_DEL_IN_BKT_def unlink_run ut_simps outcome_simps)
  have "bkts_ok s' n ((buckets t)[i := b']) (cs[i := remove1 a (cs ! i)]) (A - {a})" "same_core s s'"
    using unlink_chains_ok [OF ok a i, of s' b'] d by (simp_all add: s'_def b'_def)
  with run show ?thesis by (intro exI [of _ s'] exI [of _ "(buckets t)[i := b']"]) (auto simp: s'_def)
qed

text \<open>The same for the list in the order of insertion.\<close>

definition unlink_app :: "nat option \<Rightarrow> nat option \<Rightarrow> (nat \<rightharpoonup> UT_hash_handle) \<Rightarrow> (nat \<rightharpoonup> UT_hash_handle)" where
  "unlink_app q r m =
     (let m1 = (case q of None \<Rightarrow> m | Some p \<Rightarrow> m(p \<mapsto> (the (m p))\<lparr>hh_app_next := r\<rparr>)) in
      case r of None \<Rightarrow> m1 | Some b \<Rightarrow> m1(b \<mapsto> (the (m1 b))\<lparr>hh_app_prev := q\<rparr>))"

lemma unlink_app_at:
  assumes "m x = Some h"
  shows "unlink_app q r m x = Some (h\<lparr>hh_app_next := if q = Some x then r else hh_app_next h, hh_app_prev := if r = Some x then q else hh_app_prev h\<rparr>)"
  using assms by (auto simp: unlink_app_def Let_def split: option.splits)

lemma unlink_app_dom:
  assumes "\<And>p. q = Some p \<or> r = Some p \<Longrightarrow> p \<in> dom m"
  shows "dom (unlink_app q r m) = dom m"
proof -
  have "insert p (dom m) = dom m" if "q = Some p \<or> r = Some p" for p using assms [OF that] by (rule insert_absorb)
  then show ?thesis by (cases q; cases r) (simp_all add: unlink_app_def Let_def)
qed

lemma entries_linked_unlink:
  assumes el: "entries_linked HF s (ys @ (a, k) # zs)"
    and q: "q = last_or (map fst ys) None" and r: "r = first_or (map fst zs) None"
    and mem: "ut_mem s' = unlink_app q r (ut_mem s)" and hd: "ut_head s' = (if q = None then r else ut_head s)"
  shows "entries_linked HF s' (ys @ zs)"
proof -
  have seg: "lseg (anx s) (apv s) None (map fst ys @ a # map fst zs) None" "distinct (map fst ys @ a # map fst zs)"
      "ut_head s = first_or (map fst ys) (Some a)" using el by (auto simp: entries_linked_def)
  have a: "apv s a = q" "anx s a = r" using seg(1) q r by (simp_all add: lseg_append)
  have key: "\<exists>h. ut_mem s' b = Some h \<and> hh_key h = k' \<and> hh_keylen h = of_nat (length k') \<and> length k' < 2 ^ 32 \<and> hh_hashv h = HF k'"
    if "(b, k') \<in> set (ys @ zs)" for b k'
  proof -
    have "(b, k') \<in> set (ys @ (a, k) # zs)" using that by auto
    from entries_linked_hh [OF el this] show ?thesis by (auto simp: mem unlink_app_at)
  qed
  have "lseg (anx s') (apv s') None (map fst ys @ map fst zs) None"
  proof (rule lseg_unlink [OF seg(1,2)])
    fix x assume "x \<in> set (map fst ys @ map fst zs)"
    then obtain k' where "(x, k') \<in> set (ys @ (a, k) # zs)" by force
    from entries_linked_hh [OF el this] obtain h where "ut_mem s x = Some h" by blast
    then show "anx s' x = (if apv s a = Some x then anx s a else anx s x) \<and> apv s' x = (if anx s a = Some x then apv s a else apv s x)"
      unfolding a by (simp add: mem unlink_app_at)
  qed
  moreover have "ut_head s' = first_or (map fst (ys @ zs)) None" using hd seg(3) q r by (cases ys) (auto simp: last_or_def)
  ultimately show ?thesis using seg(2) key unfolding entries_linked_def by auto
qed

text \<open>What the deletion of an element that is not alone does before it turns to the buckets.\<close>

lemma hash_delete_run:
  assumes d: "ut_mem s a = Some d" and t: "ut_tbl s = Some t" and more: "\<not> (hh_app_prev d = None \<and> hh_app_next d = None)"
    and tl: "a = tail t \<Longrightarrow> hh_app_prev d = Some p" "a \<noteq> tail t \<Longrightarrow> p = tail t"
    and nb: "\<And>p. hh_app_prev d = Some p \<or> hh_app_next d = Some p \<Longrightarrow> \<exists>h. ut_mem s p = Some h"
  shows "HASH_DELETE a s = mseq (HASH_DEL_IN_BKT (HASH_TO_BKT (hh_hashv d) (num_buckets t)) a) (upd_tbl (\<lambda>t. t\<lparr>num_items := num_items t - 1\<rparr>))
    (s\<lparr>ut_mem := unlink_app (hh_app_prev d) (hh_app_next d) (ut_mem s), ut_tbl := Some (t\<lparr>tail := p\<rparr>),
       ut_head := if hh_app_prev d = None then hh_app_next d else ut_head s\<rparr>)"
proof (cases "hh_app_prev d")
  case None
  with more obtain b where b: "hh_app_next d = Some b" by auto
  moreover have "\<exists>hb. ut_mem s b = Some hb" using nb b by blast
  ultimately show ?thesis using None d t tl by (cases s) (auto simp: HASH_DELETE_def set_head_def unlink_app_def ut_simps outcome_simps)
next
  case (Some q)
  then obtain hq where hq: "ut_mem s q = Some hq" using nb by blast
  show ?thesis
  proof (cases "hh_app_next d")
    case None
    then show ?thesis using Some d hq t tl by (cases s) (auto simp: HASH_DELETE_def unlink_app_def ut_simps outcome_simps)
  next
    fix b assume b: "hh_app_next d = Some b"
    then obtain hb where "ut_mem s b = Some hb" using nb by blast
    then show ?thesis using Some d hq t tl b
      by (cases s; cases "b = q") (auto simp: HASH_DELETE_def unlink_app_def Let_def ut_simps outcome_simps)
  qed
qed

lemma hash_delete_alone:
  assumes "hash_ok HF s [(a, k)]"
  shows "\<exists>s'. HASH_DELETE a s = Ret () s' \<and> hash_ok HF s' [] \<and> dom (ut_mem s') = dom (ut_mem s)"
proof -
  have "lseg (anx s) (apv s) None [a] None" "\<exists>h. ut_mem s a = Some h" "\<exists>t. ut_tbl s = Some t"
    using assms by (auto simp: hash_ok_def entries_linked_def)
  then show ?thesis
    by (auto simp: HASH_DELETE_def free_tbl_def set_head_def hash_ok_def entries_linked_def ut_simps outcome_simps)
qed

lemma delete_linked_ok:
  assumes t: "ut_tbl s = Some t" and ok: "table_ok s t (map fst (ys @ (a, k) # zs))" and el: "entries_linked HF s (ys @ zs)"
    and ne: "ys @ zs \<noteq> []" and tl: "tail t = fst (last (ys @ zs))" and d: "ut_mem s a = Some d" and a: "a \<notin> fst ` set (ys @ zs)"
  shows "\<exists>s'. mseq (HASH_DEL_IN_BKT (HASH_TO_BKT (hh_hashv d) (num_buckets t)) a) (upd_tbl (\<lambda>t. t\<lparr>num_items := num_items t - 1\<rparr>)) s = Ret () s' \<and>
    hash_ok HF s' (ys @ zs) \<and> dom (ut_mem s') = dom (ut_mem s)"
proof -
  let ?as = "map fst (ys @ (a, k) # zs)" and ?i = "HASH_TO_BKT (hh_hashv d) (num_buckets t)"
  from ok obtain cs where cs: "bkts_ok s (num_buckets t) (buckets t) cs (set ?as)" and tk: "num_items t = of_nat (length ?as)"
      "length ?as < 2 ^ 32" "num_buckets t \<noteq> 0" "length (buckets t) = unat (num_buckets t)" by (auto simp: table_ok_def)
  have i: "?i = bk s (num_buckets t) a" "?i < length (buckets t)" using d to_bkt_bound [OF tk(3)] tk(4) by (simp_all add: bk_def)
  from del_in_bkt_ok [OF t cs _ i] obtain s1 bs1 cs1 where s1: "HASH_DEL_IN_BKT ?i a s = Ret () s1" "ut_tbl s1 = Some (t\<lparr>buckets := bs1\<rparr>)"
      "length bs1 = length (buckets t)" "bkts_ok s1 (num_buckets t) bs1 cs1 (set ?as - {a})" "same_core s s1" by auto
  let ?t = "t\<lparr>buckets := bs1, num_items := num_items t - 1\<rparr>"
  define s2 where "s2 = s1\<lparr>ut_tbl := Some ?t\<rparr>"
  have run: "mseq (HASH_DEL_IN_BKT ?i a) (upd_tbl (\<lambda>t. t\<lparr>num_items := num_items t - 1\<rparr>)) s = Ret () s2"
    using s1(1,2) by (simp add: s2_def ut_simps outcome_simps)
  have "set ?as - {a} = set (map fst (ys @ zs))" using a by auto
  then have "bkts_ok s2 (num_buckets t) bs1 cs1 (set (map fst (ys @ zs)))" using s1(4) by (simp add: s2_def bkts_ok_def bk_def)
  then have "table_ok s2 ?t (map fst (ys @ zs))" using tk s1(3) by (auto simp: table_ok_def)
  moreover have sc: "same_core s s2" using s1(5) by (simp add: s2_def same_core_def)
  ultimately have "hash_ok HF s2 (ys @ zs)" using entries_linked_core [OF el sc] tl by (simp add: hash_ok_def s2_def)
  with run same_core_dom [OF sc] show ?thesis by blast
qed

lemma hash_delete_split:
  assumes ok: "hash_ok HF s (ys @ (a, k) # zs)" and ne: "ys @ zs \<noteq> []"
  shows "\<exists>s'. HASH_DELETE a s = Ret () s' \<and> hash_ok HF s' (ys @ zs) \<and> dom (ut_mem s') = dom (ut_mem s)"
proof -
  let ?es = "ys @ (a, k) # zs"
  from ok obtain t where t: "ut_tbl s = Some t" "tail t = fst (last ?es)" "table_ok s t (map fst ?es)" by (auto simp: hash_ok_def)
  have el: "entries_linked HF s ?es" using ok by (simp add: hash_ok_def)
  have seg: "lseg (anx s) (apv s) None (map fst ?es) None" "distinct (map fst ?es)" using el by (simp_all add: entries_linked_def)
  obtain d where d: "ut_mem s a = Some d" using entries_linked_hh [OF el, of a k] by auto
  have q: "hh_app_prev d = last_or (map fst ys) None" and r: "hh_app_next d = first_or (map fst zs) None"
    using seg(1) d by (simp_all add: lseg_append)
  have known: "\<exists>h. ut_mem s x = Some h" if "x \<in> set (map fst ?es)" for x
  proof -
    from that obtain k' where "(x, k') \<in> set ?es" by force
    from entries_linked_hh [OF el this] show ?thesis by blast
  qed
  have nb: "\<exists>h. ut_mem s p = Some h" if "hh_app_prev d = Some p \<or> hh_app_next d = Some p" for p
    using that q r first_or_mem [of "map fst zs" p] last_or_mem [of "map fst ys" p] by (intro known) auto
  let ?p = "fst (last (ys @ zs))"
  define s1 where "s1 = s\<lparr>ut_mem := unlink_app (hh_app_prev d) (hh_app_next d) (ut_mem s), ut_tbl := Some (t\<lparr>tail := ?p\<rparr>),
       ut_head := if hh_app_prev d = None then hh_app_next d else ut_head s\<rparr>"
  have a_last: "zs = []" if "a = tail t"
    using that t(2) seg(2) by (cases zs rule: rev_cases) auto
  have run: "HASH_DELETE a s = mseq (HASH_DEL_IN_BKT (HASH_TO_BKT (hh_hashv d) (num_buckets t)) a) (upd_tbl (\<lambda>t. t\<lparr>num_items := num_items t - 1\<rparr>)) s1"
    unfolding s1_def
  proof (rule hash_delete_run [OF d t(1)])
    show "\<not> (hh_app_prev d = None \<and> hh_app_next d = None)" using q r ne by (cases ys rule: rev_cases; cases zs) auto
    show "hh_app_prev d = Some ?p" if "a = tail t" using a_last [OF that] q ne by (simp add: last_or_def last_map)
    show "?p = tail t" if "a \<noteq> tail t" using that t(2) by (cases zs rule: rev_cases) auto
  qed (rule nb)
  obtain d' where d': "ut_mem s1 a = Some d'" "hh_hashv d' = hh_hashv d" using d by (simp add: s1_def unlink_app_at)
  have "entries_linked HF s1 (ys @ zs)" by (rule entries_linked_unlink [OF el q r]) (simp_all add: s1_def)
  moreover have "table_ok s1 (t\<lparr>tail := ?p\<rparr>) (map fst ?es)"
  proof (rule table_ok_frame [OF t(3)])
    fix x assume "x \<in> set (map fst ?es)"
    from known [OF this] show "\<exists>h h'. ut_mem s x = Some h \<and> ut_mem s1 x = Some h' \<and> hh_next h' = hh_next h \<and> hh_prev h' = hh_prev h \<and> hh_hashv h' = hh_hashv h"
      by (auto simp: s1_def unlink_app_at)
  qed
  moreover have "a \<notin> fst ` set (ys @ zs)" using seg(2) by auto
  ultimately obtain s' where s': "HASH_DELETE a s = Ret () s'" "hash_ok HF s' (ys @ zs)" "dom (ut_mem s') = dom (ut_mem s1)"
    using delete_linked_ok [of s1 "t\<lparr>tail := ?p\<rparr>" ys a k zs HF d'] d' run ne by (auto simp: s1_def)
  moreover have "dom (ut_mem s1) = dom (ut_mem s)" using nb unlink_app_dom [of _ _ "ut_mem s"] by (simp add: s1_def domIff)
  ultimately show ?thesis by auto
qed

lemma hash_delete_ok:
  assumes ok: "hash_ok HF s es" and a: "a \<in> fst ` set es"
  shows "\<exists>s'. HASH_DELETE a s = Ret () s' \<and> hash_ok HF s' (filter (\<lambda>e. fst e \<noteq> a) es) \<and> dom (ut_mem s') = dom (ut_mem s)"
proof -
  from a obtain k ys zs where es: "es = ys @ (a, k) # zs" by (force simp: in_set_conv_decomp)
  have "distinct (map fst es)" using ok by (simp add: hash_ok_def entries_linked_def)
  then have "a \<notin> fst ` set ys" "a \<notin> fst ` set zs" using es by auto
  then have "filter (\<lambda>e. fst e \<noteq> a) ys = ys" "filter (\<lambda>e. fst e \<noteq> a) zs = zs" by (auto intro!: filter_True)
  then have "filter (\<lambda>e. fst e \<noteq> a) es = ys @ zs" using es by simp
  with hash_delete_alone [of HF s a k] hash_delete_split [of HF s ys a k zs] ok es show ?thesis by (cases "ys @ zs = []") auto
qed

section \<open>Iterating\<close>

lemma hash_cnt_ok:
  assumes "hash_ok HF s es"
  shows "HASH_CNT s = Ret (of_nat (length es)) s"
  using assms by (cases es) (auto simp: HASH_CNT_def hash_ok_def entries_linked_def table_ok_def ut_simps outcome_simps)

lemma iter_loop_ok:
  assumes "lseg (anx s) P q xs None" and "set xs \<subseteq> dom (ut_mem s)" and "length xs < n"
  shows "iter_loop n (first_or xs None) s = Ret xs s"
  using assms
proof (induction xs arbitrary: n q)
  case Nil
  then show ?case by (cases n) (simp_all add: outcome_simps)
next
  case (Cons x xs)
  obtain m h where "n = Suc m" "ut_mem s x = Some h" using Cons.prems by (cases n) auto
  moreover from this Cons.prems have "iter_loop m (first_or xs None) s = Ret xs s" by (intro Cons.IH) auto
  ultimately show ?case using Cons.prems(1) by (simp add: ut_simps outcome_simps)
qed

lemma hash_ok_length: "hash_ok HF s es \<Longrightarrow> length es < 2 ^ 32"
  by (cases "es = []") (auto simp: hash_ok_def table_ok_def)

lemma hash_iter_ok:
  assumes ok: "hash_ok HF s es"
  shows "HASH_ITER s = Ret (map fst es) s"
proof -
  have el: "entries_linked HF s es" using ok by (simp add: hash_ok_def)
  have "set (map fst es) \<subseteq> dom (ut_mem s)"
  proof
    fix x assume "x \<in> set (map fst es)"
    then obtain k where "(x, k) \<in> set es" by force
    from entries_linked_hh [OF el this] show "x \<in> dom (ut_mem s)" by blast
  qed
  with el have "iter_loop (Suc (length es)) (first_or (map fst es) None) s = Ret (map fst es) s"
    by (intro iter_loop_ok [of _ "apv s" None]) (simp_all add: entries_linked_def)
  with el hash_cnt_ok [OF ok] hash_ok_length [OF ok] show ?thesis
    by (simp add: HASH_ITER_def entries_linked_def unat_count outcome_simps)
qed

section \<open>Sequences of operations\<close>

datatype table_op = Insert_entry "char list" nat | Remove_entry nat

fun ut_step :: "(char list \<Rightarrow> hu32) \<Rightarrow> table_op \<Rightarrow> unit U" where
  "ut_step HF (Insert_entry k a) = HASH_ADD_KEYPTR HF k a"
| "ut_step HF (Remove_entry a) = HASH_DELETE a"

text \<open>The specification: a list of elements with their keys, the newest last.\<close>

fun entry_step :: "table_op \<Rightarrow> (nat \<times> char list) list \<Rightarrow> (nat \<times> char list) list" where
  "entry_step (Insert_entry k a) es = es @ [(a, k)]"
| "entry_step (Remove_entry a) es = filter (\<lambda>e. fst e \<noteq> a) es"

definition room_to_expand :: "uthash \<Rightarrow> bool" where
  "room_to_expand s = (case ut_tbl s of None \<Rightarrow> True | Some t \<Rightarrow> unat (num_buckets t) < 2 ^ 31)"

fun step_allowed :: "table_op \<Rightarrow> uthash \<Rightarrow> (nat \<times> char list) list \<Rightarrow> bool" where
  "step_allowed (Insert_entry k a) s es =
     (ut_mem s a \<noteq> None \<and> a \<notin> set (map fst es) \<and> k \<notin> set (map snd es) \<and> length k < 2 ^ 32 \<and> length es + 1 < 2 ^ 32 \<and> room_to_expand s)"
| "step_allowed (Remove_entry a) s es = (a \<in> set (map fst es))"

definition hash_rep :: "(char list \<Rightarrow> hu32) \<Rightarrow> uthash \<Rightarrow> (nat \<times> char list) list \<Rightarrow> bool" where
  "hash_rep HF s es \<longleftrightarrow> hash_ok HF s es \<and> distinct (map snd es)"

interpretation ut: step_refinement "hash_rep HF" "ut_step HF" entry_step step_allowed for HF
proof unfold_locales
  fix s es x assume rep: "hash_rep HF s es" and pre: "step_allowed x s es"
  show "\<exists>s'. ut_step HF x s = Ret () s' \<and> hash_rep HF s' (entry_step x es)"
  proof (cases x)
    case (Insert_entry k a)
    then obtain h where h: "ut_mem s a = Some h" using pre by auto
    have "unat (num_buckets t) < 2 ^ 31" if "ut_tbl s = Some t" for t using that pre Insert_entry by (simp add: room_to_expand_def)
    with hash_add_ok [of HF s es a h k] h rep pre Insert_entry show ?thesis by (auto simp: hash_rep_def)
  next
    case (Remove_entry a)
    with hash_delete_ok [of HF s es a] rep pre show ?thesis by (auto simp: hash_rep_def distinct_map_filter)
  qed
qed

text \<open>
  C10: The hash tables of \<^verbatim>\<open>uthash.h\<close> refine lists of entries, for every hash function: after any sequence of \<^verbatim>\<open>HASH_ADD_KEYPTR\<close> of new
  elements under new keys and \<^verbatim>\<open>HASH_DELETE\<close> of elements in the table, which all succeed, \<^verbatim>\<open>HASH_FIND\<close> finds the element the list has
  for a key and nothing otherwise, \<^verbatim>\<open>HASH_COUNT\<close> is the length of the list (as long as the number of buckets can be doubled in 32 bits),
  and \<^verbatim>\<open>HASH_ITER\<close> visits the elements in the order they were added, with expansions of the buckets on the way.
\<close>

theorem uthash_refines_entry_list:
  assumes "ut_head s = None" and "steps_allowed (ut_step HF) entry_step step_allowed ops s []"
  shows "\<exists>s'. run_steps (ut_step HF) ops s = Ret () s' \<and>
    (\<forall>key. HASH_FIND HF key s' = Ret (map_option fst (List.find (\<lambda>e. snd e = key) (fold entry_step ops []))) s') \<and>
    HASH_CNT s' = Ret (of_nat (length (fold entry_step ops []))) s' \<and>
    HASH_ITER s' = Ret (map fst (fold entry_step ops [])) s'"
proof -
  have "hash_rep HF s []" using assms(1) by (simp add: hash_rep_def hash_ok_def entries_linked_def)
  from ut.steps_refine [OF this assms(2)] obtain s' where "run_steps (ut_step HF) ops s = Ret () s'" "hash_rep HF s' (fold entry_step ops [])" by blast
  then show ?thesis using hash_find_ok [of HF s'] hash_cnt_ok [of HF s'] hash_iter_ok [of HF s'] by (auto simp: hash_rep_def element_of_def)
qed

text \<open>Two elements are added to one bucket and the first is deleted again.\<close>

definition ut_start :: uthash where
  "ut_start = \<lparr>ut_head = None, ut_tbl = None,
     ut_mem = [1 \<mapsto> \<lparr>hh_app_prev = None, hh_app_next = None, hh_prev = None, hh_next = None, hh_key = [], hh_keylen = 0, hh_hashv = 0\<rparr>,
               2 \<mapsto> \<lparr>hh_app_prev = None, hh_app_next = None, hh_prev = None, hh_next = None, hh_key = [], hh_keylen = 0, hh_hashv = 0\<rparr>]\<rparr>"

lemma ut_start_steps:
  "steps_allowed (ut_step (\<lambda>_. 5)) entry_step step_allowed [Insert_entry ''a'' 1, Insert_entry ''b'' 2, Remove_entry 1] ut_start []"
  by (simp add: ut_start_def HASH_ADD_KEYPTR_def HASH_ADD_KEYPTR_BYHASHVALUE_def HASH_MAKE_TABLE_def HASH_APPEND_LIST_def HASH_ADD_TO_TABLE_def
    HASH_ADD_TO_BKT_def HASH_TO_BKT_def HASH_INITIAL_NUM_BUCKETS_def HASH_BKT_CAPACITY_THRESH_def set_head_def room_to_expand_def
    HASH_DELETE_def HASH_DEL_IN_BKT_def word_le_nat_alt ut_simps outcome_simps)

theorem uthash_refines_entry_list_witness:
  "\<exists>s'. run_steps (ut_step (\<lambda>_. 5)) [Insert_entry ''a'' 1, Insert_entry ''b'' 2, Remove_entry 1] ut_start = Ret () s' \<and>
    HASH_FIND (\<lambda>_. 5) ''a'' s' = Ret None s' \<and> HASH_FIND (\<lambda>_. 5) ''b'' s' = Ret (Some 2) s' \<and> HASH_ITER s' = Ret [2] s'"
proof -
  have "ut_head ut_start = None" by (simp add: ut_start_def)
  from uthash_refines_entry_list [OF this ut_start_steps] show ?thesis by auto
qed

end
