(* ===== verification/Deai_Xorg.thy ===== *)
theory Deai_Xorg
  imports Deai_File
begin

text \<open>
  What the X11 plugin shares: the header \<^verbatim>\<open>plugins/xorg/xorg.h\<close>, and of \<^verbatim>\<open>plugins/xorg/xorg.c\<close> the atom
  cache, the resource database, the screen, and the counting of the signals that keep a connection
  listening.  The X server, xcb and xkbcommon are the record \<open>x_host\<close>.
\<close>

section \<open>The interface to the X server\<close>

text \<open>A screen of the setup: root window, width and height in pixels.\<close>

type_synonym x_screen = "u32 \<times> u16 \<times> u16"

text \<open>The events the plugin reads, with the fields of all of them and their address.\<close>

record x_event =
  xe_addr :: addr
  xe_response_type :: u8
  xe_detail :: u8
  xe_state :: u16
  xe_mapping_request :: u8
  xe_extension :: u8
  xe_event_type :: u16
  xe_hierarchy :: "(u16 \<times> u32) list"
  xe_config_timestamp :: u32
  xe_sub_code :: u8
  xe_output :: u32
  xe_crtc :: u32

text \<open>A property as the server returns it: type, format, number of bytes after, the items.\<close>

record x_property =
  xp_type :: u32
  xp_format :: u8
  xp_bytes_after :: u32
  xp_items :: "u32 list"

text \<open>\<^verbatim>\<open>xcb_randr_mode_info_t\<close>, the reply to a request for an output, and for a view.\<close>

record x_mode_info =
  xm_id :: u32
  xm_width :: u16
  xm_height :: u16
  xm_dot_clock :: u32
  xm_htotal :: u16
  xm_vtotal :: u16
  xm_flags :: u32

record x_output_info =
  xo_status :: u8
  xo_crtc :: u32
  xo_mm_width :: u32
  xo_mm_height :: u32
  xo_connection :: u8
  xo_subpixel_order :: u8
  xo_num_preferred :: u16
  xo_crtcs :: "u32 list"
  xo_modes :: "u32 list"
  xo_name :: "char list"

record x_crtc_info =
  xc_status :: u8
  xc_timestamp :: u32
  xc_x :: "16 word"
  xc_y :: "16 word"
  xc_width :: u16
  xc_height :: u16
  xc_rotation :: u16
  xc_outputs :: "u32 list"

record x_resources =
  xr_config_timestamp :: u32
  xr_crtcs :: "u32 list"
  xr_outputs :: "u32 list"
  xr_modes :: "x_mode_info list"

text \<open>
  What a request returns may depend on the requests made before, the list of effects.  \<open>None\<close> is a null
  reply.  \<open>xh_intern_atom\<close> gives \<open>Inl\<close> when there is no reply, with whether an error was returned.
  \<open>xh_accepts\<close> says whether a checked request succeeds.  The compiled keymap, keyboard states and key symbol tables
  are numbers; \<open>xh_state_update s k down\<close> is the new state and the components that changed.
\<close>

record x_host =
  xh_connect :: "c_string option \<Rightarrow> nat \<times> int"
  xh_has_error :: "effect list \<Rightarrow> nat \<Rightarrow> bool"
  xh_fd :: "nat \<Rightarrow> int"
  xh_screens :: "nat \<Rightarrow> x_screen list"
  xh_keycode_range :: "nat \<Rightarrow> u32 \<times> u32"
  xh_extensions :: "nat \<Rightarrow> char list list option"
  xh_query_extension :: "nat \<Rightarrow> c_string \<Rightarrow> (u8 \<times> u8) option"
  xh_accepts :: "effect list \<Rightarrow> effect \<Rightarrow> bool"
  xh_atom_name :: "effect list \<Rightarrow> nat \<Rightarrow> u32 \<Rightarrow> char list option"
  xh_intern_atom :: "effect list \<Rightarrow> nat \<Rightarrow> char list \<Rightarrow> bool + u32"
  xh_resource :: "effect list \<Rightarrow> nat \<Rightarrow> u32 \<Rightarrow> u32 \<Rightarrow> (u32 \<times> char list) option"
  xh_xkb_context_new :: "nat option"
  xh_keymap :: "nat option \<Rightarrow> c_string option list \<Rightarrow> nat option"
  xh_num_layouts :: "nat \<Rightarrow> nat"
  xh_keymap_range :: "nat \<Rightarrow> u32 \<times> u32"
  xh_num_levels :: "nat \<Rightarrow> u32 \<Rightarrow> nat"
  xh_syms :: "nat \<Rightarrow> u32 \<Rightarrow> nat \<Rightarrow> u32 list"
  xh_has_mod :: "nat \<Rightarrow> c_string \<Rightarrow> bool"
  xh_state_new :: "nat \<Rightarrow> nat"
  xh_state_update :: "nat \<Rightarrow> u32 \<Rightarrow> bool \<Rightarrow> nat \<times> u32"
  xh_mod_active :: "nat \<Rightarrow> c_string \<Rightarrow> u32 \<Rightarrow> bool"
  xh_set_modifiers :: "effect list \<Rightarrow> u32 option"
  xh_keysyms_alloc :: "nat \<Rightarrow> nat"
  xh_keycodes :: "effect list \<Rightarrow> nat \<Rightarrow> u32 \<Rightarrow> u8 list option"
  xh_keysym_from_name :: "c_string \<Rightarrow> u32"
  xh_keysym_name :: "u32 \<Rightarrow> c_string option"
  xh_refresh_mapping :: "nat \<Rightarrow> x_event \<Rightarrow> bool"
  xh_modifier_mapping :: "effect list \<Rightarrow> nat \<Rightarrow> (u8 \<times> u32 \<times> u8 list option) option"
  xh_xi_devices :: "effect list \<Rightarrow> nat \<Rightarrow> u32 \<Rightarrow> (u16 \<times> u16 \<times> char list) list option"
  xh_input_devices :: "effect list \<Rightarrow> nat \<Rightarrow> (u8 \<times> u32) list option"
  xh_xi_property :: "effect list \<Rightarrow> nat \<Rightarrow> int \<Rightarrow> u32 \<Rightarrow> u32 \<Rightarrow> x_property option"
  xh_output_property :: "effect list \<Rightarrow> nat \<Rightarrow> u32 \<Rightarrow> u32 \<Rightarrow> u32 \<Rightarrow> bool + x_property"
  xh_output_valid_values :: "effect list \<Rightarrow> nat \<Rightarrow> u32 \<Rightarrow> u32 \<Rightarrow> u32 list option"
  xh_output_info :: "effect list \<Rightarrow> nat \<Rightarrow> u32 \<Rightarrow> u32 \<Rightarrow> x_output_info option"
  xh_crtc_info :: "effect list \<Rightarrow> nat \<Rightarrow> u32 \<Rightarrow> u32 \<Rightarrow> x_crtc_info option"
  xh_set_crtc :: "effect list \<Rightarrow> u8 option"
  xh_resources :: "effect list \<Rightarrow> nat \<Rightarrow> u32 \<Rightarrow> x_resources option"
  xh_resources_current :: "effect list \<Rightarrow> nat \<Rightarrow> u32 \<Rightarrow> x_resources option"
  xh_fmul :: "u64 \<Rightarrow> u64 \<Rightarrow> u64"
  xh_fdiv :: "u64 \<Rightarrow> u64 \<Rightarrow> u64"
  xh_int_to_float :: "int \<Rightarrow> u32"
  xh_double_to_float :: "u64 \<Rightarrow> u32"
  xh_float_to_double :: "u32 \<Rightarrow> u64"

text \<open>A request with a reply, a checked request, and a request whose result is not looked at.\<close>

definition x_reply :: "(effect list \<Rightarrow> 'a) \<Rightarrow> 'a M" where
  "x_reply f = mget (\<lambda>w. f (effects w))"

definition x_checked :: "x_host \<Rightarrow> effect \<Rightarrow> bool M" where
  "x_checked X e = mbind (x_reply (\<lambda>h. xh_accepts X h e)) (\<lambda>ok. mseq (emit_effect e) (mret ok))"

definition XCB_ATOM_NONE :: u32 where "XCB_ATOM_NONE = 0"
definition XCB_ATOM_ATOM :: u32 where "XCB_ATOM_ATOM = 4"
definition XCB_ATOM_CARDINAL :: u32 where "XCB_ATOM_CARDINAL = 6"
definition XCB_ATOM_INTEGER :: u32 where "XCB_ATOM_INTEGER = 19"
definition XCB_ATOM_STRING :: u32 where "XCB_ATOM_STRING = 31"
definition XCB_GE_GENERIC :: u8 where "XCB_GE_GENERIC = 35"

section \<open>Connections\<close>

record xorg_connection =
  xc_c :: "nat option"
  dflt_scrn :: int
  xc_nsignals :: int
  xkb_ctx :: "nat option"
  atoms :: "(u32 \<times> char list) list"

definition get_xc :: "addr \<Rightarrow> xorg_connection M" where
  "get_xc dc =
     mbind (get_obj dc) (\<lambda>ob.
     case payload ob of
       P_xorg_connection c s n k es \<Rightarrow> mret \<lparr>xc_c = c, dflt_scrn = s, xc_nsignals = n, xkb_ctx = k, atoms = es\<rparr>
     | _ \<Rightarrow> mcrash Out_of_bounds)"

definition set_xc :: "addr \<Rightarrow> xorg_connection \<Rightarrow> unit M" where
  "set_xc dc x =
     upd_obj dc (\<lambda>ob. ob\<lparr>payload := P_xorg_connection (xc_c x) (dflt_scrn x) (xc_nsignals x) (xkb_ctx x) (atoms x)\<rparr>)"

text \<open>The field \<^verbatim>\<open>c\<close>, passed to xcb.\<close>

definition the_c :: "addr \<Rightarrow> nat M" where
  "the_c dc = mbind (get_xc dc) (\<lambda>x. case xc_c x of None \<Rightarrow> mcrash Null_deref | Some c \<Rightarrow> mret c)"

definition XORG_CONNECTION_MEMBER :: c_string where "XORG_CONNECTION_MEMBER = ''___xorg_connection''"

definition builtin_member_name :: c_string where "builtin_member_name = ''___builtins_lua''"

text \<open>\<^verbatim>\<open>get_xorg_connection\<close>, with what is done without a connection and with one, which is held meanwhile.\<close>

definition get_xorg_connection :: "env \<Rightarrow> addr \<Rightarrow> 'a M \<Rightarrow> (addr \<Rightarrow> 'a M) \<Rightarrow> 'a M" where
  "get_xorg_connection E ext none some =
     mbind (di_get E ext (di_string_borrow XORG_CONNECTION_MEMBER) DI_TYPE_OBJECT) (\<lambda>(rc, v).
     case (rc = 0, v) of
       (True, V_object dc) \<Rightarrow> scoped_object E (Some dc) (some dc)
     | _ \<Rightarrow> none)"

definition save_xorg_connection :: "env \<Rightarrow> addr \<Rightarrow> addr \<Rightarrow> unit M" where
  "save_xorg_connection E ext c = check_ok (di_member_clone E ext XORG_CONNECTION_MEMBER (V_object c))"

definition screen_of_display :: "x_host \<Rightarrow> nat \<Rightarrow> int \<Rightarrow> x_screen option" where
  "screen_of_display X c screen =
     (if 0 \<le> screen \<and> nat screen < length (xh_screens X c) then Some (xh_screens X c ! nat screen) else None)"

text \<open>The default screen of a connection, which is then used without a test.\<close>

definition the_screen :: "x_host \<Rightarrow> addr \<Rightarrow> x_screen M" where
  "the_screen X dc =
     mbind (get_xc dc) (\<lambda>x.
     mbind (the_c dc) (\<lambda>c.
     case screen_of_display X c (dflt_scrn x) of None \<Rightarrow> mcrash Null_deref | Some s \<Rightarrow> mret s))"

definition the_root :: "x_host \<Rightarrow> addr \<Rightarrow> u32 M" where
  "the_root X dc = mbind (the_screen X dc) (\<lambda>(root, _, _). mret root)"

text \<open>\<^verbatim>\<open>strncmp\<close> with the length of the listed name: the name only has to be a prefix of \<open>name\<close>.\<close>

definition xorg_has_extension :: "x_host \<Rightarrow> nat \<Rightarrow> c_string \<Rightarrow> bool" where
  "xorg_has_extension X c name =
     (case xh_extensions X c of
        None \<Rightarrow> False
      | Some ns \<Rightarrow> list_ex (\<lambda>n. strncmp_eq n name (length n)) ns)"

section \<open>Atoms\<close>

text \<open>
  The entries are in two hash tables, by atom and by name.  The newest entry with a key is found first, as long as the
  table has not been expanded since.
\<close>

definition find_byatom :: "u32 \<Rightarrow> (u32 \<times> char list) list \<Rightarrow> (u32 \<times> char list) option" where
  "find_byatom atom es = List.find (\<lambda>e. fst e = atom) (rev es)"

definition find_atom_byname :: "char list \<Rightarrow> (u32 \<times> char list) list \<Rightarrow> (u32 \<times> char list) option" where
  "find_atom_byname name es = List.find (\<lambda>e. snd e = name) (rev es)"

definition add_atom :: "addr \<Rightarrow> u32 \<Rightarrow> char list \<Rightarrow> unit M" where
  "add_atom dc atom name = mbind (get_xc dc) (\<lambda>x. set_xc dc (x\<lparr>atoms := atoms x @ [(atom, name)]\<rparr>))"

definition di_xorg_get_atom_name :: "x_host \<Rightarrow> addr \<Rightarrow> u32 \<Rightarrow> char list option M" where
  "di_xorg_get_atom_name X dc atom =
     mbind (get_xc dc) (\<lambda>x.
     case find_byatom atom (atoms x) of
       Some e \<Rightarrow> mret (Some (snd e))
     | None \<Rightarrow>
         mbind (the_c dc) (\<lambda>c.
         mbind (x_reply (\<lambda>h. xh_atom_name X h c atom)) (\<lambda>r.
         case r of
           None \<Rightarrow> mret None
         | Some name \<Rightarrow> mseq (add_atom dc atom name) (mret (Some name)))))"

text \<open>The atom, and whether an error was returned.\<close>

definition di_xorg_intern_atom :: "env \<Rightarrow> x_host \<Rightarrow> addr \<Rightarrow> di_string \<Rightarrow> (u32 \<times> bool) M" where
  "di_xorg_intern_atom E X dc name =
     mbind (get_xc dc) (\<lambda>x.
     case find_atom_byname (str_bytes name) (atoms x) of
       Some e \<Rightarrow> mret (fst e, False)
     | None \<Rightarrow>
         mbind (the_c dc) (\<lambda>c.
         mbind (x_reply (\<lambda>h. xh_intern_atom X h c (str_bytes name))) (\<lambda>r.
         case r of
           Inl err \<Rightarrow> mseq (log_error E ''Cannot intern atom'') (mret (0, err))
         | Inr atom \<Rightarrow> mseq (add_atom dc atom (str_bytes name)) (mret (atom, False)))))"

section \<open>Properties of a connection\<close>

text \<open>The first request has no room for the value and tells its size; the second asks for that many four-byte units.\<close>

definition di_xorg_get_resource :: "x_host \<Rightarrow> addr \<Rightarrow> di_string M" where
  "di_xorg_get_resource X dc =
     mbind (the_root X dc) (\<lambda>root.
     mbind (the_c dc) (\<lambda>c.
     mbind (x_reply (\<lambda>h. xh_resource X h c root 0)) (\<lambda>r.
     case r of
       None \<Rightarrow> mret DI_STRING_INIT
     | Some (real_size, _) \<Rightarrow>
         mbind (x_reply (\<lambda>h. xh_resource X h c root real_size)) (\<lambda>r.
         case r of
           None \<Rightarrow> mret DI_STRING_INIT
         | Some (_, value) \<Rightarrow> mret (di_string_ndup value (length value))))))"

definition di_xorg_set_resource :: "x_host \<Rightarrow> addr \<Rightarrow> di_string \<Rightarrow> unit M" where
  "di_xorg_set_resource X dc rdb =
     mbind (the_root X dc) (\<lambda>root.
     mbind (the_c dc) (\<lambda>c.
     mbind (x_checked X (X_set_resource c root (str_bytes rdb))) (\<lambda>_. mret ())))"

definition di_field :: "env \<Rightarrow> addr \<Rightarrow> c_string \<Rightarrow> di_type \<Rightarrow> nat \<Rightarrow> unit M" where
  "di_field E o' name t off =
     mbind (di_new_field_getter E t off) (\<lambda>g. ignore_rc (di_member E o' (''__get_'' @ name) (V_object g)))"

definition get_screen :: "env \<Rightarrow> x_host \<Rightarrow> addr \<Rightarrow> addr M" where
  "get_screen E X dc =
     mbind (the_screen X dc) (\<lambda>(_, width, height).
     mbind (di_new_object_with_type (P_xscreen (ucast width) (ucast height))) (\<lambda>ret.
     mseq (ignore_rc (di_set_type E ret ''deai.plugin.xorg:Screen''))
     (mseq (di_field E ret ''height'' DI_TYPE_UINT (sizeof_di_object + 8))
     (mseq (di_field E ret ''width'' DI_TYPE_UINT sizeof_di_object)
     (mret ret)))))"

section \<open>Listening\<close>

definition xcb_listen_handle :: c_string where
  "xcb_listen_handle = ''__xcb_fd_event_read_listen_handle''"

definition di_xorg_add_signal :: "env \<Rightarrow> x_host \<Rightarrow> addr \<Rightarrow> unit M" where
  "di_xorg_add_signal E X dc =
     mbind (get_xc dc) (\<lambda>x.
     mseq (set_xc dc (x\<lparr>xc_nsignals := xc_nsignals x + 1\<rparr>))
     (if xc_nsignals x + 1 \<noteq> 1 then mret ()
      else
      mbind (get_weak_checked E dc ''__weak_event_module'') (\<lambda>weak_event.
      scoped_weak weak_event
        (mbind (di_upgrade_weak_ref weak_event) (\<lambda>em.
         case em of
           None \<Rightarrow> ignore_rc (di_log_va E DI_LOG_INFO ''cannot find event module'')
         | Some eventm \<Rightarrow>
             scoped_object E (Some eventm)
               (mbind (the_c dc) (\<lambda>c.
                mbind (di_callr E eventm ''fdevent'' DI_TYPE_OBJECT [V_nint (of_int (xh_fd X c))]) (\<lambda>(rc, fv).
                case (rc = 0, fv) of
                  (True, V_object xcb_fd_event) \<Rightarrow>
                    scoped_object E (Some xcb_fd_event)
                      (mbind (di_create_closure E ''di_xorg_ioev'' DI_TYPE_NIL [V_object dc] []) (\<lambda>r.
                       case r of
                         Inl _ \<Rightarrow> mcrash Null_deref
                       | Inr cl \<Rightarrow>
                           scoped_object E (Some cl)
                             (mbind (di_listen_to E xcb_fd_event (di_string_borrow ''read'') cl False) (\<lambda>(lh, _).
                              case lh of
                                None \<Rightarrow> mcrash Null_deref
                              | Some l \<Rightarrow>
                                  mseq (check_ok (di_call_void_impl E l (di_string_borrow ''auto_stop'') [V_nint 1]))
                                  (ignore_rc (di_member E dc xcb_listen_handle (V_object l)))))))
                | _ \<Rightarrow> mcrash Panic))))))))"

definition di_xorg_del_signal :: "env \<Rightarrow> addr \<Rightarrow> unit M" where
  "di_xorg_del_signal E dc =
     mbind (get_xc dc) (\<lambda>x.
     mseq (set_xc dc (x\<lparr>xc_nsignals := xc_nsignals x - 1\<rparr>))
     (if xc_nsignals x - 1 \<noteq> 0 then mret ()
      else ignore_rc (di_delete_member_raw E dc (di_string_borrow xcb_listen_handle))))"

definition di_xorg_signal_setter :: "env \<Rightarrow> x_host \<Rightarrow> addr \<Rightarrow> di_string \<Rightarrow> addr \<Rightarrow> unit M" where
  "di_xorg_signal_setter E X obj member_name sig =
     (if \<not> di_string_starts_with member_name ''__signal_'' then mret ()
      else
      mbind (di_add_member_clone E obj member_name (V_object sig)) (\<lambda>rc.
      if rc \<noteq> 0 then mret () else di_xorg_add_signal E X obj))"

definition di_xorg_signal_deleter :: "env \<Rightarrow> addr \<Rightarrow> di_string \<Rightarrow> unit M" where
  "di_xorg_signal_deleter E obj member_name =
     (if \<not> di_string_starts_with member_name ''__signal_'' then mret ()
      else
      mbind (di_delete_member_raw E obj member_name) (\<lambda>rc.
      if rc \<noteq> 0 then mret () else di_xorg_del_signal E obj))"

text \<open>\<^verbatim>\<open>extname\<close> and \<^verbatim>\<open>nsignals\<close> of a \<^verbatim>\<open>struct di_xorg_ext\<close>, which the extensions embed.\<close>

fun extname :: "payload \<Rightarrow> c_string" where
  "extname (P_xorg_xinput _ _ _ _) = ''xinput''"
| "extname (P_xorg_randr _ _ _ _) = ''randr''"
| "extname (P_xorg_key _ _ _) = ''key''"
| "extname _ = []"

fun ext_nsignals :: "payload \<Rightarrow> int option" where
  "ext_nsignals (P_xorg_xinput n _ _ _) = Some n"
| "ext_nsignals (P_xorg_randr n _ _ _) = Some n"
| "ext_nsignals (P_xorg_key n _ _) = Some n"
| "ext_nsignals _ = None"

fun with_nsignals :: "int \<Rightarrow> payload \<Rightarrow> payload" where
  "with_nsignals n (P_xorg_xinput _ op ms lc) = P_xorg_xinput n op ms lc"
| "with_nsignals n (P_xorg_randr _ op evbase cts) = P_xorg_randr n op evbase cts"
| "with_nsignals n (P_xorg_key _ syms k) = P_xorg_key n syms k"
| "with_nsignals n p = p"

text \<open>The count is changed by \<open>d\<close>; the new count and the name are returned.\<close>

definition count_ext_signal :: "addr \<Rightarrow> int \<Rightarrow> (int \<times> c_string) M" where
  "count_ext_signal ext d =
     mbind (get_obj ext) (\<lambda>ob.
     case ext_nsignals (payload ob) of
       None \<Rightarrow> mcrash Out_of_bounds
     | Some n \<Rightarrow>
         mseq (upd_obj ext (\<lambda>ob. ob\<lparr>payload := with_nsignals (n + d) (payload ob)\<rparr>))
         (mret (n + d, extname (payload ob))))"

definition strong_ext_name :: "c_string \<Rightarrow> di_string" where
  "strong_ext_name name = Some (''___strong_x_ext_'' @ name)"

definition di_xorg_ext_signal_setter :: "env \<Rightarrow> x_host \<Rightarrow> c_string \<Rightarrow> addr \<Rightarrow> addr \<Rightarrow> unit M" where
  "di_xorg_ext_signal_setter E X signal obj sig =
     get_xorg_connection E obj (mret ()) (\<lambda>dc.
       mbind (di_member_clone E obj signal (V_object sig)) (\<lambda>rc.
       if rc \<noteq> 0 then mret ()
       else
       mbind (count_ext_signal obj 1) (\<lambda>(n, name).
       if n = 1
       then mbind (di_add_member_clone E dc (strong_ext_name name) (V_object obj)) (\<lambda>rc.
            if rc \<noteq> 0 then mret () else di_xorg_add_signal E X dc)
       else mret ())))"

definition di_xorg_ext_signal_deleter :: "env \<Rightarrow> c_string \<Rightarrow> addr \<Rightarrow> unit M" where
  "di_xorg_ext_signal_deleter E signal obj =
     get_xorg_connection E obj (mret ()) (\<lambda>dc.
       mbind (di_delete_member_raw E obj (di_string_borrow signal)) (\<lambda>rc.
       if rc \<noteq> 0 then mret ()
       else
       mbind (count_ext_signal obj (-1)) (\<lambda>(n, name).
       if n = 0
       then mseq (ignore_rc (di_delete_member_raw E dc (strong_ext_name name))) (di_xorg_del_signal E dc)
       else mret ())))"

text \<open>\<^verbatim>\<open>di_signal_setter_deleter_with_signal_name\<close>: closures that have captured the name of the member.\<close>

definition add_closure :: "env \<Rightarrow> addr \<Rightarrow> c_string \<Rightarrow> fn_ptr \<Rightarrow> c_string \<Rightarrow> di_type list \<Rightarrow> unit M" where
  "add_closure E o' name fn captured ats =
     mbind (di_create_closure E fn DI_TYPE_NIL [V_string_literal captured] ats) (\<lambda>r.
     case r of
       Inl _ \<Rightarrow> mcrash Null_deref
     | Inr cl \<Rightarrow> ignore_rc (di_member E o' name (V_object cl)))"

definition di_signal_setter_deleter_with_signal_name :: "env \<Rightarrow> addr \<Rightarrow> c_string \<Rightarrow> fn_ptr \<Rightarrow> fn_ptr \<Rightarrow> unit M" where
  "di_signal_setter_deleter_with_signal_name E o' sig setter deleter =
     mseq (add_closure E o' (''__set___signal_'' @ sig) setter (''__signal_'' @ sig) [DI_TYPE_OBJECT, DI_TYPE_OBJECT])
     (add_closure E o' (''__delete___signal_'' @ sig) deleter (''__signal_'' @ sig) [DI_TYPE_OBJECT])"

section \<open>Members taken from a script\<close>

text \<open>
  \<^verbatim>\<open>di_xorg_copy_from_builtins\<close>: the path is split at its dots, and every part is looked up in \<open>builtins\<close> itself.
\<close>

fun find_source :: "env \<Rightarrow> addr \<Rightarrow> addr \<Rightarrow> c_string list \<Rightarrow> addr option M" where
  "find_source E builtins source [] = mret (Some source)"
| "find_source E builtins source (p # ps) =
     mbind (di_get E builtins (di_string_ndup p (length p)) DI_TYPE_OBJECT) (\<lambda>(rc, v).
     case (rc = 0, v) of
       (True, V_object value) \<Rightarrow> mseq (di_unref_object E source) (find_source E builtins value ps)
     | _ \<Rightarrow> mseq (di_unref_object E source) (mret None))"

fun copy_members :: "nat \<Rightarrow> env \<Rightarrow> addr \<Rightarrow> addr \<Rightarrow> di_string \<Rightarrow> unit M" where
  "copy_members 0 E target source key = mcrash Out_of_fuel"
| "copy_members (Suc n) E target source key =
     mbind (di_object_next_member E source key) (\<lambda>m.
     case m of
       V_tuple (V_string name # v # vs) \<Rightarrow>
         mseq (case v of
                 V_object _ \<Rightarrow> ignore_rc (di_add_member_move E target name v)
               | _ \<Rightarrow> di_free_value E v)
         (mseq (mforeach (di_free_value E) vs) (copy_members n E target source name))
     | V_tuple (_ # _ # _) \<Rightarrow> mcrash Panic
     | v \<Rightarrow> di_free_value E v)"

fun path_parts :: "c_string \<Rightarrow> c_string \<Rightarrow> c_string list" where
  "path_parts cur [] = (if cur = [] then [] else [cur])"
| "path_parts cur (c # cs) = (if c = CHR ''.'' then cur # path_parts [] cs else path_parts (cur @ [c]) cs)"

definition di_xorg_copy_from_builtins :: "env \<Rightarrow> addr \<Rightarrow> c_string \<Rightarrow> addr \<Rightarrow> unit M" where
  "di_xorg_copy_from_builtins E target path builtins =
     mbind (di_ref_object builtins) (\<lambda>_.
     mbind (find_source E builtins builtins (path_parts [] path)) (\<lambda>s.
     case s of
       None \<Rightarrow> mret ()
     | Some source \<Rightarrow> scoped_object E (Some source) (copy_members (e_fuel E) E target source DI_STRING_INIT)))"

end
