(* ===== verification/Deai_Xkey.thy ===== *)
theory Deai_Xkey
  imports Deai_Xorg Deai_Promise Deai_Log
begin

text \<open>
  Key bindings, \<^verbatim>\<open>plugins/xorg/key.c\<close>: bindings are objects kept by the key extension under consecutive numbers; each grabs
  the key codes of its symbol, and key events are passed to the bindings with the same modifiers and key code.
\<close>

section \<open>Names of modifiers\<close>

definition modifier_names :: "c_string list" where
  "modifier_names = [''shift'', ''lock'', ''control'', ''mod1'', ''mod2'', ''mod3'', ''mod4'', ''mod5'']"

definition XCB_NO_SYMBOL :: int where "XCB_NO_SYMBOL = 0"
definition XCB_MOD_MASK_CONTROL :: int where "XCB_MOD_MASK_CONTROL = 4"
definition XCB_BUTTON_MASK_ANY :: int where "XCB_BUTTON_MASK_ANY = 32768"

text \<open>\<open>ks\<close> are the names from index \<open>i\<close> on, \<open>bit_mask\<close> their first bit.\<close>

fun mod_of_names :: "di_string \<Rightarrow> c_string list \<Rightarrow> int \<Rightarrow> int option" where
  "mod_of_names keyname [] bit_mask = None"
| "mod_of_names keyname (k # ks) bit_mask =
     (if strncasecmp_eq (str_bytes keyname) k (str_length keyname) then Some bit_mask else mod_of_names keyname ks (bit_mask * 2))"

definition name_to_mod :: "di_string \<Rightarrow> int" where
  "name_to_mod keyname =
     (case mod_of_names keyname modifier_names 1 of
        Some bit_mask \<Rightarrow> bit_mask
      | None \<Rightarrow>
          if strncasecmp_eq (str_bytes keyname) ''ctrl'' (str_length keyname) then XCB_MOD_MASK_CONTROL
          else if strncasecmp_eq (str_bytes keyname) ''any'' (str_length keyname) then XCB_BUTTON_MASK_ANY
          else XCB_NO_SYMBOL)"

section \<open>Grabs\<close>

definition get_kb :: "addr \<Rightarrow> (u32 \<times> u8 list option \<times> u16 \<times> bool) M" where
  "get_kb kb =
     mbind (get_obj kb) (\<lambda>ob.
     case payload ob of P_keybinding s kcs m i \<Rightarrow> mret (s, kcs, m, i) | _ \<Rightarrow> mcrash Out_of_bounds)"

definition set_keycodes :: "addr \<Rightarrow> u8 list option \<Rightarrow> unit M" where
  "set_keycodes kb kcs =
     mbind (get_kb kb) (\<lambda>(s, _, m, i). upd_obj kb (\<lambda>ob. ob\<lparr>payload := P_keybinding s kcs m i\<rparr>))"

definition get_key :: "addr \<Rightarrow> (int \<times> nat \<times> u64) M" where
  "get_key k =
     mbind (get_obj k) (\<lambda>ob. case payload ob of P_xorg_key n syms nb \<Rightarrow> mret (n, syms, nb) | _ \<Rightarrow> mcrash Out_of_bounds)"

definition set_next_binding :: "addr \<Rightarrow> u64 \<Rightarrow> unit M" where
  "set_next_binding k nb = mbind (get_key k) (\<lambda>(n, syms, _). upd_obj k (\<lambda>ob. ob\<lparr>payload := P_xorg_key n syms nb\<rparr>))"

definition ungrab :: "env \<Rightarrow> x_host \<Rightarrow> addr \<Rightarrow> unit M" where
  "ungrab E X kb =
     mbind (get_object_checked E kb ''___xorg_key_ext'') (\<lambda>key.
     scoped_object E (Some key)
       (get_xorg_connection E key (mret ()) (\<lambda>dc.
          mbind (get_xc dc) (\<lambda>x.
          case xc_c x of
            None \<Rightarrow> mret ()
          | Some c \<Rightarrow>
              mbind (the_root X dc) (\<lambda>root.
              mbind (get_kb kb) (\<lambda>(_, kcs, m, _).
              case kcs of
                None \<Rightarrow> mcrash Null_deref
              | Some ks \<Rightarrow> mforeach (\<lambda>k. emit_effect (X_ungrab_key c k root m)) ks))))))"

text \<open>\<^verbatim>\<open>describe_keybinding\<close>.\<close>

fun modifier_list :: "u16 \<Rightarrow> c_string list \<Rightarrow> nat \<Rightarrow> c_string list" where
  "modifier_list m [] i = []"
| "modifier_list m (k # ks) i = (if bit m i then k # modifier_list m ks (Suc i) else modifier_list m ks (Suc i))"

definition describe_keybinding :: "x_host \<Rightarrow> u32 \<Rightarrow> u16 \<Rightarrow> c_string" where
  "describe_keybinding X keysym m =
     (let keyname = (case xh_keysym_name X keysym of None \<Rightarrow> ''(invalid)'' | Some n \<Rightarrow> n);
          mods = modifier_list m modifier_names 0 in
      intercalate ''+'' mods @ (if mods = [] then [] else ''+'') @ keyname)"

definition binding_dtor :: "env \<Rightarrow> x_host \<Rightarrow> addr \<Rightarrow> unit M" where
  "binding_dtor E X kb =
     mbind (get_kb kb) (\<lambda>(_, kcs, _, _).
     mseq (if kcs \<noteq> None then ungrab E X kb else mret ()) (set_keycodes kb None))"

definition grab_keys :: "env \<Rightarrow> x_host \<Rightarrow> nat \<Rightarrow> u32 \<Rightarrow> u32 \<Rightarrow> u16 \<Rightarrow> u8 list \<Rightarrow> unit M" where
  "grab_keys E X c root keysym m kcs =
     mforeach (\<lambda>kc.
       mbind (x_checked X (X_grab_key c root m kc)) (\<lambda>ok.
       if ok then mret ()
       else ignore_rc (di_log_va E DI_LOG_ERROR (''Cannot grab 0x'' @ hex_string (unat kc) @ '', for keybinding '' @
              describe_keybinding X keysym m @ [CHR 10])))) kcs"

definition refresh_binding :: "env \<Rightarrow> x_host \<Rightarrow> addr \<Rightarrow> int M" where
  "refresh_binding E X kb =
     mbind (get_object_checked E kb ''___xorg_key_ext'') (\<lambda>key.
     scoped_object E (Some key)
       (get_xorg_connection E key (mret (-1)) (\<lambda>dc.
          mbind (get_kb kb) (\<lambda>(keysym, kcs, m, _).
          mseq (if kcs \<noteq> None then mseq (ungrab E X kb) (set_keycodes kb None) else mret ())
          (mbind (get_key key) (\<lambda>(_, keysyms, _).
           mbind (x_reply (\<lambda>h. xh_keycodes X h keysyms keysym)) (\<lambda>kc.
           case kc of
             None \<Rightarrow> mret (-1)
           | Some ks \<Rightarrow>
               mseq (set_keycodes kb (Some ks))
               (mbind (the_root X dc) (\<lambda>root.
                mbind (the_c dc) (\<lambda>c.
                mseq (grab_keys E X c root keysym m ks) (mret 0)))))))))))"

section \<open>Listening to the connection\<close>

definition OPCODES :: "int list" where "OPCODES = [2, 3, 34]"

definition autolh_name :: "int \<Rightarrow> di_string" where
  "autolh_name op = Some (''___auto_handle_for_'' @ int_string op)"

definition listen_opcode :: "env \<Rightarrow> addr \<Rightarrow> addr \<Rightarrow> addr \<Rightarrow> int \<Rightarrow> unit M" where
  "listen_opcode E k dc handler op =
     mbind (di_listen_to E dc (Some (''___raw_x_event_'' @ int_string op)) handler False) (\<lambda>(lh, _).
     case lh of
       None \<Rightarrow> mcrash Null_deref
     | Some l \<Rightarrow>
         mseq (check_ok (di_call_void_impl E l (di_string_borrow ''auto_stop'') [V_nint 1]))
         (check_ok (di_add_member_move E k (autolh_name op) (V_object l))))"

definition key_register_listener :: "env \<Rightarrow> addr \<Rightarrow> bool M" where
  "key_register_listener E k =
     mbind (di_weakly_ref_object k) (\<lambda>weak_k.
     scoped_weak weak_k
       (mbind (di_create_closure E ''handle_key'' DI_TYPE_NIL [V_weak_object weak_k] [DI_TYPE_POINTER]) (\<lambda>r.
        case r of
          Inl _ \<Rightarrow> mcrash Null_deref
        | Inr handler \<Rightarrow>
            scoped_object E (Some handler)
              (mbind (di_get E k (di_string_borrow XORG_CONNECTION_MEMBER) DI_TYPE_OBJECT) (\<lambda>(rc, v).
               case (rc = 0, v) of
                 (True, V_object dc) \<Rightarrow>
                   scoped_object E (Some dc)
                     (mseq (mforeach (listen_opcode E k dc handler) OPCODES)
                     (mseq (ignore_rc (di_add_member_clone E dc (strong_ext_name ''key'') (V_object k)))
                     (mret True)))
               | _ \<Rightarrow> mret False)))))"

definition key_deregister_listener :: "env \<Rightarrow> addr \<Rightarrow> unit M" where
  "key_deregister_listener E k =
     get_xorg_connection E k (mret ()) (\<lambda>dc.
       mseq (mforeach (\<lambda>op. ignore_rc (di_delete_member_raw E k (autolh_name op))) OPCODES)
       (ignore_rc (di_delete_member_raw E dc (strong_ext_name ''key''))))"

section \<open>Signals of a binding\<close>

definition keybinding_ptr_name :: "addr \<Rightarrow> di_string" where
  "keybinding_ptr_name obj = Some (''___keybinding_'' @ ptr_string obj)"

definition binding_has_signal :: "addr \<Rightarrow> bool M" where
  "binding_has_signal obj =
     mbind (di_has_member obj ''__signal_pressed'') (\<lambda>p.
     if p then mret True else di_has_member obj ''__signal_released'')"

text \<open>The result of registering the listeners is overwritten by that of adding the member.\<close>

definition keybinding_new_signal :: "env \<Rightarrow> x_host \<Rightarrow> c_string \<Rightarrow> addr \<Rightarrow> addr \<Rightarrow> unit M" where
  "keybinding_new_signal E X signal obj sig =
     mbind (binding_has_signal obj) (\<lambda>had_signal.
     mbind (di_add_member_clone E obj (di_string_borrow signal) (V_object sig)) (\<lambda>rc.
     if rc \<noteq> 0 then mret ()
     else if had_signal then mret ()
     else
     mbind (refresh_binding E X obj) (\<lambda>rc.
     if rc \<noteq> 0 then mbind (di_delete_member E obj (di_string_borrow signal) False) (\<lambda>_. mret ())
     else
     mbind (get_object_checked E obj ''___xorg_key_ext'') (\<lambda>key.
     scoped_object E (Some key)
       (mbind (count_ext_signal key 1) (\<lambda>(n, _).
        mseq (if n = 1 then mbind (key_register_listener E key) (\<lambda>_. mret ()) else mret ())
        (mbind (di_add_member_clone E key (keybinding_ptr_name obj) (V_object obj)) (\<lambda>rc.
         if rc = 0 then mret ()
         else mseq (ungrab E X obj)
              (mbind (di_delete_member E obj (di_string_borrow signal) False) (\<lambda>_. mret ()))))))))))"

definition keybinding_del_signal :: "env \<Rightarrow> x_host \<Rightarrow> c_string \<Rightarrow> addr \<Rightarrow> unit M" where
  "keybinding_del_signal E X signal obj =
     mbind (di_delete_member_raw E obj (di_string_borrow signal)) (\<lambda>rc.
     if rc \<noteq> 0 then mret ()
     else
     mbind (binding_has_signal obj) (\<lambda>has_signal.
     if has_signal then mret ()
     else
     mseq (ungrab E X obj)
     (mbind (get_object_checked E obj ''___xorg_key_ext'') (\<lambda>key.
      scoped_object E (Some key)
        (mbind (count_ext_signal key (-1)) (\<lambda>(n, _).
         mseq (if n = 0 then key_deregister_listener E key else mret ())
         (ignore_rc (di_delete_member_raw E key (keybinding_ptr_name obj)))))))))"

section \<open>New bindings\<close>

definition keybinding_name :: "u64 \<Rightarrow> di_string" where
  "keybinding_name i = Some (''___keybinding_'' @ dec_string (unat i))"

text \<open>The union of the modifiers; \<open>None\<close> when one of the names is unknown.\<close>

fun mods_of :: "int \<Rightarrow> di_variant list \<Rightarrow> int option" where
  "mods_of acc [] = Some acc"
| "mods_of acc (v # vs) =
     (let tmp = name_to_mod (string_of_variant v) in
      if tmp = XCB_NO_SYMBOL then None else mods_of (or acc tmp) vs)"

definition new_binding :: "env \<Rightarrow> x_host \<Rightarrow> addr \<Rightarrow> di_type \<Rightarrow> di_variant list \<Rightarrow> di_string \<Rightarrow> bool \<Rightarrow> addr M" where
  "new_binding E X k elem_type modifiers key intercept =
     get_xorg_connection E k (throw_new_error E ''key.c'' 228 ''new_binding'' ''Connection died'') (\<lambda>_.
       let ks = (case di_string_to_chars_alloc key of None \<Rightarrow> 0 | Some s \<Rightarrow> xh_keysym_from_name X (c_str s)) in
       if di_string_to_chars_alloc key = None then mcrash Null_deref
       else if ks = 0 then throw_new_error E ''key.c'' 234 ''new_binding'' ''Invalid key name''
       else if modifiers \<noteq> [] \<and> elem_type \<noteq> DI_TYPE_STRING
       then throw_new_error E ''key.c'' 238 ''new_binding'' ''Invalid modifiers''
       else
       case mods_of 0 modifiers of
         None \<Rightarrow> throw_new_error E ''key.c'' 246 ''new_binding'' ''Invalid modifiers''
       | Some m \<Rightarrow>
           mbind (di_new_object_with_type (P_keybinding ks None (of_int m) intercept)) (\<lambda>kb.
           mseq (di_set_object_dtor kb (Some ''binding_dtor''))
           (mbind (get_key k) (\<lambda>(_, _, nb).
            mseq (ignore_rc (di_add_member_clone E k (keybinding_name nb) (V_object kb)))
            (mseq (set_next_binding k (nb + 1))
            (mseq (di_signal_setter_deleter_with_signal_name E kb ''pressed'' ''keybinding_new_signal'' ''keybinding_del_signal'')
            (mseq (di_signal_setter_deleter_with_signal_name E kb ''released'' ''keybinding_new_signal'' ''keybinding_del_signal'')
            (mseq (ignore_rc (di_member_clone E kb ''___xorg_key_ext'' (V_object k)))
            (mbind (refresh_binding E X kb) (\<lambda>ret.
             if ret \<noteq> 0
             then mseq (di_unref_object E kb)
                  (throw_new_error E ''key.c'' 272 ''new_binding'' ''Failed to setup key grab'')
             else mret kb))))))))))"

section \<open>Events\<close>

text \<open>
  The modifiers a key code is mapped to.  The loop runs over \<^verbatim>\<open>r->length\<close>, which is the length of the reply in units
  of four bytes.
\<close>

definition mod_bits :: "nat \<Rightarrow> nat \<Rightarrow> u8 list \<Rightarrow> u8 \<Rightarrow> u16" where
  "mod_bits per len kcs kc =
     foldl (\<lambda>ret i. if kcs ! i \<noteq> 0 \<and> kcs ! i = kc then or ret (push_bit (i div per) 1) else ret) 0 [0..<len]"

definition mod_from_keycode :: "x_host \<Rightarrow> addr \<Rightarrow> u8 \<Rightarrow> u16 M" where
  "mod_from_keycode X dc kc =
     mbind (the_c dc) (\<lambda>c.
     mbind (x_reply (\<lambda>h. xh_modifier_mapping X h c)) (\<lambda>r.
     case r of
       None \<Rightarrow> mret 0
     | Some (per, len, kcs) \<Rightarrow>
         if per = 0 then mret 0
         else
         case kcs of
           None \<Rightarrow> mret 0
         | Some ks \<Rightarrow> if length ks < unat len then mcrash Out_of_bounds else mret (mod_bits (unat per) (unat len) ks kc)))"

text \<open>
  The key codes of a binding are read again after every emission; \<open>j\<close> is the index, and the terminator follows the
  last key code.
\<close>

fun emit_binding :: "nat \<Rightarrow> env \<Rightarrow> addr \<Rightarrow> c_string \<Rightarrow> u8 \<Rightarrow> nat \<Rightarrow> bool \<Rightarrow> bool M" where
  "emit_binding 0 E kb event kc j intercept = mcrash Out_of_fuel"
| "emit_binding (Suc n) E kb event kc j intercept =
     mbind (get_kb kb) (\<lambda>(_, kcs, _, ic).
     case kcs of
       None \<Rightarrow> mcrash Null_deref
     | Some ks \<Rightarrow>
         if j = length ks then mret intercept
         else if j > length ks then mcrash Out_of_bounds
         else if ks ! j = kc
         then mseq (di_emit E kb event []) (emit_binding n E kb event kc (Suc j) (intercept \<or> ic))
         else emit_binding n E kb event kc (Suc j) intercept)"

fun emit_bindings :: "nat \<Rightarrow> env \<Rightarrow> addr \<Rightarrow> c_string \<Rightarrow> u8 \<Rightarrow> u16 \<Rightarrow> u64 \<Rightarrow> bool \<Rightarrow> bool M" where
  "emit_bindings 0 E k event kc m i intercept = mcrash Out_of_fuel"
| "emit_bindings (Suc n) E k event kc m i intercept =
     mbind (get_key k) (\<lambda>(_, _, nb).
     if \<not> i < nb then mret intercept
     else
     mbind (di_get E k (keybinding_name i) DI_TYPE_OBJECT) (\<lambda>(rc, v).
     case (rc = 0, v) of
       (True, V_object kb) \<Rightarrow>
         mbind (scoped_object E (Some kb)
                 (mbind (get_kb kb) (\<lambda>(_, _, km, _).
                  if km \<noteq> m then mret intercept else emit_binding (e_fuel E) E kb event kc 0 intercept))) (\<lambda>ic.
         emit_bindings n E k event kc m (i + 1) ic)
     | _ \<Rightarrow> mcrash Panic))"

fun refresh_bindings :: "nat \<Rightarrow> env \<Rightarrow> x_host \<Rightarrow> addr \<Rightarrow> u64 \<Rightarrow> unit M" where
  "refresh_bindings 0 E X k i = mcrash Out_of_fuel"
| "refresh_bindings (Suc n) E X k i =
     mbind (get_key k) (\<lambda>(_, _, nb).
     if \<not> i < nb then mret ()
     else
     mbind (di_get E k (keybinding_name i) DI_TYPE_OBJECT) (\<lambda>(rc, v).
     case (rc = 0, v) of
       (True, V_object kb) \<Rightarrow>
         mseq (scoped_object E (Some kb)
                (mbind (refresh_binding E X kb) (\<lambda>ret. if ret \<noteq> 0 then di_finalize_object E kb else mret ())))
         (refresh_bindings n E X k (i + 1))
     | _ \<Rightarrow> mcrash Panic))"

definition XCB_KEY_PRESS :: u8 where "XCB_KEY_PRESS = 2"
definition XCB_KEY_RELEASE :: u8 where "XCB_KEY_RELEASE = 3"
definition XCB_MAPPING_NOTIFY :: u8 where "XCB_MAPPING_NOTIFY = 34"
definition XCB_MAPPING_POINTER :: u8 where "XCB_MAPPING_POINTER = 2"

definition dispatch_key :: "env \<Rightarrow> addr \<Rightarrow> addr \<Rightarrow> c_string \<Rightarrow> u8 \<Rightarrow> u16 \<Rightarrow> unit M" where
  "dispatch_key E k dc event kc m =
     mbind (emit_bindings (e_fuel E) E k event kc m 0 False) (\<lambda>intercept.
     mbind (the_c dc) (\<lambda>c.
     mseq (emit_effect (X_allow_events c (\<not> intercept))) (emit_effect (X_flush c))))"

definition handle_key :: "env \<Rightarrow> x_host \<Rightarrow> addr \<Rightarrow> x_event \<Rightarrow> unit M" where
  "handle_key E X weak_ext ev =
     mbind (di_upgrade_weak_ref weak_ext) (\<lambda>ext.
     case ext of
       None \<Rightarrow> mret ()
     | Some k \<Rightarrow>
         scoped_object E (Some k)
           (get_xorg_connection E k (mret ()) (\<lambda>dc.
              if xe_response_type ev = XCB_KEY_PRESS
              then dispatch_key E k dc ''pressed'' (xe_detail ev) (xe_state ev)
              else if xe_response_type ev = XCB_KEY_RELEASE
              then mbind (mod_from_keycode X dc (xe_detail ev)) (\<lambda>own.
                   dispatch_key E k dc ''released'' (xe_detail ev) (and (xe_state ev) (not own)))
              else if xe_response_type ev = XCB_MAPPING_NOTIFY
              then (if xe_mapping_request ev = XCB_MAPPING_POINTER then mret ()
                    else mbind (get_key k) (\<lambda>(_, keysyms, _).
                         if xh_refresh_mapping X keysyms ev then refresh_bindings (e_fuel E) E X k 0 else mret ()))
              else mret ())))"

definition free_key :: "addr \<Rightarrow> unit M" where
  "free_key k = mbind (get_key k) (\<lambda>_. mret ())"

definition new_key :: "env \<Rightarrow> x_host \<Rightarrow> addr \<Rightarrow> addr M" where
  "new_key E X dc =
     mbind (the_c dc) (\<lambda>c.
     mbind (di_new_object_with_type (P_xorg_key 0 (xh_keysyms_alloc X c) 0)) (\<lambda>k.
     mseq (ignore_rc (di_set_type E k ''deai.plugin.xorg:Key''))
     (mseq (save_xorg_connection E k dc)
     (mseq (ignore_rc (di_method E k ''new'' ''new_binding'' DI_TYPE_OBJECT [DI_TYPE_ARRAY, DI_TYPE_STRING, DI_TYPE_BOOL]))
     (mseq (di_set_object_dtor k (Some ''free_key''))
     (mret k))))))"

end
