(* ===== verification/Deai_Xinput.thy ===== *)
theory Deai_Xinput
  imports Deai_Xorg
begin

text \<open>
  Input devices, \<^verbatim>\<open>plugins/xorg/xinput.c\<close>: the selection of events with a count of listeners per event, device objects,
  and device properties, which are converted between the values of deai and the items of the X protocol.
\<close>

section \<open>Selecting events\<close>

definition XI_LASTEVENT :: nat where "XI_LASTEVENT = 26"
definition XCB_INPUT_HIERARCHY :: nat where "XCB_INPUT_HIERARCHY = 11"

definition set_mask :: "u8 list \<Rightarrow> nat \<Rightarrow> u8 list" where
  "set_mask a m = a[m div 8 := or (a ! (m div 8)) (push_bit (m mod 8) 1)]"

definition clear_mask :: "u8 list \<Rightarrow> nat \<Rightarrow> u8 list" where
  "clear_mask a m = a[m div 8 := and (a ! (m div 8)) (not (push_bit (m mod 8) 1))]"

definition get_xi :: "addr \<Rightarrow> (u8 \<times> u8 list \<times> u32 list) M" where
  "get_xi xi =
     mbind (get_obj xi) (\<lambda>ob. case payload ob of P_xorg_xinput _ op ms lc \<Rightarrow> mret (op, ms, lc) | _ \<Rightarrow> mcrash Out_of_bounds)"

definition set_xi :: "addr \<Rightarrow> u8 list \<Rightarrow> u32 list \<Rightarrow> unit M" where
  "set_xi xi ms lc =
     upd_obj xi (\<lambda>ob. case payload ob of P_xorg_xinput n op _ _ \<Rightarrow> ob\<lparr>payload := P_xorg_xinput n op ms lc\<rparr> | _ \<Rightarrow> ob)"

definition select_events :: "env \<Rightarrow> x_host \<Rightarrow> addr \<Rightarrow> u8 list \<Rightarrow> unit M" where
  "select_events E X dc ms =
     mbind (the_root X dc) (\<lambda>root.
     mbind (the_c dc) (\<lambda>c.
     mbind (x_checked X (Xi_select_events c root ms)) (\<lambda>ok.
     if ok then mret () else log_error E (''select events failed'' @ [CHR 10]))))"

definition di_xorg_xi_start_listen_for_event :: "env \<Rightarrow> x_host \<Rightarrow> addr \<Rightarrow> nat \<Rightarrow> unit M" where
  "di_xorg_xi_start_listen_for_event E X xi ev =
     get_xorg_connection E xi (mret ()) (\<lambda>dc.
       if ev > XI_LASTEVENT then log_error E (''invalid xi event number '' @ dec_string ev)
       else
       mbind (get_xi xi) (\<lambda>(_, ms, lc).
       let n = lc ! ev + 1 in
       mseq (set_xi xi ms (lc[ev := n]))
       (if n > 1 then mret ()
        else mseq (set_xi xi (set_mask ms ev) (lc[ev := n])) (select_events E X dc (set_mask ms ev)))))"

definition di_xorg_xi_stop_listen_for_event :: "env \<Rightarrow> x_host \<Rightarrow> addr \<Rightarrow> nat \<Rightarrow> unit M" where
  "di_xorg_xi_stop_listen_for_event E X xi ev =
     get_xorg_connection E xi (mret ()) (\<lambda>dc.
       if ev > XI_LASTEVENT then log_error E (''invalid xi event number '' @ dec_string ev)
       else
       mbind (get_xi xi) (\<lambda>(_, ms, lc).
       mseq (mcheck Assert_failed (lc ! ev > 0))
       (let n = lc ! ev - 1 in
        mseq (set_xi xi ms (lc[ev := n]))
        (if n > 0 then mret ()
         else mseq (set_xi xi (clear_mask ms ev) (lc[ev := n])) (select_events E X dc (clear_mask ms ev))))))"

definition enable_hierarchy_event :: "env \<Rightarrow> x_host \<Rightarrow> addr \<Rightarrow> unit M" where
  "enable_hierarchy_event E X xi = di_xorg_xi_start_listen_for_event E X xi XCB_INPUT_HIERARCHY"

definition disable_hierarchy_event :: "env \<Rightarrow> x_host \<Rightarrow> addr \<Rightarrow> unit M" where
  "disable_hierarchy_event E X xi = di_xorg_xi_stop_listen_for_event E X xi XCB_INPUT_HIERARCHY"

definition di_xorg_free_xinput :: "env \<Rightarrow> x_host \<Rightarrow> addr \<Rightarrow> unit M" where
  "di_xorg_free_xinput E X xi =
     get_xorg_connection E xi (mret ()) (\<lambda>dc.
       mbind (get_xc dc) (\<lambda>x.
       case xc_c x of
         None \<Rightarrow> mret ()
       | Some c \<Rightarrow>
           mbind (get_xi xi) (\<lambda>(_, _, lc).
           mseq (set_xi xi [0, 0, 0, 0] lc)
           (mbind (the_root X dc) (\<lambda>root.
            mseq (emit_effect (Xi_select_events c root [0, 0, 0, 0])) (select_events E X dc [0, 0, 0, 0]))))))"

section \<open>Devices\<close>

definition get_dev :: "addr \<Rightarrow> (int \<times> addr) M" where
  "get_dev dev =
     mbind (get_obj dev) (\<lambda>ob. case payload ob of P_xinput_device devid xi \<Rightarrow> mret (devid, xi) | _ \<Rightarrow> mcrash Out_of_bounds)"

text \<open>The entry of a device in the reply: its use and its name.\<close>

definition xcb_input_get_device_info :: "x_host \<Rightarrow> addr \<Rightarrow> int \<Rightarrow> (u16 \<times> u16 \<times> char list) option M" where
  "xcb_input_get_device_info X dc deviceid =
     mbind (the_c dc) (\<lambda>c.
     mbind (x_reply (\<lambda>h. xh_xi_devices X h c (of_int deviceid))) (\<lambda>r.
     case r of
       None \<Rightarrow> mret None
     | Some infos \<Rightarrow> mret (List.find (\<lambda>(i, _, _). i = of_int deviceid) infos)))"

definition di_xorg_xinput_get_device_name :: "env \<Rightarrow> x_host \<Rightarrow> addr \<Rightarrow> di_string M" where
  "di_xorg_xinput_get_device_name E X dev =
     mbind (get_dev dev) (\<lambda>(devid, xi).
     get_xorg_connection E xi (mret (di_string_dup (Some ''unknown''))) (\<lambda>dc.
       mbind (xcb_input_get_device_info X dc devid) (\<lambda>info.
       case info of
         None \<Rightarrow> mret (di_string_dup (Some ''unknown''))
       | Some (_, _, name) \<Rightarrow> mret (di_string_ndup name (length name)))))"

definition device_use :: "u16 \<Rightarrow> c_string" where
  "device_use t =
     (if t = 2 then ''master keyboard'' else if t = 4 then ''keyboard''
      else if t = 1 then ''master pointer'' else if t = 3 then ''pointer'' else ''unknown'')"

definition di_xorg_xinput_get_device_use :: "env \<Rightarrow> x_host \<Rightarrow> addr \<Rightarrow> c_string M" where
  "di_xorg_xinput_get_device_use E X dev =
     mbind (get_dev dev) (\<lambda>(devid, xi).
     get_xorg_connection E xi (mret ''unknown'') (\<lambda>dc.
       mbind (xcb_input_get_device_info X dc devid) (\<lambda>info.
       case info of None \<Rightarrow> mret ''unknown'' | Some (_, t, _) \<Rightarrow> mret (device_use t))))"

text \<open>A device that is not listed leaves the iterator behind the last device.\<close>

definition di_xorg_xinput_get_device_type :: "env \<Rightarrow> x_host \<Rightarrow> addr \<Rightarrow> di_string M" where
  "di_xorg_xinput_get_device_type E X dev =
     mbind (get_dev dev) (\<lambda>(devid, xi).
     get_xorg_connection E xi (mret (di_string_dup (Some ''unknown''))) (\<lambda>dc.
       mbind (the_c dc) (\<lambda>c.
       mbind (x_reply (\<lambda>h. xh_input_devices X h c)) (\<lambda>r.
       case r of
         None \<Rightarrow> mcrash Null_deref
       | Some ds \<Rightarrow>
           (case List.find (\<lambda>(i, _). uint i = devid) ds of
              None \<Rightarrow> mcrash Out_of_bounds
            | Some (_, atom) \<Rightarrow>
                mbind (di_xorg_get_atom_name X dc atom) (\<lambda>dname.
                case dname of
                  None \<Rightarrow> mret (di_string_dup (Some ''unknown''))
                | Some n \<Rightarrow> mret (di_string_tolower (Some n))))))))"

definition di_xorg_xinput_get_device_id :: "addr \<Rightarrow> int M" where
  "di_xorg_xinput_get_device_id dev = mbind (get_dev dev) (\<lambda>(devid, _). mret devid)"

section \<open>Writing properties\<close>

text \<open>The elements of the value that is set, with their type.\<close>

fun prop_elems :: "di_variant \<Rightarrow> di_type \<times> di_variant list" where
  "prop_elems (V_array t vs) = (t, vs)"
| "prop_elems v = (typeof v, [v])"

text \<open>
  \<^verbatim>\<open>i64\<close> and \<^verbatim>\<open>f\<close> of an element.  \<open>Inl True\<close> is the jump to \<^verbatim>\<open>err\<close>, \<open>Inl False\<close> the silent return when a name cannot be
  interned.
\<close>

definition INT64_MIN :: int where "INT64_MIN = - (2 ^ 63)"

definition read_elem :: "env \<Rightarrow> x_host \<Rightarrow> addr \<Rightarrow> u32 \<Rightarrow> di_variant \<Rightarrow> (bool + int \<times> u32) M" where
  "read_elem E X dc type v =
     (case v of
        V_int n \<Rightarrow> mret (Inr (sint n, xh_int_to_float X (sint n)))
      | V_uint n \<Rightarrow> mret (Inr (sint n, xh_int_to_float X (sint n)))
      | V_nint n \<Rightarrow> mret (Inr (sint n, xh_int_to_float X (sint n)))
      | V_nuint n \<Rightarrow> mret (Inr (uint n, xh_int_to_float X (uint n)))
      | V_float d \<Rightarrow> mret (Inr (INT64_MIN, xh_double_to_float X d))
      | V_string s \<Rightarrow>
          if type \<noteq> XCB_ATOM_ATOM then mret (Inl True)
          else mbind (di_xorg_intern_atom E X dc s) (\<lambda>(a, e). mret (if e then Inl False else Inr (uint a, 0)))
      | V_string_literal s \<Rightarrow>
          if type \<noteq> XCB_ATOM_ATOM then mret (Inl True)
          else mbind (di_xorg_intern_atom E X dc (di_string_borrow s)) (\<lambda>(a, e). mret (if e then Inl False else Inr (uint a, 0)))
      | V_last \<Rightarrow> mcrash Panic
      | _ \<Rightarrow> mret (Inl True))"

text \<open>The item an element becomes; \<open>None\<close> leaves the pointer of the item null.\<close>

definition item_of :: "u32 \<Rightarrow> u32 \<Rightarrow> u8 \<Rightarrow> di_type \<Rightarrow> int \<Rightarrow> u32 \<Rightarrow> bool + u32 option" where
  "item_of float_atom type format elem_type i64 f =
     (if type = XCB_ATOM_INTEGER \<or> type = XCB_ATOM_CARDINAL
      then (if elem_type = DI_TYPE_FLOAT \<or> elem_type = DI_TYPE_STRING \<or> elem_type = DI_TYPE_STRING_LITERAL then Inl True
            else if format = 8 then Inr (Some (ucast (of_int i64 :: 8 word)))
            else if format = 16 then Inr (Some (ucast (of_int i64 :: 16 word)))
            else if format = 32 then Inr (Some (of_int i64))
            else Inr None)
      else if type = float_atom
      then (if elem_type = DI_TYPE_STRING \<or> elem_type = DI_TYPE_STRING_LITERAL then Inl True else Inr (Some f))
      else if type = XCB_ATOM_ATOM
      then (if elem_type \<noteq> DI_TYPE_STRING then Inl True else Inr (Some (of_int i64)))
      else Inr None)"

fun prop_items :: "env \<Rightarrow> x_host \<Rightarrow> addr \<Rightarrow> u32 \<Rightarrow> u32 \<Rightarrow> u8 \<Rightarrow> di_type \<Rightarrow> di_variant list \<Rightarrow> (bool + u32 option list) M" where
  "prop_items E X dc float_atom type format t [] = mret (Inr [])"
| "prop_items E X dc float_atom type format t (v # vs) =
     mbind (read_elem E X dc type v) (\<lambda>r.
     case r of
       Inl b \<Rightarrow> mret (Inl b)
     | Inr (i64, f) \<Rightarrow>
         (case item_of float_atom type format t i64 f of
            Inl b \<Rightarrow> mret (Inl b)
          | Inr it \<Rightarrow>
              mbind (prop_items E X dc float_atom type format t vs) (\<lambda>r.
              case r of Inl b \<Rightarrow> mret (Inl b) | Inr its \<Rightarrow> mret (Inr (it # its)))))"

text \<open>The request reads the first item for the address of all of them.\<close>

definition change_property :: "env \<Rightarrow> x_host \<Rightarrow> addr \<Rightarrow> int \<Rightarrow> di_string \<Rightarrow> u32 \<Rightarrow> u32 \<Rightarrow> u8 \<Rightarrow> u32 option list \<Rightarrow> unit M" where
  "change_property E X dc devid key prop_atom type format items =
     (case items of
        [] \<Rightarrow> mcrash Out_of_bounds
      | None # _ \<Rightarrow> mcrash Null_deref
      | Some _ # _ \<Rightarrow>
          mbind (the_c dc) (\<lambda>c.
          mbind (x_checked X (Xi_change_property c devid (ucast format) prop_atom type (map the items))) (\<lambda>ok.
          if ok then mret () else log_error E (''Failed to set property '' @ [CHR 0x27] @ str_bytes key @ [CHR 0x27, CHR 10]))))"

definition di_xorg_xinput_set_prop :: "env \<Rightarrow> x_host \<Rightarrow> addr \<Rightarrow> di_string \<Rightarrow> di_variant \<Rightarrow> unit M" where
  "di_xorg_xinput_set_prop E X dev key var =
     mbind (get_dev dev) (\<lambda>(devid, xi).
     get_xorg_connection E xi (mret ()) (\<lambda>dc.
       let (elem_type, elems) = prop_elems var in
       mbind (di_xorg_intern_atom E X dc key) (\<lambda>(prop_atom, e).
       if e then mret ()
       else
       mbind (di_xorg_intern_atom E X dc (di_string_borrow ''FLOAT'')) (\<lambda>(float_atom, _).
       mbind (the_c dc) (\<lambda>c.
       mbind (x_reply (\<lambda>h. xh_xi_property X h c devid prop_atom 0)) (\<lambda>p.
       case p of
         None \<Rightarrow> mcrash Null_deref
       | Some prop \<Rightarrow>
           if xp_type prop = XCB_ATOM_NONE
           then ignore_rc (di_log_va E DI_LOG_DEBUG (''setting non-existent property: '' @ str_bytes key @ [CHR 10]))
           else if (xp_type prop = float_atom \<or> xp_type prop = XCB_ATOM_ATOM) \<and> xp_format prop \<noteq> 32
           then log_error E (''Xorg return invalid format for float/atom type: '' @ dec_string (unat (xp_format prop)) @ [CHR 10])
           else
           mbind (prop_items E X dc float_atom (xp_type prop) (xp_format prop) elem_type elems) (\<lambda>r.
           case r of
             Inl True \<Rightarrow>
               log_error E (''Try to set xinput property '' @ [CHR 0x27] @ str_bytes key @ [CHR 0x27] @ '' with wrong type of data '' @
                 dec_string (di_type_num elem_type) @ [CHR 10])
           | Inl False \<Rightarrow> mret ()
           | Inr items \<Rightarrow> change_property E X dc devid key prop_atom (xp_type prop) (xp_format prop) items)))))))"

section \<open>Reading properties\<close>

definition prop_elem_type :: "u32 \<Rightarrow> u32 \<Rightarrow> di_type option" where
  "prop_elem_type float_atom type =
     (if type = XCB_ATOM_INTEGER \<or> type = XCB_ATOM_CARDINAL then Some DI_TYPE_INT
      else if type = XCB_ATOM_ATOM \<or> type = XCB_ATOM_STRING then Some DI_TYPE_STRING
      else if type = float_atom then Some DI_TYPE_FLOAT
      else None)"

definition atom_value :: "x_host \<Rightarrow> addr \<Rightarrow> u32 \<Rightarrow> di_variant M" where
  "atom_value X dc a =
     mbind (di_xorg_get_atom_name X dc a) (\<lambda>n.
     case n of
       None \<Rightarrow> mret (V_string DI_STRING_INIT)
     | Some _ \<Rightarrow>
         mbind (di_xorg_get_atom_name X dc a) (\<lambda>n.
         case n of None \<Rightarrow> mcrash Null_deref | Some s \<Rightarrow> mret (V_string (di_clone_string (Some s)))))"

definition item_value :: "x_host \<Rightarrow> addr \<Rightarrow> di_type \<Rightarrow> u32 \<Rightarrow> di_variant M" where
  "item_value X dc t it =
     (if t = DI_TYPE_INT then mret (V_int (ucast it))
      else if t = DI_TYPE_STRING then atom_value X dc it
      else mret (V_float (xh_float_to_double X it)))"

text \<open>A string is read up to a zero byte, which need not be in the property.\<close>

definition string_prop :: "x_property \<Rightarrow> di_variant M" where
  "string_prop prop =
     (let bytes = map (\<lambda>it. char_of (unat it)) (xp_items prop) in
      mseq (mcheck Panic (xp_format prop = 8))
      (if NUL \<in> set bytes then mret (V_variant (V_string (di_string_dup (Some (c_str bytes))))) else mcrash Out_of_bounds))"

definition read_prop :: "env \<Rightarrow> x_host \<Rightarrow> addr \<Rightarrow> u32 \<Rightarrow> x_property \<Rightarrow> di_variant M" where
  "read_prop E X dc float_atom prop =
     (case prop_elem_type float_atom (xp_type prop) of
        None \<Rightarrow>
          mseq (ignore_rc (di_log_va E DI_LOG_WARN (''Unknown property type '' @ int_string (sint (xp_type prop)) @ [CHR 10])))
          (throw_new_error E ''xinput.c'' 454 ''di_xorg_xinput_get_prop''
             (''Property has unknown type: '' @ int_string (sint (xp_type prop))))
      | Some t \<Rightarrow>
          if xp_format prop \<noteq> 8 \<and> xp_format prop \<noteq> 16 \<and> xp_format prop \<noteq> 32
          then mseq (ignore_rc (di_log_va E DI_LOG_WARN (''Xorg returns invalid format '' @ dec_string (unat (xp_format prop)) @ [CHR 10])))
               (throw_new_error E ''xinput.c'' 459 ''di_xorg_xinput_get_prop''
                  (''Property has invalid format '' @ hex_string (unat (xp_format prop))))
          else if (xp_type prop = float_atom \<or> xp_type prop = XCB_ATOM_ATOM) \<and> xp_format prop \<noteq> 32
          then mseq (ignore_rc (di_log_va E DI_LOG_WARN (''Xorg return invalid format for float/atom '' @
                       dec_string (unat (xp_format prop)) @ [CHR 10])))
               (throw_new_error E ''xinput.c'' 464 ''di_xorg_xinput_get_prop'' ''X server is misbehaving'')
          else if xp_type prop = XCB_ATOM_STRING then string_prop prop
          else
          mbind (mmap (item_value X dc t) (xp_items prop)) (\<lambda>vs.
          mret (V_variant (case vs of [v] \<Rightarrow> v | _ \<Rightarrow> V_array t vs))))"

definition di_xorg_xinput_get_prop :: "env \<Rightarrow> x_host \<Rightarrow> addr \<Rightarrow> di_string \<Rightarrow> di_variant M" where
  "di_xorg_xinput_get_prop E X dev name =
     mbind (get_dev dev) (\<lambda>(devid, xi).
     get_xorg_connection E xi (throw_new_error E ''xinput.c'' 413 ''di_xorg_xinput_get_prop'' ''Lost X connection'') (\<lambda>dc.
       mbind (di_xorg_intern_atom E X dc name) (\<lambda>(prop_atom, e).
       if e then throw_new_error E ''xinput.c'' 421 ''di_xorg_xinput_get_prop'' ''Failed to intern atom''
       else
       mbind (di_xorg_intern_atom E X dc (di_string_borrow ''FLOAT'')) (\<lambda>(float_atom, _).
       mbind (the_c dc) (\<lambda>c.
       mbind (x_reply (\<lambda>h. xh_xi_property X h c devid prop_atom 0)) (\<lambda>p.
       case p of
         None \<Rightarrow> mcrash Null_deref
       | Some prop \<Rightarrow>
           if xp_type prop = XCB_ATOM_NONE then mret (V_variant V_last)
           else
           mbind (x_reply (\<lambda>h. xh_xi_property X h c devid prop_atom (xp_bytes_after prop))) (\<lambda>p.
           case p of
             None \<Rightarrow> mcrash Null_deref
           | Some prop \<Rightarrow>
               if xp_type prop = XCB_ATOM_NONE then mret (V_variant V_last)
               else read_prop E X dc float_atom prop)))))))"

section \<open>Device objects\<close>

text \<open>The object with the properties has the pointer to the extension without a reference.\<close>

definition di_xorg_xinput_props :: "env \<Rightarrow> addr \<Rightarrow> addr M" where
  "di_xorg_xinput_props E dev =
     mbind (get_dev dev) (\<lambda>(devid, xi).
     mbind (di_new_object_with_type (P_xinput_device devid xi)) (\<lambda>obj.
     mseq (ignore_rc (di_set_type E obj ''deai.plugin.xorg.xi:Device''))
     (mseq (ignore_rc (di_method E obj ''__get'' ''di_xorg_xinput_get_prop'' DI_TYPE_VARIANT [DI_TYPE_STRING]))
     (mseq (ignore_rc (di_method E obj ''__set'' ''di_xorg_xinput_set_prop'' DI_TYPE_NIL [DI_TYPE_STRING, DI_TYPE_VARIANT]))
     (mret obj)))))"

definition free_xi_device_object :: "env \<Rightarrow> addr \<Rightarrow> unit M" where
  "free_xi_device_object E obj = mbind (get_dev obj) (\<lambda>(_, xi). di_unref_object E xi)"

definition di_xorg_make_object_for_devid :: "env \<Rightarrow> addr \<Rightarrow> int \<Rightarrow> addr M" where
  "di_xorg_make_object_for_devid E xi deviceid =
     mbind (di_new_object_with_type (P_xinput_device deviceid xi)) (\<lambda>obj.
     mseq (ignore_rc (di_set_type E obj ''deai.plugin.xorg.xi:Device''))
     (mbind (di_ref_object xi) (\<lambda>_.
      mseq (di_set_object_dtor obj (Some ''free_xi_device_object''))
      (mseq (ignore_rc (di_method E obj ''__get_name'' ''di_xorg_xinput_get_device_name'' DI_TYPE_STRING []))
      (mseq (ignore_rc (di_method E obj ''__get_use'' ''di_xorg_xinput_get_device_use'' DI_TYPE_STRING_LITERAL []))
      (mseq (ignore_rc (di_method E obj ''__get_id'' ''di_xorg_xinput_get_device_id'' DI_TYPE_NINT []))
      (mseq (ignore_rc (di_method E obj ''__get_type'' ''di_xorg_xinput_get_device_type'' DI_TYPE_STRING []))
      (mseq (ignore_rc (di_method E obj ''__get_props'' ''di_xorg_xinput_props'' DI_TYPE_OBJECT []))
      (mret obj)))))))))"

definition di_xorg_get_all_devices :: "env \<Rightarrow> x_host \<Rightarrow> addr \<Rightarrow> di_variant M" where
  "di_xorg_get_all_devices E X xi =
     get_xorg_connection E xi (mret (V_array DI_TYPE_ANY [])) (\<lambda>dc.
       mbind (the_c dc) (\<lambda>c.
       mbind (x_reply (\<lambda>h. xh_xi_devices X h c 0)) (\<lambda>r.
       case r of
         None \<Rightarrow> mcrash Null_deref
       | Some infos \<Rightarrow>
           mbind (mmap (\<lambda>(i, _, _). di_xorg_make_object_for_devid E xi (uint i)) infos) (\<lambda>os.
           mret (V_array DI_TYPE_OBJECT (map V_object os))))))"

section \<open>Events\<close>

definition hierarchy_signals :: "(u32 \<times> c_string) list" where
  "hierarchy_signals = [(4, ''new-device''), (64, ''device-enabled''), (128, ''device-disabled'')]"

definition hierarchy_change :: "env \<Rightarrow> addr \<Rightarrow> u16 \<times> u32 \<Rightarrow> unit M" where
  "hierarchy_change E xi info =
     mbind (di_xorg_make_object_for_devid E xi (uint (fst info))) (\<lambda>obj.
     mseq (mforeach (\<lambda>(m, name). if and (snd info) m \<noteq> 0 then di_emit E xi name [V_object obj] else mret ()) hierarchy_signals)
     (di_unref_object E obj))"

definition handle_xinput_event :: "env \<Rightarrow> addr \<Rightarrow> x_event \<Rightarrow> int M" where
  "handle_xinput_event E xi ev =
     (if xe_response_type ev \<noteq> XCB_GE_GENERIC then mret 1
      else
      mbind (get_xi xi) (\<lambda>(op, _, _).
      if xe_extension ev \<noteq> op then mret 1
      else
      mseq (if xe_event_type ev = of_nat XCB_INPUT_HIERARCHY then mforeach (hierarchy_change E xi) (xe_hierarchy ev) else mret ())
      (mret 0)))"

definition new_xinput :: "env \<Rightarrow> x_host \<Rightarrow> addr \<Rightarrow> addr option M" where
  "new_xinput E X dc =
     mbind (the_c dc) (\<lambda>c.
     if \<not> xorg_has_extension X c ''XInputExtension'' then mret None
     else
     case xh_query_extension X c ''XInputExtension'' of
       None \<Rightarrow> mret None
     | Some (opcode, _) \<Rightarrow>
         mbind (di_new_object_with_type (P_xorg_xinput 0 opcode [0, 0, 0, 0] (replicate (XI_LASTEVENT + 1) 0))) (\<lambda>xi.
         mseq (ignore_rc (di_set_type E xi ''deai.plugin.xorg:XiExt''))
         (mseq (di_set_object_dtor xi (Some ''di_xorg_free_xinput''))
         (mseq (save_xorg_connection E xi dc)
         (mseq (enable_hierarchy_event E X xi)
         (mseq (ignore_rc (di_method E xi ''__get_devices'' ''di_xorg_get_all_devices'' DI_TYPE_ARRAY []))
         (mseq (di_signal_setter_deleter_with_signal_name E xi ''new-device'' ''di_xorg_ext_signal_setter'' ''di_xorg_ext_signal_deleter'')
         (mseq (di_signal_setter_deleter_with_signal_name E xi ''device-enabled'' ''di_xorg_ext_signal_setter'' ''di_xorg_ext_signal_deleter'')
         (mseq (di_signal_setter_deleter_with_signal_name E xi ''device-disabled'' ''di_xorg_ext_signal_setter'' ''di_xorg_ext_signal_deleter'')
         (mret (Some xi)))))))))))"

end
