(* ===== verification/Deai_Randr.thy ===== *)
theory Deai_Randr
  imports Deai_Xorg Deai_Promise
begin

text \<open>
  Outputs, views and modes of the RandR extension, \<^verbatim>\<open>plugins/xorg/randr.c\<close>.
\<close>

section \<open>State\<close>

definition get_rr :: "addr \<Rightarrow> (u8 \<times> u32 \<times> u32) M" where
  "get_rr rr =
     mbind (get_obj rr) (\<lambda>ob. case payload ob of P_xorg_randr _ op evbase cts \<Rightarrow> mret (op, evbase, cts) | _ \<Rightarrow> mcrash Out_of_bounds)"

definition set_cts :: "addr \<Rightarrow> u32 \<Rightarrow> unit M" where
  "set_cts rr cts =
     upd_obj rr (\<lambda>ob. case payload ob of P_xorg_randr n op evbase _ \<Rightarrow> ob\<lparr>payload := P_xorg_randr n op evbase cts\<rparr> | _ \<Rightarrow> ob)"

definition rr_cts :: "addr \<Rightarrow> u32 M" where
  "rr_cts rr = mbind (get_rr rr) (\<lambda>(_, _, cts). mret cts)"

definition output_id :: "addr \<Rightarrow> u32 M" where
  "output_id o' = mbind (get_obj o') (\<lambda>ob. case payload ob of P_xorg_output i \<Rightarrow> mret i | _ \<Rightarrow> mcrash Out_of_bounds)"

definition view_id :: "addr \<Rightarrow> u32 M" where
  "view_id v = mbind (get_obj v) (\<lambda>ob. case payload ob of P_xorg_view i \<Rightarrow> mret i | _ \<Rightarrow> mcrash Out_of_bounds)"

text \<open>The extension an object belongs to, and its connection.\<close>

definition with_randr :: "env \<Rightarrow> addr \<Rightarrow> 'a M \<Rightarrow> (addr \<Rightarrow> addr \<Rightarrow> 'a M) \<Rightarrow> 'a M" where
  "with_randr E o' none some =
     mbind (get_object_checked E o' ''___randr'') (\<lambda>rr.
     scoped_object E (Some rr) (get_xorg_connection E rr none (some rr)))"

definition empty_object :: "addr M" where
  "empty_object = di_new_object_with_type P_object"

section \<open>Properties of an output\<close>

definition sign16 :: "u32 \<Rightarrow> u32" where
  "sign16 v = scast (ucast v :: 16 word)"

definition integer_items :: "x_property \<Rightarrow> di_variant list M" where
  "integer_items r =
     (if xp_items r = [] then mret []
      else if xp_format r = 16 then mret (map (\<lambda>v. V_nint (sign16 v)) (xp_items r))
      else if xp_format r = 32 then mret (map V_nint (xp_items r))
      else mcrash Assert_failed)"

definition atom_items :: "x_host \<Rightarrow> addr \<Rightarrow> x_property \<Rightarrow> di_variant list M" where
  "atom_items X dc r =
     (if xp_items r \<noteq> [] \<and> xp_format r \<noteq> 32 then mcrash Out_of_bounds
      else mmap (\<lambda>a. mbind (di_xorg_get_atom_name X dc a) (\<lambda>n.
                   case n of None \<Rightarrow> mcrash Null_deref | Some s \<Rightarrow> mret (V_string (di_clone_string (Some s))))) (xp_items r))"

definition property_value :: "x_host \<Rightarrow> addr \<Rightarrow> x_property \<Rightarrow> di_variant M" where
  "property_value X dc r =
     (if xp_type r = XCB_ATOM_INTEGER \<and> xp_format r = 8
      then mret (V_variant (V_string (di_string_ndup (map (\<lambda>v. char_of (unat v)) (xp_items r)) (length (xp_items r)))))
      else if xp_type r = XCB_ATOM_INTEGER then mbind (integer_items r) (\<lambda>vs. mret (V_variant (V_array DI_TYPE_NINT vs)))
      else if xp_type r = XCB_ATOM_ATOM then mbind (atom_items X dc r) (\<lambda>vs. mret (V_variant (V_array DI_TYPE_STRING vs)))
      else mret (V_variant V_nil))"

text \<open>The return codes of reading the two members are not tested; without them the code uses uninitialised variables.\<close>

definition output_props_getter :: "env \<Rightarrow> x_host \<Rightarrow> addr \<Rightarrow> di_string \<Rightarrow> di_variant M" where
  "output_props_getter E X this prop =
     mbind (di_get E this (di_string_borrow ''___randr'') DI_TYPE_OBJECT) (\<lambda>(rc, rv).
     case (rc = 0, rv) of
       (True, V_object rr) \<Rightarrow>
         scoped_object E (Some rr)
           (mbind (di_get E this (di_string_borrow ''___oid'') DI_TYPE_NUINT) (\<lambda>(rc, ov).
            case (rc = 0, ov) of
              (True, V_nuint oid) \<Rightarrow>
                get_xorg_connection E rr (mret (V_variant V_nil)) (\<lambda>dc.
                  mbind (di_xorg_intern_atom E X dc prop) (\<lambda>(atom, e).
                  if e then mret (V_variant V_nil)
                  else
                  mbind (the_c dc) (\<lambda>c.
                  mbind (x_reply (\<lambda>h. xh_output_property X h c oid atom 0xffffffff)) (\<lambda>r.
                  case r of
                    Inl True \<Rightarrow> mret (V_variant V_nil)
                  | Inl False \<Rightarrow> mcrash Null_deref
                  | Inr p \<Rightarrow> property_value X dc p))))
            | _ \<Rightarrow> mcrash Out_of_bounds))
     | _ \<Rightarrow> mcrash Out_of_bounds)"

definition get_output_props_object :: "env \<Rightarrow> addr \<Rightarrow> addr M" where
  "get_output_props_object E o' =
     mbind empty_object (\<lambda>ret.
     mbind (get_object_checked E o' ''___randr'') (\<lambda>rr.
     mseq (ignore_rc (di_member E ret ''___randr'' (V_object rr)))
     (mbind (output_id o') (\<lambda>i.
      mseq (ignore_rc (di_member_clone E ret ''___oid'' (V_nuint i)))
      (mseq (ignore_rc (di_method E ret ''__get'' ''output_props_getter'' DI_TYPE_VARIANT [DI_TYPE_STRING]))
      (mret ret))))))"

section \<open>Modes\<close>

text \<open>Doubles as bit patterns.  Halving and doubling keep a small integer different from zero.\<close>

definition two_double :: u64 where "two_double = 0x4000000000000000"
definition nan_double :: u64 where "nan_double = 0x7ff8000000000000"

definition mode_fps :: "x_host \<Rightarrow> x_mode_info \<Rightarrow> u64" where
  "mode_fps X m =
     (let v = int_to_double (uint (xm_vtotal m));
          v = (if bit (xm_flags m) 4 then xh_fdiv X v two_double else v);
          v = (if bit (xm_flags m) 5 then xh_fmul X v two_double else v) in
      if xm_htotal m \<noteq> 0 \<and> xm_vtotal m \<noteq> 0
      then xh_fdiv X (int_to_double (uint (xm_dot_clock m))) (xh_fmul X (int_to_double (uint (xm_htotal m))) v)
      else nan_double)"

definition make_object_for_modes :: "env \<Rightarrow> x_host \<Rightarrow> addr \<Rightarrow> x_mode_info \<Rightarrow> addr M" where
  "make_object_for_modes E X rr m =
     mbind (di_new_object_with_type (P_xorg_mode (xm_id m) (ucast (xm_width m)) (ucast (xm_height m)) (mode_fps X m)
              (bit (xm_flags m) 4) (bit (xm_flags m) 5))) (\<lambda>o'.
     mseq (ignore_rc (di_set_type E o' ''deai.plugin.xorg.randr:Mode''))
     (mseq (di_field E o' ''interlaced'' DI_TYPE_BOOL (sizeof_di_object + 24))
     (mseq (di_field E o' ''double_scan'' DI_TYPE_BOOL (sizeof_di_object + 25))
     (mseq (di_field E o' ''width'' DI_TYPE_NUINT (sizeof_di_object + 4))
     (mseq (di_field E o' ''height'' DI_TYPE_NUINT (sizeof_di_object + 8))
     (mseq (di_field E o' ''id'' DI_TYPE_NUINT sizeof_di_object)
     (mseq (di_field E o' ''fps'' DI_TYPE_FLOAT (sizeof_di_object + 16))
     (mret o'))))))))"

section \<open>Objects for outputs and views\<close>

definition di_getter :: "env \<Rightarrow> addr \<Rightarrow> c_string \<Rightarrow> fn_ptr \<Rightarrow> di_type \<Rightarrow> int M" where
  "di_getter E o' name g rtype = di_method E o' (''__get_'' @ name) g rtype []"

definition di_setter :: "env \<Rightarrow> addr \<Rightarrow> c_string \<Rightarrow> fn_ptr \<Rightarrow> di_type \<Rightarrow> int M" where
  "di_setter E o' name s t = di_method E o' (''__set_'' @ name) s DI_TYPE_NIL [t]"

definition di_getter_setter :: "env \<Rightarrow> addr \<Rightarrow> c_string \<Rightarrow> fn_ptr \<Rightarrow> fn_ptr \<Rightarrow> di_type \<Rightarrow> int M" where
  "di_getter_setter E o' name g s t =
     mbind (di_getter E o' name g t) (\<lambda>rc. if rc \<noteq> 0 then mret rc else di_setter E o' name s t)"

definition make_object_for_output :: "env \<Rightarrow> addr \<Rightarrow> u32 \<Rightarrow> addr M" where
  "make_object_for_output E rr oid =
     mbind (di_has_member rr XORG_CONNECTION_MEMBER) (\<lambda>has.
     mseq (mcheck Panic has)
     (mbind (di_new_object_with_type (P_xorg_output oid)) (\<lambda>obj.
      mseq (ignore_rc (di_set_type E obj ''deai.plugin.xorg.randr:Output''))
      (mseq (di_field E obj ''id'' DI_TYPE_NUINT sizeof_di_object)
      (mseq (ignore_rc (di_getter E obj ''current_view'' ''get_output_current_view'' DI_TYPE_OBJECT))
      (mseq (ignore_rc (di_getter E obj ''views'' ''get_output_views'' DI_TYPE_ARRAY))
      (mseq (ignore_rc (di_getter E obj ''info'' ''get_output_info'' DI_TYPE_OBJECT))
      (mseq (ignore_rc (di_getter_setter E obj ''backlight'' ''get_output_backlight'' ''set_output_backlight'' DI_TYPE_NINT))
      (mseq (ignore_rc (di_getter E obj ''max_backlight'' ''get_output_max_backlight'' DI_TYPE_NINT))
      (mseq (ignore_rc (di_getter E obj ''props'' ''get_output_props_object'' DI_TYPE_OBJECT))
      (mseq (ignore_rc (di_member_clone E obj ''___randr'' (V_object rr)))
      (mret obj))))))))))))"

definition make_object_for_view :: "env \<Rightarrow> addr \<Rightarrow> u32 \<Rightarrow> addr M" where
  "make_object_for_view E rr cid =
     mbind (di_has_member rr XORG_CONNECTION_MEMBER) (\<lambda>has.
     mseq (mcheck Panic has)
     (mbind (di_new_object_with_type (P_xorg_view cid)) (\<lambda>obj.
      mseq (ignore_rc (di_set_type E obj ''deai.plugin.xorg.randr:View''))
      (mseq (ignore_rc (di_getter E obj ''outputs'' ''get_view_outputs'' DI_TYPE_ARRAY))
      (mseq (di_field E obj ''id'' DI_TYPE_NUINT sizeof_di_object)
      (mseq (ignore_rc (di_getter_setter E obj ''config'' ''get_view_config'' ''set_view_config'' DI_TYPE_OBJECT))
      (mseq (ignore_rc (di_member_clone E obj ''___randr'' (V_object rr)))
      (mret obj))))))))"

text \<open>An array of new objects; an empty array has no element type.\<close>

definition object_array :: "('x \<Rightarrow> addr M) \<Rightarrow> 'x list \<Rightarrow> di_variant M" where
  "object_array mk xs =
     (if xs = [] then mret (V_array DI_TYPE_ANY [])
      else mbind (mmap mk xs) (\<lambda>os. mret (V_array DI_TYPE_OBJECT (map V_object os))))"

definition output_info_reply :: "x_host \<Rightarrow> addr \<Rightarrow> addr \<Rightarrow> addr \<Rightarrow> x_output_info option M" where
  "output_info_reply X o' rr dc =
     mbind (output_id o') (\<lambda>i.
     mbind (rr_cts rr) (\<lambda>cts.
     mbind (the_c dc) (\<lambda>c.
     mbind (x_reply (\<lambda>h. xh_output_info X h c i cts)) (\<lambda>r.
     mret (case r of None \<Rightarrow> None | Some r \<Rightarrow> if xo_status r \<noteq> 0 then None else Some r)))))"

text \<open>The modes of an output that the screen knows, in the order of the output.\<close>

definition output_modes :: "x_output_info \<Rightarrow> x_resources \<Rightarrow> x_mode_info list" where
  "output_modes r res = List.map_filter (\<lambda>i. List.find (\<lambda>m. xm_id m = i) (xr_modes res)) (xo_modes r)"

definition free_output_info :: "addr \<Rightarrow> unit M" where
  "free_output_info o' =
     mbind (get_obj o') (\<lambda>ob. case payload ob of P_output_info _ _ _ _ _ _ \<Rightarrow> mret () | _ \<Rightarrow> mcrash Out_of_bounds)"

definition output_info_object :: "env \<Rightarrow> x_host \<Rightarrow> addr \<Rightarrow> addr \<Rightarrow> x_output_info \<Rightarrow> x_resources \<Rightarrow> addr M" where
  "output_info_object E X rr dc r res =
     mbind (di_new_object_with_type (P_output_info (xo_mm_width r) (xo_mm_height r) (ucast (xo_connection r))
              (ucast (xo_subpixel_order r)) (c_str (xo_name r)) (ucast (xo_num_preferred r)))) (\<lambda>ret.
     mseq (ignore_rc (di_set_type E ret ''deai.plugin.xorg.randr:OutputInfo''))
     (mbind (mmap (make_object_for_modes E X rr) (output_modes r res)) (\<lambda>os.
      mseq (di_field E ret ''connection'' DI_TYPE_NINT (sizeof_di_object + 8))
      (mseq (di_field E ret ''mm_width'' DI_TYPE_NUINT sizeof_di_object)
      (mseq (di_field E ret ''mm_height'' DI_TYPE_NUINT (sizeof_di_object + 4))
      (mseq (di_field E ret ''name'' DI_TYPE_STRING_LITERAL (sizeof_di_object + 16))
      (mseq (di_field E ret ''subpixel_order'' DI_TYPE_NINT (sizeof_di_object + 12))
      (mseq (di_field E ret ''num_preferred'' DI_TYPE_NUINT (sizeof_di_object + 24))
      (mseq (ignore_rc (di_member E ret ''modes'' (V_array DI_TYPE_OBJECT (map V_object os))))
      (mseq (di_set_object_dtor ret (Some ''free_output_info''))
      (mbind (get_object_checked E dc builtin_member_name) (\<lambda>builtins.
       scoped_object E (Some builtins)
         (mseq (di_xorg_copy_from_builtins E ret ''randr_output_info'' builtins) (mret ret))))))))))))))"

definition get_output_info :: "env \<Rightarrow> x_host \<Rightarrow> addr \<Rightarrow> addr M" where
  "get_output_info E X o' =
     with_randr E o' empty_object (\<lambda>rr dc.
       mbind (output_info_reply X o' rr dc) (\<lambda>r.
       case r of
         None \<Rightarrow> empty_object
       | Some r \<Rightarrow>
           mbind (the_root X dc) (\<lambda>root.
           mbind (the_c dc) (\<lambda>c.
           mbind (x_reply (\<lambda>h. xh_resources X h c root)) (\<lambda>res.
           case res of
             None \<Rightarrow> empty_object
           | Some res \<Rightarrow> output_info_object E X rr dc r res)))))"

definition get_output_current_view :: "env \<Rightarrow> x_host \<Rightarrow> addr \<Rightarrow> addr M" where
  "get_output_current_view E X o' =
     with_randr E o' empty_object (\<lambda>rr dc.
       mbind (output_info_reply X o' rr dc) (\<lambda>r.
       case r of
         None \<Rightarrow> empty_object
       | Some r \<Rightarrow> if xo_crtc r = 0 then empty_object else make_object_for_view E rr (xo_crtc r)))"

definition get_output_views :: "env \<Rightarrow> x_host \<Rightarrow> addr \<Rightarrow> di_variant M" where
  "get_output_views E X o' =
     with_randr E o' (mret (V_array DI_TYPE_ANY [])) (\<lambda>rr dc.
       mbind (output_info_reply X o' rr dc) (\<lambda>r.
       case r of
         None \<Rightarrow> mret (V_array DI_TYPE_ANY [])
       | Some r \<Rightarrow> object_array (make_object_for_view E rr) (xo_crtcs r)))"

section \<open>Configuration of a view\<close>

definition rotation_of :: "u16 \<Rightarrow> u64" where
  "rotation_of r = (if bit r 0 then 0 else if bit r 1 then 1 else if bit r 2 then 2 else if bit r 3 then 3 else 0)"

definition reflection_of :: "u16 \<Rightarrow> u64" where
  "reflection_of r = (if bit r 4 then (if bit r 5 then 3 else 1) else if bit r 5 then 2 else 0)"

definition crtc_info_reply :: "x_host \<Rightarrow> addr \<Rightarrow> addr \<Rightarrow> addr \<Rightarrow> x_crtc_info option M" where
  "crtc_info_reply X v rr dc =
     mbind (view_id v) (\<lambda>i.
     mbind (rr_cts rr) (\<lambda>cts.
     mbind (the_c dc) (\<lambda>c.
     x_reply (\<lambda>h. xh_crtc_info X h c i cts))))"

definition get_view_config :: "env \<Rightarrow> x_host \<Rightarrow> addr \<Rightarrow> addr M" where
  "get_view_config E X v =
     with_randr E v empty_object (\<lambda>rr dc.
       mbind (crtc_info_reply X v rr dc) (\<lambda>cr.
       case cr of
         None \<Rightarrow> empty_object
       | Some cr \<Rightarrow>
           if xc_status cr \<noteq> 0 then empty_object
           else
           mbind (di_new_object_with_type (P_view_config (scast (xc_x cr)) (scast (xc_y cr)) (ucast (xc_width cr)) (ucast (xc_height cr))
                    (rotation_of (xc_rotation cr)) (reflection_of (xc_rotation cr)))) (\<lambda>ret.
           mseq (ignore_rc (di_set_type E ret ''deai.plugin.xorg.randr:ViewConfig''))
           (mseq (di_field E ret ''x'' DI_TYPE_INT sizeof_di_object)
           (mseq (di_field E ret ''y'' DI_TYPE_INT (sizeof_di_object + 8))
           (mseq (di_field E ret ''width'' DI_TYPE_UINT (sizeof_di_object + 16))
           (mseq (di_field E ret ''height'' DI_TYPE_UINT (sizeof_di_object + 24))
           (mseq (di_field E ret ''rotation'' DI_TYPE_UINT (sizeof_di_object + 32))
           (mseq (di_field E ret ''reflection'' DI_TYPE_UINT (sizeof_di_object + 40))
           (mseq (ignore_rc (di_member E ret ''outputs''
                    (if xc_outputs cr = [] then V_array DI_TYPE_ANY [] else V_array DI_TYPE_NUINT (map V_nuint (xc_outputs cr)))))
           (mret ret)))))))))))"

definition rr_rotation :: "int \<Rightarrow> u32 \<Rightarrow> u16 option" where
  "rr_rotation rotation reflection =
     (if 0 \<le> rotation \<and> rotation \<le> 3
      then Some (or (or (push_bit (nat rotation) 1) (if bit reflection 0 then 16 else 0)) (if bit reflection 1 then 32 else 0))
      else None)"

text \<open>The identifiers of the outputs; \<open>None\<close> when one of them is not a number that fits.\<close>

fun output_ids :: "env \<Rightarrow> di_variant list \<Rightarrow> u32 list option M" where
  "output_ids E [] = mret (Some [])"
| "output_ids E (v # vs) =
     mbind (di_type_conversion E v DI_TYPE_UINT True) (\<lambda>(rc, r).
     case (rc = 0, r) of
       (True, V_uint i) \<Rightarrow>
         mbind (output_ids E vs) (\<lambda>is. mret (map_option (\<lambda>is. ucast i # is) is))
     | _ \<Rightarrow> mret None)"

text \<open>
  The request is repeated as long as the server finds the time stamp too old.
\<close>

definition XCB_RANDR_SET_CONFIG_INVALID_TIME :: u8 where "XCB_RANDR_SET_CONFIG_INVALID_TIME = 2"

fun set_crtc_loop :: "nat \<Rightarrow> x_host \<Rightarrow> addr \<Rightarrow> addr \<Rightarrow> addr \<Rightarrow> int \<Rightarrow> int \<Rightarrow> u32 \<Rightarrow> u16 \<Rightarrow> u32 list option \<Rightarrow> unit M" where
  "set_crtc_loop 0 X v rr dc x y mode rot outs = mcrash Out_of_fuel"
| "set_crtc_loop (Suc n) X v rr dc x y mode rot outs =
     mbind (crtc_info_reply X v rr dc) (\<lambda>cr.
     case cr of
       None \<Rightarrow> mret ()
     | Some cr \<Rightarrow>
         if xc_status cr \<noteq> 0 then mret ()
         else
         mbind (view_id v) (\<lambda>i.
         mbind (rr_cts rr) (\<lambda>cts.
         mbind (the_c dc) (\<lambda>c.
         mseq (emit_effect (Randr_set_crtc c i (xc_timestamp cr) cts x y mode rot (case outs of None \<Rightarrow> xc_outputs cr | Some os \<Rightarrow> os)))
         (mbind (x_reply (xh_set_crtc X)) (\<lambda>scr.
          case scr of
            None \<Rightarrow> mret ()
          | Some status \<Rightarrow>
              if status \<noteq> XCB_RANDR_SET_CONFIG_INVALID_TIME then mret ()
              else set_crtc_loop n X v rr dc x y mode rot outs))))))"

text \<open>\<^verbatim>\<open>di_gets\<close> for a 32-bit integer: the function returns when the member is missing.\<close>

definition di_gets_nint :: "env \<Rightarrow> addr \<Rightarrow> c_string \<Rightarrow> (u32 \<Rightarrow> unit M) \<Rightarrow> unit M" where
  "di_gets_nint E o' name k =
     mbind (di_get E o' (di_string_borrow name) DI_TYPE_NINT) (\<lambda>(rc, v).
     case (rc = 0, v) of (True, V_nint n) \<Rightarrow> k n | _ \<Rightarrow> mret ())"

definition apply_view_config :: "env \<Rightarrow> x_host \<Rightarrow> addr \<Rightarrow> addr \<Rightarrow> addr \<Rightarrow> int \<Rightarrow> int \<Rightarrow> u32 \<Rightarrow> int \<Rightarrow> u32 \<Rightarrow> di_variant list option \<Rightarrow> unit M" where
  "apply_view_config E X v rr dc x y mode rotation reflection outputs =
     (if x < - 32768 \<or> x > 32767 then mret ()
      else if y < - 32768 \<or> y > 32767 then mret ()
      else
      case rr_rotation rotation reflection of
        None \<Rightarrow> mret ()
      | Some rot \<Rightarrow>
          (case outputs of
             None \<Rightarrow> set_crtc_loop (e_fuel E) X v rr dc x y mode rot None
           | Some vs \<Rightarrow>
               mbind (output_ids E vs) (\<lambda>ids.
               case ids of
                 None \<Rightarrow> mret ()
               | Some is \<Rightarrow> set_crtc_loop (e_fuel E) X v rr dc x y mode rot (Some is))))"

definition set_view_config :: "env \<Rightarrow> x_host \<Rightarrow> addr \<Rightarrow> addr \<Rightarrow> unit M" where
  "set_view_config E X v cfg =
     with_randr E v (mret ()) (\<lambda>rr dc.
       di_gets_nint E cfg ''x'' (\<lambda>x.
       di_gets_nint E cfg ''y'' (\<lambda>y.
       mbind (di_get E cfg (di_string_borrow ''mode'') DI_TYPE_NUINT) (\<lambda>(rc, mv).
       case (rc = 0, mv) of
         (True, V_nuint mode) \<Rightarrow>
           di_gets_nint E cfg ''rotation'' (\<lambda>rotation.
           di_gets_nint E cfg ''reflection'' (\<lambda>reflection.
           mbind (di_get E cfg (di_string_borrow ''outputs'') DI_TYPE_ARRAY) (\<lambda>(rc, ov).
           mscoped
             (apply_view_config E X v rr dc (sint x) (sint y) mode (sint rotation) reflection
                (case (rc = 0, ov) of (True, V_array _ vs) \<Rightarrow> Some vs | _ \<Rightarrow> None))
             (if rc = 0 then di_free_value E ov else mret ()))))
       | _ \<Rightarrow> mret ()))))"

section \<open>Backlight\<close>

definition get_output_backlight :: "env \<Rightarrow> x_host \<Rightarrow> addr \<Rightarrow> int M" where
  "get_output_backlight E X o' =
     with_randr E o' (mret 0) (\<lambda>rr dc.
       mbind (di_xorg_intern_atom E X dc (di_string_borrow ''Backlight'')) (\<lambda>(atom, e).
       if e then mret (-1)
       else
       mbind (output_id o') (\<lambda>i.
       mbind (the_c dc) (\<lambda>c.
       mbind (x_reply (\<lambda>h. xh_output_property X h c i atom 4)) (\<lambda>r.
       case r of
         Inl _ \<Rightarrow> mret (-1)
       | Inr p \<Rightarrow>
           if xp_type p \<noteq> XCB_ATOM_INTEGER \<or> length (xp_items p) \<noteq> 1 \<or> xp_format p \<noteq> 32 then mret (-1)
           else mret (sint (hd (xp_items p))))))))"

definition set_output_backlight :: "env \<Rightarrow> x_host \<Rightarrow> addr \<Rightarrow> int \<Rightarrow> unit M" where
  "set_output_backlight E X o' bkl =
     with_randr E o' (mret ()) (\<lambda>rr dc.
       mbind (di_xorg_intern_atom E X dc (di_string_borrow ''Backlight'')) (\<lambda>(atom, e).
       if e then mret ()
       else
       mbind (output_id o') (\<lambda>i.
       mbind (the_c dc) (\<lambda>c.
       mbind (x_checked X (Randr_set_backlight c i atom (of_int bkl))) (\<lambda>ok.
       if ok then mret () else log_error E ''Failed to set backlight'')))))"

definition get_output_max_backlight :: "env \<Rightarrow> x_host \<Rightarrow> addr \<Rightarrow> int M" where
  "get_output_max_backlight E X o' =
     with_randr E o' (mret (-1)) (\<lambda>rr dc.
       mbind (di_xorg_intern_atom E X dc (di_string_borrow ''Backlight'')) (\<lambda>(atom, e).
       if e then mret (-1)
       else
       mbind (output_id o') (\<lambda>i.
       mbind (the_c dc) (\<lambda>c.
       mbind (x_reply (\<lambda>h. xh_output_valid_values X h c i atom)) (\<lambda>r.
       case r of
         None \<Rightarrow> mret (-1)
       | Some vv \<Rightarrow> if length vv \<noteq> 2 then mret (-1) else mret (sint (vv ! 1)))))))"

section \<open>The extension\<close>

definition get_view_outputs :: "env \<Rightarrow> x_host \<Rightarrow> addr \<Rightarrow> di_variant M" where
  "get_view_outputs E X v =
     with_randr E v (mret (V_array DI_TYPE_ANY [])) (\<lambda>rr dc.
       mbind (crtc_info_reply X v rr dc) (\<lambda>r.
       case r of
         None \<Rightarrow> mcrash Null_deref
       | Some r \<Rightarrow>
           if xc_outputs r = [] then mret (V_array DI_TYPE_OBJECT [])
           else object_array (make_object_for_output E rr) (xc_outputs r)))"

definition XCB_RANDR_NOTIFY_CRTC_CHANGE :: u8 where "XCB_RANDR_NOTIFY_CRTC_CHANGE = 0"
definition XCB_RANDR_NOTIFY_OUTPUT_CHANGE :: u8 where "XCB_RANDR_NOTIFY_OUTPUT_CHANGE = 1"

definition handle_randr_event :: "env \<Rightarrow> addr \<Rightarrow> x_event \<Rightarrow> int M" where
  "handle_randr_event E rr ev =
     mbind (get_rr rr) (\<lambda>(_, evbase, _).
     if ucast (xe_response_type ev) = evbase then mseq (set_cts rr (xe_config_timestamp ev)) (mret 0)
     else if ucast (xe_response_type ev) = evbase + 1
     then mseq
            (if xe_sub_code ev = XCB_RANDR_NOTIFY_OUTPUT_CHANGE
             then mbind (make_object_for_output E rr (xe_output ev)) (\<lambda>o'.
                  mseq (di_emit E rr ''output-change'' [V_object o'])
                  (mseq (set_cts rr (xe_config_timestamp ev)) (di_unref_object E o')))
             else if xe_sub_code ev = XCB_RANDR_NOTIFY_CRTC_CHANGE
             then mbind (make_object_for_view E rr (xe_crtc ev)) (\<lambda>o'.
                  mseq (di_emit E rr ''view-change'' [V_object o']) (di_unref_object E o'))
             else mret ())
          (mret 0)
     else mret 1)"

definition rr_select_input :: "env \<Rightarrow> x_host \<Rightarrow> addr \<Rightarrow> u16 \<Rightarrow> unit M" where
  "rr_select_input E X rr bits =
     get_xorg_connection E rr (mret ()) (\<lambda>dc.
       mbind (get_xc dc) (\<lambda>x.
       case xc_c x of
         None \<Rightarrow> mret ()
       | Some c \<Rightarrow>
           mbind (the_root X dc) (\<lambda>root.
           mbind (x_checked X (Randr_select_input c root bits)) (\<lambda>ok.
           if ok then mret () else log_error E (''randr select input failed'' @ [CHR 10])))))"

definition resources_current :: "x_host \<Rightarrow> addr \<Rightarrow> x_resources option M" where
  "resources_current X dc =
     mbind (the_root X dc) (\<lambda>root.
     mbind (the_c dc) (\<lambda>c.
     x_reply (\<lambda>h. xh_resources_current X h c root)))"

definition rr_outputs :: "env \<Rightarrow> x_host \<Rightarrow> addr \<Rightarrow> di_variant M" where
  "rr_outputs E X rr =
     get_xorg_connection E rr (mret (V_array DI_TYPE_ANY [])) (\<lambda>dc.
       mbind (resources_current X dc) (\<lambda>sr.
       case sr of
         None \<Rightarrow> mret (V_array DI_TYPE_ANY [])
       | Some sr \<Rightarrow> object_array (make_object_for_output E rr) (xr_outputs sr)))"

definition rr_modes :: "env \<Rightarrow> x_host \<Rightarrow> addr \<Rightarrow> di_variant M" where
  "rr_modes E X rr =
     get_xorg_connection E rr (mret (V_array DI_TYPE_ANY [])) (\<lambda>dc.
       mbind (resources_current X dc) (\<lambda>sr.
       case sr of
         None \<Rightarrow> mret (V_array DI_TYPE_ANY [])
       | Some sr \<Rightarrow> object_array (make_object_for_modes E X rr) (xr_modes sr)))"

definition rr_set_screen_size :: "env \<Rightarrow> x_host \<Rightarrow> addr \<Rightarrow> addr \<Rightarrow> unit M" where
  "rr_set_screen_size E X rr sz =
     get_xorg_connection E rr (mret ()) (\<lambda>dc.
       mbind (the_root X dc) (\<lambda>root.
       di_gets_nint E sz ''width'' (\<lambda>width.
       di_gets_nint E sz ''height'' (\<lambda>height.
       di_gets_nint E sz ''mm_width'' (\<lambda>width_mm.
       di_gets_nint E sz ''mm_height'' (\<lambda>height_mm.
       mbind (the_c dc) (\<lambda>c.
       mseq (emit_effect (Randr_set_screen_size c root (sint width) (sint height) (sint width_mm) (sint height_mm)))
       (emit_effect (X_flush c)))))))))"

text \<open>A member with an array of objects, unless it is empty.\<close>

definition add_array :: "env \<Rightarrow> addr \<Rightarrow> c_string \<Rightarrow> ('x \<Rightarrow> addr M) \<Rightarrow> 'x list \<Rightarrow> unit M" where
  "add_array E ret name mk xs =
     (if xs = [] then mret ()
      else mbind (object_array mk xs) (\<lambda>arr. ignore_rc (di_member E ret name arr)))"

definition rr_screen_resources :: "env \<Rightarrow> x_host \<Rightarrow> addr \<Rightarrow> addr M" where
  "rr_screen_resources E X rr =
     get_xorg_connection E rr (throw_new_error E ''randr.c'' 963 ''rr_screen_resources'' ''no X connection'') (\<lambda>dc.
       mbind (the_root X dc) (\<lambda>root.
       mbind (the_c dc) (\<lambda>c.
       mbind (x_reply (\<lambda>h. xh_resources X h c root)) (\<lambda>sr.
       case sr of
         None \<Rightarrow> throw_new_error E ''randr.c'' 970 ''rr_screen_resources'' ''failed to get screen resources''
       | Some sr \<Rightarrow>
           mbind empty_object (\<lambda>ret.
           mseq (ignore_rc (di_set_type E ret ''deai.plugin.xorg.randr:ScreenResources''))
           (mseq (add_array E ret ''modes'' (make_object_for_modes E X rr) (xr_modes sr))
           (mseq (add_array E ret ''outputs'' (make_object_for_output E rr) (xr_outputs sr))
           (mseq (add_array E ret ''views'' (make_object_for_view E rr) (xr_crtcs sr))
           (mret ret)))))))))"

definition free_randr :: "env \<Rightarrow> x_host \<Rightarrow> addr \<Rightarrow> unit M" where
  "free_randr E X rr = rr_select_input E X rr 0"

definition new_randr :: "env \<Rightarrow> x_host \<Rightarrow> addr \<Rightarrow> addr option M" where
  "new_randr E X dc =
     mbind (the_c dc) (\<lambda>c.
     if \<not> xorg_has_extension X c ''RANDR'' then mret None
     else
     case xh_query_extension X c ''RANDR'' of
       None \<Rightarrow> mret None
     | Some (opcode, first_event) \<Rightarrow>
         mbind (resources_current X dc) (\<lambda>sr.
         case sr of
           None \<Rightarrow> mret None
         | Some sr \<Rightarrow>
             mbind (get_object_checked E dc builtin_member_name) (\<lambda>builtins.
             scoped_object E (Some builtins)
               (mbind (di_new_object_with_type (P_xorg_randr 0 opcode (ucast first_event) (xr_config_timestamp sr))) (\<lambda>rr.
                mseq (ignore_rc (di_set_type E rr ''deai.plugin.xorg:RandrExt''))
                (mseq (ignore_rc (di_getter E rr ''outputs'' ''rr_outputs'' DI_TYPE_ARRAY))
                (mseq (ignore_rc (di_getter E rr ''modes'' ''rr_modes'' DI_TYPE_ARRAY))
                (mseq (ignore_rc (di_getter E rr ''screen_resources'' ''rr_screen_resources'' DI_TYPE_OBJECT))
                (mseq (ignore_rc (di_setter E rr ''screen_size'' ''rr_set_screen_size'' DI_TYPE_OBJECT))
                (mseq (di_signal_setter_deleter_with_signal_name E rr ''output-change'' ''di_xorg_ext_signal_setter'' ''di_xorg_ext_signal_deleter'')
                (mseq (di_signal_setter_deleter_with_signal_name E rr ''view-change'' ''di_xorg_ext_signal_setter'' ''di_xorg_ext_signal_deleter'')
                (mseq (di_set_object_dtor rr (Some ''free_randr''))
                (mseq (di_xorg_copy_from_builtins E rr ''randr'' builtins)
                (mseq (save_xorg_connection E rr dc)
                (mseq (rr_select_input E X rr 7)
                (mret (Some rr)))))))))))))))))"

end
