(* ===== verification/Deai_Xorg_Conn.thy ===== *)
theory Deai_Xorg_Conn
  imports Deai_Xkey Deai_Xinput Deai_Randr
begin

text \<open>
  Connections of the X11 plugin, the rest of \<^verbatim>\<open>plugins/xorg/xorg.c\<close>: reading events and passing them on, the table of extensions,
  the keyboard mapping, connecting and disconnecting.
\<close>

section \<open>Disconnecting\<close>

definition xorg_disconnect :: "env \<Rightarrow> addr \<Rightarrow> unit M" where
  "xorg_disconnect E obj =
     mbind (get_xc obj) (\<lambda>x.
     mseq (case xkb_ctx x of None \<Rightarrow> mret () | Some k \<Rightarrow> emit_effect (Xkb_context_unref k))
     (case xc_c x of
        None \<Rightarrow> mcrash Panic
      | Some c \<Rightarrow>
          mseq (emit_effect (X_disconnect c))
          (mseq (set_xc obj (x\<lparr>xc_c := None, xc_nsignals := 0\<rparr>))
          (mseq (ignore_rc (di_delete_member_raw E obj (di_string_borrow xcb_listen_handle)))
          (mbind (get_xc obj) (\<lambda>x. set_xc obj (x\<lparr>atoms := []\<rparr>)))))))"

section \<open>Events\<close>

definition xext_reg :: "c_string list" where "xext_reg = [''xinput'', ''randr'', ''key'']"

text \<open>\<^verbatim>\<open>ext->handle_event\<close>; \<open>None\<close> when it is null.\<close>

definition handle_ext_event :: "env \<Rightarrow> addr \<Rightarrow> x_event \<Rightarrow> int option M" where
  "handle_ext_event E ext ev =
     mbind (get_obj ext) (\<lambda>ob.
     case payload ob of
       P_xorg_xinput _ _ _ _ \<Rightarrow> mbind (handle_xinput_event E ext ev) (\<lambda>st. mret (Some st))
     | P_xorg_randr _ _ _ _ \<Rightarrow> mbind (handle_randr_event E ext ev) (\<lambda>st. mret (Some st))
     | P_xorg_key _ _ _ \<Rightarrow> mret None
     | _ \<Rightarrow> mcrash Out_of_bounds)"

fun ext_loop :: "env \<Rightarrow> addr \<Rightarrow> x_event \<Rightarrow> c_string list \<Rightarrow> unit M" where
  "ext_loop E dc ev [] = mret ()"
| "ext_loop E dc ev (name # names) =
     mbind (di_get E dc (strong_ext_name name) DI_TYPE_OBJECT) (\<lambda>(rc, v).
     case (rc = 0, v) of
       (True, V_object ext) \<Rightarrow>
         mbind (scoped_object E (Some ext) (handle_ext_event E ext ev)) (\<lambda>st.
         case st of
           None \<Rightarrow> ext_loop E dc ev names
         | Some status \<Rightarrow> if status \<noteq> 1 then mret () else ext_loop E dc ev names)
     | _ \<Rightarrow> ext_loop E dc ev names)"

definition raw_event_name :: "x_event \<Rightarrow> di_string" where
  "raw_event_name ev =
     (if xe_response_type ev = XCB_GE_GENERIC then Some (''___raw_x_event_ge_'' @ dec_string (unat (xe_event_type ev)))
      else Some (''___raw_x_event_'' @ dec_string (unat (xe_response_type ev))))"

text \<open>The events that are polled, one after the other; the connection is read again before each of them and after the last.\<close>

fun ioev_loop :: "env \<Rightarrow> addr \<Rightarrow> x_event list \<Rightarrow> unit M" where
  "ioev_loop E dc [] = mbind (the_c dc) (\<lambda>_. mret ())"
| "ioev_loop E dc (ev # evs) =
     mbind (the_c dc) (\<lambda>_.
     mseq (ignore_rc (di_emitn E dc (raw_event_name ev) [V_pointer (xe_addr ev)]))
     (mseq (ext_loop E dc ev xext_reg)
     (ioev_loop E dc evs)))"

definition di_xorg_ioev :: "env \<Rightarrow> x_host \<Rightarrow> x_event list \<Rightarrow> addr \<Rightarrow> unit M" where
  "di_xorg_ioev E X evs dc =
     mseq (ioev_loop E dc evs)
     (mbind (the_c dc) (\<lambda>c.
      mbind (x_reply (\<lambda>h. xh_has_error X h c)) (\<lambda>err.
      if err then mseq (di_emit E dc ''connection-error'' []) (di_finalize_object E dc) else mret ())))"

section \<open>Extensions\<close>

definition new_ext :: "env \<Rightarrow> x_host \<Rightarrow> addr \<Rightarrow> c_string \<Rightarrow> addr option M" where
  "new_ext E X dc name =
     (if name = ''xinput'' then new_xinput E X dc
      else if name = ''randr'' then new_randr E X dc
      else mbind (new_key E X dc) (\<lambda>k. mret (Some k)))"

definition weak_ext_name :: "di_string \<Rightarrow> di_string" where
  "weak_ext_name name = Some (''___weak_x_ext_'' @ str_bytes name)"

definition drop_weak_opt :: "addr option \<Rightarrow> unit M" where
  "drop_weak_opt p = (case p of None \<Rightarrow> mret () | Some a \<Rightarrow> di_drop_weak_ref a)"

text \<open>
  \<open>old\<close> is the reference to the dead extension, if there was one.  The variable is overwritten when a new extension is made, so that
  reference is not dropped.
\<close>

definition make_ext :: "env \<Rightarrow> x_host \<Rightarrow> addr \<Rightarrow> di_string \<Rightarrow> addr option \<Rightarrow> di_variant M" where
  "make_ext E X dc name old =
     (case List.find (\<lambda>n. di_string_eq (di_string_borrow n) name) xext_reg of
        None \<Rightarrow> mseq (drop_weak_opt old) (mret (V_variant V_last))
      | Some n \<Rightarrow>
          mbind (new_ext E X dc n) (\<lambda>r.
          case r of
            None \<Rightarrow> mseq (drop_weak_opt old) (mret (V_variant V_last))
          | Some ext \<Rightarrow>
              mbind (di_weakly_ref_object ext) (\<lambda>weak_ext.
              scoped_weak weak_ext
                (mseq (check_ok (di_add_member_clone E dc (weak_ext_name name) (V_weak_object weak_ext)))
                (mret (V_variant (V_object ext)))))))"

definition di_xorg_get_ext :: "env \<Rightarrow> x_host \<Rightarrow> addr \<Rightarrow> di_string \<Rightarrow> di_variant M" where
  "di_xorg_get_ext E X dc name =
     mbind (di_rawgetxt E dc (weak_ext_name name) DI_TYPE_WEAK_OBJECT) (\<lambda>(rc, v).
     case (rc = 0, v) of
       (True, V_weak_object weak_ext) \<Rightarrow>
         mbind (di_upgrade_weak_ref weak_ext) (\<lambda>e.
         case e of
           Some ext \<Rightarrow> mseq (di_drop_weak_ref weak_ext) (mret (V_variant (V_object ext)))
         | None \<Rightarrow>
             mseq (ignore_rc (di_delete_member_raw E dc (weak_ext_name name))) (make_ext E X dc name (Some weak_ext)))
     | _ \<Rightarrow> make_ext E X dc name None)"

section \<open>Modifiers of a keymap\<close>

definition xkb_modifier_names :: "c_string list" where
  "xkb_modifier_names = [''Shift'', ''Lock'', ''Control'', ''Mod1'', ''Mod2'', ''Mod3'', ''Mod4'', ''Mod5'']"

definition MAX_KEYCODE :: nat where "MAX_KEYCODE = 256"
definition XKB_STATE_MODS_LATCHED :: u32 where "XKB_STATE_MODS_LATCHED = 2"
definition XKB_STATE_MODS_LOCKED :: u32 where "XKB_STATE_MODS_LOCKED = 4"
definition XKB_STATE_MODS :: u32 where "XKB_STATE_MODS = 7"

text \<open>
  Eight linked lists in two arrays: \<open>next_keycode_indices\<close> has the links, \<open>keycodes\<close> the key codes, \<open>total_keycodes\<close> is the number of
  nodes in use; \<open>-1\<close> is the end of a list.
\<close>

record mod_lists =
  modifier_keycode_count :: "nat list"
  next_keycode_indices :: "int list"
  ml_keycodes :: "u32 list"
  total_keycodes :: nat
  modifier_keycode_head :: "int list"

definition empty_lists :: mod_lists where
  "empty_lists = \<lparr>modifier_keycode_count = replicate 8 0, next_keycode_indices = replicate MAX_KEYCODE (-1),
     ml_keycodes = replicate MAX_KEYCODE 0, total_keycodes = 0, modifier_keycode_head = replicate 8 (-1)\<rparr>"

text \<open>A node in front of list \<open>j\<close>; \<open>None\<close> is a write behind the arrays.\<close>

definition push_keycode :: "u32 \<Rightarrow> nat \<Rightarrow> mod_lists \<Rightarrow> mod_lists option" where
  "push_keycode i j l =
     (let t = total_keycodes l in
      if t < MAX_KEYCODE
      then Some (l\<lparr>next_keycode_indices := (next_keycode_indices l)[t := modifier_keycode_head l ! j],
                   modifier_keycode_head := (modifier_keycode_head l)[j := int t],
                   ml_keycodes := (ml_keycodes l)[t := i], total_keycodes := Suc t,
                   modifier_keycode_count := (modifier_keycode_count l)[j := Suc (modifier_keycode_count l ! j)]\<rparr>)
      else None)"

fun push_mods :: "u32 \<Rightarrow> nat list \<Rightarrow> mod_lists \<Rightarrow> mod_lists option" where
  "push_mods i [] l = Some l"
| "push_mods i (j # js) l = (case push_keycode i j l of None \<Rightarrow> None | Some l' \<Rightarrow> push_mods i js l')"

definition active_mods :: "x_host \<Rightarrow> nat \<Rightarrow> u32 \<Rightarrow> nat list" where
  "active_mods X st updates = filter (\<lambda>j. xh_mod_active X st (xkb_modifier_names ! j) updates) [0..<8]"

text \<open>A key is pressed, the modifiers that became active are noted, and the key is released again.\<close>

definition probe_state :: "x_host \<Rightarrow> nat \<Rightarrow> nat \<Rightarrow> u32 \<Rightarrow> nat \<times> nat list" where
  "probe_state X km st i =
     (let (down, updates) = xh_state_update X st i True; updates = and updates XKB_STATE_MODS in
      if updates = 0 then (fst (xh_state_update X down i False), [])
      else
      let up = fst (xh_state_update X down i False);
          up = (if and updates XKB_STATE_MODS_LOCKED \<noteq> 0
                then fst (xh_state_update X (fst (xh_state_update X up i True)) i False) else up);
          up = (if and updates XKB_STATE_MODS_LATCHED \<noteq> 0 then xh_state_new X km else up) in
      (up, active_mods X down updates))"

fun probe_keys :: "x_host \<Rightarrow> nat \<Rightarrow> nat \<Rightarrow> u32 list \<Rightarrow> mod_lists \<Rightarrow> mod_lists option" where
  "probe_keys X km st [] l = Some l"
| "probe_keys X km st (i # is) l =
     (let (st', js) = probe_state X km st i in
      case push_mods i js l of None \<Rightarrow> None | Some l' \<Rightarrow> probe_keys X km st' is l')"

text \<open>One list, at most \<open>n\<close> nodes of it.\<close>

fun walk_list :: "nat \<Rightarrow> mod_lists \<Rightarrow> int \<Rightarrow> u32 list option" where
  "walk_list n l cur =
     (if cur = -1 then Some []
      else case n of
             0 \<Rightarrow> None
           | Suc m \<Rightarrow> map_option (Cons (ml_keycodes l ! nat cur)) (walk_list m l (next_keycode_indices l ! nat cur)))"

declare walk_list.simps [simp del]

definition keycode_row :: "nat \<Rightarrow> mod_lists \<Rightarrow> nat \<Rightarrow> u8 list option" where
  "keycode_row per l i =
     map_option (\<lambda>ks. map ucast ks @ replicate (per - length ks) 0) (walk_list per l (modifier_keycode_head l ! i))"

definition find_modifiers :: "x_host \<Rightarrow> nat \<Rightarrow> u32 list \<Rightarrow> (nat \<times> u8 list) M" where
  "find_modifiers X km is =
     mseq (mcheck Assert_failed (list_all (xh_has_mod X km) xkb_modifier_names))
     (case probe_keys X km (xh_state_new X km) is empty_lists of
        None \<Rightarrow> mcrash Out_of_bounds
      | Some l \<Rightarrow>
          let per = Max (insert 0 (set (modifier_keycode_count l))); rows = map (keycode_row per l) [0..<8] in
          if None \<in> set rows then mcrash Assert_failed
          else mret (per, concat (map the rows)))"

section \<open>The keyboard mapping\<close>

definition key_range :: "u32 \<Rightarrow> u32 \<Rightarrow> u32 list" where
  "key_range lo hi = map of_nat [unat lo..<Suc (unat hi)]"

fun key_row :: "env \<Rightarrow> x_host \<Rightarrow> nat \<Rightarrow> u32 \<Rightarrow> nat list \<Rightarrow> u32 list \<Rightarrow> u32 list M" where
  "key_row E X km i [] row = mret row"
| "key_row E X km i (j # js) row =
     (case xh_syms X km i j of
        [] \<Rightarrow> key_row E X km i js row
      | [ks] \<Rightarrow> key_row E X km i js ((if j < 2 then row[j := ks] else row)[j + 2 := ks])
      | _ \<Rightarrow>
          mseq (ignore_rc (di_log_va E DI_LOG_WARN ''Multiple keysyms per level is not supported''))
          (key_row E X km i js row))"

definition keysyms_per_keycode :: "x_host \<Rightarrow> nat \<Rightarrow> u32 list \<Rightarrow> nat" where
  "keysyms_per_keycode X km is = Max (insert 0 (set (map (xh_num_levels X km) is))) + 2"

definition XCB_MAPPING_STATUS_SUCCESS :: u32 where "XCB_MAPPING_STATUS_SUCCESS = 0"
definition XCB_MAPPING_STATUS_FAILURE :: u32 where "XCB_MAPPING_STATUS_FAILURE = 2"

text \<open>The request is repeated while the server is busy.\<close>

fun set_modifiers_loop :: "nat \<Rightarrow> env \<Rightarrow> x_host \<Rightarrow> nat \<Rightarrow> nat \<Rightarrow> u8 list \<Rightarrow> unit M" where
  "set_modifiers_loop 0 E X c per kcs = mcrash Out_of_fuel"
| "set_modifiers_loop (Suc n) E X c per kcs =
     mseq (emit_effect (X_set_modifier_mapping c (of_nat per) kcs))
     (mbind (x_reply (xh_set_modifiers X)) (\<lambda>r.
      case r of
        None \<Rightarrow> log_error E ''Failed to set modifiers, your keymap will be broken.''
      | Some status \<Rightarrow>
          if status = XCB_MAPPING_STATUS_FAILURE then log_error E ''Failed to set modifiers, your keymap will be broken.''
          else if status = XCB_MAPPING_STATUS_SUCCESS then mret ()
          else set_modifiers_loop n E X c per kcs))"

definition install_keymap :: "env \<Rightarrow> x_host \<Rightarrow> nat \<Rightarrow> nat \<Rightarrow> unit M" where
  "install_keymap E X c km =
     (let (setup_min, setup_max) = xh_keycode_range X c; (map_min, map_max) = xh_keymap_range X km;
          max_keycode = min map_max setup_max; min_keycode = max map_min setup_min;
          is = key_range min_keycode max_keycode; per = keysyms_per_keycode X km is in
      mbind (mmap (\<lambda>i. key_row E X km i [0..<xh_num_levels X km i] (replicate per 0)) is) (\<lambda>rows.
      mbind (x_checked X (X_change_keyboard_mapping c (max_keycode - min_keycode + 1) min_keycode (of_nat per) (concat rows))) (\<lambda>ok.
      mseq (if ok then mret () else log_error E ''Failed to set keymap.'')
      (mbind (find_modifiers X km is) (\<lambda>(kpm, kcs).
       set_modifiers_loop (e_fuel E) E X c kpm kcs)))))"

definition c_arg_of :: "di_string \<Rightarrow> c_string option" where
  "c_arg_of s = map_option c_str (di_string_to_chars_alloc s)"

definition optional_name :: "env \<Rightarrow> addr \<Rightarrow> c_string \<Rightarrow> c_string option M" where
  "optional_name E o' name =
     mbind (di_get E o' (di_string_borrow name) DI_TYPE_STRING) (\<lambda>(rc, v).
     case (rc = 0, v) of (True, V_string s) \<Rightarrow> mret (c_arg_of s) | _ \<Rightarrow> mret None)"

definition set_keymap :: "env \<Rightarrow> x_host \<Rightarrow> addr \<Rightarrow> addr \<Rightarrow> unit M" where
  "set_keymap E X dc o' =
     mbind (di_get E o' (di_string_borrow ''layout'') DI_TYPE_STRING) (\<lambda>(rc, v).
     case (rc = 0, v) of
       (True, V_string layout) \<Rightarrow>
         mbind (optional_name E o' ''model'') (\<lambda>model.
         mbind (optional_name E o' ''variant'') (\<lambda>variant.
         mbind (optional_name E o' ''options'') (\<lambda>options.
         mbind (the_c dc) (\<lambda>c.
         mbind (get_xc dc) (\<lambda>x.
         case xh_keymap X (xkb_ctx x) [c_arg_of layout, model, variant, options] of
           None \<Rightarrow> mcrash Null_deref
         | Some km \<Rightarrow>
             if xh_num_layouts X km \<noteq> 1
             then log_error E ''Using multiple layout at the same time is not currently supported.''
             else install_keymap E X c km)))))
     | _ \<Rightarrow> log_error E (''Invalid keymap object, key '' @ [CHR 0x22] @ ''layout'' @ [CHR 0x22] @ '' is not set''))"

section \<open>Connecting\<close>

definition di_xorg_new_clipboard :: "addr \<Rightarrow> addr M" where
  "di_xorg_new_clipboard x = mcrash Panic"

text \<open>What the script returned: the object, or none after a message.\<close>

definition script_object :: "env \<Rightarrow> int \<Rightarrow> di_variant \<Rightarrow> addr option M" where
  "script_object E rc v =
     (case (rc = 0, v) of
        (True, V_tuple [V_object b]) \<Rightarrow> mret (Some b)
      | (True, V_tuple (r # rs)) \<Rightarrow>
          mseq (di_free_value E v) (mseq (log_error E ''Unexpected return value from xorg builtins.lua'') (mret None))
      | _ \<Rightarrow> mseq (ignore_rc (di_log_va E DI_LOG_WARN ''Failed to load builtins.lua for xorg plugin'')) (mret None))"

definition di_xorg_load_builtin_lua :: "env \<Rightarrow> addr \<Rightarrow> unit M" where
  "di_xorg_load_builtin_lua E x =
     mbind (di_object_borrow_deai x) (\<lambda>di.
     mbind (di_rawget_borrowed x (di_string_borrow builtin_member_name) DI_TYPE_OBJECT) (\<lambda>(rc, _).
     if rc = 0 then mret ()
     else
     case di of
       None \<Rightarrow> mcrash Null_deref
     | Some d \<Rightarrow>
         mbind (di_rawget_borrowed d (di_string_borrow ''lua'') DI_TYPE_OBJECT) (\<lambda>(rc, lv).
         case (rc = 0, lv) of
           (True, V_object lua_module) \<Rightarrow>
             mbind (get_string_checked E d ''resources_dir'') (\<lambda>resources_dir.
             mbind (di_callr E lua_module ''load_script'' DI_TYPE_TUPLE
                      [V_string (Some (str_bytes resources_dir @ ''/xorg/builtins.lua''))]) (\<lambda>(rc, ret_values).
             mbind (script_object E rc ret_values) (\<lambda>b.
             mbind (case b of Some o' \<Rightarrow> mret o' | None \<Rightarrow> di_new_object_with_type P_object) (\<lambda>builtins.
             ignore_rc (di_member E x builtin_member_name (V_object builtins))))))
         | _ \<Rightarrow> mret ())))"

definition new_connection :: "env \<Rightarrow> x_host \<Rightarrow> nat \<Rightarrow> int \<Rightarrow> addr \<Rightarrow> addr \<Rightarrow> addr M" where
  "new_connection E X c scrn eventm builtins =
     mbind (di_new_object_with_type (P_xorg_connection (Some c) scrn 0 None [])) (\<lambda>dc.
     mseq (ignore_rc (di_set_type E dc ''deai.plugin.xorg:Connection''))
     (mbind (di_weakly_ref_object eventm) (\<lambda>weak_eventm.
      mseq (ignore_rc (di_member E dc ''__weak_event_module'' (V_weak_object weak_eventm)))
      (mseq (di_set_object_dtor dc (Some ''xorg_disconnect''))
      (mseq (ignore_rc (di_method E dc ''__get'' ''di_xorg_get_ext'' DI_TYPE_VARIANT [DI_TYPE_STRING]))
      (mseq (ignore_rc (di_method E dc ''__set'' ''di_xorg_signal_setter'' DI_TYPE_NIL [DI_TYPE_STRING, DI_TYPE_OBJECT]))
      (mseq (ignore_rc (di_method E dc ''__delete'' ''di_xorg_signal_deleter'' DI_TYPE_NIL [DI_TYPE_STRING]))
      (mseq (ignore_rc (di_method E dc ''__get_xrdb'' ''di_xorg_get_resource'' DI_TYPE_STRING []))
      (mseq (ignore_rc (di_method E dc ''__set_xrdb'' ''di_xorg_set_resource'' DI_TYPE_NIL [DI_TYPE_STRING]))
      (mseq (ignore_rc (di_method E dc ''__get_screen'' ''get_screen'' DI_TYPE_OBJECT []))
      (mseq (ignore_rc (di_method E dc ''__set_keymap'' ''set_keymap'' DI_TYPE_NIL [DI_TYPE_OBJECT]))
      (mseq (ignore_rc (di_method E dc ''__get_clipboard'' ''di_xorg_new_clipboard'' DI_TYPE_OBJECT []))
      (mseq (ignore_rc (di_method E dc ''disconnect'' ''di_finalize_object'' DI_TYPE_NIL []))
      (mseq (ignore_rc (di_member E dc builtin_member_name (V_object builtins)))
      (mbind (get_xc dc) (\<lambda>x.
       mseq (set_xc dc (x\<lparr>xkb_ctx := xh_xkb_context_new X\<rparr>)) (mret dc)))))))))))))))))"

definition di_xorg_connect_to :: "env \<Rightarrow> x_host \<Rightarrow> addr \<Rightarrow> di_string \<Rightarrow> addr M" where
  "di_xorg_connect_to E X x displayname =
     mseq (di_xorg_load_builtin_lua E x)
     (mbind (get_object_checked E x builtin_member_name) (\<lambda>builtins.
      let (c, scrn) = xh_connect X (if str_length displayname > 0 then c_arg_of displayname else None) in
      mbind (x_reply (\<lambda>h. xh_has_error X h c)) (\<lambda>err.
      if err
      then mseq (emit_effect (X_disconnect c))
           (scoped_object E (Some builtins)
             (throw_new_error E ''xorg.c'' 653 ''di_xorg_connect_to'' ''Cannot connect to the display''))
      else
      mbind (di_mgetm E x ''event'') (\<lambda>em.
      case em of
        None \<Rightarrow>
          scoped_object E (Some builtins)
            (throw_new_error E ''xorg.c'' 656 ''di_xorg_connect_to'' ''Can't get event module'')
      | Some eventm \<Rightarrow> scoped_object E (Some eventm) (new_connection E X c scrn eventm builtins)))))"

definition di_xorg_connect :: "env \<Rightarrow> x_host \<Rightarrow> addr \<Rightarrow> addr M" where
  "di_xorg_connect E X x = di_xorg_connect_to E X x DI_STRING_INIT"

definition new_xorg_module :: "env \<Rightarrow> addr \<Rightarrow> addr M" where
  "new_xorg_module E di =
     mbind (di_new_module E di P_object) (\<lambda>x.
     mseq (ignore_rc (di_method E x ''connect'' ''di_xorg_connect'' DI_TYPE_OBJECT []))
     (mseq (ignore_rc (di_method E x ''connect_to'' ''di_xorg_connect_to'' DI_TYPE_OBJECT [DI_TYPE_STRING]))
     (mret x)))"

definition xorg_plugin_init :: "env \<Rightarrow> addr \<Rightarrow> unit M" where
  "xorg_plugin_init E di =
     mbind (new_xorg_module E di) (\<lambda>x. ignore_rc (di_register_module E di (di_string_borrow ''xorg'') x))"

end
