(* ===== verification/Deai_Xorg_Props.thy ===== *)
theory Deai_Xorg_Props
  imports Deai_Xorg Deai_Exact Deai_Memory
begin

text \<open>
  The atom cache of a connection answers as the server would.  \<open>sample_host\<close> is a server for examples.
\<close>

section \<open>The atom cache\<close>

datatype atom_request = Intern "char list" | Name_of u32

datatype atom_answer = An_atom "u32 \<times> bool" | A_name "char list option"

fun ask :: "env \<Rightarrow> x_host \<Rightarrow> addr \<Rightarrow> atom_request \<Rightarrow> atom_answer M" where
  "ask E X dc (Intern name) = mbind (di_xorg_intern_atom E X dc (Some name)) (\<lambda>r. mret (An_atom r))"
| "ask E X dc (Name_of atom) = mbind (di_xorg_get_atom_name X dc atom) (\<lambda>r. mret (A_name r))"

text \<open>The answers of a server whose atoms are the table \<open>A\<close>, and the pair a request makes known.\<close>

fun server_answer :: "(u32 \<times> char list) list \<Rightarrow> atom_request \<Rightarrow> atom_answer" where
  "server_answer A (Intern name) = An_atom (fst (the (find_atom_byname name A)), False)"
| "server_answer A (Name_of atom) = A_name (map_option snd (find_byatom atom A))"

fun learnt :: "(u32 \<times> char list) list \<Rightarrow> atom_request \<Rightarrow> (u32 \<times> char list) set" where
  "learnt A (Intern name) = {e \<in> set A. snd e = name}"
| "learnt A (Name_of atom) = {e \<in> set A. fst e = atom}"

definition atom_table :: "(u32 \<times> char list) list \<Rightarrow> bool" where
  "atom_table A \<longleftrightarrow> distinct (map fst A) \<and> distinct (map snd A)"

definition serves_atoms :: "x_host \<Rightarrow> nat \<Rightarrow> (u32 \<times> char list) list \<Rightarrow> bool" where
  "serves_atoms X c A \<longleftrightarrow>
     (\<forall>h atom. xh_atom_name X h c atom = map_option snd (find_byatom atom A)) \<and>
     (\<forall>h name. xh_intern_atom X h c name = (case find_atom_byname name A of None \<Rightarrow> Inl True | Some e \<Rightarrow> Inr (fst e)))"

fun answerable :: "(u32 \<times> char list) list \<Rightarrow> atom_request \<Rightarrow> bool" where
  "answerable A (Intern name) \<longleftrightarrow> find_atom_byname name A \<noteq> None"
| "answerable A (Name_of atom) \<longleftrightarrow> True"

lemma find_rev_iff: "List.find P (rev es) = None \<longleftrightarrow> (\<forall>e \<in> set es. \<not> P e)"
  by (auto simp: find_None_iff)

lemma find_rev_Some: "List.find P (rev es) = Some e \<Longrightarrow> e \<in> set es \<and> P e"
  by (metis find_Some_iff nth_mem set_rev)

lemma find_rev_unique: "e \<in> set es \<Longrightarrow> P e \<Longrightarrow> (\<And>d. d \<in> set es \<Longrightarrow> P d \<Longrightarrow> d = e) \<Longrightarrow> List.find P (rev es) = Some e"
  by (metis find_rev_Some find_rev_iff not_Some_eq)

lemma table_inj: "atom_table A \<Longrightarrow> d \<in> set A \<Longrightarrow> e \<in> set A \<Longrightarrow> fst d = fst e \<or> snd d = snd e \<Longrightarrow> d = e"
  by (auto simp: atom_table_def distinct_map inj_on_def)

lemma find_in_table:
  assumes "atom_table A" and "e \<in> set A"
  shows "find_byatom (fst e) A = Some e" and "find_atom_byname (snd e) A = Some e"
  unfolding find_byatom_def find_atom_byname_def using assms by (auto intro!: find_rev_unique dest: table_inj)

lemma learnt_entry:
  assumes "atom_table A" and "e \<in> set A"
  shows "learnt A (Intern (snd e)) = {e}" and "learnt A (Name_of (fst e)) = {e}"
  by (simp only: learnt.simps, use table_inj [OF assms(1) _ assms(2)] assms(2) in blast)+

lemma learnt_subset: "learnt A r \<subseteq> set A"
  by (cases r) auto

lemma not_in_cache:
  assumes "atom_table A" and "set es \<subseteq> set A" and "e \<in> set A" and "e \<notin> set es"
  shows "find_byatom (fst e) es = None" and "find_atom_byname (snd e) es = None"
  unfolding find_byatom_def find_atom_byname_def find_rev_iff using table_inj [OF assms(1)] assms(2-4) by blast+

lemma sub_table: "atom_table A \<Longrightarrow> set es \<subseteq> set A \<Longrightarrow> distinct es \<Longrightarrow> atom_table es"
  by (auto simp: atom_table_def distinct_map intro: inj_on_subset)

text \<open>A connection whose cache is \<open>es\<close>.\<close>

definition cached :: "di_object_internal \<Rightarrow> nat \<Rightarrow> (u32 \<times> char list) list \<Rightarrow> di_object_internal" where
  "cached co c es =
     (case payload co of P_xorg_connection _ s n k _ \<Rightarrow> co\<lparr>payload := P_xorg_connection (Some c) s n k es\<rparr> | _ \<Rightarrow> co)"

lemma ask_exact:
  assumes "objs w dc = Some (cached co c es)" and "payload co = P_xorg_connection oc s n k es0"
    and "atom_table A" and "serves_atoms X c A" and "set es \<subseteq> set A" and "distinct es" and "answerable A r"
  shows "\<exists>es'. ask E X dc r w = Ret (server_answer A r) (upd dc (cached co c es') w) \<and>
    set es' = set es \<union> learnt A r \<and> distinct es'"
proof (cases r)
  case (Intern name)
  then obtain e where e: "find_atom_byname name A = Some e" using assms(7) by auto
  then have eA: "e \<in> set A" "snd e = name" by (auto simp: find_atom_byname_def dest: find_rev_Some)
  have l: "learnt A r = {e}" using Intern learnt_entry(1) [OF assms(3) eA(1)] eA(2) by simp
  show ?thesis
  proof (cases "e \<in> set es")
    case True
    with find_in_table(2) [OF sub_table [OF assms(3,5,6)], of e] eA have "find_atom_byname name es = Some e" by simp
    with assms(1,2) e l True Intern show ?thesis
      by (intro exI [of _ es]) (auto simp: di_xorg_intern_atom_def get_xc_def cached_def outcome_simps heap_simps assms(6) map_upd_triv str_bytes_def)
  next
    case False
    with eA have "find_atom_byname name es = None"
      using not_in_cache(2) [OF assms(3,5) eA(1)] by simp
    with assms(1,2,4,6) e l False Intern eA show ?thesis
      by (intro exI [of _ "es @ [e]"])
        (auto simp: di_xorg_intern_atom_def get_xc_def set_xc_def the_c_def x_reply_def add_atom_def cached_def serves_atoms_def
          outcome_simps heap_simps str_bytes_def)
  qed
next
  case (Name_of atom)
  show ?thesis
  proof (cases "find_byatom atom A")
    case None
    then have "find_byatom atom es = None" using assms(5) by (auto simp: find_byatom_def find_rev_iff)
    moreover have "learnt A r = {}" using None Name_of by (auto simp: find_byatom_def find_rev_iff)
    ultimately show ?thesis using assms(1,2,4,6) None Name_of
      by (intro exI [of _ es]) (auto simp: di_xorg_get_atom_name_def get_xc_def the_c_def x_reply_def cached_def serves_atoms_def
          outcome_simps heap_simps map_upd_triv)
  next
    case (Some e)
    then have eA: "e \<in> set A" "fst e = atom" by (auto simp: find_byatom_def dest: find_rev_Some)
    have l: "learnt A r = {e}" using Name_of learnt_entry(2) [OF assms(3) eA(1)] eA(2) by simp
    show ?thesis
    proof (cases "e \<in> set es")
      case True
      with find_in_table(1) [OF sub_table [OF assms(3,5,6)], of e] eA have "find_byatom atom es = Some e" by simp
      with assms(1,2,6) Some l True Name_of show ?thesis
        by (intro exI [of _ es]) (auto simp: di_xorg_get_atom_name_def get_xc_def cached_def outcome_simps heap_simps map_upd_triv)
    next
      case False
      with eA have "find_byatom atom es = None"
        using not_in_cache(1) [OF assms(3,5) eA(1)] by simp
      with assms(1,2,4,6) Some l False Name_of eA show ?thesis
        by (intro exI [of _ "es @ [e]"])
          (auto simp: di_xorg_get_atom_name_def get_xc_def set_xc_def the_c_def x_reply_def add_atom_def cached_def serves_atoms_def
            outcome_simps heap_simps)
    qed
  qed
qed

lemma asks_exact:
  assumes "payload co = P_xorg_connection oc s n k es0" and "atom_table A" and "serves_atoms X c A"
  shows "objs w dc = Some (cached co c es) \<Longrightarrow> set es \<subseteq> set A \<Longrightarrow> distinct es \<Longrightarrow> list_all (answerable A) rs \<Longrightarrow>
    \<exists>es'. mmap (ask E X dc) rs w = Ret (map (server_answer A) rs) (upd dc (cached co c es') w) \<and>
      set es' = set es \<union> (\<Union>r \<in> set rs. learnt A r) \<and> distinct es'"
proof (induction rs arbitrary: w es)
  case Nil
  then show ?case by (intro exI [of _ es]) (simp add: outcome_simps map_upd_triv)
next
  case (Cons r rs)
  from ask_exact [OF Cons.prems(1) assms(1-3) Cons.prems(2,3), where E = E]
  obtain es1 where es1: "ask E X dc r w = Ret (server_answer A r) (upd dc (cached co c es1) w)"
    "set es1 = set es \<union> learnt A r" "distinct es1" using Cons.prems(4) by fastforce
  let ?w = "upd dc (cached co c es1) w"
  have "objs ?w dc = Some (cached co c es1)" "set es1 \<subseteq> set A" "list_all (answerable A) rs"
    using Cons.prems es1(2) learnt_subset by auto
  from Cons.IH [OF this(1,2) es1(3) this(3)] obtain es2 where
    run: "mmap (ask E X dc) rs ?w = Ret (map (server_answer A) rs) (upd dc (cached co c es2) ?w)" and
    es2: "set es2 = set es1 \<union> (\<Union>r \<in> set rs. learnt A r)" "distinct es2" by blast
  have "upd dc (cached co c es2) ?w = upd dc (cached co c es2) w" by simp
  with run es1(1) have "mmap (ask E X dc) (r # rs) w = Ret (map (server_answer A) (r # rs)) (upd dc (cached co c es2) w)"
    by (simp only: mmap.simps mbind_Ret mret_apply list.map)
  moreover have "set es2 = set es \<union> (\<Union>r \<in> set (r # rs). learnt A r)" using es1(2) es2(1) by auto
  ultimately show ?case using es2(2) by blast
qed


section \<open>Using a connection\<close>

text \<open>An open connection that is alive, with its default screen.\<close>

definition open_connection :: "x_host \<Rightarrow> nat \<Rightarrow> u32 \<Rightarrow> di_object_internal \<Rightarrow> bool" where
  "open_connection X c root co \<longleftrightarrow>
     (\<exists>s n k es sw sh. payload co = P_xorg_connection (Some c) s n k es \<and> screen_of_display X c s = Some (root, sw, sh)) \<and>
     ref_count co \<noteq> 0 \<and> ref_count co \<noteq> - 1 \<and> \<not> destroyed co \<and> mark co = 0"

lemma connection_exact:
  assumes "objs w ext = Some eo" and "hash_find XORG_CONNECTION_MEMBER (members eo) = Some (V_object dc)" and "ext \<noteq> dc"
    and "objs w dc = Some co" and "open_connection X c root co" and "e_fuel E \<noteq> 0"
    and run: "f dc (upd dc (co\<lparr>ref_count := ref_count co + 1\<rparr>) w) = Ret r w'"
    and same: "objs w' dc = Some (co\<lparr>ref_count := ref_count co + 1\<rparr>)"
  shows "get_xorg_connection E ext none f w = Ret r (candidate dc (upd dc co w'))"
proof -
  have "di_unref_object E dc w' = Ret () (candidate dc (upd dc co w'))"
    using unref_exact [OF same, of E] assms(5,6) one_less_plus_one by (simp add: open_connection_def)
  moreover have "di_get E ext (Some XORG_CONNECTION_MEMBER) DI_TYPE_OBJECT w = Ret (0, V_object dc) (upd dc (co\<lparr>ref_count := ref_count co + 1\<rparr>) w)"
    by (rule get_object_exact [OF assms(1,2,4)])
  ultimately show ?thesis
    using run by (simp add: get_xorg_connection_def di_string_borrow_def scoped_object_def mscoped_def outcome_simps)
qed

lemma open_connection_root:
  assumes "objs w dc = Some (co\<lparr>ref_count := n\<rparr>)" and "open_connection X c root co"
  shows "the_root X dc w = Ret root w" and "the_c dc w = Ret c w"
  using assms by (auto simp: open_connection_def the_root_def the_screen_def the_c_def get_xc_def outcome_simps heap_simps)

section \<open>A server for examples\<close>

definition sample_atoms :: "(u32 \<times> char list) list" where
  "sample_atoms = [(6, ''CARDINAL''), (70, ''FLOAT''), (300, ''Device Enabled'')]"

definition sample_server :: x_host where
  "sample_server =
     \<lparr>xh_connect = (\<lambda>_. (1, 0)), xh_has_error = (\<lambda>_ _. False), xh_fd = (\<lambda>_. 5), xh_screens = (\<lambda>_. [(300, 1920, 1080)]),
      xh_keycode_range = (\<lambda>_. (8, 255)), xh_extensions = (\<lambda>_. Some [''RANDR'', ''XInputExtension'']),
      xh_query_extension = (\<lambda>_ _. Some (140, 89)), xh_accepts = (\<lambda>_ _. True),
      xh_atom_name = (\<lambda>_ _ a. map_option snd (find_byatom a sample_atoms)),
      xh_intern_atom = (\<lambda>_ _ n. case find_atom_byname n sample_atoms of None \<Rightarrow> Inl True | Some e \<Rightarrow> Inr (fst e)),
      xh_resource = (\<lambda>_ _ _ _. None), xh_xkb_context_new = Some 1, xh_keymap = (\<lambda>_ _. Some 1), xh_num_layouts = (\<lambda>_. 1),
      xh_keymap_range = (\<lambda>_. (8, 255)), xh_num_levels = (\<lambda>_ _. 2), xh_syms = (\<lambda>_ _ _. []), xh_has_mod = (\<lambda>_ _. True),
      xh_state_new = (\<lambda>_. 0), xh_state_update = (\<lambda>_ k down. if down then (unat k, if k = 50 \<or> k = 62 then 1 else 0) else (0, 0)),
      xh_mod_active = (\<lambda>_ m _. m = ''Shift''), xh_set_modifiers = (\<lambda>_. Some 0), xh_keysyms_alloc = (\<lambda>_. 1),
      xh_keycodes = (\<lambda>_ _ _. None), xh_keysym_from_name = (\<lambda>_. 97), xh_keysym_name = (\<lambda>_. Some ''a''),
      xh_refresh_mapping = (\<lambda>_ _. True),
      xh_modifier_mapping = (\<lambda>_ _. Some (2, 4, Some [50, 62, 66, 0, 37, 105, 64, 108, 77, 0, 0, 0, 133, 134, 92, 0])),
      xh_xi_devices = (\<lambda>_ _ _. Some []), xh_input_devices = (\<lambda>_ _. Some []), xh_xi_property = (\<lambda>_ _ _ _ _. None),
      xh_output_property = (\<lambda>_ _ _ _ _. Inl True), xh_output_valid_values = (\<lambda>_ _ _ _. None), xh_output_info = (\<lambda>_ _ _ _. None),
      xh_crtc_info = (\<lambda>h _ _ _. Some \<lparr>xc_status = 0, xc_timestamp = of_nat (length h), xc_x = 0, xc_y = 0, xc_width = 1920, xc_height = 1080,
                                        xc_rotation = 1, xc_outputs = [66]\<rparr>),
      xh_set_crtc = (\<lambda>h. if length h < 3 then Some 2 else Some 0),
      xh_resources = (\<lambda>_ _ _. None), xh_resources_current = (\<lambda>_ _ _. None), xh_fmul = (\<lambda>a b. a * b), xh_fdiv = (\<lambda>a b. a div b),
      xh_int_to_float = of_int, xh_double_to_float = ucast, xh_float_to_double = ucast\<rparr>"

definition sample_connection :: di_object_internal where
  "sample_connection = di_init_object (P_xorg_connection (Some 1) 0 0 None [])"


end
