(* ===== verification/Deai_Xinput_Props.thy ===== *)
theory Deai_Xinput_Props
  imports Deai_Xinput Deai_Xorg_Props Deai_Refine
begin

text \<open>
  The events selected from the server are those somebody listens to, and the values of a device property are read back
  as they were written.
\<close>

section \<open>Selected events\<close>

datatype xi_op = Xi_start nat | Xi_stop nat

fun xi_step :: "env \<Rightarrow> x_host \<Rightarrow> addr \<Rightarrow> xi_op \<Rightarrow> unit M" where
  "xi_step E X xi (Xi_start ev) = di_xorg_xi_start_listen_for_event E X xi ev"
| "xi_step E X xi (Xi_stop ev) = di_xorg_xi_stop_listen_for_event E X xi ev"

text \<open>The specification: the number of listeners of each event.\<close>

fun count_step :: "xi_op \<Rightarrow> (nat \<Rightarrow> nat) \<Rightarrow> nat \<Rightarrow> nat" where
  "count_step (Xi_start ev) cs = cs(ev := cs ev + 1)"
| "count_step (Xi_stop ev) cs = cs(ev := cs ev - 1)"

fun xi_allowed :: "xi_op \<Rightarrow> world \<Rightarrow> (nat \<Rightarrow> nat) \<Rightarrow> bool" where
  "xi_allowed (Xi_start ev) w cs \<longleftrightarrow> ev \<le> XI_LASTEVENT \<and> cs ev + 1 < 2 ^ 32"
| "xi_allowed (Xi_stop ev) w cs \<longleftrightarrow> ev \<le> XI_LASTEVENT \<and> 0 < cs ev"

text \<open>The mask the server has: that of the last request.\<close>

fun selected :: "effect list \<Rightarrow> u8 list" where
  "selected [] = [0, 0, 0, 0]"
| "selected (Xi_select_events c root ms # es) = ms"
| "selected (e # es) = selected es"

definition mask_bit :: "u8 list \<Rightarrow> nat \<Rightarrow> bool" where
  "mask_bit ms ev = bit (ms ! (ev div 8)) (ev mod 8)"

definition mask_ok :: "u8 list \<Rightarrow> u32 list \<Rightarrow> (nat \<Rightarrow> nat) \<Rightarrow> bool" where
  "mask_ok ms lc cs \<longleftrightarrow> length ms = 4 \<and> length lc = XI_LASTEVENT + 1 \<and>
     (\<forall>ev \<le> XI_LASTEVENT. unat (lc ! ev) = cs ev \<and> (mask_bit ms ev \<longleftrightarrow> 0 < cs ev))"

definition xi_rep :: "x_host \<Rightarrow> addr \<Rightarrow> world \<Rightarrow> (nat \<Rightarrow> nat) \<Rightarrow> bool" where
  "xi_rep X xi w cs \<longleftrightarrow>
     (\<exists>xo dc co n op ms lc c root.
        objs w xi = Some xo \<and> payload xo = P_xorg_xinput n op ms lc \<and>
        hash_find XORG_CONNECTION_MEMBER (members xo) = Some (V_object dc) \<and> xi \<noteq> dc \<and>
        objs w dc = Some co \<and> open_connection X c root co \<and>
        mask_ok ms lc cs \<and> ms = selected (rev (effects w)))"

lemma event_byte: "ev \<le> XI_LASTEVENT \<Longrightarrow> ev div 8 < 4"
  by (simp add: XI_LASTEVENT_def)

lemma event_eq: "ev' = ev \<longleftrightarrow> ev' div 8 = ev div 8 \<and> ev' mod 8 = (ev :: nat) mod 8"
  by (metis div_mult_mod_eq)

lemma event_bit: "bit (push_bit (ev mod 8) (1 :: u8)) n \<longleftrightarrow> n = ev mod 8" if "n < 8" for ev :: nat
  using that by (auto simp: bit_simps)

lemma mask_bit_set:
  assumes "length ms = 4" and "ev \<le> XI_LASTEVENT"
  shows "mask_bit (set_mask ms ev) ev' \<longleftrightarrow> ev' = ev \<or> mask_bit ms ev'"
  using assms(1) event_byte [OF assms(2)] event_bit [of "ev' mod 8" ev]
  by (auto simp: mask_bit_def set_mask_def event_eq [of ev' ev] bit_or_iff nth_list_update)

lemma mask_bit_clear:
  assumes "length ms = 4" and "ev \<le> XI_LASTEVENT"
  shows "mask_bit (clear_mask ms ev) ev' \<longleftrightarrow> ev' \<noteq> ev \<and> mask_bit ms ev'"
  using assms(1) event_byte [OF assms(2)] event_bit [of "ev' mod 8" ev]
  by (auto simp: mask_bit_def clear_mask_def event_eq [of ev' ev] bit_and_iff bit_not_iff nth_list_update)

text \<open>What a new count does to the mask; the mask is left alone unless the count becomes or was zero.\<close>

lemma mask_ok_start:
  assumes "mask_ok ms lc cs" and "ev \<le> XI_LASTEVENT" and "cs ev + 1 < 2 ^ 32"
  defines "n \<equiv> lc ! ev + 1"
  shows "mask_ok (if n > 1 then ms else set_mask ms ev) (lc[ev := n]) (cs(ev := cs ev + 1))"
proof -
  have "unat (lc ! ev) = cs ev" using assms(1,2) by (simp add: mask_ok_def)
  then have n: "unat n = cs ev + 1" using assms(3) by (simp add: n_def unat_word_ariths)
  then have "n > 1 \<longleftrightarrow> 0 < cs ev" by (simp add: word_less_nat_alt)
  with n assms(1,2) mask_bit_set [of ms ev] show ?thesis
    by (auto simp: mask_ok_def nth_list_update set_mask_def)
qed

lemma mask_ok_stop:
  assumes "mask_ok ms lc cs" and "ev \<le> XI_LASTEVENT" and "0 < cs ev"
  defines "n \<equiv> lc ! ev - 1"
  shows "0 < lc ! ev" and "mask_ok (if n > 0 then ms else clear_mask ms ev) (lc[ev := n]) (cs(ev := cs ev - 1))"
proof -
  have u: "unat (lc ! ev) = cs ev" using assms(1,2) by (simp add: mask_ok_def)
  with assms(3) show "0 < lc ! ev" by (simp add: word_less_nat_alt)
  then have n: "unat n = cs ev - 1" using u by (simp add: n_def unat_minus_one word_gt_0)
  then have "n > 0 \<longleftrightarrow> 0 < cs ev - 1" by (simp add: word_less_nat_alt)
  with n assms(1-3) mask_bit_clear [of ms ev]
  show "mask_ok (if n > 0 then ms else clear_mask ms ev) (lc[ev := n]) (cs(ev := cs ev - 1))"
    by (auto simp: mask_ok_def nth_list_update clear_mask_def)
qed

lemma select_exact:
  assumes "objs w dc = Some (co\<lparr>ref_count := r\<rparr>)" and "open_connection X c root co" and "\<And>h e. xh_accepts X h e"
  shows "select_events E X dc ms w = Ret () (w\<lparr>effects := effects w @ [Xi_select_events c root ms]\<rparr>)"
  using open_connection_root [OF assms(1,2)] assms(3)
  by (simp add: select_events_def x_checked_def x_reply_def outcome_simps heap_simps)

text \<open>The extension object with another mask and other counts, and the effects of a change of the mask.\<close>

definition with_mask :: "di_object_internal \<Rightarrow> u8 list \<Rightarrow> u32 list \<Rightarrow> di_object_internal" where
  "with_mask xo ms lc =
     (case payload xo of P_xorg_xinput n op _ _ \<Rightarrow> xo\<lparr>payload := P_xorg_xinput n op ms lc\<rparr> | _ \<Rightarrow> xo)"

lemma set_xi_exact: "objs w xi = Some (with_mask xo ms lc) \<Longrightarrow> payload xo = P_xorg_xinput n op ms0 lc0 \<Longrightarrow>
    set_xi xi ms' lc' w = Ret () (upd xi (with_mask xo ms' lc') w)"
  by (simp add: set_xi_def with_mask_def heap_simps)

lemma get_xi_exact: "objs w xi = Some (with_mask xo ms lc) \<Longrightarrow> payload xo = P_xorg_xinput n op ms0 lc0 \<Longrightarrow>
    get_xi xi w = Ret (op, ms, lc) w"
  by (simp add: get_xi_def with_mask_def heap_simps outcome_simps)

definition selects :: "bool \<Rightarrow> nat \<Rightarrow> u32 \<Rightarrow> u8 list \<Rightarrow> effect list" where
  "selects b c root ms = (if b then [Xi_select_events c root ms] else [])"

lemma xi_repI:
  assumes "objs w xi = Some xo" and "payload xo = P_xorg_xinput n op ms lc"
    and "hash_find XORG_CONNECTION_MEMBER (members xo) = Some (V_object dc)" and "xi \<noteq> dc" and "open_connection X c root co"
    and "ms = selected (rev (effects w))" and "mask_ok ms' lc' cs" and "b \<or> ms' = ms"
  shows "xi_rep X xi (candidate dc (upd dc co (w\<lparr>objs := (objs w)(dc := d, xi \<mapsto> with_mask xo ms' lc'),
     effects := effects w @ selects b c root ms'\<rparr>))) cs"
  using assms by (auto simp: xi_rep_def with_mask_def selects_def candidate_def)

text \<open>An operation that changes the mask and the counts of an open connection.\<close>

lemma xi_listen_exact:
  assumes "xi_rep X xi w cs" and "e_fuel E \<noteq> 0"
    and run: "\<And>w0 xo n op ms lc dc co r c root. objs w0 xi = Some xo \<Longrightarrow> payload xo = P_xorg_xinput n op ms lc \<Longrightarrow> xi \<noteq> dc \<Longrightarrow>
      objs w0 dc = Some (co\<lparr>ref_count := r\<rparr>) \<Longrightarrow> open_connection X c root co \<Longrightarrow> mask_ok ms lc cs \<Longrightarrow>
      \<exists>b ms' lc'. f dc w0 = Ret () (w0\<lparr>objs := (objs w0)(xi \<mapsto> with_mask xo ms' lc'), effects := effects w0 @ selects b c root ms'\<rparr>) \<and>
        mask_ok ms' lc' cs' \<and> (b \<or> ms' = ms)"
  shows "\<exists>w'. get_xorg_connection E xi none f w = Ret () w' \<and> xi_rep X xi w' cs'"
proof -
  from assms(1) obtain xo dc co n op ms lc c root where
    xo: "objs w xi = Some xo" "payload xo = P_xorg_xinput n op ms lc" and
    mem: "hash_find XORG_CONNECTION_MEMBER (members xo) = Some (V_object dc)" "xi \<noteq> dc" and
    co: "objs w dc = Some co" "open_connection X c root co" and ok: "mask_ok ms lc cs" "ms = selected (rev (effects w))"
    by (auto simp: xi_rep_def)
  let ?co = "co\<lparr>ref_count := ref_count co + 1\<rparr>"
  let ?w = "\<lambda>b ms' lc'. w\<lparr>objs := (objs w)(dc \<mapsto> ?co, xi \<mapsto> with_mask xo ms' lc'), effects := effects w @ selects b c root ms'\<rparr>"
  have "objs (upd dc ?co w) xi = Some xo" "objs (upd dc ?co w) dc = Some ?co" using xo(1) mem(2) by simp_all
  from run [OF this(1) xo(2) mem(2) this(2) co(2) ok(1)]
  obtain b ms' lc' where b: "f dc (upd dc ?co w) = Ret () (?w b ms' lc')" "mask_ok ms' lc' cs'" "b \<or> ms' = ms" by auto
  have "get_xorg_connection E xi none f w = Ret () (candidate dc (upd dc co (?w b ms' lc')))"
    by (rule connection_exact [OF xo(1) mem co assms(2)]) (use mem(2) b(1) in simp_all)
  moreover have "xi_rep X xi (candidate dc (upd dc co (?w b ms' lc'))) cs'"
    by (rule xi_repI [OF xo mem co(2) ok(2) b(2,3)])
  ultimately show ?thesis by blast
qed

lemmas xi_body = get_xi_def set_xi_def with_mask_def selects_def Let_def outcome_simps heap_simps

lemma xi_start_exact:
  assumes "xi_rep X xi w cs" and "xi_allowed (Xi_start ev) w cs" and "\<And>h e. xh_accepts X h e" and "e_fuel E \<noteq> 0"
  shows "\<exists>w'. di_xorg_xi_start_listen_for_event E X xi ev w = Ret () w' \<and> xi_rep X xi w' (cs(ev := cs ev + 1))"
  unfolding di_xorg_xi_start_listen_for_event_def
proof (rule xi_listen_exact [OF assms(1,4)], goal_cases)
  case (1 w0 xo n op ms lc dc co r c root)
  let ?n = "lc ! ev + 1"
  show ?case
    by (rule exI [of _ "\<not> ?n > 1"], rule exI [of _ "if ?n > 1 then ms else set_mask ms ev"], rule exI [of _ "lc[ev := ?n]"])
      (use 1 assms(2) mask_ok_start [OF 1(6), of ev] select_exact [OF _ 1(5) assms(3), of _ dc r E] in \<open>simp add: xi_body\<close>)
qed

lemma xi_stop_exact:
  assumes "xi_rep X xi w cs" and "xi_allowed (Xi_stop ev) w cs" and "\<And>h e. xh_accepts X h e" and "e_fuel E \<noteq> 0"
  shows "\<exists>w'. di_xorg_xi_stop_listen_for_event E X xi ev w = Ret () w' \<and> xi_rep X xi w' (cs(ev := cs ev - 1))"
  unfolding di_xorg_xi_stop_listen_for_event_def
proof (rule xi_listen_exact [OF assms(1,4)], goal_cases)
  case (1 w0 xo n op ms lc dc co r c root)
  let ?n = "lc ! ev - 1"
  show ?case
    by (rule exI [of _ "\<not> ?n > 0"], rule exI [of _ "if ?n > 0 then ms else clear_mask ms ev"], rule exI [of _ "lc[ev := ?n]"])
      (use 1 assms(2) mask_ok_stop [OF 1(6), of ev] select_exact [OF _ 1(5) assms(3), of _ dc r E] in \<open>simp add: xi_body\<close>)
qed

text \<open>The server accepts every selection, and references can be dropped.\<close>

definition xi_start_rep :: "env \<Rightarrow> x_host \<Rightarrow> addr \<Rightarrow> world \<Rightarrow> (nat \<Rightarrow> nat) \<Rightarrow> bool" where
  "xi_start_rep E X xi w cs \<longleftrightarrow> xi_rep X xi w cs \<and> (\<forall>h e. xh_accepts X h e) \<and> e_fuel E \<noteq> 0"

interpretation xi: step_refinement "xi_start_rep E X xi" "xi_step E X xi" count_step xi_allowed for E X xi
proof unfold_locales
  fix w cs x assume rep: "xi_start_rep E X xi w cs" and pre: "xi_allowed x w cs"
  show "\<exists>w'. xi_step E X xi x w = Ret () w' \<and> xi_start_rep E X xi w' (count_step x cs)"
    using rep pre xi_start_exact [of X xi w cs _ E] xi_stop_exact [of X xi w cs _ E]
    by (cases x) (simp_all add: xi_start_rep_def)
qed

text \<open>
  C19: Listening to input events refines counting.  After any sequence of starts and stops of listening to events the X
  server knows about, each stop after its start, the number kept for an event is that of the starts without a stop, and the last
  selection sent to the server has exactly the events with a listener.
\<close>

theorem xinput_selection_refines_counts:
  assumes "xi_rep X xi w cs" and "\<And>h e. xh_accepts X h e" and "e_fuel E \<noteq> 0"
    and "steps_allowed (xi_step E X xi) count_step xi_allowed ops w cs"
  shows "\<exists>w'. run_steps (xi_step E X xi) ops w = Ret () w' \<and> xi_rep X xi w' (fold count_step ops cs) \<and>
    (\<forall>ev \<le> XI_LASTEVENT. mask_bit (selected (rev (effects w'))) ev \<longleftrightarrow> 0 < fold count_step ops cs ev)"
proof -
  from xi.steps_refine [of E X xi w cs ops] assms obtain w' where
    w': "run_steps (xi_step E X xi) ops w = Ret () w'" "xi_rep X xi w' (fold count_step ops cs)"
    by (auto simp: xi_start_rep_def)
  then have "mask_bit (selected (rev (effects w'))) ev \<longleftrightarrow> 0 < fold count_step ops cs ev" if "ev \<le> XI_LASTEVENT" for ev
    using that by (auto simp: xi_rep_def mask_ok_def)
  with w' show ?thesis by blast
qed

definition xi_heap :: world where
  "xi_heap = empty_world\<lparr>objs := [1 \<mapsto> sample_connection,
     2 \<mapsto> (di_init_object (P_xorg_xinput 0 131 [0, 0, 0, 0] (replicate 27 0)))\<lparr>members := [(XORG_CONNECTION_MEMBER, V_object 1)]\<rparr>]\<rparr>"

lemma xi_heap_rep: "xi_rep sample_server 2 xi_heap (\<lambda>_. 0)"
proof -
  have "open_connection sample_server 1 300 sample_connection"
    by (simp add: open_connection_def sample_connection_def di_init_object_def screen_of_display_def sample_server_def)
  moreover have "mask_ok [0, 0, 0, 0] (replicate 27 0) (\<lambda>_. 0)"
  proof -
    have "([0, 0, 0, 0] :: u8 list) ! (ev div 8) = 0" if "ev \<le> 26" for ev
    proof -
      from that have "ev div 8 = 0 \<or> ev div 8 = 1 \<or> ev div 8 = 2 \<or> ev div 8 = 3" by linarith
      then show ?thesis by auto
    qed
    then show ?thesis by (simp add: mask_ok_def XI_LASTEVENT_def mask_bit_def)
  qed
  ultimately show ?thesis
    unfolding xi_rep_def xi_heap_def
    by - (rule exI [of _ "(di_init_object (P_xorg_xinput 0 131 [0, 0, 0, 0] (replicate 27 0)))\<lparr>members := [(XORG_CONNECTION_MEMBER, V_object 1)]\<rparr>"],
        rule exI [of _ 1], rule exI [of _ sample_connection],
        auto simp: di_init_object_def empty_world_def)
qed

theorem xinput_selection_refines_counts_witness:
  "\<exists>w'. run_steps (xi_step demo_env sample_server 2) [Xi_start 11, Xi_start 11, Xi_start 5, Xi_stop 11, Xi_stop 5] xi_heap = Ret () w' \<and>
    mask_bit (selected (rev (effects w'))) 11 \<and> \<not> mask_bit (selected (rev (effects w'))) 5"
proof -
  let ?ops = "[Xi_start 11, Xi_start 11, Xi_start 5, Xi_stop 11, Xi_stop 5]"
  have ok: "\<And>h e. xh_accepts sample_server h e" "e_fuel demo_env \<noteq> 0" by (simp_all add: sample_server_def demo_env_def)
  have "steps_allowed (xi_step demo_env sample_server 2) count_step xi_allowed ?ops xi_heap (\<lambda>_. 0)"
    by (simp add: XI_LASTEVENT_def split: outcome.splits)
  from xinput_selection_refines_counts [OF xi_heap_rep ok this] show ?thesis by (auto simp: XI_LASTEVENT_def)
qed

section \<open>Properties of a device\<close>

text \<open>A device on an open connection with \<open>m\<close> references whose cache agrees with the atoms \<open>A\<close>.\<close>

definition dev_ok :: "(u32 \<times> char list) list \<Rightarrow> nat \<Rightarrow> addr \<Rightarrow> int \<Rightarrow> addr \<Rightarrow> u64 \<Rightarrow> world \<Rightarrow> bool" where
  "dev_ok A c dev devid dc m w \<longleftrightarrow>
     (\<exists>od xi xo co s n k es. objs w dev = Some od \<and> payload od = P_xinput_device devid xi \<and>
        objs w xi = Some xo \<and> hash_find XORG_CONNECTION_MEMBER (members xo) = Some (V_object dc) \<and> xi \<noteq> dc \<and>
        objs w dc = Some co \<and> payload co = P_xorg_connection (Some c) s n k es \<and> set es \<subseteq> set A \<and> distinct es \<and>
        ref_count co = m \<and> \<not> destroyed co \<and> mark co = 0)"

lemma dev_ok_effects [simp]: "dev_ok A c dev devid dc m (w\<lparr>effects := h\<rparr>) = dev_ok A c dev devid dc m w"
  by (simp add: dev_ok_def)

text \<open>The connection in another state.\<close>

lemma dev_ok_upd:
  assumes "dev_ok A c dev devid dc m w" and "objs w dc = Some co" and "payload co' = P_xorg_connection (Some c) s n k es"
    and "set es \<subseteq> set A" and "distinct es" and "ref_count co' = m'" and "\<not> destroyed co'" and "mark co' = 0"
  shows "dev_ok A c dev devid dc m' (upd dc co' w)"
proof -
  from assms(1,2) have "dev \<noteq> dc" by (auto simp: dev_ok_def)
  with assms show ?thesis by (auto simp: dev_ok_def)
qed

lemma dev_connection:
  assumes ok: "dev_ok A c dev devid dc m w" and m: "m \<noteq> 0" "m \<noteq> - 1" and "e_fuel E \<noteq> 0"
    and run: "\<And>w0. dev_ok A c dev devid dc (m + 1) w0 \<Longrightarrow> effects w0 = effects w \<Longrightarrow>
      \<exists>w1. f dc w0 = Ret r w1 \<and> dev_ok A c dev devid dc (m + 1) w1 \<and> effects w1 = h"
  shows "\<exists>xi w2. get_dev dev w = Ret (devid, xi) w \<and> get_xorg_connection E xi none f w = Ret r w2 \<and>
    dev_ok A c dev devid dc m w2 \<and> effects w2 = h"
proof -
  from ok obtain od xi xo co s n k es where o:
    "objs w dev = Some od" "payload od = P_xinput_device devid xi" "objs w xi = Some xo"
    "hash_find XORG_CONNECTION_MEMBER (members xo) = Some (V_object dc)" "xi \<noteq> dc" and co:
    "objs w dc = Some co" "payload co = P_xorg_connection (Some c) s n k es" "set es \<subseteq> set A" "distinct es"
    "ref_count co = m" "\<not> destroyed co" "mark co = 0" by (auto simp: dev_ok_def)
  let ?w0 = "upd dc (co\<lparr>ref_count := m + 1\<rparr>) w"
  have "dev_ok A c dev devid dc (m + 1) ?w0" by (rule dev_ok_upd [OF ok co(1)]) (use co in simp_all)
  from run [OF this] obtain w1 where w1: "f dc ?w0 = Ret r w1" "dev_ok A c dev devid dc (m + 1) w1" "effects w1 = h" by auto
  from w1(2) obtain co1 s1 n1 k1 es1 where co1: "objs w1 dc = Some co1" "payload co1 = P_xorg_connection (Some c) s1 n1 k1 es1"
    "set es1 \<subseteq> set A" "distinct es1" "ref_count co1 = m + 1" "\<not> destroyed co1" "mark co1 = 0" by (auto simp: dev_ok_def)
  have un: "di_unref_object E dc w1 = Ret () (candidate dc (upd dc (co1\<lparr>ref_count := m\<rparr>) w1))"
    using unref_exact [OF co1(1) co1(6,7), of E] co1(5) one_less_plus_one [OF m] assms(4) by simp
  have "di_get E xi (Some XORG_CONNECTION_MEMBER) DI_TYPE_OBJECT w = Ret (0, V_object dc) ?w0"
    using get_object_exact [OF o(3,4) co(1)] co(5) by simp
  then have "get_xorg_connection E xi none f w = Ret r (candidate dc (upd dc (co1\<lparr>ref_count := m\<rparr>) w1))"
    using w1(1) un by (simp add: get_xorg_connection_def di_string_borrow_def scoped_object_def mscoped_def outcome_simps)
  moreover have "dev_ok A c dev devid dc m (upd dc (co1\<lparr>ref_count := m\<rparr>) w1)"
    by (rule dev_ok_upd [OF w1(2) co1(1)]) (use co1 in simp_all)
  then have "dev_ok A c dev devid dc m (candidate dc (upd dc (co1\<lparr>ref_count := m\<rparr>) w1))"
    by (simp add: dev_ok_def)
  moreover have "get_dev dev w = Ret (devid, xi) w" using o(1,2) by (simp add: get_dev_def outcome_simps heap_simps)
  moreover have "effects (candidate dc (upd dc (co1\<lparr>ref_count := m\<rparr>) w1)) = h" using w1(3) by (simp add: candidate_def)
  ultimately show ?thesis by blast
qed

lemma dev_intern:
  assumes ok: "dev_ok A c dev devid dc m w" and "atom_table A" and "serves_atoms X c A" and "(a, name) \<in> set A"
  shows "\<exists>w'. di_xorg_intern_atom E X dc (Some name) w = Ret (a, False) w' \<and> dev_ok A c dev devid dc m w' \<and> effects w' = effects w"
proof -
  from ok obtain co s n k es where co:
    "objs w dc = Some co" "payload co = P_xorg_connection (Some c) s n k es" "set es \<subseteq> set A" "distinct es"
    "ref_count co = m" "\<not> destroyed co" "mark co = 0" by (auto simp: dev_ok_def)
  have f: "find_atom_byname name A = Some (a, name)" using find_in_table(2) [OF assms(2,4)] by simp
  have "objs w dc = Some (cached co c es)" using co(1,2) by (simp add: cached_def)
  from ask_exact [OF this co(2) assms(2,3) co(3,4), of "Intern name" E] f
  obtain es' where es': "ask E X dc (Intern name) w = Ret (An_atom (a, False)) (upd dc (cached co c es') w)"
    "set es' = set es \<union> learnt A (Intern name)" "distinct es'" by auto
  have "di_xorg_intern_atom E X dc (Some name) w = Ret (a, False) (upd dc (cached co c es') w)"
    using es'(1) by (auto simp: mbind_def mret_apply split: outcome.splits)
  moreover have "dev_ok A c dev devid dc m (upd dc (cached co c es') w)"
    by (rule dev_ok_upd [OF ok co(1), of _ s n k es']) (use co es' learnt_subset [of A "Intern name"] in \<open>auto simp: cached_def\<close>)
  ultimately show ?thesis by simp
qed

lemma dev_c: "dev_ok A c dev devid dc m w \<Longrightarrow> the_c dc w = Ret c w"
  by (auto simp: dev_ok_def the_c_def get_xc_def outcome_simps heap_simps)

text \<open>Integer items: the value keeps the bits the format has room for, and is read without a sign.\<close>

definition item :: "u8 \<Rightarrow> u64 \<Rightarrow> u32" where
  "item format n = ucast (take_bit (unat format) n)"

lemma int_items:
  assumes "type = XCB_ATOM_INTEGER \<or> type = XCB_ATOM_CARDINAL" and "format = 8 \<or> format = 16 \<or> format = 32"
  shows "prop_items E X dc float_atom type format DI_TYPE_INT (map V_int ns) w = Ret (Inr (map (\<lambda>n. Some (item format n)) ns)) w"
proof (induction ns)
  case (Cons n ns)
  have "item_of float_atom type format DI_TYPE_INT (sint n) f = Inr (Some (item format n))" for f
    using assms by (auto simp: item_of_def item_def intro!: bit_word_eqI) (simp_all add: bit_simps)
  with Cons show ?case by (simp add: read_elem_def outcome_simps)
qed (simp add: outcome_simps)

lemma int_read:
  assumes "type = XCB_ATOM_INTEGER \<or> type = XCB_ATOM_CARDINAL" and "format = 8 \<or> format = 16 \<or> format = 32" and "float_atom \<noteq> type"
  shows "read_prop E X dc float_atom \<lparr>xp_type = type, xp_format = format, xp_bytes_after = b, xp_items = map (item format) ns\<rparr> w =
    Ret (V_variant (case ns of [n] \<Rightarrow> V_int (take_bit (unat format) n) | _ \<Rightarrow> V_array DI_TYPE_INT (map (\<lambda>n. V_int (take_bit (unat format) n)) ns))) w"
proof -
  have "ucast (item format n) = take_bit (unat format) n" for n
    using assms(2) by (auto simp: item_def intro!: bit_word_eqI) (simp_all add: bit_simps)
  then have "mmap (item_value X dc DI_TYPE_INT) (map (item format) ns) w = Ret (map (\<lambda>n. V_int (take_bit (unat format) n)) ns) w"
    by (induction ns) (simp_all add: item_value_def outcome_simps)
  then show ?thesis using assms
    by (auto simp: read_prop_def prop_elem_type_def XCB_ATOM_INTEGER_def XCB_ATOM_CARDINAL_def XCB_ATOM_ATOM_def XCB_ATOM_STRING_def
        outcome_simps split: list.splits)
qed

lemma dev_run:
  assumes "dev_ok A c dev devid dc m w" and "m \<noteq> 0" and "m \<noteq> - 1" and "e_fuel E \<noteq> 0"
    and "\<And>xi w0. dev_ok A c dev devid dc (m + 1) w0 \<Longrightarrow> effects w0 = effects w \<Longrightarrow>
      \<exists>w1. f devid xi dc w0 = Ret r w1 \<and> dev_ok A c dev devid dc (m + 1) w1 \<and> effects w1 = h"
  shows "\<exists>w2. mbind (get_dev dev) (\<lambda>(devid, xi). get_xorg_connection E xi (none devid xi) (f devid xi)) w = Ret r w2 \<and>
    dev_ok A c dev devid dc m w2 \<and> effects w2 = h"
proof -
  from assms(1) obtain od xi where xi: "objs w dev = Some od" "payload od = P_xinput_device devid xi" by (auto simp: dev_ok_def)
  then have g: "get_dev dev w = Ret (devid, xi) w" by (simp add: get_dev_def outcome_simps heap_simps)
  from dev_connection [OF assms(1-4), of "f devid xi" r h "none devid xi"] assms(5) g show ?thesis by (auto simp: outcome_simps)
qed

text \<open>A server that keeps the properties it is sent; the requests are given newest first.\<close>

fun stored :: "(int \<Rightarrow> u32 \<Rightarrow> x_property) \<Rightarrow> effect list \<Rightarrow> nat \<Rightarrow> int \<Rightarrow> u32 \<Rightarrow> x_property" where
  "stored first [] c d a = first d a"
| "stored first (Xi_change_property c' d' format a' type items # es) c d a =
     (if c' = c \<and> d' = d \<and> a' = a then \<lparr>xp_type = type, xp_format = ucast format, xp_bytes_after = 0, xp_items = items\<rparr>
      else stored first es c d a)"
| "stored first (e # es) c d a = stored first es c d a"

definition keeps_properties :: "x_host \<Rightarrow> (int \<Rightarrow> u32 \<Rightarrow> x_property) \<Rightarrow> nat \<Rightarrow> bool" where
  "keeps_properties X first c \<longleftrightarrow>
     (\<forall>h d a n. xh_xi_property X h c d a n = Some (stored first (rev h) c d a)) \<and> (\<forall>h e. xh_accepts X h e)"

definition int_values :: "u64 list \<Rightarrow> di_variant" where
  "int_values ns = (case ns of [n] \<Rightarrow> V_int n | _ \<Rightarrow> V_array DI_TYPE_INT (map V_int ns))"

lemma prop_elems_ints: "prop_elems (int_values ns) = (DI_TYPE_INT, map V_int ns)"
  by (auto simp: int_values_def split: list.splits)

lemmas atom_constants = XCB_ATOM_NONE_def XCB_ATOM_ATOM_def XCB_ATOM_CARDINAL_def XCB_ATOM_INTEGER_def XCB_ATOM_STRING_def

lemma set_prop_int:
  assumes ok: "dev_ok A c dev devid dc m w" "m \<noteq> 0" "m \<noteq> - 1" "e_fuel E \<noteq> 0"
    and A: "atom_table A" "serves_atoms X c A" "(a, key) \<in> set A" "(fa, ''FLOAT'') \<in> set A"
    and X: "keeps_properties X first c" and p: "stored first (rev (effects w)) c devid a = p"
    and t: "xp_type p = XCB_ATOM_INTEGER \<or> xp_type p = XCB_ATOM_CARDINAL" "fa \<noteq> xp_type p"
    and f: "xp_format p = 8 \<or> xp_format p = 16 \<or> xp_format p = 32" and "ns \<noteq> []"
  shows "\<exists>w1. di_xorg_xinput_set_prop E X dev (Some key) (int_values ns) w = Ret () w1 \<and> dev_ok A c dev devid dc m w1 \<and>
    effects w1 = effects w @ [Xi_change_property c devid (ucast (xp_format p)) a (xp_type p) (map (item (xp_format p)) ns)]"
  unfolding di_xorg_xinput_set_prop_def
proof (rule dev_run [OF ok], goal_cases)
  case w0: (1 xi w0)
  from dev_intern [OF w0(1) A(1,2,3), of E] obtain w1 where
    w1: "di_xorg_intern_atom E X dc (Some key) w0 = Ret (a, False) w1" "dev_ok A c dev devid dc (m + 1) w1" "effects w1 = effects w" using w0(2) by auto
  from dev_intern [OF w1(2) A(1,2,4), of E] obtain w2 where
    w2: "di_xorg_intern_atom E X dc (Some ''FLOAT'') w1 = Ret (fa, False) w2" "dev_ok A c dev devid dc (m + 1) w2" "effects w2 = effects w" using w1(3) by auto
  let ?e = "Xi_change_property c devid (ucast (xp_format p)) a (xp_type p) (map (item (xp_format p)) ns)"
  have items: "change_property E X dc devid (Some key) a (xp_type p) (xp_format p) (map (\<lambda>n. Some (item (xp_format p) n)) ns) w2 =
      Ret () (w2\<lparr>effects := effects w2 @ [?e]\<rparr>)"
    using dev_c [OF w2(2)] X assms(14)
    by (cases ns) (simp_all add: change_property_def x_checked_def x_reply_def keeps_properties_def comp_def outcome_simps heap_simps)
  have "xh_xi_property X (effects w2) c devid a 0 = Some p" using X p w2(3) by (simp add: keeps_properties_def)
  with w1(1) w2(1) dev_c [OF w2(2)] int_items [OF t(1) f, of E X dc fa ns w2] items t
  show ?case
    by (intro exI [of _ "w2\<lparr>effects := effects w2 @ [?e]\<rparr>"])
      (auto simp: w2 prop_elems_ints di_string_borrow_def x_reply_def atom_constants outcome_simps)
qed

lemma get_prop_int:
  assumes ok: "dev_ok A c dev devid dc m w" "m \<noteq> 0" "m \<noteq> - 1" "e_fuel E \<noteq> 0"
    and A: "atom_table A" "serves_atoms X c A" "(a, key) \<in> set A" "(fa, ''FLOAT'') \<in> set A"
    and X: "keeps_properties X first c"
    and p: "stored first (rev (effects w)) c devid a = \<lparr>xp_type = type, xp_format = format, xp_bytes_after = b, xp_items = map (item format) ns\<rparr>"
    and t: "type = XCB_ATOM_INTEGER \<or> type = XCB_ATOM_CARDINAL" "fa \<noteq> type"
    and f: "format = 8 \<or> format = 16 \<or> format = 32"
  shows "\<exists>w1. di_xorg_xinput_get_prop E X dev (Some key) w = Ret (V_variant (int_values (map (take_bit (unat format)) ns))) w1 \<and>
    dev_ok A c dev devid dc m w1 \<and> effects w1 = effects w"
  unfolding di_xorg_xinput_get_prop_def
proof (rule dev_run [OF ok], goal_cases)
  case w0: (1 xi w0)
  from dev_intern [OF w0(1) A(1,2,3), of E] obtain w1 where
    w1: "di_xorg_intern_atom E X dc (Some key) w0 = Ret (a, False) w1" "dev_ok A c dev devid dc (m + 1) w1" "effects w1 = effects w" using w0(2) by auto
  from dev_intern [OF w1(2) A(1,2,4), of E] obtain w2 where
    w2: "di_xorg_intern_atom E X dc (Some ''FLOAT'') w1 = Ret (fa, False) w2" "dev_ok A c dev devid dc (m + 1) w2" "effects w2 = effects w" using w1(3) by auto
  let ?p = "\<lparr>xp_type = type, xp_format = format, xp_bytes_after = b, xp_items = map (item format) ns\<rparr>"
  have "xh_xi_property X (effects w2) c devid a n = Some ?p" for n using X p w2(3) by (simp add: keeps_properties_def)
  moreover have "read_prop E X dc fa ?p w2 = Ret (V_variant (int_values (map (take_bit (unat format)) ns))) w2"
    using int_read [OF t(1) f t(2), of E X dc b ns w2] by (simp add: int_values_def comp_def split: list.splits)
  ultimately show ?case using w1(1) w2 dev_c [OF w2(2)] t(1)
    by (intro exI [of _ w2]) (auto simp: di_string_borrow_def x_reply_def atom_constants outcome_simps)
qed


definition enabled_property :: "int \<Rightarrow> u32 \<Rightarrow> x_property" where
  "enabled_property d a = \<lparr>xp_type = XCB_ATOM_INTEGER, xp_format = 8, xp_bytes_after = 0, xp_items = [1]\<rparr>"

definition property_server :: x_host where
  "property_server = sample_server\<lparr>xh_xi_property := (\<lambda>h c d a n. Some (stored enabled_property (rev h) c d a))\<rparr>"

definition dev_heap :: world where
  "dev_heap = xi_heap\<lparr>objs := (objs xi_heap)(3 \<mapsto> di_init_object (P_xinput_device 12 2))\<rparr>"


end
