(* ===== verification/Deai_Xkey_Props.thy ===== *)
theory Deai_Xkey_Props
  imports Deai_Xkey Deai_Xorg_Props
begin

text \<open>
  Key events: which of them are withheld from the other clients, what a binding without key codes does to them, and which
  modifiers are taken from the state of a key that is released.
\<close>

section \<open>Emission to the bindings\<close>

text \<open>The key codes, modifiers and flag of a binding, with its object.\<close>

record binding =
  b_obj :: addr
  b_keycodes :: "u8 list option"
  b_mods :: u16
  b_intercept :: bool

definition binding_ok :: "binding \<Rightarrow> di_object_internal \<Rightarrow> bool" where
  "binding_ok b bo \<longleftrightarrow> (\<exists>s. payload bo = P_keybinding s (b_keycodes b) (b_mods b) (b_intercept b)) \<and>
     ref_count bo \<noteq> 0 \<and> ref_count bo \<noteq> - 1 \<and> \<not> destroyed bo \<and> mark bo = 0"

definition with_ref :: "addr \<Rightarrow> (addr \<rightharpoonup> di_object_internal) \<Rightarrow> addr \<rightharpoonup> di_object_internal" where
  "with_ref a os = (case os a of None \<Rightarrow> os | Some ob \<Rightarrow> os(a \<mapsto> ob\<lparr>ref_count := ref_count ob + 1\<rparr>))"

text \<open>
  The key extension \<open>k\<close> with its bindings in the objects \<open>os\<close>.  Whoever listens to a binding leaves the objects as they are.
\<close>

definition bindings_ok :: "env \<Rightarrow> c_string \<Rightarrow> addr \<Rightarrow> binding list \<Rightarrow> (addr \<rightharpoonup> di_object_internal) \<Rightarrow> bool" where
  "bindings_ok E event k bs os \<longleftrightarrow>
     (\<exists>ko n syms. os k = Some ko \<and> payload ko = P_xorg_key n syms (of_nat (length bs)) \<and>
        (\<forall>i < length bs. hash_find (''___keybinding_'' @ dec_string i) (members ko) = Some (V_object (b_obj (bs ! i))))) \<and>
     length bs < 2 ^ 64 \<and> length bs < e_fuel E \<and>
     (\<forall>b \<in> set bs. (\<exists>bo. os (b_obj b) = Some bo \<and> binding_ok b bo) \<and>
        (\<forall>ks. b_keycodes b = Some ks \<longrightarrow> length ks < e_fuel E) \<and>
        (\<forall>w. objs w = with_ref (b_obj b) os \<longrightarrow> (\<exists>w'. di_emit E (b_obj b) event [] w = Ret () w' \<and> objs w' = objs w)))"

definition matches :: "u8 \<Rightarrow> u16 \<Rightarrow> binding \<Rightarrow> bool" where
  "matches kc m b \<longleftrightarrow> b_mods b = m \<and> (\<exists>ks. b_keycodes b = Some ks \<and> kc \<in> set ks)"

definition broken :: "u16 \<Rightarrow> binding \<Rightarrow> bool" where
  "broken m b \<longleftrightarrow> b_mods b = m \<and> b_keycodes b = None"

lemma get_kb_exact: "objs w a = Some bo \<Longrightarrow> payload bo = P_keybinding s kcs m ic \<Longrightarrow> get_kb a w = Ret (s, kcs, m, ic) w"
  by (simp add: get_kb_def outcome_simps heap_simps)

lemma emit_binding_exact:
  assumes bo: "os a = Some bo" "payload bo = P_keybinding s (Some ks) m ic"
    and quiet: "\<And>w. objs w = os \<Longrightarrow> \<exists>w'. di_emit E a event [] w = Ret () w' \<and> objs w' = objs w"
  shows "objs w = os \<Longrightarrow> j \<le> length ks \<Longrightarrow> length ks - j < n \<Longrightarrow>
    \<exists>w'. emit_binding n E a event kc j acc w = Ret (acc \<or> ic \<and> kc \<in> set (drop j ks)) w' \<and> objs w' = os"
proof (induction n arbitrary: j acc w)
  case (Suc n)
  have kb: "get_kb a w = Ret (s, Some ks, m, ic) w" using get_kb_exact bo Suc.prems(1) by simp
  show ?case
  proof (cases "j = length ks")
    case True
    then show ?thesis using kb Suc.prems(1) by (simp add: outcome_simps)
  next
    case False
    then have j: "j < length ks" using Suc.prems(2) by simp
    obtain w1 where w1: "di_emit E a event [] w = Ret () w1" "objs w1 = os" using quiet Suc.prems(1) by force
    have "set (drop j ks) = insert (ks ! j) (set (drop (Suc j) ks))" using j by (metis Cons_nth_drop_Suc list.simps(15))
    moreover have "((acc \<or> ic) \<or> ic \<and> x) = (acc \<or> ic)" for x by auto
    moreover have "length ks - Suc j < n" using Suc.prems(3) j by simp
    ultimately show ?thesis
      using kb j False w1 Suc.IH [of w1 "Suc j" "acc \<or> ic"] Suc.IH [of w "Suc j" acc] Suc.prems(1)
      by (cases "ks ! j = kc") (auto simp: outcome_simps)
  qed
qed simp

lemma emit_one_exact:
  assumes ok: "bindings_ok E event k bs os" and i: "i < length bs" and w: "objs w = os"
  shows "\<exists>r. mbind (di_get E k (keybinding_name (of_nat i)) DI_TYPE_OBJECT) (\<lambda>(rc, v).
     case (rc = 0, v) of
       (True, V_object kb) \<Rightarrow>
         mbind (scoped_object E (Some kb)
                 (mbind (get_kb kb) (\<lambda>(_, _, km, _).
                  if km \<noteq> m then mret acc else emit_binding (e_fuel E) E kb event kc 0 acc))) cont
     | _ \<Rightarrow> mcrash Panic) w = r \<and>
    (if broken m (bs ! i) then r = Crash Null_deref
     else \<exists>w'. r = cont (acc \<or> matches kc m (bs ! i) \<and> b_intercept (bs ! i)) w' \<and> objs w' = os)"
proof -
  let ?b = "bs ! i" let ?a = "b_obj ?b"
  from ok i w obtain ko bo s where ko: "objs w k = Some ko" "hash_find (''___keybinding_'' @ dec_string i) (members ko) = Some (V_object ?a)"
    and bo: "objs w ?a = Some bo" "payload bo = P_keybinding s (b_keycodes ?b) (b_mods ?b) (b_intercept ?b)"
      "ref_count bo \<noteq> 0" "ref_count bo \<noteq> - 1" "\<not> destroyed bo" "mark bo = 0"
    by (auto simp: bindings_ok_def binding_ok_def dest!: bspec [of _ _ ?b])
  have "unat (of_nat i :: u64) = i" using ok i by (simp add: bindings_ok_def unat_of_nat)
  then have get: "di_get E k (keybinding_name (of_nat i)) DI_TYPE_OBJECT w = Ret (0, V_object ?a) (upd ?a (bo\<lparr>ref_count := ref_count bo + 1\<rparr>) w)"
    using get_object_exact [OF ko bo(1)] by (simp add: keybinding_name_def)
  let ?w1 = "upd ?a (bo\<lparr>ref_count := ref_count bo + 1\<rparr>) w"
  have w1: "objs ?w1 = with_ref ?a os" using bo(1) w by (simp add: with_ref_def)
  have kb: "get_kb ?a ?w1 = Ret (s, b_keycodes ?b, b_mods ?b, b_intercept ?b) ?w1" using get_kb_exact [of ?w1 ?a "bo\<lparr>ref_count := ref_count bo + 1\<rparr>"] bo(2) by simp
  have un: "\<exists>w3. di_unref_object E ?a w2 = Ret () w3 \<and> objs w3 = os" if "objs w2 = with_ref ?a os" for w2
  proof -
    have "objs w2 ?a = Some (bo\<lparr>ref_count := ref_count bo + 1\<rparr>)" using that bo(1) w by (simp add: with_ref_def)
    from unref_exact [OF this, of E] bo(3-6) one_less_plus_one ok that w bo(1) show ?thesis
      by (auto simp: bindings_ok_def with_ref_def map_upd_triv)
  qed
  let ?body = "mbind (get_kb ?a) (\<lambda>(_, _, km, _). if km \<noteq> m then mret acc else emit_binding (e_fuel E) E ?a event kc 0 acc)"
  have "if broken m ?b then ?body ?w1 = Crash Null_deref
    else \<exists>w2. ?body ?w1 = Ret (acc \<or> matches kc m ?b \<and> b_intercept ?b) w2 \<and> objs w2 = with_ref ?a os"
  proof (cases "b_keycodes ?b")
    case None
    moreover have "emit_binding (e_fuel E) E ?a event kc 0 acc ?w1 = Crash Null_deref"
      using kb None ok by (cases "e_fuel E") (simp_all add: bindings_ok_def outcome_simps)
    ultimately show ?thesis using kb w1 by (simp add: broken_def matches_def outcome_simps)
  next
    case (Some ks)
    have "\<exists>w2. emit_binding (e_fuel E) E ?a event kc 0 acc ?w1 = Ret (acc \<or> b_intercept ?b \<and> kc \<in> set (drop 0 ks)) w2 \<and> objs w2 = with_ref ?a os"
    proof (rule emit_binding_exact [OF _ _ _ w1])
      show "with_ref ?a os ?a = Some (bo\<lparr>ref_count := ref_count bo + 1\<rparr>)" using bo(1) w by (simp add: with_ref_def)
    qed (use bo(2) Some ok i in \<open>auto simp: bindings_ok_def dest!: bspec [of _ _ ?b]\<close>)
    then obtain w2 where w2: "emit_binding (e_fuel E) E ?a event kc 0 acc ?w1 = Ret (acc \<or> b_intercept ?b \<and> kc \<in> set ks) w2"
      "objs w2 = with_ref ?a os" by auto
    show ?thesis
    proof (cases "b_mods ?b = m")
      case True
      then have "(matches kc m ?b \<and> b_intercept ?b) = (b_intercept ?b \<and> kc \<in> set ks)" using Some by (auto simp: matches_def)
      moreover have "?body ?w1 = emit_binding (e_fuel E) E ?a event kc 0 acc ?w1" using kb True by (simp add: outcome_simps)
      ultimately show ?thesis using w2 Some by (simp add: broken_def)
    next
      case False
      then have "?body ?w1 = Ret acc ?w1" using kb by (simp add: outcome_simps)
      with False w1 show ?thesis by (simp add: broken_def matches_def)
    qed
  qed
  note body = this
  have scoped: "scoped_object E (Some ?a) ?body ?w1 = Ret x w3" if "?body ?w1 = Ret x w2" "di_unref_object E ?a w2 = Ret () w3" for x w2 w3
    using that by (simp add: scoped_object_def mscoped_def mbind_Ret mret_apply)
  show ?thesis
  proof (cases "broken m ?b")
    case True
    with body have "scoped_object E (Some ?a) ?body ?w1 = Crash Null_deref" by (simp add: scoped_object_def mscoped_def)
    with get True show ?thesis by (simp add: mbind_Ret) (simp add: mbind_def)
  next
    case False
    with body un obtain w2 w3 where "?body ?w1 = Ret (acc \<or> matches kc m ?b \<and> b_intercept ?b) w2"
      "di_unref_object E ?a w2 = Ret () w3" "objs w3 = os" by (simp only: if_False) blast
    with scoped get False show ?thesis by (simp add: mbind_Ret) blast
  qed
qed

lemma emit_bindings_exact:
  assumes ok: "bindings_ok E event k bs os"
  shows "objs w = os \<Longrightarrow> i \<le> length bs \<Longrightarrow> length bs - i < n \<Longrightarrow>
    if \<exists>b \<in> set (drop i bs). broken m b then emit_bindings n E k event kc m (of_nat i) acc w = Crash Null_deref
    else \<exists>w'. emit_bindings n E k event kc m (of_nat i) acc w =
           Ret (acc \<or> (\<exists>b \<in> set (drop i bs). matches kc m b \<and> b_intercept b)) w' \<and> objs w' = os"
proof (induction n arbitrary: i acc w)
  case (Suc n)
  from ok Suc.prems(1) obtain ko x y where "objs w k = Some ko" "payload ko = P_xorg_key x y (of_nat (length bs))"
    by (auto simp: bindings_ok_def)
  then have key: "get_key k w = Ret (x, y, of_nat (length bs)) w" by (simp add: get_key_def outcome_simps heap_simps)
  have less: "(of_nat i :: u64) < of_nat (length bs) \<longleftrightarrow> i < length bs"
    using ok Suc.prems(2) by (simp add: bindings_ok_def word_less_nat_alt unat_of_nat)
  show ?case
  proof (cases "i < length bs")
    case False
    then show ?thesis using key less Suc.prems by (simp add: outcome_simps)
  next
    case True
    let ?go = "\<lambda>ic. emit_bindings n E k event kc m (of_nat i + 1) ic"
    have set: "set (drop i bs) = insert (bs ! i) (set (drop (Suc i) bs))" using True by (metis Cons_nth_drop_Suc list.simps(15))
    from emit_one_exact [OF ok True Suc.prems(1), of m acc kc ?go] key less True
    have one: "if broken m (bs ! i) then emit_bindings (Suc n) E k event kc m (of_nat i) acc w = Crash Null_deref
      else \<exists>w'. emit_bindings (Suc n) E k event kc m (of_nat i) acc w =
             ?go (acc \<or> matches kc m (bs ! i) \<and> b_intercept (bs ! i)) w' \<and> objs w' = os"
      by (simp add: mbind_Ret)
    show ?thesis
    proof (cases "broken m (bs ! i)")
      case True
      with one set show ?thesis by simp
    next
      case False
      with one obtain w1 where w1: "emit_bindings (Suc n) E k event kc m (of_nat i) acc w =
          ?go (acc \<or> matches kc m (bs ! i) \<and> b_intercept (bs ! i)) w1" "objs w1 = os" by (simp only: if_False) blast
      have nxt: "of_nat i + 1 = (of_nat (Suc i) :: u64)" by simp
      have "Suc i \<le> length bs" "length bs - Suc i < n" using True Suc.prems(3) by simp_all
      from Suc.IH [OF w1(2) this, of "acc \<or> matches kc m (bs ! i) \<and> b_intercept (bs ! i)"]
      show ?thesis unfolding w1(1) nxt set using False
        by (cases "\<exists>b \<in> set (drop (Suc i) bs). broken m b") (simp_all add: disj_assoc del: of_nat_Suc)
    qed
  qed
qed simp


text \<open>
  C38: A binding whose key codes could not be found stays registered and makes every later key event with its modifiers
  dereference a null pointer, whatever the key.
\<close>

theorem failed_binding_faults:
  assumes "bindings_ok E event k bs (objs w)" and "b \<in> set bs" and "b_keycodes b = None" and "b_mods b = m"
  shows "dispatch_key E k dc event kc m w = Crash Null_deref"
proof -
  have "length bs < e_fuel E" using assms(1) by (simp add: bindings_ok_def)
  with emit_bindings_exact [OF assms(1) refl, of 0 "e_fuel E" m kc False] assms(2-4)
  have "emit_bindings (e_fuel E) E k event kc m 0 False w = Crash Null_deref" by (auto simp: broken_def split: if_splits)
  then show ?thesis by (simp add: dispatch_key_def mbind_def)
qed

section \<open>Modifiers of a released key\<close>

lemma mod_bits_iff: "kc \<noteq> 0 \<Longrightarrow> j < 16 \<Longrightarrow> bit (mod_bits per len kcs kc) j \<longleftrightarrow> (\<exists>i < len. kcs ! i = kc \<and> i div per = j)"
proof (induction len)
  case (Suc len)
  then show ?case by (auto simp: mod_bits_def bit_simps less_Suc_eq)
qed (simp add: mod_bits_def)

lemma row_index:
  fixes p :: nat
  assumes "0 < p"
  shows "(\<exists>i < 2 * p. P i \<and> i div p = j) \<longleftrightarrow> j < 2 \<and> (\<exists>i < p. P (j * p + i))"
proof
  assume "\<exists>i < 2 * p. P i \<and> i div p = j"
  then obtain i where i: "i < 2 * p" "P i" "i div p = j" by blast
  then have "j < 2" using less_mult_imp_div_less by blast
  moreover have "P (j * p + i mod p)" using i(2,3) by (metis div_mult_mod_eq)
  ultimately show "j < 2 \<and> (\<exists>i < p. P (j * p + i))" using assms mod_less_divisor by blast
next
  assume "j < 2 \<and> (\<exists>i < p. P (j * p + i))"
  then obtain i where i: "j < 2" "i < p" "P (j * p + i)" by blast
  then have "j * p + i < 2 * p" by (cases j) auto
  moreover have "(j * p + i) div p = j" using i(2) by simp
  ultimately show "\<exists>i < 2 * p. P i \<and> i div p = j" using i(3) by blast
qed

text \<open>
  C39: When a key is released, the modifiers it stands for are taken from the state only if they are shift or lock.  The reply
  to the request for the modifier mapping has eight rows of \<open>per\<close> key codes and a length of \<open>2 * per\<close> units of four bytes; the loop
  over the key codes ends at that length, so the rows of control and of the other modifiers are not looked at.
\<close>

theorem release_ignores_later_modifiers:
  assumes "the_c dc w = Ret c w" and "xh_modifier_mapping X (effects w) c = Some (per, 2 * ucast per, Some ks)"
    and "length ks = 8 * unat per" and "per \<noteq> 0" and "kc \<noteq> 0"
  shows "\<exists>own. mod_from_keycode X dc kc w = Ret own w \<and>
    (\<forall>j < 8. bit own j \<longleftrightarrow> j < 2 \<and> kc \<in> set (take (unat per) (drop (j * unat per) ks)))"
proof -
  have "unat per < 2 ^ LENGTH(8)" by (rule unsigned_less)
  then have len: "unat (2 * ucast per :: u32) = 2 * unat per" by (simp add: unat_word_ariths unsigned_ucast_eq take_bit_nat_def)
  have p: "0 < unat per" using assms(4) by (simp add: unat_gt_0)
  have row: "(\<exists>i < 2 * unat per. ks ! i = kc \<and> i div unat per = j) \<longleftrightarrow> j < 2 \<and> kc \<in> set (take (unat per) (drop (j * unat per) ks))"
    if "j < 8" for j
  proof -
    have "j * unat per + unat per \<le> length ks" using that assms(3) by (metis Suc_leI mult_Suc mult_le_mono1 add.commute)
    then have "kc \<in> set (take (unat per) (drop (j * unat per) ks)) \<longleftrightarrow> (\<exists>i < unat per. ks ! (j * unat per + i) = kc)"
      by (auto simp: in_set_conv_nth)
    moreover have "(\<exists>i < 2 * unat per. ks ! i = kc \<and> i div unat per = j) \<longleftrightarrow> j < 2 \<and> (\<exists>i < unat per. ks ! (j * unat per + i) = kc)"
      by (rule row_index [OF p])
    ultimately show ?thesis by simp
  qed
  have "mod_from_keycode X dc kc w = Ret (mod_bits (unat per) (2 * unat per) ks kc) w"
    using assms len by (simp add: mod_from_keycode_def x_reply_def outcome_simps)
  then show ?thesis using mod_bits_iff [OF assms(5)] row by auto
qed

section \<open>Examples\<close>

definition sample_bindings :: "u8 list option \<Rightarrow> binding list" where
  "sample_bindings kcs = [\<lparr>b_obj = 3, b_keycodes = Some [38], b_mods = 4, b_intercept = True\<rparr>,
     \<lparr>b_obj = 4, b_keycodes = kcs, b_mods = 8, b_intercept = False\<rparr>]"

definition key_heap :: "u8 list option \<Rightarrow> world" where
  "key_heap kcs = empty_world\<lparr>objs := [1 \<mapsto> sample_connection,
     2 \<mapsto> (di_init_object (P_xorg_key 0 1 2))\<lparr>members := [(''___keybinding_0'', V_object 3), (''___keybinding_1'', V_object 4)]\<rparr>,
     3 \<mapsto> di_init_object (P_keybinding 97 (Some [38]) 4 True), 4 \<mapsto> di_init_object (P_keybinding 98 kcs 8 False)]\<rparr>"

lemma emit_unheard: "objs w a = Some ob \<Longrightarrow> members ob = [] \<Longrightarrow> di_emit E a event [] w = Ret () w"
  by (simp add: di_emit_def di_emitn_def di_get_def di_getxt_def di_getx_def di_rawgetx_def di_refrawgetx_def signal_member_name_def
      di_string_borrow_def call_handler_none no_handler_def exact errno_defs outcome_simps)

lemma sample_bindings_ok:
  assumes "\<And>ks. kcs = Some ks \<Longrightarrow> length ks < 10"
  shows "bindings_ok demo_env ''pressed'' 2 (sample_bindings kcs) (objs (key_heap kcs))"
proof -
  have d: "dec_string 0 = ''0''" "dec_string (Suc 0) = ''1''"
    by (simp_all add: dec_string.simps [of 0] dec_string.simps [of "Suc 0"] digit_char_def char_of_def bit_0)
  have quiet: "\<exists>w'. di_emit demo_env a ''pressed'' [] w = Ret () w' \<and> objs w' = objs w"
    if "objs w = with_ref a (objs (key_heap kcs))" "a = 3 \<or> a = 4" for w a
  proof -
    have "objs w a = Some ((di_init_object (P_keybinding 97 (Some [38]) 4 True))\<lparr>ref_count := 2\<rparr>) \<or>
        objs w a = Some ((di_init_object (P_keybinding 98 kcs 8 False))\<lparr>ref_count := 2\<rparr>)"
      using that by (auto simp: with_ref_def key_heap_def di_init_object_def)
    then show ?thesis using emit_unheard [of w a] by (auto simp: di_init_object_def)
  qed
  have "hash_find (''___keybinding_'' @ dec_string i) [(''___keybinding_0'', V_object 3), (''___keybinding_1'', V_object 4)] =
      Some (V_object (b_obj (sample_bindings kcs ! i)))" if "i < 2" for i
  proof -
    from that have "i = 0 \<or> i = Suc 0" by linarith
    then show ?thesis by (elim disjE) (simp_all add: d sample_bindings_def)
  qed
  then show ?thesis
    using assms quiet unfolding bindings_ok_def
    by (simp add: sample_bindings_def binding_ok_def key_heap_def di_init_object_def demo_env_def)
qed


theorem failed_binding_faults_witness:
  "dispatch_key demo_env 2 1 ''pressed'' 24 8 (key_heap None) = Crash Null_deref"
  by (rule failed_binding_faults [OF sample_bindings_ok, of _ "\<lparr>b_obj = 4, b_keycodes = None, b_mods = 8, b_intercept = False\<rparr>"])
    (simp_all add: sample_bindings_def)

theorem release_ignores_later_modifiers_witness:
  "\<exists>own. mod_from_keycode sample_server 1 37 (key_heap None) = Ret own (key_heap None) \<and> (\<forall>j < 8. \<not> bit own j)"
proof -
  let ?ks = "[50, 62, 66, 0, 37, 105, 64, 108, 77, 0, 0, 0, 133, 134, 92, 0] :: u8 list"
  have "the_c 1 (key_heap None) = Ret 1 (key_heap None)"
    by (simp add: the_c_def get_xc_def key_heap_def sample_connection_def di_init_object_def outcome_simps heap_simps)
  then have "\<exists>own. mod_from_keycode sample_server 1 37 (key_heap None) = Ret own (key_heap None) \<and>
      (\<forall>j < 8. bit own j \<longleftrightarrow> j < 2 \<and> 37 \<in> set (take (unat (2 :: u8)) (drop (j * unat (2 :: u8)) ?ks)))"
    by (rule release_ignores_later_modifiers) (simp_all add: sample_server_def)
  moreover have "\<not> (j < 2 \<and> 37 \<in> set (take (unat (2 :: u8)) (drop (j * unat (2 :: u8)) ?ks)))" for j :: nat
  proof -
    have "j < 2 \<Longrightarrow> j = 0 \<or> j = 1" by linarith
    then show ?thesis by (auto simp: take_Cons' drop_Cons')
  qed
  ultimately show ?thesis by blast
qed

end
