(* ===== verification/Deai_Randr_Props.thy ===== *)
theory Deai_Randr_Props
  imports Deai_Randr Deai_Xorg_Props
begin

text \<open>
  Setting the configuration of a view: the request is repeated until the server accepts its time stamp, and the rotation
  that is sent is the one that is read back.
\<close>

section \<open>The requests of a view configuration\<close>

text \<open>
  The request made after the history \<open>h\<close>, if the view can be asked for; the history after it; and whether the
  server wants it repeated.
\<close>

definition crtc_request :: "x_host \<Rightarrow> nat \<Rightarrow> u32 \<Rightarrow> u32 \<Rightarrow> int \<Rightarrow> int \<Rightarrow> u32 \<Rightarrow> u16 \<Rightarrow> u32 list option \<Rightarrow> effect list \<Rightarrow> effect option" where
  "crtc_request X c i cts x y mode rot outs h =
     (case xh_crtc_info X h c i cts of
        None \<Rightarrow> None
      | Some cr \<Rightarrow>
          if xc_status cr \<noteq> 0 then None
          else Some (Randr_set_crtc c i (xc_timestamp cr) cts x y mode rot (case outs of None \<Rightarrow> xc_outputs cr | Some os \<Rightarrow> os)))"

definition sent :: "(effect list \<Rightarrow> effect option) \<Rightarrow> effect list \<Rightarrow> effect list" where
  "sent req h = (case req h of None \<Rightarrow> h | Some e \<Rightarrow> h @ [e])"

definition refused :: "x_host \<Rightarrow> (effect list \<Rightarrow> effect option) \<Rightarrow> effect list \<Rightarrow> bool" where
  "refused X req h \<longleftrightarrow> req h \<noteq> None \<and> xh_set_crtc X (sent req h) = Some XCB_RANDR_SET_CONFIG_INVALID_TIME"

text \<open>An object of a view, of the extension and of a connection.\<close>

definition view_world :: "addr \<Rightarrow> addr \<Rightarrow> addr \<Rightarrow> u32 \<Rightarrow> u32 \<Rightarrow> nat \<Rightarrow> world \<Rightarrow> bool" where
  "view_world v rr dc i cts c w \<longleftrightarrow>
     (\<exists>vo ro co n op evb s ns k es.
        objs w v = Some vo \<and> payload vo = P_xorg_view i \<and>
        objs w rr = Some ro \<and> payload ro = P_xorg_randr n op evb cts \<and>
        objs w dc = Some co \<and> payload co = P_xorg_connection (Some c) s ns k es)"

lemma view_world_effects [simp]: "view_world v rr dc i cts c (w\<lparr>effects := h\<rparr>) = view_world v rr dc i cts c w"
  by (simp add: view_world_def)

lemma crtc_info_exact:
  assumes "view_world v rr dc i cts c w"
  shows "crtc_info_reply X v rr dc w = Ret (xh_crtc_info X (effects w) c i cts) w"
    and "view_id v w = Ret i w" and "rr_cts rr w = Ret cts w" and "the_c dc w = Ret c w"
  using assms
  by (auto simp: view_world_def crtc_info_reply_def view_id_def rr_cts_def get_rr_def the_c_def get_xc_def x_reply_def
      outcome_simps heap_simps)

lemma set_crtc_step:
  fixes X :: x_host and x y :: int and mode :: u32 and rot :: u16 and outs :: "u32 list option"
  assumes "view_world v rr dc i cts c w"
  defines "req \<equiv> crtc_request X c i cts x y mode rot outs"
  shows "set_crtc_loop (Suc n) X v rr dc x y mode rot outs w =
    (if refused X req (effects w) then set_crtc_loop n X v rr dc x y mode rot outs (w\<lparr>effects := sent req (effects w)\<rparr>)
     else Ret () (w\<lparr>effects := sent req (effects w)\<rparr>))"
  using crtc_info_exact [OF assms(1)]
  by (auto simp: req_def crtc_request_def refused_def sent_def x_reply_def outcome_simps heap_simps split: option.splits)

lemma set_crtc_loop_returns:
  fixes X :: x_host and x y :: int and mode :: u32 and rot :: u16 and outs :: "u32 list option"
  assumes "view_world v rr dc i cts c w"
  defines "req \<equiv> crtc_request X c i cts x y mode rot outs"
  assumes "\<And>j. j < k \<Longrightarrow> refused X req ((sent req ^^ j) (effects w))" and "\<not> refused X req ((sent req ^^ k) (effects w))"
    and "k < n"
  shows "set_crtc_loop n X v rr dc x y mode rot outs w = Ret () (w\<lparr>effects := (sent req ^^ Suc k) (effects w)\<rparr>)"
  using assms(1,3-5)
proof (induction k arbitrary: n w)
  case 0
  then show ?case by (cases n) (simp_all add: set_crtc_step req_def del: set_crtc_loop.simps)
next
  case (Suc k)
  then obtain m where n: "n = Suc m" by (cases n) auto
  let ?w = "w\<lparr>effects := sent req (effects w)\<rparr>"
  have "refused X req ((sent req ^^ j) (effects ?w))" if "j < k" for j
    using Suc.prems(2) [of "Suc j"] that by (simp add: funpow_swap1)
  moreover have "\<not> refused X req ((sent req ^^ k) (effects ?w))" using Suc.prems(3) by (simp add: funpow_swap1)
  ultimately have "set_crtc_loop m X v rr dc x y mode rot outs ?w = Ret () (?w\<lparr>effects := (sent req ^^ Suc k) (effects ?w)\<rparr>)"
    using Suc.prems(1,4) n by (intro Suc.IH) simp_all
  moreover have "refused X req (effects w)" using Suc.prems(2) [of 0] by simp
  ultimately show ?case
    using Suc.prems(1) n by (simp add: set_crtc_step req_def funpow_swap1 del: set_crtc_loop.simps)
qed

section \<open>Rotation\<close>

lemma low_two_bits: "and (ucast r) 3 = (of_bool (bit r 0) + 2 * of_bool (bit r 1) :: u64)" for r :: u32
proof -
  have "take_bit 2 a = of_bool (bit a 0) + 2 * of_bool (bit a 1)" for a :: u64
    by (simp add: numeral_2_eq_2 take_bit_Suc mod_2_eq_odd bit_0 bit_Suc)
  from this [of "ucast r"] show ?thesis by (simp add: take_bit_eq_mask mask_eq_exp_minus_1 bit_simps)
qed

text \<open>
  A rotation and a reflection that are written to a view are what is read from it: the rotation the server is
  sent encodes rotations from 0 to 3 and the two lowest bits of the reflection, other rotations are refused, and reading it gives
  them back.
\<close>

theorem rotation_roundtrip:
  "case rr_rotation rotation reflection of
     None \<Rightarrow> rotation < 0 \<or> 3 < rotation
   | Some rot \<Rightarrow>
       0 \<le> rotation \<and> rotation \<le> 3 \<and> rotation_of rot = of_int rotation \<and> reflection_of rot = and (ucast reflection) 3"
proof (cases "0 \<le> rotation \<and> rotation \<le> 3")
  case True
  then consider "rotation = 0" | "rotation = 1" | "rotation = 2" | "rotation = 3" by linarith
  moreover have "and (ucast reflection) 3 = (of_bool (bit reflection 0) + 2 * of_bool (bit reflection 1) :: u64)"
    by (rule low_two_bits)
  ultimately show ?thesis
    by cases (simp_all add: rr_rotation_def rotation_of_def reflection_of_def bit_simps)
qed (auto simp: rr_rotation_def)

section \<open>Liveness\<close>


definition view_heap :: world where
  "view_heap = empty_world\<lparr>objs := [1 \<mapsto> sample_connection, 2 \<mapsto> di_init_object (P_xorg_randr 0 140 89 7),
     3 \<mapsto> di_init_object (P_xorg_view 65)]\<rparr>"


end
