(* ===== verification/Deai_Xkeymap_Props.thy ===== *)
theory Deai_Xkeymap_Props
  imports Deai_Xorg_Conn
begin

text \<open>
  The table of modifiers computed from a keymap: the linked lists in fixed arrays are lists of key codes.
\<close>

section \<open>Reference definition\<close>

text \<open>What probing the keys in order gives: each modifier a key activates, with the key.\<close>

fun activations :: "x_host \<Rightarrow> nat \<Rightarrow> nat \<Rightarrow> u32 list \<Rightarrow> (nat \<times> u32) list" where
  "activations X km st [] = []"
| "activations X km st (i # is) =
     (let (st', js) = probe_state X km st i in map (\<lambda>j. (j, i)) js @ activations X km st' is)"

definition keys_of :: "(nat \<times> u32) list \<Rightarrow> nat \<Rightarrow> u32 list" where
  "keys_of ps j = rev (map snd (filter (\<lambda>p. fst p = j) ps))"

definition widest :: "(nat \<times> u32) list \<Rightarrow> nat" where
  "widest ps = Max (insert 0 ((\<lambda>j. length (keys_of ps j)) ` {..<8}))"

definition modifier_table :: "(nat \<times> u32) list \<Rightarrow> u8 list" where
  "modifier_table ps = concat (map (\<lambda>j. map ucast (keys_of ps j) @ replicate (widest ps - length (keys_of ps j)) 0) [0..<8])"

section \<open>Linked lists in arrays\<close>

fun chain :: "mod_lists \<Rightarrow> int \<Rightarrow> u32 list \<Rightarrow> bool" where
  "chain l cur [] \<longleftrightarrow> cur = -1"
| "chain l cur (k # ks) \<longleftrightarrow>
     0 \<le> cur \<and> nat cur < total_keycodes l \<and> ml_keycodes l ! nat cur = k \<and> chain l (next_keycode_indices l ! nat cur) ks"

definition lists_ok :: "mod_lists \<Rightarrow> (nat \<times> u32) list \<Rightarrow> bool" where
  "lists_ok l ps \<longleftrightarrow>
     length (next_keycode_indices l) = MAX_KEYCODE \<and> length (ml_keycodes l) = MAX_KEYCODE \<and>
     length (modifier_keycode_head l) = 8 \<and> length (modifier_keycode_count l) = 8 \<and>
     total_keycodes l = length ps \<and> length ps \<le> MAX_KEYCODE \<and>
     (\<forall>j < 8. chain l (modifier_keycode_head l ! j) (keys_of ps j) \<and> modifier_keycode_count l ! j = length (keys_of ps j))"

lemma keys_of_snoc [simp]: "keys_of (ps @ [(j, i)]) j' = (if j' = j then i # keys_of ps j' else keys_of ps j')"
  by (simp add: keys_of_def)

lemma chain_push:
  assumes "chain l cur ks" and "total_keycodes l' = Suc (total_keycodes l)"
    and "\<And>t. t < total_keycodes l \<Longrightarrow> ml_keycodes l' ! t = ml_keycodes l ! t \<and> next_keycode_indices l' ! t = next_keycode_indices l ! t"
  shows "chain l' cur ks"
  using assms(1) by (induction ks arbitrary: cur) (use assms(2,3) in auto)

lemma push_keycode_ok:
  assumes "lists_ok l ps" and "j < 8"
  shows "if length ps < MAX_KEYCODE then \<exists>l'. push_keycode i j l = Some l' \<and> lists_ok l' (ps @ [(j, i)])
    else push_keycode i j l = None"
proof (cases "length ps < MAX_KEYCODE")
  case True
  let ?t = "total_keycodes l"
  let ?l = "l\<lparr>next_keycode_indices := (next_keycode_indices l)[?t := modifier_keycode_head l ! j],
     modifier_keycode_head := (modifier_keycode_head l)[j := int ?t], ml_keycodes := (ml_keycodes l)[?t := i],
     total_keycodes := Suc ?t, modifier_keycode_count := (modifier_keycode_count l)[j := Suc (modifier_keycode_count l ! j)]\<rparr>"
  have push: "push_keycode i j l = Some ?l" using assms True by (simp add: push_keycode_def lists_ok_def Let_def)
  have old: "chain ?l cur ks" if "chain l cur ks" for cur ks by (rule chain_push [OF that]) simp_all
  have "chain ?l (modifier_keycode_head ?l ! j') (keys_of (ps @ [(j, i)]) j')" if "j' < 8" for j'
    using old assms that True by (auto simp: lists_ok_def nth_list_update)
  with push assms True show ?thesis by (auto simp: lists_ok_def nth_list_update)
qed (use assms in \<open>simp add: push_keycode_def lists_ok_def Let_def\<close>)

lemma push_mods_ok:
  assumes "lists_ok l ps" and "\<And>j. j \<in> set js \<Longrightarrow> j < 8"
  shows "if length ps + length js \<le> MAX_KEYCODE then \<exists>l'. push_mods i js l = Some l' \<and> lists_ok l' (ps @ map (\<lambda>j. (j, i)) js)
    else push_mods i js l = None"
  using assms
proof (induction js arbitrary: l ps)
  case Nil
  then show ?case by (simp add: lists_ok_def)
next
  case (Cons j js)
  show ?case
  proof (cases "length ps < MAX_KEYCODE")
    case True
    with push_keycode_ok [OF Cons.prems(1), of j i] Cons.prems(2)
    obtain l' where l': "push_keycode i j l = Some l'" "lists_ok l' (ps @ [(j, i)])" by auto
    with Cons.IH [OF l'(2)] Cons.prems(2) show ?thesis by (simp split: if_splits)
  next
    case False
    with push_keycode_ok [OF Cons.prems(1), of j i] Cons.prems(2) show ?thesis by simp
  qed
qed

lemma probe_mods: "probe_state X km st i = (st', js) \<Longrightarrow> j \<in> set js \<Longrightarrow> j < 8"
  by (auto simp: probe_state_def active_mods_def Let_def split: prod.splits if_splits)

lemma probe_keys_ok:
  assumes "lists_ok l ps"
  shows "if length ps + length (activations X km st is) \<le> MAX_KEYCODE
    then \<exists>l'. probe_keys X km st is l = Some l' \<and> lists_ok l' (ps @ activations X km st is)
    else probe_keys X km st is l = None"
  using assms
proof (induction "is" arbitrary: l ps st)
  case Nil
  then show ?case by (simp add: lists_ok_def)
next
  case (Cons i "is")
  obtain st' js where p: "probe_state X km st i = (st', js)" by fastforce
  show ?case
  proof (cases "length ps + length js \<le> MAX_KEYCODE")
    case True
    with push_mods_ok [OF Cons.prems, of js i] probe_mods [OF p]
    obtain l' where l': "push_mods i js l = Some l'" "lists_ok l' (ps @ map (\<lambda>j. (j, i)) js)" by auto
    from Cons.IH [OF l'(2), of st'] l'(1) p show ?thesis by (simp add: add.assoc split: if_splits)
  next
    case False
    with push_mods_ok [OF Cons.prems, of js i] probe_mods [OF p] p show ?thesis by simp
  qed
qed

lemma walk_chain: "chain l cur ks \<Longrightarrow> length ks \<le> n \<Longrightarrow> walk_list n l cur = Some ks"
proof (induction ks arbitrary: cur n)
  case Nil
  then show ?case by (simp add: walk_list.simps)
next
  case (Cons k ks)
  then obtain m where "n = Suc m" by (cases n) auto
  with Cons show ?case by (subst walk_list.simps) auto
qed

lemma empty_lists_ok: "lists_ok empty_lists []"
  by (simp add: lists_ok_def empty_lists_def keys_of_def)

lemma widest_bound: "j < 8 \<Longrightarrow> length (keys_of ps j) \<le> widest ps"
  by (simp add: widest_def)

lemma counts_widest:
  assumes "lists_ok l ps"
  shows "Max (insert 0 (set (modifier_keycode_count l))) = widest ps"
proof -
  have "modifier_keycode_count l = map (\<lambda>j. length (keys_of ps j)) [0..<8]"
    using assms by (intro nth_equalityI) (simp_all add: lists_ok_def)
  then have "set (modifier_keycode_count l) = (\<lambda>j. length (keys_of ps j)) ` {..<8}" by (simp only: set_map set_upt lessThan_atLeast0)
  then show ?thesis by (simp only: widest_def)
qed

lemma keycode_row_ok:
  assumes "lists_ok l ps" and "j < 8"
  shows "keycode_row (widest ps) l j = Some (map ucast (keys_of ps j) @ replicate (widest ps - length (keys_of ps j)) 0)"
  using walk_chain [of l "modifier_keycode_head l ! j" "keys_of ps j" "widest ps"] assms widest_bound [OF assms(2)]
  by (simp add: keycode_row_def lists_ok_def)

section \<open>The table\<close>

text \<open>
  C22: The table of modifiers sent to the server has for each of the eight modifiers the keys that activate it, the last
  one first, filled with zeros to the length of the longest.  A keymap with more than 256 pairs of a key and a modifier it
  activates is written behind the arrays.
\<close>

theorem find_modifiers_table:
  "find_modifiers X km is w =
    (let ps = activations X km (xh_state_new X km) is in
     if \<not> list_all (xh_has_mod X km) xkb_modifier_names then Crash Assert_failed
     else if length ps > 256 then Crash Out_of_bounds
     else Ret (widest ps, modifier_table ps) w)"
proof -
  let ?ps = "activations X km (xh_state_new X km) is"
  have ok: "if length ?ps \<le> 256 then \<exists>l. probe_keys X km (xh_state_new X km) is empty_lists = Some l \<and> lists_ok l ?ps
    else probe_keys X km (xh_state_new X km) is empty_lists = None"
    using probe_keys_ok [OF empty_lists_ok, of X km "xh_state_new X km" "is"] by (simp add: MAX_KEYCODE_def split: if_splits)
  show ?thesis
  proof (cases "length ?ps \<le> 256")
    case True
    with ok obtain l where l: "probe_keys X km (xh_state_new X km) is empty_lists = Some l" "lists_ok l ?ps" by auto
    have rows: "map (keycode_row (widest ?ps) l) [0..<8] =
        map (\<lambda>j. Some (map ucast (keys_of ?ps j) @ replicate (widest ?ps - length (keys_of ?ps j)) 0)) [0..<8]"
      using keycode_row_ok [OF l(2)] by simp
    have "None \<notin> set (map (keycode_row (widest ?ps) l) [0..<8])"
      "concat (map the (map (keycode_row (widest ?ps) l) [0..<8])) = modifier_table ?ps"
      unfolding rows by (auto simp: modifier_table_def comp_def)
    with l True counts_widest [OF l(2)] show ?thesis
      by (simp only: find_modifiers_def Let_def) (simp add: mseq_def mbind_def outcome_simps)
  next
    case False
    with ok show ?thesis by (simp add: find_modifiers_def Let_def mseq_def mbind_def outcome_simps)
  qed
qed

end
