(* ===== verification/Spec2Isabelle.thy ===== *)
theory Spec2Isabelle
  imports Deai_Memory Deai_Promise Deai_Log Deai_Os Deai_Spawn Deai_Proctree Deai_Signature_Proof
    Deai_Klist_Props Deai_Text_Props Deai_Conv_Props Deai_Object_Props Deai_Signal_Props Deai_Roots_Props Deai_Spawn_Props
    Deai_Proctitle Deai_Cmdline_Props Deai_Sedes_Props Deai_File_Props Deai_Dbus_Props Deai_Uthash_Props
    Deai_Xorg_Conn Deai_Xorg_Props Deai_Xinput_Props Deai_Xkey_Props Deai_Randr_Props Deai_Xkeymap_Props
begin

text \<open>
  A verification development for deai, an event-driven automation daemon whose core is a small
  dynamic object system written in C.

  \<^bold>\<open>The program.\<close>  Everything in deai is an object with named members (\<^verbatim>\<open>object.c\<close>).  Objects are reference counted, with strong and
  weak references, and cycles are found by a trial-deletion collector.  Members hold tagged values (\<^verbatim>\<open>include/deai/object.h\<close>), values
  are converted by \<^verbatim>\<open>bindings/c++/conv.cc\<close>, read and written through getters, setters and deleters, called through closures and
  trampolines (\<^verbatim>\<open>callable.c\<close>), and errors travel as C++ exceptions carrying an error object (\<^verbatim>\<open>exception.cc\<close>).  Signals are objects in
  members named \<^verbatim>\<open>__signal_*\<close>.  Modules built on this are the event loop (\<^verbatim>\<open>event.c\<close>), logging (\<^verbatim>\<open>log.c\<close>), the environment (\<^verbatim>\<open>os.c\<close>), child
  processes (\<^verbatim>\<open>spawn.c\<close>), and the roots, options and shut-down of \<^verbatim>\<open>main.c\<close>; plugins add D-Bus, files, Lua and X11
  (\<^verbatim>\<open>plugins/\<close>).

  \<^bold>\<open>The model.\<close>  Stateful code is a function of the state-and-outcome monad of \<^verbatim>\<open>Deai_Prelude\<close>: an operation takes a \<^verbatim>\<open>world\<close> (object heap,
  collector lists, environment, pending output effects) and gives \<^verbatim>\<open>Ret v w\<close>, \<^verbatim>\<open>Throw e w\<close> for an exception that unwinds, or \<^verbatim>\<open>Crash f\<close> for what the C program cannot
  survive: a failed assertion, a use of freed or null memory, an access outside a buffer, exhausted fuel.  Addresses are natural numbers, reference
  counts and marks keep their C widths as words, strings are optional byte lists (null data is \<^verbatim>\<open>None\<close>).  What the sources only call (libev, libffi, libdbus,
  libc, the bodies of user callbacks) enters through the record \<^verbatim>\<open>env\<close>, a parameter of the operations; calls without a result are entries of an effect log.

  \<^item> \<^verbatim>\<open>Deai_Strings\<close>, \<^verbatim>\<open>Deai_String_Buf\<close>, \<^verbatim>\<open>Deai_Format\<close>: \<^verbatim>\<open>di_string\<close> of \<^verbatim>\<open>object.h\<close>, the chunk buffer of \<^verbatim>\<open>string_buf.c\<close>, the printf forms in use.
    \<^verbatim>\<open>Deai_Text_Props\<close>: joining and splitting, bounds of views, dumps, environment variables, directory listings, log levels.
  \<^item> \<^verbatim>\<open>Deai_Klist\<close>: \<^verbatim>\<open>list.h\<close> on a pointer memory; \<^verbatim>\<open>Deai_Klist_Props\<close> shows that its operations refine operations on sequences.
  \<^item> \<^verbatim>\<open>Deai_Uthash\<close>: the hash tables of \<^verbatim>\<open>uthash.h\<close> on the memory of the embedded handles; \<^verbatim>\<open>Deai_Uthash_Props\<close> shows that they refine lists of entries
    in the order of insertion, for every hash function and through every expansion.  The other theories use such lists for the tables in the code.
  \<^item> \<^verbatim>\<open>Deai_Values\<close>, \<^verbatim>\<open>Deai_World\<close>, \<^verbatim>\<open>Deai_Object\<close>: types, values, the heap, and the reference counting and raw member operations of \<^verbatim>\<open>object.c\<close>.
    \<^verbatim>\<open>Deai_Refcount\<close> defines the invariant \<^verbatim>\<open>heap_ok pend ext wext w\<close>: every count equals the references held by members and payloads plus
    those held outside (\<^verbatim>\<open>ext\<close>, \<^verbatim>\<open>wext\<close>); it and \<^verbatim>\<open>Deai_Members\<close> show how each operation moves references between the three.
  \<^item> \<^verbatim>\<open>Deai_Gc\<close>: the collector; \<^verbatim>\<open>Deai_Gc_Proof\<close> and \<^verbatim>\<open>Deai_Gc_Scan\<close> verify its marking and scanning, \<^verbatim>\<open>Deai_Gc_Collect\<close> the freeing of what they find, \<^verbatim>\<open>Deai_Memory\<close> states the memory properties.
  \<^item> \<^verbatim>\<open>Deai_Conv\<close>, \<^verbatim>\<open>Deai_Property\<close>, \<^verbatim>\<open>Deai_Callable\<close>, \<^verbatim>\<open>Deai_Error\<close>, \<^verbatim>\<open>Deai_Signal\<close>: conversion, properties and calls, closures, errors and signals, with
    \<^verbatim>\<open>Deai_Conv_Props\<close>, \<^verbatim>\<open>Deai_Object_Props\<close> and \<^verbatim>\<open>Deai_Signal_Props\<close>.
  \<^item> \<^verbatim>\<open>Deai_Roots\<close>, \<^verbatim>\<open>Deai_Event\<close>, \<^verbatim>\<open>Deai_Promise\<close>, \<^verbatim>\<open>Deai_Log\<close>, \<^verbatim>\<open>Deai_Os\<close>, \<^verbatim>\<open>Deai_Spawn\<close>, \<^verbatim>\<open>Deai_Proctree\<close>: the built-in modules and the parts of \<^verbatim>\<open>main.c\<close> for
    roots and for killing descendants; \<^verbatim>\<open>Deai_Roots_Props\<close> and \<^verbatim>\<open>Deai_Spawn_Props\<close> hold the properties of roots and of child output.
  \<^item> \<^verbatim>\<open>Deai_Proctitle\<close>: the process title on a memory image; \<^verbatim>\<open>Deai_Cmdline\<close> and \<^verbatim>\<open>Deai_Cmdline_Props\<close>: plugins, arguments and \<^verbatim>\<open>main\<close>.
  \<^item> \<^verbatim>\<open>Deai_Signature\<close>, \<^verbatim>\<open>Deai_Signature_Proof\<close>: the D-Bus signature code of \<^verbatim>\<open>plugins/dbus/signature.c\<close>; \<^verbatim>\<open>Deai_Sedes\<close>, \<^verbatim>\<open>Deai_Sedes_Props\<close>: the
    messages of \<^verbatim>\<open>plugins/dbus/sedes.c\<close>, with the calls to libdbus and its iterators as the interface.
  \<^item> \<^verbatim>\<open>Deai_File\<close>: the watches of \<^verbatim>\<open>plugins/file/file.c\<close>; \<^verbatim>\<open>Deai_Dbus\<close>, \<^verbatim>\<open>Deai_Dbus_Filter\<close>: requests, proxies, name owners, incoming messages and connections of \<^verbatim>\<open>plugins/dbus/dbus.c\<close>,
    with libdbus as the record \<^verbatim>\<open>dbus_host\<close>.  \<^verbatim>\<open>Deai_File_Props\<close> refines a watch to a map, \<^verbatim>\<open>Deai_Promise_Props\<close> follows the settling of a promise and
    \<^verbatim>\<open>Deai_Dbus_Props\<close> a reply and a subscription, all with the exact evaluation rules of \<^verbatim>\<open>Deai_Exact\<close>.
  \<^item> \<^verbatim>\<open>Deai_Xorg\<close>, \<^verbatim>\<open>Deai_Xorg_Conn\<close>: \<^verbatim>\<open>plugins/xorg/xorg.h\<close> and \<^verbatim>\<open>xorg.c\<close>, that is the atom cache, signals that keep a connection listening, dispatch of events to extensions,
    the keyboard mapping and connecting; \<^verbatim>\<open>Deai_Xkey\<close>, \<^verbatim>\<open>Deai_Xinput\<close>, \<^verbatim>\<open>Deai_Randr\<close>: the extensions \<^verbatim>\<open>key.c\<close>, \<^verbatim>\<open>xinput.c\<close> and \<^verbatim>\<open>randr.c\<close>.  The X server with xcb and xkbcommon
    is the record \<^verbatim>\<open>x_host\<close>; its answers may depend on the requests made before, the effect log.  \<^verbatim>\<open>Deai_Xorg_Props\<close> shows that the atom cache is transparent,
    \<^verbatim>\<open>Deai_Xinput_Props\<close> that selecting events refines counting listeners and that device properties are read back, \<^verbatim>\<open>Deai_Xkey_Props\<close> what happens to key events,
    \<^verbatim>\<open>Deai_Randr_Props\<close> that setting a view ends once the server accepts it, \<^verbatim>\<open>Deai_Xkeymap_Props\<close> that linked lists in arrays give the table of modifiers.
  \<^item> \<^verbatim>\<open>Deai_Refine\<close>: the interface \<^verbatim>\<open>step_refinement\<close> between an operation and its specification, with the lemma on sequences of operations; it is interpreted on
    the hash table and on the event selection.

  \<^bold>\<open>Bounds and fuel.\<close>  Destruction is recursive through members, so \<^verbatim>\<open>unref_object_fuel\<close> and the member loops take fuel from \<^verbatim>\<open>e_fuel\<close>; the theorems assume
  \<^verbatim>\<open>enough_fuel\<close>, at least the number of live objects and the members of any of them, and show that this is enough for a result.  Marking and
  scanning take the number of objects and edges, parsing the length of its input plus one; the theorems show that these suffice on every input.
  The conditions \<^verbatim>\<open>copy_room\<close> and \<^verbatim>\<open>count_room\<close> say that the counts concerned stay below \<^verbatim>\<open>2 ^ 64\<close>, as they must for the code to be right.
  \<^verbatim>\<open>dtors_neutral\<close> says that destructors registered by modules return and leave the heap unchanged.

  Requests to the X server that are repeated until it accepts them take \<^verbatim>\<open>e_fuel\<close>; the theorem says that any fuel above the number of refusals is enough.
  The events polled from a connection are a list, an argument of \<^verbatim>\<open>di_xorg_ioev\<close>.

  A chain of a hash table is walked with the number of items as fuel; adding assumes that the number of buckets can still be doubled in 32 bits.

  \<^bold>\<open>Not modelled.\<close>  The macros of \<^verbatim>\<open>uthash.h\<close> that deai does not use (sorting, selecting, replacing, Bloom filter), stack traces (libunwind, libbacktrace), the object
  tracking that is compiled in for debugging only, the C++ wrapper templates, and the plugins that bind Lua, evdev and udev: their behaviour
  is that of libraries which are not part of the repository.
\<close>

end
